(* ===== verification/Imap_Prelude.thy ===== *)
theory Imap_Prelude
  imports Main
begin

text \<open>
  Shared vocabulary of the development.

  Go strings are byte strings, so they are modelled as \<open>string\<close> (a list of 8-bit
  characters). The functions of Go's package \<open>strings\<close> that the sources use are
  defined here on that type. Case mapping and white space are the ASCII tables: on a
  string with a byte above 127 Go's Unicode tables may map or trim more than the model.
  Times are nanoseconds since the Unix epoch (\<open>int\<close>), durations are \<open>int64\<close>
  nanoseconds with the wrap-around and the saturation of package \<open>time\<close> written out.
  The theory ends with the generic lemmas on lists, maps and strings that the component
  theories share.
\<close>

named_theorems go_string_simps \<open>evaluation rules for the string library\<close>

section \<open>Characters\<close>

definition is_space :: "char \<Rightarrow> bool" where
  "is_space c = (c \<in> {CHR 0x09, CHR 0x0A, CHR 0x0B, CHR 0x0C, CHR 0x0D, CHR 0x20})"

definition lower_char :: "char \<Rightarrow> char" where
  "lower_char c = (let n = (of_char c :: nat) in if 65 \<le> n \<and> n \<le> 90 then char_of (n + 32) else c)"

definition is_digit :: "char \<Rightarrow> bool" where
  "is_digit c = (let n = (of_char c :: nat) in 48 \<le> n \<and> n \<le> 57)"

definition digit_val :: "char \<Rightarrow> nat" where
  "digit_val c = (of_char c :: nat) - 48"

abbreviation newline_char :: char where "newline_char \<equiv> CHR 0x0A"

section \<open>The functions of package strings\<close>

definition to_lower :: "string \<Rightarrow> string" where
  "to_lower s = map lower_char s"

definition trim_left :: "string \<Rightarrow> string" where
  "trim_left s = dropWhile is_space s"

definition trim_space :: "string \<Rightarrow> string" where
  "trim_space s = rev (dropWhile is_space (rev (dropWhile is_space s)))"

definition equal_fold :: "string \<Rightarrow> string \<Rightarrow> bool" where
  "equal_fold a b = (to_lower a = to_lower b)"

definition has_prefix :: "string \<Rightarrow> string \<Rightarrow> bool" where
  "has_prefix s p = (take (length p) s = p)"

definition has_suffix :: "string \<Rightarrow> string \<Rightarrow> bool" where
  "has_suffix s p = has_prefix (rev s) (rev p)"

definition trim_suffix :: "string \<Rightarrow> string \<Rightarrow> string" where
  "trim_suffix s p = (if has_suffix s p then take (length s - length p) s else s)"

fun str_index :: "string \<Rightarrow> string \<Rightarrow> nat option" where
  "str_index [] sub = (if sub = [] then Some 0 else None)"
| "str_index (c # cs) sub =
     (if has_prefix (c # cs) sub then Some 0 else map_option Suc (str_index cs sub))"

definition str_contains :: "string \<Rightarrow> string \<Rightarrow> bool" where
  "str_contains s sub = (str_index s sub \<noteq> None)"

text \<open>\<open>strings.LastIndex\<close> for a one-character argument.\<close>

fun last_index_char :: "string \<Rightarrow> char \<Rightarrow> nat option" where
  "last_index_char [] c = None"
| "last_index_char (x # xs) c =
     (case last_index_char xs c of
        Some i \<Rightarrow> Some (Suc i)
      | None \<Rightarrow> (if x = c then Some 0 else None))"

text \<open>\<open>strings.Cut\<close> at a one-character separator: \<open>None\<close> is the \<open>ok = false\<close> result.\<close>

fun cut_at :: "char \<Rightarrow> string \<Rightarrow> (string \<times> string) option" where
  "cut_at c [] = None"
| "cut_at c (x # xs) =
     (if x = c then Some ([], xs)
      else map_option (\<lambda>(a, b). (x # a, b)) (cut_at c xs))"

text \<open>\<open>strings.Split\<close> at a one-character separator: never the empty list.\<close>

fun split_on :: "char \<Rightarrow> string \<Rightarrow> string list" where
  "split_on c [] = [[]]"
| "split_on c (x # xs) =
     (if x = c then [] # split_on c xs
      else (case split_on c xs of [] \<Rightarrow> [[x]] | y # ys \<Rightarrow> (x # y) # ys))"

fun str_join :: "string \<Rightarrow> string list \<Rightarrow> string" where
  "str_join sep [] = []"
| "str_join sep [x] = x"
| "str_join sep (x # y # ys) = x @ sep @ str_join sep (y # ys)"

text \<open>\<open>strings.ReplaceAll\<close> for a non-empty pattern, left to right.\<close>

function replace_all :: "string \<Rightarrow> string \<Rightarrow> string \<Rightarrow> string" where
  "replace_all old new s =
     (if s = [] \<or> old = [] then s
      else if has_prefix s old then new @ replace_all old new (drop (length old) s)
      else hd s # replace_all old new (tl s))"
  by pat_completeness auto
termination
  by (relation "measure (\<lambda>(old, new, s). length s)") (auto simp: neq_Nil_conv)

declare replace_all.simps [simp del]

text \<open>\<open>strings.LastIndex\<close>.\<close>

fun last_index :: "string \<Rightarrow> string \<Rightarrow> nat option" where
  "last_index [] sub = (if sub = [] then Some 0 else None)"
| "last_index (c # cs) sub =
     (case last_index cs sub of
        Some i \<Rightarrow> Some (Suc i)
      | None \<Rightarrow> (if has_prefix (c # cs) sub then Some 0 else None))"

text \<open>The number of bytes of the first UTF-8 character, 0 when the bytes are none.\<close>

definition byte_in :: "string \<Rightarrow> nat \<Rightarrow> nat \<Rightarrow> nat \<Rightarrow> bool" where
  "byte_in s i lo hi = (i < length s \<and> lo \<le> of_char (s ! i) \<and> of_char (s ! i) \<le> hi)"

definition utf8_width :: "string \<Rightarrow> nat" where
  "utf8_width s =
     (if byte_in s 0 0 0x7F then 1
      else if byte_in s 0 0xC2 0xDF \<and> byte_in s 1 0x80 0xBF then 2
      else if (byte_in s 0 0xE0 0xE0 \<and> byte_in s 1 0xA0 0xBF \<or> byte_in s 0 0xE1 0xEC \<and> byte_in s 1 0x80 0xBF \<or>
               byte_in s 0 0xED 0xED \<and> byte_in s 1 0x80 0x9F \<or> byte_in s 0 0xEE 0xEF \<and> byte_in s 1 0x80 0xBF) \<and> byte_in s 2 0x80 0xBF then 3
      else if (byte_in s 0 0xF0 0xF0 \<and> byte_in s 1 0x90 0xBF \<or> byte_in s 0 0xF1 0xF3 \<and> byte_in s 1 0x80 0xBF \<or>
               byte_in s 0 0xF4 0xF4 \<and> byte_in s 1 0x80 0x8F) \<and> byte_in s 2 0x80 0xBF \<and> byte_in s 3 0x80 0xBF then 4
      else 0)"

text \<open>\<open>strings.ToValidUTF8\<close> with an empty replacement.\<close>

function to_valid_utf8 :: "string \<Rightarrow> string" where
  "to_valid_utf8 s =
     (if s = [] then []
      else if utf8_width s = 0 then to_valid_utf8 (tl s)
      else take (utf8_width s) s @ to_valid_utf8 (drop (utf8_width s) s))"
  by pat_completeness auto
termination
  by (relation "measure length") (auto simp: neq_Nil_conv)

declare to_valid_utf8.simps [simp del]

text \<open>The first \<open>n\<close> bytes of a longer string, less a character cut in two.\<close>

definition utf8_prefix :: "nat \<Rightarrow> string \<Rightarrow> string" where
  "utf8_prefix n s = (if length s > n then to_valid_utf8 (take n s) else s)"

text \<open>\<open>strings.Fields\<close>: the maximal runs of non-space characters.\<close>

fun fields_acc :: "string \<Rightarrow> string \<Rightarrow> string list" where
  "fields_acc acc [] = (if acc = [] then [] else [rev acc])"
| "fields_acc acc (c # cs) =
     (if is_space c then (if acc = [] then fields_acc [] cs else rev acc # fields_acc [] cs)
      else fields_acc (c # acc) cs)"

definition str_fields :: "string \<Rightarrow> string list" where
  "str_fields s = fields_acc [] s"

text \<open>Decimal rendering (\<open>strconv.Itoa\<close>, the verb \<open>%d\<close>).\<close>

fun show_nat :: "nat \<Rightarrow> string" where
  "show_nat n = (if n < 10 then [char_of (48 + n)] else show_nat (n div 10) @ [char_of (48 + n mod 10)])"

declare show_nat.simps [simp del]

definition show_int :: "int \<Rightarrow> string" where
  "show_int i = (if i < 0 then CHR ''-'' # show_nat (nat (- i)) else show_nat (nat i))"

text \<open>\<open>hex.DecodeString\<close>: an odd length or a bad digit is an error.\<close>

definition hex_val :: "char \<Rightarrow> nat option" where
  "hex_val c = (let n = (of_char c :: nat) in
     if 48 \<le> n \<and> n \<le> 57 then Some (n - 48)
     else if 97 \<le> n \<and> n \<le> 102 then Some (n - 87)
     else if 65 \<le> n \<and> n \<le> 70 then Some (n - 55)
     else None)"

fun hex_decode :: "string \<Rightarrow> string option" where
  "hex_decode [] = Some []"
| "hex_decode [x] = None"
| "hex_decode (x # y # zs) =
     (case (hex_val x, hex_val y, hex_decode zs) of
        (Some a, Some b, Some r) \<Rightarrow> Some (char_of (16 * a + b) # r)
      | _ \<Rightarrow> None)"

section \<open>Maps with a default, as Go's map index expression\<close>

definition map_str :: "('k \<rightharpoonup> string) \<Rightarrow> 'k \<Rightarrow> string" where
  "map_str m k = (case m k of None \<Rightarrow> [] | Some v \<Rightarrow> v)"

section \<open>Shared lemmas\<close>

lemma trim_space_Nil [simp]: "trim_space [] = []"
  by (simp add: trim_space_def)

lemma to_lower_Nil [simp]: "to_lower [] = []"
  by (simp add: to_lower_def)

lemma to_lower_append: "to_lower (a @ b) = to_lower a @ to_lower b"
  by (simp add: to_lower_def)

lemma has_prefix_append [simp]: "has_prefix (p @ s) p"
  by (simp add: has_prefix_def)

lemma has_prefix_iff: "has_prefix s p \<longleftrightarrow> (\<exists>r. s = p @ r)"
  unfolding has_prefix_def by (metis append_eq_conv_conj append_take_drop_id)

lemma str_contains_iff: "str_contains s sub \<longleftrightarrow> (\<exists>a b. s = a @ sub @ b)"
proof (induction s)
  case Nil
  then show ?case by (auto simp: str_contains_def)
next
  case (Cons c cs)
  show ?case
  proof
    assume "str_contains (c # cs) sub"
    then consider "has_prefix (c # cs) sub" | "str_contains cs sub"
      by (auto simp: str_contains_def split: if_splits)
    then show "\<exists>a b. c # cs = a @ sub @ b"
    proof cases
      case 1
      then show ?thesis by (metis append_Nil has_prefix_iff)
    next
      case 2
      then show ?thesis using Cons.IH by (metis append_Cons)
    qed
  next
    assume "\<exists>a b. c # cs = a @ sub @ b"
    then obtain a b where ab: "c # cs = a @ sub @ b" by blast
    show "str_contains (c # cs) sub"
    proof (cases a)
      case Nil
      with ab have "has_prefix (c # cs) sub" by (auto simp: has_prefix_iff)
      then show ?thesis by (simp add: str_contains_def)
    next
      case (Cons d ds)
      with ab have "str_contains cs sub" using Cons.IH by auto
      then show ?thesis by (auto simp: str_contains_def)
    qed
  qed
qed

lemma str_index_drop:
  "str_index s sub = Some i \<Longrightarrow> has_prefix (drop i s) sub \<and> i \<le> length s"
  by (induction s arbitrary: i) (auto simp: has_prefix_def split: if_splits)

lemma set_trim_space: "x \<in> set (trim_space s) \<Longrightarrow> x \<in> set s"
  by (auto simp: trim_space_def dest!: set_dropWhileD)

lemma split_on_not_in: "l \<in> set (split_on c s) \<Longrightarrow> c \<notin> set l"
proof (induction s arbitrary: l)
  case Nil
  then show ?case by simp
next
  case (Cons x xs)
  show ?case
  proof (cases "split_on c xs")
    case Nil
    with Cons.prems show ?thesis by (auto split: if_splits)
  next
    case (Cons y ys)
    with Cons.prems Cons.IH show ?thesis by (auto split: if_splits)
  qed
qed

lemma cut_at_Some: "cut_at c s = Some (a, b) \<Longrightarrow> s = a @ c # b \<and> c \<notin> set a"
  by (induction s arbitrary: a b) (auto split: if_splits)

lemma cut_at_None: "cut_at c s = None \<longleftrightarrow> c \<notin> set s"
  by (induction s) auto

lemma map_str_empty [simp]: "map_str Map.empty k = []"
  by (simp add: map_str_def)

lemma map_str_upd: "map_str (m(k \<mapsto> v)) k' = (if k' = k then v else map_str m k')"
  by (simp add: map_str_def)

lemma append_sep_inj:
  assumes "a @ c # x = b @ c # y" and "c \<notin> set a" and "c \<notin> set b"
  shows "a = b \<and> x = y"
  using assms
proof (induction a arbitrary: b)
  case Nil
  then show ?case by (cases b) auto
next
  case (Cons d a)
  then show ?case by (cases b) auto
qed

lemma dropWhile_idem: "dropWhile P (dropWhile P xs) = dropWhile P xs"
  by (induction xs) auto

lemma dropWhile_id: "xs = [] \<or> \<not> P (hd xs) \<Longrightarrow> dropWhile P xs = xs"
  by (cases xs) auto

lemma trim_space_idem [simp]: "trim_space (trim_space s) = trim_space s"
proof -
  let ?x = "dropWhile is_space s"
  let ?y = "rev (dropWhile is_space (rev ?x))"
  have split: "?x = ?y @ rev (takeWhile is_space (rev ?x))"
    by (metis rev_append rev_rev_ident takeWhile_dropWhile_id)
  have "?y = [] \<or> \<not> is_space (hd ?y)"
    using split hd_dropWhile [of is_space s] by (metis append_is_Nil_conv hd_append2)
  then have "dropWhile is_space ?y = ?y" by (rule dropWhile_id)
  then show ?thesis by (simp add: trim_space_def dropWhile_idem)
qed

lemma fold_preserves: "(\<And>x w. P w \<Longrightarrow> P (f x w)) \<Longrightarrow> P w \<Longrightarrow> P (fold f xs w)"
  by (induction xs arbitrary: w) auto

lemma trim_space_id:
  assumes "s = [] \<or> (\<not> is_space (hd s) \<and> \<not> is_space (last s))"
  shows "trim_space s = s"
proof (cases "s = []")
  case False
  with assms have "dropWhile is_space s = s" "dropWhile is_space (rev s) = rev s"
    by (auto intro!: dropWhile_id simp: hd_rev)
  then show ?thesis by (simp add: trim_space_def)
qed simp

lemma split_on_append: "c \<notin> set a \<Longrightarrow> split_on c (a @ c # b) = a # split_on c b"
  by (induction a) auto

lemma split_on_single: "c \<notin> set a \<Longrightarrow> split_on c a = [a]"
  by (induction a) auto

lemma split_on_nonempty: "split_on c s \<noteq> []"
  by (induction s) (auto split: list.splits)

lemma split_on_append_sep: "split_on c (a @ c # b) = split_on c a @ split_on c b"
proof (induction a)
  case Nil
  then show ?case by simp
next
  case (Cons x a)
  then show ?case using split_on_nonempty [of c a] by (auto split: list.splits)
qed


lemma split_on_join:
  "fs \<noteq> [] \<Longrightarrow> \<forall>f\<in>set fs. c \<notin> set f \<Longrightarrow> split_on c (str_join [c] fs) = fs"
proof (induction "[c]" fs rule: str_join.induct)
  case (3 x y ys)
  then show ?case by (simp add: split_on_append)
qed (simp_all add: split_on_single)

lemma set_str_join: "set (str_join sep fs) \<subseteq> set sep \<union> \<Union> (set ` set fs)"
  by (induction sep fs rule: str_join.induct) auto

lemma str_join_ends:
  "\<forall>f\<in>set fs. f \<noteq> [] \<Longrightarrow> fs \<noteq> [] \<Longrightarrow>
   str_join sep fs \<noteq> [] \<and> hd (str_join sep fs) = hd (hd fs) \<and> last (str_join sep fs) = last (last fs)"
  by (induction sep fs rule: str_join.induct) auto

section \<open>Decimal numbers\<close>

fun digits_val :: "int \<Rightarrow> string \<Rightarrow> int" where
  "digits_val n [] = n"
| "digits_val n (c # cs) = digits_val (10 * n + int (digit_val c)) cs"

lemma digits_val_append: "digits_val n (a @ b) = digits_val (digits_val n a) b"
  by (induction a arbitrary: n) simp_all

lemma digit_val_char: "k < 10 \<Longrightarrow> digit_val (char_of (48 + k)) = k"
  by (simp add: digit_val_def)

lemma digits_val_show_nat: "digits_val 0 (show_nat n) = int n"
proof (induction n rule: show_nat.induct)
  case (1 n)
  show ?case
  proof (cases "n < 10")
    case True
    then show ?thesis by (simp add: show_nat.simps [of n] digit_val_char)
  next
    case False
    have "digit_val (char_of (48 + n mod 10)) = n mod 10" by (rule digit_val_char) simp
    moreover have "10 * int (n div 10) + int (n mod 10) = int n" by presburger
    ultimately show ?thesis using 1 False by (subst show_nat.simps) (simp add: digits_val_append)
  qed
qed

lemma show_nat_digits: "c \<in> set (show_nat n) \<Longrightarrow> is_digit c"
proof (induction n rule: show_nat.induct)
  case (1 n)
  have d: "k < 10 \<Longrightarrow> is_digit (char_of (48 + k))" for k :: nat
    by (simp add: is_digit_def Let_def)
  show ?case
  proof (cases "n < 10")
    case True
    with "1.prems" show ?thesis by (simp add: show_nat.simps [of n] d)
  next
    case False
    then have "show_nat n = show_nat (n div 10) @ [char_of (48 + n mod 10)]" by (simp add: show_nat.simps [of n])
    with "1.prems" "1.IH" False show ?thesis by (auto simp: d)
  qed
qed

lemma show_int_inj: "show_int i = show_int j \<Longrightarrow> i = j"
proof -
  assume eq: "show_int i = show_int j"
  have minus: "CHR ''-'' \<notin> set (show_nat n)" for n
    using show_nat_digits [of "CHR ''-''" n] by (auto simp: is_digit_def)
  have nat_inj: "show_nat m = show_nat n \<Longrightarrow> m = n" for m n
    by (metis digits_val_show_nat of_nat_eq_iff)
  have ne: "CHR ''-'' # show_nat m \<noteq> show_nat n" for m n
    using minus [of n] by (metis list.set_intros(1))
  consider "i < 0" "j < 0" | "i < 0" "\<not> j < 0" | "\<not> i < 0" "j < 0" | "\<not> i < 0" "\<not> j < 0" by blast
  then show ?thesis
  proof cases
    case 1
    then have "nat (- i) = nat (- j)" using eq by (intro nat_inj) (simp add: show_int_def)
    with 1 show ?thesis by simp
  next
    case 2
    then have "CHR ''-'' # show_nat (nat (- i)) = show_nat (nat j)" using eq by (simp add: show_int_def)
    with ne show ?thesis by blast
  next
    case 3
    then have "CHR ''-'' # show_nat (nat (- j)) = show_nat (nat i)" using eq by (simp add: show_int_def)
    with ne show ?thesis by blast
  next
    case 4
    then have "nat i = nat j" using eq by (intro nat_inj) (simp add: show_int_def)
    with 4 show ?thesis by simp
  qed
qed

section \<open>Association lists\<close>

text \<open>Insert or replace, keeping the position of an existing key.\<close>

fun alist_put :: "'k \<Rightarrow> 'v \<Rightarrow> ('k \<times> 'v) list \<Rightarrow> ('k \<times> 'v) list" where
  "alist_put k v [] = [(k, v)]"
| "alist_put k v ((k', v') # xs) = (if k' = k then (k, v) # xs else (k', v') # alist_put k v xs)"

lemma map_fst_alist_put:
  "map fst (alist_put k v xs) = (if k \<in> set (map fst xs) then map fst xs else map fst xs @ [k])"
proof (induction xs)
  case Nil
  then show ?case by simp
next
  case (Cons x xs)
  obtain k' v' where "x = (k', v')" by (cases x)
  with Cons show ?case by (cases "k' = k") simp_all
qed

lemma map_of_alist_put: "map_of (alist_put k v xs) = (map_of xs)(k \<mapsto> v)"
  by (induction xs) (auto simp: fun_eq_iff)

end
