(* ===== verification/Go_Time.thy ===== *)
theory Go_Time
  imports Imap_Prelude "HOL-Library.Monad_Syntax"
begin

text \<open>
  What the sources use of Go's package \<open>time\<close>. A \<open>time.Time\<close> is an instant in
  nanoseconds since the Unix epoch; the zero value (\<open>IsZero\<close>) is January 1 of year 1.
  A \<open>time.Duration\<close> is an \<open>int64\<close> count of nanoseconds: arithmetic on it wraps
  (\<open>dur64\<close>), and \<open>Time.Sub\<close> saturates (\<open>time_sub\<close>). \<open>parse_rfc3339\<close>
  follows the layout-driven parser of \<open>time.Parse\<close> for the layout \<open>time.RFC3339\<close>,
  its lenient forms (one-digit hour, comma before the fraction) included.
\<close>

type_synonym gotime = int
type_synonym duration = int

definition zero_time :: gotime where "zero_time = - 62135596800 * 1000000000"

definition ns_per_sec :: int where "ns_per_sec = 1000000000"
definition ns_per_min :: int where "ns_per_min = 60 * 1000000000"
definition ns_per_hour :: int where "ns_per_hour = 3600 * 1000000000"

definition max_duration :: int where "max_duration = 2 ^ 63 - 1"
definition min_duration :: int where "min_duration = - (2 ^ 63)"

text \<open>Two's-complement reading of an integer result in 64 bits.\<close>

definition dur64 :: "int \<Rightarrow> duration" where
  "dur64 x = (x + 2 ^ 63) mod 2 ^ 64 - 2 ^ 63"

definition time_sub :: "gotime \<Rightarrow> gotime \<Rightarrow> duration" where
  "time_sub t u = max min_duration (min max_duration (t - u))"

definition time_unix :: "gotime \<Rightarrow> int" where
  "time_unix t = t div ns_per_sec"

lemmas time_consts = zero_time_def ns_per_sec_def ns_per_min_def ns_per_hour_def
  max_duration_def min_duration_def

lemma dur64_id: "- (2 ^ 63) \<le> x \<Longrightarrow> x < 2 ^ 63 \<Longrightarrow> dur64 x = x"
  by (simp add: dur64_def mod_pos_pos_trivial)

lemma dur64_bounds: "- (2 ^ 63) \<le> dur64 x \<and> dur64 x < 2 ^ 63"
  unfolding dur64_def
  using pos_mod_bound [of "2 ^ 64" "x + 2 ^ 63"] pos_mod_sign [of "2 ^ 64" "x + 2 ^ 63"] by simp

lemma time_sub_bounds: "min_duration \<le> time_sub t u \<and> time_sub t u \<le> max_duration"
  by (auto simp: time_sub_def time_consts)

section \<open>Civil dates\<close>

definition days_from_civil :: "int \<Rightarrow> int \<Rightarrow> int \<Rightarrow> int" where
  "days_from_civil y m d =
     (let y' = (if m \<le> 2 then y - 1 else y);
          era = y' div 400;
          yoe = y' - era * 400;
          doy = (153 * (if m > 2 then m - 3 else m + 9) + 2) div 5 + d - 1;
          doe = yoe * 365 + yoe div 4 - yoe div 100 + doy
      in era * 146097 + doe - 719468)"

definition civil_from_days :: "int \<Rightarrow> int \<times> int \<times> int" where
  "civil_from_days z0 =
     (let z = z0 + 719468;
          era = z div 146097;
          doe = z - era * 146097;
          yoe = (doe - doe div 1460 + doe div 36524 - doe div 146096) div 365;
          doy = doe - (365 * yoe + yoe div 4 - yoe div 100);
          mp = (5 * doy + 2) div 153;
          d = doy - (153 * mp + 2) div 5 + 1;
          m = (if mp < 10 then mp + 3 else mp - 9);
          y = yoe + era * 400
      in (if m \<le> 2 then y + 1 else y, m, d))"

definition is_leap :: "int \<Rightarrow> bool" where
  "is_leap y = (y mod 4 = 0 \<and> (y mod 100 \<noteq> 0 \<or> y mod 400 = 0))"

definition days_in :: "int \<Rightarrow> int \<Rightarrow> int" where
  "days_in m y = (if m = 2 then (if is_leap y then 29 else 28)
     else if m \<in> {4, 6, 9, 11} then 30 else 31)"

text \<open>\<open>time.Date\<close> in UTC for fields that are already in range.\<close>

definition utc_date :: "int \<Rightarrow> int \<Rightarrow> int \<Rightarrow> int \<Rightarrow> int \<Rightarrow> int \<Rightarrow> int \<Rightarrow> gotime" where
  "utc_date y mo d h mi s ns =
     ((days_from_civil y mo d * 86400 + h * 3600 + mi * 60 + s) * ns_per_sec) + ns"

section \<open>Parsing\<close>

fun digits2 :: "string \<Rightarrow> (int \<times> string) option" where
  "digits2 (a # b # r) =
     (if is_digit a \<and> is_digit b then Some (int (10 * digit_val a + digit_val b), r) else None)"
| "digits2 _ = None"

text \<open>\<open>getnum\<close> with \<open>fixed = false\<close>: one or two digits.\<close>

fun digits12 :: "string \<Rightarrow> (int \<times> string) option" where
  "digits12 (a # b # r) =
     (if \<not> is_digit a then None
      else if is_digit b then Some (int (10 * digit_val a + digit_val b), r)
      else Some (int (digit_val a), b # r))"
| "digits12 [a] = (if is_digit a then Some (int (digit_val a), []) else None)"
| "digits12 [] = None"

fun digits4 :: "string \<Rightarrow> (int \<times> string) option" where
  "digits4 (a # b # c # d # r) =
     (if is_digit a \<and> is_digit b \<and> is_digit c \<and> is_digit d
      then Some (int (1000 * digit_val a + 100 * digit_val b + 10 * digit_val c + digit_val d), r)
      else None)"
| "digits4 _ = None"

fun expect :: "char \<Rightarrow> string \<Rightarrow> string option" where
  "expect c (x # r) = (if x = c then Some r else None)"
| "expect c [] = None"

definition guard_opt :: "bool \<Rightarrow> unit option" where
  "guard_opt b = (if b then Some () else None)"

text \<open>An optional fraction of a second; digits after the ninth are dropped.\<close>

definition parse_frac :: "string \<Rightarrow> int \<times> string" where
  "parse_frac s =
     (case s of
        p # c # r \<Rightarrow>
          (if (p = CHR ''.'' \<or> p = CHR '','') \<and> is_digit c
           then (let ds = takeWhile is_digit (c # r); rest = dropWhile is_digit (c # r);
                     used = take 9 ds
                 in (digits_val 0 used * 10 ^ (9 - length used), rest))
           else (0, s))
      | _ \<Rightarrow> (0, s))"

text \<open>The zone: \<open>Z\<close> or an offset; the result is in seconds. Offsets up to 24 hours and 60
  minutes pass, as in \<open>time.Parse\<close>.\<close>

definition parse_zone :: "string \<Rightarrow> (int \<times> string) option" where
  "parse_zone s =
     (case s of
        [] \<Rightarrow> None
      | c # r \<Rightarrow>
          (if c = CHR ''Z'' then Some (0, r)
           else do {
             guard_opt (c = CHR ''+'' \<or> c = CHR ''-'');
             (h, r1) \<leftarrow> digits2 r;
             r2 \<leftarrow> expect CHR '':'' r1;
             (m, r3) \<leftarrow> digits2 r2;
             guard_opt (h \<le> 24 \<and> m \<le> 60);
             let off = h * 3600 + m * 60;
             Some (if c = CHR ''-'' then - off else off, r3)
           }))"

definition parse_ymd :: "string \<Rightarrow> ((int \<times> int \<times> int) \<times> string) option" where
  "parse_ymd s = do {
     (y, s1) \<leftarrow> digits4 s;
     s2 \<leftarrow> expect CHR ''-'' s1;
     (mo, s3) \<leftarrow> digits2 s2;
     guard_opt (1 \<le> mo \<and> mo \<le> 12);
     s4 \<leftarrow> expect CHR ''-'' s3;
     (d, s5) \<leftarrow> digits2 s4;
     Some ((y, mo, d), s5)
   }"

definition parse_rfc3339 :: "string \<Rightarrow> gotime option" where
  "parse_rfc3339 s = do {
     ((y, mo, d), s1) \<leftarrow> parse_ymd s;
     s2 \<leftarrow> expect CHR ''T'' s1;
     (h, s3) \<leftarrow> digits12 s2;
     guard_opt (h < 24);
     s4 \<leftarrow> expect CHR '':'' s3;
     (mi, s5) \<leftarrow> digits2 s4;
     guard_opt (mi < 60);
     s6 \<leftarrow> expect CHR '':'' s5;
     (sec, s7) \<leftarrow> digits2 s6;
     guard_opt (sec < 60);
     let (ns, s8) = parse_frac s7;
     (off, s9) \<leftarrow> parse_zone s8;
     guard_opt (s9 = []);
     guard_opt (1 \<le> d \<and> d \<le> days_in mo y);
     Some (utc_date y mo d h mi sec ns - off * ns_per_sec)
   }"

text \<open>The layout \<open>2006-01-02\<close>.\<close>

definition parse_date :: "string \<Rightarrow> gotime option" where
  "parse_date s = do {
     ((y, mo, d), s1) \<leftarrow> parse_ymd s;
     guard_opt (s1 = []);
     guard_opt (1 \<le> d \<and> d \<le> days_in mo y);
     Some (utc_date y mo d 0 0 0 0)
   }"

section \<open>Formatting in UTC\<close>

definition pad_nat :: "nat \<Rightarrow> nat \<Rightarrow> string" where
  "pad_nat w n = (let s = show_nat n in replicate (w - length s) (CHR ''0'') @ s)"

definition pad_int :: "nat \<Rightarrow> int \<Rightarrow> string" where
  "pad_int w i = (if i < 0 then CHR ''-'' # pad_nat w (nat (- i)) else pad_nat w (nat i))"

definition format_rfc3339 :: "gotime \<Rightarrow> string" where
  "format_rfc3339 t =
     (let secs = time_unix t;
          (y, mo, d) = civil_from_days (secs div 86400);
          r = secs mod 86400
      in pad_int 4 y @ ''-'' @ pad_int 2 mo @ ''-'' @ pad_int 2 d @ ''T'' @
         pad_int 2 (r div 3600) @ '':'' @ pad_int 2 (r mod 3600 div 60) @ '':'' @
         pad_int 2 (r mod 60) @ ''Z'')"

lemma digit_char_not_newline: "k < 10 \<Longrightarrow> char_of (48 + k) \<noteq> newline_char" for k :: nat
proof
  assume k: "k < 10" and "char_of (48 + k) = newline_char"
  then have "(of_char (char_of (48 + k) :: char) :: nat) = 10" by simp
  moreover have "(of_char (char_of (48 + k) :: char) :: nat) = (48 + k) mod 256" by simp
  ultimately show False using k by simp
qed

lemma show_nat_no_newline: "newline_char \<notin> set (show_nat n)"
proof (induction n rule: show_nat.induct)
  case (1 n)
  then show ?case
    using digit_char_not_newline [of n] digit_char_not_newline [of "n mod 10"]
    by (subst show_nat.simps) auto
qed

lemma pad_nat_no_newline: "newline_char \<notin> set (pad_nat w n)"
  by (simp add: pad_nat_def Let_def show_nat_no_newline)

lemma pad_int_no_newline: "newline_char \<notin> set (pad_int w i)"
  by (simp add: pad_int_def pad_nat_no_newline)

lemma format_no_newline: "newline_char \<notin> set (format_rfc3339 t)"
  by (simp add: format_rfc3339_def Let_def pad_int_no_newline split_beta)

end
