(* ===== verification/Bus.thy ===== *)
theory Bus
  imports Imap_Prelude
begin

text \<open>
  The in-process event bus (\<open>internal/bus/bus.go\<close>). A handler is a state transformer of
  the subscribers' state; \<open>publish\<close> calls the handlers of the event's type in
  subscription order and then the wildcard handlers, synchronously. \<open>PublishAsync\<close> runs
  the same function in a goroutine, so in the other theories an asynchronous event is an
  entry of the trace of published events.
\<close>

datatype event_type =
    EventMessageSynced | EventMessageUpdated | EventMessageDeleted | EventFolderSynced
  | EventSyncComplete | EventSyncError | EventCacheCleaned | EventEnrichmentDone
  | EventEnrichmentError | EventAnomalyDetected | EventRuleFired | EventHoldDigest
  | EventRuleSuggested | EventUnsubscribeDone | EventScreenerDecided | EventAccountConnected
  | EventAccountError | EventAccountDisconnect | EventWebhookDelivered | EventWebhookFailed
  | EventInboundCommand | EventInboundRejected

fun event_name :: "event_type \<Rightarrow> string" where
  "event_name EventMessageSynced = ''message.synced''"
| "event_name EventMessageUpdated = ''message.updated''"
| "event_name EventMessageDeleted = ''message.deleted''"
| "event_name EventFolderSynced = ''folder.synced''"
| "event_name EventSyncComplete = ''sync.complete''"
| "event_name EventSyncError = ''sync.error''"
| "event_name EventCacheCleaned = ''cache.cleaned''"
| "event_name EventEnrichmentDone = ''enrichment.done''"
| "event_name EventEnrichmentError = ''enrichment.error''"
| "event_name EventAnomalyDetected = ''anomaly.detected''"
| "event_name EventRuleFired = ''rule.fired''"
| "event_name EventHoldDigest = ''hold.digest''"
| "event_name EventRuleSuggested = ''rule.suggested''"
| "event_name EventUnsubscribeDone = ''unsubscribe.done''"
| "event_name EventScreenerDecided = ''screener.decided''"
| "event_name EventAccountConnected = ''account.connected''"
| "event_name EventAccountError = ''account.error''"
| "event_name EventAccountDisconnect = ''account.disconnected''"
| "event_name EventWebhookDelivered = ''webhook.delivered''"
| "event_name EventWebhookFailed = ''webhook.failed''"
| "event_name EventInboundCommand = ''inbound.command''"
| "event_name EventInboundRejected = ''inbound.rejected''"

record 'p event =
  ev_Type :: event_type
  ev_Account :: string
  ev_Payload :: 'p

type_synonym ('p, 's) handler = "'p event \<Rightarrow> 's \<Rightarrow> 's"

record ('p, 's) bus =
  subscribers :: "event_type \<Rightarrow> ('p, 's) handler list"
  wildcard :: "('p, 's) handler list"

definition new_bus :: "('p, 's) bus" where
  "new_bus = \<lparr>subscribers = (\<lambda>_. []), wildcard = []\<rparr>"

definition subscribe :: "event_type \<Rightarrow> ('p, 's) handler \<Rightarrow> ('p, 's) bus \<Rightarrow> ('p, 's) bus" where
  "subscribe t h b = b\<lparr>subscribers := (subscribers b)(t := subscribers b t @ [h])\<rparr>"

definition subscribe_all :: "('p, 's) handler \<Rightarrow> ('p, 's) bus \<Rightarrow> ('p, 's) bus" where
  "subscribe_all h b = b\<lparr>wildcard := wildcard b @ [h]\<rparr>"

definition publish :: "('p, 's) bus \<Rightarrow> 'p event \<Rightarrow> 's \<Rightarrow> 's" where
  "publish b e s = fold (\<lambda>h. h e) (subscribers b (ev_Type e) @ wildcard b) s"

text \<open>Handlers a publisher can reach: a subscriber of another type is never called.\<close>

lemma publish_new [simp]: "publish new_bus e s = s"
  by (simp add: publish_def new_bus_def)

lemma publish_subscribe:
  "publish (subscribe t h b) e s =
     fold (\<lambda>h. h e) (wildcard b)
       ((if ev_Type e = t then h e else id) (fold (\<lambda>h. h e) (subscribers b (ev_Type e)) s))"
  by (simp add: publish_def subscribe_def)

lemma publish_subscribe_all: "publish (subscribe_all h b) e s = h e (publish b e s)"
  by (simp add: publish_def subscribe_all_def)

lemma event_name_inj: "event_name a = event_name b \<Longrightarrow> a = b"
  by (cases a; cases b; simp)

end
