(* ===== verification/Trust.thy ===== *)
theory Trust
  imports Go_Time
begin

text \<open>
  The trust boundary of the inbound command channel (\<open>internal/trust/trust.go\<close>,
  \<open>internal/trust/envelope.go\<close>): the command envelope and its parser, the gates an
  account requires, and \<open>Verifier.Evaluate\<close>, which runs them over one message. The
  nonce store is the interface \<open>NonceStore\<close> (locale \<open>nonce_store\<close>); the
  state database implements it (theory \<open>Nonces\<close>). The keyed digest HMAC-SHA256 is a
  parameter \<open>v_mac\<close> (secret, bytes): every result holds for any such function.
\<close>

section \<open>Configuration and messages\<close>

record gate_config =
  Allowlist :: "string list"
  RequireDKIM :: bool
  RequireDMARC :: bool
  HMACSecret :: string
  ReplayWindowMinutes :: int
  RequirePGP :: bool

record inbound_config =
  in_Enabled :: bool
  in_WatchFolder :: string
  in_Gates :: gate_config
  in_Capabilities :: "string list"

record account_config =
  acct_Name :: string
  acct_Inbound :: "inbound_config option"

record message =
  msg_From :: string
  msg_Headers :: "string \<rightharpoonup> string"
  msg_Body :: string

record command =
  cmd_Verb :: string
  cmd_Args :: string
  cmd_Nonce :: string
  cmd_TS :: gotime
  cmd_HMAC :: string
  cmd_raw :: string

datatype envelope_error =
    NoEnvelope | NotTerminated | MalformedLine string | MissingVerb | BadTimestamp

record verified_command =
  vc_Account :: string
  vc_From :: string
  vc_Command :: command
  vc_Gates :: "string list"

text \<open>The texts of \<open>Result.Reasons\<close>, with the values formatted into them.\<close>

datatype reason =
    InboundNotEnabled | EnvelopeRejected envelope_error | SenderNotAllowed string
  | NoAuthPass string | HMACMissing | HMACMismatch | PGPNotImplemented
  | OutsideWindow int | NonceMissing | NonceStoreError string | NonceReplayed
  | VerbNotAllowed string

record result =
  Triggered :: bool
  Verified :: "verified_command option"
  Passed :: "string list"
  Failed :: "string list"
  Reasons :: "string \<rightharpoonup> reason"

definition empty_result :: result where
  "empty_result = \<lparr>Triggered = False, Verified = None, Passed = [], Failed = [], Reasons = Map.empty\<rparr>"

definition fail_gate :: "string \<Rightarrow> reason \<Rightarrow> result \<Rightarrow> result" where
  "fail_gate gate why r = r\<lparr>Failed := Failed r @ [gate], Reasons := (Reasons r)(gate \<mapsto> why)\<rparr>"

definition pass_gate :: "string \<Rightarrow> result \<Rightarrow> result" where
  "pass_gate gate r = r\<lparr>Passed := Passed r @ [gate]\<rparr>"

section \<open>The command envelope\<close>

definition env_begin :: string where "env_begin = ''-----BEGIN DATAWATCH COMMAND-----''"
definition env_end :: string where "env_end = ''-----END DATAWATCH COMMAND-----''"

text \<open>The loop over the lines of the block: the last value of a key wins.\<close>

fun envelope_fields :: "(string \<rightharpoonup> string) \<Rightarrow> string list \<Rightarrow> envelope_error + (string \<rightharpoonup> string)" where
  "envelope_fields m [] = Inr m"
| "envelope_fields m (l # ls) =
     (let line = trim_space l in
      if line = [] then envelope_fields m ls
      else (case cut_at CHR '':'' line of
              None \<Rightarrow> Inl (MalformedLine line)
            | Some (k, v) \<Rightarrow>
                envelope_fields (m(to_lower (trim_space k) \<mapsto> trim_space v)) ls))"

definition canonical_envelope :: "command \<Rightarrow> string" where
  "canonical_envelope c =
     ''verb:'' @ cmd_Verb c @ [newline_char] @
     ''args:'' @ cmd_Args c @ [newline_char] @
     ''nonce:'' @ cmd_Nonce c @ [newline_char] @
     ''ts:'' @ format_rfc3339 (cmd_TS c) @ [newline_char]"

definition envelope_block :: "string \<Rightarrow> envelope_error + string" where
  "envelope_block body =
     (case str_index body env_begin of
        None \<Rightarrow> Inl NoEnvelope
      | Some start \<Rightarrow>
          (let rest = drop (start + length env_begin) body in
           case str_index rest env_end of
             None \<Rightarrow> Inl NotTerminated
           | Some e \<Rightarrow> Inr (take e rest)))"

definition envelope_ts :: "(string \<rightharpoonup> string) \<Rightarrow> gotime option" where
  "envelope_ts m =
     (let ts = map_str m ''ts'' in if ts = [] then Some zero_time else parse_rfc3339 ts)"

definition command_of :: "(string \<rightharpoonup> string) \<Rightarrow> envelope_error + command" where
  "command_of m =
     (if map_str m ''verb'' = [] then Inl MissingVerb
      else (case envelope_ts m of
              None \<Rightarrow> Inl BadTimestamp
            | Some ts \<Rightarrow>
                (let c = \<lparr>cmd_Verb = map_str m ''verb'', cmd_Args = map_str m ''args'',
                          cmd_Nonce = map_str m ''nonce'', cmd_TS = ts,
                          cmd_HMAC = map_str m ''hmac'', cmd_raw = []\<rparr>
                 in Inr (c\<lparr>cmd_raw := canonical_envelope c\<rparr>))))"

definition parse_command :: "string \<Rightarrow> envelope_error + command" where
  "parse_command body =
     (case envelope_block body of
        Inl e \<Rightarrow> Inl e
      | Inr block \<Rightarrow>
          (case envelope_fields Map.empty (split_on newline_char block) of
             Inl e \<Rightarrow> Inl e
           | Inr m \<Rightarrow> command_of m))"

section \<open>Primitive checks\<close>

definition extract_addr :: "string \<Rightarrow> string" where
  "extract_addr s =
     (case last_index_char s CHR ''<'' of
        Some lt \<Rightarrow>
          (case cut_at CHR ''>'' (drop lt s) of
             Some (a, _) \<Rightarrow> drop 1 a
           | None \<Rightarrow> trim_space s)
      | None \<Rightarrow> trim_space s)"

definition addr_domain :: "string \<Rightarrow> string" where
  "addr_domain addr =
     (case last_index_char addr CHR ''@'' of Some at \<Rightarrow> drop (Suc at) addr | None \<Rightarrow> addr)"

fun allow_match :: "string \<Rightarrow> string \<Rightarrow> string list \<Rightarrow> bool" where
  "allow_match addr domain [] = False"
| "allow_match addr domain (e0 # es) =
     (let e = to_lower (trim_space e0) in
      if e = [] then allow_match addr domain es
      else if str_contains e ''@''
      then (if e = addr then True else allow_match addr domain es)
      else if e = domain then True
      else allow_match addr domain es)"

definition allowlisted :: "string \<Rightarrow> string list \<Rightarrow> bool" where
  "allowlisted from allow =
     (let addr = to_lower (trim_space (extract_addr from)) in
      if addr = [] then False else allow_match addr (addr_domain addr) allow)"

definition auth_result_pass :: "(string \<rightharpoonup> string) \<Rightarrow> string \<Rightarrow> bool" where
  "auth_result_pass headers meth =
     (let ar = map_str headers ''authentication-results'' in
      if ar = [] then False else str_contains (to_lower ar) (meth @ ''=pass''))"

definition verify_hmac :: "(string \<Rightarrow> string \<Rightarrow> string) \<Rightarrow> string \<Rightarrow> string \<Rightarrow> string \<Rightarrow> bool" where
  "verify_hmac mac secret raw got =
     (case hex_decode (trim_space got) of None \<Rightarrow> False | Some gotb \<Rightarrow> mac secret raw = gotb)"

fun capability_allowed :: "string \<Rightarrow> string list \<Rightarrow> bool" where
  "capability_allowed verb [] = False"
| "capability_allowed verb (c # cs) =
     (if equal_fold (trim_space c) verb then True
      else if trim_space c = ''*'' then True
      else capability_allowed verb cs)"

section \<open>The verifier\<close>

text \<open>\<open>NonceStore.SeenOrRecord\<close>: an error text, or whether the nonce was seen before.\<close>

type_synonym 's seen_or_record = "string \<Rightarrow> string \<Rightarrow> gotime \<Rightarrow> 's \<Rightarrow> (string + bool) \<times> 's"

record 's verifier =
  v_nonces :: "'s seen_or_record option"
  v_mac :: "string \<Rightarrow> string \<Rightarrow> string"

definition gate_allowlist :: "gate_config \<Rightarrow> message \<Rightarrow> result \<Rightarrow> result" where
  "gate_allowlist g msg r =
     (if Allowlist g \<noteq> [] then
        (if allowlisted (msg_From msg) (Allowlist g) then pass_gate ''allowlist'' r
         else fail_gate ''allowlist'' (SenderNotAllowed (msg_From msg)) r)
      else r)"

definition gate_auth :: "bool \<Rightarrow> string \<Rightarrow> message \<Rightarrow> result \<Rightarrow> result" where
  "gate_auth required meth msg r =
     (if required then
        (if auth_result_pass (msg_Headers msg) meth then pass_gate meth r
         else fail_gate meth (NoAuthPass meth) r)
      else r)"

definition gate_hmac :: "(string \<Rightarrow> string \<Rightarrow> string) \<Rightarrow> gate_config \<Rightarrow> command \<Rightarrow> result \<Rightarrow> result" where
  "gate_hmac mac g cmd r =
     (if HMACSecret g \<noteq> [] then
        (if cmd_HMAC cmd = [] then fail_gate ''hmac'' HMACMissing r
         else if verify_hmac mac (HMACSecret g) (cmd_raw cmd) (cmd_HMAC cmd) then pass_gate ''hmac'' r
         else fail_gate ''hmac'' HMACMismatch r)
      else r)"

definition gate_pgp :: "gate_config \<Rightarrow> result \<Rightarrow> result" where
  "gate_pgp g r = (if RequirePGP g then fail_gate ''pgp'' PGPNotImplemented r else r)"

text \<open>
  The age of a command: \<open>Sub\<close> saturates, and \<open>-age\<close> is an \<open>int64\<close> negation, which
  maps the least duration to itself.
\<close>

definition command_age :: "gotime \<Rightarrow> gotime \<Rightarrow> duration" where
  "command_age now ts =
     (let age = time_sub now ts in if age < 0 then dur64 (- age) else age)"

definition window_exceeded :: "gate_config \<Rightarrow> gotime \<Rightarrow> gotime \<Rightarrow> bool" where
  "window_exceeded g now ts =
     (ReplayWindowMinutes g > 0 \<and>
      command_age now ts > dur64 (ReplayWindowMinutes g * ns_per_min))"

definition gate_window :: "gate_config \<Rightarrow> gotime \<Rightarrow> command \<Rightarrow> result \<Rightarrow> result" where
  "gate_window g now cmd r =
     (if window_exceeded g now (cmd_TS cmd)
      then fail_gate ''replay'' (OutsideWindow (ReplayWindowMinutes g)) r else r)"

definition gate_nonce ::
  "'s seen_or_record option \<Rightarrow> string \<Rightarrow> command \<Rightarrow> result \<Rightarrow> 's \<Rightarrow> result \<times> 's" where
  "gate_nonce store acct cmd r s =
     (if cmd_Nonce cmd = [] then (fail_gate ''replay'' NonceMissing r, s)
      else (case store of
              None \<Rightarrow> (r, s)
            | Some seen \<Rightarrow>
                (case seen acct (cmd_Nonce cmd) (cmd_TS cmd) s of
                   (Inl e, s') \<Rightarrow> (fail_gate ''replay'' (NonceStoreError e) r, s')
                 | (Inr True, s') \<Rightarrow> (fail_gate ''replay'' NonceReplayed r, s')
                 | (Inr False, s') \<Rightarrow> (pass_gate ''replay'' r, s'))))"

definition decide :: "string \<Rightarrow> inbound_config \<Rightarrow> message \<Rightarrow> command \<Rightarrow> result \<Rightarrow> result" where
  "decide acct ic msg cmd r =
     (if Failed r \<noteq> [] then r
      else if \<not> capability_allowed (cmd_Verb cmd) (in_Capabilities ic)
      then fail_gate ''capability'' (VerbNotAllowed (cmd_Verb cmd)) r
      else r\<lparr>Triggered := True,
             Verified := Some \<lparr>vc_Account = acct, vc_From = msg_From msg, vc_Command = cmd,
                               vc_Gates = Passed r\<rparr>\<rparr>)"

definition evaluate ::
  "'s verifier \<Rightarrow> gotime \<Rightarrow> account_config option \<Rightarrow> message \<Rightarrow> 's \<Rightarrow> result \<times> 's" where
  "evaluate v now acct msg s =
     (case acct of
        None \<Rightarrow> (fail_gate ''inbound'' InboundNotEnabled empty_result, s)
      | Some a \<Rightarrow>
          (case acct_Inbound a of
             None \<Rightarrow> (fail_gate ''inbound'' InboundNotEnabled empty_result, s)
           | Some ic \<Rightarrow>
               (if \<not> in_Enabled ic then (fail_gate ''inbound'' InboundNotEnabled empty_result, s)
                else (case parse_command (msg_Body msg) of
                        Inl e \<Rightarrow> (fail_gate ''envelope'' (EnvelopeRejected e) empty_result, s)
                      | Inr cmd \<Rightarrow>
                          (let g = in_Gates ic;
                               r1 = gate_allowlist g msg empty_result;
                               r2 = gate_auth (RequireDKIM g) ''dkim'' msg r1;
                               r3 = gate_auth (RequireDMARC g) ''dmarc'' msg r2;
                               r4 = gate_hmac (v_mac v) g cmd r3;
                               r5 = gate_pgp g r4;
                               r6 = gate_window g now cmd r5;
                               (r7, s') = gate_nonce (v_nonces v) (acct_Name a) cmd r6 s
                           in (decide (acct_Name a) ic msg cmd r7, s'))))))"

section \<open>What triggering means\<close>

text \<open>The declarative reading of the gates: every gate that is configured holds.\<close>

definition gates_satisfied ::
  "(string \<Rightarrow> string \<Rightarrow> string) \<Rightarrow> gate_config \<Rightarrow> gotime \<Rightarrow> message \<Rightarrow> command \<Rightarrow> bool" where
  "gates_satisfied mac g now msg cmd \<longleftrightarrow>
     (Allowlist g \<noteq> [] \<longrightarrow> allowlisted (msg_From msg) (Allowlist g)) \<and>
     (RequireDKIM g \<longrightarrow> auth_result_pass (msg_Headers msg) ''dkim'') \<and>
     (RequireDMARC g \<longrightarrow> auth_result_pass (msg_Headers msg) ''dmarc'') \<and>
     (HMACSecret g \<noteq> [] \<longrightarrow>
        cmd_HMAC cmd \<noteq> [] \<and> verify_hmac mac (HMACSecret g) (cmd_raw cmd) (cmd_HMAC cmd)) \<and>
     \<not> RequirePGP g \<and> \<not> window_exceeded g now (cmd_TS cmd)"

definition nonce_accepted :: "'s seen_or_record option \<Rightarrow> string \<Rightarrow> command \<Rightarrow> 's \<Rightarrow> bool" where
  "nonce_accepted store acct cmd s \<longleftrightarrow>
     cmd_Nonce cmd \<noteq> [] \<and>
     (case store of None \<Rightarrow> True
      | Some seen \<Rightarrow> fst (seen acct (cmd_Nonce cmd) (cmd_TS cmd) s) = Inr False)"

lemma Failed_empty [simp]: "Failed empty_result = []" "Triggered empty_result = False"
    "Verified empty_result = None"
  by (simp_all add: empty_result_def)

lemma fail_gate_sel [simp]:
  "Failed (fail_gate g w r) = Failed r @ [g]" "Triggered (fail_gate g w r) = Triggered r"
  "Verified (fail_gate g w r) = Verified r" "Passed (fail_gate g w r) = Passed r"
  by (simp_all add: fail_gate_def)

lemma pass_gate_sel [simp]:
  "Failed (pass_gate g r) = Failed r" "Triggered (pass_gate g r) = Triggered r"
  "Verified (pass_gate g r) = Verified r" "Passed (pass_gate g r) = Passed r @ [g]"
  by (simp_all add: pass_gate_def)

lemmas gate_defs = gate_allowlist_def gate_auth_def gate_hmac_def gate_pgp_def gate_window_def

lemma gates_untriggered [simp]:
  "Triggered (gate_allowlist g msg r) = Triggered r" "Triggered (gate_auth b m msg r) = Triggered r"
  "Triggered (gate_hmac mac g cmd r) = Triggered r" "Triggered (gate_pgp g r) = Triggered r"
  "Triggered (gate_window g now cmd r) = Triggered r"
  "Triggered (fst (gate_nonce store acct cmd r s)) = Triggered r"
  "Verified (gate_allowlist g msg r) = Verified r" "Verified (gate_auth b m msg r) = Verified r"
  "Verified (gate_hmac mac g cmd r) = Verified r" "Verified (gate_pgp g r) = Verified r"
  "Verified (gate_window g now cmd r) = Verified r"
  "Verified (fst (gate_nonce store acct cmd r s)) = Verified r"
  by (auto simp: gate_defs gate_nonce_def split: option.splits sum.splits prod.splits bool.splits)

lemma Failed_gates [simp]:
  "Failed (gate_allowlist g msg r) = [] \<longleftrightarrow>
     Failed r = [] \<and> (Allowlist g \<noteq> [] \<longrightarrow> allowlisted (msg_From msg) (Allowlist g))"
  "Failed (gate_auth b m msg r) = [] \<longleftrightarrow>
     Failed r = [] \<and> (b \<longrightarrow> auth_result_pass (msg_Headers msg) m)"
  "Failed (gate_hmac mac g cmd r) = [] \<longleftrightarrow>
     Failed r = [] \<and> (HMACSecret g \<noteq> [] \<longrightarrow>
        cmd_HMAC cmd \<noteq> [] \<and> verify_hmac mac (HMACSecret g) (cmd_raw cmd) (cmd_HMAC cmd))"
  "Failed (gate_pgp g r) = [] \<longleftrightarrow> Failed r = [] \<and> \<not> RequirePGP g"
  "Failed (gate_window g now cmd r) = [] \<longleftrightarrow>
     Failed r = [] \<and> \<not> window_exceeded g now (cmd_TS cmd)"
  by (auto simp: gate_defs)

lemma Failed_gate_nonce [simp]:
  "Failed (fst (gate_nonce store acct cmd r s)) = [] \<longleftrightarrow>
     Failed r = [] \<and> nonce_accepted store acct cmd s"
  by (auto simp: gate_nonce_def nonce_accepted_def
      split: option.splits sum.splits prod.splits bool.splits)

lemma decide_Triggered:
  "Triggered (decide acct ic msg cmd r) \<longleftrightarrow>
     (if Failed r = [] \<and> capability_allowed (cmd_Verb cmd) (in_Capabilities ic) then True else Triggered r)"
  by (simp add: decide_def)

definition evaluate_gates ::
  "'s verifier \<Rightarrow> gotime \<Rightarrow> string \<Rightarrow> gate_config \<Rightarrow> message \<Rightarrow> command \<Rightarrow> 's \<Rightarrow> result \<times> 's" where
  "evaluate_gates v now acct g msg cmd s =
     gate_nonce (v_nonces v) acct cmd
       (gate_window g now cmd (gate_pgp g (gate_hmac (v_mac v) g cmd
         (gate_auth (RequireDMARC g) ''dmarc'' msg (gate_auth (RequireDKIM g) ''dkim'' msg
           (gate_allowlist g msg empty_result)))))) s"

lemma evaluate_active:
  "acct_Inbound a = Some ic \<Longrightarrow> in_Enabled ic \<Longrightarrow> parse_command (msg_Body msg) = Inr cmd \<Longrightarrow>
   evaluate v now (Some a) msg s =
     (decide (acct_Name a) ic msg cmd (fst (evaluate_gates v now (acct_Name a) (in_Gates ic) msg cmd s)),
      snd (evaluate_gates v now (acct_Name a) (in_Gates ic) msg cmd s))"
  by (simp add: evaluate_def evaluate_gates_def Let_def split_beta)

lemma evaluate_gates_ok:
  "Failed (fst (evaluate_gates v now acct g msg cmd s)) = [] \<longleftrightarrow>
     gates_satisfied (v_mac v) g now msg cmd \<and> nonce_accepted (v_nonces v) acct cmd s"
  by (auto simp: evaluate_gates_def gates_satisfied_def)

lemma evaluate_gates_untriggered [simp]:
  "Triggered (fst (evaluate_gates v now acct g msg cmd s)) = False"
  "Verified (fst (evaluate_gates v now acct g msg cmd s)) = None"
  by (simp_all add: evaluate_gates_def)

lemma evaluate_inactive:
  assumes "\<nexists>a ic cmd. acct = Some a \<and> acct_Inbound a = Some ic \<and> in_Enabled ic \<and>
             parse_command (msg_Body msg) = Inr cmd"
  shows "Triggered (fst (evaluate v now acct msg s)) = False"
    and "Verified (fst (evaluate v now acct msg s)) = None"
    and "snd (evaluate v now acct msg s) = s"
  using assms
  by (auto simp: evaluate_def split: option.splits sum.splits)

lemma evaluate_triggered_cases:
  "Triggered (fst (evaluate v now acct msg s)) \<longleftrightarrow>
     (\<exists>a ic cmd. acct = Some a \<and> acct_Inbound a = Some ic \<and> in_Enabled ic \<and>
        parse_command (msg_Body msg) = Inr cmd \<and>
        gates_satisfied (v_mac v) (in_Gates ic) now msg cmd \<and>
        nonce_accepted (v_nonces v) (acct_Name a) cmd s \<and>
        capability_allowed (cmd_Verb cmd) (in_Capabilities ic))"
proof (cases "\<exists>a ic cmd. acct = Some a \<and> acct_Inbound a = Some ic \<and> in_Enabled ic \<and>
             parse_command (msg_Body msg) = Inr cmd")
  case True
  then obtain a ic cmd where *: "acct = Some a" "acct_Inbound a = Some ic" "in_Enabled ic"
    "parse_command (msg_Body msg) = Inr cmd" by blast
  then show ?thesis
    by (simp add: evaluate_active decide_Triggered evaluate_gates_ok)
next
  case False
  show ?thesis
    unfolding evaluate_inactive(1) [OF False] using False by simp
qed

lemma evaluate_verified:
  "Verified (fst (evaluate v now acct msg s)) = Some vc \<Longrightarrow>
     Triggered (fst (evaluate v now acct msg s)) \<and>
     (\<exists>a. acct = Some a \<and> vc_Account vc = acct_Name a \<and>
        parse_command (msg_Body msg) = Inr (vc_Command vc))"
proof -
  assume ver: "Verified (fst (evaluate v now acct msg s)) = Some vc"
  then obtain a ic cmd where *: "acct = Some a" "acct_Inbound a = Some ic" "in_Enabled ic"
    "parse_command (msg_Body msg) = Inr cmd"
    using evaluate_inactive(2) by (metis option.distinct(1))
  with ver show ?thesis
    by (auto simp: evaluate_active decide_def split: if_splits)
qed

section \<open>Canonical form\<close>

lemma envelope_fields_values:
  assumes "envelope_fields m ls = Inr m'" and "m' k = Some v"
    and "\<forall>l\<in>set ls. newline_char \<notin> set l"
    and "\<And>k v. m k = Some v \<Longrightarrow> newline_char \<notin> set v"
  shows "newline_char \<notin> set v"
  using assms
proof (induction ls arbitrary: m)
  case Nil
  then show ?case by auto
next
  case (Cons l ls)
  let ?line = "trim_space l"
  have nl: "newline_char \<notin> set ?line"
    using Cons.prems(3) set_trim_space by auto
  show ?case
  proof (cases "?line = []")
    case True
    then show ?thesis using Cons by auto
  next
    case False
    with Cons.prems(1) obtain a b where ab: "cut_at CHR '':'' ?line = Some (a, b)"
      by (auto simp: Let_def split: option.splits)
    have "newline_char \<notin> set (trim_space b)"
      using nl cut_at_Some [OF ab] set_trim_space by (metis Un_iff list.set_intros(2) set_append)
    moreover have "envelope_fields (m(to_lower (trim_space a) \<mapsto> trim_space b)) ls = Inr m'"
      using Cons.prems(1) False ab by (simp add: Let_def)
    ultimately show ?thesis
      using Cons.prems by (intro Cons.IH) (auto split: if_splits)
  qed
qed

lemma command_fields_no_newline:
  assumes "parse_command body = Inr c"
  shows "newline_char \<notin> set (cmd_Verb c)" "newline_char \<notin> set (cmd_Args c)"
    "newline_char \<notin> set (cmd_Nonce c)"
proof -
  from assms obtain block m where
    m: "envelope_fields Map.empty (split_on newline_char block) = Inr m" and c: "command_of m = Inr c"
    by (auto simp: parse_command_def split: sum.splits)
  have "newline_char \<notin> set (map_str m k)" for k
    using envelope_fields_values [OF m] split_on_not_in
    by (auto simp: map_str_def split: option.splits)
  with c show "newline_char \<notin> set (cmd_Verb c)" "newline_char \<notin> set (cmd_Args c)"
    "newline_char \<notin> set (cmd_Nonce c)"
    by (auto simp: command_of_def Let_def split: if_splits option.splits)
qed

lemma parse_command_raw: "parse_command body = Inr c \<Longrightarrow> cmd_raw c = canonical_envelope c"
  by (auto simp: parse_command_def command_of_def Let_def canonical_envelope_def
      split: sum.splits if_splits option.splits)

lemma canonical_envelope_inj:
  assumes eq: "canonical_envelope c = canonical_envelope d"
    and c: "newline_char \<notin> set (cmd_Verb c)" "newline_char \<notin> set (cmd_Args c)" "newline_char \<notin> set (cmd_Nonce c)"
    and d: "newline_char \<notin> set (cmd_Verb d)" "newline_char \<notin> set (cmd_Args d)" "newline_char \<notin> set (cmd_Nonce d)"
  shows "cmd_Verb c = cmd_Verb d \<and> cmd_Args c = cmd_Args d \<and> cmd_Nonce c = cmd_Nonce d \<and>
     format_rfc3339 (cmd_TS c) = format_rfc3339 (cmd_TS d)"
proof -
  let ?ts = "\<lambda>x. ''ts:'' @ format_rfc3339 (cmd_TS x) @ [newline_char]"
  let ?n = "\<lambda>x. ''nonce:'' @ cmd_Nonce x @ newline_char # ?ts x"
  let ?a = "\<lambda>x. ''args:'' @ cmd_Args x @ newline_char # ?n x"
  have "cmd_Verb c @ newline_char # ?a c = cmd_Verb d @ newline_char # ?a d"
    using eq by (simp add: canonical_envelope_def)
  then have v: "cmd_Verb c = cmd_Verb d" and "?a c = ?a d"
    using append_sep_inj [OF _ c(1) d(1)] by blast+
  then have "cmd_Args c @ newline_char # ?n c = cmd_Args d @ newline_char # ?n d" by simp
  then have a: "cmd_Args c = cmd_Args d" and "?n c = ?n d"
    using append_sep_inj [OF _ c(2) d(2)] by blast+
  then have "cmd_Nonce c @ newline_char # ?ts c = cmd_Nonce d @ newline_char # ?ts d" by simp
  then have n: "cmd_Nonce c = cmd_Nonce d" and "?ts c = ?ts d"
    using append_sep_inj [OF _ c(3) d(3)] by blast+
  with v a show ?thesis by simp
qed

section \<open>The nonce store interface\<close>

text \<open>
  What \<open>Evaluate\<close> relies on: the store behaves as a growing set of
  (account, nonce) pairs, and answers \<open>false\<close> only when it has just added the pair.
\<close>

locale nonce_store =
  fixes seen_or_record :: "'s seen_or_record"
    and recorded :: "'s \<Rightarrow> (string \<times> string) set"
  assumes fresh: "seen_or_record a n t s = (Inr False, s') \<Longrightarrow>
                    (a, n) \<notin> recorded s \<and> recorded s' = insert (a, n) (recorded s)"
    and seen: "seen_or_record a n t s = (Inr True, s') \<Longrightarrow>
                    (a, n) \<in> recorded s \<and> recorded s' = recorded s"
    and failed: "seen_or_record a n t s = (Inl e, s') \<Longrightarrow> recorded s' = recorded s"

text \<open>A run of the verifier over a sequence of deliveries, each with its own clock reading.\<close>

fun evaluate_run ::
  "'s verifier \<Rightarrow> (gotime \<times> account_config option \<times> message) list \<Rightarrow> 's \<Rightarrow> result list \<times> 's" where
  "evaluate_run v [] s = ([], s)"
| "evaluate_run v ((now, acct, msg) # ds) s =
     (let (r, s1) = evaluate v now acct msg s; (rs, s2) = evaluate_run v ds s1 in (r # rs, s2))"

definition triggered_keys :: "result list \<Rightarrow> (string \<times> string) list" where
  "triggered_keys rs = map (\<lambda>vc. (vc_Account vc, cmd_Nonce (vc_Command vc))) (List.map_filter Verified rs)"

context nonce_store
begin

lemma recorded_mono:
  assumes "v_nonces v = Some seen_or_record"
  shows "recorded s \<subseteq> recorded (snd (evaluate v now acct msg s))"
proof (cases "\<exists>a ic cmd. acct = Some a \<and> acct_Inbound a = Some ic \<and> in_Enabled ic \<and>
             parse_command (msg_Body msg) = Inr cmd")
  case True
  then obtain a ic cmd where *: "acct = Some a" "acct_Inbound a = Some ic" "in_Enabled ic"
    "parse_command (msg_Body msg) = Inr cmd" by blast
  obtain res s' where call: "seen_or_record (acct_Name a) (cmd_Nonce cmd) (cmd_TS cmd) s = (res, s')"
    by fastforce
  have "recorded s \<subseteq> recorded s'"
  proof (cases res)
    case (Inl e)
    with call failed show ?thesis by blast
  next
    case (Inr b)
    show ?thesis
    proof (cases b)
      case True
      with call Inr seen show ?thesis by fastforce
    next
      case False
      with call Inr fresh show ?thesis by fastforce
    qed
  qed
  moreover have "snd (evaluate v now acct msg s) = (if cmd_Nonce cmd = [] then s else s')"
    using * assms call
    by (simp add: evaluate_active evaluate_gates_def gate_nonce_def split: sum.splits bool.splits)
  ultimately show ?thesis by simp
next
  case False
  then show ?thesis using evaluate_inactive(3) by (metis order_refl)
qed

lemma verified_records:
  assumes "v_nonces v = Some seen_or_record"
    and "Verified (fst (evaluate v now acct msg s)) = Some vc"
  shows "(vc_Account vc, cmd_Nonce (vc_Command vc)) \<notin> recorded s \<and>
     (vc_Account vc, cmd_Nonce (vc_Command vc)) \<in> recorded (snd (evaluate v now acct msg s))"
proof -
  from evaluate_verified [OF assms(2)] obtain a where a: "acct = Some a"
      "vc_Account vc = acct_Name a" "parse_command (msg_Body msg) = Inr (vc_Command vc)"
    and "Triggered (fst (evaluate v now acct msg s))" by blast
  then obtain ic where ic: "acct_Inbound a = Some ic" "in_Enabled ic"
    and acc: "nonce_accepted (v_nonces v) (acct_Name a) (vc_Command vc) s"
    by (auto simp: evaluate_triggered_cases)
  let ?n = "cmd_Nonce (vc_Command vc)"
  obtain s' where call:
    "seen_or_record (acct_Name a) ?n (cmd_TS (vc_Command vc)) s = (Inr False, s')"
    using acc assms(1) by (auto simp: nonce_accepted_def) (metis prod.collapse)
  have "?n \<noteq> []" using acc by (simp add: nonce_accepted_def)
  with a ic call assms(1) have "snd (evaluate v now acct msg s) = s'"
    by (simp add: evaluate_active evaluate_gates_def gate_nonce_def)
  with fresh [OF call] a show ?thesis by simp
qed

lemma run_keys_recorded:
  assumes "v_nonces v = Some seen_or_record"
  shows "set (triggered_keys (fst (evaluate_run v ds s))) \<inter> recorded s = {} \<and>
    distinct (triggered_keys (fst (evaluate_run v ds s)))"
proof (induction ds arbitrary: s)
  case Nil
  then show ?case by (simp add: triggered_keys_def List.map_filter_def)
next
  case (Cons d ds)
  obtain now acct msg where d: "d = (now, acct, msg)" by (cases d)
  let ?r = "fst (evaluate v now acct msg s)" and ?s1 = "snd (evaluate v now acct msg s)"
  let ?ks = "triggered_keys (fst (evaluate_run v ds ?s1))"
  have ks: "triggered_keys (fst (evaluate_run v (d # ds) s)) =
      (case Verified ?r of None \<Rightarrow> ?ks
       | Some vc \<Rightarrow> (vc_Account vc, cmd_Nonce (vc_Command vc)) # ?ks)"
    by (simp add: d triggered_keys_def List.map_filter_def split_beta split: option.splits)
  have IH: "set ?ks \<inter> recorded ?s1 = {}" "distinct ?ks" using Cons.IH by blast+
  have mono: "recorded s \<subseteq> recorded ?s1" using recorded_mono [OF assms] .
  show ?case
  proof (cases "Verified ?r")
    case None
    with ks IH mono show ?thesis by auto
  next
    case (Some vc)
    from verified_records [OF assms Some] ks Some IH mono show ?thesis by auto
  qed
qed

end

section \<open>Properties of the trust boundary\<close>

text \<open>C1: Default deny. A message triggers exactly when the account's channel is enabled, a
  command envelope parses, every configured gate holds, the nonce is accepted and the verb
  is in the account's capability list; in every other case nothing triggers.\<close>

theorem triggers_exactly_when_trusted:
  "Triggered (fst (evaluate v now acct msg s)) \<longleftrightarrow>
     (\<exists>a ic cmd. acct = Some a \<and> acct_Inbound a = Some ic \<and> in_Enabled ic \<and>
        parse_command (msg_Body msg) = Inr cmd \<and>
        gates_satisfied (v_mac v) (in_Gates ic) now msg cmd \<and>
        nonce_accepted (v_nonces v) (acct_Name a) cmd s \<and>
        capability_allowed (cmd_Verb cmd) (in_Capabilities ic))"
  by (rule evaluate_triggered_cases)

text \<open>C39: The bytes under the HMAC determine the command: two envelopes that parse and have
  the same canonical form agree on verb, arguments, nonce and the RFC 3339 text of the timestamp, which is
  exact to the second (fractions of a second are not signed), so a signature cannot be moved to
  another command by shifting field boundaries.\<close>

theorem canonical_form_binds_command:
  assumes "parse_command b1 = Inr c" and "parse_command b2 = Inr d" and "cmd_raw c = cmd_raw d"
  shows "cmd_Verb c = cmd_Verb d \<and> cmd_Args c = cmd_Args d \<and> cmd_Nonce c = cmd_Nonce d \<and>
     format_rfc3339 (cmd_TS c) = format_rfc3339 (cmd_TS d)"
  using assms(3) command_fields_no_newline [OF assms(1)] command_fields_no_newline [OF assms(2)]
  by (intro canonical_envelope_inj) (simp_all add: parse_command_raw [OF assms(1)] parse_command_raw [OF assms(2)])

definition sample_body1 :: string where
  "sample_body1 = env_begin @ [newline_char] @ ''verb: ping'' @ [newline_char] @ ''nonce: n1'' @
     [newline_char] @ env_end"

definition sample_body2 :: string where
  "sample_body2 = ''hi '' @ env_begin @ [newline_char] @ '' Nonce : n1'' @ [newline_char] @ ''VERB:ping'' @
     [newline_char] @ env_end @ ''bye''"

lemma sample_bodies:
  "parse_command sample_body1 = parse_command sample_body2"
  "\<exists>c. parse_command sample_body1 = Inr c \<and> cmd_Verb c = ''ping'' \<and> cmd_Nonce c = ''n1''"
proof -
  let ?c = "\<lparr>cmd_Verb = ''ping'', cmd_Args = [], cmd_Nonce = ''n1'', cmd_TS = zero_time, cmd_HMAC = [],
    cmd_raw = ''verb:ping'' @ [newline_char] @ ''args:'' @ [newline_char] @ ''nonce:n1'' @ [newline_char] @
      ''ts:0001-01-01T00:00:00Z'' @ [newline_char]\<rparr>"
  have 1: "parse_command sample_body1 = Inr ?c" by code_simp
  have 2: "parse_command sample_body2 = Inr ?c" by code_simp
  show "parse_command sample_body1 = parse_command sample_body2" by (simp only: 1 2)
  show "\<exists>c. parse_command sample_body1 = Inr c \<and> cmd_Verb c = ''ping'' \<and> cmd_Nonce c = ''n1''"
    by (simp add: 1)
qed

theorem canonical_form_binds_command_witness:
  "\<exists>c d. parse_command sample_body1 = Inr c \<and> parse_command sample_body2 = Inr d \<and>
     cmd_Verb c = cmd_Verb d \<and> cmd_Args c = cmd_Args d \<and> cmd_Nonce c = cmd_Nonce d"
proof -
  obtain c where c: "parse_command sample_body1 = Inr c" using sample_bodies(2) by blast
  then have d: "parse_command sample_body2 = Inr c" using sample_bodies(1) by simp
  show ?thesis using canonical_form_binds_command [OF c d refl] c d by blast
qed

text \<open>Within the range of a Go duration (about 292 years) the freshness window is what
  the configuration says: a command is stale when its timestamp is further from the clock, in
  either direction, than the configured minutes.\<close>

theorem window_exact_in_range:
  assumes "\<bar>now - ts\<bar> < 2 ^ 63" and "0 \<le> ReplayWindowMinutes g" and "ReplayWindowMinutes g * ns_per_min < 2 ^ 63"
  shows "window_exceeded g now ts \<longleftrightarrow>
     0 < ReplayWindowMinutes g \<and> \<bar>now - ts\<bar> > ReplayWindowMinutes g * ns_per_min"
proof -
  have "time_sub now ts = now - ts"
    using assms(1) by (auto simp: time_sub_def max_duration_def min_duration_def)
  moreover have "dur64 (- (now - ts)) = - (now - ts)"
    using assms(1) by (intro dur64_id) auto
  moreover have "dur64 (ReplayWindowMinutes g * ns_per_min) = ReplayWindowMinutes g * ns_per_min"
    using assms(2,3) by (intro dur64_id) (auto simp: ns_per_min_def)
  ultimately show ?thesis
    by (auto simp: window_exceeded_def command_age_def Let_def)
qed

definition ten_minutes :: gate_config where
  "ten_minutes = \<lparr>Allowlist = [], RequireDKIM = False, RequireDMARC = False, HMACSecret = [],
     ReplayWindowMinutes = 10, RequirePGP = False\<rparr>"

theorem window_exact_in_range_witness:
  "window_exceeded ten_minutes (660 * 1000000000) 0"
  using window_exact_in_range [of "660 * 1000000000" 0 ten_minutes]
  by (simp add: ten_minutes_def ns_per_min_def)

text \<open>Beyond that range the check passes. For a timestamp at least 2^63 nanoseconds ahead
  of the clock the saturated age is the least int64, which negation maps to itself, so the
  command counts as fresh whatever the window.\<close>

theorem far_future_passes_window:
  assumes "ts - now \<ge> 2 ^ 63" and "0 \<le> ReplayWindowMinutes g" and "ReplayWindowMinutes g * ns_per_min < 2 ^ 63"
  shows "command_age now ts = min_duration \<and> \<not> window_exceeded g now ts"
proof -
  have "time_sub now ts = min_duration"
    using assms(1) by (auto simp: time_sub_def max_duration_def min_duration_def)
  moreover have "dur64 (- min_duration) = min_duration"
    by (simp add: dur64_def min_duration_def)
  moreover have "dur64 (ReplayWindowMinutes g * ns_per_min) = ReplayWindowMinutes g * ns_per_min"
    using assms(2,3) by (intro dur64_id) (auto simp: ns_per_min_def)
  ultimately show ?thesis
    using assms(2) by (auto simp: window_exceeded_def command_age_def Let_def min_duration_def ns_per_min_def)
qed

theorem far_future_passes_window_witness:
  "(case parse_rfc3339 ''9999-01-01T00:00:00Z'' of None \<Rightarrow> False
    | Some ts \<Rightarrow> \<not> window_exceeded ten_minutes 1780862400000000000 ts)"
proof -
  have p: "parse_rfc3339 ''9999-01-01T00:00:00Z'' = Some 253370764800000000000" by code_simp
  have "\<not> window_exceeded ten_minutes 1780862400000000000 253370764800000000000"
    by (rule far_future_passes_window [THEN conjunct2]) (simp_all add: ten_minutes_def ns_per_min_def)
  then show ?thesis by (simp add: p)
qed

text \<open>The allowlist compares whole addresses or whole domains: a sender passes exactly
  when some entry, trimmed and lower-cased, is its address (an entry with an at sign) or its
  domain (one without).\<close>

theorem allowlisted_iff_entry:
  "allowlisted from allow \<longleftrightarrow>
     (let addr = to_lower (trim_space (extract_addr from)) in
      addr \<noteq> [] \<and> (\<exists>e\<in>set allow. let n = to_lower (trim_space e) in
        n \<noteq> [] \<and> n = (if str_contains n ''@'' then addr else addr_domain addr)))"
proof -
  have "allow_match addr dom es \<longleftrightarrow> (\<exists>e\<in>set es. let n = to_lower (trim_space e) in
        n \<noteq> [] \<and> n = (if str_contains n ''@'' then addr else dom))" for addr dom es
    by (induction es) (auto simp: Let_def)
  then show ?thesis by (simp add: allowlisted_def Let_def)
qed

end
