(* ===== verification/Nonces.thy ===== *)
theory Nonces
  imports Trust
begin

text \<open>
  The replay store of the state database (\<open>internal/db/nonces.go\<close>, table
  \<open>inbound_nonces\<close> with primary key (account, nonce)). \<open>nd_now\<close> is SQLite's
  \<open>unixepoch()\<close>. Database failures are an explicit input: each call consumes one
  entry of \<open>nd_faults\<close> (the INSERT fails for another reason than the key; the SELECT
  fails); an exhausted list means no failure. The theory interprets the interface
  \<open>nonce_store\<close> on this model and proves that a command is honoured at most once.
\<close>

record nonce_db =
  nd_rows :: "(string \<times> string) \<rightharpoonup> (int option \<times> int)"
  nd_now :: int
  nd_faults :: "(bool \<times> bool) list"

definition next_fault :: "nonce_db \<Rightarrow> (bool \<times> bool) \<times> nonce_db" where
  "next_fault d = (case nd_faults d of [] \<Rightarrow> ((False, False), d)
     | f # fs \<Rightarrow> (f, d\<lparr>nd_faults := fs\<rparr>))"

definition nonce_seen_or_record :: "nonce_db seen_or_record" where
  "nonce_seen_or_record account nonce ts d0 =
     (let ((insert_fails, select_fails), d) = next_fault d0;
          cmd_ts = (if ts = zero_time then None else Some (time_unix ts));
          conflict = (nd_rows d (account, nonce) \<noteq> None)
      in if \<not> insert_fails \<and> \<not> conflict
         then (Inr False, d\<lparr>nd_rows := (nd_rows d)((account, nonce) \<mapsto> (cmd_ts, nd_now d))\<rparr>)
         else if \<not> select_fails \<and> conflict then (Inr True, d)
         else (Inl ''nonce insert failed'', d))"

definition prune_nonces :: "duration \<Rightarrow> nonce_db \<Rightarrow> nonce_db" where
  "prune_nonces older_than d =
     (let cutoff = (nd_now d * ns_per_sec - older_than) div ns_per_sec
      in d\<lparr>nd_rows := (\<lambda>k. case nd_rows d k of
            Some (ts, seen_at) \<Rightarrow> if seen_at < cutoff then None else Some (ts, seen_at)
          | None \<Rightarrow> None)\<rparr>)"

lemma next_fault_rows [simp]: "nd_rows (snd (next_fault d)) = nd_rows d"
  by (simp add: next_fault_def split: list.split)

lemma nonce_fresh:
  "nonce_seen_or_record a n t d = (Inr False, d') \<Longrightarrow>
     (a, n) \<notin> dom (nd_rows d) \<and> dom (nd_rows d') = insert (a, n) (dom (nd_rows d))"
  by (auto simp: nonce_seen_or_record_def Let_def split_beta split: if_splits)

lemma nonce_seen:
  "nonce_seen_or_record a n t d = (Inr True, d') \<Longrightarrow>
     (a, n) \<in> dom (nd_rows d) \<and> dom (nd_rows d') = dom (nd_rows d)"
  by (auto simp: nonce_seen_or_record_def Let_def split_beta split: if_splits)

lemma nonce_failed:
  "nonce_seen_or_record a n t d = (Inl e, d') \<Longrightarrow> dom (nd_rows d') = dom (nd_rows d)"
  by (auto simp: nonce_seen_or_record_def Let_def split_beta split: if_splits)

interpretation nonces: nonce_store nonce_seen_or_record "\<lambda>d. dom (nd_rows d)"
  by unfold_locales (rule nonce_fresh nonce_seen nonce_failed, assumption)+

definition db_verifier :: "(string \<Rightarrow> string \<Rightarrow> string) \<Rightarrow> nonce_db verifier" where
  "db_verifier mac = \<lparr>v_nonces = Some nonce_seen_or_record, v_mac = mac\<rparr>"

lemma db_verifier_sel [simp]: "v_nonces (db_verifier mac) = Some nonce_seen_or_record" "v_mac (db_verifier mac) = mac"
  by (simp_all add: db_verifier_def)

text \<open>C2: Single use of a command. Over any sequence of deliveries, with any clock, any
  digest function and any database failures, no (account, nonce) pair triggers twice, and
  none triggers that the database held before.\<close>

theorem no_replay_over_deliveries:
  "distinct (triggered_keys (fst (evaluate_run (db_verifier mac) ds d))) \<and>
   set (triggered_keys (fst (evaluate_run (db_verifier mac) ds d))) \<inter> dom (nd_rows d) = {}"
  using nonces.run_keys_recorded [of "db_verifier mac"] by simp

lemma prune_keeps_recent:
  "nd_rows d k = Some (ts, at) \<Longrightarrow> nd_rows (prune_nonces age d) k =
     (if at < (nd_now d * ns_per_sec - age) div ns_per_sec then None else Some (ts, at))"
  by (simp add: prune_nonces_def Let_def)

end
