(* ===== verification/Inbound.thy ===== *)
theory Inbound
  imports Trust Bus
begin

text \<open>
  The inbound command channel (\<open>internal/inbound\<close>): \<open>parseHeaderBlock\<close> and
  \<open>buildMessage\<close> (parse.go), \<open>Processor.Process\<close> (processor.go) and the polling
  \<open>Watcher\<close> (watcher.go). The IMAP server behind the pool is a parameter, the record
  \<open>imap_ops\<close> over a mailbox state: connection, SELECT, UID SEARCH UNSEEN, FETCH
  and STORE of the seen flag. \<open>clock a u\<close> is the reading of the verifier's clock when
  message \<open>u\<close> of account \<open>a\<close> is evaluated.
\<close>

section \<open>Header block\<close>

definition flush_header :: "string \<Rightarrow> string \<Rightarrow> (string \<rightharpoonup> string) \<Rightarrow> (string \<rightharpoonup> string)" where
  "flush_header k v out = (if k \<noteq> [] then out(k \<mapsto> trim_space v) else out)"

fun header_lines :: "(string \<rightharpoonup> string) \<Rightarrow> string \<Rightarrow> string \<Rightarrow> string list \<Rightarrow> (string \<rightharpoonup> string)" where
  "header_lines out curKey curVal [] = flush_header curKey curVal out"
| "header_lines out curKey curVal (line # ls) =
     (case line of
        [] \<Rightarrow> header_lines out curKey curVal ls
      | c # _ \<Rightarrow>
          (if c = CHR '' '' \<or> c = CHR 0x09
           then header_lines out curKey (curVal @ '' '' @ trim_space line) ls
           else (case cut_at CHR '':'' line of
                   None \<Rightarrow> header_lines out curKey curVal ls
                 | Some (k, v) \<Rightarrow>
                     header_lines (flush_header curKey curVal out) (to_lower (trim_space k))
                       (trim_space v) ls)))"

definition parse_header_block :: "string \<Rightarrow> (string \<rightharpoonup> string)" where
  "parse_header_block raw =
     header_lines Map.empty [] [] (split_on newline_char (replace_all [CHR 0x0D, newline_char] [newline_char] raw))"

definition build_message :: "string \<Rightarrow> string \<Rightarrow> string \<Rightarrow> message" where
  "build_message from raw body =
     \<lparr>msg_From = from, msg_Headers = parse_header_block raw, msg_Body = body\<rparr>"

section \<open>Processor\<close>

datatype inbound_payload = PayloadVerified verified_command | PayloadResult result

definition has_envelope :: "string \<Rightarrow> bool" where
  "has_envelope body = str_contains body ''-----BEGIN DATAWATCH COMMAND-----''"

definition publish_opt :: "('p, 't) bus option \<Rightarrow> 'p event \<Rightarrow> 't \<Rightarrow> 't" where
  "publish_opt b e t = (case b of None \<Rightarrow> t | Some b \<Rightarrow> publish b e t)"

definition process ::
  "(inbound_payload, 't) bus option \<Rightarrow> 's verifier \<Rightarrow> gotime \<Rightarrow> account_config \<Rightarrow> message \<Rightarrow>
     's \<times> 't \<Rightarrow> result \<times> 's \<times> 't" where
  "process b v now acct msg st =
     (let (s, t) = st; (res, s') = evaluate v now (Some acct) msg s in
      if Triggered res then
        (res, s', (case Verified res of
            Some vc \<Rightarrow> publish_opt b \<lparr>ev_Type = EventInboundCommand, ev_Account = acct_Name acct,
                          ev_Payload = PayloadVerified vc\<rparr> t
          | None \<Rightarrow> t))
      else if has_envelope (msg_Body msg) then
        (res, s', publish_opt b \<lparr>ev_Type = EventInboundRejected, ev_Account = acct_Name acct,
                    ev_Payload = PayloadResult res\<rparr> t)
      else (res, s', t))"

section \<open>Watcher\<close>

type_synonym clock = "string \<Rightarrow> nat \<Rightarrow> gotime"

datatype body_part = PartHeader | PartText | PartOther

record fetched =
  f_From :: "string list"  \<comment> \<open>addresses of the envelope's From list; empty when absent\<close>
  f_Sections :: "(body_part option \<times> string) list"

record 'm imap_ops =
  im_resolve :: "string \<Rightarrow> 'm \<Rightarrow> string option"         \<comment> \<open>an error, if any\<close>
  im_select :: "string \<Rightarrow> string \<Rightarrow> 'm \<Rightarrow> string option"
  im_search_unseen :: "string \<Rightarrow> string \<Rightarrow> 'm \<Rightarrow> string + nat list"
  im_fetch :: "string \<Rightarrow> string \<Rightarrow> nat \<Rightarrow> 'm \<Rightarrow> fetched option"  \<comment> \<open>\<open>None\<close>: error or no message\<close>
  im_store_seen :: "string \<Rightarrow> string \<Rightarrow> nat \<Rightarrow> 'm \<Rightarrow> 'm"

record ('s, 't, 'm) watch_state =
  w_nonce :: 's
  w_bus :: 't
  w_mail :: 'm
  w_marked :: "(string \<times> nat) list"             \<comment> \<open>ghost: the STORE calls, in order\<close>
  w_handled :: "(string \<times> nat \<times> result) list"   \<comment> \<open>ghost: the Process calls, in order\<close>

fun section_parts :: "string \<Rightarrow> string \<Rightarrow> (body_part option \<times> string) list \<Rightarrow> string \<times> string" where
  "section_parts h b [] = (h, b)"
| "section_parts h b ((spec, bytes) # xs) =
     (case spec of
        Some PartHeader \<Rightarrow> section_parts bytes b xs
      | Some PartText \<Rightarrow> section_parts h bytes xs
      | _ \<Rightarrow> section_parts h b xs)"

definition fetched_message :: "fetched \<Rightarrow> message" where
  "fetched_message f =
     (let from = (case f_From f of [] \<Rightarrow> [] | a # _ \<Rightarrow> a);
          (raw, body) = section_parts [] [] (f_Sections f)
      in build_message from raw body)"

definition poll_uid ::
  "'m imap_ops \<Rightarrow> (inbound_payload, 't) bus option \<Rightarrow> 's verifier \<Rightarrow> clock \<Rightarrow> account_config \<Rightarrow>
     string \<Rightarrow> nat \<Rightarrow> ('s, 't, 'm) watch_state \<Rightarrow> ('s, 't, 'm) watch_state" where
  "poll_uid im b v clock acct folder uid w =
     (case im_fetch im (acct_Name acct) folder uid (w_mail w) of
        None \<Rightarrow> w
      | Some f \<Rightarrow>
          (let msg = fetched_message f in
           if \<not> has_envelope (msg_Body msg) then w
           else (let (res, s', t') = process b v (clock (acct_Name acct) uid) acct msg (w_nonce w, w_bus w) in
                 w\<lparr>w_nonce := s', w_bus := t',
                   w_mail := im_store_seen im (acct_Name acct) folder uid (w_mail w),
                   w_marked := w_marked w @ [(acct_Name acct, uid)],
                   w_handled := w_handled w @ [(acct_Name acct, uid, res)]\<rparr>)))"

definition watch_folder :: "inbound_config \<Rightarrow> string" where
  "watch_folder ic = (if in_WatchFolder ic = [] then ''INBOX'' else in_WatchFolder ic)"

definition poll_account ::
  "'m imap_ops \<Rightarrow> (inbound_payload, 't) bus option \<Rightarrow> 's verifier \<Rightarrow> clock \<Rightarrow> account_config \<Rightarrow>
     inbound_config \<Rightarrow> ('s, 't, 'm) watch_state \<Rightarrow> string option \<times> ('s, 't, 'm) watch_state" where
  "poll_account im b v clock acct ic w =
     (let folder = watch_folder ic; name = acct_Name acct in
      case im_resolve im name (w_mail w) of
        Some e \<Rightarrow> (Some e, w)
      | None \<Rightarrow>
          (case im_select im name folder (w_mail w) of
             Some e \<Rightarrow> (Some e, w)
           | None \<Rightarrow>
               (case im_search_unseen im name folder (w_mail w) of
                  Inl e \<Rightarrow> (Some e, w)
                | Inr uids \<Rightarrow> (None, fold (poll_uid im b v clock acct folder) uids w))))"

definition poll_all ::
  "'m imap_ops \<Rightarrow> (inbound_payload, 't) bus option \<Rightarrow> 's verifier \<Rightarrow> clock \<Rightarrow>
     account_config list \<Rightarrow> ('s, 't, 'm) watch_state \<Rightarrow> ('s, 't, 'm) watch_state" where
  "poll_all im b v clock accts w =
     fold (\<lambda>acct w. case acct_Inbound acct of
              None \<Rightarrow> w
            | Some ic \<Rightarrow> if in_Enabled ic then snd (poll_account im b v clock acct ic w) else w)
       accts w"

definition watcher_accounts :: "account_config list \<Rightarrow> string list" where
  "watcher_accounts accts =
     map acct_Name (filter (\<lambda>a. case acct_Inbound a of None \<Rightarrow> False | Some ic \<Rightarrow> in_Enabled ic) accts)"

text \<open>\<open>Run\<close>: no polling at all without an inbound-enabled account; otherwise one
  \<open>pollAll\<close> per tick until the context ends.\<close>

definition watcher_run ::
  "'m imap_ops \<Rightarrow> (inbound_payload, 't) bus option \<Rightarrow> 's verifier \<Rightarrow> account_config list \<Rightarrow>
     clock list \<Rightarrow> ('s, 't, 'm) watch_state \<Rightarrow> ('s, 't, 'm) watch_state" where
  "watcher_run im b v accts ticks w =
     (if watcher_accounts accts = [] then w
      else fold (\<lambda>clock. poll_all im b v clock accts) ticks w)"

section \<open>The header block: which occurrence of a field counts\<close>

lemma split_on_no_sep: "c \<notin> set s \<Longrightarrow> split_on c s = [s]"
  by (induction s) auto

lemma replace_all_absent:
  "x \<notin> set s \<Longrightarrow> replace_all (x # old) new s = s"
proof (induction s)
  case Nil
  then show ?case by (simp add: replace_all.simps)
next
  case (Cons y s)
  then have "\<not> has_prefix (y # s) (x # old)" by (auto simp: has_prefix_def)
  with Cons show ?case by (subst replace_all.simps) simp
qed

lemma header_lines_last:
  "cut_at CHR '':'' l = Some (k, v) \<Longrightarrow> l \<noteq> [] \<Longrightarrow> hd l \<noteq> CHR '' '' \<Longrightarrow> hd l \<noteq> CHR 0x09 \<Longrightarrow>
   to_lower (trim_space k) \<noteq> [] \<Longrightarrow>
   header_lines out ck cv (ls @ [l]) (to_lower (trim_space k)) = Some (trim_space (trim_space v))"
proof (induction ls arbitrary: out ck cv)
  case Nil
  then show ?case by (cases l) (auto simp: flush_header_def)
next
  case (Cons x xs)
  then show ?case by (auto split: list.splits option.splits)
qed

definition auth_results_field :: "string \<Rightarrow> string" where
  "auth_results_field v = ''Authentication-Results: '' @ v"

lemma cut_auth_results:
  "cut_at CHR '':'' (auth_results_field v) = Some (''Authentication-Results'', CHR '' '' # v)"
  by (simp add: auth_results_field_def)

text \<open>The last \<open>Authentication-Results\<close> field of the header block is the one the
  gates see. A receiving server puts its own result above those the message arrived with,
  so a field written by the sender replaces the server's verdict.\<close>

theorem later_auth_results_override:
  assumes "CHR 0x0D \<notin> set hdrs" and "CHR 0x0D \<notin> set v" and "newline_char \<notin> set v"
  shows "msg_Headers (build_message from (hdrs @ newline_char # auth_results_field v) body)
           ''authentication-results'' = Some (trim_space v)"
proof -
  let ?l = "auth_results_field v"
  have "CHR 0x0D \<notin> set (hdrs @ newline_char # ?l)" and nl: "newline_char \<notin> set ?l"
    using assms by (auto simp: auth_results_field_def)
  then have "parse_header_block (hdrs @ newline_char # ?l) =
      header_lines Map.empty [] [] (split_on newline_char hdrs @ [?l])"
    by (simp add: parse_header_block_def replace_all_absent split_on_append_sep split_on_no_sep)
  moreover have "to_lower (trim_space ''Authentication-Results'') = ''authentication-results''"
    by code_simp
  moreover have "trim_space (CHR '' '' # v) = trim_space v"
    by (simp add: trim_space_def is_space_def)
  ultimately show ?thesis
    using header_lines_last [OF cut_auth_results, where out = Map.empty and ck = "[]" and cv = "[]"
      and ls = "split_on newline_char hdrs"]
    by (simp add: build_message_def trim_space_idem) (simp add: auth_results_field_def)
qed

theorem later_auth_results_override_witness:
  "(let m = build_message ''ceo@corp.example'' (''Authentication-Results: mx.corp.example; dkim=fail'' @
              newline_char # auth_results_field ''evil.example; dkim=pass'') []
    in msg_Headers m ''authentication-results'' = Some ''evil.example; dkim=pass'' \<and>
       auth_result_pass (msg_Headers m) ''dkim'')"
proof -
  have t: "trim_space ''evil.example; dkim=pass'' = ''evil.example; dkim=pass''" by code_simp
  have "msg_Headers (build_message ''ceo@corp.example'' (''Authentication-Results: mx.corp.example; dkim=fail'' @
          newline_char # auth_results_field ''evil.example; dkim=pass'') []) ''authentication-results'' =
        Some (trim_space ''evil.example; dkim=pass'')"
    by (rule later_auth_results_override) simp_all
  moreover have "str_contains (to_lower ''evil.example; dkim=pass'') ''dkim=pass''" by code_simp
  ultimately show ?thesis by (simp add: t auth_result_pass_def map_str_def Let_def)
qed

section \<open>What the processor publishes\<close>

definition collector :: "(inbound_payload, inbound_payload event list) bus" where
  "collector = subscribe_all (\<lambda>e t. t @ [e]) new_bus"

lemma publish_collector [simp]: "publish collector e t = t @ [e]"
  by (simp add: collector_def publish_subscribe_all)

text \<open>The bus sees an \<open>inbound.command\<close> event exactly for a triggered message, with
  the verified command as its payload; a failed attempt is audited as
  \<open>inbound.rejected\<close>; mail without an envelope publishes nothing.\<close>

theorem process_publishes:
  "snd (snd (process (Some collector) v now acct msg (s, t))) =
     (let r = fst (evaluate v now (Some acct) msg s) in
      if Triggered r
      then t @ [\<lparr>ev_Type = EventInboundCommand, ev_Account = acct_Name acct,
                 ev_Payload = PayloadVerified (the (Verified r))\<rparr>]
      else if has_envelope (msg_Body msg)
      then t @ [\<lparr>ev_Type = EventInboundRejected, ev_Account = acct_Name acct, ev_Payload = PayloadResult r\<rparr>]
      else t)"
proof -
  have "\<exists>vc. Verified (fst (evaluate v now (Some acct) msg s)) = Some vc"
    if "Triggered (fst (evaluate v now (Some acct) msg s))"
    using that
    by (auto simp: evaluate_triggered_cases evaluate_active decide_def evaluate_gates_ok)
  then show ?thesis
    by (auto simp: process_def publish_opt_def Let_def split_beta)
qed

lemma process_handled:
  "fst (process b v now acct msg (s, t)) = fst (evaluate v now (Some acct) msg s)"
  by (simp add: process_def Let_def split_beta)

section \<open>What the watcher touches\<close>

definition carries_command :: "'m imap_ops \<Rightarrow> string \<Rightarrow> string \<Rightarrow> 'm \<Rightarrow> nat \<Rightarrow> bool" where
  "carries_command im name folder m uid =
     (case im_fetch im name folder uid m of
        None \<Rightarrow> False | Some f \<Rightarrow> has_envelope (msg_Body (fetched_message f)))"

lemma poll_uid_ordinary:
  "\<not> carries_command im (acct_Name acct) folder (w_mail w) uid \<Longrightarrow>
   poll_uid im b v clock acct folder uid w = w"
  by (auto simp: poll_uid_def carries_command_def Let_def split: option.splits)

lemma poll_uid_marked:
  "w_marked (poll_uid im b v clock acct folder uid w) = w_marked w @
     (if carries_command im (acct_Name acct) folder (w_mail w) uid then [(acct_Name acct, uid)] else [])"
  "w_mail (poll_uid im b v clock acct folder uid w) =
     (if carries_command im (acct_Name acct) folder (w_mail w) uid
      then im_store_seen im (acct_Name acct) folder uid (w_mail w) else w_mail w)"
  by (auto simp: poll_uid_def carries_command_def Let_def split_beta split: option.splits)

lemma poll_uids_marked:
  assumes "\<And>n f u n' f' u' m. im_fetch im n f u (im_store_seen im n' f' u' m) = im_fetch im n f u m"
  shows "w_marked (fold (poll_uid im b v clock acct folder) uids w) = w_marked w @
     map (Pair (acct_Name acct)) (filter (carries_command im (acct_Name acct) folder (w_mail w)) uids)"
proof (induction uids arbitrary: w)
  case Nil
  then show ?case by simp
next
  case (Cons u us)
  have "carries_command im (acct_Name acct) folder (w_mail (poll_uid im b v clock acct folder u w)) =
      carries_command im (acct_Name acct) folder (w_mail w)"
    by (auto simp: poll_uid_marked carries_command_def assms)
  with Cons show ?case by (simp add: poll_uid_marked)
qed

text \<open>The watcher marks as seen exactly the unseen messages that carry a command
  envelope, each once and in the order of the search; ordinary mail is never marked. The
  hypothesis is the documented behaviour of STORE: flags change, message content does not.\<close>

theorem poll_marks_only_commands:
  assumes "\<And>n f u n' f' u' m. im_fetch im n f u (im_store_seen im n' f' u' m) = im_fetch im n f u m"
    and "im_search_unseen im (acct_Name acct) (watch_folder ic) (w_mail w) = Inr uids"
    and "fst (poll_account im b v clock acct ic w) = None"
  shows "w_marked (snd (poll_account im b v clock acct ic w)) = w_marked w @
     map (Pair (acct_Name acct))
       (filter (carries_command im (acct_Name acct) (watch_folder ic) (w_mail w)) uids)"
  using assms(2,3) poll_uids_marked [OF assms(1)]
  by (auto simp: poll_account_def Let_def split: option.splits)

definition sample_mail :: "nat \<Rightarrow> fetched" where
  "sample_mail u = \<lparr>f_From = [''ops@example.com''],
     f_Sections = [(Some PartText, if u = 7 then env_begin @ ''verb: x'' else ''hello'')]\<rparr>"

definition sample_imap :: "nat list imap_ops" where
  "sample_imap = \<lparr>im_resolve = (\<lambda>_ _. None), im_select = (\<lambda>_ _ _. None),
     im_search_unseen = (\<lambda>_ _ m. Inr (filter (\<lambda>u. u \<notin> set m) [3, 7])),
     im_fetch = (\<lambda>_ _ u _. Some (sample_mail u)), im_store_seen = (\<lambda>_ _ u m. u # m)\<rparr>"

definition sample_inbound :: inbound_config where
  "sample_inbound = \<lparr>in_Enabled = True, in_WatchFolder = [],
     in_Gates = \<lparr>Allowlist = [''example.com''], RequireDKIM = False, RequireDMARC = False,
       HMACSecret = [], ReplayWindowMinutes = 0, RequirePGP = False\<rparr>, in_Capabilities = []\<rparr>"

definition sample_watch :: "(unit, unit, nat list) watch_state" where
  "sample_watch = \<lparr>w_nonce = (), w_bus = (), w_mail = [], w_marked = [], w_handled = []\<rparr>"

definition sample_acct :: account_config where
  "sample_acct = \<lparr>acct_Name = ''a'', acct_Inbound = Some sample_inbound\<rparr>"

lemma sample_carries:
  "carries_command sample_imap ''a'' f m 3 = False" "carries_command sample_imap ''a'' f m 7 = True"
proof -
  have "has_envelope ''hello'' = False" "has_envelope (env_begin @ ''verb: x'') = True"
    by code_simp+
  then show "carries_command sample_imap ''a'' f m 3 = False" "carries_command sample_imap ''a'' f m 7 = True"
    by (simp_all add: carries_command_def sample_imap_def sample_mail_def fetched_message_def build_message_def)
qed

theorem poll_marks_only_commands_witness:
  "w_marked (snd (poll_account sample_imap None \<lparr>v_nonces = None, v_mac = (\<lambda>_ _. [])\<rparr> (\<lambda>_ _. 0)
     sample_acct sample_inbound sample_watch)) = [(''a'', 7)]"
proof -
  have name: "acct_Name sample_acct = ''a''" by (simp add: sample_acct_def)
  have "w_marked (snd (poll_account sample_imap None \<lparr>v_nonces = None, v_mac = (\<lambda>_ _. [])\<rparr> (\<lambda>_ _. 0)
     sample_acct sample_inbound sample_watch)) = w_marked sample_watch @
     map (Pair (acct_Name sample_acct)) (filter (carries_command sample_imap (acct_Name sample_acct)
       (watch_folder sample_inbound) (w_mail sample_watch)) [3, 7])"
    by (rule poll_marks_only_commands)
      (simp_all add: sample_imap_def sample_watch_def poll_account_def Let_def)
  then show ?thesis by (simp add: name sample_carries sample_watch_def)
qed

text \<open>Every STORE belongs to one evaluation: the two traces agree along a whole run.\<close>

definition marks_match :: "('s, 't, 'm) watch_state \<Rightarrow> bool" where
  "marks_match w = (w_marked w = map (\<lambda>(a, u, r). (a, u)) (w_handled w))"

lemma poll_uid_marks_match:
  "marks_match w \<Longrightarrow> marks_match (poll_uid im b v clock acct folder uid w)"
  by (auto simp: poll_uid_def marks_match_def Let_def split_beta split: option.splits)

lemma poll_account_marks_match:
  "marks_match w \<Longrightarrow> marks_match (snd (poll_account im b v clock acct ic w))"
  unfolding poll_account_def Let_def
  by (simp add: fold_preserves [where P = marks_match, OF poll_uid_marks_match]
      split: option.split sum.split)

lemma watcher_run_marks_match: "marks_match w \<Longrightarrow> marks_match (watcher_run im b v accts ticks w)"
proof -
  have "marks_match (poll_all im b v clock accts w)" if "marks_match w" for clock w
    unfolding poll_all_def
    by (rule fold_preserves [where P = marks_match, OF _ that])
      (simp add: poll_account_marks_match split: option.split)
  then show "marks_match w \<Longrightarrow> marks_match (watcher_run im b v accts ticks w)"
    unfolding watcher_run_def by (simp add: fold_preserves [where P = marks_match])
qed

end
