(* ===== verification/Cache.thy ===== *)
theory Cache
  imports Go_Time "HOL-Library.Word" "HOL-Library.List_Lexorder" "HOL-Library.Char_ord" "HOL-Library.Product_Lexorder"
begin

text \<open>
  The mail cache (\<open>internal/db/cache.go\<close> over the tables of \<open>cacheSchema\<close>): messages,
  vectors, sync state and the enrichment queue. A table is a list of rows in insertion
  order; SQL NULL in a text column is the empty string (no query here tells them apart);
  JSON columns hold the decoded list. Deleting a message deletes its vector and queue entry
  (\<open>ON DELETE CASCADE\<close>, foreign keys are on). SQL statements succeed: an I/O error of
  SQLite is not modelled. The full-text index follows the messages by triggers and is not
  a separate table here. Local time is a fixed offset from UTC, so \<open>AddDate\<close> by days is
  subtraction of whole days.
\<close>

section \<open>Tables\<close>

datatype enrich_status = StPending | StDuplicate | StDone | StError

record attachment =
  att_Name :: string
  att_MIME :: string
  att_Size :: int

record msg_row =
  m_id :: nat
  m_account :: string
  m_folder :: string
  m_uid :: nat
  m_message_id :: string
  m_thread_id :: string
  m_subject :: string
  m_from_addr :: string
  m_from_name :: string
  m_to :: "string list"
  m_cc :: "string list"
  m_reply_to :: string
  m_date :: int
  m_internal_date :: int
  m_flags :: "string list"
  m_size :: int
  m_body_text :: string
  m_body_html :: string
  m_body_skipped :: bool
  m_has_attachments :: bool
  m_attachments :: "attachment list"
  m_status :: enrich_status
  m_error :: string
  m_hall :: string
  m_wing :: string
  m_room :: string

datatype queue_status = QPending | QProcessing | QDone | QError

record queue_row =
  q_id :: nat
  q_message_id :: nat
  q_status :: queue_status
  q_lane :: nat
  q_attempts :: nat
  q_last_error :: string
  q_queued_at :: int
  q_processed_at :: "int option"

record vec_row =
  v_message_id :: nat
  v_vector :: "8 word list"
  v_model :: string
  v_dims :: nat

record folder_sync_state =
  UIDValidity :: nat
  HighestModSeq :: nat

record cache_db =
  messages :: "msg_row list"
  queue :: "queue_row list"
  vectors :: "vec_row list"
  sync_rows :: "((string \<times> string) \<times> (int \<times> int)) list"   \<comment> \<open>uid_validity, highest_modseq\<close>
  next_msg :: nat
  next_queue :: nat
  db_now :: int                                     \<comment> \<open>\<open>unixepoch()\<close>\<close>

definition empty_cache :: cache_db where
  "empty_cache = \<lparr>messages = [], queue = [], vectors = [], sync_rows = [], next_msg = 1,
     next_queue = 1, db_now = 0\<rparr>"

section \<open>Sync state\<close>

definition zero_sync_state :: folder_sync_state where
  "zero_sync_state = \<lparr>UIDValidity = 0, HighestModSeq = 0\<rparr>"

text \<open>The columns are signed 64-bit integers; \<open>Get\<close> converts back to \<open>uint32\<close> and \<open>uint64\<close>.\<close>

definition sync_get :: "string \<Rightarrow> string \<Rightarrow> cache_db \<Rightarrow> folder_sync_state" where
  "sync_get account folder d =
     (case map_of (sync_rows d) (account, folder) of
        None \<Rightarrow> zero_sync_state
      | Some (validity, modseq) \<Rightarrow>
          \<lparr>UIDValidity = nat (validity mod 2 ^ 32), HighestModSeq = nat (modseq mod 2 ^ 64)\<rparr>)"

definition sync_put :: "string \<Rightarrow> string \<Rightarrow> folder_sync_state \<Rightarrow> cache_db \<Rightarrow> cache_db" where
  "sync_put account folder st d =
     d\<lparr>sync_rows := alist_put (account, folder)
         (int (UIDValidity st), dur64 (int (HighestModSeq st))) (sync_rows d)\<rparr>"

section \<open>Messages\<close>

record cached_message =
  c_Account :: string
  c_Folder :: string
  c_UID :: nat
  c_MessageID :: string
  c_ThreadID :: string
  c_Subject :: string
  c_FromAddr :: string
  c_FromName :: string
  c_To :: "string list"
  c_Cc :: "string list"
  c_ReplyTo :: string
  c_Date :: gotime
  c_InternalDate :: gotime
  c_Flags :: "string list"
  c_Size :: int
  c_BodyText :: string
  c_BodyHTML :: string
  c_BodySkipped :: bool
  c_Attachments :: "attachment list"
  c_Backfill :: bool

definition in_folder :: "string \<Rightarrow> string \<Rightarrow> msg_row \<Rightarrow> bool" where
  "in_folder account folder m = (m_account m = account \<and> m_folder m = folder)"

definition row_key :: "msg_row \<Rightarrow> string \<times> string \<times> nat" where
  "row_key m = (m_account m, m_folder m, m_uid m)"

definition cached_uids :: "string \<Rightarrow> string \<Rightarrow> cache_db \<Rightarrow> (nat \<times> string list) list" where
  "cached_uids account folder d =
     map (\<lambda>m. (m_uid m, m_flags m)) (filter (in_folder account folder) (messages d))"

text \<open>DELETE FROM messages WHERE \<open>P\<close>, with its cascades; the count is \<open>RowsAffected\<close>.\<close>

definition delete_where :: "(msg_row \<Rightarrow> bool) \<Rightarrow> cache_db \<Rightarrow> nat \<times> cache_db" where
  "delete_where P d =
     (let gone = map m_id (filter P (messages d)) in
      (length gone,
       d\<lparr>messages := filter (\<lambda>m. \<not> P m) (messages d),
         queue := filter (\<lambda>q. q_message_id q \<notin> set gone) (queue d),
         vectors := filter (\<lambda>v. v_message_id v \<notin> set gone) (vectors d)\<rparr>))"

definition unix_or :: "gotime \<Rightarrow> gotime \<Rightarrow> int" where
  "unix_or t fallback =
     (let t' = (if t = zero_time then fallback else t) in
      if t' = zero_time then 0 else time_unix t')"

record insert_result =
  ir_ID :: nat
  ir_Queued :: bool

text \<open>Another cached copy of the Message-ID has a queue entry (the count of the JOIN).\<close>

definition queued_copy :: "cached_message \<Rightarrow> cache_db \<Rightarrow> bool" where
  "queued_copy c d =
     (\<exists>m\<in>set (messages d). m_message_id m = c_MessageID c \<and>
        (\<exists>q\<in>set (queue d). q_message_id q = m_id m) \<and>
        row_key m \<noteq> (c_Account c, c_Folder c, c_UID c))"

definition row_of :: "nat \<Rightarrow> enrich_status \<Rightarrow> cached_message \<Rightarrow> msg_row" where
  "row_of i st c = \<lparr>m_id = i, m_account = c_Account c, m_folder = c_Folder c, m_uid = c_UID c,
     m_message_id = c_MessageID c, m_thread_id = c_ThreadID c, m_subject = c_Subject c,
     m_from_addr = c_FromAddr c, m_from_name = c_FromName c, m_to = c_To c, m_cc = c_Cc c,
     m_reply_to = c_ReplyTo c, m_date = unix_or (c_Date c) (c_InternalDate c),
     m_internal_date = unix_or (c_InternalDate c) (c_Date c), m_flags = c_Flags c,
     m_size = c_Size c, m_body_text = c_BodyText c, m_body_html = c_BodyHTML c,
     m_body_skipped = c_BodySkipped c, m_has_attachments = (c_Attachments c \<noteq> []),
     m_attachments = c_Attachments c, m_status = st, m_error = [], m_hall = ''unclassified'',
     m_wing = [], m_room = []\<rparr>"

definition new_queue_row :: "nat \<Rightarrow> nat \<Rightarrow> bool \<Rightarrow> int \<Rightarrow> queue_row" where
  "new_queue_row qid mid backfill now = \<lparr>q_id = qid, q_message_id = mid, q_status = QPending,
     q_lane = (if backfill then 1 else 0), q_attempts = 0, q_last_error = [], q_queued_at = now,
     q_processed_at = None\<rparr>"

definition insert_msg :: "cached_message \<Rightarrow> cache_db \<Rightarrow> insert_result \<times> cache_db" where
  "insert_msg c d =
     (let dup = (c_MessageID c \<noteq> [] \<and> queued_copy c d);
          d1 = snd (delete_where (\<lambda>m. row_key m = (c_Account c, c_Folder c, c_UID c)) d);
          i = next_msg d1;
          d2 = d1\<lparr>messages := messages d1 @ [row_of i (if dup then StDuplicate else StPending) c],
                  next_msg := Suc i\<rparr>
      in if dup then (\<lparr>ir_ID = i, ir_Queued = False\<rparr>, d2)
         else (\<lparr>ir_ID = i, ir_Queued = True\<rparr>,
               d2\<lparr>queue := queue d2 @ [new_queue_row (next_queue d2) i (c_Backfill c) (db_now d2)],
                  next_queue := Suc (next_queue d2)\<rparr>))"

definition update_flags :: "string \<Rightarrow> string \<Rightarrow> nat \<Rightarrow> string list \<Rightarrow> cache_db \<Rightarrow> bool \<times> cache_db" where
  "update_flags account folder uid flags d =
     (let hit = (\<lambda>m. row_key m = (account, folder, uid)) in
      (list_ex hit (messages d),
       d\<lparr>messages := map (\<lambda>m. if hit m then m\<lparr>m_flags := flags\<rparr> else m) (messages d)\<rparr>))"

text \<open>\<open>DeleteUIDs\<close> sends the UIDs in batches of 500.\<close>

function delete_uids :: "string \<Rightarrow> string \<Rightarrow> nat list \<Rightarrow> cache_db \<Rightarrow> nat \<times> cache_db" where
  "delete_uids account folder uids d =
     (if uids = [] then (0, d)
      else (let (n, d1) = delete_where (\<lambda>m. in_folder account folder m \<and> m_uid m \<in> set (take 500 uids)) d;
                (total, d2) = delete_uids account folder (drop 500 uids) d1
            in (n + total, d2)))"
  by pat_completeness auto
termination
  by (relation "measure (\<lambda>(a, f, uids, d). length uids)") auto

declare delete_uids.simps [simp del]

definition delete_folder :: "string \<Rightarrow> string \<Rightarrow> cache_db \<Rightarrow> nat \<times> cache_db" where
  "delete_folder account folder d = delete_where (in_folder account folder) d"

section \<open>Counting, sweeping and cleaning\<close>

type_synonym folder_count = "(string \<times> string) \<times> nat"

definition row_folder :: "msg_row \<Rightarrow> string \<times> string" where
  "row_folder m = (m_account m, m_folder m)"

text \<open>SELECT account, folder, count(*) ... GROUP BY account, folder ORDER BY account, folder.\<close>

definition group_counts :: "(msg_row \<Rightarrow> bool) \<Rightarrow> cache_db \<Rightarrow> folder_count list" where
  "group_counts P d =
     (let sel = filter P (messages d) in
      map (\<lambda>k. (k, length (filter (\<lambda>m. row_folder m = k) sel))) (sort (remdups (map row_folder sel))))"

definition cache_counts :: "cache_db \<Rightarrow> folder_count list" where
  "cache_counts d = group_counts (\<lambda>_. True) d"

record sweep_filter =
  sf_Account :: string
  sf_Folder :: string
  sf_OlderThanDays :: int
  sf_ErrorsOnly :: bool
  sf_All :: bool

definition sweep_where :: "sweep_filter \<Rightarrow> gotime \<Rightarrow> msg_row \<Rightarrow> bool" where
  "sweep_where f now m =
     ((sf_Account f = [] \<or> m_account m = sf_Account f) \<and>
      (sf_Folder f = [] \<or> m_folder m = sf_Folder f) \<and>
      (sf_OlderThanDays f \<le> 0 \<or>
         m_internal_date m < time_unix (now - sf_OlderThanDays f * 24 * ns_per_hour)) \<and>
      (\<not> sf_ErrorsOnly f \<or> m_status m = StError))"

definition sweep_empty :: "sweep_filter \<Rightarrow> bool" where
  "sweep_empty f = (sf_Account f = [] \<and> sf_Folder f = [] \<and> sf_OlderThanDays f = 0 \<and> \<not> sf_ErrorsOnly f)"

definition cache_sweep :: "sweep_filter \<Rightarrow> bool \<Rightarrow> gotime \<Rightarrow> cache_db \<Rightarrow> folder_count list \<times> cache_db" where
  "cache_sweep f dry_run now d =
     (let out = group_counts (sweep_where f now) d in
      if dry_run \<or> out = [] then (out, d)
      else (let d1 = snd (delete_where (sweep_where f now) d) in
            (out, d1\<lparr>sync_rows := filter (\<lambda>(k, _). k \<notin> set (map fst out)) (sync_rows d1)\<rparr>)))"

text \<open>\<open>CleanOrphans\<close>: how many vectors and queue entries it removed (the index rebuild is
  not modelled).\<close>

definition clean_orphans :: "cache_db \<Rightarrow> (nat \<times> nat) \<times> cache_db" where
  "clean_orphans d =
     (let ids = map m_id (messages d);
          vs = filter (\<lambda>v. v_message_id v \<in> set ids) (vectors d);
          qs = filter (\<lambda>q. q_message_id q \<in> set ids) (queue d)
      in ((length (vectors d) - length vs, length (queue d) - length qs), d\<lparr>vectors := vs, queue := qs\<rparr>))"

definition prune_where :: "(string \<Rightarrow> string \<Rightarrow> bool) \<Rightarrow> cache_db \<Rightarrow> folder_count list \<times> cache_db" where
  "prune_where dropped d =
     (let keys = remdups (map row_folder (messages d) @ map fst (sync_rows d));
          stale = map (\<lambda>k. (k, length (filter (\<lambda>m. row_folder m = k) (messages d))))
                    (filter (\<lambda>(a, f). dropped a f) keys)
      in (stale,
          fold (\<lambda>(k, _) d. (snd (delete_where (in_folder (fst k) (snd k)) d))
                  \<lparr>sync_rows := filter (\<lambda>(k', _). k' \<noteq> k) (sync_rows d)\<rparr>) stale d))"

definition prune_folders :: "string \<Rightarrow> string list \<Rightarrow> cache_db \<Rightarrow> folder_count list \<times> cache_db" where
  "prune_folders account keep d = prune_where (\<lambda>a f. a = account \<and> f \<notin> set keep) d"

definition prune_accounts :: "string list \<Rightarrow> cache_db \<Rightarrow> folder_count list \<times> cache_db" where
  "prune_accounts keep d = prune_where (\<lambda>a _. a \<notin> set keep) d"

end
