(* ===== verification/Cache_Inv.thy ===== *)
theory Cache_Inv
  imports Cache
begin

text \<open>
  The invariant of the cache database: the primary keys and UNIQUE constraints of the
  schema, referential integrity of vectors and queue, and the de-duplication rule of the
  enrichment queue (at most one queued copy per Message-ID). Every operation of theory
  \<open>Cache\<close> keeps it.
\<close>

definition msgs_wf :: "cache_db \<Rightarrow> bool" where
  "msgs_wf d \<longleftrightarrow> distinct (map m_id (messages d)) \<and> (\<forall>m\<in>set (messages d). m_id m < next_msg d) \<and>
     distinct (map row_key (messages d))"

definition refs_wf :: "cache_db \<Rightarrow> bool" where
  "refs_wf d \<longleftrightarrow> distinct (map q_message_id (queue d)) \<and>
     q_message_id ` set (queue d) \<subseteq> m_id ` set (messages d) \<and>
     distinct (map q_id (queue d)) \<and> (\<forall>q\<in>set (queue d). q_id q < next_queue d) \<and>
     distinct (map v_message_id (vectors d)) \<and>
     v_message_id ` set (vectors d) \<subseteq> m_id ` set (messages d) \<and>
     distinct (map fst (sync_rows d))"

definition is_queued :: "cache_db \<Rightarrow> msg_row \<Rightarrow> bool" where
  "is_queued d m \<longleftrightarrow> m_id m \<in> q_message_id ` set (queue d)"

definition dedup_ok :: "cache_db \<Rightarrow> bool" where
  "dedup_ok d \<longleftrightarrow> (\<forall>m\<in>set (messages d). \<forall>m'\<in>set (messages d).
     is_queued d m \<longrightarrow> is_queued d m' \<longrightarrow> m_message_id m \<noteq> [] \<longrightarrow> m_message_id m = m_message_id m' \<longrightarrow>
     row_key m = row_key m')"

lemma dedup_okD:
  "dedup_ok d \<Longrightarrow> m \<in> set (messages d) \<Longrightarrow> m' \<in> set (messages d) \<Longrightarrow> is_queued d m \<Longrightarrow>
   is_queued d m' \<Longrightarrow> m_message_id m \<noteq> [] \<Longrightarrow> m_message_id m = m_message_id m' \<Longrightarrow> row_key m = row_key m'"
  unfolding dedup_ok_def by blast

definition cache_wf :: "cache_db \<Rightarrow> bool" where
  "cache_wf d \<longleftrightarrow> msgs_wf d \<and> refs_wf d \<and> dedup_ok d"

lemma cache_wf_empty: "cache_wf empty_cache"
  by (simp add: cache_wf_def msgs_wf_def refs_wf_def dedup_ok_def empty_cache_def)

section \<open>Deleting\<close>

lemma delete_where_sel [simp]:
  "messages (snd (delete_where P d)) = filter (\<lambda>m. \<not> P m) (messages d)"
  "sync_rows (snd (delete_where P d)) = sync_rows d"
  "next_msg (snd (delete_where P d)) = next_msg d"
  "next_queue (snd (delete_where P d)) = next_queue d"
  "db_now (snd (delete_where P d)) = db_now d"
  "fst (delete_where P d) = length (filter P (messages d))"
  by (simp_all add: delete_where_def Let_def)

lemma delete_where_queue:
  "queue (snd (delete_where P d)) = filter (\<lambda>q. q_message_id q \<notin> m_id ` {m \<in> set (messages d). P m}) (queue d)"
  "vectors (snd (delete_where P d)) = filter (\<lambda>v. v_message_id v \<notin> m_id ` {m \<in> set (messages d). P m}) (vectors d)"
  by (auto simp: delete_where_def Let_def intro!: filter_cong)

lemma is_queued_delete:
  "is_queued (snd (delete_where P d)) m \<Longrightarrow> is_queued d m"
  by (auto simp: is_queued_def delete_where_queue)

lemma msgs_wf_delete: "msgs_wf d \<Longrightarrow> msgs_wf (snd (delete_where P d))"
  by (auto simp: msgs_wf_def distinct_map_filter)

lemma refs_wf_delete: "refs_wf d \<Longrightarrow> refs_wf (snd (delete_where P d))"
  unfolding refs_wf_def delete_where_queue
  by (intro conjI) (auto simp: distinct_map_filter, (blast dest: subsetD)+)

lemma dedup_delete: "dedup_ok d \<Longrightarrow> dedup_ok (snd (delete_where P d))"
  by (auto simp: dedup_ok_def dest: is_queued_delete)

lemma cache_wf_delete [intro]: "cache_wf d \<Longrightarrow> cache_wf (snd (delete_where P d))"
  by (simp add: cache_wf_def msgs_wf_delete refs_wf_delete dedup_delete)

lemma delete_where_twice:
  "snd (delete_where Q (snd (delete_where P d))) = snd (delete_where (\<lambda>m. P m \<or> Q m) d)"
proof -
  have ids: "x \<in> m_id ` {m \<in> set ms. P m \<or> Q m} \<longleftrightarrow>
      x \<in> m_id ` {m \<in> set ms. P m} \<or> x \<in> m_id ` {m \<in> set (filter (\<lambda>m. \<not> P m) ms). Q m}" for x ms
    by auto
  have swap: "filter (\<lambda>m. \<not> Q m) (filter (\<lambda>m. \<not> P m) ms) = filter (\<lambda>m. \<not> (P m \<or> Q m)) ms" for ms
    by (induction ms) auto
  show ?thesis
    by (rule cache_db.equality)
      (simp_all only: delete_where_queue ids delete_where_sel filter_filter de_Morgan_disj swap,
       simp_all add: delete_where_def Let_def conj_commute)
qed

lemma delete_where_cong:
  assumes "\<And>m. m \<in> set (messages d) \<Longrightarrow> P m = Q m"
  shows "delete_where P d = delete_where Q d"
proof -
  have "filter P (messages d) = filter Q (messages d)"
    and "filter (\<lambda>m. \<not> P m) (messages d) = filter (\<lambda>m. \<not> Q m) (messages d)"
    using assms by (auto intro!: filter_cong)
  then show ?thesis by (simp only: delete_where_def Let_def)
qed

lemma delete_uids_Nil [simp]: "delete_uids a f [] d = (0, d)"
  by (simp add: delete_uids.simps)

lemma delete_uids_step:
  "uids \<noteq> [] \<Longrightarrow> delete_uids a f uids d =
     (let P = (\<lambda>m. in_folder a f m \<and> m_uid m \<in> set (take 500 uids));
          rest = delete_uids a f (drop 500 uids) (snd (delete_where P d))
      in (fst (delete_where P d) + fst rest, snd rest))"
  by (subst delete_uids.simps) (simp add: Let_def split_beta)

text \<open>The batches of 500 add up to one DELETE.\<close>

lemma delete_uids_eq:
  "delete_uids a f uids d = delete_where (\<lambda>m. in_folder a f m \<and> m_uid m \<in> set uids) d"
proof (induction "length uids" arbitrary: uids d rule: less_induct)
  case less
  show ?case
  proof (cases "uids = []")
    case True
    then show ?thesis by (simp add: delete_where_def)
  next
    case False
    let ?P = "\<lambda>m. in_folder a f m \<and> m_uid m \<in> set (take 500 uids)"
    let ?Q = "\<lambda>m. in_folder a f m \<and> m_uid m \<in> set (drop 500 uids)"
    have split: "set uids = set (take 500 uids) \<union> set (drop 500 uids)"
      by (metis append_take_drop_id set_append)
    have rest: "delete_uids a f (drop 500 uids) (snd (delete_where ?P d)) =
        delete_where ?Q (snd (delete_where ?P d))"
      using False by (intro less.hyps) auto
    have "length (filter ?P ms) + length (filter ?Q (filter (\<lambda>m. \<not> ?P m) ms)) =
        length (filter (\<lambda>m. ?P m \<or> ?Q m) ms)" for ms :: "msg_row list"
      by (induction ms) auto
    then have "delete_uids a f uids d = delete_where (\<lambda>m. ?P m \<or> ?Q m) d"
      unfolding delete_uids_step [OF False] Let_def rest delete_where_twice
      by (intro prod_eqI) (simp_all only: fst_conv snd_conv delete_where_sel)
    also have "\<dots> = delete_where (\<lambda>m. in_folder a f m \<and> m_uid m \<in> set uids) d"
      by (rule delete_where_cong) (auto simp: split)
    finally show ?thesis .
  qed
qed

section \<open>Inserting\<close>

definition msg_key :: "cached_message \<Rightarrow> string \<times> string \<times> nat" where
  "msg_key c = (c_Account c, c_Folder c, c_UID c)"

lemma row_of_sel [simp]:
  "m_id (row_of i st c) = i" "row_key (row_of i st c) = msg_key c" "m_uid (row_of i st c) = c_UID c"
  "m_message_id (row_of i st c) = c_MessageID c" "m_flags (row_of i st c) = c_Flags c"
  "m_account (row_of i st c) = c_Account c" "m_folder (row_of i st c) = c_Folder c"
  "m_status (row_of i st c) = st"
  by (simp_all add: row_of_def row_key_def msg_key_def)

lemma new_queue_row_sel [simp]:
  "q_id (new_queue_row i m b n) = i" "q_message_id (new_queue_row i m b n) = m"
  by (simp_all add: new_queue_row_def)

definition is_dup :: "cached_message \<Rightarrow> cache_db \<Rightarrow> bool" where
  "is_dup c d \<longleftrightarrow> c_MessageID c \<noteq> [] \<and> queued_copy c d"

lemma insert_msg_messages:
  "messages (snd (insert_msg c d)) = filter (\<lambda>m. row_key m \<noteq> msg_key c) (messages d) @
     [row_of (next_msg d) (if is_dup c d then StDuplicate else StPending) c]"
  by (simp add: insert_msg_def Let_def is_dup_def msg_key_def)

lemma insert_msg_sel [simp]:
  "next_msg (snd (insert_msg c d)) = Suc (next_msg d)"
  "sync_rows (snd (insert_msg c d)) = sync_rows d"
  "fst (insert_msg c d) = \<lparr>ir_ID = next_msg d, ir_Queued = (\<not> is_dup c d)\<rparr>"
  by (simp_all add: insert_msg_def Let_def is_dup_def)

abbreviation after_delete :: "cached_message \<Rightarrow> cache_db \<Rightarrow> cache_db" where
  "after_delete c d \<equiv> snd (delete_where (\<lambda>m. row_key m = msg_key c) d)"

lemma insert_msg_queue:
  "queue (snd (insert_msg c d)) = queue (after_delete c d) @
     (if is_dup c d then [] else [new_queue_row (next_queue d) (next_msg d) (c_Backfill c) (db_now d)])"
  "vectors (snd (insert_msg c d)) = vectors (after_delete c d)"
  "next_queue (snd (insert_msg c d)) = (if is_dup c d then next_queue d else Suc (next_queue d))"
  by (simp_all add: insert_msg_def Let_def is_dup_def msg_key_def)

lemma msgs_wf_insert:
  assumes "msgs_wf d"
  shows "msgs_wf (snd (insert_msg c d))"
proof -
  from assms have "\<forall>m\<in>set (messages d). m_id m < next_msg d" by (simp add: msgs_wf_def)
  then have fresh: "next_msg d \<notin> m_id ` {x \<in> set (messages d). row_key x \<noteq> msg_key c}"
    by (metis (no_types, lifting) CollectD imageE less_irrefl)
  moreover have "msg_key c \<notin> row_key ` {x \<in> set (messages d). row_key x \<noteq> msg_key c}" by auto
  ultimately show ?thesis
    using assms by (auto simp: msgs_wf_def insert_msg_messages distinct_map_filter less_SucI)
qed

lemma insert_ids:
  "m_id ` set (messages (snd (insert_msg c d))) = insert (next_msg d) (m_id ` set (messages (after_delete c d)))"
  by (auto simp: insert_msg_messages)

lemma refs_wf_insert:
  assumes "msgs_wf d" and "refs_wf d"
  shows "refs_wf (snd (insert_msg c d))"
proof -
  let ?d = "after_delete c d"
  have r: "refs_wf ?d" using assms(2) by (rule refs_wf_delete)
  have "msgs_wf ?d" using assms(1) by (rule msgs_wf_delete)
  then have "next_msg d \<notin> m_id ` set (messages ?d)"
    by (auto simp: msgs_wf_def)
  moreover have "q_message_id ` set (queue ?d) \<subseteq> m_id ` set (messages ?d)"
    and "v_message_id ` set (vectors ?d) \<subseteq> m_id ` set (messages ?d)"
    using r by (simp_all add: refs_wf_def del: delete_where_sel)
  ultimately have fresh: "next_msg d \<notin> q_message_id ` set (queue ?d)" by blast
  have qid: "next_queue d \<notin> q_id ` set (queue ?d)" "\<forall>q\<in>set (queue ?d). q_id q < next_queue d"
    using r by (auto simp: refs_wf_def)
  show ?thesis
    unfolding refs_wf_def insert_msg_queue insert_ids
    using r fresh qid by (auto simp: refs_wf_def less_SucI simp del: delete_where_sel(1))
qed

lemma queued_after_insert:
  "is_queued (snd (insert_msg c d)) m \<Longrightarrow> m_id m \<noteq> next_msg d \<Longrightarrow> is_queued (after_delete c d) m"
  by (auto simp: is_queued_def insert_msg_queue split: if_splits)

lemma old_row_after_insert:
  assumes "msgs_wf d" and "m \<in> set (messages (after_delete c d))"
  shows "m \<in> set (messages d)" "m_id m \<noteq> next_msg d" "row_key m \<noteq> msg_key c"
  using assms by (auto simp: msgs_wf_def)

lemma dedup_insert:
  assumes wf: "msgs_wf d" "refs_wf d" and dd: "dedup_ok d"
  shows "dedup_ok (snd (insert_msg c d))"
proof -
  let ?d' = "snd (insert_msg c d)" and ?r = "row_of (next_msg d) (if is_dup c d then StDuplicate else StPending) c"
  have dd': "dedup_ok (after_delete c d)" using dd by (rule dedup_delete)
  have clash: "row_key m = row_key ?r"
    if m: "m \<in> set (messages (after_delete c d))" and "is_queued ?d' m" "is_queued ?d' ?r"
      and mid: "m_message_id m \<noteq> []" "m_message_id m = c_MessageID c" for m
  proof -
    have "m_id m \<noteq> next_msg d" using old_row_after_insert [OF wf(1) m] by blast
    then have q: "is_queued d m"
      using that(2) queued_after_insert is_queued_delete by blast
    obtain x where x: "x \<in> set (queue d)" "q_message_id x = m_id m"
      using q unfolding is_queued_def by (metis imageE)
    have "m \<in> set (messages d)" "row_key m \<noteq> (c_Account c, c_Folder c, c_UID c)"
      using old_row_after_insert [OF wf(1) m] by (simp_all add: msg_key_def)
    then have "queued_copy c d"
      unfolding queued_copy_def using x mid(2) by blast
    then have "is_dup c d" using mid by (simp add: is_dup_def)
    then have "next_msg d \<in> q_message_id ` set (queue (after_delete c d))"
      using that(3) by (simp add: is_queued_def insert_msg_queue)
    moreover have "refs_wf (after_delete c d)" using wf(2) by (rule refs_wf_delete)
    ultimately have "next_msg d \<in> m_id ` set (messages (after_delete c d))"
      by (auto simp: refs_wf_def simp del: delete_where_sel)
    then obtain m' where "m' \<in> set (messages (after_delete c d))" "m_id m' = next_msg d" by auto
    then show ?thesis using old_row_after_insert(2) [OF wf(1)] by blast
  qed
  show ?thesis
    unfolding dedup_ok_def
  proof (intro ballI impI)
    fix m m'
    assume m: "m \<in> set (messages ?d')" and m': "m' \<in> set (messages ?d')"
      and q: "is_queued ?d' m" "is_queued ?d' m'"
      and ids: "m_message_id m \<noteq> []" "m_message_id m = m_message_id m'"
    consider "m = ?r" "m' = ?r" | "m = ?r" "m' \<in> set (messages (after_delete c d))"
      | "m \<in> set (messages (after_delete c d))" "m' = ?r"
      | "m \<in> set (messages (after_delete c d))" "m' \<in> set (messages (after_delete c d))"
      using m m' by (auto simp: insert_msg_messages)
    then show "row_key m = row_key m'"
    proof cases
      case 1
      then show ?thesis by simp
    next
      case 2
      have "row_key m' = row_key ?r"
        using clash [OF 2(2)] q [unfolded 2(1)] ids [unfolded 2(1) row_of_sel] by metis
      then show ?thesis unfolding 2(1) by (rule sym)
    next
      case 3
      show ?thesis
        using clash [OF 3(1)] q [unfolded 3(2)] ids [unfolded 3(2) row_of_sel] unfolding 3(2) by metis
    next
      case 4
      note n = 4 [THEN old_row_after_insert(2) [OF wf(1)]]
      have "is_queued (after_delete c d) m" "is_queued (after_delete c d) m'"
        using queued_after_insert [OF q(1) n(1)] queued_after_insert [OF q(2) n(2)] .
      with 4 ids show ?thesis by (intro dedup_okD [OF dd'])
    qed
  qed
qed

lemma cache_wf_insert: "cache_wf d \<Longrightarrow> cache_wf (snd (insert_msg c d))"
  by (simp add: cache_wf_def msgs_wf_insert refs_wf_insert dedup_insert)

section \<open>Updating\<close>

lemma update_flags_sel [simp]:
  "queue (snd (update_flags a f u fl d)) = queue d" "vectors (snd (update_flags a f u fl d)) = vectors d"
  "sync_rows (snd (update_flags a f u fl d)) = sync_rows d"
  "next_msg (snd (update_flags a f u fl d)) = next_msg d"
  "next_queue (snd (update_flags a f u fl d)) = next_queue d"
  by (simp_all add: update_flags_def Let_def)

definition set_flags :: "string \<times> string \<times> nat \<Rightarrow> string list \<Rightarrow> msg_row \<Rightarrow> msg_row" where
  "set_flags k fl m = (if row_key m = k then m\<lparr>m_flags := fl\<rparr> else m)"

lemma set_flags_sel [simp]:
  "m_id (set_flags k fl m) = m_id m" "row_key (set_flags k fl m) = row_key m"
  "m_message_id (set_flags k fl m) = m_message_id m" "m_uid (set_flags k fl m) = m_uid m"
  "m_account (set_flags k fl m) = m_account m" "m_folder (set_flags k fl m) = m_folder m"
  "in_folder a f (set_flags k fl m) = in_folder a f m"
  by (simp_all add: set_flags_def row_key_def in_folder_def)

lemma update_flags_messages:
  "messages (snd (update_flags a f u fl d)) = map (set_flags (a, f, u) fl) (messages d)"
  by (simp add: update_flags_def Let_def set_flags_def)

lemma map_set_flags [simp]:
  "map m_id (map (set_flags k fl) ms) = map m_id ms" "map row_key (map (set_flags k fl) ms) = map row_key ms"
  "m_id ` set_flags k fl ` A = m_id ` A"
  by (simp_all add: comp_def image_image)

lemma is_queued_update_flags:
  "is_queued (snd (update_flags a f u fl d)) (set_flags k fl' m) = is_queued d m"
  by (simp add: is_queued_def)

lemma cache_wf_update_flags:
  assumes "cache_wf d"
  shows "cache_wf (snd (update_flags a f u fl d))"
proof -
  let ?d = "snd (update_flags a f u fl d)"
  have ball: "(\<forall>m\<in>set (messages ?d). P m) \<longleftrightarrow> (\<forall>m\<in>set (messages d). P (set_flags (a, f, u) fl m))" for P
    by (simp add: update_flags_messages)
  have "msgs_wf ?d" using assms
    unfolding cache_wf_def msgs_wf_def ball by (simp only: update_flags_messages map_set_flags
        set_flags_sel update_flags_sel) blast
  moreover have "refs_wf ?d" using assms
    unfolding cache_wf_def refs_wf_def by (simp only: update_flags_messages set_map map_set_flags update_flags_sel) blast
  moreover have "dedup_ok ?d" using assms
    unfolding cache_wf_def dedup_ok_def ball by (simp only: is_queued_update_flags set_flags_sel) blast
  ultimately show ?thesis by (simp add: cache_wf_def)
qed

lemma sync_put_sel [simp]:
  "messages (sync_put a f st d) = messages d" "queue (sync_put a f st d) = queue d"
  "vectors (sync_put a f st d) = vectors d" "next_msg (sync_put a f st d) = next_msg d"
  "next_queue (sync_put a f st d) = next_queue d"
  by (simp_all add: sync_put_def)

lemma cache_wf_sync_put:
  assumes "cache_wf d"
  shows "cache_wf (sync_put a f st d)"
proof -
  have "distinct (map fst (sync_rows d))" using assms by (simp add: cache_wf_def refs_wf_def)
  moreover have "sync_rows (sync_put a f st d) =
      alist_put (a, f) (int (UIDValidity st), dur64 (int (HighestModSeq st))) (sync_rows d)"
    by (simp add: sync_put_def)
  ultimately have "distinct (map fst (sync_rows (sync_put a f st d)))"
    by (simp only: map_fst_alist_put) simp
  then have "refs_wf (sync_put a f st d)"
    using assms by (simp add: cache_wf_def refs_wf_def)
  moreover have "msgs_wf (sync_put a f st d) = msgs_wf d" by (simp only: msgs_wf_def sync_put_sel)
  moreover have "dedup_ok (sync_put a f st d) = dedup_ok d"
    by (simp only: dedup_ok_def is_queued_def sync_put_sel)
  ultimately show ?thesis using assms by (simp add: cache_wf_def)
qed

section \<open>The skeleton that the invariant depends on\<close>

definition msg_skel :: "msg_row \<Rightarrow> nat \<times> (string \<times> string \<times> nat) \<times> string" where
  "msg_skel m = (m_id m, row_key m, m_message_id m)"

definition queue_skel :: "queue_row \<Rightarrow> nat \<times> nat" where
  "queue_skel q = (q_id q, q_message_id q)"

definition cache_skel where
  "cache_skel d = (map msg_skel (messages d), map queue_skel (queue d), map v_message_id (vectors d),
     map fst (sync_rows d), next_msg d, next_queue d)"

definition wf_skel where
  "wf_skel t \<longleftrightarrow> (case t of (ms, qs, vs, ss, nm, nq) \<Rightarrow>
     (distinct (map fst ms) \<and> (\<forall>m\<in>set ms. fst m < nm) \<and> distinct (map (fst \<circ> snd) ms)) \<and>
     (distinct (map snd qs) \<and> set (map snd qs) \<subseteq> set (map fst ms) \<and> distinct (map fst qs) \<and>
      (\<forall>q\<in>set qs. fst q < nq) \<and> distinct vs \<and> set vs \<subseteq> set (map fst ms) \<and> distinct ss) \<and>
     (\<forall>m\<in>set ms. \<forall>m'\<in>set ms. fst m \<in> set (map snd qs) \<longrightarrow> fst m' \<in> set (map snd qs) \<longrightarrow>
        snd (snd m) \<noteq> [] \<longrightarrow> snd (snd m) = snd (snd m') \<longrightarrow> fst (snd m) = fst (snd m')))"

lemma cache_wf_skel: "cache_wf d = wf_skel (cache_skel d)"
proof -
  have maps: "map fst (map msg_skel ms) = map m_id ms" "map (fst \<circ> snd) (map msg_skel ms) = map row_key ms"
    "map snd (map queue_skel qs) = map q_message_id qs" "map fst (map queue_skel qs) = map q_id qs" for ms qs
    by (simp_all add: comp_def msg_skel_def queue_skel_def)
  have balls: "(\<forall>x\<in>g ` A. R x) = (\<forall>x\<in>A. R (g x))" for g :: "'x \<Rightarrow> 'y" and A R
    by blast
  have sel: "fst (msg_skel m) = m_id m" "fst (snd (msg_skel m)) = row_key m"
    "snd (snd (msg_skel m)) = m_message_id m" "fst (queue_skel q) = q_id q"
    "snd (queue_skel q) = q_message_id q" for m q
    by (simp_all add: msg_skel_def queue_skel_def)
  show ?thesis
    by (simp only: cache_wf_def msgs_wf_def refs_wf_def dedup_ok_def is_queued_def wf_skel_def cache_skel_def
        prod.case maps balls sel set_map image_image)
qed

lemma cache_wf_cong: "cache_skel d' = cache_skel d \<Longrightarrow> cache_wf d \<Longrightarrow> cache_wf d'"
  by (simp only: cache_wf_skel)

end
