(* ===== verification/Syncer.thy ===== *)
theory Syncer
  imports Cache_Inv Bus
begin

text \<open>
  The sync engine (\<open>internal/sync/syncer.go\<close>, folder resolution of \<open>source.go\<close>,
  \<open>ThreadID\<close> of \<open>mime.go\<close>, the window settings of \<open>internal/config\<close>): one cycle
  brings the cache of every configured folder in line with the server. The interface
  \<open>Source\<close> (the mailbox behind IMAP) is the record \<open>mail_source\<close> of its answers to the
  requests of one cycle, errors included; MIME parsing and word decoding come from
  libraries and are parameters. Events go to a trace. The context is a countdown of its
  checks (\<open>sy_ctx\<close>): \<open>Some k\<close> is cancelled at the k-th check from now, and a database
  statement under a cancelled context fails.
\<close>

section \<open>Configuration\<close>

record account_sync =
  as_Folders :: "string list"
  as_WindowDays :: int
  as_FolderWindowDays :: "string \<rightharpoonup> int"

record sync_config =
  sc_Folders :: "string list"
  sc_WindowDays :: int
  sc_FolderWindowDays :: "string \<rightharpoonup> int"
  sc_IntervalMinutes :: int
  sc_FullSyncOnStart :: bool
  sc_MaxMessageMB :: int
  sc_KeepFlagged :: bool
  sc_VacuumIntervalHours :: int
  sc_Accounts :: "(string \<times> account_sync option) list"

definition sync_folders :: "sync_config \<Rightarrow> account_sync option \<Rightarrow> string list" where
  "sync_folders c a =
     (case a of
        Some s \<Rightarrow> (if as_Folders s \<noteq> [] then as_Folders s
                   else if sc_Folders c \<noteq> [] then sc_Folders c else [''INBOX'', CHR 0x5C # ''Sent''])
      | None \<Rightarrow> (if sc_Folders c \<noteq> [] then sc_Folders c else [''INBOX'', CHR 0x5C # ''Sent'']))"

definition map_int :: "('k \<rightharpoonup> int) \<Rightarrow> 'k \<Rightarrow> int" where
  "map_int m k = (case m k of None \<Rightarrow> 0 | Some v \<Rightarrow> v)"

definition window_days :: "sync_config \<Rightarrow> account_sync option \<Rightarrow> string \<Rightarrow> int" where
  "window_days c a folder =
     (let own = (case a of None \<Rightarrow> 0 | Some s \<Rightarrow> map_int (as_FolderWindowDays s) folder);
          global = map_int (sc_FolderWindowDays c) folder;
          acct = (case a of None \<Rightarrow> 0 | Some s \<Rightarrow> as_WindowDays s)
      in if own > 0 then own
         else if global > 0 then global
         else if acct > 0 then acct
         else if sc_WindowDays c > 0 then sc_WindowDays c
         else 30)"

section \<open>The mailbox interface\<close>

record folder =
  fo_Name :: string
  fo_Attrs :: "string list"

record folder_status =
  fs_UIDValidity :: nat
  fs_HighestModSeq :: nat
  fs_CondStore :: bool

record envelope =
  en_MessageID :: string
  en_Subject :: string
  en_Date :: gotime
  en_From :: "(string \<times> string) list"   \<comment> \<open>address, display name\<close>
  en_To :: "string list"
  en_Cc :: "string list"
  en_ReplyTo :: "string list"
  en_InReplyTo :: "string list"

record fetched_msg =
  fe_UID :: nat
  fe_Flags :: "string list"
  fe_InternalDate :: gotime
  fe_Size :: int
  fe_Envelope :: "envelope option"
  fe_Raw :: "string option"

record parsed_body =
  pb_Text :: string
  pb_HTML :: string
  pb_Attachments :: "attachment list"
  pb_References :: "string list"

record mime_ops =
  mo_parse_body :: "string \<Rightarrow> parsed_body"
  mo_decode_word :: "string \<Rightarrow> string"

record mail_source =
  src_Folders :: "string + folder list"
  src_Status :: "string \<Rightarrow> string + folder_status"
  src_SearchSince :: "string \<Rightarrow> nat \<Rightarrow> gotime \<Rightarrow> bool \<Rightarrow> string + nat list"
  src_Fetch :: "string \<Rightarrow> nat \<Rightarrow> nat list \<Rightarrow> int \<Rightarrow> string + fetched_msg list"
  src_Flags :: "string \<Rightarrow> nat \<Rightarrow> nat list \<Rightarrow> nat \<Rightarrow> string + (nat \<times> string list) list"

text \<open>\<open>resolveFolder\<close>: a SPECIAL-USE token or a literal name, \<open>INBOX\<close> in any case.\<close>

definition resolve_folder :: "string \<Rightarrow> folder list \<Rightarrow> string option" where
  "resolve_folder entry folders =
     (if \<not> has_prefix entry [CHR 0x5C]
      then map_option fo_Name (find (\<lambda>f. fo_Name f = entry \<or>
             (equal_fold entry ''INBOX'' \<and> equal_fold (fo_Name f) ''INBOX'')) folders)
      else map_option fo_Name (find (\<lambda>f. \<exists>a\<in>set (fo_Attrs f). equal_fold a entry) folders))"

definition trim_angle :: "string \<Rightarrow> string" where
  "trim_angle s = (let p = (\<lambda>c. c = CHR ''<'' \<or> c = CHR ''>'') in
     rev (dropWhile p (rev (dropWhile p s))))"

definition thread_id :: "string list \<Rightarrow> string list \<Rightarrow> string \<Rightarrow> string" where
  "thread_id refs in_reply_to message_id =
     (case refs of r # _ \<Rightarrow> trim_angle r
      | [] \<Rightarrow> (case in_reply_to of r # _ \<Rightarrow> trim_angle r | [] \<Rightarrow> trim_angle message_id))"

text \<open>Go's \<open>slices.Sort\<close> on strings is byte-wise.\<close>

definition same_flags :: "string list \<Rightarrow> string list \<Rightarrow> bool" where
  "same_flags a b = (length a = length b \<and> sort a = sort b)"

definition to_cached :: "mime_ops \<Rightarrow> string \<Rightarrow> string \<Rightarrow> fetched_msg \<Rightarrow> cached_message" where
  "to_cached mo account folder f =
     (let body = (case fe_Raw f of None \<Rightarrow> \<lparr>pb_Text = [], pb_HTML = [], pb_Attachments = [], pb_References = []\<rparr>
                  | Some raw \<Rightarrow> mo_parse_body mo raw);
          base = \<lparr>c_Account = account, c_Folder = folder, c_UID = fe_UID f, c_MessageID = [],
             c_ThreadID = [], c_Subject = [], c_FromAddr = [], c_FromName = [], c_To = [], c_Cc = [],
             c_ReplyTo = [], c_Date = zero_time, c_InternalDate = fe_InternalDate f,
             c_Flags = fe_Flags f, c_Size = fe_Size f, c_BodyText = pb_Text body,
             c_BodyHTML = pb_HTML body, c_BodySkipped = (fe_Raw f = None),
             c_Attachments = pb_Attachments body, c_Backfill = False\<rparr>
      in (case fe_Envelope f of
            None \<Rightarrow> base
          | Some env \<Rightarrow> base\<lparr>
              c_MessageID := en_MessageID env,
              c_Subject := mo_decode_word mo (en_Subject env),
              c_Date := en_Date env,
              c_FromAddr := (case en_From env of [] \<Rightarrow> [] | (a, _) # _ \<Rightarrow> a),
              c_FromName := (case en_From env of [] \<Rightarrow> [] | (_, n) # _ \<Rightarrow> mo_decode_word mo n),
              c_To := en_To env,
              c_Cc := en_Cc env,
              c_ReplyTo := (case en_ReplyTo env of [] \<Rightarrow> [] | a # _ \<Rightarrow> a),
              c_ThreadID := thread_id (pb_References body) (en_InReplyTo env) (en_MessageID env)\<rparr>))"

section \<open>State of the syncer\<close>

record folder_stats =
  st_Account :: string
  st_Entry :: string
  st_Folder :: string
  st_WindowDays :: int
  st_Cached :: nat
  st_New :: nat
  st_Removed :: nat
  st_FlagsDone :: nat
  st_CondStore :: bool
  st_Rebuilt :: bool
  st_Error :: "string option"
  st_At :: gotime

datatype sync_payload =
    PDeleted string nat | PUpdated string nat "string list" | PSynced string nat nat bool
  | PFolder folder_stats | PNothing | PFailure string
  | PClean "folder_count list" "nat \<times> nat" bool gotime
  | PSweep "folder_count list" int "nat \<times> nat"

record clean_report =
  cr_Stale :: "folder_count list"
  cr_Orphans :: "nat \<times> nat"
  cr_Vacuumed :: bool
  cr_At :: gotime

record sync_st =
  sy_db :: cache_db
  sy_events :: "sync_payload event list"
  sy_stats :: "string \<rightharpoonup> folder_stats"
  sy_lastVacuum :: gotime
  sy_lastClean :: clean_report
  sy_lastReport :: clean_report
  sy_ctx :: "nat option"

definition emit :: "event_type \<Rightarrow> string \<Rightarrow> sync_payload \<Rightarrow> sync_st \<Rightarrow> sync_st" where
  "emit t account p s =
     s\<lparr>sy_events := sy_events s @ [\<lparr>ev_Type = t, ev_Account = account, ev_Payload = p\<rparr>]\<rparr>"

definition upd_db :: "(cache_db \<Rightarrow> cache_db) \<Rightarrow> sync_st \<Rightarrow> sync_st" where
  "upd_db f s = s\<lparr>sy_db := f (sy_db s)\<rparr>"

definition ctx_check :: "sync_st \<Rightarrow> bool \<times> sync_st" where
  "ctx_check s = (case sy_ctx s of
       None \<Rightarrow> (False, s)
     | Some 0 \<Rightarrow> (True, s)
     | Some (Suc k) \<Rightarrow> (False, s\<lparr>sy_ctx := Some k\<rparr>))"

definition ctx_done :: "sync_st \<Rightarrow> bool" where
  "ctx_done s = (sy_ctx s = Some 0)"

definition ctx_error :: string where "ctx_error = ''context canceled''"

section \<open>One folder\<close>

record sync_env =
  se_cfg :: sync_config
  se_mime :: mime_ops
  se_now :: gotime
  se_tz :: int          \<comment> \<open>offset of the server's location from UTC in seconds\<close>

definition window_start :: "sync_env \<Rightarrow> int \<Rightarrow> gotime" where
  "window_start e days = ((time_unix (se_now e) + se_tz e) div 86400 - days) * 86400 * ns_per_sec"

definition apply_flag_update ::
  "string \<Rightarrow> string \<Rightarrow> (nat \<times> string list) list \<Rightarrow> nat \<times> string list \<Rightarrow>
     folder_stats \<times> sync_st \<Rightarrow> folder_stats \<times> sync_st" where
  "apply_flag_update account folder cached up p =
     (let (u, fl) = up; (st, s) = p;
          old = (case map_of cached u of None \<Rightarrow> [] | Some f \<Rightarrow> f)
      in if same_flags old fl then (st, s)
         else (let (ok, d) = update_flags account folder u fl (sy_db s); s1 = s\<lparr>sy_db := d\<rparr> in
               if ok then (st\<lparr>st_FlagsDone := st_FlagsDone st + 1\<rparr>,
                           emit EventMessageUpdated account (PUpdated folder u fl) s1)
               else (st, s1)))"

definition insert_fetched ::
  "mime_ops \<Rightarrow> string \<Rightarrow> string \<Rightarrow> bool \<Rightarrow> nat \<Rightarrow> fetched_msg \<Rightarrow>
     folder_stats \<times> sync_st \<Rightarrow> folder_stats \<times> sync_st" where
  "insert_fetched mo account folder had_state prev_max f p =
     (let (st, s) = p;
          cm = to_cached mo account folder f;
          cm' = cm\<lparr>c_Backfill := (\<not> had_state \<or> c_UID cm \<le> prev_max)\<rparr>;
          (res, d) = insert_msg cm' (sy_db s)
      in (st\<lparr>st_New := st_New st + 1\<rparr>,
          emit EventMessageSynced account (PSynced folder (c_UID cm') (ir_ID res) (ir_Queued res))
            (s\<lparr>sy_db := d\<rparr>)))"

definition fetch_batch :: nat where "fetch_batch = 25"

function fetch_loop ::
  "(nat list \<Rightarrow> string + fetched_msg list) \<Rightarrow> (fetched_msg \<Rightarrow> folder_stats \<times> sync_st \<Rightarrow> folder_stats \<times> sync_st) \<Rightarrow>
     nat list \<Rightarrow> folder_stats \<times> sync_st \<Rightarrow> string option \<times> folder_stats \<times> sync_st" where
  "fetch_loop fetch ins fresh p =
     (if fresh = [] then (None, p)
      else (let (done, s) = ctx_check (snd p) in
            if done then (Some ctx_error, fst p, s)
            else (case fetch (take fetch_batch fresh) of
                    Inl e \<Rightarrow> (Some e, fst p, s)
                  | Inr msgs \<Rightarrow> fetch_loop fetch ins (drop fetch_batch fresh) (fold ins msgs (fst p, s)))))"
  by pat_completeness auto
termination
  by (relation "measure (\<lambda>(fetch, ins, fresh, p). length fresh)") (auto simp: fetch_batch_def)

declare fetch_loop.simps [simp del]

text \<open>Drop the folder's cache when the recorded UIDVALIDITY differs from the server's.\<close>

definition rebuild_if_changed ::
  "string \<Rightarrow> string \<Rightarrow> folder_status \<Rightarrow> folder_stats \<times> sync_st \<Rightarrow> folder_sync_state \<times> folder_stats \<times> sync_st" where
  "rebuild_if_changed account folder status p =
     (let (st, s) = p; prev = sync_get account folder (sy_db s) in
      if UIDValidity prev \<noteq> 0 \<and> UIDValidity prev \<noteq> fs_UIDValidity status
      then (zero_sync_state, st\<lparr>st_Rebuilt := True\<rparr>, upd_db (\<lambda>d. snd (delete_folder account folder d)) s)
      else (prev, st, s))"

definition remove_gone ::
  "string \<Rightarrow> string \<Rightarrow> nat list \<Rightarrow> folder_stats \<times> sync_st \<Rightarrow> folder_stats \<times> sync_st" where
  "remove_gone account folder gone p =
     (let (st, s) = p in
      if gone = [] then (st, s)
      else (let (n, d) = delete_uids account folder gone (sy_db s) in
            (st\<lparr>st_Removed := n\<rparr>,
             fold (\<lambda>u. emit EventMessageDeleted account (PDeleted folder u)) gone (s\<lparr>sy_db := d\<rparr>))))"

definition sync_folder ::
  "sync_env \<Rightarrow> mail_source \<Rightarrow> folder_stats \<Rightarrow> sync_st \<Rightarrow> string option \<times> folder_stats \<times> sync_st" where
  "sync_folder e src st0 s0 =
     (let account = st_Account st0; folder = st_Folder st0 in
      case src_Status src folder of
        Inl err \<Rightarrow> (Some err, st0, s0)
      | Inr status \<Rightarrow>
          (let (prev, st1, s1) = rebuild_if_changed account folder status
                 (st0\<lparr>st_CondStore := fs_CondStore status\<rparr>, s0);
               since = window_start e (st_WindowDays st0)
           in case src_SearchSince src folder (fs_UIDValidity status) since (sc_KeepFlagged (se_cfg e)) of
                Inl err \<Rightarrow> (Some err, st1, s1)
              | Inr server \<Rightarrow>
                  (let cached = cached_uids account folder (sy_db s1);
                       prev_max = fold max (map fst cached) 0;
                       had_state = (UIDValidity prev \<noteq> 0);
                       existing = filter (\<lambda>u. u \<in> set (map fst cached)) server;
                       fresh = filter (\<lambda>u. u \<notin> set (map fst cached)) server;
                       gone = filter (\<lambda>u. u \<notin> set server) (map fst cached);
                       p2 = remove_gone account folder gone (st1, s1);
                       changed_since = (if fs_CondStore status \<and> HighestModSeq prev > 0 then HighestModSeq prev else 0)
                   in case src_Flags src folder (fs_UIDValidity status) existing changed_since of
                        Inl err \<Rightarrow> (Some err, p2)
                      | Inr updates \<Rightarrow>
                          (let p3 = fold (apply_flag_update account folder cached) updates p2;
                               max_bytes = dur64 (sc_MaxMessageMB (se_cfg e) * 2 ^ 20);
                               (err, st4, s4) = fetch_loop
                                 (\<lambda>batch. src_Fetch src folder (fs_UIDValidity status) batch max_bytes)
                                 (insert_fetched (se_mime e) account folder had_state prev_max)
                                 (rev (sort fresh)) p3
                           in case err of
                                Some x \<Rightarrow> (Some x, st4, s4)
                              | None \<Rightarrow>
                                  (None, st4\<lparr>st_Cached := length existing + st_New st4\<rparr>,
                                   upd_db (sync_put account folder
                                     \<lparr>UIDValidity = fs_UIDValidity status,
                                      HighestModSeq = fs_HighestModSeq status\<rparr>) s4)))))"

section \<open>One account, all accounts\<close>

definition new_stats :: "sync_env \<Rightarrow> string \<Rightarrow> account_sync option \<Rightarrow> string \<Rightarrow> string \<Rightarrow> folder_stats" where
  "new_stats e account a entry name = \<lparr>st_Account = account, st_Entry = entry, st_Folder = name,
     st_WindowDays = window_days (se_cfg e) a entry, st_Cached = 0, st_New = 0, st_Removed = 0,
     st_FlagsDone = 0, st_CondStore = False, st_Rebuilt = False, st_Error = None, st_At = se_now e\<rparr>"

definition record_stats :: "folder_stats \<Rightarrow> sync_st \<Rightarrow> sync_st" where
  "record_stats st s = s\<lparr>sy_stats := (sy_stats s)(st_Account st @ CHR 0x00 # st_Entry st \<mapsto> st)\<rparr>"

text \<open>The loop over the folder entries; the result lists the mailboxes seen.\<close>

fun sync_entries ::
  "sync_env \<Rightarrow> mail_source \<Rightarrow> string \<Rightarrow> account_sync option \<Rightarrow> folder list \<Rightarrow> string list \<Rightarrow>
     string list \<Rightarrow> sync_st \<Rightarrow> string option \<times> string list \<times> sync_st" where
  "sync_entries e src account a folders [] seen s = (None, seen, s)"
| "sync_entries e src account a folders (entry # es) seen s =
     (let (done, s) = ctx_check s in
      if done then (Some ctx_error, seen, s)
      else (case resolve_folder entry folders of
              None \<Rightarrow> sync_entries e src account a folders es seen
                (record_stats ((new_stats e account a entry [])
                   \<lparr>st_Error := Some ''folder not found on server''\<rparr>) s)
            | Some name \<Rightarrow>
                (if name \<in> set seen then sync_entries e src account a folders es seen s
                 else (let (err, st, s) = sync_folder e src (new_stats e account a entry name) s;
                           st = (case err of None \<Rightarrow> st | Some x \<Rightarrow> st\<lparr>st_Error := Some x\<rparr>)
                       in sync_entries e src account a folders es (name # seen)
                            (emit EventFolderSynced account (PFolder st) (record_stats st s))))))"

definition add_stale :: "folder_count list \<Rightarrow> sync_st \<Rightarrow> sync_st" where
  "add_stale stale s =
     s\<lparr>sy_lastClean := (sy_lastClean s)\<lparr>cr_Stale := cr_Stale (sy_lastClean s) @ stale\<rparr>\<rparr>"

definition sync_account ::
  "sync_env \<Rightarrow> mail_source \<Rightarrow> string \<Rightarrow> sync_st \<Rightarrow> string option \<times> sync_st" where
  "sync_account e src account s =
     (let a = (case map_of (sc_Accounts (se_cfg e)) account of None \<Rightarrow> None | Some x \<Rightarrow> x) in
      case src_Folders src of
        Inl err \<Rightarrow> (Some err, s)
      | Inr folders \<Rightarrow>
          (let (err, seen, s1) = sync_entries e src account a folders (sync_folders (se_cfg e) a) [] s;
               s2 = (case err of None \<Rightarrow> emit EventSyncComplete account PNothing s1 | Some _ \<Rightarrow> s1)
           in if ctx_done s2 then (err, s2)
              else (let (stale, d) = prune_folders account seen (sy_db s2) in
                    (err, add_stale stale (s2\<lparr>sy_db := d\<rparr>)))))"

definition empty_report :: clean_report where
  "empty_report = \<lparr>cr_Stale = [], cr_Orphans = (0, 0), cr_Vacuumed = False, cr_At = zero_time\<rparr>"

definition sync_clean :: "sync_env \<Rightarrow> sync_st \<Rightarrow> sync_st" where
  "sync_clean e s0 =
     (let (done, s) = ctx_check s0 in
      if done then s
      else (let (stale, d1) = prune_accounts (map fst (sc_Accounts (se_cfg e))) (sy_db s);
                s1 = add_stale stale (s\<lparr>sy_db := d1\<rparr>);
                (orphans, d2) = clean_orphans (sy_db s1);
                interval = dur64 (sc_VacuumIntervalHours (se_cfg e) * ns_per_hour);
                vacuum = (interval > 0 \<and> time_sub (se_now e) (sy_lastVacuum s1) \<ge> interval);
                rep = (sy_lastClean s1)\<lparr>cr_Orphans := orphans, cr_Vacuumed := vacuum, cr_At := se_now e\<rparr>;
                s2 = s1\<lparr>sy_db := d2, sy_lastVacuum := (if vacuum then se_now e else sy_lastVacuum s1),
                        sy_lastClean := empty_report, sy_lastReport := rep\<rparr>
            in emit EventCacheCleaned [] (PClean (cr_Stale rep) (cr_Orphans rep) (cr_Vacuumed rep) (cr_At rep)) s2))"

text \<open>\<open>pool\<close> gives the connection of each account name, or the error of \<open>pool.Get\<close>.\<close>

fun sync_accounts :: "sync_env \<Rightarrow> (string \<times> (string + mail_source)) list \<Rightarrow> sync_st \<Rightarrow> sync_st" where
  "sync_accounts e [] s = s"
| "sync_accounts e ((name, conn) # rest) s =
     (let (done, s) = ctx_check s in
      if done then s
      else (case conn of
              Inl _ \<Rightarrow> sync_accounts e rest s
            | Inr src \<Rightarrow>
                (let (err, s) = sync_account e src name s in
                 sync_accounts e rest
                   (case err of None \<Rightarrow> s | Some x \<Rightarrow> emit EventSyncError name (PFailure x) s))))"

definition sync_all :: "sync_env \<Rightarrow> (string \<times> (string + mail_source)) list \<Rightarrow> sync_st \<Rightarrow> sync_st" where
  "sync_all e pool s = sync_clean e (sync_accounts e pool s)"

text \<open>\<open>SyncAccount\<close>: one account on demand; \<open>conn\<close> is the answer of \<open>pool.Get\<close>.\<close>

definition sync_one :: "sync_env \<Rightarrow> string \<times> (string + mail_source) \<Rightarrow> sync_st \<Rightarrow> string option \<times> sync_st" where
  "sync_one e p s = (case snd p of Inl err \<Rightarrow> (Some err, s) | Inr src \<Rightarrow> sync_account e src (fst p) s)"

text \<open>\<open>Run\<close>: the ticks it handles are a list, each with the environment and the servers of
  that moment; a cycle that starts after cancellation does nothing.\<close>

definition sync_interval :: "sync_config \<Rightarrow> int" where
  "sync_interval c = (let i = dur64 (sc_IntervalMinutes c * ns_per_min) in
     if i \<le> 0 then 15 * ns_per_min else i)"

fun sync_ticks :: "(sync_env \<times> (string \<times> (string + mail_source)) list) list \<Rightarrow> sync_st \<Rightarrow> sync_st" where
  "sync_ticks [] s = s"
| "sync_ticks ((e, pool) # ticks) s =
     (if ctx_done s then s else sync_ticks ticks (sync_all e pool s))"

definition sync_run ::
  "(sync_env \<times> (string \<times> (string + mail_source)) list) \<Rightarrow>
     (sync_env \<times> (string \<times> (string + mail_source)) list) list \<Rightarrow> sync_st \<Rightarrow> sync_st" where
  "sync_run start ticks s =
     sync_ticks ticks (if sc_FullSyncOnStart (se_cfg (fst start)) then sync_all (fst start) (snd start) s else s)"

section \<open>The on-demand sweep\<close>

record sweep_result =
  sr_DryRun :: bool
  sr_Folders :: "folder_count list"
  sr_Total :: int
  sr_Orphans :: "(nat \<times> nat) option"

definition syncer_sweep :: "sweep_filter \<Rightarrow> bool \<Rightarrow> gotime \<Rightarrow> sync_st \<Rightarrow> sweep_result \<times> sync_st" where
  "syncer_sweep f dry_run now s =
     (let (counts, d) = cache_sweep f dry_run now (sy_db s);
          res = \<lparr>sr_DryRun = dry_run, sr_Folders = counts,
                 sr_Total = int (sum_list (map snd counts)), sr_Orphans = None\<rparr>
      in if dry_run then (res, s\<lparr>sy_db := d\<rparr>)
         else (let (orphans, d) = clean_orphans d;
                   res = res\<lparr>sr_Orphans := Some orphans\<rparr>
               in (res, emit EventCacheCleaned [] (PSweep counts (sr_Total res) orphans)
                          (s\<lparr>sy_db := d, sy_lastVacuum := now\<rparr>))))"

end
