(* ===== verification/Sync_Inv.thy ===== *)
theory Sync_Inv
  imports Syncer
begin

text \<open>
  Invariants of the sync engine. The locale \<open>folder_inv\<close> is the contract between one
  folder's cycle and the cache: a predicate that every cache operation the cycle makes on
  its folder keeps. The cycle's induction is done once, inside the locale; \<open>cycle_inv\<close> is
  the contract of a whole cycle over all accounts and gives \<open>folder_inv\<close> for every
  folder. Both are interpreted on the cache: the well-formedness of the database, and the
  frame "rows of other folders are unchanged".
\<close>

definition other_rows :: "string \<Rightarrow> string \<Rightarrow> cache_db \<Rightarrow> msg_row list" where
  "other_rows a f d = filter (\<lambda>m. \<not> in_folder a f m) (messages d)"

lemma emit_sel [simp]:
  "sy_db (emit t a p s) = sy_db s" "sy_stats (emit t a p s) = sy_stats s" "sy_ctx (emit t a p s) = sy_ctx s"
  by (simp_all add: emit_def)

lemma upd_db_sel [simp]: "sy_db (upd_db f s) = f (sy_db s)" "sy_ctx (upd_db f s) = sy_ctx s"
  by (simp_all add: upd_db_def)

lemma fold_emit_sel [simp]:
  "sy_db (fold (\<lambda>u. emit (t u) (a u) (p u)) us s) = sy_db s"
  by (induction us arbitrary: s) auto

lemma ctx_check_db [simp]: "sy_db (snd (ctx_check s)) = sy_db s"
  by (simp add: ctx_check_def split: option.split nat.split)

lemma record_stats_db [simp]: "sy_db (record_stats st s) = sy_db s"
  by (simp add: record_stats_def)

lemma add_stale_db [simp]: "sy_db (add_stale x s) = sy_db s"
  by (simp add: add_stale_def)

lemma to_cached_sel [simp]:
  "c_Account (to_cached mo a f m) = a" "c_Folder (to_cached mo a f m) = f"
  "c_UID (to_cached mo a f m) = fe_UID m"
  by (simp_all add: to_cached_def Let_def split: option.split)

locale folder_body =
  fixes P :: "cache_db \<Rightarrow> bool" and a :: string and f :: string
  assumes inv_delete: "P d \<Longrightarrow> P (snd (delete_where (\<lambda>m. in_folder a f m \<and> Q m) d))"
    and inv_flags: "P d \<Longrightarrow> P (snd (update_flags a f u fl d))"
    and inv_insert: "P d \<Longrightarrow> c_Account c = a \<Longrightarrow> c_Folder c = f \<Longrightarrow> P (snd (insert_msg c d))"
begin

lemma rebuild_keeps:
  "P (sy_db s) \<Longrightarrow> P (sy_db (snd (snd (rebuild_if_changed a f status (st, s)))))"
  using inv_delete [of "sy_db s" "\<lambda>_. True"]
  by (simp add: rebuild_if_changed_def Let_def delete_folder_def)

lemma gone_keeps: "P (sy_db s) \<Longrightarrow> P (sy_db (snd (remove_gone a f gone (st, s))))"
  by (simp add: remove_gone_def Let_def split_beta delete_uids_eq inv_delete)

lemma flag_keeps: "P (sy_db (snd p)) \<Longrightarrow> P (sy_db (snd (apply_flag_update a f cached up p)))"
  by (simp add: apply_flag_update_def Let_def split_beta inv_flags)

lemma insert_keeps: "P (sy_db (snd p)) \<Longrightarrow> P (sy_db (snd (insert_fetched mo a f had mx m p)))"
  by (simp add: insert_fetched_def Let_def split_beta inv_insert)

lemma fetch_loop_keeps:
  "P (sy_db (snd p)) \<Longrightarrow> P (sy_db (snd (snd (fetch_loop fetch (insert_fetched mo a f had mx) fresh p))))"
proof (induction fetch "insert_fetched mo a f had mx" fresh p rule: fetch_loop.induct)
  case (1 fetch fresh p)
  show ?case
  proof (cases "fresh = [] \<or> fst (ctx_check (snd p)) \<or> (\<exists>e. fetch (take fetch_batch fresh) = Inl e)")
    case True
    with "1.prems" show ?thesis
      by (subst fetch_loop.simps) (auto simp: Let_def split_beta)
  next
    case False
    then obtain msgs where ms: "fetch (take fetch_batch fresh) = Inr msgs"
      by (metis sumE)
    have "P (sy_db (snd (fold (insert_fetched mo a f had mx) msgs (fst p, snd (ctx_check (snd p))))))"
      by (rule fold_preserves [where P = "\<lambda>p. P (sy_db (snd p))"]) (simp_all add: insert_keeps "1.prems")
    then have "P (sy_db (snd (snd (fetch_loop fetch (insert_fetched mo a f had mx) (drop fetch_batch fresh)
        (fold (insert_fetched mo a f had mx) msgs (fst p, snd (ctx_check (snd p))))))))"
      using False ms by (intro "1.hyps" [OF _ refl prod.collapse]) auto
    with False ms show ?thesis
      by (subst fetch_loop.simps) (simp add: Let_def split_beta)
  qed
qed

lemma body_keeps:
  assumes "P (sy_db (snd (snd (rebuild_if_changed a f status (st', s)))))"
  shows "P (sy_db (snd (remove_gone a f gone (snd (rebuild_if_changed a f status (st', s))))))"
    and "P (sy_db (snd (snd (fetch_loop fetch (insert_fetched mo a f had mx) fresh
           (fold (apply_flag_update a f cached) ups
             (remove_gone a f gone (snd (rebuild_if_changed a f status (st', s)))))))))"
proof -
  show g: "P (sy_db (snd (remove_gone a f gone (snd (rebuild_if_changed a f status (st', s))))))"
    using gone_keeps assms by (metis prod.collapse)
  have "P (sy_db (snd (fold (apply_flag_update a f cached) ups
      (remove_gone a f gone (snd (rebuild_if_changed a f status (st', s)))))))"
    by (rule fold_preserves [where P = "\<lambda>p. P (sy_db (snd p))"]) (simp_all add: flag_keeps g)
  then show "P (sy_db (snd (snd (fetch_loop fetch (insert_fetched mo a f had mx) fresh
           (fold (apply_flag_update a f cached) ups
             (remove_gone a f gone (snd (rebuild_if_changed a f status (st', s)))))))))"
    by (rule fetch_loop_keeps)
qed

text \<open>A cycle that ends in an error keeps what its body keeps: the watermark is not written.\<close>

lemma sync_folder_error_keeps:
  assumes "st_Account st = a" and "st_Folder st = f"
    and "\<And>status st'. P (sy_db (snd (snd (rebuild_if_changed a f status (st', s)))))" and "P (sy_db s)"
    and "fst (sync_folder e src st s) = Some err"
  shows "P (sy_db (snd (snd (sync_folder e src st s))))"
proof -
  have "fst (sync_folder e src st s) = None \<or> P (sy_db (snd (snd (sync_folder e src st s))))"
    unfolding sync_folder_def Let_def assms(1,2) split_beta
    using assms(3,4) body_keeps [OF assms(3)]
    by (simp split: sum.split option.split)
  with assms(5) show ?thesis by simp
qed

end

locale folder_inv = folder_body +
  assumes inv_put: "P d \<Longrightarrow> P (sync_put a f st d)"
begin

lemma sync_folder_keeps_from:
  assumes "st_Account st = a" and "st_Folder st = f"
    and "\<And>st'. P (sy_db (snd (snd (rebuild_if_changed a f status (st', s)))))"
    and "src_Status src f = Inr status"
  shows "P (sy_db (snd (snd (sync_folder e src st s))))"
  unfolding sync_folder_def Let_def assms(1,2) split_beta
  using assms(3,4) body_keeps [OF assms(3)]
  by (simp add: inv_put split: sum.split option.split)

lemma sync_folder_keeps:
  assumes "st_Account st = a" and "st_Folder st = f" and "P (sy_db s)"
  shows "P (sy_db (snd (snd (sync_folder e src st s))))"
proof (cases "src_Status src f")
  case (Inl err)
  with assms show ?thesis by (simp add: sync_folder_def Let_def)
next
  case (Inr status)
  show ?thesis
    by (rule sync_folder_keeps_from [OF assms(1,2) rebuild_keeps [OF assms(3)] Inr])
qed

end

lemma other_rows_ops:
  "other_rows a f (snd (delete_where (\<lambda>m. in_folder a f m \<and> Q m) d)) = other_rows a f d"
  "other_rows a f (snd (update_flags a f u fl d)) = other_rows a f d"
  "c_Account c = a \<Longrightarrow> c_Folder c = f \<Longrightarrow> other_rows a f (snd (insert_msg c d)) = other_rows a f d"
  "other_rows a f (sync_put a f st d) = other_rows a f d"
proof -
  show "other_rows a f (snd (delete_where (\<lambda>m. in_folder a f m \<and> Q m) d)) = other_rows a f d"
    by (auto simp: other_rows_def intro!: filter_cong)
  have "filter (\<lambda>m. \<not> in_folder a f m) (map (set_flags (a, f, u) fl) ms) = filter (\<lambda>m. \<not> in_folder a f m) ms" for ms
    by (induction ms) (auto simp: set_flags_def row_key_def in_folder_def)
  then show "other_rows a f (snd (update_flags a f u fl d)) = other_rows a f d"
    by (simp add: other_rows_def update_flags_messages)
  show "other_rows a f (snd (insert_msg c d)) = other_rows a f d" if "c_Account c = a" "c_Folder c = f"
    using that by (auto simp: other_rows_def insert_msg_messages in_folder_def msg_key_def row_key_def
        intro!: filter_cong)
  show "other_rows a f (sync_put a f st d) = other_rows a f d" by (simp add: other_rows_def)
qed

interpretation frame_inv: folder_inv "\<lambda>d. other_rows a f d = rows" a f for a f rows
  by unfold_locales (simp_all add: other_rows_ops)

section \<open>A whole cycle\<close>

locale cycle_inv =
  fixes P :: "cache_db \<Rightarrow> bool"
  assumes cyc_delete: "P d \<Longrightarrow> P (snd (delete_where Q d))"
    and cyc_flags: "P d \<Longrightarrow> P (snd (update_flags a f u fl d))"
    and cyc_insert: "P d \<Longrightarrow> P (snd (insert_msg c d))"
    and cyc_put: "P d \<Longrightarrow> P (sync_put a f st d)"
    and cyc_rows: "P d \<Longrightarrow> P (d\<lparr>sync_rows := filter R (sync_rows d)\<rparr>)"
    and cyc_orphans: "P d \<Longrightarrow> P (snd (clean_orphans d))"
begin

sublocale each: folder_inv P a f for a f
  by unfold_locales (simp_all add: cyc_delete cyc_flags cyc_insert cyc_put)

lemma entries_keep:
  "P (sy_db s) \<Longrightarrow> P (sy_db (snd (snd (sync_entries e src account a folders es seen s))))"
proof (induction es arbitrary: seen s)
  case Nil
  then show ?case by simp
next
  case (Cons entry es)
  let ?s = "snd (ctx_check s)"
  have c: "P (sy_db ?s)" using Cons.prems by simp
  then have "P (sy_db (snd (snd (sync_folder e src (new_stats e account a entry name) ?s))))" for name
    by (rule each.sync_folder_keeps [rotated 2]) (simp_all add: new_stats_def)
  with c show ?case
    by (simp add: Let_def split_beta Cons.IH split: option.split)
qed

lemma prune_keeps: "P d \<Longrightarrow> P (snd (prune_where dropped d))"
proof -
  have step: "P d \<Longrightarrow> P ((snd (delete_where (in_folder (fst k) (snd k)) d))
      \<lparr>sync_rows := filter (\<lambda>(k', _). k' \<noteq> k) (sync_rows d)\<rparr>)" for d k
    using cyc_rows [OF cyc_delete, of d "\<lambda>(k', _). k' \<noteq> k" "in_folder (fst k) (snd k)"] by simp
  show "P d \<Longrightarrow> P (snd (prune_where dropped d))"
    unfolding prune_where_def Let_def snd_conv
    by (rule fold_preserves [where P = P]) (auto simp only: split_beta intro!: step)
qed

lemma account_keeps: "P (sy_db s) \<Longrightarrow> P (sy_db (snd (sync_account e src account s)))"
  by (simp add: sync_account_def prune_folders_def Let_def split_beta prune_keeps entries_keep
      split: option.split sum.split)

lemma accounts_keep: "P (sy_db s) \<Longrightarrow> P (sy_db (sync_accounts e pool s))"
proof (induction pool arbitrary: s)
  case Nil
  then show ?case by simp
next
  case (Cons x pool)
  then show ?case
    by (cases x) (simp add: Let_def split_beta account_keeps split: option.split sum.split)
qed

lemma clean_keeps: "P (sy_db s) \<Longrightarrow> P (sy_db (sync_clean e s))"
  by (simp add: sync_clean_def Let_def split_beta prune_accounts_def prune_keeps cyc_orphans)

lemma cycle_keeps: "P (sy_db s) \<Longrightarrow> P (sy_db (sync_all e pool s))"
  by (simp add: sync_all_def clean_keeps accounts_keep)

end

lemma cache_wf_rows: "cache_wf d \<Longrightarrow> cache_wf (d\<lparr>sync_rows := filter R (sync_rows d)\<rparr>)"
proof -
  assume wf: "cache_wf d"
  let ?d = "d\<lparr>sync_rows := filter R (sync_rows d)\<rparr>"
  have m: "messages ?d = messages d" "queue ?d = queue d" by simp_all
  have "msgs_wf ?d = msgs_wf d" by (simp add: msgs_wf_def)
  moreover have "dedup_ok ?d = dedup_ok d" by (simp only: dedup_ok_def is_queued_def m)
  moreover have "refs_wf ?d" using wf by (auto simp: cache_wf_def refs_wf_def distinct_map_filter)
  ultimately show ?thesis using wf by (simp add: cache_wf_def)
qed

lemma clean_orphans_id: "cache_wf d \<Longrightarrow> clean_orphans d = ((0, 0), d)"
proof -
  assume "cache_wf d"
  then have "filter (\<lambda>v. v_message_id v \<in> m_id ` set (messages d)) (vectors d) = vectors d"
    and "filter (\<lambda>q. q_message_id q \<in> m_id ` set (messages d)) (queue d) = queue d"
    by (auto simp: cache_wf_def refs_wf_def filter_id_conv)
  then show ?thesis by (simp add: clean_orphans_def)
qed

interpretation wf_inv: cycle_inv cache_wf
  by unfold_locales
    (simp_all add: cache_wf_delete cache_wf_update_flags cache_wf_insert cache_wf_sync_put cache_wf_rows
      clean_orphans_id)

end
