(* ===== verification/Sync_Props.thy ===== *)
theory Sync_Props
  imports Sync_Inv
begin

text \<open>
  Properties of the sync engine and the cache it maintains.
\<close>

section \<open>Invariants and frames\<close>

text \<open>C3: A whole sync cycle, whatever the servers answer and wherever it is cancelled, keeps
  the database well-formed: keys unique, vectors and queue entries attached to existing
  messages, and at most one queued copy of a Message-ID.\<close>

theorem cycle_keeps_cache_wf:
  "cache_wf (sy_db s) \<Longrightarrow> cache_wf (sy_db (sync_all e pool s))"
  by (rule wf_inv.cycle_keeps)

definition sample_source :: mail_source where
  "sample_source = \<lparr>src_Folders = Inr [\<lparr>fo_Name = ''INBOX'', fo_Attrs = []\<rparr>],
     src_Status = (\<lambda>_. Inr \<lparr>fs_UIDValidity = 2, fs_HighestModSeq = 0, fs_CondStore = False\<rparr>),
     src_SearchSince = (\<lambda>_ _ _ _. Inr [5, 6]),
     src_Fetch = (\<lambda>_ _ us _. Inr (map (\<lambda>u. \<lparr>fe_UID = u, fe_Flags = [], fe_InternalDate = 0, fe_Size = 1,
        fe_Envelope = None, fe_Raw = None\<rparr>) us)),
     src_Flags = (\<lambda>_ _ _ _. Inr [])\<rparr>"

definition sample_env :: sync_env where
  "sample_env = \<lparr>se_cfg = \<lparr>sc_Folders = [''INBOX''], sc_WindowDays = 0, sc_FolderWindowDays = Map.empty,
       sc_IntervalMinutes = 15, sc_FullSyncOnStart = True, sc_MaxMessageMB = 25, sc_KeepFlagged = False, sc_VacuumIntervalHours = 24,
       sc_Accounts = [(''a'', None)]\<rparr>,
     se_mime = \<lparr>mo_parse_body = (\<lambda>_. \<lparr>pb_Text = [], pb_HTML = [], pb_Attachments = [], pb_References = []\<rparr>),
       mo_decode_word = id\<rparr>, se_now = 0, se_tz = 0\<rparr>"

definition sample_st :: "cache_db \<Rightarrow> sync_st" where
  "sample_st d = \<lparr>sy_db = d, sy_events = [], sy_stats = Map.empty, sy_lastVacuum = 0,
     sy_lastClean = empty_report, sy_lastReport = empty_report, sy_ctx = None\<rparr>"

theorem cycle_keeps_cache_wf_witness:
  "cache_wf (sy_db (sync_all sample_env [(''a'', Inr sample_source)] (sample_st empty_cache)))"
  by (rule cycle_keeps_cache_wf) (simp add: sample_st_def cache_wf_empty)

text \<open>A folder's cycle touches that folder only: the cached rows of every other account
  and folder are the same afterwards, in success and in failure.\<close>

theorem sync_folder_touches_one_folder:
  "other_rows (st_Account st) (st_Folder st) (sy_db (snd (snd (sync_folder e src st s)))) =
   other_rows (st_Account st) (st_Folder st) (sy_db s)"
  by (rule frame_inv.sync_folder_keeps) simp_all

interpretation watermark: folder_body "\<lambda>d. sync_rows d = rows" a f for a f rows
  by unfold_locales (simp_all del: snd_conv)

text \<open>A cycle that fails leaves the watermarks as they were, so a later cycle asks the
  server again for everything since the last complete one.\<close>

theorem failed_cycle_keeps_watermark:
  assumes "fst (sync_folder e src st s) = Some err"
  shows "sync_rows (sy_db (snd (snd (sync_folder e src st s)))) = sync_rows (sy_db s)"
  by (rule watermark.sync_folder_error_keeps [OF refl refl _ _ assms])
    (simp_all add: watermark.rebuild_keeps)

theorem failed_cycle_keeps_watermark_witness:
  "sync_rows (sy_db (snd (snd (sync_folder sample_env (sample_source\<lparr>src_SearchSince := (\<lambda>_ _ _ _. Inl ''io'')\<rparr>)
     (new_stats sample_env ''a'' None ''INBOX'' ''INBOX'')
     (sample_st (empty_cache\<lparr>sync_rows := [((''a'', ''INBOX''), (1, 9))]\<rparr>)))))) = [((''a'', ''INBOX''), (1, 9))]"
proof -
  let ?s = "sample_st (empty_cache\<lparr>sync_rows := [((''a'', ''INBOX''), (1, 9))]\<rparr>)"
  let ?src = "sample_source\<lparr>src_SearchSince := (\<lambda>_ _ _ _. Inl ''io'')\<rparr>"
  have "fst (sync_folder sample_env ?src (new_stats sample_env ''a'' None ''INBOX'' ''INBOX'') ?s) = Some ''io''"
    by (simp add: sync_folder_def sample_source_def split_beta Let_def)
  from failed_cycle_keeps_watermark [OF this] show ?thesis by (simp add: sample_st_def)
qed

section \<open>The cache mirrors the server\<close>

definition folder_uids :: "string \<Rightarrow> string \<Rightarrow> cache_db \<Rightarrow> nat set" where
  "folder_uids a f d = m_uid ` {m \<in> set (messages d). in_folder a f m}"

lemma cached_uids_set: "set (map fst (cached_uids a f d)) = folder_uids a f d"
  by (auto simp: cached_uids_def folder_uids_def)

lemma folder_uids_delete:
  "folder_uids a f (snd (delete_uids a f us d)) = folder_uids a f d - set us"
  by (auto simp: folder_uids_def delete_uids_eq)

lemma folder_uids_flags: "folder_uids a f (snd (update_flags a' f' u fl d)) = folder_uids a f d"
proof -
  have "m_uid ` {m \<in> set_flags k fl ` A. in_folder a f m} = m_uid ` {m \<in> A. in_folder a f m}" for k A
    by (auto simp: image_iff) force
  then show ?thesis by (simp add: folder_uids_def update_flags_messages)
qed

lemma folder_uids_insert:
  "c_Account c = a \<Longrightarrow> c_Folder c = f \<Longrightarrow>
   folder_uids a f (snd (insert_msg c d)) = insert (c_UID c) (folder_uids a f d)"
proof -
  assume c: "c_Account c = a" "c_Folder c = f"
  define r where "r = row_of (next_msg d) (if is_dup c d then StDuplicate else StPending) c"
  have r: "in_folder a f r" "m_uid r = c_UID c"
    using c by (simp_all add: r_def row_of_def in_folder_def)
  have "{m \<in> set (messages (snd (insert_msg c d))). in_folder a f m} =
      insert r {m \<in> set (messages d). in_folder a f m \<and> m_uid m \<noteq> c_UID c}"
    unfolding insert_msg_messages r_def [symmetric]
    using c r by (auto simp: in_folder_def row_key_def msg_key_def)
  with r show ?thesis
    by (auto simp: folder_uids_def)
qed

lemma folder_uids_put [simp]: "folder_uids a f (sync_put a' f' st d) = folder_uids a f d"
  by (simp add: folder_uids_def)

lemma gone_uids:
  "folder_uids a f (sy_db (snd (remove_gone a f us p))) = folder_uids a f (sy_db (snd p)) - set us"
  by (simp add: remove_gone_def Let_def split_beta folder_uids_delete)

lemma flag_updates_uids:
  "folder_uids a f (sy_db (snd (fold (apply_flag_update a f cached) ups p))) = folder_uids a f (sy_db (snd p))"
proof -
  have "folder_uids a f (sy_db (snd (apply_flag_update a f cached up p))) = folder_uids a f (sy_db (snd p))" for up p
    by (simp add: apply_flag_update_def Let_def split_beta folder_uids_flags)
  then show ?thesis by (induction ups arbitrary: p) simp_all
qed

lemma inserted_uids:
  "folder_uids a f (sy_db (snd (fold (insert_fetched mo a f had mx) msgs p))) =
     folder_uids a f (sy_db (snd p)) \<union> fe_UID ` set msgs"
proof (induction msgs arbitrary: p)
  case Nil
  then show ?case by simp
next
  case (Cons m msgs)
  have "folder_uids a f (sy_db (snd (insert_fetched mo a f had mx m p))) =
      insert (fe_UID m) (folder_uids a f (sy_db (snd p)))"
    by (simp add: insert_fetched_def Let_def split_beta folder_uids_insert)
  with Cons show ?case by simp
qed

lemma fetch_loop_Nil [simp]: "fetch_loop fetch ins [] p = (None, p)"
  by (simp add: fetch_loop.simps)

text \<open>What RFC 3501 promises of UID FETCH: an answer for every UID of the set that is in the
  mailbox, and none for another UID; a UID that is not there (any more) is skipped without an error.
  \<open>box\<close> is a set of UIDs that are in the mailbox whenever it is asked.\<close>

definition skips_missing :: "nat set \<Rightarrow> (nat list \<Rightarrow> string + fetched_msg list) \<Rightarrow> bool" where
  "skips_missing box fetch =
     (\<forall>batch msgs. fetch batch = Inr msgs \<longrightarrow> set batch \<inter> box \<subseteq> fe_UID ` set msgs \<and> fe_UID ` set msgs \<subseteq> set batch)"

lemma fetched_between:
  "T \<inter> B \<subseteq> M \<Longrightarrow> M \<subseteq> T \<Longrightarrow> F \<union> M \<union> D \<inter> B \<subseteq> R \<Longrightarrow> R \<subseteq> F \<union> M \<union> D \<Longrightarrow>
   F \<union> (T \<union> D) \<inter> B \<subseteq> R \<and> R \<subseteq> F \<union> (T \<union> D)"
  by blast

lemma fetch_loop_uids:
  assumes honest: "skips_missing box fetch"
    and "fst (fetch_loop fetch (insert_fetched mo a f had mx) fresh p) = None"
  shows "folder_uids a f (sy_db (snd p)) \<union> set fresh \<inter> box
       \<subseteq> folder_uids a f (sy_db (snd (snd (fetch_loop fetch (insert_fetched mo a f had mx) fresh p)))) \<and>
     folder_uids a f (sy_db (snd (snd (fetch_loop fetch (insert_fetched mo a f had mx) fresh p))))
       \<subseteq> folder_uids a f (sy_db (snd p)) \<union> set fresh"
  using assms(2)
proof (induction "length fresh" arbitrary: fresh p rule: less_induct)
  case less
  let ?ins = "insert_fetched mo a f had mx"
  show ?case
  proof (cases "fresh = []")
    case True
    then show ?thesis by simp
  next
    case False
    let ?s = "snd (ctx_check (snd p))"
    from False less.prems obtain msgs where ok: "\<not> fst (ctx_check (snd p))"
      "fetch (take fetch_batch fresh) = Inr msgs"
      by (auto simp: fetch_loop.simps [of fetch ?ins fresh p] Let_def split_beta split: if_splits sum.splits)
    have eq: "fetch_loop fetch ?ins fresh p = fetch_loop fetch ?ins (drop fetch_batch fresh) (fold ?ins msgs (fst p, ?s))"
      using False ok by (subst fetch_loop.simps) (simp add: Let_def split_beta)
    have split: "set fresh = set (take fetch_batch fresh) \<union> set (drop fetch_batch fresh)"
      by (metis append_take_drop_id set_append)
    have msgs: "set (take fetch_batch fresh) \<inter> box \<subseteq> fe_UID ` set msgs"
      "fe_UID ` set msgs \<subseteq> set (take fetch_batch fresh)"
      using honest ok(2) unfolding skips_missing_def by blast+
    have "length (drop fetch_batch fresh) < length fresh" using False by (simp add: fetch_batch_def)
    from less.hyps [OF this less.prems [unfolded eq]]
    have "folder_uids a f (sy_db (snd p)) \<union> fe_UID ` set msgs \<union> set (drop fetch_batch fresh) \<inter> box
        \<subseteq> folder_uids a f (sy_db (snd (snd (fetch_loop fetch ?ins fresh p))))"
      and "folder_uids a f (sy_db (snd (snd (fetch_loop fetch ?ins fresh p))))
        \<subseteq> folder_uids a f (sy_db (snd p)) \<union> fe_UID ` set msgs \<union> set (drop fetch_batch fresh)"
      unfolding eq by (simp_all only: inserted_uids snd_conv ctx_check_db)
    from fetched_between [OF msgs this] show ?thesis unfolding split .
  qed
qed

text \<open>C5: After a cycle that reports no error, every cached UID of the folder is one the server's search
  returned (gone messages were dropped), and of the UIDs the search returned every one is cached that was still in
  the mailbox when it was fetched. So with no message expunged between SEARCH and FETCH the two sets are equal.
  The hypothesis on FETCH is the protocol's: it answers for the UIDs it is asked for that exist.\<close>

theorem cycle_mirrors_server:
  assumes "src_Status src (st_Folder st) = Inr status"
    and "src_SearchSince src (st_Folder st) (fs_UIDValidity status) (window_start e (st_WindowDays st))
           (sc_KeepFlagged (se_cfg e)) = Inr server"
    and "skips_missing box (\<lambda>batch. src_Fetch src (st_Folder st) (fs_UIDValidity status) batch
           (dur64 (sc_MaxMessageMB (se_cfg e) * 2 ^ 20)))"
    and "fst (sync_folder e src st s) = None"
  shows "set server \<inter> box \<subseteq> folder_uids (st_Account st) (st_Folder st) (sy_db (snd (snd (sync_folder e src st s)))) \<and>
    folder_uids (st_Account st) (st_Folder st) (sy_db (snd (snd (sync_folder e src st s)))) \<subseteq> set server"
proof -
  let ?a = "st_Account st" and ?f = "st_Folder st"
  let ?p1 = "snd (rebuild_if_changed ?a ?f status (st\<lparr>st_CondStore := fs_CondStore status\<rparr>, s))"
  let ?cached = "cached_uids ?a ?f (sy_db (snd ?p1))"
  let ?fresh = "rev (sort (filter (\<lambda>u. u \<notin> set (map fst ?cached)) server))"
  let ?gone = "filter (\<lambda>u. u \<notin> set server) (map fst ?cached)"
  let ?loop = "\<lambda>had ups. fetch_loop
      (\<lambda>batch. src_Fetch src ?f (fs_UIDValidity status) batch (dur64 (sc_MaxMessageMB (se_cfg e) * 2 ^ 20)))
      (insert_fetched (se_mime e) ?a ?f had (fold max (map fst ?cached) 0)) ?fresh
      (fold (apply_flag_update ?a ?f ?cached) ups (remove_gone ?a ?f ?gone ?p1))"
  obtain had ups where had: "fst (?loop had ups) = None"
    and res: "sy_db (snd (snd (sync_folder e src st s))) =
      sync_put ?a ?f \<lparr>UIDValidity = fs_UIDValidity status, HighestModSeq = fs_HighestModSeq status\<rparr>
        (sy_db (snd (snd (?loop had ups))))"
    using assms(1,2,4)
    by (auto simp: sync_folder_def Let_def split_beta split: sum.splits option.splits)
  let ?left = "folder_uids ?a ?f (sy_db (snd ?p1)) - set ?gone"
  have loop: "?left \<union> set ?fresh \<inter> box \<subseteq> folder_uids ?a ?f (sy_db (snd (snd (?loop had ups)))) \<and>
      folder_uids ?a ?f (sy_db (snd (snd (?loop had ups)))) \<subseteq> ?left \<union> set ?fresh"
    using fetch_loop_uids [OF assms(3) had] by (simp only: flag_updates_uids gone_uids)
  have "?left \<union> set ?fresh = set server" "set server \<inter> box \<subseteq> ?left \<union> set ?fresh \<inter> box"
    using cached_uids_set [of ?a ?f "sy_db (snd ?p1)"] by auto
  with loop have "set server \<inter> box \<subseteq> folder_uids ?a ?f (sy_db (snd (snd (?loop had ups)))) \<and>
      folder_uids ?a ?f (sy_db (snd (snd (?loop had ups)))) \<subseteq> set server" by blast
  then show ?thesis by (simp add: res)
qed

text \<open>At the witness UID 6 is expunged between SEARCH and FETCH.\<close>

definition racing_source :: mail_source where
  "racing_source = sample_source\<lparr>src_Fetch := (\<lambda>f v us n. src_Fetch sample_source f v (filter (\<lambda>u. u \<noteq> 6) us) n)\<rparr>"

theorem cycle_mirrors_server_witness:
  "{5} \<subseteq> folder_uids ''a'' ''INBOX'' (sy_db (snd (snd (sync_folder sample_env racing_source
     (new_stats sample_env ''a'' None ''INBOX'' ''INBOX'') (sample_st empty_cache))))) \<and>
   folder_uids ''a'' ''INBOX'' (sy_db (snd (snd (sync_folder sample_env racing_source
     (new_stats sample_env ''a'' None ''INBOX'' ''INBOX'') (sample_st empty_cache))))) \<subseteq> {5, 6}"
proof -
  let ?st = "new_stats sample_env ''a'' None ''INBOX'' ''INBOX''"
  have st: "st_Account ?st = ''a''" "st_Folder ?st = ''INBOX''" by (simp_all add: new_stats_def)
  have ok: "fst (sync_folder sample_env racing_source ?st (sample_st empty_cache)) = None"
    by (simp add: sync_folder_def st sample_source_def racing_source_def sample_st_def empty_cache_def Let_def split_beta
        rebuild_if_changed_def remove_gone_def cached_uids_def fetch_loop.simps ctx_check_def
        zero_sync_state_def sync_get_def insert_fetched_def fetch_batch_def emit_def)
  have skip: "skips_missing {5} (\<lambda>batch. src_Fetch racing_source (st_Folder ?st) 2 batch n)" for n
    by (force simp: skips_missing_def racing_source_def sample_source_def)
  have "set [5, 6] \<inter> {5} \<subseteq> folder_uids (st_Account ?st) (st_Folder ?st) (sy_db (snd (snd (sync_folder sample_env racing_source
       ?st (sample_st empty_cache))))) \<and>
     folder_uids (st_Account ?st) (st_Folder ?st) (sy_db (snd (snd (sync_folder sample_env racing_source
       ?st (sample_st empty_cache))))) \<subseteq> set [5, 6]"
    by (rule cycle_mirrors_server [OF _ _ _ ok, where status = "\<lparr>fs_UIDValidity = 2, fs_HighestModSeq = 0, fs_CondStore = False\<rparr>"])
      (simp_all add: skip, simp_all add: racing_source_def sample_source_def)
  then show ?thesis by (simp add: st)
qed

section \<open>Rebuild\<close>

text \<open>Rows of the folder that are older than a given id are gone.\<close>

definition only_new :: "string \<Rightarrow> string \<Rightarrow> nat \<Rightarrow> cache_db \<Rightarrow> bool" where
  "only_new a f n d = (n \<le> next_msg d \<and> (\<forall>m\<in>set (messages d). in_folder a f m \<longrightarrow> n \<le> m_id m))"

lemma update_flags_rows:
  "m \<in> set (messages (snd (update_flags a f u fl d))) \<Longrightarrow>
   \<exists>m'\<in>set (messages d). m_id m = m_id m' \<and> in_folder a' f' m = in_folder a' f' m'"
  by (auto simp: update_flags_messages)

interpretation new_rows: folder_inv "only_new a f n" a f for a f n
proof unfold_locales
  show "only_new a f n d \<Longrightarrow> only_new a f n (snd (delete_where (\<lambda>m. in_folder a f m \<and> Q m) d))" for d Q
    by (simp add: only_new_def)
  show "only_new a f n d \<Longrightarrow> only_new a f n (snd (update_flags a f u fl d))" for d u fl
    unfolding only_new_def by (simp, metis update_flags_rows)
  show "only_new a f n d \<Longrightarrow> only_new a f n (snd (insert_msg c d))" for d c
    by (auto simp: only_new_def insert_msg_messages)
  show "only_new a f n d \<Longrightarrow> only_new a f n (sync_put a f st d)" for d st
    by (simp add: only_new_def)
qed

text \<open>When the server's UIDVALIDITY differs from the recorded one, none of the rows cached
  before the cycle survives in the folder, whatever the rest of the cycle does: stale UIDs
  cannot alias new messages.\<close>

theorem rebuild_drops_stale_rows:
  assumes "src_Status src (st_Folder st) = Inr status"
    and "UIDValidity (sync_get (st_Account st) (st_Folder st) (sy_db s)) \<notin> {0, fs_UIDValidity status}"
    and "m \<in> set (messages (sy_db (snd (snd (sync_folder e src st s)))))"
    and "in_folder (st_Account st) (st_Folder st) m"
  shows "next_msg (sy_db s) \<le> m_id m"
proof -
  have "only_new (st_Account st) (st_Folder st) (next_msg (sy_db s)) (sy_db (snd (snd (sync_folder e src st s))))"
    by (rule new_rows.sync_folder_keeps_from [OF refl refl _ assms(1)])
      (use assms(2) in \<open>simp add: rebuild_if_changed_def only_new_def delete_folder_def Let_def\<close>)
  with assms(3,4) show ?thesis by (simp add: only_new_def)
qed

theorem rebuild_drops_stale_rows_witness:
  "let d = (snd (insert_msg (to_cached (se_mime sample_env) ''a'' ''INBOX''
              \<lparr>fe_UID = 5, fe_Flags = [], fe_InternalDate = 0, fe_Size = 1, fe_Envelope = None, fe_Raw = None\<rparr>)
              empty_cache))\<lparr>sync_rows := [((''a'', ''INBOX''), (1, 0))]\<rparr>;
       st = new_stats sample_env ''a'' None ''INBOX'' ''INBOX'';
       d' = sy_db (snd (snd (sync_folder sample_env sample_source st (sample_st d))))
   in list_all (\<lambda>m. 2 \<le> m_id m) (filter (in_folder ''a'' ''INBOX'') (messages d'))"
proof -
  let ?d = "(snd (insert_msg (to_cached (se_mime sample_env) ''a'' ''INBOX''
              \<lparr>fe_UID = 5, fe_Flags = [], fe_InternalDate = 0, fe_Size = 1, fe_Envelope = None, fe_Raw = None\<rparr>)
              empty_cache))\<lparr>sync_rows := [((''a'', ''INBOX''), (1, 0))]\<rparr>"
  let ?st = "new_stats sample_env ''a'' None ''INBOX'' ''INBOX''"
  have st: "st_Account ?st = ''a''" "st_Folder ?st = ''INBOX''" by (simp_all add: new_stats_def)
  have n: "next_msg ?d = 2" by (simp add: empty_cache_def)
  have status: "src_Status sample_source (st_Folder ?st) =
      Inr \<lparr>fs_UIDValidity = 2, fs_HighestModSeq = 0, fs_CondStore = False\<rparr>"
    by (simp add: sample_source_def)
  have v: "UIDValidity (sync_get (st_Account ?st) (st_Folder ?st) (sy_db (sample_st ?d))) \<notin>
      {0, fs_UIDValidity \<lparr>fs_UIDValidity = 2, fs_HighestModSeq = 0, fs_CondStore = False\<rparr>}"
    by (simp add: st sync_get_def sample_st_def)
  have "2 \<le> m_id m" if "m \<in> set (messages (sy_db (snd (snd (sync_folder sample_env sample_source ?st (sample_st ?d))))))"
    "in_folder ''a'' ''INBOX'' m" for m
    using rebuild_drops_stale_rows [OF status v that(1)] that(2) n by (simp add: st sample_st_def)
  then show ?thesis by (simp add: Let_def list_all_iff)
qed

lemma gone_messages:
  "messages (sy_db (snd (remove_gone a f us p))) =
     filter (\<lambda>m. \<not> (in_folder a f m \<and> m_uid m \<in> set us)) (messages (sy_db (snd p)))"
  by (simp add: remove_gone_def Let_def split_beta delete_uids_eq)

text \<open>A folder without a recorded state (its first sync was aborted, or a sweep dropped the
  state but kept rows) is never rebuilt: rows whose UID is on the server survive whatever
  UIDVALIDITY the server reports.\<close>

theorem unrecorded_folder_keeps_rows:
  assumes "map_of (sync_rows (sy_db s)) (st_Account st, st_Folder st) = None"
    and "src_Status src (st_Folder st) = Inr status"
    and "src_SearchSince src (st_Folder st) (fs_UIDValidity status) (window_start e (st_WindowDays st))
           (sc_KeepFlagged (se_cfg e)) = Inr server"
    and "set server \<subseteq> folder_uids (st_Account st) (st_Folder st) (sy_db s)"
    and "\<And>us n. src_Flags src (st_Folder st) (fs_UIDValidity status) us n = Inr []"
  shows "messages (sy_db (snd (snd (sync_folder e src st s)))) =
    filter (\<lambda>m. \<not> in_folder (st_Account st) (st_Folder st) m \<or> m_uid m \<in> set server) (messages (sy_db s))"
proof -
  let ?a = "st_Account st" and ?f = "st_Folder st"
  let ?cached = "cached_uids ?a ?f (sy_db s)"
  have prev: "sync_get ?a ?f (sy_db s) = zero_sync_state" using assms(1) by (simp add: sync_get_def)
  have reb: "rebuild_if_changed ?a ?f status (st', s) = (zero_sync_state, st', s)" for st'
    by (simp add: rebuild_if_changed_def prev zero_sync_state_def)
  have fresh: "filter (\<lambda>u. u \<notin> set (map fst ?cached)) server = []"
    using assms(4) cached_uids_set [of ?a ?f "sy_db s"] by (auto simp: filter_empty_conv)
  have gone: "messages (sy_db (snd (remove_gone ?a ?f (filter (\<lambda>u. u \<notin> set server) (map fst ?cached)) (st', s)))) =
      filter (\<lambda>m. \<not> in_folder ?a ?f m \<or> m_uid m \<in> set server) (messages (sy_db s))" for st'
  proof -
    have "in_folder ?a ?f m \<Longrightarrow> m \<in> set (messages (sy_db s)) \<Longrightarrow> m_uid m \<in> set (map fst ?cached)" for m
      unfolding cached_uids_set by (auto simp: folder_uids_def)
    then show ?thesis unfolding gone_messages by (intro filter_cong) auto
  qed
  show ?thesis
    unfolding sync_folder_def Let_def assms(2) sum.case
    by (simp only: reb prod.case assms(3) sum.case fresh assms(5) fold_simps sort_key_simps rev.simps
        fetch_loop_Nil option.case snd_conv upd_db_sel sync_put_sel split_beta fst_conv gone)
qed

theorem unrecorded_folder_keeps_rows_witness:
  "let d = snd (insert_msg (to_cached (se_mime sample_env) ''a'' ''INBOX''
              \<lparr>fe_UID = 5, fe_Flags = [], fe_InternalDate = 0, fe_Size = 1, fe_Envelope = None, fe_Raw = None\<rparr>)
              empty_cache)
   in \<forall>v. messages (sy_db (snd (snd (sync_folder sample_env
         (sample_source\<lparr>src_Status := (\<lambda>_. Inr \<lparr>fs_UIDValidity = v, fs_HighestModSeq = 0, fs_CondStore = False\<rparr>),
                        src_SearchSince := (\<lambda>_ _ _ _. Inr [5])\<rparr>)
         (new_stats sample_env ''a'' None ''INBOX'' ''INBOX'') (sample_st d))))) = messages d"
proof -
  let ?d = "snd (insert_msg (to_cached (se_mime sample_env) ''a'' ''INBOX''
              \<lparr>fe_UID = 5, fe_Flags = [], fe_InternalDate = 0, fe_Size = 1, fe_Envelope = None, fe_Raw = None\<rparr>)
              empty_cache)"
  let ?st = "new_stats sample_env ''a'' None ''INBOX'' ''INBOX''"
  let ?status = "\<lambda>v. \<lparr>fs_UIDValidity = v, fs_HighestModSeq = 0, fs_CondStore = False\<rparr>"
  let ?src = "\<lambda>v. sample_source\<lparr>src_Status := (\<lambda>_. Inr (?status v)), src_SearchSince := (\<lambda>_ _ _ _. Inr [5])\<rparr>"
  have st: "st_Account ?st = ''a''" "st_Folder ?st = ''INBOX''" by (simp_all add: new_stats_def)
  have rows: "messages ?d = [row_of 1 StPending (to_cached (se_mime sample_env) ''a'' ''INBOX''
              \<lparr>fe_UID = 5, fe_Flags = [], fe_InternalDate = 0, fe_Size = 1, fe_Envelope = None, fe_Raw = None\<rparr>)]"
    by (simp add: insert_msg_messages empty_cache_def is_dup_def queued_copy_def)
  have uids: "folder_uids ''a'' ''INBOX'' ?d = {5}"
    by (subst folder_uids_insert) (simp_all add: folder_uids_def empty_cache_def)
  have "messages (sy_db (snd (snd (sync_folder sample_env (?src v) ?st (sample_st ?d))))) =
      filter (\<lambda>m. \<not> in_folder (st_Account ?st) (st_Folder ?st) m \<or> m_uid m \<in> set [5]) (messages (sy_db (sample_st ?d)))" for v
    by (rule unrecorded_folder_keeps_rows [where status = "?status v"])
      (simp_all add: sample_source_def sample_st_def uids rows st, simp_all add: empty_cache_def)
  then show ?thesis by (simp add: Let_def sample_st_def rows)
qed

section \<open>De-duplication and sweeping\<close>

text \<open>A message without a queue entry never gets one: only an insertion queues, and it queues
  the new row.\<close>

definition unqueued :: "nat \<Rightarrow> cache_db \<Rightarrow> bool" where
  "unqueued i d = (i < next_msg d \<and> i \<notin> q_message_id ` set (queue d))"

interpretation unqueued_inv: cycle_inv "unqueued i" for i
proof unfold_locales
  show "unqueued i d \<Longrightarrow> unqueued i (snd (delete_where Q d))" for d Q
    by (auto simp: unqueued_def delete_where_queue)
  show "unqueued i d \<Longrightarrow> unqueued i (snd (update_flags a f u fl d))" for d a f u fl
    by (simp add: unqueued_def)
  show "unqueued i d \<Longrightarrow> unqueued i (snd (insert_msg c d))" for d c
    by (auto simp: unqueued_def insert_msg_queue delete_where_queue split: if_splits)
  show "unqueued i d \<Longrightarrow> unqueued i (sync_put a f st d)" for d a f st
    by (simp add: unqueued_def)
  show "unqueued i d \<Longrightarrow> unqueued i (d\<lparr>sync_rows := filter R (sync_rows d)\<rparr>)" for d R
    by (simp add: unqueued_def)
  show "unqueued i d \<Longrightarrow> unqueued i (snd (clean_orphans d))" for d
    by (auto simp: unqueued_def clean_orphans_def Let_def)
qed

text \<open>A message cached as a duplicate is never enriched: no later cycle queues it, not even
  one that removes the copy it was a duplicate of (the message was moved or expunged there).\<close>

theorem duplicate_is_never_queued:
  assumes "cache_wf d" and "is_dup c d" and "sy_db s = snd (insert_msg c d)"
  shows "next_msg d \<notin> q_message_id ` set (queue (sy_db (sync_all e pool s)))"
proof -
  have old: "q_message_id q < next_msg d" if "q \<in> set (queue d)" for q
  proof -
    from assms(1) that obtain m where "m \<in> set (messages d)" "m_id m = q_message_id q"
      by (auto simp: cache_wf_def refs_wf_def)
    with assms(1) show ?thesis by (auto simp: cache_wf_def msgs_wf_def)
  qed
  have "unqueued (next_msg d) (sy_db s)"
    using assms(2) old by (fastforce simp: assms(3) unqueued_def insert_msg_queue delete_where_queue)
  from unqueued_inv.cycle_keeps [OF this] show ?thesis by (simp add: unqueued_def)
qed

theorem duplicate_is_never_queued_witness:
  "let m = (\<lambda>f. (to_cached (se_mime sample_env) ''a'' f
              \<lparr>fe_UID = 5, fe_Flags = [], fe_InternalDate = 0, fe_Size = 1, fe_Envelope = None, fe_Raw = None\<rparr>)
              \<lparr>c_MessageID := ''x''\<rparr>);
       d = snd (insert_msg (m ''Old'') empty_cache)
   in 2 \<notin> q_message_id ` set (queue (sy_db (sync_all sample_env [(''a'', Inr sample_source)]
         (sample_st (snd (insert_msg (m ''INBOX'') d))))))"
proof -
  let ?m = "\<lambda>f. (to_cached (se_mime sample_env) ''a'' f
              \<lparr>fe_UID = 5, fe_Flags = [], fe_InternalDate = 0, fe_Size = 1, fe_Envelope = None, fe_Raw = None\<rparr>)
              \<lparr>c_MessageID := ''x''\<rparr>"
  let ?d = "snd (insert_msg (?m ''Old'') empty_cache)"
  have dup: "is_dup (?m ''INBOX'') ?d" by code_simp
  have n: "next_msg ?d = 2" by (simp add: empty_cache_def)
  have "next_msg ?d \<notin> q_message_id ` set (queue (sy_db (sync_all sample_env [(''a'', Inr sample_source)]
         (sample_st (snd (insert_msg (?m ''INBOX'') ?d))))))"
    by (rule duplicate_is_never_queued [OF cache_wf_insert [OF cache_wf_empty] dup]) (simp add: sample_st_def)
  then show ?thesis unfolding n Let_def .
qed

lemma indicator_sum:
  "distinct ks \<Longrightarrow> y \<in> set ks \<Longrightarrow> sum_list (map (\<lambda>k. if y = k then 1 else 0) ks) = (1::nat)"
proof (induction ks)
  case (Cons k ks)
  have "y \<notin> set ks \<Longrightarrow> sum_list (map (\<lambda>k. if y = k then 1 else 0) ks) = (0::nat)"
    by (induction ks) auto
  with Cons show ?case by auto
qed simp

lemma counts_sum:
  "distinct ks \<Longrightarrow> set (map g xs) \<subseteq> set ks \<Longrightarrow>
   sum_list (map (\<lambda>k. length (filter (\<lambda>m. g m = k) xs)) ks) = length xs"
proof (induction xs)
  case Nil
  then show ?case by simp
next
  case (Cons x xs)
  have "sum_list (map (\<lambda>k. if g x = k then 1 else 0) ks) = (1::nat)"
    using Cons.prems by (simp add: indicator_sum)
  moreover have "(\<lambda>k. length (filter (\<lambda>m. g m = k) (x # xs))) =
      (\<lambda>k. (if g x = k then 1 else 0) + length (filter (\<lambda>m. g m = k) xs))" by (rule ext) simp
  ultimately show ?case using Cons by (simp add: sum_list_addf)
qed

text \<open>A sweep deletes what it reports: the counts add up to the number of selected
  messages; a dry run changes nothing; a real sweep removes exactly the selected messages and
  forgets the sync state of exactly the folders it reports.\<close>

theorem sweep_deletes_what_it_reports:
  "case cache_sweep f dry_run now d of (counts, d') \<Rightarrow>
     sum_list (map snd counts) = length (filter (sweep_where f now) (messages d)) \<and>
     set (map fst counts) = row_folder ` {m \<in> set (messages d). sweep_where f now m} \<and>
     (if dry_run then d' = d
      else messages d' = filter (\<lambda>m. \<not> sweep_where f now m) (messages d) \<and>
        sync_rows d' = filter (\<lambda>(k, _). k \<notin> set (map fst counts)) (sync_rows d))"
proof -
  let ?sel = "filter (sweep_where f now) (messages d)"
  let ?counts = "group_counts (sweep_where f now) d"
  have keys: "map fst ?counts = sort (remdups (map row_folder ?sel))"
    by (simp add: group_counts_def Let_def comp_def)
  have "sum_list (map snd ?counts) =
      sum_list (map (\<lambda>k. length (filter (\<lambda>m. row_folder m = k) ?sel)) (sort (remdups (map row_folder ?sel))))"
    by (simp only: group_counts_def Let_def map_map comp_def snd_conv)
  also have "\<dots> = length ?sel" by (rule counts_sum) simp_all
  finally have total: "sum_list (map snd ?counts) = length ?sel" .
  have set: "set (map fst ?counts) = row_folder ` {m \<in> set (messages d). sweep_where f now m}"
    unfolding keys by auto
  show ?thesis
  proof (cases "\<not> dry_run \<and> ?counts = []")
    case True
    then have eq: "cache_sweep f dry_run now d = ([], d)" by (auto simp: cache_sweep_def Let_def)
    have none: "?sel = []" using set True by (auto simp: filter_empty_conv)
    then have "filter (\<lambda>m. \<not> sweep_where f now m) (messages d) = messages d"
      by (auto simp: filter_id_conv filter_empty_conv)
    with eq none True show ?thesis by (auto simp: filter_empty_conv case_prod_beta)
  next
    case False
    then show ?thesis
      using total set by (cases dry_run) (simp_all add: cache_sweep_def Let_def)
  qed
qed

end
