(* ===== verification/Gates.thy ===== *)
theory Gates
  imports Complex_Main Go_Time
begin

text \<open>
  Load control of the enrichment backfill (\<open>internal/enrichment/gates.go\<close>, \<open>ParseWindow\<close>
  of \<open>internal/config\<close>): the quiet-hours window, the Ollama and datawatch gates, the cached
  gate and the token bucket. What a gate learns from the network is a value of type
  \<open>reply\<close>. Numbers of type float64 are rationals and every floating-point operation is the
  exact operation followed by a rounding function, which is a parameter.
\<close>

section \<open>The window gate\<close>

definition parse_hhmm :: "string \<Rightarrow> int option" where
  "parse_hhmm s0 =
     (case digits12 (trim_space s0) of
        None \<Rightarrow> None
      | Some (h, r) \<Rightarrow>
          (case expect (CHR 0x3A) r of
             None \<Rightarrow> None
           | Some r \<Rightarrow>
               (case digits2 r of
                  None \<Rightarrow> None
                | Some (m, r) \<Rightarrow> (if r = [] \<and> h < 24 \<and> m < 60 then Some (h * 60 + m) else None))))"

text \<open>\<open>Some None\<close> is the result -1, -1 (no restriction); \<open>None\<close> is an error.\<close>

definition parse_window :: "string \<Rightarrow> (int \<times> int) option option" where
  "parse_window w =
     (if trim_space w = [] then Some None
      else (case split_on (CHR ''-'') w of
              [a, b] \<Rightarrow>
                (case (parse_hhmm a, parse_hhmm b) of
                   (Some start, Some stop) \<Rightarrow> (if start = stop then None else Some (Some (start, stop)))
                 | _ \<Rightarrow> None)
            | _ \<Rightarrow> None))"

definition in_window :: "int \<Rightarrow> int \<Rightarrow> int \<Rightarrow> bool" where
  "in_window start stop m = (if start > stop then m \<ge> start \<or> m < stop else m \<ge> start \<and> m < stop)"

definition hhmm :: "int \<Rightarrow> string" where
  "hhmm x = pad_int 2 (x div 60) @ '':'' @ pad_int 2 (x mod 60)"

definition window_allow :: "int \<Rightarrow> int \<Rightarrow> int \<times> int \<Rightarrow> bool \<times> string" where
  "window_allow start stop hm =
     (if in_window start stop (fst hm * 60 + snd hm) then (True, [])
      else (False, ''outside backfill window '' @ hhmm start @ ''-'' @ hhmm stop))"

section \<open>Gates that ask another service\<close>

datatype 'r reply = Unreachable | Unreadable int | Answer 'r

record ps_model =
  ps_Name :: string
  ps_Size :: int
  ps_SizeVRAM :: int

definition base_model :: "string \<Rightarrow> string" where
  "base_model name = trim_suffix name '':latest''"

definition foreign_models :: "string list \<Rightarrow> ps_model list \<Rightarrow> ps_model list" where
  "foreign_models ours ms =
     filter (\<lambda>m. \<not> list_ex (\<lambda>o'. base_model o' = base_model (ps_Name m)) ours) ms"

definition resident :: "ps_model \<Rightarrow> int" where
  "resident m = (if ps_SizeVRAM m = 0 then ps_Size m else ps_SizeVRAM m)"

definition foreign_bytes :: "ps_model list \<Rightarrow> int" where
  "foreign_bytes ms = fold (\<lambda>m n. dur64 (n + resident m)) ms 0"

text \<open>\<open>fmt_gb\<close> renders the gigabytes of the message (the verb \<open>%.1f\<close>).\<close>

definition ollama_allow ::
  "(int \<Rightarrow> string) \<Rightarrow> string list \<Rightarrow> int \<Rightarrow> ps_model list reply \<Rightarrow> bool \<times> string" where
  "ollama_allow fmt_gb ours max_foreign r =
     (case r of
        Unreachable \<Rightarrow> (True, ''ollama /api/ps unreachable; not yielding'')
      | Unreadable _ \<Rightarrow> (True, ''ollama /api/ps unreadable; not yielding'')
      | Answer ms \<Rightarrow>
          (let fs = foreign_models ours ms; n = foreign_bytes fs in
           if n > max_foreign
           then (False, ''other models resident on ollama ('' @ str_join '', '' (map ps_Name fs) @ '', '' @ fmt_gb n @ '' GB)'')
           else (True, [])))"

record cap_pool =
  cp_Name :: string
  cp_Limit :: int
  cp_External :: int
  cp_Held :: int

record capacity =
  cap_Pools :: "cap_pool list"
  cap_Waiting :: "string list list"

definition pool_full :: "string list \<Rightarrow> cap_pool \<Rightarrow> bool" where
  "pool_full pools p = (cp_Name p \<in> set pools \<and> cp_Limit p > 0 \<and> dur64 (cp_Held p + cp_External p) \<ge> cp_Limit p)"

definition datawatch_allow :: "string list \<Rightarrow> capacity reply \<Rightarrow> bool \<times> string" where
  "datawatch_allow pools r =
     (case r of
        Unreachable \<Rightarrow> (True, ''datawatch unreachable; not yielding'')
      | Unreadable status \<Rightarrow> (True, ''datawatch capacity unreadable (HTTP '' @ show_int status @ ''); not yielding'')
      | Answer c \<Rightarrow>
          (case find (pool_full pools) (cap_Pools c) of
             Some p \<Rightarrow> (False, ''datawatch pool '' @ cp_Name p @ '' is full ('' @
                         show_int (dur64 (cp_Held p + cp_External p)) @ ''/'' @ show_int (cp_Limit p) @ '')'')
           | None \<Rightarrow>
               (case find (\<lambda>p. p \<in> set pools) (concat (cap_Waiting c)) of
                  Some p \<Rightarrow> (False, ''datawatch work is waiting on pool '' @ p)
                | None \<Rightarrow> (True, []))))"

section \<open>The gate interface and the cached gate\<close>

datatype load_gate =
    WindowGate int int
  | OllamaGate "string list" int
  | DatawatchGate "string list"
  | CachedGate load_gate int gotime bool string

record gate_env =
  ge_clock :: "int \<times> int"                 \<comment> \<open>local hour and minute\<close>
  ge_ollama :: "ps_model list reply"
  ge_datawatch :: "capacity reply"
  ge_fmt_gb :: "int \<Rightarrow> string"

fun gate_name :: "load_gate \<Rightarrow> string" where
  "gate_name (WindowGate _ _) = ''backfill_window''"
| "gate_name (OllamaGate _ _) = ''ollama_load''"
| "gate_name (DatawatchGate _) = ''datawatch_capacity''"
| "gate_name (CachedGate g _ _ _ _) = gate_name g"

definition cached :: "load_gate \<Rightarrow> int \<Rightarrow> load_gate" where
  "cached g ttl = CachedGate g ttl zero_time False []"

fun gate_allow :: "gate_env \<Rightarrow> gotime \<Rightarrow> load_gate \<Rightarrow> (bool \<times> string) \<times> load_gate" where
  "gate_allow e now (WindowGate a b) = (window_allow a b (ge_clock e), WindowGate a b)"
| "gate_allow e now (OllamaGate ours mx) = (ollama_allow (ge_fmt_gb e) ours mx (ge_ollama e), OllamaGate ours mx)"
| "gate_allow e now (DatawatchGate ps) = (datawatch_allow ps (ge_datawatch e), DatawatchGate ps)"
| "gate_allow e now (CachedGate g ttl t0 ok reason) =
     (if t0 \<noteq> zero_time \<and> time_sub now t0 < ttl then ((ok, reason), CachedGate g ttl t0 ok reason)
      else (let ((ok', why), g') = gate_allow e now g in ((ok', why), CachedGate g' ttl now ok' why)))"

text \<open>A gate over a data source that fails open, and what it gives the cached gate.\<close>

locale open_gate =
  fixes allow :: "'r reply \<Rightarrow> bool \<times> string"
  assumes fails_open: "(\<And>v. r \<noteq> Answer v) \<Longrightarrow> fst (allow r)"
begin

lemma refusal_has_answer: "\<not> fst (allow r) \<Longrightarrow> \<exists>v. r = Answer v"
  using fails_open by blast

end

interpretation ollama: open_gate "ollama_allow fmt ours mx" for fmt ours mx
  by unfold_locales (simp add: ollama_allow_def split: reply.split)

interpretation datawatch: open_gate "datawatch_allow pools" for pools
  by unfold_locales (simp add: datawatch_allow_def split: reply.split)

text \<open>What a cached gate answers over a sequence of queries.\<close>

fun gate_queries :: "(gate_env \<times> gotime) list \<Rightarrow> load_gate \<Rightarrow> (bool \<times> string) list" where
  "gate_queries [] g = []"
| "gate_queries ((e, now) # qs) g = (let (v, g') = gate_allow e now g in v # gate_queries qs g')"

fun stateless :: "load_gate \<Rightarrow> bool" where
  "stateless (CachedGate _ _ _ _ _) = False"
| "stateless _ = True"

lemma stateless_allow: "stateless g \<Longrightarrow> snd (gate_allow e now g) = g"
  by (cases g) auto

text \<open>The verdict of a query is fresh: the inner gate gave it for one of the queries so far,
  less than \<open>ttl\<close> ago.\<close>

definition fresh_verdict ::
  "load_gate \<Rightarrow> int \<Rightarrow> (gate_env \<times> gotime) list \<Rightarrow> gotime \<Rightarrow> bool \<times> string \<Rightarrow> bool" where
  "fresh_verdict g ttl past now v =
     (\<exists>(e, t0)\<in>set past. v = fst (gate_allow e t0 g) \<and> (t0 = now \<or> time_sub now t0 < ttl))"

lemma cached_queries:
  assumes "stateless g"
    and "t0 = zero_time \<or> (\<exists>(e, t)\<in>set past. t = t0 \<and> (ok, why) = fst (gate_allow e t g))"
    and "i < length qs"
  shows "fresh_verdict g ttl (past @ take (Suc i) qs) (snd (qs ! i))
           (gate_queries qs (CachedGate g ttl t0 ok why) ! i)"
  using assms(2,3)
proof (induction qs arbitrary: past t0 ok why i)
  case Nil
  then show ?case by simp
next
  case (Cons q qs)
  obtain e now where q: "q = (e, now)" by (cases q)
  show ?case
  proof (cases "t0 \<noteq> zero_time \<and> time_sub now t0 < ttl")
    case True
    then have here: "fresh_verdict g ttl past now (ok, why)"
      using Cons.prems(1) by (auto simp: fresh_verdict_def)
    show ?thesis
    proof (cases i)
      case 0
      with True here show ?thesis by (auto simp: q fresh_verdict_def)
    next
      case (Suc j)
      have "t0 = zero_time \<or> (\<exists>(e, t)\<in>set (past @ [q]). t = t0 \<and> (ok, why) = fst (gate_allow e t g))"
        using Cons.prems(1) by auto
      from Cons.IH [OF this, of j] True Suc Cons.prems(2) show ?thesis by (simp add: q)
    qed
  next
    case False
    obtain ok' why' where v: "gate_allow e now g = ((ok', why'), g)"
      using stateless_allow [OF assms(1)] by (metis prod.collapse)
    have st: "gate_allow e now (CachedGate g ttl t0 ok why) = ((ok', why'), CachedGate g ttl now ok' why')"
      using False v by auto
    show ?thesis
    proof (cases i)
      case 0
      then show ?thesis by (auto simp: q st fresh_verdict_def v simp del: gate_allow.simps)
    next
      case (Suc j)
      have "now = zero_time \<or> (\<exists>(e, t)\<in>set (past @ [q]). t = now \<and> (ok', why') = fst (gate_allow e t g))"
        using v by (auto simp: q)
      from Cons.IH [OF this, of j] Suc Cons.prems(2) show ?thesis
        by (simp add: q st del: gate_allow.simps)
    qed
  qed
qed

section \<open>The token bucket\<close>

record rate_limiter =
  rl_perMinute :: int
  rl_tokens :: rat
  rl_last :: gotime

definition trunc_rat :: "rat \<Rightarrow> int" where
  "trunc_rat r = (if r \<ge> 0 then \<lfloor>r\<rfloor> else - \<lfloor>- r\<rfloor>)"

text \<open>\<open>Duration.Minutes\<close>; \<open>rnd\<close> rounds a rational to the float64 grid.\<close>

definition minutes :: "(rat \<Rightarrow> rat) \<Rightarrow> int \<Rightarrow> rat" where
  "minutes rnd d =
     (let q = sgn d * (\<bar>d\<bar> div ns_per_min); r = sgn d * (\<bar>d\<bar> mod ns_per_min) in
      rnd (rnd (of_int q) + rnd (rnd (of_int r) / 60000000000)))"

definition new_rate_limiter :: "(rat \<Rightarrow> rat) \<Rightarrow> int \<Rightarrow> rate_limiter" where
  "new_rate_limiter rnd per_minute =
     \<lparr>rl_perMinute = per_minute, rl_tokens = rnd (of_int per_minute), rl_last = zero_time\<rparr>"

definition refill :: "(rat \<Rightarrow> rat) \<Rightarrow> rate_limiter \<Rightarrow> gotime \<Rightarrow> rat" where
  "refill rnd r now =
     (let pm = rnd (of_int (rl_perMinute r)) in
      if rl_last r = zero_time then rl_tokens r
      else (let t = rnd (rl_tokens r + rnd (minutes rnd (time_sub now (rl_last r)) * pm)) in
            if t > pm then pm else t))"

definition rl_take :: "(rat \<Rightarrow> rat) \<Rightarrow> rate_limiter \<Rightarrow> gotime \<Rightarrow> int \<Rightarrow> int \<times> rate_limiter" where
  "rl_take rnd r now want =
     (if rl_perMinute r \<le> 0 then (want, r)
      else (let t = refill rnd r now; n = min want (trunc_rat t) in
            (n, r\<lparr>rl_last := now, rl_tokens := rnd (t - rnd (of_int n))\<rparr>)))"

fun rl_takes :: "(rat \<Rightarrow> rat) \<Rightarrow> rate_limiter \<Rightarrow> (gotime \<times> int) list \<Rightarrow> int list" where
  "rl_takes rnd r [] = []"
| "rl_takes rnd r ((now, want) # ws) = (let (n, r') = rl_take rnd r now want in n # rl_takes rnd r' ws)"

lemma trunc_rat_le: "r \<le> of_int k \<Longrightarrow> 0 \<le> k \<Longrightarrow> trunc_rat r \<le> k"
proof (cases "r \<ge> 0")
  case True
  assume "r \<le> of_int k"
  with True show ?thesis by (simp add: trunc_rat_def floor_le_iff)
next
  case False
  assume "0 \<le> k"
  have "0 \<le> \<lfloor>- r\<rfloor>" using False by simp
  moreover have "trunc_rat r = - \<lfloor>- r\<rfloor>" using False unfolding trunc_rat_def by (rule if_not_P)
  ultimately show ?thesis using \<open>0 \<le> k\<close> by linarith
qed

lemma trunc_rat_nonneg: "0 \<le> r \<Longrightarrow> 0 \<le> trunc_rat r"
  by (simp add: trunc_rat_def)

lemma trunc_rat_neg: "r < 0 \<Longrightarrow> r \<le> of_int (trunc_rat r) \<and> trunc_rat r \<le> 0"
proof -
  assume r: "r < 0"
  have "r \<le> - of_int \<lfloor>- r\<rfloor>" using of_int_floor_le [of "- r"] by linarith
  moreover have "0 \<le> \<lfloor>- r\<rfloor>" using r by simp
  moreover have "trunc_rat r = - \<lfloor>- r\<rfloor>" using r unfolding trunc_rat_def by (intro if_not_P) simp
  ultimately show ?thesis by (auto simp only: of_int_minus neg_le_0_iff_le)
qed

text \<open>Rounding to the float64 grid: monotone, idempotent, exact on 53-bit integers.\<close>

definition float_rounding :: "(rat \<Rightarrow> rat) \<Rightarrow> bool" where
  "float_rounding rnd = ((\<forall>x y. x \<le> y \<longrightarrow> rnd x \<le> rnd y) \<and> (\<forall>x. rnd (rnd x) = rnd x) \<and>
     (\<forall>k. \<bar>k\<bar> \<le> 2 ^ 53 \<longrightarrow> rnd (of_int k) = of_int k))"

lemma float_roundingD:
  assumes "float_rounding rnd"
  shows "x \<le> y \<Longrightarrow> rnd x \<le> rnd y" "rnd (rnd x) = rnd x" "\<bar>k\<bar> \<le> 2 ^ 53 \<Longrightarrow> rnd (of_int k) = of_int k"
  using assms by (auto simp: float_rounding_def)

definition limiter_ok :: "(rat \<Rightarrow> rat) \<Rightarrow> rate_limiter \<Rightarrow> bool" where
  "limiter_ok rnd r = (rl_tokens r \<le> of_int (rl_perMinute r) \<and> rnd (rl_tokens r) = rl_tokens r)"

lemma refill_ok:
  assumes "float_rounding rnd" and "limiter_ok rnd r" and "0 < rl_perMinute r" "rl_perMinute r \<le> 2 ^ 53"
  shows "refill rnd r now \<le> of_int (rl_perMinute r)" and "rnd (refill rnd r now) = refill rnd r now"
proof -
  have pm: "rnd (of_int (rl_perMinute r)) = of_int (rl_perMinute r)"
    using assms by (intro float_roundingD(3)) auto
  show "refill rnd r now \<le> of_int (rl_perMinute r)"
    using assms(2) by (simp add: refill_def limiter_ok_def pm Let_def)
  show "rnd (refill rnd r now) = refill rnd r now"
    using assms(2) by (simp add: refill_def limiter_ok_def pm Let_def float_roundingD(2) [OF assms(1)])
qed

lemma take_ok:
  assumes "float_rounding rnd" and "limiter_ok rnd r" and "0 < rl_perMinute r" "rl_perMinute r \<le> 2 ^ 53"
    and "0 < want" and "rl_take rnd r now want = (n, r')"
  shows "n \<le> want \<and> n \<le> rl_perMinute r \<and> limiter_ok rnd r' \<and> rl_perMinute r' = rl_perMinute r"
proof -
  define t where "t = refill rnd r now"
  note fr = float_roundingD [OF assms(1)]
  have t: "t \<le> of_int (rl_perMinute r)" "rnd t = t"
    using refill_ok [OF assms(1-4)] by (simp_all add: t_def)
  have n: "n = min want (trunc_rat t)" and r': "r' = r\<lparr>rl_last := now, rl_tokens := rnd (t - rnd (of_int n))\<rparr>"
    using assms(3,6) by (auto simp: rl_take_def Let_def t_def)
  have le: "n \<le> want" "n \<le> rl_perMinute r"
    using trunc_rat_le [OF t(1)] assms(3) by (auto simp: n)
  have pm: "rnd (of_int (rl_perMinute r)) = of_int (rl_perMinute r)"
    using assms(3,4) by (intro fr(3)) auto
  have "rnd (t - rnd (of_int n)) \<le> of_int (rl_perMinute r)"
  proof (cases "0 \<le> t")
    case True
    then have "0 \<le> n" using trunc_rat_nonneg assms(5) by (simp add: n)
    then have "rnd (of_int n) = of_int n" using le(2) assms(4) by (intro fr(3)) simp
    with \<open>0 \<le> n\<close> t(1) have "t - rnd (of_int n) \<le> of_int (rl_perMinute r)" by simp
    from fr(1) [OF this] pm show ?thesis by simp
  next
    case False
    then have "t \<le> of_int (trunc_rat t)" "trunc_rat t \<le> 0" using trunc_rat_neg [of t] by auto
    then have "t \<le> of_int n" using assms(5) by (simp add: n)
    from fr(1) [OF this] t(2) have "t - rnd (of_int n) \<le> of_int 0" by simp
    from fr(1) [OF this] fr(3) [of 0] have "rnd (t - rnd (of_int n)) \<le> 0" by simp
    with assms(3) show ?thesis by (meson le_less_trans less_imp_le of_int_0_less_iff)
  qed
  with le fr(2) show ?thesis by (simp add: limiter_ok_def r')
qed

lemma takes_ok:
  assumes "float_rounding rnd" and "limiter_ok rnd r" and "0 < rl_perMinute r" "rl_perMinute r \<le> 2 ^ 53"
    and "list_all (\<lambda>(t, want). 0 < want) ws"
  shows "list_all2 (\<lambda>(t, want) n. n \<le> want \<and> n \<le> rl_perMinute r) ws (rl_takes rnd r ws)"
  using assms(2-5)
proof (induction ws arbitrary: r)
  case Nil
  then show ?case by simp
next
  case (Cons w ws)
  obtain now want where w: "w = (now, want)" by (cases w)
  obtain n r' where tk: "rl_take rnd r now want = (n, r')" by (cases "rl_take rnd r now want")
  have ok: "n \<le> want \<and> n \<le> rl_perMinute r \<and> limiter_ok rnd r' \<and> rl_perMinute r' = rl_perMinute r"
    using Cons.prems w by (intro take_ok [OF assms(1) _ _ _ _ tk]) auto
  then have "list_all2 (\<lambda>(t, want) n. n \<le> want \<and> n \<le> rl_perMinute r) ws (rl_takes rnd r' ws)"
    using Cons.IH [of r'] Cons.prems by simp
  with ok show ?case by (simp add: w tk)
qed

section \<open>Properties\<close>

text \<open>A cached gate over the window, Ollama or datawatch gate never answers with a stale
  verdict: every answer of a sequence of queries is the verdict the inner gate gave at one of
  the queries so far, now or less than \<open>ttl\<close> earlier on the clock.\<close>

theorem cached_gate_is_fresh:
  assumes "stateless g" and "i < length qs"
  shows "fresh_verdict g ttl (take (Suc i) qs) (snd (qs ! i)) (gate_queries qs (cached g ttl) ! i)"
  using cached_queries [OF assms(1) _ assms(2), of zero_time "[]" False "[]" ttl] by (simp add: cached_def)

theorem cached_gate_is_fresh_witness:
  "let e = \<lparr>ge_clock = (3, 0), ge_ollama = Unreachable, ge_datawatch = Unreachable, ge_fmt_gb = (\<lambda>_. [])\<rparr>;
       qs = [(e, 5), (e, 6)]
   in fresh_verdict (WindowGate 0 240) 30 (take (Suc 1) qs) (snd (qs ! 1))
        (gate_queries qs (cached (WindowGate 0 240) 30) ! 1)"
  unfolding Let_def by (rule cached_gate_is_fresh) simp_all

text \<open>Gates fail open: when both the Ollama and the datawatch service cannot be reached
  or understood, only the quiet-hours window can refuse backfill.\<close>

theorem unreachable_services_allow_backfill:
  assumes "\<And>v. ge_ollama e \<noteq> Answer v" and "\<And>v. ge_datawatch e \<noteq> Answer v"
    and "stateless g" and "\<not> fst (fst (gate_allow e now g))"
  shows "\<exists>start stop. g = WindowGate start stop \<and> \<not> in_window start stop (fst (ge_clock e) * 60 + snd (ge_clock e))"
proof (cases g)
  case (WindowGate a b)
  with assms(4) show ?thesis by (simp add: window_allow_def split: if_splits)
next
  case (OllamaGate ours mx)
  with assms(4) ollama.fails_open assms(1) show ?thesis by simp
next
  case (DatawatchGate ps)
  with assms(4) datawatch.fails_open assms(2) show ?thesis by simp
next
  case (CachedGate h ttl t0 ok why)
  with assms(3) show ?thesis by simp
qed

theorem unreachable_services_allow_backfill_witness:
  "\<exists>start stop. WindowGate 1320 360 = WindowGate start stop \<and> \<not> in_window start stop (fst (12, 0) * 60 + snd (12, 0))"
  using unreachable_services_allow_backfill
    [where g = "WindowGate 1320 360" and now = 0
      and e = "\<lparr>ge_clock = (12, 0), ge_ollama = Unreachable, ge_datawatch = Unreadable 500, ge_fmt_gb = (\<lambda>_. [])\<rparr>"]
  by (simp add: window_allow_def in_window_def)

text \<open>The token bucket never admits more than was asked for nor more than a minute's
  worth in one batch, however the clock moves and with float64 rounding in every step.\<close>

theorem rate_limiter_bounds:
  assumes "float_rounding rnd" and "0 < pm" and "pm \<le> 2 ^ 53" and "list_all (\<lambda>(t, want). 0 < want) ws"
  shows "list_all2 (\<lambda>(t, want) n. n \<le> want \<and> n \<le> pm) ws (rl_takes rnd (new_rate_limiter rnd pm) ws)"
proof -
  have "rnd (of_int pm) = of_int pm" using assms(2,3) by (intro float_roundingD(3) [OF assms(1)]) auto
  then have "limiter_ok rnd (new_rate_limiter rnd pm)"
    by (simp add: limiter_ok_def new_rate_limiter_def)
  from takes_ok [OF assms(1) this] assms(2-4) show ?thesis by (simp add: new_rate_limiter_def)
qed

theorem rate_limiter_bounds_witness:
  "list_all2 (\<lambda>(t, want) n. n \<le> want \<and> n \<le> 30) [(0, 10), (ns_per_min, 100)]
     (rl_takes id (new_rate_limiter id 30) [(0, 10), (ns_per_min, 100)])"
  by (rule rate_limiter_bounds) (simp_all add: float_rounding_def)

end
