(* ===== verification/Enrich.thy ===== *)
theory Enrich
  imports Gates Cache_Inv Bus
begin

text \<open>
  The enrichment pipeline (\<open>internal/enrichment/pipeline.go\<close>, \<open>providers.go\<close>, \<open>cleaner.go\<close>):
  selection by lane, the outcome of one message, retries and backoff, manual triggers and
  the idle classifier. The embedder and the classifier are functions of the environment
  (one answer per message and text), built by the provider definitions from HTTP
  responses; JSON decoding is a parameter. Vectors are lists of the 32-bit patterns of
  their float32 values. The goroutines of one lane group run in some order of completion,
  which is a parameter of \<open>process_group\<close>; semaphores only bound how many run at a time.
\<close>

section \<open>Configuration\<close>

record enrich_config =
  ec_Enabled :: bool
  ec_OllamaURL :: string
  ec_EmbedModel :: string
  ec_LLMModel :: string
  ec_BatchSize :: int
  ec_Embed_URL :: string
  ec_Embed_Model :: string
  ec_Classify_Provider :: string
  ec_Classify_URL :: string
  ec_Classify_Model :: string
  ec_Classify_DatawatchLLM :: string
  ec_Concurrency :: int
  ec_BackfillPerMinute :: int
  ec_MaxAttempts :: int
  ec_BackoffMaxSeconds :: int
  ec_BackfillWindow :: string
  ec_Yield_Enabled :: bool
  ec_Yield_MaxForeignGB :: rat
  ec_Yield_DatawatchPools :: "string list"

fun first_non_empty :: "string list \<Rightarrow> string" where
  "first_non_empty [] = []"
| "first_non_empty (v # vs) = (if v \<noteq> [] then v else first_non_empty vs)"

definition embed_url :: "enrich_config \<Rightarrow> string" where
  "embed_url c = first_non_empty [ec_Embed_URL c, ec_OllamaURL c]"

definition embed_model_name :: "enrich_config \<Rightarrow> string" where
  "embed_model_name c = first_non_empty [ec_Embed_Model c, ec_EmbedModel c]"

definition classify_model :: "enrich_config \<Rightarrow> string" where
  "classify_model c = first_non_empty [ec_Classify_Model c, ec_LLMModel c]"

definition classify_provider :: "enrich_config \<Rightarrow> string" where
  "classify_provider c = first_non_empty [ec_Classify_Provider c, ''ollama'']"

section \<open>Providers\<close>

record provider_error =
  pe_Provider :: string
  pe_Status :: int
  pe_Transient :: bool
  pe_Err :: string

definition pe_text :: "provider_error \<Rightarrow> string" where
  "pe_text e = (if pe_Status e \<noteq> 0
     then pe_Provider e @ '': HTTP '' @ show_int (pe_Status e) @ '': '' @ pe_Err e
     else pe_Provider e @ '': '' @ pe_Err e)"

text \<open>The outcome of the HTTP exchange: a request that cannot be built, a transport error
  (with the state of the context), or a status and a body of at most 8 MiB.\<close>

datatype http_outcome = BadRequest string | TransportError bool string | HttpResponse int string

definition post_json :: "string \<Rightarrow> (string \<Rightarrow> string + 'a) \<Rightarrow> http_outcome \<Rightarrow> provider_error + 'a" where
  "post_json provider decode r =
     (case r of
        BadRequest err \<Rightarrow> Inl \<lparr>pe_Provider = provider, pe_Status = 0, pe_Transient = False, pe_Err = err\<rparr>
      | TransportError cancelled err \<Rightarrow>
          Inl \<lparr>pe_Provider = provider, pe_Status = 0, pe_Transient = (\<not> cancelled), pe_Err = err\<rparr>
      | HttpResponse status body \<Rightarrow>
          (if status div 100 \<noteq> 2
           then Inl \<lparr>pe_Provider = provider, pe_Status = status,
                  pe_Transient = (status = 429 \<or> status \<ge> 500), pe_Err = trim_space body\<rparr>
           else (case decode body of
                   Inl err \<Rightarrow> Inl \<lparr>pe_Provider = provider, pe_Status = status, pe_Transient = False,
                               pe_Err = ''decode response: '' @ err\<rparr>
                 | Inr v \<Rightarrow> Inr v)))"

definition ollama_embed ::
  "string \<Rightarrow> (string \<Rightarrow> string + 32 word list) \<Rightarrow> http_outcome \<Rightarrow> provider_error + 32 word list" where
  "ollama_embed model decode r =
     (case post_json (''ollama:'' @ model) decode r of
        Inl e \<Rightarrow> Inl e
      | Inr v \<Rightarrow> (if v = [] then Inl \<lparr>pe_Provider = ''ollama:'' @ model, pe_Status = 0,
                     pe_Transient = False, pe_Err = ''empty embedding''\<rparr> else Inr v))"

definition ollama_classify :: "string \<Rightarrow> (string \<Rightarrow> string + string) \<Rightarrow> http_outcome \<Rightarrow> provider_error + string" where
  "ollama_classify model decode r = post_json (''ollama:'' @ model) decode r"

definition datawatch_classify :: "string \<Rightarrow> (string \<Rightarrow> string + string) \<Rightarrow> http_outcome \<Rightarrow> provider_error + string" where
  "datawatch_classify llm decode r = post_json (''datawatch:'' @ llm) decode r"

section \<open>Results\<close>

record enrich_result =
  er_MessageID :: nat
  er_Hall :: string
  er_Wing :: string
  er_Room :: string
  er_Embedding :: "32 word list"

definition float32s_to_blob :: "32 word list \<Rightarrow> 8 word list" where
  "float32s_to_blob vs =
     concat (map (\<lambda>w. [ucast w, ucast (drop_bit 8 w), ucast (drop_bit 16 w), ucast (drop_bit 24 w)]) vs)"

fun blob_to_float32s :: "8 word list \<Rightarrow> 32 word list" where
  "blob_to_float32s (a # b # c # d # r) =
     or (ucast a) (or (push_bit 8 (ucast b)) (or (push_bit 16 (ucast c)) (push_bit 24 (ucast d)))) #
     blob_to_float32s r"
| "blob_to_float32s _ = []"

definition halls :: "string list" where
  "halls = [''transactional'', ''conversation'', ''newsletter'', ''notification'', ''alert'', ''personal'']"

definition clean_hall :: "string \<Rightarrow> string" where
  "clean_hall h = (let h = to_lower (trim_space h) in if h \<notin> set halls then [] else h)"

definition placeholder_tags :: "string list" where
  "placeholder_tags = [''project or context'', ''project'', ''context'', ''topic'', ''unclear'', ''none'',
     ''n/a'', ''unknown'', ''empty string'']"

definition clean_tag :: "string \<Rightarrow> string" where
  "clean_tag t0 =
     (let t = trim_space t0 in
      if CHR ''<'' \<in> set t \<or> CHR ''>'' \<in> set t \<or> str_contains (to_lower t) ''if unclear''
         \<or> to_lower t \<in> set placeholder_tags
      then [] else t)"

text \<open>\<open>decode\<close> is \<open>json.Unmarshal\<close> into the struct with the fields hall, wing and room.\<close>

definition parse_classification ::
  "(string \<Rightarrow> (string \<times> string \<times> string) option) \<Rightarrow> string \<Rightarrow> enrich_result \<Rightarrow> enrich_result" where
  "parse_classification decode raw r =
     (case (str_index raw ''{'', last_index_char raw (CHR ''}'')) of
        (Some start, Some stop) \<Rightarrow>
          (if stop \<le> start then r
           else (case decode (take (stop + 1 - start) (drop start raw)) of
                   None \<Rightarrow> r
                 | Some (h, w, ro) \<Rightarrow> r\<lparr>er_Hall := clean_hall h, er_Wing := clean_tag w, er_Room := clean_tag ro\<rparr>))
      | _ \<Rightarrow> r)"

definition nl :: string where "nl = [CHR 0x0A]"

definition classification_prompt :: "string \<Rightarrow> string \<Rightarrow> string \<Rightarrow> string \<Rightarrow> string" where
  "classification_prompt subject body from_addr from_name =
     ''Classify this email. Respond ONLY with valid JSON, no other text.'' @ nl @ nl @
     ''Email:'' @ nl @
     ''From: '' @ from_name @ '' <'' @ from_addr @ ''>'' @ nl @
     ''Subject: '' @ subject @ nl @
     ''Body (snippet): '' @ take 300 body @ nl @ nl @
     ''Respond with JSON with three string fields:'' @ nl @
     ''- hall: one of transactional, conversation, newsletter, notification, alert, personal'' @ nl @
     ''- wing: the project or context this email belongs to, or '' @ [CHR 0x22, CHR 0x22] @ '' if unclear'' @ nl @
     ''- room: its topic in a few words, or '' @ [CHR 0x22, CHR 0x22] @ '' if unclear'' @ nl @
     ''Example: {'' @ [CHR 0x22] @ ''hall'' @ [CHR 0x22] @ '':'' @ [CHR 0x22] @ ''notification'' @ [CHR 0x22] @
       '','' @ [CHR 0x22] @ ''wing'' @ [CHR 0x22] @ '':'' @ [CHR 0x22, CHR 0x22] @ '','' @ [CHR 0x22] @ ''room'' @
       [CHR 0x22] @ '':'' @ [CHR 0x22] @ ''password reset'' @ [CHR 0x22] @ ''}''"

section \<open>State and selection\<close>

datatype enrich_payload = EnrichOk enrich_result | EnrichErr nat string

record pipeline =
  pl_db :: cache_db
  pl_gates :: "load_gate list"
  pl_backfill :: rate_limiter
  pl_failures :: nat
  pl_backoffUntil :: gotime
  pl_paused :: string
  pl_lastErr :: string
  pl_trigger :: "int option"
  pl_events :: "enrich_payload event list"

record enrich_env =
  ee_cfg :: enrich_config
  ee_now :: gotime
  ee_fail_now :: "nat \<Rightarrow> gotime"     \<comment> \<open>the clock when the item with this queue id fails\<close>
  ee_gates :: gate_env
  ee_rnd :: "rat \<Rightarrow> rat"
  ee_clean :: "string \<Rightarrow> string \<Rightarrow> string \<times> string"
  ee_embed :: "nat \<Rightarrow> string \<Rightarrow> provider_error + 32 word list"
  ee_classify :: "nat \<Rightarrow> string \<Rightarrow> provider_error + string"
  ee_decode :: "string \<Rightarrow> (string \<times> string \<times> string) option"
  ee_order :: "nat list \<Rightarrow> nat list"  \<comment> \<open>order of completion of the started queue ids\<close>

definition nop_clean :: "string \<Rightarrow> string \<Rightarrow> string \<times> string" where
  "nop_clean subject body = (subject, body)"

definition lane_new :: nat where "lane_new = 0"
definition lane_backfill :: nat where "lane_backfill = 1"

record queue_item =
  qi_queueID :: nat
  qi_messageID :: nat
  qi_lane :: nat
  qi_attempts :: nat
  qi_subject :: string
  qi_body :: string
  qi_fromAddr :: string
  qi_fromName :: string

definition item_of :: "queue_row \<Rightarrow> msg_row \<Rightarrow> queue_item" where
  "item_of q m = \<lparr>qi_queueID = q_id q, qi_messageID = q_message_id q, qi_lane = q_lane q,
     qi_attempts = q_attempts q, qi_subject = m_subject m, qi_body = m_body_text m,
     qi_fromAddr = m_from_addr m, qi_fromName = m_from_name m\<rparr>"

definition joined :: "cache_db \<Rightarrow> queue_row \<Rightarrow> queue_item list" where
  "joined d q = (case find (\<lambda>m. m_id m = q_message_id q) (messages d) of None \<Rightarrow> [] | Some m \<Rightarrow> [item_of q m])"

definition select_lane :: "nat \<Rightarrow> nat \<Rightarrow> cache_db \<Rightarrow> queue_item list" where
  "select_lane lane limit d =
     take limit (concat (map (joined d)
       (sort_key (\<lambda>q. (q_queued_at q, q_id q))
          (filter (\<lambda>q. q_status q = QPending \<and> q_lane q = lane) (queue d)))))"

text \<open>Every gate until the first refusal.\<close>

fun consult :: "gate_env \<Rightarrow> gotime \<Rightarrow> load_gate list \<Rightarrow> string \<times> load_gate list" where
  "consult e now [] = ([], [])"
| "consult e now (g # gs) =
     (let ((ok, why), g') = gate_allow e now g in
      if \<not> ok then (gate_name g @ '': '' @ why, g' # gs)
      else (let (reason, gs') = consult e now gs in (reason, g' # gs')))"

definition backfill_allowed :: "gate_env \<Rightarrow> gotime \<Rightarrow> pipeline \<Rightarrow> bool \<times> pipeline" where
  "backfill_allowed e now p =
     (let (reason, gs) = consult e now (pl_gates p) in
      (reason = [], p\<lparr>pl_gates := gs, pl_paused := reason\<rparr>))"

section \<open>One message\<close>

definition set_queue :: "nat \<Rightarrow> (queue_row \<Rightarrow> queue_row) \<Rightarrow> cache_db \<Rightarrow> cache_db" where
  "set_queue i f d = d\<lparr>queue := map (\<lambda>q. if q_id q = i then f q else q) (queue d)\<rparr>"

definition set_msg :: "nat \<Rightarrow> (msg_row \<Rightarrow> msg_row) \<Rightarrow> cache_db \<Rightarrow> cache_db" where
  "set_msg i f d = d\<lparr>messages := map (\<lambda>m. if m_id m = i then f m else m) (messages d)\<rparr>"

definition put_vector :: "vec_row \<Rightarrow> cache_db \<Rightarrow> cache_db" where
  "put_vector v d =
     (if list_ex (\<lambda>w. v_message_id w = v_message_id v) (vectors d)
      then d\<lparr>vectors := map (\<lambda>w. if v_message_id w = v_message_id v then v else w) (vectors d)\<rparr>
      else if list_ex (\<lambda>m. m_id m = v_message_id v) (messages d)
      then d\<lparr>vectors := vectors d @ [v]\<rparr>
      else d)"

definition vector_saves :: "nat \<Rightarrow> cache_db \<Rightarrow> bool" where
  "vector_saves i d = (list_ex (\<lambda>w. v_message_id w = i) (vectors d) \<or> list_ex (\<lambda>m. m_id m = i) (messages d))"

definition retag :: "enrich_result \<Rightarrow> msg_row \<Rightarrow> msg_row" where
  "retag r m = m\<lparr>m_hall := (if er_Hall r = [] then m_hall m else er_Hall r),
                 m_wing := (if er_Wing r = [] then m_wing m else er_Wing r),
                 m_room := (if er_Room r = [] then m_room m else er_Room r)\<rparr>"

record enrich_error =
  ee_text :: string
  ee_transient :: bool

definition enrich_msg :: "enrich_env \<Rightarrow> queue_item \<Rightarrow> enrich_error + enrich_result" where
  "enrich_msg e it =
     (let (subject, body) = ee_clean e (qi_subject it) (qi_body it);
          text = (if body \<noteq> [] then subject @ nl @ take 500 body else subject);
          result = \<lparr>er_MessageID = qi_messageID it, er_Hall = [], er_Wing = [], er_Room = [], er_Embedding = []\<rparr>
      in case ee_embed e (qi_messageID it) text of
           Inl pe \<Rightarrow> Inl \<lparr>ee_text = ''embed: '' @ pe_text pe, ee_transient = pe_Transient pe\<rparr>
         | Inr vec \<Rightarrow>
             (let result = result\<lparr>er_Embedding := vec\<rparr> in
              case ee_classify e (qi_messageID it)
                     (classification_prompt subject body (qi_fromAddr it) (qi_fromName it)) of
                Inl pe \<Rightarrow> (if pe_Transient pe
                   then Inl \<lparr>ee_text = ''classify: '' @ pe_text pe, ee_transient = True\<rparr>
                   else Inr result)
              | Inr raw \<Rightarrow> Inr (parse_classification (ee_decode e) raw result)))"

text \<open>Saving the vector of a message that was deleted meanwhile violates the foreign key.\<close>

definition apply_result :: "enrich_config \<Rightarrow> enrich_result \<Rightarrow> cache_db \<Rightarrow> enrich_error option \<times> cache_db" where
  "apply_result c r d =
     (if er_Embedding r \<noteq> [] \<and> \<not> vector_saves (er_MessageID r) d
      then (Some \<lparr>ee_text = ''save vector: FOREIGN KEY constraint failed'', ee_transient = False\<rparr>, d)
      else (let d1 = (if er_Embedding r = [] then d
                      else put_vector \<lparr>v_message_id = er_MessageID r, v_vector = float32s_to_blob (er_Embedding r),
                             v_model = ec_EmbedModel c, v_dims = length (er_Embedding r)\<rparr> d);
                d2 = (if er_Hall r \<noteq> [] \<or> er_Wing r \<noteq> [] \<or> er_Room r \<noteq> []
                      then set_msg (er_MessageID r) (retag r) d1 else d1)
            in (None, d2)))"

definition backoff_delay :: "enrich_config \<Rightarrow> nat \<Rightarrow> int" where
  "backoff_delay c failures =
     (let d = 2 ^ min (failures - 1) 16 * 5 * ns_per_sec;
          limit = dur64 (max (ec_BackoffMaxSeconds c) 1 * ns_per_sec)
      in if d > limit then limit else d)"

definition emit_enrich :: "event_type \<Rightarrow> enrich_payload \<Rightarrow> pipeline \<Rightarrow> pipeline" where
  "emit_enrich t x p = p\<lparr>pl_events := pl_events p @ [\<lparr>ev_Type = t, ev_Account = [], ev_Payload = x\<rparr>]\<rparr>"

definition max_attempts :: "enrich_config \<Rightarrow> int" where
  "max_attempts c = max (ec_MaxAttempts c) 1"

definition fail_db :: "enrich_config \<Rightarrow> queue_item \<Rightarrow> string \<Rightarrow> cache_db \<Rightarrow> cache_db" where
  "fail_db c it err d =
     (if int (qi_attempts it) + 1 \<ge> max_attempts c
      then set_msg (qi_messageID it) (\<lambda>m. m\<lparr>m_status := StError, m_error := err\<rparr>)
             (set_queue (qi_queueID it) (\<lambda>q. q\<lparr>q_status := QError, q_last_error := err\<rparr>) d)
      else set_queue (qi_queueID it) (\<lambda>q. q\<lparr>q_status := QPending, q_last_error := err\<rparr>) d)"

definition enrich_fail :: "enrich_env \<Rightarrow> queue_item \<Rightarrow> enrich_error \<Rightarrow> pipeline \<Rightarrow> pipeline" where
  "enrich_fail e it err p0 =
     (let p1 = p0\<lparr>pl_db := fail_db (ee_cfg e) it (ee_text err) (pl_db p0)\<rparr>;
          p2 = (if int (qi_attempts it) + 1 \<ge> max_attempts (ee_cfg e)
                then emit_enrich EventEnrichmentError (EnrichErr (qi_messageID it) (ee_text err)) p1 else p1);
          p3 = p2\<lparr>pl_lastErr := ee_text err\<rparr>
      in if \<not> ee_transient err then p3
         else (let n = Suc (pl_failures p3);
                   until = ee_fail_now e (qi_queueID it) + backoff_delay (ee_cfg e) n
               in p3\<lparr>pl_failures := n,
                     pl_backoffUntil := (if until > pl_backoffUntil p3 then until else pl_backoffUntil p3)\<rparr>))"

definition enrich_succeed :: "pipeline \<Rightarrow> pipeline" where
  "enrich_succeed p = p\<lparr>pl_failures := 0, pl_backoffUntil := zero_time\<rparr>"

definition done_db :: "queue_item \<Rightarrow> cache_db \<Rightarrow> cache_db" where
  "done_db it d =
     set_msg (qi_messageID it) (\<lambda>m. m\<lparr>m_status := StDone, m_error := []\<rparr>)
       (set_queue (qi_queueID it) (\<lambda>q. q\<lparr>q_status := QDone, q_processed_at := Some (db_now d), q_last_error := []\<rparr>) d)"

definition handle_item :: "enrich_env \<Rightarrow> queue_item \<Rightarrow> pipeline \<Rightarrow> bool \<times> pipeline" where
  "handle_item e it p =
     (case enrich_msg e it of
        Inl err \<Rightarrow> (False, enrich_fail e it err p)
      | Inr r \<Rightarrow>
          (case apply_result (ee_cfg e) r (pl_db p) of
             (Some err, d) \<Rightarrow> (False, enrich_fail e it err (p\<lparr>pl_db := d\<rparr>))
           | (None, d) \<Rightarrow>
               (True, emit_enrich EventEnrichmentDone (EnrichOk r)
                  (enrich_succeed p)\<lparr>pl_db := done_db it d\<rparr>)))"

section \<open>A batch\<close>

definition mark_db :: "queue_item \<Rightarrow> cache_db \<Rightarrow> cache_db" where
  "mark_db it = set_queue (qi_queueID it) (\<lambda>q. q\<lparr>q_status := QProcessing, q_attempts := Suc (q_attempts q)\<rparr>)"

definition process_group :: "enrich_env \<Rightarrow> queue_item list \<Rightarrow> pipeline \<Rightarrow> nat \<times> pipeline" where
  "process_group e items p =
     (let p = p\<lparr>pl_db := fold mark_db items (pl_db p)\<rparr>;
          run = concat (map (\<lambda>i. filter (\<lambda>it. qi_queueID it = i) items) (ee_order e (map qi_queueID items)))
      in fold (\<lambda>it (n, p). let (ok, p) = handle_item e it p in (if ok then n + 1 else n, p)) run (0, p))"

definition process_items :: "enrich_env \<Rightarrow> queue_item list \<Rightarrow> pipeline \<Rightarrow> nat \<times> pipeline" where
  "process_items e items p =
     (let (n, p) = process_group e (filter (\<lambda>it. qi_lane it = lane_new) items) p;
          (m, p) = process_group e (filter (\<lambda>it. qi_lane it = lane_backfill) items) p
      in (n + m, p))"

text \<open>The selection of \<open>runOnce\<close>, with the new state of gates and token bucket.\<close>

definition batch_size :: "enrich_config \<Rightarrow> int \<Rightarrow> int" where
  "batch_size c forced = (if forced > 0 then forced else max (ec_BatchSize c) 1)"

text \<open>How many backfill items the batch may take of the room left: a forced batch is not
  rate-limited.\<close>

definition backfill_quota :: "enrich_env \<Rightarrow> int \<Rightarrow> int \<Rightarrow> pipeline \<Rightarrow> int \<times> pipeline" where
  "backfill_quota e forced room p =
     (if forced > 0 then (room, p)
      else (let (n, rl) = rl_take (ee_rnd e) (pl_backfill p) (ee_now e) room in (n, p\<lparr>pl_backfill := rl\<rparr>)))"

definition select_batch :: "enrich_env \<Rightarrow> int \<Rightarrow> pipeline \<Rightarrow> queue_item list \<times> pipeline" where
  "select_batch e forced p =
     (let batch = batch_size (ee_cfg e) forced;
          items = select_lane lane_new (nat batch) (pl_db p);
          room = batch - int (length items)
      in if room \<le> 0 then (items, p)
         else (let (allowed, p) = (if forced > 0 then (True, p) else backfill_allowed (ee_gates e) (ee_now e) p) in
               if \<not> allowed then (items, p)
               else (let (n, p) = backfill_quota e forced room p
                     in if n > 0 then (items @ select_lane lane_backfill (nat n) (pl_db p), p) else (items, p))))"

definition run_once :: "enrich_env \<Rightarrow> int \<Rightarrow> pipeline \<Rightarrow> nat \<times> pipeline" where
  "run_once e forced p =
     (if time_sub (pl_backoffUntil p) (ee_now e) > 0 then (0, p)
      else (let (items, p) = select_batch e forced p in
            if items = [] then (0, p) else process_items e items p))"

section \<open>Running\<close>

definition trigger :: "int \<Rightarrow> pipeline \<Rightarrow> bool \<times> pipeline" where
  "trigger limit p = (case pl_trigger p of
       None \<Rightarrow> (True, p\<lparr>pl_trigger := Some (max limit 1)\<rparr>)
     | Some _ \<Rightarrow> (False, p))"

definition requeue_interrupted :: "cache_db \<Rightarrow> cache_db" where
  "requeue_interrupted d =
     d\<lparr>queue := map (\<lambda>q. if q_status q = QProcessing then q\<lparr>q_status := QPending\<rparr> else q) (queue d)\<rparr>"

text \<open>The select of \<open>Run\<close>: each round is a tick or a trigger received from the channel, with
  the environment of that moment; \<open>Trigger\<close> calls may happen before a round.\<close>

datatype round = Tick | Triggered | TriggerCall int

fun run_rounds :: "(enrich_env \<times> round) list \<Rightarrow> pipeline \<Rightarrow> pipeline" where
  "run_rounds [] p = p"
| "run_rounds ((e, Tick) # rs) p = run_rounds rs (snd (run_once e 0 p))"
| "run_rounds ((e, Triggered) # rs) p =
     (case pl_trigger p of
        None \<Rightarrow> run_rounds rs p
      | Some k \<Rightarrow> run_rounds rs (snd (run_once e k (p\<lparr>pl_trigger := None\<rparr>))))"
| "run_rounds ((e, TriggerCall k) # rs) p = run_rounds rs (snd (trigger k p))"

definition pipeline_run :: "enrich_config \<Rightarrow> (enrich_env \<times> round) list \<Rightarrow> pipeline \<Rightarrow> pipeline" where
  "pipeline_run c rounds p =
     (if \<not> ec_Enabled c then p else run_rounds rounds (p\<lparr>pl_db := requeue_interrupted (pl_db p)\<rparr>))"

definition classify_when_idle :: "enrich_env \<Rightarrow> string \<Rightarrow> pipeline \<Rightarrow> (string + string) \<times> pipeline" where
  "classify_when_idle e prompt p =
     (let gated = ''classifier busy: backfill gates closed or provider backing off'' in
      if pl_backoffUntil p > ee_now e then (Inl gated, p)
      else (let (ok, p) = backfill_allowed (ee_gates e) (ee_now e) p in
            if \<not> ok then (Inl gated, p)
            else (case ee_classify e 0 prompt of Inl pe \<Rightarrow> (Inl (pe_text pe), p) | Inr s \<Rightarrow> (Inr s, p))))"

definition new_pipeline :: "(rat \<Rightarrow> rat) \<Rightarrow> enrich_config \<Rightarrow> cache_db \<Rightarrow> pipeline" where
  "new_pipeline rnd c d =
     \<lparr>pl_db = d,
      pl_gates =
        (case parse_window (ec_BackfillWindow c) of
           Some (Some (start, stop)) \<Rightarrow> (if start \<ge> 0 then [WindowGate start stop] else [])
         | _ \<Rightarrow> []) @
        (if ec_Yield_Enabled c
         then [cached (OllamaGate [embed_model_name c, classify_model c]
                 (trunc_rat (ec_Yield_MaxForeignGB c * 2 ^ 30))) (30 * ns_per_sec)]
         else []),
      pl_backfill = new_rate_limiter rnd (ec_BackfillPerMinute c),
      pl_failures = 0, pl_backoffUntil = zero_time, pl_paused = [], pl_lastErr = [], pl_trigger = None,
      pl_events = []\<rparr>"

definition with_datawatch :: "string \<Rightarrow> enrich_config \<Rightarrow> pipeline \<Rightarrow> pipeline" where
  "with_datawatch api_url c p =
     (if api_url = [] \<or> \<not> ec_Yield_Enabled c then p
      else (let pools = ec_Yield_DatawatchPools c @
                  (if classify_provider c = ''datawatch'' then [''llm:'' @ ec_Classify_DatawatchLLM c] else [])
            in if pools = [] then p
               else p\<lparr>pl_gates := pl_gates p @ [cached (DatawatchGate pools) (30 * ns_per_sec)]\<rparr>))"

record enrich_stats =
  es_pending :: "int \<times> int"
  es_processing :: nat
  es_done :: nat
  es_errors :: nat
  es_duplicates :: nat
  es_paused :: string
  es_failures :: nat
  es_lastError :: string

definition count_queue :: "(queue_row \<Rightarrow> bool) \<Rightarrow> cache_db \<Rightarrow> nat" where
  "count_queue P d = length (filter P (queue d))"

definition pipeline_stats :: "pipeline \<Rightarrow> enrich_stats" where
  "pipeline_stats p =
     (let d = pl_db p in
      \<lparr>es_pending = (int (count_queue (\<lambda>q. q_status q = QPending \<and> q_lane q = lane_new) d),
                     int (count_queue (\<lambda>q. q_status q = QPending \<and> q_lane q = lane_backfill) d)),
       es_processing = count_queue (\<lambda>q. q_status q = QProcessing) d,
       es_done = count_queue (\<lambda>q. q_status q = QDone) d,
       es_errors = count_queue (\<lambda>q. q_status q = QError) d,
       es_duplicates = length (filter (\<lambda>m. m_status m = StDuplicate) (messages d)),
       es_paused = pl_paused p, es_failures = pl_failures p, es_lastError = pl_lastErr p\<rparr>)"

end
