(* ===== verification/Enrich_Inv.thy ===== *)
theory Enrich_Inv
  imports Enrich
begin

text \<open>
  Invariants of the enrichment pipeline. The locale \<open>pipeline_inv\<close> is the contract of the
  table updates the pipeline makes: a predicate of the database that they keep is kept by
  a batch, by a run of any number of rounds and by every failure in between.
\<close>

lemma emit_enrich_sel [simp]:
  "pl_db (emit_enrich t x p) = pl_db p" "pl_failures (emit_enrich t x p) = pl_failures p"
  "pl_backoffUntil (emit_enrich t x p) = pl_backoffUntil p"
  by (simp_all add: emit_enrich_def)

lemma enrich_succeed_sel [simp]:
  "pl_db (enrich_succeed p) = pl_db p" "pl_failures (enrich_succeed p) = 0"
  "pl_backoffUntil (enrich_succeed p) = zero_time"
  by (simp_all add: enrich_succeed_def)

lemma enrich_fail_db [simp]:
  "pl_db (enrich_fail e it err p) = fail_db (ee_cfg e) it (ee_text err) (pl_db p)"
  by (simp add: enrich_fail_def Let_def)

lemma backfill_allowed_db [simp]: "pl_db (snd (backfill_allowed g now p)) = pl_db p"
  by (simp add: backfill_allowed_def Let_def split_beta)

lemma backfill_quota_db [simp]: "pl_db (snd (backfill_quota e forced room p)) = pl_db p"
  by (simp add: backfill_quota_def Let_def split_beta)

lemma select_batch_db [simp]: "pl_db (snd (select_batch e forced p)) = pl_db p"
  by (simp add: select_batch_def Let_def split_beta)

definition same_msg :: "(msg_row \<Rightarrow> msg_row) \<Rightarrow> bool" where
  "same_msg f = (\<forall>m. msg_skel (f m) = msg_skel m)"

definition same_queue :: "(queue_row \<Rightarrow> queue_row) \<Rightarrow> bool" where
  "same_queue f = (\<forall>q. queue_skel (f q) = queue_skel q)"

lemma same_updates [simp]:
  "same_queue (\<lambda>q. q\<lparr>q_status := x\<rparr>)"
  "same_queue (\<lambda>q. q\<lparr>q_status := x, q_attempts := Suc (q_attempts q)\<rparr>)"
  "same_queue (\<lambda>q. q\<lparr>q_status := x, q_last_error := y\<rparr>)"
  "same_queue (\<lambda>q. q\<lparr>q_status := x, q_processed_at := z, q_last_error := y\<rparr>)"
  "same_msg (\<lambda>m. m\<lparr>m_status := w, m_error := y\<rparr>)" "same_msg (retag r)"
  by (simp_all add: same_queue_def same_msg_def queue_skel_def msg_skel_def row_key_def retag_def)

locale pipeline_inv =
  fixes P :: "cache_db \<Rightarrow> bool"
  assumes keeps_queue: "same_queue f \<Longrightarrow> P d \<Longrightarrow> P (set_queue i f d)"
    and keeps_msg: "same_msg g \<Longrightarrow> P d \<Longrightarrow> P (set_msg i g d)"
    and keeps_vector: "P d \<Longrightarrow> P (put_vector v d)"
    and keeps_requeue: "P d \<Longrightarrow> P (requeue_interrupted d)"
begin

lemma mark_keeps: "P d \<Longrightarrow> P (mark_db it d)"
  by (simp add: mark_db_def keeps_queue)

lemma fail_keeps: "P d \<Longrightarrow> P (fail_db c it err d)"
  by (simp add: fail_db_def keeps_queue keeps_msg)

lemma done_keeps: "P d \<Longrightarrow> P (done_db it d)"
  by (simp add: done_db_def keeps_queue keeps_msg)

lemma apply_keeps: "P d \<Longrightarrow> P (snd (apply_result c r d))"
  by (simp add: apply_result_def Let_def keeps_msg keeps_vector)

lemma handle_keeps: "P (pl_db p) \<Longrightarrow> P (pl_db (snd (handle_item e it p)))"
  using apply_keeps [of "pl_db p" "ee_cfg e"]
  by (auto simp: handle_item_def fail_keeps split: sum.split prod.split option.split intro!: done_keeps fail_keeps)
    (metis snd_conv)+

lemma group_keeps: "P (pl_db p) \<Longrightarrow> P (pl_db (snd (process_group e items p)))"
proof -
  assume p: "P (pl_db p)"
  have "P (fold mark_db items (pl_db p))"
    by (rule fold_preserves [where P = P]) (simp_all add: mark_keeps p)
  then show ?thesis
    unfolding process_group_def Let_def
    by (intro fold_preserves [where P = "\<lambda>np. P (pl_db (snd np))"])
      (auto simp: split_beta intro: handle_keeps)
qed

lemma run_once_keeps: "P (pl_db p) \<Longrightarrow> P (pl_db (snd (run_once e forced p)))"
proof -
  assume "P (pl_db p)"
  then have "P (pl_db (snd (select_batch e forced p)))" by simp
  then show ?thesis
    by (auto simp: run_once_def process_items_def Let_def split_beta intro!: group_keeps)
qed

lemma trigger_keeps: "P (pl_db p) \<Longrightarrow> P (pl_db (snd (trigger k p)))"
  by (simp add: trigger_def split: option.split)

lemma rounds_keep: "P (pl_db p) \<Longrightarrow> P (pl_db (run_rounds rs p))"
proof (induction rs p rule: run_rounds.induct)
  case (3 e rs p)
  then show ?case using run_once_keeps by (auto split: option.split)
qed (auto simp: run_once_keeps trigger_keeps)

lemma run_keeps: "P (pl_db p) \<Longrightarrow> P (pl_db (pipeline_run c rs p))"
  by (simp add: pipeline_run_def rounds_keep keeps_requeue)

end

lemma put_vector_skel:
  "cache_wf d \<Longrightarrow> cache_wf (put_vector v d)"
proof -
  assume wf: "cache_wf d"
  let ?vs = "map (\<lambda>w. if v_message_id w = v_message_id v then v else w) (vectors d)"
  have "map v_message_id ?vs = map v_message_id (vectors d)" by simp
  then have upd: "cache_wf (d\<lparr>vectors := ?vs\<rparr>)"
    by (intro cache_wf_cong [OF _ wf]) (simp add: cache_skel_def)
  have "cache_wf (d\<lparr>vectors := vectors d @ [v]\<rparr>)"
    if new: "\<not> list_ex (\<lambda>w. v_message_id w = v_message_id v) (vectors d)"
      and ref: "list_ex (\<lambda>m. m_id m = v_message_id v) (messages d)"
  proof -
    let ?d = "d\<lparr>vectors := vectors d @ [v]\<rparr>"
    have "v_message_id v \<notin> v_message_id ` set (vectors d)" and "v_message_id v \<in> m_id ` set (messages d)"
      using new ref by (auto simp: list_ex_iff) force
    then have "refs_wf ?d" using wf by (simp add: cache_wf_def refs_wf_def)
    moreover have "msgs_wf ?d = msgs_wf d" by (simp add: msgs_wf_def)
    moreover have "dedup_ok ?d = dedup_ok d" by (simp add: dedup_ok_def is_queued_def)
    ultimately show ?thesis using wf by (simp add: cache_wf_def)
  qed
  with upd wf show ?thesis by (simp add: put_vector_def)
qed

lemma map_if_same: "(\<And>x. g (f x) = g x) \<Longrightarrow> map g (map (\<lambda>x. if Q x then f x else x) xs) = map g xs"
  by simp

lemma set_queue_skel: "same_queue f \<Longrightarrow> cache_skel (set_queue i f d) = cache_skel d"
proof -
  assume "same_queue f"
  then have "map queue_skel (map (\<lambda>q. if q_id q = i then f q else q) (queue d)) = map queue_skel (queue d)"
    by (intro map_if_same) (simp add: same_queue_def)
  then show ?thesis by (simp add: cache_skel_def set_queue_def)
qed

lemma set_msg_skel: "same_msg f \<Longrightarrow> cache_skel (set_msg i f d) = cache_skel d"
proof -
  assume "same_msg f"
  then have "map msg_skel (map (\<lambda>m. if m_id m = i then f m else m) (messages d)) = map msg_skel (messages d)"
    by (intro map_if_same) (simp add: same_msg_def)
  then show ?thesis by (simp add: cache_skel_def set_msg_def)
qed

lemma requeue_skel: "cache_skel (requeue_interrupted d) = cache_skel d"
proof -
  have "map queue_skel (map (\<lambda>q. if q_status q = QProcessing then q\<lparr>q_status := QPending\<rparr> else q) (queue d)) =
      map queue_skel (queue d)"
    by (intro map_if_same) (simp add: queue_skel_def)
  then show ?thesis by (simp add: cache_skel_def requeue_interrupted_def)
qed

interpretation pipeline_wf: pipeline_inv cache_wf
  by unfold_locales
    (auto intro: cache_wf_cong set_queue_skel set_msg_skel requeue_skel put_vector_skel)

interpretation pipeline_rows: pipeline_inv "\<lambda>d. map msg_skel (messages d) = ms \<and> map queue_skel (queue d) = qs"
  for ms qs
proof unfold_locales
  fix f :: "queue_row \<Rightarrow> queue_row" and d :: cache_db and i
  assume "same_queue f" and "map msg_skel (messages d) = ms \<and> map queue_skel (queue d) = qs"
  then show "map msg_skel (messages (set_queue i f d)) = ms \<and> map queue_skel (queue (set_queue i f d)) = qs"
    using set_queue_skel [of f i d] by (simp add: cache_skel_def)
next
  fix g :: "msg_row \<Rightarrow> msg_row" and d :: cache_db and i
  assume "same_msg g" and "map msg_skel (messages d) = ms \<and> map queue_skel (queue d) = qs"
  then show "map msg_skel (messages (set_msg i g d)) = ms \<and> map queue_skel (queue (set_msg i g d)) = qs"
    using set_msg_skel [of g i d] by (simp add: cache_skel_def)
next
  fix d :: cache_db and v
  assume "map msg_skel (messages d) = ms \<and> map queue_skel (queue d) = qs"
  then show "map msg_skel (messages (put_vector v d)) = ms \<and> map queue_skel (queue (put_vector v d)) = qs"
    by (simp add: put_vector_def)
next
  fix d :: cache_db
  assume "map msg_skel (messages d) = ms \<and> map queue_skel (queue d) = qs"
  then show "map msg_skel (messages (requeue_interrupted d)) = ms \<and> map queue_skel (queue (requeue_interrupted d)) = qs"
    using requeue_skel [of d] by (simp add: cache_skel_def)
qed

end
