(* ===== verification/Enrich_Props.thy ===== *)
theory Enrich_Props
  imports Enrich_Inv "HOL-Library.Multiset"
begin

text \<open>
  Properties of the enrichment pipeline: what a batch does to the queue, progress, lane
  priority, backoff, and what reaches the database from a model's answer.
\<close>

section \<open>The queue as a table of states\<close>

definition queue_states :: "cache_db \<Rightarrow> (nat \<times> queue_status \<times> nat) list" where
  "queue_states d = map (\<lambda>q. (q_id q, q_status q, q_attempts q)) (queue d)"

definition upd_state :: "nat \<Rightarrow> (queue_status \<times> nat \<Rightarrow> queue_status \<times> nat) \<Rightarrow>
    (nat \<times> queue_status \<times> nat) list \<Rightarrow> (nat \<times> queue_status \<times> nat) list" where
  "upd_state i f xs = map (\<lambda>(j, s). if j = i then (j, f s) else (j, s)) xs"

lemma queue_states_msg [simp]: "queue_states (set_msg i f d) = queue_states d"
  by (simp add: queue_states_def set_msg_def)

lemma queue_states_vector [simp]: "queue_states (put_vector v d) = queue_states d"
  by (simp add: queue_states_def put_vector_def)

lemma queue_states_set:
  assumes "\<And>q. q_id (f q) = q_id q" and "\<And>q. (q_status (f q), q_attempts (f q)) = g (q_status q, q_attempts q)"
  shows "queue_states (set_queue i f d) = upd_state i g (queue_states d)"
  using assms(2) by (auto simp: queue_states_def set_queue_def upd_state_def assms(1) prod_eq_iff)

lemma queue_states_apply [simp]: "queue_states (snd (apply_result c r d)) = queue_states d"
  by (simp add: apply_result_def Let_def)

lemma queue_states_mark:
  "queue_states (mark_db it d) = upd_state (qi_queueID it) (\<lambda>(s, n). (QProcessing, Suc n)) (queue_states d)"
  unfolding mark_db_def by (rule queue_states_set) simp_all

text \<open>The state an item ends in: done when its enrichment has a result, else pending again as long as attempts
  are left, else in error.\<close>

definition settled_status :: "enrich_env \<Rightarrow> queue_item \<Rightarrow> queue_status" where
  "settled_status e it =
     (case enrich_msg e it of Inr _ \<Rightarrow> QDone
      | Inl _ \<Rightarrow> if int (qi_attempts it) + 1 < max_attempts (ee_cfg e) then QPending else QError)"

definition fail_status :: "enrich_config \<Rightarrow> queue_item \<Rightarrow> queue_status" where
  "fail_status c it = (if int (qi_attempts it) + 1 < max_attempts c then QPending else QError)"

lemma queue_states_fail:
  "queue_states (fail_db c it err d) = upd_state (qi_queueID it) (\<lambda>(_, n). (fail_status c it, n)) (queue_states d)"
proof (cases "int (qi_attempts it) + 1 \<ge> max_attempts c")
  case True
  then show ?thesis unfolding fail_db_def
    by (simp add: fail_status_def queue_states_set [where g = "\<lambda>(_, n). (QError, n)"])
next
  case False
  then show ?thesis unfolding fail_db_def
    by (simp add: fail_status_def queue_states_set [where g = "\<lambda>(_, n). (QPending, n)"])
qed

lemma queue_states_done:
  "queue_states (done_db it d) = upd_state (qi_queueID it) (\<lambda>(_, n). (QDone, n)) (queue_states d)"
  unfolding done_db_def queue_states_msg by (rule queue_states_set) simp_all

text \<open>The message of an item is there; no operation of the pipeline deletes one.\<close>

definition present :: "cache_db \<Rightarrow> queue_item \<Rightarrow> bool" where
  "present d it = (qi_messageID it \<in> m_id ` set (messages d))"

lemma present_cong: "m_id ` set (messages d') = m_id ` set (messages d) \<Longrightarrow> present d' = present d"
  by (simp add: present_def fun_eq_iff)

lemma set_queue_messages [simp]: "messages (set_queue i f d) = messages d"
  by (simp add: set_queue_def)

lemma put_vector_messages [simp]: "messages (put_vector v d) = messages d"
  by (simp add: put_vector_def)

lemma set_msg_ids:
  assumes "\<And>m. m_id (f m) = m_id m"
  shows "m_id ` set (messages (set_msg i f d)) = m_id ` set (messages d)"
proof -
  have "map m_id (messages (set_msg i f d)) = map m_id (messages d)" by (simp add: set_msg_def assms)
  then show ?thesis by (metis set_map)
qed

lemma present_fail: "present (fail_db c it err d) = present d"
  by (rule present_cong) (simp add: fail_db_def set_msg_ids)

lemma present_done: "present (done_db it d) = present d"
  by (rule present_cong) (simp add: done_db_def set_msg_ids)

lemma present_apply: "present (snd (apply_result c r d)) = present d"
  by (rule present_cong) (simp add: apply_result_def Let_def set_msg_ids retag_def)

lemma present_marks: "present (fold mark_db items d) = present d"
  by (induction items arbitrary: d) (simp_all add: present_def fun_eq_iff mark_db_def)

lemma present_handle: "present (pl_db (snd (handle_item e it p))) = present (pl_db p)"
proof (cases "enrich_msg e it")
  case (Inl err)
  then show ?thesis by (simp add: handle_item_def present_fail)
next
  case (Inr r)
  obtain o' d where a: "apply_result (ee_cfg e) r (pl_db p) = (o', d)" by (cases "apply_result (ee_cfg e) r (pl_db p)")
  then have "present d = present (pl_db p)" using present_apply [of "ee_cfg e" r "pl_db p"] by simp
  with Inr a show ?thesis by (cases o') (simp_all add: handle_item_def present_fail present_done)
qed

lemma enrich_msg_id: "enrich_msg e it = Inr r \<Longrightarrow> er_MessageID r = qi_messageID it"
  by (auto simp: enrich_msg_def Let_def split_beta parse_classification_def split: sum.splits if_splits option.splits)

lemma queue_states_handle:
  assumes "present (pl_db p) it"
  shows "queue_states (pl_db (snd (handle_item e it p))) =
     upd_state (qi_queueID it) (\<lambda>(_, n). (settled_status e it, n)) (queue_states (pl_db p))"
proof (cases "enrich_msg e it")
  case (Inl err)
  then show ?thesis by (simp add: handle_item_def settled_status_def queue_states_fail fail_status_def)
next
  case (Inr r)
  have "vector_saves (er_MessageID r) (pl_db p)"
    using assms unfolding enrich_msg_id [OF Inr] by (auto simp: present_def vector_saves_def list_ex_iff)
  then obtain d where a: "apply_result (ee_cfg e) r (pl_db p) = (None, d)" by (simp add: apply_result_def Let_def)
  then have "queue_states d = queue_states (pl_db p)" using queue_states_apply [of "ee_cfg e" r "pl_db p"] by simp
  then show ?thesis by (simp add: handle_item_def Inr a queue_states_done settled_status_def)
qed

section \<open>What a group does\<close>

lemma marks_states:
  "distinct (map qi_queueID items) \<Longrightarrow>
   queue_states (fold mark_db items d) =
     map (\<lambda>(i, s, n). if i \<in> qi_queueID ` set items then (i, QProcessing, Suc n) else (i, s, n)) (queue_states d)"
proof (induction items arbitrary: d)
  case Nil
  then show ?case by (simp add: case_prod_eta)
next
  case (Cons it items)
  then have new: "qi_queueID it \<notin> qi_queueID ` set items" by simp
  show ?case
    using Cons new by (auto simp: queue_states_mark upd_state_def split_beta)
qed

definition handled :: "enrich_env \<Rightarrow> queue_item list \<Rightarrow> nat \<times> pipeline \<Rightarrow> nat \<times> pipeline" where
  "handled e items np = fold (\<lambda>it (n, p). let (ok, p) = handle_item e it p in (if ok then n + 1 else n, p)) items np"

definition handled_row ::
  "enrich_env \<Rightarrow> queue_item list \<Rightarrow> nat \<times> queue_status \<times> nat \<Rightarrow> nat \<times> queue_status \<times> nat \<Rightarrow> bool" where
  "handled_row e items x y = (fst y = fst x \<and> snd (snd y) = snd (snd x) \<and>
     (if fst x \<in> qi_queueID ` set items
      then \<exists>it\<in>set items. qi_queueID it = fst x \<and> fst (snd y) = settled_status e it
      else fst (snd y) = fst (snd x)))"

lemma handled_row_step:
  assumes "qi_queueID it \<notin> qi_queueID ` set items"
    and "handled_row e items ((\<lambda>(j, st). if j = qi_queueID it then (j, (\<lambda>(_, n). (settled_status e it, n)) st) else (j, st)) x) y"
  shows "handled_row e (it # items) x y"
proof (cases "fst x = qi_queueID it")
  case True
  with assms have "fst y = fst x \<and> snd (snd y) = snd (snd x) \<and> fst (snd y) = settled_status e it"
    by (simp add: handled_row_def split_beta)
  with True show ?thesis by (simp add: handled_row_def)
next
  case False
  with assms(2) have "handled_row e items x y" by (simp add: split_beta)
  with False show ?thesis by (auto simp: handled_row_def)
qed

lemma handled_states:
  "distinct (map qi_queueID items) \<Longrightarrow> \<forall>it\<in>set items. present (pl_db (snd np)) it \<Longrightarrow>
   list_all2 (handled_row e items)
     (queue_states (pl_db (snd np))) (queue_states (pl_db (snd (handled e items np))))"
proof (induction items arbitrary: np)
  case Nil
  then show ?case by (auto simp: handled_def handled_row_def list_all2_same)
next
  case (Cons it items)
  obtain n p where np: "np = (n, p)" by (cases np)
  let ?p = "snd (handle_item e it p)"
  have s: "queue_states (pl_db ?p) = upd_state (qi_queueID it) (\<lambda>(_, n). (settled_status e it, n)) (queue_states (pl_db p))"
    by (rule queue_states_handle) (use Cons.prems(2) np in simp)
  obtain m where step: "handled e (it # items) np = handled e items (m, ?p)"
    by (simp add: handled_def np Let_def split_beta)
  have "list_all2 (handled_row e items) (queue_states (pl_db ?p))
      (queue_states (pl_db (snd (handled e items (m, ?p)))))"
    using Cons.IH [of "(m, ?p)"] Cons.prems np by (simp add: present_handle)
  note ih = this [unfolded s upd_state_def list_all2_map1]
  show ?case
    unfolding step unfolding np snd_conv
    by (rule list_all2_mono [OF ih]) (use Cons.prems in \<open>auto intro: handled_row_step\<close>)
qed

text \<open>Every row of an item gets one more attempt and the state that item settles in; the other
  rows are unchanged.\<close>

definition settled_row ::
  "enrich_env \<Rightarrow> queue_item list \<Rightarrow> nat \<times> queue_status \<times> nat \<Rightarrow> nat \<times> queue_status \<times> nat \<Rightarrow> bool" where
  "settled_row e items x y = (fst y = fst x \<and>
     (if fst x \<in> qi_queueID ` set items
      then snd (snd y) = Suc (snd (snd x)) \<and> (\<exists>it\<in>set items. qi_queueID it = fst x \<and> fst (snd y) = settled_status e it)
      else y = x))"

definition fair_order :: "enrich_env \<Rightarrow> bool" where
  "fair_order e = (\<forall>ids. mset (ee_order e ids) = mset ids)"

lemma pick_items:
  fixes items :: "queue_item list"
  assumes "distinct (map qi_queueID items)" and "mset is' = mset (map qi_queueID items)"
  shows "mset (concat (map (\<lambda>i. filter (\<lambda>it. qi_queueID it = i) items) is')) = mset items"
proof -
  have cm: "mset (concat (map f is')) = (\<Sum>i\<in>#mset is'. mset (f i))" for f :: "nat \<Rightarrow> queue_item list"
    by (induction is') simp_all
  have "mset (concat (map (\<lambda>i. filter (\<lambda>it. qi_queueID it = i) items) is')) =
      (\<Sum>i\<in>#mset (map qi_queueID items). mset (filter (\<lambda>it. qi_queueID it = i) items))"
    by (simp only: cm assms(2))
  also have "\<dots> = (\<Sum>it\<in>#mset items. mset (filter (\<lambda>it'. qi_queueID it' = qi_queueID it) items))"
    by (simp add: image_mset.compositionality comp_def del: mset_filter)
  also have "\<dots> = (\<Sum>it\<in>#mset items. {#it#})"
  proof (rule arg_cong [where f = sum_mset], rule image_mset_cong)
    fix it assume "it \<in># mset items"
    then have "filter (\<lambda>it'. qi_queueID it' = qi_queueID it) items = [it]"
      using assms(1)
    proof (induction items)
      case (Cons x xs)
      show ?case
      proof (cases "x = it")
        case True
        with Cons.prems(2) have "filter (\<lambda>it'. qi_queueID it' = qi_queueID it) xs = []"
          by (auto simp: filter_empty_conv) (metis imageI)
        with True show ?thesis by simp
      next
        case False
        with Cons.prems have "it \<in> set xs" by simp
        with Cons.prems(2) have "qi_queueID x \<noteq> qi_queueID it" by auto
        with Cons \<open>it \<in> set xs\<close> show ?thesis by simp
      qed
    qed simp
    then show "mset (filter (\<lambda>it'. qi_queueID it' = qi_queueID it) items) = {#it#}" by simp
  qed
  also have "\<dots> = mset items" by simp
  finally show ?thesis .
qed

lemma group_states:
  assumes "fair_order e" and "distinct (map qi_queueID items)" and "\<forall>it\<in>set items. present (pl_db p) it"
  shows "list_all2 (settled_row e items) (queue_states (pl_db p))
    (queue_states (pl_db (snd (process_group e items p))))"
proof -
  define run where "run = concat (map (\<lambda>i. filter (\<lambda>it. qi_queueID it = i) items) (ee_order e (map qi_queueID items)))"
  have m: "mset run = mset items"
    unfolding run_def by (rule pick_items [OF assms(2)]) (use assms(1) in \<open>simp add: fair_order_def\<close>)
  then have set: "set run = set items" by (metis set_mset_mset)
  have "mset (map qi_queueID run) = mset (map qi_queueID items)" using m by simp
  with assms(2) have dist: "distinct (map qi_queueID run)" by (metis mset_eq_imp_distinct_iff)
  let ?p = "p\<lparr>pl_db := fold mark_db items (pl_db p)\<rparr>"
  have eq: "process_group e items p = handled e run (0, ?p)"
    by (simp add: process_group_def handled_def run_def Let_def)
  have "list_all2 (handled_row e run) (queue_states (fold mark_db items (pl_db p)))
      (queue_states (pl_db (snd (process_group e items p))))"
    using handled_states [OF dist, of "(0, ?p)" e] assms(3) by (simp add: eq present_marks set)
  note h = this [unfolded marks_states [OF assms(2)] list_all2_map1]
  show ?thesis
    by (rule list_all2_mono [OF h]) (auto simp: handled_row_def settled_row_def set prod_eq_iff split: if_splits)
qed

section \<open>What a batch does\<close>

definition has_message :: "cache_db \<Rightarrow> queue_row \<Rightarrow> bool" where
  "has_message d q = (find (\<lambda>m. m_id m = q_message_id q) (messages d) \<noteq> None)"

lemma joined_ids:
  "map qi_queueID (concat (map (joined d) qs)) = map q_id (filter (has_message d) qs)"
  by (induction qs) (auto simp: joined_def has_message_def item_of_def split: option.split)

definition lane_rows :: "nat \<Rightarrow> cache_db \<Rightarrow> queue_row list" where
  "lane_rows lane d = sort_key (\<lambda>q. (q_queued_at q, q_id q))
     (filter (\<lambda>q. q_status q = QPending \<and> q_lane q = lane) (queue d))"

lemma select_lane_rows: "select_lane lane limit d = take limit (concat (map (joined d) (lane_rows lane d)))"
  by (simp add: select_lane_def lane_rows_def)

lemma select_lane_item:
  assumes "it \<in> set (select_lane lane limit d)"
  obtains q m where "q \<in> set (queue d)" "m \<in> set (messages d)" "q_status q = QPending" "q_lane q = lane"
    "it = item_of q m" "m_id m = q_message_id q"
proof -
  have "it \<in> set (concat (map (joined d) (lane_rows lane d)))"
    using assms unfolding select_lane_rows by (rule in_set_takeD)
  then obtain q where q: "q \<in> set (lane_rows lane d)" "it \<in> set (joined d q)" by auto
  from q(2) obtain m where m: "find (\<lambda>m. m_id m = q_message_id q) (messages d) = Some m" "it = item_of q m"
    unfolding joined_def by (cases "find (\<lambda>m. m_id m = q_message_id q) (messages d)") auto
  from m(1) have "m \<in> set (messages d)" "m_id m = q_message_id q" by (auto simp: find_Some_iff)
  with q(1) m(2) that show thesis by (auto simp: lane_rows_def)
qed

lemma select_lane_distinct:
  assumes "distinct (map q_id (queue d))"
  shows "distinct (map qi_queueID (select_lane lane limit d))"
proof -
  have "mset (map q_id (lane_rows lane d)) = mset (map q_id (filter (\<lambda>q. q_status q = QPending \<and> q_lane q = lane) (queue d)))"
    by (simp add: lane_rows_def)
  moreover have "distinct (map q_id (filter P (queue d)))" for P
    using assms by (simp add: distinct_map_filter)
  ultimately have "distinct (map q_id (lane_rows lane d))" by (metis mset_eq_imp_distinct_iff)
  then have "distinct (map qi_queueID (concat (map (joined d) (lane_rows lane d))))"
    unfolding joined_ids by (simp add: distinct_map_filter)
  then show ?thesis unfolding select_lane_rows by (metis distinct_take take_map)
qed

text \<open>The shape of a batch: the new lane first, backfill only in the room that is left.\<close>

lemma quota_le: "fst (backfill_quota e forced room p) \<le> room"
  by (simp add: backfill_quota_def rl_take_def Let_def split_beta)

lemma select_batch_shape:
  assumes "new = select_lane lane_new (nat (batch_size (ee_cfg e) forced)) (pl_db p)"
  obtains k where "fst (select_batch e forced p) = new @ select_lane lane_backfill k (pl_db p)"
    "k = 0 \<or> int k + int (length new) \<le> batch_size (ee_cfg e) forced"
    "k = 0 \<or> forced > 0 \<or> fst (backfill_allowed (ee_gates e) (ee_now e) p)"
proof -
  let ?room = "batch_size (ee_cfg e) forced - int (length new)"
  let ?q = "if forced > 0 then p else snd (backfill_allowed (ee_gates e) (ee_now e) p)"
  let ?n = "fst (backfill_quota e forced ?room ?q)"
  have zero: "select_lane lane_backfill 0 d = []" for d by (simp add: select_lane_def)
  show thesis
  proof (cases "?room > 0 \<and> (forced > 0 \<or> fst (backfill_allowed (ee_gates e) (ee_now e) p)) \<and> ?n > 0")
    case False
    then have "fst (select_batch e forced p) = new"
      unfolding select_batch_def Let_def assms [symmetric] by (auto simp: split_beta)
    with zero that [of 0] show thesis by simp
  next
    case True
    then have "fst (select_batch e forced p) = new @ select_lane lane_backfill (nat ?n) (pl_db p)"
      unfolding select_batch_def Let_def assms [symmetric] by (auto simp: split_beta)
    with that [of "nat ?n"] quota_le [of e forced ?room ?q] True show thesis by auto
  qed
qed

lemma batch_items:
  assumes "cache_wf (pl_db p)"
  shows "distinct (map qi_queueID (fst (select_batch e forced p)))"
    and "it \<in> set (fst (select_batch e forced p)) \<Longrightarrow>
      (qi_queueID it, QPending, qi_attempts it) \<in> set (queue_states (pl_db p)) \<and> qi_lane it \<in> {lane_new, lane_backfill}"
proof -
  let ?d = "pl_db p"
  have dist: "distinct (map q_id (queue ?d))" using assms by (simp add: cache_wf_def refs_wf_def)
  obtain n k where sel: "fst (select_batch e forced p) = select_lane lane_new n ?d @ select_lane lane_backfill k ?d"
    using select_batch_shape [OF refl] by metis
  have "set (map qi_queueID (select_lane lane_new n ?d)) \<inter> set (map qi_queueID (select_lane lane_backfill k ?d)) = {}"
  proof (rule ccontr)
    assume "\<not> ?thesis"
    then obtain i j where ij: "i \<in> set (select_lane lane_new n ?d)" "j \<in> set (select_lane lane_backfill k ?d)"
      "qi_queueID i = qi_queueID j" by auto
    from ij(1) obtain q where q: "q \<in> set (queue ?d)" "q_lane q = lane_new" "q_id q = qi_queueID i"
      by (auto simp: item_of_def elim!: select_lane_item)
    from ij(2) obtain r where r: "r \<in> set (queue ?d)" "q_lane r = lane_backfill" "q_id r = qi_queueID j"
      by (auto simp: item_of_def elim!: select_lane_item)
    from q r ij(3) dist have "q = r" by (auto simp: distinct_map inj_on_def)
    with q(2) r(2) show False by (simp add: lane_new_def lane_backfill_def)
  qed
  then show "distinct (map qi_queueID (fst (select_batch e forced p)))"
    using select_lane_distinct [OF dist] by (simp only: sel map_append distinct_append)
  assume "it \<in> set (fst (select_batch e forced p))"
  then obtain lane l where "it \<in> set (select_lane lane l ?d)" "lane \<in> {lane_new, lane_backfill}" unfolding sel by auto
  then show "(qi_queueID it, QPending, qi_attempts it) \<in> set (queue_states ?d) \<and> qi_lane it \<in> {lane_new, lane_backfill}"
    by (force simp: item_of_def queue_states_def elim!: select_lane_item)
qed

lemma settled_trans:
  assumes "settled_row e is1 x y" and "settled_row e is2 y z"
    and "qi_queueID ` set is1 \<inter> qi_queueID ` set is2 = {}" and "set items = set is1 \<union> set is2"
  shows "settled_row e items x z"
proof -
  have img: "qi_queueID ` set items = qi_queueID ` set is1 \<union> qi_queueID ` set is2" using assms(4) by auto
  consider "fst x \<in> qi_queueID ` set is1" "fst x \<notin> qi_queueID ` set is2"
    | "fst x \<notin> qi_queueID ` set is1" using assms(3) by blast
  then show ?thesis
  proof cases
    case 1
    then have "z = y" using assms(1,2) by (simp add: settled_row_def)
    with 1 assms(1,4) img show ?thesis by (auto simp: settled_row_def)
  next
    case 2
    then have "y = x" using assms(1) by (simp add: settled_row_def)
    with 2 assms(2,4) img show ?thesis by (auto simp: settled_row_def)
  qed
qed

lemma batch_present: "it \<in> set (fst (select_batch e forced p)) \<Longrightarrow> present (pl_db p) it"
proof -
  assume it: "it \<in> set (fst (select_batch e forced p))"
  obtain n k where "fst (select_batch e forced p) = select_lane lane_new n (pl_db p) @ select_lane lane_backfill k (pl_db p)"
    using select_batch_shape [OF refl] by metis
  with it obtain lane l where "it \<in> set (select_lane lane l (pl_db p))" by auto
  then show ?thesis by (force simp: item_of_def present_def elim!: select_lane_item)
qed

lemma present_group: "present (pl_db (snd (process_group e items p))) = present (pl_db p)"
proof -
  have "present (pl_db (snd (handled e run np))) = present (pl_db (snd np))" for run np
  proof (induction run arbitrary: np)
    case (Cons it run)
    obtain n q where np: "np = (n, q)" by (cases np)
    obtain m where "handled e (it # run) np = handled e run (m, snd (handle_item e it q))"
      by (simp add: handled_def np Let_def split_beta)
    then show ?case using Cons.IH [of "(m, snd (handle_item e it q))"] np by (simp add: present_handle)
  qed (simp add: handled_def)
  then show ?thesis by (simp add: process_group_def handled_def Let_def present_marks)
qed

lemma batch_states:
  assumes "cache_wf (pl_db p)" and "fair_order e" and "time_sub (pl_backoffUntil p) (ee_now e) \<le> 0"
  shows "list_all2 (settled_row e (fst (select_batch e forced p)))
    (queue_states (pl_db p)) (queue_states (pl_db (snd (run_once e forced p))))"
proof -
  define items where "items = fst (select_batch e forced p)"
  define p1 where "p1 = snd (select_batch e forced p)"
  have db: "pl_db p1 = pl_db p" by (simp add: p1_def)
  show ?thesis
  proof (cases "items = []")
    case True
    then have "snd (run_once e forced p) = p1"
      using assms(3) by (simp add: run_once_def split_beta items_def p1_def)
    with True db show ?thesis by (simp add: items_def [symmetric] list_all2_same settled_row_def)
  next
    case False
    let ?new = "filter (\<lambda>it. qi_lane it = lane_new) items"
    let ?old = "filter (\<lambda>it. qi_lane it = lane_backfill) items"
    let ?p2 = "snd (process_group e ?new p1)"
    have run: "snd (run_once e forced p) = snd (process_group e ?old ?p2)"
      using False assms(3) by (simp add: run_once_def process_items_def split_beta items_def p1_def)
    have dist: "distinct (map qi_queueID items)" using batch_items(1) [OF assms(1)] by (simp add: items_def)
    have lanes: "set items = set ?new \<union> set ?old"
      using batch_items(2) [OF assms(1)] by (auto simp: items_def)
    have disj: "qi_queueID ` set ?new \<inter> qi_queueID ` set ?old = {}"
    proof (rule ccontr)
      assume "\<not> ?thesis"
      then obtain i j where ij: "i \<in> set ?new" "j \<in> set ?old" "qi_queueID i = qi_queueID j" by auto
      moreover have "inj_on qi_queueID (set items)" using dist by (simp add: distinct_map)
      ultimately have "i = j" by (auto dest: inj_onD)
      with ij(1,2) show False by (simp add: lane_new_def lane_backfill_def)
    qed
    have fd: "distinct (map qi_queueID (filter Q items))" for Q using dist by (simp add: distinct_map_filter)
    have pres: "\<forall>it\<in>set items. present (pl_db p1) it" unfolding items_def db using batch_present by blast
    then have here: "\<forall>it\<in>set ?new. present (pl_db p1) it" by simp
    have later: "\<forall>it\<in>set ?old. present (pl_db ?p2) it" using pres by (simp add: present_group)
    have "list_all2 (settled_row e items) (queue_states (pl_db p1))
        (queue_states (pl_db (snd (process_group e ?old ?p2))))"
      by (rule list_all2_trans [OF settled_trans [OF _ _ disj lanes] group_states [OF assms(2) fd here] group_states [OF assms(2) fd later]])
    then show ?thesis by (simp only: run db items_def [symmetric])
  qed
qed

section \<open>Progress\<close>

definition row_work :: "enrich_config \<Rightarrow> nat \<times> queue_status \<times> nat \<Rightarrow> nat" where
  "row_work c x = (if fst (snd x) = QPending then max 1 (nat (max_attempts c - int (snd (snd x)))) else 0)"

definition queue_work :: "enrich_config \<Rightarrow> cache_db \<Rightarrow> nat" where
  "queue_work c d = sum_list (map (row_work c) (queue_states d))"

lemma sum_list_less:
  fixes f g :: "'a \<Rightarrow> nat"
  assumes "list_all2 (\<lambda>x y. f y \<le> f x) xs ys" and "\<exists>i<length xs. f (ys ! i) < f (xs ! i)"
  shows "sum_list (map f ys) < sum_list (map f xs)"
  using assms
proof (induction xs ys rule: list_all2_induct)
  case Nil
  then show ?case by simp
next
  case (Cons x xs y ys)
  have le: "sum_list (map f ys) \<le> sum_list (map f xs)"
    using Cons.hyps(2) by (induction xs ys rule: list_all2_induct) auto
  from Cons.prems obtain i where i: "i < length (x # xs)" "f ((y # ys) ! i) < f ((x # xs) ! i)" by blast
  show ?case
  proof (cases i)
    case 0
    with i le show ?thesis by simp
  next
    case (Suc j)
    with i Cons.IH Cons.hyps(1) show ?thesis by (auto intro: add_le_less_mono)
  qed
qed

lemma row_work_step:
  assumes "settled_row e items x y"
    and "\<And>it. it \<in> set items \<Longrightarrow> qi_queueID it = fst x \<Longrightarrow> x = (qi_queueID it, QPending, qi_attempts it)"
  shows "row_work (ee_cfg e) y \<le> row_work (ee_cfg e) x"
    and "fst x \<in> qi_queueID ` set items \<Longrightarrow> row_work (ee_cfg e) y < row_work (ee_cfg e) x"
proof -
  show lt: "row_work (ee_cfg e) y < row_work (ee_cfg e) x" if "fst x \<in> qi_queueID ` set items"
  proof -
    from assms(1) that obtain it where it: "it \<in> set items" "qi_queueID it = fst x" "fst (snd y) = settled_status e it"
      "snd (snd y) = Suc (snd (snd x))" by (auto simp: settled_row_def)
    from assms(2) [OF it(1,2)] have "x = (qi_queueID it, QPending, qi_attempts it)" .
    with it(3,4) show ?thesis by (auto simp: row_work_def settled_status_def split: sum.splits)
  qed
  show "row_work (ee_cfg e) y \<le> row_work (ee_cfg e) x"
  proof (cases "fst x \<in> qi_queueID ` set items")
    case True
    from lt [OF True] show ?thesis by simp
  next
    case False
    with assms(1) show ?thesis by (simp add: settled_row_def)
  qed
qed

lemma current_row:
  assumes "distinct (map fst xs)" and "x \<in> set xs" and "(i, st) \<in> set xs" and "i = fst x"
  shows "x = (i, st)"
  using assms by (metis eq_key_imp_eq_value prod.collapse)

section \<open>Properties\<close>

text \<open>The pipeline keeps the database well-formed over a whole run: any ticks and
  triggers, any provider answers or failures, any completion order.\<close>

theorem pipeline_keeps_cache_wf:
  "cache_wf (pl_db p) \<Longrightarrow> cache_wf (pl_db (pipeline_run c rounds p))"
  by (rule pipeline_wf.run_keeps)

definition sample_config :: enrich_config where
  "sample_config = \<lparr>ec_Enabled = True, ec_OllamaURL = ''u'', ec_EmbedModel = ''base'', ec_LLMModel = ''l'',
     ec_BatchSize = 4, ec_Embed_URL = [], ec_Embed_Model = ''other'', ec_Classify_Provider = [],
     ec_Classify_URL = [], ec_Classify_Model = [], ec_Classify_DatawatchLLM = [], ec_Concurrency = 1,
     ec_BackfillPerMinute = 0, ec_MaxAttempts = 3, ec_BackoffMaxSeconds = 300, ec_BackfillWindow = [],
     ec_Yield_Enabled = False, ec_Yield_MaxForeignGB = 8, ec_Yield_DatawatchPools = []\<rparr>"

definition sample_env :: enrich_env where
  "sample_env = \<lparr>ee_cfg = sample_config, ee_now = 0, ee_fail_now = (\<lambda>_. 0),
     ee_gates = \<lparr>ge_clock = (0, 0), ge_ollama = Unreachable, ge_datawatch = Unreachable, ge_fmt_gb = (\<lambda>_. [])\<rparr>,
     ee_rnd = id, ee_clean = nop_clean, ee_embed = (\<lambda>_ _. Inr [7]), ee_classify = (\<lambda>_ _. Inr []),
     ee_decode = (\<lambda>_. None), ee_order = rev\<rparr>"

definition sample_msg :: "string \<Rightarrow> nat \<Rightarrow> cached_message" where
  "sample_msg mid uid = \<lparr>c_Account = ''a'', c_Folder = ''INBOX'', c_UID = uid, c_MessageID = mid, c_ThreadID = [],
     c_Subject = ''s'', c_FromAddr = [], c_FromName = [], c_To = [], c_Cc = [], c_ReplyTo = [], c_Date = 0,
     c_InternalDate = 0, c_Flags = [], c_Size = 1, c_BodyText = [], c_BodyHTML = [], c_BodySkipped = False,
     c_Attachments = [], c_Backfill = False\<rparr>"

definition sample_pipeline :: pipeline where
  "sample_pipeline = new_pipeline id sample_config (snd (insert_msg (sample_msg ''m'' 1) empty_cache))"

lemma sample_wf: "cache_wf (pl_db sample_pipeline)"
  by (simp add: sample_pipeline_def new_pipeline_def cache_wf_insert cache_wf_empty)

theorem pipeline_keeps_cache_wf_witness:
  "cache_wf (pl_db (pipeline_run sample_config [(sample_env, Tick), (sample_env, TriggerCall 0)] sample_pipeline))"
  by (rule pipeline_keeps_cache_wf [OF sample_wf])

lemma list_all2_eq_map: "list_all2 (\<lambda>x y. y = f x) xs ys \<Longrightarrow> ys = map f xs"
  by (induction xs ys rule: list_all2_induct) simp_all

text \<open>C9: A batch settles exactly the items it selected, and each by its own result: the queue row of an item whose
  enrichment succeeds is done, that of one that fails is pending again while attempts are left and in error
  at the last; each has one more attempt, and every other row keeps its state and its attempts. The
  database is well-formed, the pipeline is not backing off, and the goroutines of a group finish in some order of its items.\<close>

theorem batch_settles_selected_items:
  assumes "cache_wf (pl_db p)" and "fair_order e" and "time_sub (pl_backoffUntil p) (ee_now e) \<le> 0"
  shows "queue_states (pl_db (snd (run_once e forced p))) =
    map (\<lambda>(i, s, n). case find (\<lambda>it. qi_queueID it = i) (fst (select_batch e forced p)) of
        None \<Rightarrow> (i, s, n)
      | Some it \<Rightarrow> (i, case enrich_msg e it of Inr _ \<Rightarrow> QDone
                       | Inl _ \<Rightarrow> if int n + 1 < max_attempts (ee_cfg e) then QPending else QError, Suc n))
      (queue_states (pl_db p))"
proof -
  let ?xs = "queue_states (pl_db p)" and ?items = "fst (select_batch e forced p)"
  have "map fst ?xs = map q_id (queue (pl_db p))" by (simp add: queue_states_def)
  then have dist: "distinct (map fst ?xs)" using assms(1) by (simp add: cache_wf_def refs_wf_def)
  define G where "G = (\<lambda>(i, s, n). case find (\<lambda>it. qi_queueID it = i) ?items of
        None \<Rightarrow> (i, s, n)
      | Some it \<Rightarrow> (i, case enrich_msg e it of Inr _ \<Rightarrow> QDone
                       | Inl _ \<Rightarrow> if int n + 1 < max_attempts (ee_cfg e) then QPending else QError, Suc n))"
  have row: "y = G x"
    if x: "x \<in> set ?xs" and r: "settled_row e ?items x y" for x y
  proof (cases "find (\<lambda>it. qi_queueID it = fst x) ?items")
    case None
    then have "fst x \<notin> qi_queueID ` set ?items" by (auto simp: find_None_iff)
    with r None show ?thesis by (simp add: settled_row_def G_def split_beta)
  next
    case (Some it)
    then have it: "it \<in> set ?items" "qi_queueID it = fst x" by (auto simp: find_Some_iff)
    have cur: "x = (qi_queueID it, QPending, qi_attempts it)"
      by (rule current_row [OF dist x _ it(2)]) (use batch_items(2) [OF assms(1) it(1)] in blast)
    have "fst x \<in> qi_queueID ` set ?items" using it by force
    with r obtain it' where y: "fst y = fst x" "snd (snd y) = Suc (snd (snd x))" "it' \<in> set ?items" "qi_queueID it' = fst x"
      "fst (snd y) = settled_status e it'" by (auto simp: settled_row_def)
    have "inj_on qi_queueID (set ?items)" using batch_items(1) [OF assms(1), of e forced] by (simp add: distinct_map)
    with it y(3,4) have "it' = it" by (metis inj_onD)
    then have "y = (fst x, settled_status e it, Suc (snd (snd x)))" using y by (simp add: prod_eq_iff)
    moreover have "snd (snd x) = qi_attempts it" unfolding cur by simp
    ultimately show ?thesis unfolding G_def split_beta Some option.case by (simp add: settled_status_def)
  qed
  have "list_all2 (\<lambda>x y. y = G x) ?xs (queue_states (pl_db (snd (run_once e forced p))))"
    by (rule list.rel_mono_strong [OF batch_states [OF assms]]) (rule row)
  then show ?thesis unfolding G_def [symmetric] by (rule list_all2_eq_map)
qed

lemma sample_fair: "fair_order sample_env"
  by (simp add: fair_order_def sample_env_def)

lemma sample_no_wait: "time_sub (pl_backoffUntil sample_pipeline) (ee_now sample_env) \<le> 0"
  by (simp add: sample_pipeline_def new_pipeline_def sample_env_def time_sub_def time_consts max_duration_def min_duration_def)

theorem batch_settles_selected_items_witness:
  "queue_states (pl_db sample_pipeline) = [(1, QPending, 0)] \<and>
   queue_states (pl_db (snd (run_once sample_env 0 sample_pipeline))) = [(1, QDone, 1)] \<and>
   queue_states (pl_db (snd (run_once (sample_env\<lparr>ee_embed := (\<lambda>_ _. Inl \<lparr>pe_Provider = ''p'', pe_Status = 0, pe_Transient = True, pe_Err = ''down''\<rparr>)\<rparr>) 0 sample_pipeline))) =
     [(1, QPending, 1)]"
proof -
  let ?down = "sample_env\<lparr>ee_embed := (\<lambda>_ _. Inl \<lparr>pe_Provider = ''p'', pe_Status = 0, pe_Transient = True, pe_Err = ''down''\<rparr>)\<rparr>"
  have q: "queue_states (pl_db sample_pipeline) = [(1, QPending, 0)]" by code_simp
  obtain it where sel: "fst (select_batch sample_env 0 sample_pipeline) = [it]" "fst (select_batch ?down 0 sample_pipeline) = [it]"
    "qi_queueID it = 1"
  proof -
    have "fst (select_batch sample_env 0 sample_pipeline) = fst (select_batch ?down 0 sample_pipeline)"
      "map qi_queueID (fst (select_batch sample_env 0 sample_pipeline)) = [1]" by code_simp+
    with that show thesis by auto
  qed
  have res: "\<exists>r. enrich_msg sample_env it = Inr r" "\<exists>r. enrich_msg ?down it = Inl r"
    by (simp_all add: enrich_msg_def sample_env_def nop_clean_def Let_def split_beta split: sum.split)
  have fair: "fair_order ?down" and wait: "time_sub (pl_backoffUntil sample_pipeline) (ee_now ?down) \<le> 0"
    using sample_fair sample_no_wait by (simp_all add: fair_order_def)
  have max: "max_attempts (ee_cfg sample_env) = 3" "max_attempts (ee_cfg ?down) = 3"
    by (simp_all add: max_attempts_def sample_env_def sample_config_def)
  from batch_settles_selected_items [OF sample_wf sample_fair sample_no_wait, of 0]
    batch_settles_selected_items [OF sample_wf fair wait, of 0] res
  show ?thesis unfolding q sel max by (auto simp: sel(3))
qed

text \<open>C36: The queue drains: while nothing new arrives, every batch that selects anything
  strictly decreases the remaining work (attempts left, summed over the pending entries), so
  an entry is tried at most \<open>max_attempts\<close> times and the queue cannot loop for ever.\<close>

theorem batch_decreases_work:
  assumes "cache_wf (pl_db p)" and "fair_order e" and "time_sub (pl_backoffUntil p) (ee_now e) \<le> 0"
    and "fst (select_batch e forced p) \<noteq> []"
  shows "queue_work (ee_cfg e) (pl_db (snd (run_once e forced p))) < queue_work (ee_cfg e) (pl_db p)"
proof -
  let ?xs = "queue_states (pl_db p)" and ?ys = "queue_states (pl_db (snd (run_once e forced p)))"
  let ?items = "fst (select_batch e forced p)"
  have st: "list_all2 (settled_row e ?items) ?xs ?ys" by (rule batch_states [OF assms(1-3)])
  have "map fst ?xs = map q_id (queue (pl_db p))" by (simp add: queue_states_def)
  then have dist: "distinct (map fst ?xs)" using assms(1) by (simp add: cache_wf_def refs_wf_def)
  have cur: "x = (qi_queueID it, QPending, qi_attempts it)"
    if "x \<in> set ?xs" "it \<in> set ?items" "qi_queueID it = fst x" for x it
    by (rule current_row [OF dist that(1) _ that(3)]) (use batch_items(2) [OF assms(1) that(2)] in blast)
  have all: "list_all2 (\<lambda>x y. row_work (ee_cfg e) y \<le> row_work (ee_cfg e) x) ?xs ?ys"
    using st by (rule list.rel_mono_strong) (blast intro: row_work_step(1) cur)
  from assms(4) obtain it where it: "it \<in> set ?items" by (cases ?items) auto
  with batch_items(2) [OF assms(1)] have "(qi_queueID it, QPending, qi_attempts it) \<in> set ?xs" by blast
  then obtain i where i: "i < length ?xs" "?xs ! i = (qi_queueID it, QPending, qi_attempts it)"
    by (auto simp: in_set_conv_nth)
  have "row_work (ee_cfg e) (?ys ! i) < row_work (ee_cfg e) (?xs ! i)"
    by (rule row_work_step(2) [OF list_all2_nthD [OF st i(1)]]) (use i it in \<open>auto dest: cur [OF nth_mem]\<close>)
  with all i(1) show ?thesis unfolding queue_work_def by (blast intro: sum_list_less)
qed

theorem batch_decreases_work_witness:
  "queue_work sample_config (pl_db (snd (run_once sample_env 0 sample_pipeline))) <
   queue_work sample_config (pl_db sample_pipeline)"
proof -
  have "fst (select_batch sample_env 0 sample_pipeline) \<noteq> []" by code_simp
  from batch_decreases_work [OF sample_wf sample_fair sample_no_wait this] show ?thesis
    by (simp add: sample_env_def)
qed

text \<open>New mail comes first and is never gated: every batch starts with the oldest pending
  entries of the new-mail lane, as many as fit, whatever the gates and the rate limiter say;
  backfill entries only follow in the room that is left, and (unless forced) only when the
  gates allow.\<close>

theorem new_mail_first:
  "\<exists>k. fst (select_batch e forced p) =
       select_lane lane_new (nat (batch_size (ee_cfg e) forced)) (pl_db p) @ select_lane lane_backfill k (pl_db p) \<and>
     (k = 0 \<or> int k + int (length (select_lane lane_new (nat (batch_size (ee_cfg e) forced)) (pl_db p)))
                \<le> batch_size (ee_cfg e) forced) \<and>
     (k = 0 \<or> forced > 0 \<or> fst (backfill_allowed (ee_gates e) (ee_now e) p))"
  using select_batch_shape [OF refl, of e forced p] by blast

text \<open>Backoff: while the pipeline backs off, a batch does nothing, forced or not; and after
  a transient failure it waits at least five seconds (or the configured maximum when that is
  less) and never more than the maximum. The bound on the setting is what fits in a Duration.\<close>

theorem transient_failure_backs_off:
  assumes "ee_transient err" and "0 < ec_BackoffMaxSeconds (ee_cfg e)" and "ec_BackoffMaxSeconds (ee_cfg e) \<le> 2 ^ 33"
    and "p' = enrich_fail e it err p"
  shows "pl_backoffUntil p' \<ge> ee_fail_now e (qi_queueID it) + min 5 (ec_BackoffMaxSeconds (ee_cfg e)) * ns_per_sec \<and>
    pl_backoffUntil p' \<le> max (pl_backoffUntil p)
      (ee_fail_now e (qi_queueID it) + ec_BackoffMaxSeconds (ee_cfg e) * ns_per_sec) \<and>
    (time_sub (pl_backoffUntil p') (ee_now e') > 0 \<longrightarrow> run_once e' forced p' = (0, p'))"
proof -
  let ?m = "ec_BackoffMaxSeconds (ee_cfg e)" and ?d = "backoff_delay (ee_cfg e) (Suc (pl_failures p))"
  have lim: "dur64 (max ?m 1 * ns_per_sec) = ?m * ns_per_sec"
    using assms(2,3) by (subst dur64_id) (auto simp: ns_per_sec_def)
  have one: "(1::int) \<le> 2 ^ min (pl_failures p) 16" by (rule one_le_power) simp
  have d: "?d = min (2 ^ min (pl_failures p) 16 * 5 * ns_per_sec) (?m * ns_per_sec)"
    unfolding backoff_delay_def Let_def lim diff_Suc_1 by (simp add: min_def)
  have lo: "min 5 ?m * ns_per_sec \<le> ?d"
  proof -
    have "min 5 ?m * ns_per_sec \<le> 2 ^ min (pl_failures p) 16 * 5 * ns_per_sec"
    proof (rule mult_right_mono)
      have "min 5 ?m \<le> 5" by simp
      also have "\<dots> \<le> 2 ^ min (pl_failures p) 16 * 5" using one by linarith
      finally show "min 5 ?m \<le> 2 ^ min (pl_failures p) 16 * 5" .
    qed (simp add: ns_per_sec_def)
    moreover have "min 5 ?m * ns_per_sec \<le> ?m * ns_per_sec"
      by (rule mult_right_mono) (simp_all add: ns_per_sec_def)
    ultimately show ?thesis unfolding d by simp
  qed
  have hi: "?d \<le> ?m * ns_per_sec" unfolding d by simp
  have until: "pl_backoffUntil p' = max (pl_backoffUntil p) (ee_fail_now e (qi_queueID it) + ?d)"
    using assms(1) by (simp add: assms(4) enrich_fail_def emit_enrich_def Let_def max_def)
  show ?thesis
    unfolding until using lo hi by (intro conjI impI) (auto simp: run_once_def until)
qed

theorem transient_failure_backs_off_witness:
  "let it = \<lparr>qi_queueID = 1, qi_messageID = 1, qi_lane = 0, qi_attempts = 0, qi_subject = [], qi_body = [],
          qi_fromAddr = [], qi_fromName = []\<rparr>;
       p' = enrich_fail sample_env it \<lparr>ee_text = ''down'', ee_transient = True\<rparr> sample_pipeline
   in pl_backoffUntil p' \<ge> 5 * ns_per_sec \<and> run_once sample_env 3 p' = (0, p')"
proof -
  let ?it = "\<lparr>qi_queueID = 1, qi_messageID = 1, qi_lane = 0, qi_attempts = 0, qi_subject = [], qi_body = [],
          qi_fromAddr = [], qi_fromName = []\<rparr> :: queue_item"
  let ?p = "enrich_fail sample_env ?it \<lparr>ee_text = ''down'', ee_transient = True\<rparr> sample_pipeline"
  have c: "ec_BackoffMaxSeconds (ee_cfg sample_env) = 300" "ee_fail_now sample_env i = 0" "ee_now sample_env = 0" for i
    by (simp_all add: sample_env_def sample_config_def)
  have b: "pl_backoffUntil ?p \<ge> 5 * ns_per_sec \<and>
      (time_sub (pl_backoffUntil ?p) (ee_now sample_env) > 0 \<longrightarrow> run_once sample_env 3 ?p = (0, ?p))"
    using transient_failure_backs_off [where e = sample_env and it = ?it and p = sample_pipeline
        and err = "\<lparr>ee_text = ''down'', ee_transient = True\<rparr>" and e' = sample_env and forced = 3, OF _ _ _ refl]
    by (simp add: c)
  then have "pl_backoffUntil ?p > 0" by (simp add: ns_per_sec_def)
  then have "time_sub (pl_backoffUntil ?p) (ee_now sample_env) > 0"
    by (simp add: c time_sub_def max_duration_def min_duration_def)
  with b show ?thesis by simp
qed

text \<open>What a model answers never reaches the tags unchecked: the hall is empty or one of the
  six offered halls, and wing and room contain no angle bracket, for every answer, every JSON
  decoder and every provider behaviour.\<close>

theorem classification_is_sanitised:
  assumes "enrich_msg e it = Inr r"
  shows "er_Hall r \<in> insert [] (set halls) \<and> CHR ''<'' \<notin> set (er_Wing r) \<and> CHR ''>'' \<notin> set (er_Wing r) \<and>
    CHR ''<'' \<notin> set (er_Room r) \<and> CHR ''>'' \<notin> set (er_Room r)"
proof -
  define ok where "ok r = (er_Hall r \<in> insert [] (set halls) \<and> CHR ''<'' \<notin> set (er_Wing r) \<and>
    CHR ''>'' \<notin> set (er_Wing r) \<and> CHR ''<'' \<notin> set (er_Room r) \<and> CHR ''>'' \<notin> set (er_Room r))"
    for r :: enrich_result
  have tag: "CHR ''<'' \<notin> set (clean_tag t) \<and> CHR ''>'' \<notin> set (clean_tag t)" for t
    by (simp add: clean_tag_def Let_def)
  have hall: "clean_hall h \<in> insert [] (set halls)" for h
    by (simp add: clean_hall_def Let_def)
  have parse: "ok r \<Longrightarrow> ok (parse_classification d raw r)" for d raw r
    using tag hall by (auto simp: parse_classification_def ok_def split: option.split)
  have start: "ok \<lparr>er_MessageID = i, er_Hall = [], er_Wing = [], er_Room = [], er_Embedding = v\<rparr>" for i v
    by (simp add: ok_def)
  have "ok r"
    using assms parse [OF start] start
    by (auto simp: enrich_msg_def Let_def split: prod.splits sum.splits if_splits)
  then show ?thesis by (simp add: ok_def)
qed

theorem classification_is_sanitised_witness:
  "er_Hall \<lparr>er_MessageID = 1, er_Hall = ''alert'', er_Wing = ''a'', er_Room = [], er_Embedding = [7]\<rparr> \<in> insert [] (set halls)"
proof -
  have "enrich_msg (sample_env\<lparr>ee_classify := (\<lambda>_ _. Inr ''ok {x}''),
      ee_decode := (\<lambda>_. Some ('' Alert'', ''a'', ''<topic>''))\<rparr>)
     \<lparr>qi_queueID = 1, qi_messageID = 1, qi_lane = 0, qi_attempts = 0, qi_subject = [], qi_body = [],
          qi_fromAddr = [], qi_fromName = []\<rparr> =
     Inr \<lparr>er_MessageID = 1, er_Hall = ''alert'', er_Wing = ''a'', er_Room = [], er_Embedding = [7]\<rparr>"
    by code_simp
  from classification_is_sanitised [OF this] show ?thesis by blast
qed

text \<open>Vectors survive storage: the little-endian blob of a list of float32 bit patterns decodes
  to the same list and has four bytes per component.\<close>

theorem vector_blob_roundtrip:
  "blob_to_float32s (float32s_to_blob vs) = vs \<and> length (float32s_to_blob vs) = 4 * length vs"
proof (induction vs)
  case Nil
  then show ?case by (simp add: float32s_to_blob_def)
next
  case (Cons w vs)
  have "or (ucast (ucast w :: 8 word)) (or (push_bit 8 (ucast (ucast (drop_bit 8 w) :: 8 word)))
      (or (push_bit 16 (ucast (ucast (drop_bit 16 w) :: 8 word))) (push_bit 24 (ucast (ucast (drop_bit 24 w) :: 8 word))))) = w"
  proof (rule bit_word_eqI)
    fix n :: nat
    assume n: "n < LENGTH(32)"
    then consider "n < 8" | "8 \<le> n" "n < 16" | "16 \<le> n" "n < 24" | "24 \<le> n" "n < 32" by fastforce
    then show "bit (or (ucast (ucast w :: 8 word)) (or (push_bit 8 (ucast (ucast (drop_bit 8 w) :: 8 word)))
      (or (push_bit 16 (ucast (ucast (drop_bit 16 w) :: 8 word)))
        (push_bit 24 (ucast (ucast (drop_bit 24 w) :: 8 word))))) :: 32 word) n = bit w n"
      by cases (simp_all add: bit_simps, arith+)
  qed
  with Cons show ?case by (simp add: float32s_to_blob_def)
qed

text \<open>The model recorded with a vector is \<open>enrichment.embed_model\<close>, even when
  \<open>enrichment.embed.model\<close> names the model that computed it.\<close>

theorem vector_model_ignores_override:
  assumes "er_Embedding r \<noteq> []" and "vector_saves (er_MessageID r) d" and "apply_result c r d = (None, d')"
    and "v \<in> set (vectors d')" and "v_message_id v = er_MessageID r"
  shows "v_model v = ec_EmbedModel c"
proof -
  have "vectors d' = vectors (put_vector \<lparr>v_message_id = er_MessageID r,
      v_vector = float32s_to_blob (er_Embedding r), v_model = ec_EmbedModel c, v_dims = length (er_Embedding r)\<rparr> d)"
    using assms(1-3) by (auto simp: apply_result_def Let_def set_msg_def split: if_splits)
  with assms(2,4,5) show ?thesis
    by (auto simp: put_vector_def vector_saves_def list_ex_iff split: if_splits)
qed

theorem vector_model_ignores_override_witness:
  "embed_model_name sample_config = ''other'' \<and>
   v_model (hd (vectors (snd (apply_result sample_config \<lparr>er_MessageID = 1, er_Hall = [], er_Wing = [],
      er_Room = [], er_Embedding = [7]\<rparr> (pl_db sample_pipeline))))) = ''base''"
proof -
  let ?r = "\<lparr>er_MessageID = 1, er_Hall = [], er_Wing = [], er_Room = [], er_Embedding = [7]\<rparr> :: enrich_result"
  let ?d = "snd (apply_result sample_config ?r (pl_db sample_pipeline))"
  have s: "vector_saves 1 (pl_db sample_pipeline)" by code_simp
  have a: "apply_result sample_config ?r (pl_db sample_pipeline) = (None, ?d)"
    using s by (simp add: apply_result_def Let_def)
  have v: "vectors ?d \<noteq> [] \<and> v_message_id (hd (vectors ?d)) = 1" by code_simp
  have "v_model (hd (vectors ?d)) = ec_EmbedModel sample_config"
    by (rule vector_model_ignores_override [OF _ _ a]) (use s v in simp_all)
  then show ?thesis by (simp add: sample_config_def embed_model_name_def)
qed

end
