(* ===== verification/Webhook.thy ===== *)
theory Webhook
  imports Go_Time Bus
begin

text \<open>
  Webhook settings and payloads (\<open>internal/webhook/webhook.go\<close>): which events may be
  subscribed, which URLs are accepted, what a delivery carries, and its signature. A
  payload of the bus is a value of \<open>go_any\<close>: a struct is given by the object that
  marshalling and unmarshalling it yields (\<open>None\<close> when that fails). URL and IP parsing
  and HMAC-SHA256 are parameters.
\<close>

section \<open>Subscriptions\<close>

definition event_test :: string where "event_test = ''webhook.test''"

definition hook_events :: "string list" where
  "hook_events = map event_name
     [EventMessageSynced, EventMessageUpdated, EventMessageDeleted, EventFolderSynced,
      EventSyncComplete, EventSyncError, EventCacheCleaned, EventEnrichmentDone,
      EventEnrichmentError, EventAnomalyDetected, EventRuleFired, EventHoldDigest,
      EventRuleSuggested, EventUnsubscribeDone, EventScreenerDecided, EventAccountConnected,
      EventAccountError, EventAccountDisconnect]"

datatype events_error = EventsRequired | UnknownEvent string

definition validate_events :: "string list \<Rightarrow> events_error option" where
  "validate_events es =
     (if es = [] then Some EventsRequired
      else map_option UnknownEvent (find (\<lambda>e. e \<noteq> ''*'' \<and> e \<notin> set hook_events) es))"

definition subscribed :: "string list \<Rightarrow> string \<Rightarrow> bool" where
  "subscribed es ev =
     (if ev = event_test then True
      else ev \<in> set es \<or> (''*'' \<in> set es \<and> ev \<in> set hook_events))"

section \<open>URLs\<close>

record parsed_url =
  u_Scheme :: string
  u_Host :: string
  u_Hostname :: string
  u_User :: bool

datatype url_error = NotAbsolute | HasCredentials | HttpNotLoopback | BadScheme

definition validate_url ::
  "(string \<Rightarrow> parsed_url option) \<Rightarrow> (string \<Rightarrow> bool) \<Rightarrow> string \<Rightarrow> url_error option" where
  "validate_url parse loopback_ip raw =
     (case parse raw of
        None \<Rightarrow> Some NotAbsolute
      | Some u \<Rightarrow>
          (if u_Host u = [] then Some NotAbsolute
           else if u_User u then Some HasCredentials
           else if u_Scheme u = ''https'' then None
           else if u_Scheme u = ''http''
           then (if u_Hostname u = ''localhost'' then None
                 else if loopback_ip (u_Hostname u) then None
                 else Some HttpNotLoopback)
           else Some BadScheme))"

section \<open>Signatures\<close>

definition hex_digit :: "nat \<Rightarrow> char" where
  "hex_digit n = (if n < 10 then char_of (48 + n) else char_of (87 + n))"

definition hex_encode :: "string \<Rightarrow> string" where
  "hex_encode bs = concat (map (\<lambda>c. let n = (of_char c :: nat) in [hex_digit (n div 16), hex_digit (n mod 16)]) bs)"

definition signed_bytes :: "gotime \<Rightarrow> string \<Rightarrow> string" where
  "signed_bytes ts body = show_int (time_unix ts) @ ''.'' @ body"

definition sign :: "(string \<Rightarrow> string \<Rightarrow> string) \<Rightarrow> string \<Rightarrow> gotime \<Rightarrow> string \<Rightarrow> string" where
  "sign hmac secret ts body =
     ''t='' @ show_int (time_unix ts) @ '',v1='' @ hex_encode (hmac secret (signed_bytes ts body))"

section \<open>Payloads\<close>

datatype json =
    JNull | JBool bool | JNum string | JStr string | JArr "json list" | JObj "(string \<times> json) list"

type_synonym jmap = "(string \<times> json) list"

datatype go_any = GNil | GStr string | GErr string | GMap jmap | GStruct "jmap option"

definition as_map :: "go_any \<Rightarrow> jmap option" where
  "as_map p = (case p of GMap m \<Rightarrow> Some m | GStruct m \<Rightarrow> m | _ \<Rightarrow> None)"

text \<open>Lookup in a map that may be nil.\<close>

definition jget :: "jmap option \<Rightarrow> string \<Rightarrow> json option" where
  "jget m k = (case m of None \<Rightarrow> None | Some xs \<Rightarrow> map_of xs k)"

definition metadata_keys :: "string list" where
  "metadata_keys =
     [''folder'', ''uid'', ''id'', ''message_id'', ''rule_id'', ''action'', ''matched'', ''flags'',
      ''anomaly_id'', ''kind'', ''new'', ''cached'', ''removed'', ''flags_updated'', ''rebuilt'',
      ''type'', ''severity'', ''suggested'', ''created'', ''approved'', ''blocked'', ''moved'', ''via'',
      ''method'', ''status'', ''status_code'', ''archived'', ''held'', ''waiting'']"

fun pick_keys :: "jmap option \<Rightarrow> string list \<Rightarrow> jmap" where
  "pick_keys m [] = []"
| "pick_keys m (k # ks) =
     (case jget m k of
        Some v \<Rightarrow> (if v \<noteq> JNull then (k, v) # pick_keys m ks else pick_keys m ks)
      | None \<Rightarrow> pick_keys m ks)"

definition metadata :: "'a \<times> go_any \<Rightarrow> jmap option" where
  "metadata e =
     (let m = as_map (snd e);
          out = pick_keys m metadata_keys;
          out = (case jget m ''MessageID'' of Some v \<Rightarrow> alist_put ''message_id'' v out | None \<Rightarrow> out);
          out = (case jget m ''error'' of
                   Some v \<Rightarrow> (if v \<noteq> JStr [] \<and> v \<noteq> JNull then alist_put ''failed'' (JBool True) out else out)
                 | None \<Rightarrow> out)
      in if out = [] then None else Some out)"

definition payload_metadata :: string where "payload_metadata = ''metadata''"
definition payload_full :: string where "payload_full = ''full''"

fun field_rest :: "string \<Rightarrow> bool" where
  "field_rest [] = True"
| "field_rest (c # cs) =
     ((c = CHR ''_'' \<or> is_digit c \<or> (97 \<le> (of_char c :: nat) \<and> (of_char c :: nat) \<le> 122)) \<and> field_rest cs)"

definition field_name :: "string \<Rightarrow> bool" where
  "field_name s = (case s of [] \<Rightarrow> False
     | c # cs \<Rightarrow> (c = CHR ''_'' \<or> (97 \<le> (of_char c :: nat) \<and> (of_char c :: nat) \<le> 122)) \<and> field_rest cs)"

text \<open>\<open>Inl\<close> is the error with the offending field.\<close>

definition normalize_payload :: "string \<Rightarrow> string list \<Rightarrow> string + string" where
  "normalize_payload p0 events =
     (let p = to_lower (trim_space p0) in
      if p = []
      then (if ''*'' \<in> set events \<or> event_name EventRuleSuggested \<in> set events
            then Inr payload_full else Inr payload_metadata)
      else if p = payload_full \<or> p = payload_metadata then Inr p
      else (let fields = map trim_space (split_on (CHR '','') p) in
            case find (\<lambda>f. \<not> field_name f) fields of
              Some f \<Rightarrow> Inl f
            | None \<Rightarrow> Inr (str_join '','' fields)))"

fun pick_fields :: "jmap option \<Rightarrow> string list \<Rightarrow> jmap \<Rightarrow> jmap" where
  "pick_fields m [] out = out"
| "pick_fields m (f # fs) out =
     pick_fields m fs (case jget m f of Some v \<Rightarrow> alist_put f v out | None \<Rightarrow> out)"

text \<open>\<open>Shape\<close>: \<open>None\<close> is a nil map.\<close>

definition shape :: "'a \<times> go_any \<Rightarrow> string \<Rightarrow> jmap option" where
  "shape e payload =
     (if payload = [] \<or> payload = payload_metadata then metadata e
      else (let full = as_map (snd e) in
            if payload = payload_full
            then (case full of
                    Some m \<Rightarrow> Some m
                  | None \<Rightarrow> (case snd e of
                       GStr s \<Rightarrow> (if s \<noteq> [] then Some [(''error'', JStr s)] else None)
                     | GErr s \<Rightarrow> Some [(''error'', JStr s)]
                     | _ \<Rightarrow> None))
            else (let out = pick_fields full (split_on (CHR '','') payload) [] in
                  if out = [] then None else Some out)))"

record hook_payload =
  hp_DeliveryID :: string
  hp_Event :: string
  hp_Timestamp :: gotime
  hp_Account :: string
  hp_Data :: "jmap option"

section \<open>What a metadata delivery carries\<close>

lemma pick_keys_sub: "(k, v) \<in> set (pick_keys m ks) \<Longrightarrow> k \<in> set ks \<and> jget m k = Some v"
  by (induction ks) (auto split: option.splits if_splits)

lemma alist_put_sub: "(k, v) \<in> set (alist_put k' v' xs) \<Longrightarrow> (k = k' \<and> v = v') \<or> (k, v) \<in> set xs"
  by (induction xs) (auto split: if_splits)

text \<open>A delivery in the metadata form carries only allowlisted fields of the payload, the
  message id of an enrichment result, and the flag \<open>failed\<close>; plain string payloads (error
  texts) are dropped. Nothing else of the event leaves the process.\<close>

theorem metadata_is_allowlisted:
  assumes "shape e payload_metadata = Some out" and "(k, v) \<in> set out"
  shows "k \<in> set metadata_keys \<and> jget (as_map (snd e)) k = Some v \<or>
    k = ''message_id'' \<and> jget (as_map (snd e)) ''MessageID'' = Some v \<or>
    k = ''failed'' \<and> v = JBool True"
proof -
  define out1 where "out1 = pick_keys (as_map (snd e)) metadata_keys"
  define out2 where "out2 = (case jget (as_map (snd e)) ''MessageID'' of
      Some v \<Rightarrow> alist_put ''message_id'' v out1 | None \<Rightarrow> out1)"
  define out3 where "out3 = (case jget (as_map (snd e)) ''error'' of
      Some v \<Rightarrow> (if v \<noteq> JStr [] \<and> v \<noteq> JNull then alist_put ''failed'' (JBool True) out2 else out2)
    | None \<Rightarrow> out2)"
  have "metadata e = (if out3 = [] then None else Some out3)"
    unfolding metadata_def Let_def out3_def out2_def out1_def ..
  then have "out = out3" using assms(1) by (simp add: shape_def split: if_splits)
  with assms(2) have "(k, v) \<in> set out2 \<or> k = ''failed'' \<and> v = JBool True"
    by (auto simp: out3_def dest: alist_put_sub split: option.splits if_splits)
  moreover have "(k, v) \<in> set out2 \<Longrightarrow>
      (k, v) \<in> set out1 \<or> k = ''message_id'' \<and> jget (as_map (snd e)) ''MessageID'' = Some v"
    by (auto simp: out2_def dest: alist_put_sub split: option.splits)
  ultimately show ?thesis using pick_keys_sub unfolding out1_def by blast
qed

theorem metadata_is_allowlisted_witness:
  "''failed'' \<in> set metadata_keys \<and> jget (as_map (GMap [(''error'', JStr ''x''), (''sender'', JStr ''s'')])) ''failed'' = Some (JBool True) \<or>
   ''failed'' = ''message_id'' \<and> jget (as_map (GMap [(''error'', JStr ''x''), (''sender'', JStr ''s'')])) ''MessageID'' = Some (JBool True) \<or>
   ''failed'' = ''failed'' \<and> JBool True = JBool True"
proof -
  let ?e = "((), GMap [(''error'', JStr ''x''), (''sender'', JStr ''s'')])"
  have "shape ?e payload_metadata = Some [(''failed'', JBool True)]" by code_simp
  from metadata_is_allowlisted [OF this, of "''failed''" "JBool True"] show ?thesis by simp
qed

section \<open>Settings and signatures\<close>

lemma show_int_no_dot: "CHR ''.'' \<notin> set (show_int i)"
  using show_nat_digits [of "CHR ''.''"] by (auto simp: show_int_def is_digit_def)

text \<open>The bytes that are signed determine the timestamp and the body: a receiver that
  accepts a signature accepts it for one timestamp and one body only (up to the HMAC).\<close>

theorem signed_bytes_injective:
  "signed_bytes t body = signed_bytes t' body' \<longleftrightarrow> time_unix t = time_unix t' \<and> body = body'"
proof
  assume "signed_bytes t body = signed_bytes t' body'"
  then have "show_int (time_unix t) = show_int (time_unix t') \<and> body = body'"
    by (intro append_sep_inj [OF _ show_int_no_dot show_int_no_dot]) (simp add: signed_bytes_def)
  then show "time_unix t = time_unix t' \<and> body = body'" using show_int_inj by blast
qed (simp add: signed_bytes_def)

definition name_char :: "char \<Rightarrow> bool" where
  "name_char c = (c = CHR ''_'' \<or> is_digit c \<or> (97 \<le> (of_char c :: nat) \<and> (of_char c :: nat) \<le> 122))"

lemma field_name_chars: "field_name s \<Longrightarrow> s \<noteq> [] \<and> (\<forall>c\<in>set s. name_char c)"
proof -
  have "field_rest cs \<Longrightarrow> \<forall>c\<in>set cs. name_char c" for cs
    by (induction cs) (auto simp: name_char_def)
  then show "field_name s \<Longrightarrow> s \<noteq> [] \<and> (\<forall>c\<in>set s. name_char c)"
    by (cases s) (auto simp: field_name_def name_char_def)
qed

lemma name_char_plain: "name_char c \<Longrightarrow> \<not> is_space c \<and> lower_char c = c \<and> c \<noteq> CHR '',''"
  by (auto simp: name_char_def is_space_def lower_char_def is_digit_def Let_def)

text \<open>A stored payload setting is stable: normalising it again, with any subscription list,
  gives the same setting. So re-saving a webhook cannot widen what it sends.\<close>

theorem normalize_payload_stable:
  assumes "normalize_payload p events = Inr q"
  shows "normalize_payload q events' = Inr q"
proof (cases "q = payload_full \<or> q = payload_metadata")
  case True
  then show ?thesis by (elim disjE; simp only:; code_simp)
next
  case False
  define fs where "fs = map trim_space (split_on (CHR '','') (to_lower (trim_space p)))"
  have q: "q = str_join '','' fs" and ok: "\<forall>f\<in>set fs. field_name f"
    using assms False
    by (auto simp: normalize_payload_def Let_def fs_def find_None_iff split: if_splits option.splits)
  have ne: "fs \<noteq> []"
    unfolding fs_def by (cases "to_lower (trim_space p)") (auto split: list.split)
  have nc: "\<forall>f\<in>set fs. f \<noteq> [] \<and> (\<forall>c\<in>set f. name_char c)" using ok field_name_chars by blast
  have qne: "q \<noteq> []" "hd q = hd (hd fs)" "last q = last (last fs)"
    using str_join_ends [of fs "'',''"] nc ne unfolding q by auto
  have "hd (hd fs) \<in> set (hd fs)" "last (last fs) \<in> set (last fs)" "hd fs \<in> set fs" "last fs \<in> set fs"
    using nc ne by auto
  then have "name_char (hd q)" "name_char (last q)" using nc qne by auto
  then have "trim_space q = q" by (intro trim_space_id) (auto dest: name_char_plain)
  moreover have "to_lower q = q"
  proof -
    have "lower_char c = c" if "c \<in> set q" for c
    proof (cases "c = CHR '',''")
      case True
      then show ?thesis by (simp add: lower_char_def)
    next
      case False
      with that set_str_join [of "'',''" fs] obtain f where "f \<in> set fs" "c \<in> set f" unfolding q by auto
      with nc show ?thesis by (auto dest: name_char_plain)
    qed
    then show ?thesis by (simp add: to_lower_def map_idI)
  qed
  moreover have "split_on (CHR '','') q = fs"
    unfolding q using nc ne by (intro split_on_join) (auto dest: name_char_plain)
  moreover have "map trim_space fs = fs"
  proof (rule map_idI)
    fix f assume "f \<in> set fs"
    with nc have "f \<noteq> []" "name_char (hd f)" "name_char (last f)" by auto
    then show "trim_space f = f" by (intro trim_space_id) (auto dest: name_char_plain)
  qed
  ultimately show ?thesis
    using qne(1) False ok q by (auto simp: normalize_payload_def Let_def find_None_iff split: option.split)
qed

theorem normalize_payload_stable_witness:
  "normalize_payload ''folder,uid'' [''*''] = Inr ''folder,uid''"
proof -
  have "normalize_payload '' Folder, uid '' [] = Inr ''folder,uid''" by code_simp
  then show ?thesis by (rule normalize_payload_stable)
qed

end
