(* ===== verification/Outbox.thy ===== *)
theory Outbox
  imports Webhook
begin

text \<open>
  The durable webhook outbox (\<open>internal/db/webhooks.go\<close>): the tables \<open>webhooks\<close> and
  \<open>webhook_deliveries\<close> as lists of rows in insertion order, and every repository
  operation. SQLite errors are not modelled; violating a foreign key or the UNIQUE
  delivery id is.
\<close>

record webhook =
  w_ID :: nat
  w_URL :: string
  w_Events :: "string list"
  w_Active :: bool
  w_CreatedAt :: int
  w_LastFired :: int
  w_FailCount :: int
  w_Payload :: string
  w_Secret :: string

datatype delivery_status = DPending | DDelivered | DFailed

record delivery =
  dl_ID :: nat
  dl_WebhookID :: nat
  dl_DeliveryID :: string
  dl_Event :: string
  dl_Payload :: string
  dl_Status :: delivery_status
  dl_Attempts :: nat
  dl_NextAttempt :: int
  dl_LastStatus :: int
  dl_LastError :: string
  dl_CreatedAt :: int
  dl_DoneAt :: "int option"

record hook_db =
  hd_hooks :: "webhook list"
  hd_deliveries :: "delivery list"
  hd_next_hook :: nat
  hd_next_delivery :: nat
  hd_now :: int                 \<comment> \<open>\<open>unixepoch()\<close>\<close>

definition empty_hook_db :: hook_db where
  "empty_hook_db = \<lparr>hd_hooks = [], hd_deliveries = [], hd_next_hook = 1, hd_next_delivery = 1, hd_now = 0\<rparr>"

section \<open>Webhooks\<close>

definition hook_create :: "string \<Rightarrow> string list \<Rightarrow> string \<Rightarrow> string \<Rightarrow> hook_db \<Rightarrow> nat \<times> hook_db" where
  "hook_create url events secret payload d =
     (let i = hd_next_hook d in
      (i, d\<lparr>hd_hooks := hd_hooks d @ [\<lparr>w_ID = i, w_URL = url, w_Events = events, w_Active = True,
              w_CreatedAt = hd_now d, w_LastFired = 0, w_FailCount = 0, w_Payload = payload, w_Secret = secret\<rparr>],
            hd_next_hook := Suc i\<rparr>))"

definition hook_list :: "hook_db \<Rightarrow> webhook list" where
  "hook_list d = map (\<lambda>w. w\<lparr>w_Secret := []\<rparr>) (hd_hooks d)"

definition hook_active :: "hook_db \<Rightarrow> webhook list" where
  "hook_active d = filter w_Active (hd_hooks d)"

definition hook_get :: "nat \<Rightarrow> hook_db \<Rightarrow> webhook option" where
  "hook_get i d = find (\<lambda>w. w_ID w = i) (hd_hooks d)"

definition hook_pending :: "nat \<Rightarrow> hook_db \<Rightarrow> nat" where
  "hook_pending i d = length (filter (\<lambda>x. dl_WebhookID x = i \<and> dl_Status x = DPending) (hd_deliveries d))"

text \<open>The result \<open>False\<close> is \<open>ErrWebhookNotFound\<close>.\<close>

definition hook_delete :: "nat \<Rightarrow> hook_db \<Rightarrow> bool \<times> hook_db" where
  "hook_delete i d =
     (list_ex (\<lambda>w. w_ID w = i) (hd_hooks d),
      d\<lparr>hd_hooks := filter (\<lambda>w. w_ID w \<noteq> i) (hd_hooks d),
        hd_deliveries := filter (\<lambda>x. dl_WebhookID x \<noteq> i) (hd_deliveries d)\<rparr>)"

definition upd_hook :: "nat \<Rightarrow> (webhook \<Rightarrow> webhook) \<Rightarrow> hook_db \<Rightarrow> hook_db" where
  "upd_hook i f d = d\<lparr>hd_hooks := map (\<lambda>w. if w_ID w = i then f w else w) (hd_hooks d)\<rparr>"

definition upd_delivery :: "nat \<Rightarrow> (delivery \<Rightarrow> delivery) \<Rightarrow> hook_db \<Rightarrow> hook_db" where
  "upd_delivery i f d = d\<lparr>hd_deliveries := map (\<lambda>x. if dl_ID x = i then f x else x) (hd_deliveries d)\<rparr>"

definition hook_set_active :: "nat \<Rightarrow> bool \<Rightarrow> hook_db \<Rightarrow> bool \<times> hook_db" where
  "hook_set_active i active d =
     (list_ex (\<lambda>w. w_ID w = i) (hd_hooks d),
      upd_hook i (\<lambda>w. if active then w\<lparr>w_Active := True, w_FailCount := 0\<rparr> else w\<lparr>w_Active := False\<rparr>) d)"

section \<open>Deliveries\<close>

text \<open>\<open>None\<close>: the webhook is gone or the delivery id is taken.\<close>

definition hook_enqueue :: "nat \<Rightarrow> string \<Rightarrow> string \<Rightarrow> string \<Rightarrow> hook_db \<Rightarrow> hook_db option" where
  "hook_enqueue i delivery_id ev payload d =
     (if list_ex (\<lambda>w. w_ID w = i) (hd_hooks d) \<and> \<not> list_ex (\<lambda>x. dl_DeliveryID x = delivery_id) (hd_deliveries d)
      then Some (d\<lparr>hd_deliveries := hd_deliveries d @
               [\<lparr>dl_ID = hd_next_delivery d, dl_WebhookID = i, dl_DeliveryID = delivery_id, dl_Event = ev,
                 dl_Payload = payload, dl_Status = DPending, dl_Attempts = 0, dl_NextAttempt = hd_now d,
                 dl_LastStatus = 0, dl_LastError = [], dl_CreatedAt = hd_now d, dl_DoneAt = None\<rparr>],
             hd_next_delivery := Suc (hd_next_delivery d)\<rparr>)
      else None)"

text \<open>The id is the primary key, so the webhook of a delivery is the row that \<open>hook_get\<close> finds.\<close>

definition hook_is_active :: "nat \<Rightarrow> hook_db \<Rightarrow> bool" where
  "hook_is_active i d = (case hook_get i d of None \<Rightarrow> False | Some w \<Rightarrow> w_Active w)"

definition is_due :: "gotime \<Rightarrow> hook_db \<Rightarrow> delivery \<Rightarrow> bool" where
  "is_due now d x = (dl_Status x = DPending \<and> dl_NextAttempt x \<le> time_unix now \<and>
     hook_is_active (dl_WebhookID x) d)"

definition hook_due :: "gotime \<Rightarrow> nat \<Rightarrow> hook_db \<Rightarrow> delivery list" where
  "hook_due now limit d = take limit (sort_key dl_ID (filter (is_due now d) (hd_deliveries d)))"

definition hook_deliveries :: "nat \<Rightarrow> nat \<Rightarrow> hook_db \<Rightarrow> delivery list" where
  "hook_deliveries i limit d =
     take limit (rev (sort_key dl_ID (filter (\<lambda>x. dl_WebhookID x = i) (hd_deliveries d))))"

definition hook_delivered :: "delivery \<Rightarrow> int \<Rightarrow> gotime \<Rightarrow> hook_db \<Rightarrow> hook_db" where
  "hook_delivered x status now d =
     upd_hook (dl_WebhookID x) (\<lambda>w. w\<lparr>w_LastFired := time_unix now, w_FailCount := 0\<rparr>)
       (upd_delivery (dl_ID x) (\<lambda>y. y\<lparr>dl_Status := DDelivered, dl_Attempts := Suc (dl_Attempts y),
          dl_LastStatus := status, dl_LastError := [], dl_DoneAt := Some (time_unix now)\<rparr>) d)"

text \<open>\<open>None\<close>: the webhook is gone and the transaction is rolled back. The result carries the
  failure count and whether the webhook is (now) disabled.\<close>

definition hook_failed ::
  "delivery \<Rightarrow> int \<Rightarrow> string \<Rightarrow> gotime \<Rightarrow> gotime \<Rightarrow> int \<Rightarrow> hook_db \<Rightarrow> (int \<times> bool \<times> hook_db) option" where
  "hook_failed x status msg next now disable_after d =
     (case hook_get (dl_WebhookID x) d of
        None \<Rightarrow> None
      | Some w \<Rightarrow>
          (let d1 = upd_delivery (dl_ID x) (\<lambda>y.
                 if next = zero_time
                 then y\<lparr>dl_Status := DFailed, dl_Attempts := Suc (dl_Attempts y), dl_LastStatus := status,
                        dl_LastError := msg, dl_DoneAt := Some (time_unix now)\<rparr>
                 else y\<lparr>dl_Attempts := Suc (dl_Attempts y), dl_LastStatus := status, dl_LastError := msg,
                        dl_NextAttempt := time_unix next\<rparr>) d;
               fails = w_FailCount w + 1;
               d2 = upd_hook (dl_WebhookID x) (\<lambda>w. w\<lparr>w_FailCount := w_FailCount w + 1\<rparr>) d1;
               disabled = (disable_after > 0 \<and> fails \<ge> disable_after);
               d3 = (if disabled then upd_hook (dl_WebhookID x) (\<lambda>w. w\<lparr>w_Active := False\<rparr>) d2 else d2)
           in Some (fails, disabled, d3)))"

definition hook_prune :: "gotime \<Rightarrow> gotime \<Rightarrow> hook_db \<Rightarrow> nat \<times> hook_db" where
  "hook_prune delivered_before failed_before d =
     (let old = (\<lambda>x. case dl_DoneAt x of None \<Rightarrow> False
                  | Some t \<Rightarrow> (dl_Status x = DDelivered \<and> t < time_unix delivered_before) \<or>
                              (dl_Status x = DFailed \<and> t < time_unix failed_before))
      in (length (filter old (hd_deliveries d)),
          d\<lparr>hd_deliveries := filter (\<lambda>x. \<not> old x) (hd_deliveries d)\<rparr>))"

section \<open>Well-formedness\<close>

definition hooks_wf :: "hook_db \<Rightarrow> bool" where
  "hooks_wf d \<longleftrightarrow> distinct (map w_ID (hd_hooks d)) \<and> (\<forall>i\<in>set (map w_ID (hd_hooks d)). i < hd_next_hook d) \<and>
     distinct (map dl_ID (hd_deliveries d)) \<and> (\<forall>i\<in>set (map dl_ID (hd_deliveries d)). i < hd_next_delivery d) \<and>
     set (map dl_WebhookID (hd_deliveries d)) \<subseteq> set (map w_ID (hd_hooks d))"

definition same_hook :: "(webhook \<Rightarrow> webhook) \<Rightarrow> bool" where
  "same_hook f = (\<forall>w. w_ID (f w) = w_ID w)"

definition same_delivery :: "(delivery \<Rightarrow> delivery) \<Rightarrow> bool" where
  "same_delivery f = (\<forall>x. dl_ID (f x) = dl_ID x \<and> dl_WebhookID (f x) = dl_WebhookID x)"

lemma upd_hook_sel [simp]:
  "hd_deliveries (upd_hook i f d) = hd_deliveries d" "hd_next_hook (upd_hook i f d) = hd_next_hook d"
  "hd_next_delivery (upd_hook i f d) = hd_next_delivery d"
  "hd_hooks (upd_hook i f d) = map (\<lambda>w. if w_ID w = i then f w else w) (hd_hooks d)"
  by (simp_all add: upd_hook_def)

lemma upd_delivery_sel [simp]:
  "hd_hooks (upd_delivery i f d) = hd_hooks d" "hd_next_hook (upd_delivery i f d) = hd_next_hook d"
  "hd_next_delivery (upd_delivery i f d) = hd_next_delivery d"
  "hd_deliveries (upd_delivery i f d) = map (\<lambda>x. if dl_ID x = i then f x else x) (hd_deliveries d)"
  by (simp_all add: upd_delivery_def)

lemma hooks_wf_upd_hook: "same_hook f \<Longrightarrow> hooks_wf d \<Longrightarrow> hooks_wf (upd_hook i f d)"
proof -
  assume f: "same_hook f" and wf: "hooks_wf d"
  then have "map w_ID (hd_hooks (upd_hook i f d)) = map w_ID (hd_hooks d)" by (simp add: same_hook_def)
  with wf show ?thesis by (simp only: hooks_wf_def upd_hook_sel(1-3); blast)
qed

lemma hooks_wf_upd_delivery: "same_delivery f \<Longrightarrow> hooks_wf d \<Longrightarrow> hooks_wf (upd_delivery i f d)"
proof -
  assume f: "same_delivery f" and wf: "hooks_wf d"
  then have "map dl_ID (hd_deliveries (upd_delivery i f d)) = map dl_ID (hd_deliveries d)"
    and "map dl_WebhookID (hd_deliveries (upd_delivery i f d)) = map dl_WebhookID (hd_deliveries d)"
    by (simp_all add: same_delivery_def)
  with wf show ?thesis by (simp only: hooks_wf_def upd_delivery_sel(1-3); blast)
qed

lemma hooks_wf_delivered: "hooks_wf d \<Longrightarrow> hooks_wf (hook_delivered x st now d)"
  unfolding hook_delivered_def
  by (intro hooks_wf_upd_hook hooks_wf_upd_delivery) (simp_all add: same_hook_def same_delivery_def)

lemma hooks_wf_failed: "hook_failed x st msg nx now da d = Some (n, b, d') \<Longrightarrow> hooks_wf d \<Longrightarrow> hooks_wf d'"
proof -
  assume h: "hook_failed x st msg nx now da d = Some (n, b, d')" and wf: "hooks_wf d"
  have upd: "hooks_wf (upd_hook i (\<lambda>w. w\<lparr>w_FailCount := w_FailCount w + 1\<rparr>) (upd_delivery j (\<lambda>y.
                 if nx = zero_time
                 then y\<lparr>dl_Status := DFailed, dl_Attempts := Suc (dl_Attempts y), dl_LastStatus := st,
                        dl_LastError := msg, dl_DoneAt := Some (time_unix now)\<rparr>
                 else y\<lparr>dl_Attempts := Suc (dl_Attempts y), dl_LastStatus := st, dl_LastError := msg,
                        dl_NextAttempt := time_unix nx\<rparr>) d))" for i j
    by (intro hooks_wf_upd_hook hooks_wf_upd_delivery) (simp_all add: same_hook_def same_delivery_def wf)
  have "same_hook (\<lambda>w. w\<lparr>w_Active := False\<rparr>)" by (simp add: same_hook_def)
  with h upd show ?thesis
    by (auto simp: hook_failed_def Let_def split: option.splits if_splits intro: hooks_wf_upd_hook)
qed

lemma hooks_wf_create: "hooks_wf d \<Longrightarrow> hooks_wf (snd (hook_create u es s p d))"
  unfolding hooks_wf_def hook_create_def Let_def by (auto simp: less_Suc_eq)

lemma hooks_wf_enqueue: "hook_enqueue i did ev p d = Some d' \<Longrightarrow> hooks_wf d \<Longrightarrow> hooks_wf d'"
  unfolding hooks_wf_def hook_enqueue_def
  by (auto simp: list_ex_iff less_Suc_eq split: if_splits) (meson less_irrefl_nat, blast)

lemma hooks_wf_delete: "hooks_wf d \<Longrightarrow> hooks_wf (snd (hook_delete i d))"
  unfolding hooks_wf_def hook_delete_def
  by (auto simp: distinct_map_filter)

lemma hooks_wf_prune: "hooks_wf d \<Longrightarrow> hooks_wf (snd (hook_prune a b d))"
  unfolding hooks_wf_def hook_prune_def Let_def
  by (auto simp: distinct_map_filter)

end
