(* ===== verification/Dispatch.thy ===== *)
theory Dispatch
  imports Outbox
begin

text \<open>
  Enqueuing and dispatching webhook deliveries (\<open>internal/webhook/dispatch.go\<close>). The clock
  is a function of the number of readings so far, the answer of the endpoint a function of
  the number of requests so far; the context is a countdown of its checks as in the sync
  engine. Marshalling a payload and generating delivery ids are parameters.
\<close>

section \<open>Policy\<close>

definition MaxAttempts :: nat where "MaxAttempts = 12"
definition BaseBackoff :: int where "BaseBackoff = 30 * ns_per_sec"
definition MaxBackoff :: int where "MaxBackoff = ns_per_hour"
definition DisableAfter :: int where "DisableAfter = 100"
definition KeepDelivered :: int where "KeepDelivered = 7 * 24 * ns_per_hour"
definition KeepFailed :: int where "KeepFailed = 30 * 24 * ns_per_hour"
definition batch_limit :: nat where "batch_limit = 50"
definition subscriberMaxAge :: int where "subscriberMaxAge = 10 * ns_per_sec"

text \<open>The loop of \<open>Backoff\<close>: \<open>n\<close> iterations are left.\<close>

fun backoff_loop :: "nat \<Rightarrow> int \<Rightarrow> int" where
  "backoff_loop 0 d = d"
| "backoff_loop (Suc n) d = (if d < MaxBackoff then backoff_loop n (d * 2) else d)"

definition backoff :: "nat \<Rightarrow> int" where
  "backoff attempt = min (backoff_loop (attempt - 1) BaseBackoff) MaxBackoff"

section \<open>The enqueuer\<close>

record enqueuer =
  eq_hooks :: "webhook list"
  eq_fetched :: gotime
  eq_db :: hook_db
  eq_wakes :: nat
  eq_ids :: nat                 \<comment> \<open>how many delivery ids were drawn\<close>

record enqueue_env =
  eo_now :: gotime
  eo_id :: "nat \<Rightarrow> string"
  eo_marshal :: "hook_payload \<Rightarrow> string option"

definition enq_invalidate :: "enqueuer \<Rightarrow> enqueuer" where
  "enq_invalidate q = q\<lparr>eq_fetched := zero_time\<rparr>"

definition enq_subscribers :: "enqueue_env \<Rightarrow> enqueuer \<Rightarrow> webhook list \<times> enqueuer" where
  "enq_subscribers e q =
     (if time_sub (eo_now e) (eq_fetched q) < subscriberMaxAge then (eq_hooks q, q)
      else (let hooks = hook_active (eq_db q) in (hooks, q\<lparr>eq_hooks := hooks, eq_fetched := eo_now e\<rparr>)))"

text \<open>\<open>enqueue\<close>: \<open>None\<close> is an error (the payload does not marshal, or the insert fails).\<close>

definition enq_one ::
  "enqueue_env \<Rightarrow> nat \<Rightarrow> string \<Rightarrow> go_any event \<Rightarrow> enqueuer \<Rightarrow> bool \<times> enqueuer" where
  "enq_one e i payload ev q0 =
     (let did = eo_id e (eq_ids q0);
          q = q0\<lparr>eq_ids := Suc (eq_ids q0)\<rparr>;
          p = \<lparr>hp_DeliveryID = did, hp_Event = event_name (ev_Type ev), hp_Timestamp = eo_now e,
               hp_Account = ev_Account ev, hp_Data = shape (ev_Type ev, ev_Payload ev) payload\<rparr>
      in case eo_marshal e p of
           None \<Rightarrow> (False, q)
         | Some body \<Rightarrow>
             (case hook_enqueue i did (hp_Event p) body (eq_db q) of
                None \<Rightarrow> (False, q)
              | Some d \<Rightarrow> (True, q\<lparr>eq_db := d\<rparr>)))"

fun enq_each :: "enqueue_env \<Rightarrow> go_any event \<Rightarrow> webhook list \<Rightarrow> nat \<Rightarrow> enqueuer \<Rightarrow> nat \<times> enqueuer" where
  "enq_each e ev [] n q = (n, q)"
| "enq_each e ev (w # ws) n q =
     (if event_name (ev_Type ev) = event_test \<or> \<not> subscribed (w_Events w) (event_name (ev_Type ev))
      then enq_each e ev ws n q
      else (let (ok, q) = enq_one e (w_ID w) (w_Payload w) ev q in
            enq_each e ev ws (if ok then Suc n else n) q))"

definition enq_handle :: "enqueue_env \<Rightarrow> go_any event \<Rightarrow> enqueuer \<Rightarrow> enqueuer" where
  "enq_handle e ev q0 =
     (let (ws, q) = enq_subscribers e q0; (n, q) = enq_each e ev ws 0 q in
      if n > 0 then q\<lparr>eq_wakes := Suc (eq_wakes q)\<rparr> else q)"

definition enq_for :: "enqueue_env \<Rightarrow> nat \<Rightarrow> go_any event \<Rightarrow> enqueuer \<Rightarrow> bool \<times> enqueuer" where
  "enq_for e i ev q = enq_one e i payload_metadata ev q"

section \<open>One delivery\<close>

datatype post_outcome = RequestError string | TransportFailure string | Status int

text \<open>\<open>post\<close>: the status and the error text, if any.\<close>

definition post_result :: "post_outcome \<Rightarrow> int \<times> string option" where
  "post_result r = (case r of
       RequestError err \<Rightarrow> (0, Some err)
     | TransportFailure err \<Rightarrow> (0, Some (''request failed: '' @ err))
     | Status s \<Rightarrow> (s, if s < 200 \<or> s > 299 then Some (''HTTP '' @ show_int s) else None))"

definition post_headers ::
  "(string \<Rightarrow> string \<Rightarrow> string) \<Rightarrow> webhook \<Rightarrow> delivery \<Rightarrow> gotime \<Rightarrow> (string \<times> string) list" where
  "post_headers hmac w x now =
     [(''Content-Type'', ''application/json''), (''User-Agent'', ''imap-mcp-webhook''),
      (''X-Imap-Mcp-Event'', dl_Event x), (''X-Imap-Mcp-Delivery'', dl_DeliveryID x),
      (''X-Imap-Mcp-Signature'', sign hmac (w_Secret w) now (dl_Payload x))]"

datatype hook_event = HookDelivered nat string | HookFailed nat string int bool

record dispatch_env =
  de_clock :: "nat \<Rightarrow> gotime"
  de_post :: "nat \<Rightarrow> post_outcome"

record dispatcher =
  ds_db :: hook_db
  ds_clock :: nat
  ds_posts :: nat
  ds_events :: "hook_event list"
  ds_ctx :: "nat option"

definition ds_tick :: "dispatch_env \<Rightarrow> dispatcher \<Rightarrow> gotime \<times> dispatcher" where
  "ds_tick e s = (de_clock e (ds_clock s), s\<lparr>ds_clock := Suc (ds_clock s)\<rparr>)"

definition ds_post :: "dispatch_env \<Rightarrow> dispatcher \<Rightarrow> post_outcome \<times> dispatcher" where
  "ds_post e s = (de_post e (ds_posts s), s\<lparr>ds_posts := Suc (ds_posts s)\<rparr>)"

definition ds_cancelled :: "dispatcher \<Rightarrow> bool \<times> dispatcher" where
  "ds_cancelled s = (case ds_ctx s of
       None \<Rightarrow> (False, s)
     | Some 0 \<Rightarrow> (True, s)
     | Some (Suc k) \<Rightarrow> (False, s\<lparr>ds_ctx := Some k\<rparr>))"

definition next_attempt :: "gotime \<Rightarrow> delivery \<Rightarrow> gotime" where
  "next_attempt now x = (if Suc (dl_Attempts x) < MaxAttempts then now + backoff (Suc (dl_Attempts x)) else zero_time)"

definition deliver :: "dispatch_env \<Rightarrow> webhook \<Rightarrow> delivery \<Rightarrow> dispatcher \<Rightarrow> bool \<times> dispatcher" where
  "deliver e w x s0 =
     (let (now, s) = ds_tick e s0; (out, s) = ds_post e s; (status, err) = post_result out in
      case err of
        None \<Rightarrow>
          (let (t, s) = ds_tick e s in
           (False, s\<lparr>ds_db := hook_delivered x status t (ds_db s),
                     ds_events := ds_events s @ [HookDelivered (w_ID w) (dl_DeliveryID x)]\<rparr>))
      | Some msg \<Rightarrow>
          (let nx = next_attempt now x;
               (fails, disabled, d) = (case hook_failed x status msg nx now DisableAfter (ds_db s) of
                  None \<Rightarrow> (0, False, ds_db s) | Some r \<Rightarrow> r);
               s = s\<lparr>ds_db := d\<rparr>
           in (disabled,
               if nx = zero_time \<or> disabled
               then s\<lparr>ds_events := ds_events s @ [HookFailed (w_ID w) (dl_DeliveryID x) fails disabled]\<rparr>
               else s)))"

section \<open>A batch\<close>

text \<open>The local map \<open>hooks\<close> of \<open>RunOnce\<close> and the number of attempts travel with the state.\<close>

type_synonym batch_state = "(nat \<rightharpoonup> webhook) \<times> nat \<times> dispatcher"

definition attempt :: "dispatch_env \<Rightarrow> delivery \<Rightarrow> batch_state \<Rightarrow> batch_state" where
  "attempt e x b =
     (let (hooks, cnt, s) = b;
          found = (case hooks (dl_WebhookID x) of Some w \<Rightarrow> Some w | None \<Rightarrow> hook_get (dl_WebhookID x) (ds_db s))
      in case found of
           None \<Rightarrow> b
         | Some w \<Rightarrow>
             (let hooks = hooks(dl_WebhookID x \<mapsto> w) in
              if \<not> w_Active w then (hooks, cnt, s)
              else (let (disabled, s) = deliver e w x s in
                    (if disabled then hooks(dl_WebhookID x \<mapsto> w\<lparr>w_Active := False\<rparr>) else hooks, Suc cnt, s))))"

section \<open>Work left in the outbox\<close>

definition delivery_work :: "delivery \<Rightarrow> nat" where
  "delivery_work x = (if dl_Status x = DPending then max 1 (MaxAttempts - dl_Attempts x) else 0)"

definition outbox_work :: "hook_db \<Rightarrow> nat" where
  "outbox_work d = sum_list (map delivery_work (hd_deliveries d))"

text \<open>Progress of a loop whose steps never add work: the contract between the dispatcher's
  loop and the outbox.\<close>

locale progress =
  fixes work :: "'s \<Rightarrow> nat" and step :: "'r \<Rightarrow> 's \<Rightarrow> 's" and live :: "'r \<Rightarrow> 's \<Rightarrow> bool"
  assumes step_le: "work (step r s) \<le> work s"
    and step_less: "live r s \<Longrightarrow> work (step r s) < work s"
begin

lemma fold_le: "work (fold step rs s) \<le> work s"
  by (induction rs arbitrary: s) (auto intro: order_trans step_le)

lemma fold_less: "rs \<noteq> [] \<Longrightarrow> live (hd rs) s \<Longrightarrow> work (fold step rs s) < work s"
  using step_less fold_le by (cases rs) (auto intro: le_less_trans [OF fold_le])

end

lemma sum_list_map_le:
  "(\<And>x. x \<in> set xs \<Longrightarrow> (f :: 'a \<Rightarrow> nat) x \<le> g x) \<Longrightarrow> sum_list (map f xs) \<le> sum_list (map g xs)"
  by (rule sum_list_mono)

lemma sum_list_map_less:
  assumes "\<And>x. x \<in> set xs \<Longrightarrow> (f :: 'a \<Rightarrow> nat) x \<le> g x" and "y \<in> set xs" "f y < g y"
  shows "sum_list (map f xs) < sum_list (map g xs)"
  using assms
proof (induction xs)
  case (Cons x xs)
  have le: "sum_list (map f xs) \<le> sum_list (map g xs)" using Cons.prems(1) by (intro sum_list_map_le) simp
  show ?case
  proof (cases "f x < g x")
    case True
    with le show ?thesis by simp
  next
    case False
    with Cons have "sum_list (map f xs) < sum_list (map g xs)" by auto
    with Cons.prems(1) [of x] show ?thesis by (simp add: add_le_less_mono)
  qed
qed simp

lemma outbox_work_upd:
  assumes "\<And>y. y \<in> set (hd_deliveries d) \<Longrightarrow> delivery_work (f y) \<le> delivery_work y"
  shows "outbox_work (upd_delivery i f d) \<le> outbox_work d"
    and "y \<in> set (hd_deliveries d) \<Longrightarrow> dl_ID y = i \<Longrightarrow> delivery_work (f y) < delivery_work y \<Longrightarrow>
      outbox_work (upd_delivery i f d) < outbox_work d"
proof -
  let ?g = "\<lambda>x. delivery_work (if dl_ID x = i then f x else x)"
  have eq: "outbox_work (upd_delivery i f d) = sum_list (map ?g (hd_deliveries d))"
    by (simp only: outbox_work_def upd_delivery_sel map_map comp_def)
  show "outbox_work (upd_delivery i f d) \<le> outbox_work d"
    unfolding eq unfolding outbox_work_def by (rule sum_list_map_le) (simp add: assms)
  show "y \<in> set (hd_deliveries d) \<Longrightarrow> dl_ID y = i \<Longrightarrow> delivery_work (f y) < delivery_work y \<Longrightarrow>
      outbox_work (upd_delivery i f d) < outbox_work d"
    unfolding eq unfolding outbox_work_def by (rule sum_list_map_less [where y = y]) (simp_all add: assms)
qed

lemma outbox_work_upd_hook [simp]: "outbox_work (upd_hook i f d) = outbox_work d"
  by (simp add: outbox_work_def)

lemma hook_delivered_work:
  "outbox_work (hook_delivered x st t d) \<le> outbox_work d"
  "x \<in> set (hd_deliveries d) \<Longrightarrow> dl_Status x = DPending \<Longrightarrow> outbox_work (hook_delivered x st t d) < outbox_work d"
  unfolding hook_delivered_def outbox_work_upd_hook
  by (rule outbox_work_upd(1), simp add: delivery_work_def)
    (rule outbox_work_upd(2) [where y = x], simp_all add: delivery_work_def)

definition failed_row :: "int \<Rightarrow> string \<Rightarrow> gotime \<Rightarrow> gotime \<Rightarrow> delivery \<Rightarrow> delivery" where
  "failed_row status msg nx now y =
     (if nx = zero_time
      then y\<lparr>dl_Status := DFailed, dl_Attempts := Suc (dl_Attempts y), dl_LastStatus := status,
             dl_LastError := msg, dl_DoneAt := Some (time_unix now)\<rparr>
      else y\<lparr>dl_Attempts := Suc (dl_Attempts y), dl_LastStatus := status, dl_LastError := msg,
             dl_NextAttempt := time_unix nx\<rparr>)"

lemma hook_failed_deliveries:
  assumes "hook_failed x st msg nx now da d = Some (n, b, d')"
  shows "hd_deliveries d' = hd_deliveries (upd_delivery (dl_ID x) (failed_row st msg nx now) d)"
  using assms by (auto simp: hook_failed_def Let_def failed_row_def split: option.splits if_splits)

lemma failed_row_work: "delivery_work (failed_row st msg nx now y) \<le> delivery_work y"
  by (auto simp: failed_row_def delivery_work_def)

lemma hook_failed_work:
  assumes "hook_failed x st msg nx now da d = Some (n, b, d')"
  shows "outbox_work d' \<le> outbox_work d"
    and "x \<in> set (hd_deliveries d) \<Longrightarrow> dl_Status x = DPending \<Longrightarrow> nx = next_attempt now x \<Longrightarrow> outbox_work d' < outbox_work d"
proof -
  have eq: "outbox_work d' = outbox_work (upd_delivery (dl_ID x) (failed_row st msg nx now) d)"
    using hook_failed_deliveries [OF assms] by (simp add: outbox_work_def)
  show "outbox_work d' \<le> outbox_work d"
    unfolding eq by (rule outbox_work_upd(1)) (rule failed_row_work)
  assume x: "x \<in> set (hd_deliveries d)" "dl_Status x = DPending" "nx = next_attempt now x"
  then have "delivery_work (failed_row st msg nx now x) < delivery_work x"
    by (auto simp: failed_row_def delivery_work_def next_attempt_def)
  with x(1) show "outbox_work d' < outbox_work d"
    unfolding eq by (intro outbox_work_upd(2)) (auto intro: failed_row_work)
qed

lemma deliver_work:
  "outbox_work (ds_db (snd (deliver e w x s))) \<le> outbox_work (ds_db s)"
  "x \<in> set (hd_deliveries (ds_db s)) \<Longrightarrow> dl_Status x = DPending \<Longrightarrow> hook_get (dl_WebhookID x) (ds_db s) \<noteq> None \<Longrightarrow>
     outbox_work (ds_db (snd (deliver e w x s))) < outbox_work (ds_db s)"
proof -
  let ?now = "fst (ds_tick e s)" and ?r = "post_result (fst (ds_post e (snd (ds_tick e s))))"
  have db: "ds_db (snd (ds_post e s)) = ds_db s" "ds_db (snd (ds_tick e s)) = ds_db s" for s
    by (simp_all add: ds_post_def ds_tick_def)
  have suc: "snd ?r = None \<Longrightarrow> \<exists>t. ds_db (snd (deliver e w x s)) = hook_delivered x (fst ?r) t (ds_db s)"
    by (auto simp: deliver_def Let_def split_beta db)
  have fail: "snd ?r = Some msg \<Longrightarrow> ds_db (snd (deliver e w x s)) =
      (case hook_failed x (fst ?r) msg (next_attempt ?now x) ?now DisableAfter (ds_db s) of
         None \<Rightarrow> ds_db s | Some y \<Rightarrow> snd (snd y))" for msg
    by (simp add: deliver_def Let_def split_beta db split: option.split)
  show "outbox_work (ds_db (snd (deliver e w x s))) \<le> outbox_work (ds_db s)"
  proof (cases "snd ?r")
    case None
    then show ?thesis using suc hook_delivered_work(1) by metis
  next
    case (Some msg)
    show ?thesis
      unfolding fail [OF Some]
      by (auto simp del: post_result_def split: option.split intro: hook_failed_work(1))
  qed
  assume x: "x \<in> set (hd_deliveries (ds_db s))" "dl_Status x = DPending" "hook_get (dl_WebhookID x) (ds_db s) \<noteq> None"
  show "outbox_work (ds_db (snd (deliver e w x s))) < outbox_work (ds_db s)"
  proof (cases "snd ?r")
    case None
    then show ?thesis using suc hook_delivered_work(2) x(1,2) by metis
  next
    case (Some msg)
    obtain n b d' where f: "hook_failed x (fst ?r) msg (next_attempt ?now x) ?now DisableAfter (ds_db s) = Some (n, b, d')"
      using x(3) by (auto simp: hook_failed_def Let_def)
    show ?thesis
      unfolding fail [OF Some] f using hook_failed_work(2) [OF f x(1,2) refl] by simp
  qed
qed

text \<open>The first delivery of a batch is attempted: nothing is known of its webhook yet.\<close>

definition live :: "delivery \<Rightarrow> batch_state \<Rightarrow> bool" where
  "live x b = (case b of (hooks, cnt, s) \<Rightarrow> hooks = Map.empty \<and> x \<in> set (hd_deliveries (ds_db s)) \<and>
     dl_Status x = DPending \<and> hook_is_active (dl_WebhookID x) (ds_db s))"

definition batch_work :: "batch_state \<Rightarrow> nat" where
  "batch_work b = outbox_work (ds_db (snd (snd b)))"

lemma attempt_work: "batch_work (attempt e x b) \<le> batch_work b"
  using deliver_work(1) by (auto simp: attempt_def batch_work_def Let_def split_beta split: option.split)

interpretation dispatch_progress: progress batch_work "attempt e" live for e
proof unfold_locales
  show "batch_work (attempt e x b) \<le> batch_work b" for x b by (rule attempt_work)
  show "live x b \<Longrightarrow> batch_work (attempt e x b) < batch_work b" for x b
    using deliver_work(2) [of x "snd (snd b)"]
    by (auto simp: live_def attempt_def batch_work_def hook_is_active_def Let_def split_beta split: option.splits)
qed

section \<open>The dispatcher's loop\<close>

text \<open>One iteration of the loop of \<open>RunOnce\<close>; the flag tells whether it continues.\<close>

definition run_batch :: "dispatch_env \<Rightarrow> nat \<Rightarrow> dispatcher \<Rightarrow> bool \<times> nat \<times> dispatcher" where
  "run_batch e cnt s0 =
     (let (cancelled, s) = ds_cancelled s0 in
      if cancelled then (False, cnt, s)
      else (let (now, s) = ds_tick e s; due = hook_due now batch_limit (ds_db s) in
            if due = [] then (False, cnt, s)
            else (let (hooks, cnt, s) = fold (attempt e) due (Map.empty, cnt, s)
                  in (\<not> length due < batch_limit, cnt, s))))"

lemma due_head_live:
  assumes "hook_due now n (ds_db s) \<noteq> []"
  shows "live (hd (hook_due now n (ds_db s))) (Map.empty, cnt, s)"
proof -
  have "hd (hook_due now n (ds_db s)) \<in> set (hook_due now n (ds_db s))" using assms by simp
  then have "hd (hook_due now n (ds_db s)) \<in> set (filter (is_due now (ds_db s)) (hd_deliveries (ds_db s)))"
    unfolding hook_due_def by (auto dest: in_set_takeD)
  then show ?thesis by (simp add: live_def is_due_def)
qed

lemma run_batch_work:
  assumes "run_batch e cnt s0 = (True, cnt', s')"
  shows "outbox_work (ds_db s') < outbox_work (ds_db s0)"
proof -
  define s where "s = snd (ds_tick e (snd (ds_cancelled s0)))"
  define due where "due = hook_due (fst (ds_tick e (snd (ds_cancelled s0)))) batch_limit (ds_db s)"
  have db: "ds_db s = ds_db s0"
    by (simp add: s_def ds_tick_def ds_cancelled_def split: option.split nat.split)
  from assms have ne: "due \<noteq> []" and eq: "s' = snd (snd (fold (attempt e) due (Map.empty, cnt, s)))"
    by (auto simp: run_batch_def Let_def split_beta s_def due_def split: if_splits)
  have "live (hd due) (Map.empty, cnt, s)" using due_head_live ne unfolding due_def by blast
  from dispatch_progress.fold_less [OF ne this] show ?thesis by (simp add: batch_work_def eq db)
qed

function run_batches :: "dispatch_env \<Rightarrow> nat \<Rightarrow> dispatcher \<Rightarrow> nat \<times> dispatcher" where
  "run_batches e cnt s =
     (let (again, cnt', s') = run_batch e cnt s in
      if again then run_batches e cnt' s' else (cnt', s'))"
  by pat_completeness auto
termination
  by (relation "measure (\<lambda>(e, cnt, s). outbox_work (ds_db s))") (auto dest: run_batch_work [OF sym])

declare run_batches.simps [simp del]

definition dispatch_once :: "dispatch_env \<Rightarrow> dispatcher \<Rightarrow> nat \<times> dispatcher" where
  "dispatch_once e s = run_batches e 0 s"

text \<open>One round of \<open>Run\<close>: pruning when the last one is over an hour old, then \<open>RunOnce\<close>.\<close>

definition dispatch_round :: "dispatch_env \<Rightarrow> gotime \<times> dispatcher \<Rightarrow> gotime \<times> dispatcher" where
  "dispatch_round e p =
     (let (last_prune, s) = p;
          (now, s) = ds_tick e s;
          (last_prune, s) =
            (if time_sub now last_prune > ns_per_hour
             then (let (now, s) = ds_tick e s in
                   (now, s\<lparr>ds_db := snd (hook_prune (now - KeepDelivered) (now - KeepFailed) (ds_db s))\<rparr>))
             else (last_prune, s))
      in (last_prune, snd (dispatch_once e s)))"

end
