(* ===== verification/Dispatch_Props.thy ===== *)
theory Dispatch_Props
  imports Dispatch "HOL-Library.Multiset"
begin

text \<open>
  Properties of the webhook dispatcher: backoff, the bound on attempts, completeness of one
  \<open>RunOnce\<close> and automatic disabling.
\<close>

section \<open>Effects of one attempt\<close>

lemma hook_get_upd:
  assumes "same_hook f"
  shows "hook_get j (upd_hook i f d) = map_option (\<lambda>w. if j = i then f w else w) (hook_get j d)"
proof -
  have "find (\<lambda>w. w_ID w = j) (map (\<lambda>w. if w_ID w = i then f w else w) ws) =
      map_option (\<lambda>w. if j = i then f w else w) (find (\<lambda>w. w_ID w = j) ws)" for ws
    using assms by (induction ws) (auto simp: same_hook_def)
  then show ?thesis by (simp add: hook_get_def)
qed

lemma hook_get_upd_delivery [simp]: "hook_get j (upd_delivery i f d) = hook_get j d"
  by (simp add: hook_get_def)

definition upd_delivery :: "nat \<Rightarrow> (delivery \<Rightarrow> delivery) \<Rightarrow> delivery list \<Rightarrow> delivery list" where
  "upd_delivery i g xs = map (\<lambda>y. if dl_ID y = i then g y else y) xs"

text \<open>What an attempt may do to the row of the delivery it handles: at the attempt limit it
  is final, and it is not due again at the time of the attempt.\<close>

definition settles :: "(gotime \<Rightarrow> bool) \<Rightarrow> delivery \<Rightarrow> (delivery \<Rightarrow> delivery) \<Rightarrow> bool" where
  "settles at_time x g = (same_delivery g \<and> (\<forall>y. dl_Attempts (g y) = Suc (dl_Attempts y)) \<and>
     (Suc (dl_Attempts x) \<ge> MaxAttempts \<longrightarrow> (\<forall>y. dl_Status (g y) \<noteq> DPending)) \<and>
     (\<forall>t y. at_time t \<longrightarrow> dl_Status (g y) \<noteq> DPending \<or> time_unix t < dl_NextAttempt (g y)))"

lemma backoff_loop_ge: "0 < d \<Longrightarrow> d \<le> backoff_loop n d"
proof (induction n arbitrary: d)
  case (Suc n)
  from Suc.IH [of "d * 2"] Suc.prems show ?case by simp
qed simp

lemma backoff_pos: "30 * ns_per_sec \<le> backoff n"
  using backoff_loop_ge [of BaseBackoff "n - 1"]
  by (simp add: backoff_def BaseBackoff_def MaxBackoff_def ns_per_sec_def ns_per_hour_def)

lemma next_attempt_later:
  assumes "next_attempt t x \<noteq> zero_time"
  shows "time_unix t < time_unix (next_attempt t x)"
proof -
  have "next_attempt t x = t + backoff (Suc (dl_Attempts x))" using assms by (simp add: next_attempt_def split: if_splits)
  then have "t + ns_per_sec \<le> next_attempt t x" using backoff_pos [of "Suc (dl_Attempts x)"] by (simp add: ns_per_sec_def)
  then have "(t + ns_per_sec) div ns_per_sec \<le> next_attempt t x div ns_per_sec"
    by (rule zdiv_mono1) (simp add: ns_per_sec_def)
  moreover have "(t + ns_per_sec) div ns_per_sec = t div ns_per_sec + 1" by (simp add: ns_per_sec_def)
  ultimately show ?thesis by (simp add: time_unix_def)
qed

lemma delivered_settles:
  "settles P x (\<lambda>y. y\<lparr>dl_Status := DDelivered, dl_Attempts := Suc (dl_Attempts y),
     dl_LastStatus := st, dl_LastError := [], dl_DoneAt := Some t\<rparr>)"
  by (simp add: settles_def same_delivery_def)

lemma failed_settles: "settles (\<lambda>t. t = now) x (failed_row st msg (next_attempt now x) now)"
proof -
  have "Suc (dl_Attempts x) \<ge> MaxAttempts \<Longrightarrow> next_attempt now x = zero_time" by (simp add: next_attempt_def)
  then show ?thesis
    using next_attempt_later [of now x]
    by (auto simp: settles_def same_delivery_def failed_row_def)
qed

lemma hook_failed_active:
  assumes "hook_failed x st msg nx now da d = Some (n, dis, d')"
  shows "hook_is_active j d' = (if j = dl_WebhookID x \<and> dis then False else hook_is_active j d)"
    and "hook_get j d' = None \<longleftrightarrow> hook_get j d = None"
proof -
  have s: "same_hook (\<lambda>w. w\<lparr>w_FailCount := w_FailCount w + 1\<rparr>)" "same_hook (\<lambda>w. w\<lparr>w_Active := False\<rparr>)"
    by (simp_all add: same_hook_def)
  show "hook_is_active j d' = (if j = dl_WebhookID x \<and> dis then False else hook_is_active j d)"
    using assms by (auto simp: hook_failed_def Let_def hook_is_active_def hook_get_upd s split: option.splits if_splits)
  show "hook_get j d' = None \<longleftrightarrow> hook_get j d = None"
    using assms by (auto simp: hook_failed_def Let_def hook_get_upd s split: option.splits if_splits)
qed

lemma hook_delivered_active:
  "hook_is_active j (hook_delivered x st t d) = hook_is_active j d"
  "hook_get j (hook_delivered x st t d) = None \<longleftrightarrow> hook_get j d = None"
proof -
  have s: "same_hook (\<lambda>w. w\<lparr>w_LastFired := time_unix t, w_FailCount := 0\<rparr>)" by (simp add: same_hook_def)
  show "hook_is_active j (hook_delivered x st t d) = hook_is_active j d"
    by (auto simp: hook_delivered_def hook_is_active_def hook_get_upd s split: option.split)
  show "hook_get j (hook_delivered x st t d) = None \<longleftrightarrow> hook_get j d = None"
    by (auto simp: hook_delivered_def hook_get_upd s)
qed

lemma deliver_effect:
  assumes "hook_get (dl_WebhookID x) (ds_db s) \<noteq> None" and "deliver e w x s = (dis, s')"
  obtains g where "settles (\<lambda>t. t = de_clock e (ds_clock s)) x g"
    "hd_deliveries (ds_db s') = upd_delivery (dl_ID x) g (hd_deliveries (ds_db s))"
    "\<And>j. hook_is_active j (ds_db s') = (if j = dl_WebhookID x \<and> dis then False else hook_is_active j (ds_db s))"
    "\<And>j. hook_get j (ds_db s') = None \<longleftrightarrow> hook_get j (ds_db s) = None"
    "ds_ctx s' = ds_ctx s"
proof -
  let ?now = "de_clock e (ds_clock s)" and ?r = "post_result (de_post e (ds_posts s))"
  show thesis
  proof (cases "snd ?r")
    case None
    then have dis: "dis = False" and ctx: "ds_ctx s' = ds_ctx s"
      and db: "ds_db s' = hook_delivered x (fst ?r) (de_clock e (Suc (ds_clock s))) (ds_db s)"
      using assms(2) by (auto simp: deliver_def ds_tick_def ds_post_def Let_def split_beta)
    show thesis
      by (rule that [OF delivered_settles [of _ x "time_unix (de_clock e (Suc (ds_clock s)))" "fst ?r"]])
        (simp_all add: db dis ctx hook_delivered_active, simp add: hook_delivered_def upd_delivery_def)
  next
    case (Some msg)
    obtain n b d' where f: "hook_failed x (fst ?r) msg (next_attempt ?now x) ?now DisableAfter (ds_db s) = Some (n, b, d')"
      using assms(1) by (auto simp: hook_failed_def Let_def)
    then have dis: "dis = b" and ctx: "ds_ctx s' = ds_ctx s" and db: "ds_db s' = d'"
      using assms(2) Some by (auto simp: deliver_def ds_tick_def ds_post_def Let_def split_beta)
    show thesis
      by (rule that [OF failed_settles [of ?now x "fst ?r" msg]])
        (simp_all add: db dis ctx hook_failed_active [OF f] hook_failed_deliveries [OF f] upd_delivery_def)
  qed
qed

section \<open>Effects of a batch\<close>

text \<open>The local map agrees with the table.\<close>

definition in_sync :: "batch_state \<Rightarrow> bool" where
  "in_sync b = (case b of (hooks, n, s) \<Rightarrow>
     \<forall>j w. hooks j = Some w \<longrightarrow> hook_get j (ds_db s) \<noteq> None \<and> w_Active w = hook_is_active j (ds_db s))"

lemma attempt_effect:
  assumes "in_sync b"
  obtains (idle) "attempt e x b = (fst (attempt e x b), fst (snd b), snd (snd b))"
      "in_sync (attempt e x b)" "\<not> hook_is_active (dl_WebhookID x) (ds_db (snd (snd b)))"
    | (made) g where "settles (\<lambda>t. t = de_clock e (ds_clock (snd (snd b)))) x g" "in_sync (attempt e x b)"
      "hd_deliveries (ds_db (snd (snd (attempt e x b)))) = upd_delivery (dl_ID x) g (hd_deliveries (ds_db (snd (snd b))))"
      "\<And>j. hook_is_active j (ds_db (snd (snd (attempt e x b)))) \<Longrightarrow> hook_is_active j (ds_db (snd (snd b)))"
      "ds_ctx (snd (snd (attempt e x b))) = ds_ctx (snd (snd b))"
proof -
  obtain hooks n s where b: "b = (hooks, n, s)" by (cases b)
  define i where "i = dl_WebhookID x"
  define found where "found = (case hooks i of Some w \<Rightarrow> Some w | None \<Rightarrow> hook_get i (ds_db s))"
  have found_ok: "found = Some w \<Longrightarrow> hook_get i (ds_db s) \<noteq> None \<and> w_Active w = hook_is_active i (ds_db s)" for w
    using assms by (auto simp: found_def b in_sync_def hook_is_active_def split: option.splits)
  have at0: "attempt e x b = (case found of
           None \<Rightarrow> b
         | Some w \<Rightarrow>
             (let hooks = hooks(i \<mapsto> w) in
              if \<not> w_Active w then (hooks, n, s)
              else (let (disabled, s) = deliver e w x s in
                    (if disabled then hooks(i \<mapsto> w\<lparr>w_Active := False\<rparr>) else hooks, Suc n, s))))"
    unfolding found_def i_def b attempt_def Let_def prod.case by (rule refl)
  show thesis
  proof (cases found)
    case None
    then have "attempt e x b = b" by (simp add: at0)
    moreover have "\<not> hook_is_active i (ds_db s)"
      using None by (auto simp: found_def hook_is_active_def split: option.splits)
    ultimately show thesis using idle assms by (simp add: b i_def)
  next
    case (Some w)
    note ok = found_ok [OF Some]
    show thesis
    proof (cases "w_Active w")
      case False
      then have at: "attempt e x b = (hooks(i \<mapsto> w), n, s)"
        using Some by (simp add: at0)
      have "in_sync (hooks(i \<mapsto> w), n, s)" using assms ok by (auto simp: in_sync_def b)
      with at False ok show thesis using idle by (simp add: b i_def)
    next
      case True
      obtain dis s' where dl: "deliver e w x s = (dis, s')" by (cases "deliver e w x s")
      have at: "attempt e x b = (if dis then hooks(i \<mapsto> w\<lparr>w_Active := False\<rparr>) else hooks(i \<mapsto> w), Suc n, s')"
        using Some True by (simp add: at0 dl)
      from ok have known: "hook_get (dl_WebhookID x) (ds_db s) \<noteq> None" by (simp add: i_def)
      obtain g where g: "settles (\<lambda>t. t = de_clock e (ds_clock s)) x g"
        "hd_deliveries (ds_db s') = upd_delivery (dl_ID x) g (hd_deliveries (ds_db s))"
        "\<And>j. hook_is_active j (ds_db s') = (if j = dl_WebhookID x \<and> dis then False else hook_is_active j (ds_db s))"
        "\<And>j. hook_get j (ds_db s') = None \<longleftrightarrow> hook_get j (ds_db s) = None" "ds_ctx s' = ds_ctx s"
        by (rule deliver_effect [OF known dl]) (rule that; assumption)
      have g4: "(\<exists>y. hook_get j (ds_db s') = Some y) = (\<exists>y. hook_get j (ds_db s) = Some y)" for j
        using g(4) [of j] by (metis not_None_eq)
      have "in_sync (attempt e x b)"
        using assms ok True unfolding at by (auto simp: in_sync_def b g(3) g4 i_def)
      moreover have "snd (snd (attempt e x b)) = s'" unfolding at by simp
      moreover have "snd (snd b) = s" by (simp add: b)
      ultimately show thesis
        by (intro made [of g]) (simp_all add: g(1,2,5) g(3) split: if_splits)
    qed
  qed
qed

text \<open>The deliveries of a batch are the rows of the table with their ids.\<close>

definition current :: "delivery list \<Rightarrow> hook_db \<Rightarrow> bool" where
  "current xs d = (\<forall>x\<in>set xs. \<forall>y\<in>set (hd_deliveries d). dl_ID y = dl_ID x \<longrightarrow> y = x)"

definition bounded :: "hook_db \<Rightarrow> bool" where
  "bounded d = (\<forall>y\<in>set (hd_deliveries d). dl_Attempts y \<le> MaxAttempts \<and>
     (dl_Status y = DPending \<longrightarrow> dl_Attempts y < MaxAttempts))"

definition due_ids :: "gotime \<Rightarrow> hook_db \<Rightarrow> nat set" where
  "due_ids t d = dl_ID ` {y \<in> set (hd_deliveries d). is_due t d y}"

abbreviation bdb :: "batch_state \<Rightarrow> hook_db" where "bdb b \<equiv> ds_db (snd (snd b))"

lemma set_upd_rows:
  "y \<in> set (upd_delivery i g xs) \<longleftrightarrow> (\<exists>z\<in>set xs. y = (if dl_ID z = i then g z else z))"
  by (simp only: upd_delivery_def set_map image_iff)

lemma settles_id: "settles P x g \<Longrightarrow> dl_ID (g y) = dl_ID y \<and> dl_WebhookID (g y) = dl_WebhookID y"
  by (simp add: settles_def same_delivery_def)

lemma attempt_current:
  assumes "in_sync b" and "current (x # xs) (bdb b)" and "distinct (map dl_ID (x # xs))"
  shows "current xs (bdb (attempt e x b))"
  using assms(1)
proof (cases rule: attempt_effect [where e = e and x = x])
  case idle
  then have "bdb (attempt e x b) = bdb b" by (metis snd_conv)
  with assms(2) show ?thesis by (simp add: current_def)
next
  case (made g)
  show ?thesis
    unfolding current_def made(3)
  proof (intro ballI impI)
    fix u y assume u: "u \<in> set xs" and y: "y \<in> set (upd_delivery (dl_ID x) g (hd_deliveries (bdb b)))" "dl_ID y = dl_ID u"
    have "dl_ID x \<notin> dl_ID ` set xs" using assms(3) by simp
    with u have ne: "dl_ID u \<noteq> dl_ID x" by (metis imageI)
    from y(1) obtain z where z: "z \<in> set (hd_deliveries (bdb b))" "y = (if dl_ID z = dl_ID x then g z else z)"
      by (auto simp: set_upd_rows)
    have "dl_ID z \<noteq> dl_ID x" using z(2) y(2) ne settles_id [OF made(1), of z] by auto
    then have "y = z" using z(2) by simp
    with z(1) u y(2) assms(2) show "y = u" by (auto simp: current_def)
  qed
qed

lemma attempt_bounded:
  assumes "in_sync b" and "current (x # xs) (bdb b)" and "dl_Status x = DPending" and "bounded (bdb b)"
  shows "bounded (bdb (attempt e x b))"
  using assms(1)
proof (cases rule: attempt_effect [where e = e and x = x])
  case idle
  then have "bdb (attempt e x b) = bdb b" by (metis snd_conv)
  with assms(4) show ?thesis by simp
next
  case (made g)
  show ?thesis
    unfolding bounded_def made(3)
  proof
    fix y assume "y \<in> set (upd_delivery (dl_ID x) g (hd_deliveries (bdb b)))"
    then obtain z where z: "z \<in> set (hd_deliveries (bdb b))" "y = (if dl_ID z = dl_ID x then g z else z)"
      by (auto simp: set_upd_rows)
    show "dl_Attempts y \<le> MaxAttempts \<and> (dl_Status y = DPending \<longrightarrow> dl_Attempts y < MaxAttempts)"
    proof (cases "dl_ID z = dl_ID x")
      case True
      with z(1) assms(2) have "z = x" by (auto simp: current_def)
      with z True have y: "y = g x" and "x \<in> set (hd_deliveries (bdb b))" by auto
      then have "dl_Attempts x < MaxAttempts" using assms(3,4) by (auto simp: bounded_def)
      with made(1) y show ?thesis by (auto simp: settles_def)
    next
      case False
      with z assms(4) show ?thesis by (simp add: bounded_def)
    qed
  qed
qed

text \<open>A clock that does not go back.\<close>

definition steady :: "dispatch_env \<Rightarrow> bool" where
  "steady e = (\<forall>n m. n \<le> m \<longrightarrow> de_clock e n \<le> de_clock e m)"

lemma time_unix_mono: "t \<le> u \<Longrightarrow> time_unix t \<le> time_unix u"
  by (simp add: time_unix_def ns_per_sec_def zdiv_mono1)

lemma due_ids_mono: "t \<le> u \<Longrightarrow> due_ids t d \<subseteq> due_ids u d"
  using time_unix_mono [of t u] by (auto simp: due_ids_def is_due_def)

lemma deliver_clock: "ds_clock s \<le> ds_clock (snd (deliver e w x s))"
  by (simp add: deliver_def ds_tick_def ds_post_def Let_def split_beta split: option.split)

lemma attempt_clock: "ds_clock (snd (snd b)) \<le> ds_clock (snd (snd (attempt e x b)))"
  using deliver_clock by (auto simp: attempt_def Let_def split_beta split: option.split)

lemma fold_clock: "ds_clock (snd (snd b)) \<le> ds_clock (snd (snd (fold (attempt e) xs b)))"
proof (induction xs arbitrary: b)
  case (Cons x xs)
  have "ds_clock (snd (snd b)) \<le> ds_clock (snd (snd (attempt e x b)))" by (rule attempt_clock)
  also have "\<dots> \<le> ds_clock (snd (snd (fold (attempt e) xs (attempt e x b))))" by (rule Cons.IH)
  finally show ?case by simp
qed simp

lemma run_batch_clock:
  assumes "run_batch e cnt s = (again, cnt', s')"
  shows "ds_clock s \<le> ds_clock s'"
proof -
  have c: "ds_clock (snd (ds_cancelled s)) = ds_clock s" by (simp add: ds_cancelled_def split: option.split nat.split)
  let ?s2 = "snd (ds_tick e (snd (ds_cancelled s)))"
  have "ds_clock s' = ds_clock s \<or> ds_clock s' = ds_clock ?s2 \<or> (\<exists>due. s' = snd (snd (fold (attempt e) due (Map.empty, cnt, ?s2))))"
    using assms c by (auto simp: run_batch_def Let_def split_beta split: if_splits) (metis snd_conv)+
  moreover have "ds_clock ?s2 = Suc (ds_clock s)" by (simp add: ds_tick_def c)
  moreover have "ds_clock ?s2 \<le> ds_clock (snd (snd (fold (attempt e) due (Map.empty, cnt, ?s2))))" for due
    using fold_clock [of "(Map.empty, cnt, ?s2)"] by simp
  ultimately show ?thesis by (metis Suc_leD le_SucI order_refl)
qed

lemma attempt_due:
  assumes "in_sync b" and "current (x # xs) (bdb b)" and "t \<le> de_clock e (ds_clock (snd (snd b)))"
  shows "due_ids t (bdb (attempt e x b)) \<subseteq> due_ids t (bdb b) - {dl_ID x}"
  using assms(1)
proof (cases rule: attempt_effect [where e = e and x = x])
  case idle
  then have "bdb (attempt e x b) = bdb b" by (metis snd_conv)
  moreover have "dl_ID x \<notin> due_ids t (bdb b)"
    using assms(2) idle(3) by (auto simp: due_ids_def current_def is_due_def)
  ultimately show ?thesis by simp
next
  case (made g)
  show ?thesis
  proof
    fix i assume "i \<in> due_ids t (bdb (attempt e x b))"
    then obtain y where y: "y \<in> set (upd_delivery (dl_ID x) g (hd_deliveries (bdb b)))" "is_due t (bdb (attempt e x b)) y" "i = dl_ID y"
      by (auto simp: due_ids_def made(3))
    then obtain z where z: "z \<in> set (hd_deliveries (bdb b))" "y = (if dl_ID z = dl_ID x then g z else z)"
      by (auto simp: set_upd_rows)
    have "dl_ID z \<noteq> dl_ID x"
    proof
      assume eq: "dl_ID z = dl_ID x"
      have "dl_Status (g z) \<noteq> DPending \<or> time_unix (de_clock e (ds_clock (snd (snd b)))) < dl_NextAttempt (g z)"
        using made(1) by (simp add: settles_def)
      then have "dl_Status (g z) \<noteq> DPending \<or> time_unix t < dl_NextAttempt (g z)"
        using time_unix_mono [OF assms(3)] by auto
      with y(2) z(2) eq show False by (auto simp: is_due_def)
    qed
    with z y made(4) show "i \<in> due_ids t (bdb b) - {dl_ID x}" by (auto simp: due_ids_def is_due_def)
  qed
qed

lemma attempt_frame:
  assumes "in_sync b"
  shows "in_sync (attempt e x b)" and "ds_ctx (snd (snd (attempt e x b))) = ds_ctx (snd (snd b))"
    and "map dl_ID (hd_deliveries (bdb (attempt e x b))) = map dl_ID (hd_deliveries (bdb b))"
proof -
  have "in_sync (attempt e x b) \<and> ds_ctx (snd (snd (attempt e x b))) = ds_ctx (snd (snd b)) \<and>
      map dl_ID (hd_deliveries (bdb (attempt e x b))) = map dl_ID (hd_deliveries (bdb b))"
    using assms
  proof (cases rule: attempt_effect [where e = e and x = x])
    case idle
    then have "snd (snd (attempt e x b)) = snd (snd b)" by (metis snd_conv)
    with idle show ?thesis by simp
  next
    case (made g)
    have "map dl_ID (upd_delivery i g ds) = map dl_ID ds" for i ds
      using settles_id [OF made(1)] by (simp add: upd_delivery_def)
    with made show ?thesis by simp
  qed
  then show "in_sync (attempt e x b)" "ds_ctx (snd (snd (attempt e x b))) = ds_ctx (snd (snd b))"
    "map dl_ID (hd_deliveries (bdb (attempt e x b))) = map dl_ID (hd_deliveries (bdb b))" by blast+
qed

lemma fold_frame:
  "in_sync b \<Longrightarrow> in_sync (fold (attempt e) xs b) \<and>
     ds_ctx (snd (snd (fold (attempt e) xs b))) = ds_ctx (snd (snd b)) \<and>
     map dl_ID (hd_deliveries (bdb (fold (attempt e) xs b))) = map dl_ID (hd_deliveries (bdb b))"
  by (induction xs arbitrary: b) (simp_all add: attempt_frame)

lemma fold_bounded:
  "in_sync b \<Longrightarrow> current xs (bdb b) \<Longrightarrow> distinct (map dl_ID xs) \<Longrightarrow> \<forall>x\<in>set xs. dl_Status x = DPending \<Longrightarrow>
   bounded (bdb b) \<Longrightarrow> bounded (bdb (fold (attempt e) xs b))"
proof (induction xs arbitrary: b)
  case (Cons x xs)
  have "bounded (bdb (fold (attempt e) xs (attempt e x b)))"
    by (rule Cons.IH) (use Cons.prems attempt_frame attempt_current attempt_bounded in auto)
  then show ?case by simp
qed simp

lemma fold_due:
  assumes "steady e"
  shows "in_sync b \<Longrightarrow> current xs (bdb b) \<Longrightarrow> distinct (map dl_ID xs) \<Longrightarrow> t \<le> de_clock e (ds_clock (snd (snd b))) \<Longrightarrow>
   due_ids t (bdb (fold (attempt e) xs b)) \<subseteq> due_ids t (bdb b) - dl_ID ` set xs"
proof (induction xs arbitrary: b)
  case (Cons x xs)
  have "t \<le> de_clock e (ds_clock (snd (snd (attempt e x b))))"
    using assms Cons.prems(4) attempt_clock [of b e x] unfolding steady_def by (meson order_trans)
  then have "due_ids t (bdb (fold (attempt e) xs (attempt e x b))) \<subseteq> due_ids t (bdb (attempt e x b)) - dl_ID ` set xs"
    by (intro Cons.IH) (use Cons.prems attempt_frame attempt_current in auto)
  moreover have "due_ids t (bdb (attempt e x b)) \<subseteq> due_ids t (bdb b) - {dl_ID x}"
    by (rule attempt_due [OF Cons.prems(1,2,4)])
  ultimately show ?case by auto
qed simp

section \<open>One run of the loop\<close>

lemma hook_due_rows:
  assumes "distinct (map dl_ID (hd_deliveries d))"
  shows "set (hook_due t n d) \<subseteq> {x \<in> set (hd_deliveries d). is_due t d x}"
    and "distinct (map dl_ID (hook_due t n d))" and "current (hook_due t n d) d"
    and "length (hook_due t n d) < n \<Longrightarrow> dl_ID ` set (hook_due t n d) = due_ids t d"
proof -
  let ?all = "sort_key dl_ID (filter (is_due t d) (hd_deliveries d))"
  show sub: "set (hook_due t n d) \<subseteq> {x \<in> set (hd_deliveries d). is_due t d x}"
    unfolding hook_due_def using set_take_subset [of n ?all] by auto
  have "mset (map dl_ID ?all) = mset (map dl_ID (filter (is_due t d) (hd_deliveries d)))" by simp
  moreover have "distinct (map dl_ID (filter (is_due t d) (hd_deliveries d)))"
    using assms by (simp add: distinct_map_filter)
  ultimately have "distinct (map dl_ID ?all)" by (metis mset_eq_imp_distinct_iff)
  then show "distinct (map dl_ID (hook_due t n d))" unfolding hook_due_def by (metis distinct_take take_map)
  show "current (hook_due t n d) d"
    unfolding current_def
  proof (intro ballI impI)
    fix x y assume "x \<in> set (hook_due t n d)" "y \<in> set (hd_deliveries d)" "dl_ID y = dl_ID x"
    with sub assms show "y = x" by (auto simp: distinct_map dest: inj_onD)
  qed
  assume "length (hook_due t n d) < n"
  then have "hook_due t n d = ?all" unfolding hook_due_def by simp
  then show "dl_ID ` set (hook_due t n d) = due_ids t d" by (simp add: due_ids_def)
qed

lemma run_batch_effect:
  assumes "distinct (map dl_ID (hd_deliveries (ds_db s)))" and "run_batch e cnt s = (again, cnt', s')"
  shows "distinct (map dl_ID (hd_deliveries (ds_db s')))"
    and "bounded (ds_db s) \<Longrightarrow> bounded (ds_db s')"
    and "steady e \<Longrightarrow> t \<le> de_clock e (ds_clock s) \<Longrightarrow> \<not> again \<Longrightarrow> ds_ctx s' = Some 0 \<or> due_ids t (ds_db s') = {}"
proof -
  define s1 where "s1 = snd (ds_cancelled s)"
  define s2 where "s2 = snd (ds_tick e s1)"
  define now where "now = fst (ds_tick e s1)"
  define due where "due = hook_due now batch_limit (ds_db s2)"
  have db: "ds_db s1 = ds_db s" "ds_db s2 = ds_db s"
    by (simp_all add: s2_def s1_def ds_tick_def ds_cancelled_def split: option.split nat.split)
  have ctx: "fst (ds_cancelled s) \<Longrightarrow> ds_ctx s1 = Some 0" and clk: "ds_clock s1 = ds_clock s" "ds_clock s2 = Suc (ds_clock s)"
    by (auto simp: s2_def s1_def ds_tick_def ds_cancelled_def split: option.splits nat.splits)
  let ?b = "fold (attempt e) due (Map.empty, cnt, s2)"
  have sync: "in_sync (Map.empty, cnt, s2)" by (simp add: in_sync_def)
  note rows = hook_due_rows [OF assms(1), of now batch_limit]
  have cases: "s' = s1 \<and> fst (ds_cancelled s) \<or> s' = s2 \<and> due = [] \<or>
      s' = snd (snd ?b) \<and> (again \<longleftrightarrow> \<not> length due < batch_limit)"
    using assms(2) by (auto simp: run_batch_def Let_def split_beta s1_def s2_def now_def due_def split: if_splits)
  have cur: "current due (bdb (Map.empty, cnt, s2))" "distinct (map dl_ID due)" "\<forall>x\<in>set due. dl_Status x = DPending"
    using rows(1-3) by (auto simp: due_def db is_due_def)
  show "distinct (map dl_ID (hd_deliveries (ds_db s')))"
    using cases fold_frame [OF sync, of e due] assms(1) by (auto simp: db)
  show "bounded (ds_db s) \<Longrightarrow> bounded (ds_db s')"
    using cases fold_bounded [OF sync cur, of e] by (auto simp: db)
  assume clock: "steady e" and t: "t \<le> de_clock e (ds_clock s)" and stop: "\<not> again"
  have now: "now = de_clock e (ds_clock s)" by (simp add: now_def ds_tick_def clk)
  have "length due < batch_limit \<Longrightarrow> dl_ID ` set due = due_ids now (ds_db s)"
    using rows(4) by (simp add: due_def db)
  moreover have "now \<le> de_clock e (ds_clock (snd (snd (Map.empty :: nat \<rightharpoonup> webhook, cnt, s2))))"
    using clock by (simp add: now clk steady_def)
  then have "due_ids now (bdb ?b) \<subseteq> due_ids now (ds_db s) - dl_ID ` set due"
    using fold_due [OF clock sync cur(1,2), of now] by (simp add: db)
  ultimately have "ds_ctx s' = Some 0 \<or> due_ids now (ds_db s') = {}"
    using cases ctx stop by (auto simp: db batch_limit_def)
  then show "ds_ctx s' = Some 0 \<or> due_ids t (ds_db s') = {}"
    using due_ids_mono [OF t] unfolding now by blast
qed

lemma run_batches_effect:
  "distinct (map dl_ID (hd_deliveries (ds_db s))) \<Longrightarrow>
   (bounded (ds_db s) \<longrightarrow> bounded (ds_db (snd (run_batches e cnt s)))) \<and>
   (steady e \<longrightarrow> t \<le> de_clock e (ds_clock s) \<longrightarrow> ds_ctx (snd (run_batches e cnt s)) = Some 0 \<or> due_ids t (ds_db (snd (run_batches e cnt s))) = {})"
proof (induction e cnt s rule: run_batches.induct)
  case (1 e cnt s)
  obtain again cnt' s' where rb: "run_batch e cnt s = (again, cnt', s')" by (cases "run_batch e cnt s")
  note eff = run_batch_effect [OF "1.prems" rb]
  show ?case
  proof (cases again)
    case True
    then have eq: "run_batches e cnt s = run_batches e cnt' s'" by (subst run_batches.simps) (simp add: rb)
    have "steady e \<Longrightarrow> t \<le> de_clock e (ds_clock s) \<Longrightarrow> t \<le> de_clock e (ds_clock s')"
      using run_batch_clock [OF rb] unfolding steady_def by (meson order_trans)
    then show ?thesis unfolding eq using "1.IH" [OF rb [symmetric] refl refl True eff(1)] eff(2) by blast
  next
    case False
    then have "run_batches e cnt s = (cnt', s')" by (subst run_batches.simps) (simp add: rb)
    with eff(2,3) False show ?thesis by auto
  qed
qed

section \<open>Properties\<close>

lemma hooks_wf_ids: "hooks_wf d \<Longrightarrow> distinct (map dl_ID (hd_deliveries d))"
  by (simp add: hooks_wf_def)

definition sample_dispatch :: dispatch_env where
  "sample_dispatch = \<lparr>de_clock = (\<lambda>_. 1000 * ns_per_sec), de_post = (\<lambda>_. Status 500)\<rparr>"

definition sample_hooks :: hook_db where
  "sample_hooks = (case hook_enqueue 1 ''d'' ''sync.complete'' ''{}''
      (snd (hook_create ''https://h'' [''*''] ''k'' ''metadata'' empty_hook_db)) of Some d \<Rightarrow> d | None \<Rightarrow> empty_hook_db)"

definition sample_dispatcher :: dispatcher where
  "sample_dispatcher = \<lparr>ds_db = sample_hooks, ds_clock = 0, ds_posts = 0, ds_events = [], ds_ctx = None\<rparr>"

lemma sample_hooks_wf: "hooks_wf (ds_db sample_dispatcher)"
proof -
  have "hooks_wf empty_hook_db" by (simp add: hooks_wf_def empty_hook_db_def)
  then show ?thesis
    by (auto simp: sample_dispatcher_def sample_hooks_def hooks_wf_create split: option.split
        intro: hooks_wf_enqueue)
qed

text \<open>C4: \<open>RunOnce\<close> returns (the loop is a total function: every batch uses up attempts), and unless its
  context is cancelled nothing is left that was due when it began: every such delivery of an active webhook was
  attempted, recorded and rescheduled, however many batches it took and whatever the endpoints answered, as long
  as the clock does not go back during the run. What becomes due during the run may stay for the next.\<close>

theorem dispatch_leaves_nothing_due:
  assumes "hooks_wf (ds_db s)" and "steady e"
  shows "ds_ctx (snd (dispatch_once e s)) = Some 0 \<or>
    filter (is_due (de_clock e (ds_clock s)) (ds_db (snd (dispatch_once e s)))) (hd_deliveries (ds_db (snd (dispatch_once e s)))) = []"
proof -
  have "ds_ctx (snd (dispatch_once e s)) = Some 0 \<or> due_ids (de_clock e (ds_clock s)) (ds_db (snd (dispatch_once e s))) = {}"
    using run_batches_effect [OF hooks_wf_ids [OF assms(1)], of e 0 "de_clock e (ds_clock s)"] assms(2) by (simp add: dispatch_once_def)
  then show ?thesis by (auto simp: due_ids_def filter_empty_conv)
qed

theorem dispatch_leaves_nothing_due_witness:
  "ds_ctx (snd (dispatch_once sample_dispatch sample_dispatcher)) = Some 0 \<or>
   filter (is_due (1000 * ns_per_sec) (ds_db (snd (dispatch_once sample_dispatch sample_dispatcher))))
     (hd_deliveries (ds_db (snd (dispatch_once sample_dispatch sample_dispatcher)))) = []"
proof -
  have "steady sample_dispatch" by (simp add: steady_def sample_dispatch_def)
  from dispatch_leaves_nothing_due [OF sample_hooks_wf this] show ?thesis
    by (simp add: sample_dispatcher_def sample_dispatch_def)
qed

text \<open>C32: A delivery is attempted at most twelve times and is final (delivered or failed) when the
  twelfth attempt is made: a round of the dispatcher, pruning included, keeps this for every row,
  whatever the clock does, the endpoints answer or the context cancels.\<close>

theorem attempts_are_bounded:
  assumes "hooks_wf (ds_db s)" and "bounded (ds_db s)"
  shows "bounded (ds_db (snd (dispatch_round e (last_prune, s))))"
proof -
  have prune: "hooks_wf d \<Longrightarrow> bounded d \<Longrightarrow> hooks_wf (snd (hook_prune a b d)) \<and> bounded (snd (hook_prune a b d))" for a b d
    using hooks_wf_prune by (auto simp: bounded_def hook_prune_def Let_def)
  obtain s' where s': "snd (dispatch_round e (last_prune, s)) = snd (dispatch_once e s')"
    "ds_db s' = ds_db s \<or> (\<exists>a b. ds_db s' = snd (hook_prune a b (ds_db s)))"
  proof (cases "time_sub (fst (ds_tick e s)) last_prune > ns_per_hour")
    case True
    let ?s = "snd (ds_tick e (snd (ds_tick e s)))" and ?now = "fst (ds_tick e (snd (ds_tick e s)))"
    have "snd (dispatch_round e (last_prune, s)) =
        snd (dispatch_once e (?s\<lparr>ds_db := snd (hook_prune (?now - KeepDelivered) (?now - KeepFailed) (ds_db ?s))\<rparr>))"
      using True by (simp add: dispatch_round_def Let_def split_beta)
    then show thesis by (rule that) (auto simp: ds_tick_def)
  next
    case False
    then have "snd (dispatch_round e (last_prune, s)) = snd (dispatch_once e (snd (ds_tick e s)))"
      by (simp add: dispatch_round_def Let_def split_beta)
    then show thesis by (rule that) (simp add: ds_tick_def)
  qed
  with assms prune have ok: "hooks_wf (ds_db s')" "bounded (ds_db s')" by auto
  show ?thesis
    using run_batches_effect [OF hooks_wf_ids [OF ok(1)], of e 0] ok(2) by (simp add: s'(1) dispatch_once_def)
qed

theorem attempts_are_bounded_witness:
  "bounded (ds_db (snd (dispatch_round sample_dispatch (zero_time, sample_dispatcher))))"
proof -
  have "bounded (ds_db sample_dispatcher)" by code_simp
  then show ?thesis by (rule attempts_are_bounded [OF sample_hooks_wf])
qed

lemma backoff_loop_mono: "0 < d \<Longrightarrow> backoff_loop n d \<le> backoff_loop (Suc n) d"
proof (induction n arbitrary: d)
  case (Suc n)
  from Suc.IH [of "d * 2"] Suc.prems show ?case by simp
qed simp

lemma backoff_loop_power:
  "0 < d \<Longrightarrow> min (backoff_loop n d) MaxBackoff = min (d * 2 ^ n) MaxBackoff"
proof (induction n arbitrary: d)
  case (Suc n)
  show ?case
  proof (cases "d < MaxBackoff")
    case True
    with Suc.IH [of "d * 2"] Suc.prems show ?thesis by (simp add: mult.assoc)
  next
    case False
    have "(1::int) \<le> 2 ^ Suc n" by (rule one_le_power) simp
    with Suc.prems have "d * 1 \<le> d * 2 ^ Suc n" by (intro mult_left_mono) auto
    with False have "MaxBackoff \<le> d * 2 ^ Suc n" "MaxBackoff \<le> d" by simp_all
    with False show ?thesis by (simp only: min_absorb2 backoff_loop.simps if_False)
  qed
qed simp

text \<open>The retry delay is thirty seconds doubled per attempt and capped at one hour: the loop
  of \<open>Backoff\<close> computes exactly that, for any attempt number.\<close>

theorem backoff_is_capped_exponential:
  "backoff n = min (30 * ns_per_sec * 2 ^ (n - 1)) ns_per_hour"
proof -
  have "min (backoff_loop (n - 1) BaseBackoff) MaxBackoff = min (BaseBackoff * 2 ^ (n - 1)) MaxBackoff"
    by (rule backoff_loop_power) (simp add: BaseBackoff_def ns_per_sec_def)
  then show ?thesis by (simp add: backoff_def BaseBackoff_def MaxBackoff_def)
qed

text \<open>A webhook is disabled exactly when its failed attempts in a row reach the limit of one
  hundred; from then on none of its deliveries is due, and they stay queued.\<close>

theorem failing_webhook_is_disabled:
  assumes "hook_get (dl_WebhookID x) d = Some w" and "w_Active w"
    and "hook_failed x st msg nx now DisableAfter d = Some (fails, disabled, d')"
  shows "fails = w_FailCount w + 1 \<and> (disabled \<longleftrightarrow> 100 \<le> fails) \<and>
    (hook_is_active (dl_WebhookID x) d' \<longleftrightarrow> \<not> disabled) \<and>
    (disabled \<longrightarrow> filter (\<lambda>y. dl_WebhookID y = dl_WebhookID x) (hook_due t n d') = []) \<and>
    length (hd_deliveries d') = length (hd_deliveries d)"
proof -
  have act: "hook_is_active (dl_WebhookID x) d' \<longleftrightarrow> \<not> disabled"
    using hook_failed_active(1) [OF assms(3)] assms(1,2) by (auto simp: hook_is_active_def)
  have "filter (\<lambda>y. dl_WebhookID y = dl_WebhookID x) (hook_due t n d') = []" if disabled
    using act that unfolding hook_due_def
    by (auto simp: filter_empty_conv is_due_def dest!: in_set_takeD)
  moreover have "fails = w_FailCount w + 1 \<and> (disabled \<longleftrightarrow> 100 \<le> fails)"
    using assms(1,3) by (auto simp: hook_failed_def Let_def DisableAfter_def split: if_splits)
  moreover have "length (hd_deliveries d') = length (hd_deliveries d)"
    by (simp add: hook_failed_deliveries [OF assms(3)])
  ultimately show ?thesis using act by simp
qed

theorem failing_webhook_is_disabled_witness:
  "\<exists>x d'. hook_failed x 500 ''HTTP 500'' 0 0 DisableAfter
      (upd_hook 1 (\<lambda>w. w\<lparr>w_FailCount := 99\<rparr>) sample_hooks) = Some (100, True, d') \<and> \<not> hook_is_active 1 d'"
proof -
  let ?d = "upd_hook 1 (\<lambda>w. w\<lparr>w_FailCount := 99\<rparr>) sample_hooks"
  let ?x = "hd (hd_deliveries ?d)" and ?w = "hd (hd_hooks ?d)"
  have g: "hook_get (dl_WebhookID ?x) ?d = Some ?w" "w_Active ?w" "dl_WebhookID ?x = 1" "w_FailCount ?w = 99"
    by code_simp+
  obtain n b d' where f: "hook_failed ?x 500 ''HTTP 500'' 0 0 DisableAfter ?d = Some (n, b, d')"
    using g(1) by (auto simp: hook_failed_def Let_def)
  have "n = 100 \<and> b \<and> \<not> hook_is_active 1 d'"
    using failing_webhook_is_disabled [OF g(1,2) f, of 0 0] g(3,4) by simp
  with f show ?thesis by (intro exI [of _ ?x] exI [of _ d']) simp
qed

end
