(* ===== verification/Query.thy ===== *)
theory Query
  imports Complex_Main Go_Time
begin

text \<open>
  The query language of \<open>/api/query\<close> (\<open>internal/query/query.go\<close>): the views, their fields, and
  the compiler from the JSON request to SQL text with bound arguments. A decoded JSON value
  is a \<open>qval\<close>; a float64 is a rational, and its conversion to \<open>int64\<close> outside the range gives
  the least value, as the amd64 instruction does.
\<close>

definition DefaultLimit :: int where "DefaultLimit = 100"
definition MaxLimit :: int where "MaxLimit = 1000"
definition maxFilters :: nat where "maxFilters = 32"
definition maxInValues :: nat where "maxInValues = 500"

datatype kind = KindText | KindInt | KindReal | KindBool | KindTime

record field =
  f_Name :: string
  f_Expr :: string
  f_Kind :: kind
  f_Default :: bool
  f_Body :: bool

record view =
  v_Name :: string
  v_From :: string
  v_Fields :: "field list"

definition mk :: "string \<Rightarrow> string \<Rightarrow> kind \<Rightarrow> bool \<Rightarrow> bool \<Rightarrow> field" where
  "mk n x k d b = \<lparr>f_Name = n, f_Expr = x, f_Kind = k, f_Default = d, f_Body = b\<rparr>"

section \<open>The views\<close>

definition messages_view :: view where
  "messages_view = \<lparr>v_Name = ''messages'', v_From = ''messages m'', v_Fields =
    [mk ''id'' (''m.id'') KindInt True False,
     mk ''account'' (''m.account'') KindText True False,
     mk ''folder'' (''m.folder'') KindText True False,
     mk ''uid'' (''m.uid'') KindInt True False,
     mk ''message_id'' (''m.message_id'') KindText False False,
     mk ''thread_id'' (''m.thread_id'') KindText False False,
     mk ''date'' (''m.date'') KindTime True False,
     mk ''internal_date'' (''m.internal_date'') KindTime False False,
     mk ''from_addr'' (''m.from_addr'') KindText True False,
     mk ''from_name'' (''m.from_name'') KindText False False,
     mk ''from_domain'' (''lower(substr(m.from_addr, instr(m.from_addr, '' @ [CHR 0x27] @ ''@'' @ [CHR 0x27] @ '') + 1))'') KindText False False,
     mk ''to_addrs'' (''m.to_addrs'') KindText False False,
     mk ''cc_addrs'' (''m.cc_addrs'') KindText False False,
     mk ''subject'' (''m.subject'') KindText True False,
     mk ''flags'' (''m.flags'') KindText False False,
     mk ''seen'' (''(instr(COALESCE(m.flags,'' @ [CHR 0x27] @ [CHR 0x27] @ ''), '' @ [CHR 0x27] @ [CHR 0x5C] @ ''Seen'' @ [CHR 0x27] @ '') > 0)'') KindBool False False,
     mk ''flagged'' (''(instr(COALESCE(m.flags,'' @ [CHR 0x27] @ [CHR 0x27] @ ''), '' @ [CHR 0x27] @ [CHR 0x5C] @ ''Flagged'' @ [CHR 0x27] @ '') > 0)'') KindBool False False,
     mk ''answered'' (''(instr(COALESCE(m.flags,'' @ [CHR 0x27] @ [CHR 0x27] @ ''), '' @ [CHR 0x27] @ [CHR 0x5C] @ ''Answered'' @ [CHR 0x27] @ '') > 0)'') KindBool False False,
     mk ''size'' (''m.size'') KindInt False False,
     mk ''has_attachments'' (''m.has_attachments'') KindBool False False,
     mk ''hall'' (''m.hall'') KindText False False,
     mk ''wing'' (''m.wing'') KindText False False,
     mk ''room'' (''m.room'') KindText False False,
     mk ''enrichment_status'' (''m.enrichment_status'') KindText False False,
     mk ''body_text'' (''m.body_text'') KindText False True,
     mk ''body_html'' (''m.body_html'') KindText False True]\<rparr>"

definition senders_view :: view where
  "senders_view = \<lparr>v_Name = ''senders'', v_From = ''senders s'', v_Fields =
    [mk ''address'' (''s.address'') KindText True False,
     mk ''name'' (''s.name'') KindText True False,
     mk ''domain'' (''s.domain'') KindText True False,
     mk ''role'' (''s.role'') KindText True False,
     mk ''first_seen'' (''s.first_seen'') KindTime False False,
     mk ''last_seen'' (''s.last_seen'') KindTime True False,
     mk ''message_count'' (''s.message_count'') KindInt True False,
     mk ''sent_count'' (''s.sent_count'') KindInt False False,
     mk ''avg_reply_time'' (''s.avg_reply_time'') KindInt False False,
     mk ''anomaly_score'' (''s.anomaly_score'') KindReal False False,
     mk ''role_source'' (''s.role_source'') KindText True False,
     mk ''reply_count'' (''s.reply_count'') KindInt False False,
     mk ''list_count'' (''s.list_count'') KindInt False False,
     mk ''bulk_count'' (''s.bulk_count'') KindInt False False,
     mk ''auto_count'' (''s.auto_count'') KindInt False False,
     mk ''dkim_pass'' (''s.dkim_pass'') KindInt False False,
     mk ''dkim_fail'' (''s.dkim_fail'') KindInt False False,
     mk ''dmarc_pass'' (''s.dmarc_pass'') KindInt False False,
     mk ''dmarc_fail'' (''s.dmarc_fail'') KindInt False False]\<rparr>"

definition anomalies_view :: view where
  "anomalies_view = \<lparr>v_Name = ''anomalies'', v_From = ''anomalies a'', v_Fields =
    [mk ''id'' (''a.id'') KindInt True False,
     mk ''account'' (''a.account'') KindText True False,
     mk ''message_id'' (''a.message_id'') KindInt False False,
     mk ''folder'' (''a.folder'') KindText False False,
     mk ''uid'' (''a.uid'') KindInt False False,
     mk ''message_ref'' (''a.message_ref'') KindText False False,
     mk ''sender'' (''a.sender'') KindText True False,
     mk ''type'' (''a.anomaly_type'') KindText True False,
     mk ''description'' (''a.description'') KindText False False,
     mk ''severity'' (''a.severity'') KindText True False,
     mk ''detected_at'' (''a.detected_at'') KindTime True False,
     mk ''resolved'' (''a.resolved'') KindBool True False]\<rparr>"

definition kg_view :: view where
  "kg_view = \<lparr>v_Name = ''kg'', v_From = ''kg_relationships r JOIN kg_entities se ON se.id = r.subject_id JOIN kg_entities oe ON oe.id = r.object_id'', v_Fields =
    [mk ''subject'' (''se.name'') KindText True False,
     mk ''subject_type'' (''se.entity_type'') KindText True False,
     mk ''predicate'' (''r.predicate'') KindText True False,
     mk ''object'' (''oe.name'') KindText True False,
     mk ''object_type'' (''oe.entity_type'') KindText True False,
     mk ''valid_from'' (''r.valid_from'') KindTime False False,
     mk ''valid_to'' (''r.valid_to'') KindTime False False,
     mk ''current'' (''(r.valid_to IS NULL)'') KindBool False False,
     mk ''confidence'' (''r.confidence'') KindReal True False,
     mk ''weight'' (''r.weight'') KindInt True False,
     mk ''last_seen'' (''r.last_seen'') KindTime False False]\<rparr>"

definition views :: "(string \<times> view) list" where
  "views = [(''messages'', messages_view), (''senders'', senders_view), (''anomalies'', anomalies_view), (''kg'', kg_view)]"

definition view_field :: "view \<Rightarrow> string \<Rightarrow> field option" where
  "view_field v name = find (\<lambda>f. f_Name f = name) (v_Fields v)"

section \<open>Requests\<close>

datatype qval = QNull | QBool bool | QNum rat | QStr string | QList "qval list" | QObj

record qfilter =
  qf_Field :: string
  qf_Op :: string
  qf_Value :: qval

record aggregate =
  a_Fn :: string
  a_Field :: string
  a_As :: string

record order =
  o_Field :: string
  o_Desc :: bool

record query =
  q_View :: string
  q_Fields :: "string list"
  q_Where :: "qfilter list"
  q_GroupBy :: "string list"
  q_Aggregate :: "aggregate list"
  q_OrderBy :: "order list"
  q_Limit :: int
  q_Offset :: int

definition ops :: "string list" where
  "ops = [''eq'', ''ne'', ''in'', ''nin'', ''lt'', ''lte'', ''gt'', ''gte'', ''contains'', ''prefix'', ''is_null'', ''not_null'']"

definition fns :: "string list" where
  "fns = [''count'', ''count_distinct'', ''min'', ''max'', ''sum'', ''avg'']"

datatype sql_arg = AText string | AInt int | AReal rat

record compiled =
  c_SQL :: string
  c_Args :: "sql_arg list"
  c_Columns :: "string list"
  c_Kinds :: "kind list"
  c_Limit :: int

datatype query_error =
    UnknownView | UnknownField string | FieldsAndGroup | CannotGroup string | DuplicateField string
  | UnknownFn string | BadAlias string | CannotAggregate string string | NotNumeric string
  | TooManyFilters | UnknownOp string | NeedsList string | NeedsText string | NeedsString string
  | BadValue string | OnlyEqNe string | BadOrder string | LimitTooBig | NegativeOffset

section \<open>Values\<close>

definition int64_of :: "rat \<Rightarrow> int" where
  "int64_of r =
     (let n = (if r \<ge> 0 then \<lfloor>r\<rfloor> else - \<lfloor>- r\<rfloor>) in
      if - (2 ^ 63) \<le> n \<and> n < 2 ^ 63 then n else - (2 ^ 63))"

definition rel_unit :: "char \<Rightarrow> int option" where
  "rel_unit c = (if c = CHR ''d'' then Some (24 * ns_per_hour) else if c = CHR ''h'' then Some ns_per_hour
     else if c = CHR ''m'' then Some ns_per_min else None)"

text \<open>The pattern \<open>-(\d{1,5})([dhm])\<close>.\<close>

definition parse_rel :: "string \<Rightarrow> (int \<times> int) option" where
  "parse_rel s =
     (case s of
        [] \<Rightarrow> None
      | c # r \<Rightarrow>
          (if c \<noteq> CHR ''-'' \<or> r = [] then None
           else (let ds = butlast r in
                 if ds = [] \<or> length ds > 5 \<or> \<not> list_all is_digit ds then None
                 else (case rel_unit (last r) of None \<Rightarrow> None | Some u \<Rightarrow> Some (digits_val 0 ds, u)))))"

definition parse_time :: "string \<Rightarrow> gotime \<Rightarrow> gotime option" where
  "parse_time s now =
     (case parse_rel s of
        Some (n, u) \<Rightarrow> Some (now - n * u)
      | None \<Rightarrow> (case parse_rfc3339 s of Some t \<Rightarrow> Some t | None \<Rightarrow> parse_date s))"

definition escape_like :: "string \<Rightarrow> string" where
  "escape_like s = concat (map (\<lambda>c. if c \<in> {CHR 0x5C, CHR 0x25, CHR ''_''} then [CHR 0x5C, c] else [c]) s)"

definition coerce :: "field \<Rightarrow> qval \<Rightarrow> gotime \<Rightarrow> query_error + sql_arg" where
  "coerce f x now =
     (case f_Kind f of
        KindText \<Rightarrow> (case x of QStr s \<Rightarrow> Inr (AText s) | _ \<Rightarrow> Inl (BadValue (f_Name f)))
      | KindInt \<Rightarrow> (case x of
            QNum n \<Rightarrow> (if n = of_int (int64_of n) then Inr (AInt (int64_of n)) else Inl (BadValue (f_Name f)))
          | _ \<Rightarrow> Inl (BadValue (f_Name f)))
      | KindReal \<Rightarrow> (case x of QNum n \<Rightarrow> Inr (AReal n) | _ \<Rightarrow> Inl (BadValue (f_Name f)))
      | KindBool \<Rightarrow> (case x of QBool b \<Rightarrow> Inr (AInt (if b then 1 else 0)) | _ \<Rightarrow> Inl (BadValue (f_Name f)))
      | KindTime \<Rightarrow> (case x of
            QNum n \<Rightarrow> Inr (AInt (int64_of n))
          | QStr s \<Rightarrow> (case parse_time s now of Some t \<Rightarrow> Inr (AInt (time_unix t)) | None \<Rightarrow> Inl (BadValue (f_Name f)))
          | _ \<Rightarrow> Inl (BadValue (f_Name f))))"

fun coerce_all :: "field \<Rightarrow> qval list \<Rightarrow> gotime \<Rightarrow> query_error + sql_arg list" where
  "coerce_all f [] now = Inr []"
| "coerce_all f (x # xs) now =
     (case coerce f x now of
        Inl e \<Rightarrow> Inl e
      | Inr a \<Rightarrow> (case coerce_all f xs now of Inl e \<Rightarrow> Inl e | Inr as \<Rightarrow> Inr (a # as)))"

section \<open>Filters and aggregates\<close>

definition cmp_op :: "string \<Rightarrow> string" where
  "cmp_op o' = (if o' = ''eq'' then ''='' else if o' = ''ne'' then ''!='' else if o' = ''lt'' then ''<''
     else if o' = ''lte'' then ''<='' else if o' = ''gt'' then ''>'' else if o' = ''gte'' then ''>='' else [])"

definition placeholders :: "nat \<Rightarrow> string" where
  "placeholders n = trim_suffix (concat (replicate n ''?, '')) '', ''"

definition compile_filter :: "view \<Rightarrow> qfilter \<Rightarrow> gotime \<Rightarrow> query_error + (string \<times> sql_arg list)" where
  "compile_filter v flt now =
     (case view_field v (qf_Field flt) of
        None \<Rightarrow> Inl (UnknownField (qf_Field flt))
      | Some f \<Rightarrow>
          (let op = qf_Op flt in
           if op \<notin> set ops then Inl (UnknownOp op)
           else if op = ''is_null'' then Inr (f_Expr f @ '' IS NULL'', [])
           else if op = ''not_null'' then Inr (f_Expr f @ '' IS NOT NULL'', [])
           else if op = ''in'' \<or> op = ''nin''
           then (case qf_Value flt of
                   QList vals \<Rightarrow>
                     (if vals = [] \<or> length vals > maxInValues then Inl (NeedsList (f_Name f))
                      else (case coerce_all f vals now of
                              Inl e \<Rightarrow> Inl e
                            | Inr args \<Rightarrow>
                                Inr (f_Expr f @ '' '' @ (if op = ''nin'' then ''NOT '' else []) @ ''IN ('' @
                                     placeholders (length args) @ '')'', args)))
                 | _ \<Rightarrow> Inl (NeedsList (f_Name f)))
           else if op = ''contains'' \<or> op = ''prefix''
           then (if f_Kind f \<noteq> KindText then Inl (NeedsText (f_Name f))
                 else (case qf_Value flt of
                         QStr s \<Rightarrow>
                           (if s = [] then Inl (NeedsString (f_Name f))
                            else (let pat = escape_like s @ [CHR 0x25];
                                      pat = (if op = ''contains'' then CHR 0x25 # pat else pat)
                                  in Inr (f_Expr f @ '' LIKE ? ESCAPE '' @ [CHR 0x27, CHR 0x5C, CHR 0x27], [AText pat])))
                       | _ \<Rightarrow> Inl (NeedsString (f_Name f))))
           else (case coerce f (qf_Value flt) now of
                   Inl e \<Rightarrow> Inl e
                 | Inr a \<Rightarrow>
                     (let o' = cmp_op op in
                      if f_Kind f = KindBool \<and> o' \<noteq> ''='' \<and> o' \<noteq> ''!='' then Inl (OnlyEqNe (f_Name f))
                      else Inr (f_Expr f @ '' '' @ o' @ '' ?'', [a])))))"

text \<open>The alias pattern \<open>[a-z][a-z0-9_]{0,39}\<close>.\<close>

definition alias_ok :: "string \<Rightarrow> bool" where
  "alias_ok s =
     (case s of [] \<Rightarrow> False
      | c # cs \<Rightarrow> 97 \<le> (of_char c :: nat) \<and> (of_char c :: nat) \<le> 122 \<and> length cs \<le> 39 \<and>
          list_all (\<lambda>x. (97 \<le> (of_char x :: nat) \<and> (of_char x :: nat) \<le> 122) \<or> is_digit x \<or> x = CHR ''_'') cs)"

type_synonym out_col = "string \<times> string \<times> kind"   \<comment> \<open>expression, column, kind\<close>

definition compile_agg :: "view \<Rightarrow> aggregate \<Rightarrow> query_error + out_col" where
  "compile_agg v a =
     (if a_Fn a \<notin> set fns then Inl (UnknownFn (a_Fn a))
      else (let alias = (if a_As a \<noteq> [] then a_As a
                         else if a_Field a \<noteq> [] then a_Fn a @ ''_'' @ a_Field a else a_Fn a) in
            if \<not> alias_ok alias then Inl (BadAlias alias)
            else if a_Fn a = ''count'' \<and> a_Field a = [] then Inr (''count(*)'', alias, KindInt)
            else (case view_field v (a_Field a) of
                    None \<Rightarrow> Inl (UnknownField (a_Field a))
                  | Some f \<Rightarrow>
                      (if f_Body f \<and> a_Fn a \<noteq> ''count'' \<and> a_Fn a \<noteq> ''count_distinct''
                       then Inl (CannotAggregate (a_Fn a) (a_Field a))
                       else if a_Fn a = ''count'' then Inr (''count('' @ f_Expr f @ '')'', alias, KindInt)
                       else if a_Fn a = ''count_distinct'' then Inr (''count(DISTINCT '' @ f_Expr f @ '')'', alias, KindInt)
                       else if a_Fn a = ''min'' \<or> a_Fn a = ''max''
                       then Inr (a_Fn a @ ''('' @ f_Expr f @ '')'', alias, f_Kind f)
                       else if f_Kind f \<noteq> KindInt \<and> f_Kind f \<noteq> KindReal \<and> f_Kind f \<noteq> KindBool
                       then Inl (NotNumeric (a_Field a))
                       else Inr (a_Fn a @ ''('' @ f_Expr f @ '')'', alias,
                              if a_Fn a = ''sum'' \<and> f_Kind f \<noteq> KindReal then KindInt else KindReal)))))"

section \<open>The compiler\<close>

fun group_cols :: "view \<Rightarrow> string list \<Rightarrow> out_col list \<Rightarrow> query_error + out_col list" where
  "group_cols v [] acc = Inr acc"
| "group_cols v (name # ns) acc =
     (case view_field v name of
        None \<Rightarrow> Inl (UnknownField name)
      | Some f \<Rightarrow>
          (if f_Body f then Inl (CannotGroup name)
           else if name \<in> set (map (fst \<circ> snd) acc) then Inl (DuplicateField name)
           else group_cols v ns (acc @ [(f_Expr f, name, f_Kind f)])))"

fun agg_cols :: "view \<Rightarrow> aggregate list \<Rightarrow> out_col list \<Rightarrow> query_error + out_col list" where
  "agg_cols v [] acc = Inr acc"
| "agg_cols v (a # as) acc =
     (case compile_agg v a of
        Inl e \<Rightarrow> Inl e
      | Inr c \<Rightarrow>
          (if fst (snd c) \<in> set (map (fst \<circ> snd) acc) then Inl (DuplicateField (fst (snd c)))
           else agg_cols v as (acc @ [c])))"

fun field_cols :: "view \<Rightarrow> string list \<Rightarrow> out_col list \<Rightarrow> query_error + out_col list" where
  "field_cols v [] acc = Inr acc"
| "field_cols v (name # ns) acc =
     (case view_field v name of
        None \<Rightarrow> Inl (UnknownField name)
      | Some f \<Rightarrow>
          (if name \<in> set (map (fst \<circ> snd) acc) then Inl (DuplicateField name)
           else field_cols v ns (acc @ [(f_Expr f, name, f_Kind f)])))"

text \<open>The select list and the group-by expressions.\<close>

definition compile_cols :: "view \<Rightarrow> query \<Rightarrow> query_error + (out_col list \<times> string list)" where
  "compile_cols v q =
     (let grouped = (q_GroupBy q \<noteq> [] \<or> q_Aggregate q \<noteq> []) in
      if grouped \<and> q_Fields q \<noteq> [] then Inl FieldsAndGroup
      else if grouped
      then (case group_cols v (q_GroupBy q) [] of
              Inl e \<Rightarrow> Inl e
            | Inr g \<Rightarrow>
                (let aggs = (if q_Aggregate q = [] then [\<lparr>a_Fn = ''count'', a_Field = [], a_As = []\<rparr>] else q_Aggregate q) in
                 case agg_cols v aggs g of Inl e \<Rightarrow> Inl e | Inr cols \<Rightarrow> Inr (cols, map fst g)))
      else (let names = (if q_Fields q = [] then map f_Name (filter f_Default (v_Fields v)) else q_Fields q) in
            case field_cols v names [] of Inl e \<Rightarrow> Inl e | Inr cols \<Rightarrow> Inr (cols, [])))"

fun compile_where :: "view \<Rightarrow> qfilter list \<Rightarrow> gotime \<Rightarrow> query_error + (string list \<times> sql_arg list)" where
  "compile_where v [] now = Inr ([], [])"
| "compile_where v (flt # fs) now =
     (case compile_filter v flt now of
        Inl e \<Rightarrow> Inl e
      | Inr (cond, args) \<Rightarrow>
          (case compile_where v fs now of
             Inl e \<Rightarrow> Inl e
           | Inr (conds, rest_args) \<Rightarrow> Inr (cond # conds, args @ rest_args)))"

fun index_of :: "string list \<Rightarrow> string \<Rightarrow> nat option" where
  "index_of [] x = None"
| "index_of (y # ys) x = (if y = x then Some 0 else map_option Suc (index_of ys x))"

fun compile_order :: "string list \<Rightarrow> order list \<Rightarrow> query_error + string list" where
  "compile_order cols [] = Inr []"
| "compile_order cols (x # os) =
     (case index_of cols (o_Field x) of
        None \<Rightarrow> Inl (BadOrder (o_Field x))
      | Some i \<Rightarrow>
          (case compile_order cols os of
             Inl e \<Rightarrow> Inl e
           | Inr ts \<Rightarrow> Inr ((show_nat (i + 1) @ '' '' @ (if o_Desc x then ''DESC'' else ''ASC'')) # ts)))"

definition clause :: "string \<Rightarrow> string \<Rightarrow> string list \<Rightarrow> string" where
  "clause kw sep xs = (if xs = [] then [] else kw @ str_join sep xs)"

definition sql_text :: "view \<Rightarrow> string list \<Rightarrow> string list \<Rightarrow> string list \<Rightarrow> string list \<Rightarrow> string" where
  "sql_text v sel conds grp order =
     ''SELECT '' @ str_join '', '' sel @ '' FROM '' @ v_From v @ clause '' WHERE '' '' AND '' conds @
     clause '' GROUP BY '' '', '' grp @ clause '' ORDER BY '' '', '' order @ '' LIMIT ? OFFSET ?''"

definition compile :: "query \<Rightarrow> gotime \<Rightarrow> query_error + compiled" where
  "compile q now =
     (case map_of views (q_View q) of
        None \<Rightarrow> Inl UnknownView
      | Some v \<Rightarrow>
          (case compile_cols v q of
             Inl e \<Rightarrow> Inl e
           | Inr (cols, grp) \<Rightarrow>
               (if length (q_Where q) > maxFilters then Inl TooManyFilters
                else (case compile_where v (q_Where q) now of
                        Inl e \<Rightarrow> Inl e
                      | Inr (conds, args) \<Rightarrow>
                          (case compile_order (map (fst \<circ> snd) cols) (q_OrderBy q) of
                             Inl e \<Rightarrow> Inl e
                           | Inr order \<Rightarrow>
                               (let limit = (if q_Limit q \<le> 0 then DefaultLimit else q_Limit q) in
                                if limit > MaxLimit then Inl LimitTooBig
                                else if q_Offset q < 0 then Inl NegativeOffset
                                else Inr \<lparr>c_SQL = sql_text v (map fst cols) conds grp order,
                                  c_Args = args @ [AInt (limit + 1), AInt (q_Offset q)],
                                  c_Columns = map (fst \<circ> snd) cols, c_Kinds = map (snd \<circ> snd) cols,
                                  c_Limit = limit\<rparr>))))))"

end
