(* ===== verification/Query_Props.thy ===== *)
theory Query_Props
  imports Query
begin

text \<open>
  What the query compiler promises: as many placeholders as bound arguments, statement text
  that no filter value reaches, bounded results, and message bodies only where a query names
  them in its fields.
\<close>

abbreviation qmarks :: "string \<Rightarrow> nat" where "qmarks s \<equiv> count_list s (CHR ''?'')"

section \<open>Facts about the views\<close>

definition plain_view :: "view \<Rightarrow> bool" where
  "plain_view v \<longleftrightarrow> qmarks (v_From v) = 0 \<and> (\<forall>f\<in>set (v_Fields v). qmarks (f_Expr f) = 0)"

lemma views_plain_all: "\<forall>nv\<in>set views. plain_view (snd nv)"
  by code_simp

lemma view_plain: "map_of views n = Some v \<Longrightarrow> plain_view v"
  using views_plain_all map_of_SomeD [of views n v] by fastforce

lemma view_field_mem: "view_field v n = Some f \<Longrightarrow> f \<in> set (v_Fields v) \<and> f_Name f = n"
  unfolding view_field_def by (auto simp: find_Some_iff)

lemma plain_expr: "plain_view v \<Longrightarrow> view_field v n = Some f \<Longrightarrow> qmarks (f_Expr f) = 0"
  using view_field_mem unfolding plain_view_def by blast

text \<open>No two fields of a view share an expression when one of them is a body, and no body
  expression ends like a call.\<close>

definition bodies_distinct :: "view \<Rightarrow> bool" where
  "bodies_distinct v \<longleftrightarrow> (\<forall>f\<in>set (v_Fields v). \<forall>g\<in>set (v_Fields v).
     f_Body f \<longrightarrow> last (f_Expr f) \<noteq> CHR '')'' \<and> (f_Expr f = f_Expr g \<longrightarrow> f = g)) \<and>
   (\<forall>f\<in>set (v_Fields v). f_Default f \<longrightarrow> \<not> f_Body f) \<and> distinct (map f_Name (v_Fields v))"

lemma views_bodies_all: "\<forall>nv\<in>set views. bodies_distinct (snd nv)"
  by code_simp

lemma view_bodies: "map_of views n = Some v \<Longrightarrow> bodies_distinct v"
  using views_bodies_all map_of_SomeD [of views n v] by fastforce

section \<open>Counting placeholders\<close>

lemma qmarks_show_nat [simp]: "qmarks (show_nat n) = 0"
proof -
  have "CHR ''?'' \<notin> set (show_nat n)" using show_nat_digits [of "CHR ''?''" n] by (auto simp: is_digit_def)
  then show ?thesis by simp
qed

lemma qmarks_join: "qmarks sep = 0 \<Longrightarrow> qmarks (str_join sep xs) = sum_list (map qmarks xs)"
  by (induction sep xs rule: str_join.induct) auto

lemma qmarks_clause:
  "qmarks kw = 0 \<Longrightarrow> qmarks sep = 0 \<Longrightarrow> qmarks (clause kw sep xs) = sum_list (map qmarks xs)"
  by (simp add: clause_def qmarks_join)

lemma qmarks_replicate: "qmarks (concat (replicate n ''?, '')) = n"
  by (induction n) auto

lemma replicate_suffix: "concat (replicate (Suc n) ''?, '') = (concat (replicate n ''?, '') @ ''?'') @ '', ''"
  by (induction n) auto

lemma qmarks_placeholders [simp]: "qmarks (placeholders n) = n"
proof (cases n)
  case 0
  then show ?thesis by (simp add: placeholders_def trim_suffix_def)
next
  case (Suc m)
  have "trim_suffix (concat (replicate (Suc m) ''?, '')) '', '' = concat (replicate m ''?, '') @ ''?''"
    unfolding replicate_suffix by (simp add: trim_suffix_def has_suffix_def has_prefix_def)
  then show ?thesis using Suc by (simp add: placeholders_def qmarks_replicate del: replicate_Suc)
qed

lemma coerce_all_length: "coerce_all f xs now = Inr as \<Longrightarrow> length as = length xs"
  by (induction f xs now arbitrary: as rule: coerce_all.induct) (auto split: sum.splits)

lemma cmp_op_qmarks [simp]: "qmarks (cmp_op x) = 0"
  by (simp add: cmp_op_def)

lemma compile_filter_qmarks:
  assumes pv: "plain_view v" and ok: "compile_filter v flt now = Inr (cond, args)"
  shows "qmarks cond = length args"
proof -
  obtain f where f: "view_field v (qf_Field flt) = Some f"
    using ok by (auto simp: compile_filter_def split: option.splits)
  have e: "qmarks (f_Expr f) = 0" by (rule plain_expr [OF pv f])
  show ?thesis
    using ok e f by (auto simp: compile_filter_def Let_def split: if_splits qval.splits sum.splits)
qed

lemma compile_where_qmarks:
  "plain_view v \<Longrightarrow> compile_where v fs now = Inr (conds, args) \<Longrightarrow> sum_list (map qmarks conds) = length args"
  by (induction v fs now arbitrary: conds args rule: compile_where.induct)
     (fastforce split: sum.splits dest: compile_filter_qmarks)+

lemma compile_order_qmarks:
  "compile_order cols os = Inr ts \<Longrightarrow> sum_list (map qmarks ts) = 0"
  by (induction cols os arbitrary: ts rule: compile_order.induct)
     (auto split: sum.splits option.splits)

text \<open>An invariant of the select list under construction.\<close>

lemma group_cols_all:
  "group_cols v ns acc = Inr cols \<Longrightarrow> (\<forall>c\<in>set acc. P c) \<Longrightarrow>
   (\<And>n f. n \<in> set ns \<Longrightarrow> view_field v n = Some f \<Longrightarrow> \<not> f_Body f \<Longrightarrow> P (f_Expr f, n, f_Kind f)) \<Longrightarrow> \<forall>c\<in>set cols. P c"
  by (induction v ns acc rule: group_cols.induct) (auto split: option.splits if_splits)

lemma field_cols_all:
  "field_cols v ns acc = Inr cols \<Longrightarrow> (\<forall>c\<in>set acc. P c) \<Longrightarrow>
   (\<And>n f. n \<in> set ns \<Longrightarrow> view_field v n = Some f \<Longrightarrow> P (f_Expr f, n, f_Kind f)) \<Longrightarrow> \<forall>c\<in>set cols. P c"
  by (induction v ns acc rule: field_cols.induct) (auto split: option.splits if_splits)

lemma agg_cols_all:
  "agg_cols v as acc = Inr cols \<Longrightarrow> (\<forall>c\<in>set acc. P c) \<Longrightarrow>
   (\<And>a c. a \<in> set as \<Longrightarrow> compile_agg v a = Inr c \<Longrightarrow> P c) \<Longrightarrow> \<forall>c\<in>set cols. P c"
  proof (induction v as acc rule: agg_cols.induct)
  case (2 v a as acc)
  then obtain c where c: "compile_agg v a = Inr c" and dup: "fst (snd c) \<notin> set (map (fst \<circ> snd) acc)"
    and rest: "agg_cols v as (acc @ [c]) = Inr cols"
    by (auto split: sum.splits if_splits)
  have "P c" using c by (rule "2.prems"(3) [rotated]) simp
  with "2.prems"(2) have acc: "\<forall>x\<in>set (acc @ [c]). P x" by simp
  show ?case
  proof (rule "2.IH" [OF c dup rest acc])
    fix a' c' assume "a' \<in> set as" "compile_agg v a' = Inr c'"
    then show "P c'" by (intro "2.prems"(3) [of a' c']) simp_all
  qed
qed simp

text \<open>Every column of a select list is a group-by field, an aggregate or a named field.\<close>

lemma compile_cols_all:
  assumes ok: "compile_cols v q = Inr (cols, grp)"
    and g: "\<And>n f. view_field v n = Some f \<Longrightarrow> \<not> f_Body f \<Longrightarrow> P (f_Expr f, n, f_Kind f)"
    and a: "\<And>a c. compile_agg v a = Inr c \<Longrightarrow> P c"
    and fl: "\<And>n f. view_field v n = Some f \<Longrightarrow>
        n \<in> set (if q_Fields q = [] then map f_Name (filter f_Default (v_Fields v)) else q_Fields q) \<Longrightarrow>
        P (f_Expr f, n, f_Kind f)"
  shows "\<forall>c\<in>set cols. P c"
proof (cases "q_GroupBy q \<noteq> [] \<or> q_Aggregate q \<noteq> []")
  case True
  then obtain gs where gs: "group_cols v (q_GroupBy q) [] = Inr gs"
    and ag: "agg_cols v (if q_Aggregate q = [] then [\<lparr>a_Fn = ''count'', a_Field = [], a_As = []\<rparr>] else q_Aggregate q) gs = Inr cols"
    using ok by (auto simp: compile_cols_def Let_def split: if_splits sum.splits)
  have "\<forall>c\<in>set gs. P c" by (rule group_cols_all [OF gs]) (simp_all add: g)
  then show ?thesis by (rule agg_cols_all [OF ag]) (rule a)
next
  case False
  then have fc: "field_cols v (if q_Fields q = [] then map f_Name (filter f_Default (v_Fields v)) else q_Fields q) [] = Inr cols"
    using ok by (auto simp: compile_cols_def Let_def split: if_splits sum.splits)
  show ?thesis by (rule field_cols_all [OF fc]) (auto intro: fl)
qed

lemma compile_agg_qmarks:
  assumes "plain_view v" "compile_agg v a = Inr c"
  shows "qmarks (fst c) = 0"
  using assms by (auto simp: compile_agg_def Let_def fns_def split: if_splits option.splits dest: plain_expr)

lemma compile_cols_qmarks:
  assumes pv: "plain_view v" and ok: "compile_cols v q = Inr (cols, grp)"
  shows "\<forall>c\<in>set cols. qmarks (fst c) = 0"
  by (rule compile_cols_all [OF ok]) (simp_all add: plain_expr [OF pv] compile_agg_qmarks [OF pv])

lemma compile_group_qmarks:
  assumes pv: "plain_view v" and ok: "compile_cols v q = Inr (cols, grp)"
  shows "\<forall>g\<in>set grp. qmarks g = 0"
proof (cases "q_GroupBy q \<noteq> [] \<or> q_Aggregate q \<noteq> []")
  case True
  then obtain gs where gs: "group_cols v (q_GroupBy q) [] = Inr gs" and grp: "grp = map fst gs"
    using ok by (auto simp: compile_cols_def Let_def split: if_splits sum.splits)
  have "\<forall>c\<in>set gs. qmarks (fst c) = 0" by (rule group_cols_all [OF gs]) (simp_all add: plain_expr [OF pv])
  then show ?thesis by (simp add: grp)
next
  case False
  then show ?thesis using ok by (auto simp: compile_cols_def Let_def split: if_splits sum.splits)
qed

lemma sum_list_zero: "\<forall>x\<in>set xs. f x = (0::nat) \<Longrightarrow> sum_list (map f xs) = 0"
  by (induction xs) auto

text \<open>What a successful compilation consists of.\<close>

lemma compileE:
  assumes "compile q now = Inr c"
  obtains v cols grp conds args ord lim where
    "map_of views (q_View q) = Some v"
    "compile_cols v q = Inr (cols, grp)"
    "length (q_Where q) \<le> maxFilters"
    "compile_where v (q_Where q) now = Inr (conds, args)"
    "compile_order (map (fst \<circ> snd) cols) (q_OrderBy q) = Inr ord"
    "lim = (if q_Limit q \<le> 0 then DefaultLimit else q_Limit q)" "lim \<le> MaxLimit" "0 \<le> q_Offset q"
    "c = \<lparr>c_SQL = sql_text v (map fst cols) conds grp ord,
          c_Args = args @ [AInt (lim + 1), AInt (q_Offset q)],
          c_Columns = map (fst \<circ> snd) cols, c_Kinds = map (snd \<circ> snd) cols, c_Limit = lim\<rparr>"
  using assms that
  by (auto simp: compile_def Let_def not_less split: option.splits sum.splits if_splits prod.splits)

section \<open>Properties\<close>

text \<open>A compiled statement has exactly as many placeholders as bound arguments: no
  argument is left over or missing, whatever the request.\<close>
theorem placeholders_match_args:
  assumes "compile q now = Inr c"
  shows "qmarks (c_SQL c) = length (c_Args c)"
  using assms
proof (rule compileE)
  fix v cols grp conds args ord and lim :: int
  assume v: "map_of views (q_View q) = Some v" and cols: "compile_cols v q = Inr (cols, grp)"
    and wh: "compile_where v (q_Where q) now = Inr (conds, args)"
    and ord: "compile_order (map (fst \<circ> snd) cols) (q_OrderBy q) = Inr ord"
    and c: "c = \<lparr>c_SQL = sql_text v (map fst cols) conds grp ord,
          c_Args = args @ [AInt (lim + 1), AInt (q_Offset q)],
          c_Columns = map (fst \<circ> snd) cols, c_Kinds = map (snd \<circ> snd) cols, c_Limit = lim\<rparr>"
  note pv = view_plain [OF v]
  have "sum_list (map qmarks (map fst cols)) = 0" using compile_cols_qmarks [OF pv cols] by (intro sum_list_zero) auto
  moreover have "sum_list (map qmarks grp) = 0" by (rule sum_list_zero [OF compile_group_qmarks [OF pv cols]])
  moreover have "qmarks (v_From v) = 0" using pv by (simp add: plain_view_def)
  ultimately show ?thesis
    using compile_where_qmarks [OF pv wh] compile_order_qmarks [OF ord]
    by (simp add: c sql_text_def qmarks_join qmarks_clause)
qed

theorem placeholders_match_args_witness:
  "qmarks (case compile \<lparr>q_View = ''messages'', q_Fields = [], q_Where =
      [\<lparr>qf_Field = ''uid'', qf_Op = ''in'', qf_Value = QList [QNum 3, QNum 4]\<rparr>],
      q_GroupBy = [], q_Aggregate = [], q_OrderBy = [], q_Limit = 5, q_Offset = 0\<rparr> 0 of Inr c \<Rightarrow> c_SQL c) = 4"
proof -
  let ?q = "\<lparr>q_View = ''messages'', q_Fields = [], q_Where =
      [\<lparr>qf_Field = ''uid'', qf_Op = ''in'', qf_Value = QList [QNum 3, QNum 4]\<rparr>],
      q_GroupBy = [], q_Aggregate = [], q_OrderBy = [], q_Limit = 5, q_Offset = 0\<rparr>"
  obtain c where c: "compile ?q 0 = Inr c" and n: "length (c_Args c) = 4"
  proof -
    have "case compile ?q 0 of Inr c \<Rightarrow> length (c_Args c) = 4 | _ \<Rightarrow> False" by code_simp
    then show ?thesis using that by (cases "compile ?q 0") simp_all
  qed
  show ?thesis using placeholders_match_args [OF c] n by (simp add: c)
qed

text \<open>Two filters of the same shape: field, operator and, for a list, its length agree.\<close>

fun value_shape :: "qval \<Rightarrow> nat option" where
  "value_shape (QList xs) = Some (length xs)"
| "value_shape _ = None"

definition same_shape :: "qfilter \<Rightarrow> qfilter \<Rightarrow> bool" where
  "same_shape a b \<longleftrightarrow> qf_Field a = qf_Field b \<and> qf_Op a = qf_Op b \<and> value_shape (qf_Value a) = value_shape (qf_Value b)"

lemma compile_filter_shape:
  assumes "same_shape a b" "compile_filter v a now = Inr (x, as)" "compile_filter v b now' = Inr (y, bs)"
  shows "x = y"
  using assms
  by (auto simp: compile_filter_def same_shape_def Let_def dest!: coerce_all_length
           split: option.splits if_splits qval.splits sum.splits)

lemma compile_where_shape:
  "list_all2 same_shape fs gs \<Longrightarrow> compile_where v fs now = Inr (xs, as) \<Longrightarrow>
   compile_where v gs now' = Inr (ys, bs) \<Longrightarrow> xs = ys"
proof (induction fs gs arbitrary: xs as ys bs rule: list_all2_induct)
  case (Cons a fs b gs)
  then obtain x as1 xs' as2 y bs1 ys' bs2 where
    "compile_filter v a now = Inr (x, as1)" "compile_where v fs now = Inr (xs', as2)" "xs = x # xs'"
    "compile_filter v b now' = Inr (y, bs1)" "compile_where v gs now' = Inr (ys', bs2)" "ys = y # ys'"
    by (auto split: sum.splits)
  with Cons show ?case using compile_filter_shape [OF Cons.hyps(1)] by blast
qed simp

text \<open>C10: No filter value, limit or offset reaches the statement text: two requests that differ
  only there, with filters of the same shape, compile to the same SQL.\<close>
theorem sql_independent_of_values:
  assumes c: "compile q now = Inr c"
    and c': "compile (q\<lparr>q_Where := gs, q_Limit := l, q_Offset := off\<rparr>) now' = Inr c'"
    and shape: "list_all2 same_shape (q_Where q) gs"
  shows "c_SQL c' = c_SQL c"
proof -
  let ?q = "q\<lparr>q_Where := gs, q_Limit := l, q_Offset := off\<rparr>"
  have sel: "q_GroupBy ?q = q_GroupBy q" "q_Aggregate ?q = q_Aggregate q" "q_Fields ?q = q_Fields q" by simp_all
  have same: "compile_cols v ?q = compile_cols v q" for v unfolding compile_cols_def sel ..
  from c' obtain v cols grp conds args ord where
    1: "map_of views (q_View q) = Some v" "compile_cols v q = Inr (cols, grp)"
       "compile_where v gs now' = Inr (conds, args)" "compile_order (map (fst \<circ> snd) cols) (q_OrderBy q) = Inr ord"
       "c_SQL c' = sql_text v (map fst cols) conds grp ord"
    by (rule compileE) (simp add: same)
  from c obtain v2 cols2 grp2 conds2 args2 ord2 where
    2: "map_of views (q_View q) = Some v2" "compile_cols v2 q = Inr (cols2, grp2)"
       "compile_where v2 (q_Where q) now = Inr (conds2, args2)" "compile_order (map (fst \<circ> snd) cols2) (q_OrderBy q) = Inr ord2"
       "c_SQL c = sql_text v2 (map fst cols2) conds2 grp2 ord2"
    by (rule compileE) simp
  have v: "v2 = v" using 1(1) 2(1) by simp
  moreover have cols: "cols2 = cols \<and> grp2 = grp" using 1(2) 2(2) v by simp
  moreover have "ord2 = ord" using 1(4) 2(4) cols by simp
  moreover have "conds2 = conds" using compile_where_shape [OF shape 2(3)] 1(3) v by simp
  ultimately show ?thesis using 1(5) 2(5) by simp
qed

definition sample_query :: query where
  "sample_query = \<lparr>q_View = ''messages'', q_Fields = [''id'', ''subject''],
     q_Where = [\<lparr>qf_Field = ''subject'', qf_Op = ''eq'', qf_Value = QStr ''x''\<rparr>],
     q_GroupBy = [], q_Aggregate = [], q_OrderBy = [\<lparr>o_Field = ''id'', o_Desc = True\<rparr>], q_Limit = 0, q_Offset = 0\<rparr>"

definition hostile_filters :: "qfilter list" where
  "hostile_filters = [\<lparr>qf_Field = ''subject'', qf_Op = ''eq'', qf_Value = QStr ''?; DROP TABLE messages''\<rparr>]"

theorem sql_independent_of_values_witness:
  "(case (compile sample_query 0, compile (sample_query\<lparr>q_Where := hostile_filters, q_Limit := 7, q_Offset := 2\<rparr>) 0) of
      (Inr c, Inr c') \<Rightarrow> c_SQL c' = c_SQL c | _ \<Rightarrow> False)"
proof -
  let ?h = "sample_query\<lparr>q_Where := hostile_filters, q_Limit := 7, q_Offset := 2\<rparr>"
  have "case compile sample_query 0 of Inr _ \<Rightarrow> True | _ \<Rightarrow> False" by code_simp
  then obtain c where c: "compile sample_query 0 = Inr c" by (cases "compile sample_query 0") simp_all
  have "case compile ?h 0 of Inr _ \<Rightarrow> True | _ \<Rightarrow> False" by code_simp
  then obtain c' where c': "compile ?h 0 = Inr c'" by (cases "compile ?h 0") simp_all
  have "list_all2 same_shape (q_Where sample_query) hostile_filters" by code_simp
  from sql_independent_of_values [OF c c' this] show ?thesis by (simp add: c c')
qed

lemma agg_not_body:
  assumes "bodies_distinct v" "f \<in> set (v_Fields v)" "f_Body f" "compile_agg v a = Inr c"
  shows "fst c \<noteq> f_Expr f"
proof -
  have "last (fst c) = CHR '')''"
    using assms(4) by (auto simp: compile_agg_def Let_def split: if_splits option.splits)
  then show ?thesis using assms(1-3) by (auto simp: bodies_distinct_def)
qed

text \<open>A message body is selected only under its own name and only when the request lists
  that name in its fields; grouping and aggregates never return one.\<close>
theorem bodies_only_when_named:
  assumes v: "map_of views n = Some v" and cols: "compile_cols v q = Inr (cols, grp)"
    and f: "f \<in> set (v_Fields v)" "f_Body f"
    and sel: "(f_Expr f, name, k) \<in> set cols"
  shows "name = f_Name f \<and> f_Name f \<in> set (q_Fields q)"
proof -
  note bd = view_bodies [OF v]
  let ?P = "\<lambda>c. fst c = f_Expr f \<longrightarrow> fst (snd c) = f_Name f \<and> f_Name f \<in> set (q_Fields q)"
  have same: "g = f" if "view_field v m = Some g" "f_Expr g = f_Expr f" for g m
    using bd f that view_field_mem [OF that(1)] unfolding bodies_distinct_def by metis
  have "\<forall>c\<in>set cols. ?P c"
  proof (rule compile_cols_all [OF cols])
    fix m g assume "view_field v m = Some g" "\<not> f_Body g"
    then show "?P (f_Expr g, m, f_Kind g)" using same f(2) by auto
  next
    fix a c assume "compile_agg v a = Inr c"
    then show "?P c" using agg_not_body [OF bd f] by blast
  next
    fix m g
    assume g: "view_field v m = Some g"
      and m: "m \<in> set (if q_Fields q = [] then map f_Name (filter f_Default (v_Fields v)) else q_Fields q)"
    show "?P (f_Expr g, m, f_Kind g)"
    proof
      assume "fst (f_Expr g, m, f_Kind g) = f_Expr f"
      then have gf: "g = f" using same [OF g] by simp
      then have name: "m = f_Name f" using view_field_mem [OF g] by simp
      have "q_Fields q \<noteq> []"
      proof
        assume "q_Fields q = []"
        then obtain d where d: "d \<in> set (v_Fields v)" "f_Default d" "f_Name d = f_Name f" using m name by auto
        then have "d = f" using bd f(1) unfolding bodies_distinct_def by (metis distinct_map inj_onD)
        then show False using bd d f(2) unfolding bodies_distinct_def by blast
      qed
      then show "fst (snd (f_Expr g, m, f_Kind g)) = f_Name f \<and> f_Name f \<in> set (q_Fields q)"
        using m name by simp
    qed
  qed
  from bspec [OF this sel] show ?thesis by simp
qed

definition body_query :: query where
  "body_query = sample_query\<lparr>q_Fields := [''id'', ''body_text'']\<rparr>"

definition body_field :: field where
  "body_field = mk ''body_text'' ''m.body_text'' KindText False True"

theorem bodies_only_when_named_witness:
  "f_Name body_field \<in> set (q_Fields body_query)"
proof -
  have v: "map_of views ''messages'' = Some messages_view" by (simp add: views_def)
  have c: "compile_cols messages_view body_query =
      Inr ([(''m.id'', ''id'', KindInt), (''m.body_text'', ''body_text'', KindText)], [])" by code_simp
  have f: "body_field \<in> set (v_Fields messages_view)" "f_Body body_field"
    by (simp_all add: messages_view_def body_field_def mk_def)
  have e: "f_Expr body_field = ''m.body_text''" by (simp add: body_field_def mk_def)
  show ?thesis using bodies_only_when_named [OF v c f, of "''body_text''" KindText] by (simp add: e)
qed

section \<open>Bounds and distinct columns\<close>

abbreviation col_names :: "out_col list \<Rightarrow> string list" where "col_names cs \<equiv> map (fst \<circ> snd) cs"

lemma group_cols_distinct:
  "group_cols v ns acc = Inr cols \<Longrightarrow> distinct (col_names acc) \<Longrightarrow>
   distinct (col_names cols) \<and> length cols = length acc + length ns"
  by (induction v ns acc rule: group_cols.induct) (auto split: option.splits if_splits)

lemma field_cols_distinct:
  "field_cols v ns acc = Inr cols \<Longrightarrow> distinct (col_names acc) \<Longrightarrow>
   distinct (col_names cols) \<and> length cols = length acc + length ns"
  by (induction v ns acc rule: field_cols.induct) (auto split: option.splits if_splits)

lemma agg_cols_distinct:
  "agg_cols v as acc = Inr cols \<Longrightarrow> distinct (col_names acc) \<Longrightarrow>
   distinct (col_names cols) \<and> length cols = length acc + length as"
proof (induction v as acc rule: agg_cols.induct)
  case (2 v a as acc)
  then obtain c where c: "compile_agg v a = Inr c" and dup: "fst (snd c) \<notin> set (col_names acc)"
    and rest: "agg_cols v as (acc @ [c]) = Inr cols"
    by (auto split: sum.splits if_splits)
  from "2.IH" [OF c dup rest] "2.prems"(2) dup show ?case by simp
qed simp

lemma defaults_exist: "\<forall>nv\<in>set views. filter f_Default (v_Fields (snd nv)) \<noteq> []"
  by code_simp

lemma compile_cols_distinct:
  assumes v: "map_of views n = Some v" and ok: "compile_cols v q = Inr (cols, grp)"
  shows "distinct (col_names cols) \<and> cols \<noteq> []"
proof (cases "q_GroupBy q \<noteq> [] \<or> q_Aggregate q \<noteq> []")
  case True
  let ?as = "if q_Aggregate q = [] then [\<lparr>a_Fn = ''count'', a_Field = [], a_As = []\<rparr>] else q_Aggregate q"
  obtain gs where gs: "group_cols v (q_GroupBy q) [] = Inr gs" and ag: "agg_cols v ?as gs = Inr cols"
    using True ok by (auto simp: compile_cols_def Let_def split: if_splits sum.splits)
  have "distinct (col_names cols) \<and> length cols = length gs + length ?as"
    using agg_cols_distinct [OF ag] group_cols_distinct [OF gs] by simp
  moreover have "0 < length ?as" by simp
  ultimately show ?thesis by (metis add_is_0 length_0_conv less_numeral_extra(3))
next
  case False
  let ?ns = "if q_Fields q = [] then map f_Name (filter f_Default (v_Fields v)) else q_Fields q"
  have fc: "field_cols v ?ns [] = Inr cols"
    using False ok by (auto simp: compile_cols_def Let_def split: if_splits sum.splits)
  have "filter f_Default (v_Fields v) \<noteq> []" using defaults_exist map_of_SomeD [OF v] by fastforce
  then have "?ns \<noteq> []" by simp
  then have "0 < length ?ns" by blast
  then show ?thesis using field_cols_distinct [OF fc] by auto
qed

lemma compile_filter_args:
  "compile_filter v flt now = Inr (cond, args) \<Longrightarrow> length args \<le> maxInValues"
  by (auto simp: compile_filter_def Let_def maxInValues_def dest!: coerce_all_length
           split: option.splits if_splits qval.splits sum.splits)

lemma compile_where_args:
  "compile_where v fs now = Inr (conds, args) \<Longrightarrow> length args \<le> length fs * maxInValues"
proof (induction v fs now arbitrary: conds args rule: compile_where.induct)
  case (2 v flt fs now)
  then obtain cond a conds' as where f: "compile_filter v flt now = Inr (cond, a)"
    and w: "compile_where v fs now = Inr (conds', as)" and args: "args = a @ as"
    by (auto split: sum.splits)
  have "length as \<le> length fs * maxInValues" by (rule "2.IH" [OF f refl w])
  then show ?case using compile_filter_args [OF f] by (simp add: args)
qed simp

text \<open>A compiled statement asks for one row more than a limit between 1 and 1000, skips a
  non-negative number of rows, binds at most \<open>32 * 500\<close> filter values, and returns at least one
  column, each under a name of its own and with a kind.\<close>
theorem compiled_is_bounded:
  assumes "compile q now = Inr c"
  shows "1 \<le> c_Limit c \<and> c_Limit c \<le> 1000 \<and>
    (\<exists>args off. c_Args c = args @ [AInt (c_Limit c + 1), AInt off] \<and> 0 \<le> off \<and> length args \<le> 16000) \<and>
    c_Columns c \<noteq> [] \<and> distinct (c_Columns c) \<and> length (c_Kinds c) = length (c_Columns c)"
  using assms
proof (rule compileE)
  fix v cols grp conds args ord and lim :: int
  assume v: "map_of views (q_View q) = Some v" and cols: "compile_cols v q = Inr (cols, grp)"
    and n: "length (q_Where q) \<le> maxFilters" and wh: "compile_where v (q_Where q) now = Inr (conds, args)"
    and lim: "lim = (if q_Limit q \<le> 0 then DefaultLimit else q_Limit q)" "lim \<le> MaxLimit" and off: "0 \<le> q_Offset q"
    and c: "c = \<lparr>c_SQL = sql_text v (map fst cols) conds grp ord,
          c_Args = args @ [AInt (lim + 1), AInt (q_Offset q)],
          c_Columns = col_names cols, c_Kinds = map (snd \<circ> snd) cols, c_Limit = lim\<rparr>"
  have "length (q_Where q) * maxInValues \<le> 16000" using n by (simp add: maxFilters_def maxInValues_def)
  then have "length args \<le> 16000" using compile_where_args [OF wh] by simp
  moreover have "1 \<le> lim \<and> lim \<le> 1000" using lim by (simp add: DefaultLimit_def MaxLimit_def split: if_splits)
  ultimately show ?thesis using compile_cols_distinct [OF v cols] off by (simp add: c)
qed

theorem compiled_is_bounded_witness:
  "(case compile sample_query 0 of Inr c \<Rightarrow> 1 \<le> c_Limit c \<and> c_Limit c \<le> 1000 \<and> distinct (c_Columns c) | _ \<Rightarrow> False)"
proof -
  have "case compile sample_query 0 of Inr _ \<Rightarrow> True | _ \<Rightarrow> False" by code_simp
  then obtain c where c: "compile sample_query 0 = Inr c" by (cases "compile sample_query 0") simp_all
  show ?thesis using compiled_is_bounded [OF c] by (simp add: c)
qed

end
