(* ===== verification/Auth.thy ===== *)
theory Auth
  imports Complex_Main Imap_Prelude
begin

text \<open>
  Bearer-token authentication: the configured tokens (\<open>internal/config/auth.go\<close> and the secret
  references of \<open>internal/config/secrets.go\<close>), the authenticator and its two middlewares
  (\<open>internal/httpauth/httpauth.go\<close>), the scopes of the MCP tools (\<open>internal/mcp/scopes.go\<close>) and
  of the REST routes (\<open>internal/api/server.go\<close>), and how the server composes them. SHA-256 is
  a parameter \<open>h\<close>; a request to datawatch for a secret is the parameter \<open>fetch\<close>.
\<close>

section \<open>Scopes and principals\<close>

datatype scope = ScopeRead | ScopeWrite | ScopeSend | ScopeAdmin | ScopeUnsubscribe

fun scope_string :: "scope \<Rightarrow> string" where
  "scope_string ScopeRead = ''read''"
| "scope_string ScopeWrite = ''write''"
| "scope_string ScopeSend = ''send''"
| "scope_string ScopeAdmin = ''admin''"
| "scope_string ScopeUnsubscribe = ''unsubscribe''"

definition AllScopes :: "scope list" where
  "AllScopes = [ScopeRead, ScopeWrite, ScopeSend, ScopeAdmin, ScopeUnsubscribe]"

definition parse_scope :: "string \<Rightarrow> scope option" where
  "parse_scope s = find (\<lambda>sc. scope_string sc = s) AllScopes"

record token =
  t_Name :: string
  t_Value :: string
  t_Scopes :: "scope list"

record principal =
  p_Name :: string
  p_scopes :: "scope list"

definition has_scope :: "principal option \<Rightarrow> scope \<Rightarrow> bool" where
  "has_scope p s = (case p of None \<Rightarrow> False | Some x \<Rightarrow> s \<in> set (p_scopes x))"

record 'h auth_entry =
  e_hash :: 'h
  e_principal :: principal

record 'h authenticator =
  au_entries :: "'h auth_entry list"
  au_open :: "string list"

section \<open>Configured tokens\<close>

record token_config =
  tc_Name :: string
  tc_Token :: string
  tc_Scopes :: "string list"

record server_auth =
  sa_Disabled :: bool
  sa_Tokens :: "token_config list"

record datawatch_config =
  dw_APIURL :: string
  dw_Token :: string

definition MinTokenLength :: nat where "MinTokenLength = 32"

definition is_name_char :: "char \<Rightarrow> bool" where
  "is_name_char c = (let n = (of_char c :: nat) in
     (65 \<le> n \<and> n \<le> 90) \<or> (97 \<le> n \<and> n \<le> 122) \<or> is_digit c \<or> c = CHR ''.'' \<or> c = CHR ''_'' \<or> c = CHR ''-'')"

text \<open>The pattern \<open>[A-Za-z0-9._-]{1,64}\<close>.\<close>

definition token_name_ok :: "string \<Rightarrow> bool" where
  "token_name_ok s \<longleftrightarrow> s \<noteq> [] \<and> length s \<le> 64 \<and> list_all is_name_char s"

text \<open>A reference at the head of a string: an opening of \<open>p\<close>, at least one character of the class
  \<open>ok\<close>, a closing brace. The result is the name and what follows. No class holds the brace, so
  the longest run is the only candidate.\<close>

definition ref_at :: "string \<Rightarrow> (char \<Rightarrow> bool) \<Rightarrow> string \<Rightarrow> (string \<times> string) option" where
  "ref_at p ok s =
     (if has_prefix s p
      then (let r = drop (length p) s; n = takeWhile ok r; z = drop (length n) r in
            if n \<noteq> [] \<and> z \<noteq> [] \<and> hd z = CHR 0x7D then Some (n, tl z) else None)
      else None)"

definition secret_at :: "string \<Rightarrow> (string \<times> string) option" where
  "secret_at s = ref_at ([CHR ''$'', CHR 0x7B] @ ''secret:'') is_name_char s"

definition env_at :: "string \<Rightarrow> (string \<times> string) option" where
  "env_at s = ref_at [CHR ''$'', CHR 0x7B] (\<lambda>c. c \<noteq> CHR 0x7D) s"

fun has_ref :: "(string \<Rightarrow> (string \<times> string) option) \<Rightarrow> string \<Rightarrow> bool" where
  "has_ref f [] = (f [] \<noteq> None)"
| "has_ref f (c # cs) = (f (c # cs) \<noteq> None \<or> has_ref f cs)"

definition has_secret_ref :: "string \<Rightarrow> bool" where "has_secret_ref s = has_ref secret_at s"
definition is_unresolved :: "string \<Rightarrow> bool" where "is_unresolved s = has_ref env_at s"

lemma ref_at_shorter: "ref_at p ok s = Some (n, r) \<Longrightarrow> length r < length s"
  by (auto simp: ref_at_def Let_def neq_Nil_conv split: if_splits)
     (metis Suc_le_eq add_leD2 length_Cons length_drop less_or_eq_imp_le diff_le_self order_trans)

text \<open>Expansion, left to right; the first failed fetch is the error.\<close>

function expand :: "(string \<Rightarrow> string option) \<Rightarrow> string \<Rightarrow> string option" where
  "expand fetch s =
     (case s of
        [] \<Rightarrow> Some []
      | c # cs \<Rightarrow>
          (case secret_at s of
             Some (n, r) \<Rightarrow> (case fetch n of None \<Rightarrow> None | Some x \<Rightarrow> map_option ((@) x) (expand fetch r))
           | None \<Rightarrow> map_option ((#) c) (expand fetch cs)))"
  by pat_completeness auto
termination
  by (relation "measure (\<lambda>(f, s). length s)") (auto simp: secret_at_def dest: ref_at_shorter)

declare expand.simps [simp del]

datatype auth_error =
    BadTokenName nat | NeedsDatawatch nat | DatawatchTransport | SecretFailed nat | UnresolvedToken nat
  | ShortToken nat | NoScopes nat | UnknownScope nat | NoTokens | DuplicateName string | ReusedValue string string

fun parse_scopes :: "string list \<Rightarrow> scope list option" where
  "parse_scopes [] = Some []"
| "parse_scopes (s # ss) =
     (case parse_scope s of None \<Rightarrow> None | Some sc \<Rightarrow> map_option ((#) sc) (parse_scopes ss))"

text \<open>The value of the \<open>i\<close>-th token; \<open>transport\<close> tells whether datawatch's certificate file loads.\<close>

definition token_value ::
  "datawatch_config option \<Rightarrow> bool \<Rightarrow> (string \<Rightarrow> string option) \<Rightarrow> nat \<Rightarrow> string \<Rightarrow> auth_error + string" where
  "token_value dw transport fetch i v =
     (if has_secret_ref v
      then (case dw of
              None \<Rightarrow> Inl (NeedsDatawatch i)
            | Some d \<Rightarrow>
                (if trim_space (dw_APIURL d) = [] \<or> trim_space (dw_Token d) = [] then Inl (NeedsDatawatch i)
                 else if \<not> transport then Inl DatawatchTransport
                 else (case expand fetch v of None \<Rightarrow> Inl (SecretFailed i) | Some x \<Rightarrow> Inr x)))
      else Inr v)"

definition resolve_token ::
  "datawatch_config option \<Rightarrow> bool \<Rightarrow> (string \<Rightarrow> string option) \<Rightarrow> nat \<Rightarrow> token_config \<Rightarrow> auth_error + token" where
  "resolve_token dw transport fetch i t =
     (if \<not> token_name_ok (tc_Name t) then Inl (BadTokenName i)
      else (case token_value dw transport fetch i (tc_Token t) of
              Inl e \<Rightarrow> Inl e
            | Inr v \<Rightarrow>
                (if is_unresolved v then Inl (UnresolvedToken i)
                 else if length v < MinTokenLength then Inl (ShortToken i)
                 else if tc_Scopes t = [] then Inl (NoScopes i)
                 else (case parse_scopes (tc_Scopes t) of
                         None \<Rightarrow> Inl (UnknownScope i)
                       | Some ss \<Rightarrow> Inr \<lparr>t_Name = tc_Name t, t_Value = v, t_Scopes = ss\<rparr>))))"

fun resolve_tokens ::
  "datawatch_config option \<Rightarrow> bool \<Rightarrow> (string \<Rightarrow> string option) \<Rightarrow> nat \<Rightarrow> token_config list \<Rightarrow> auth_error + token list" where
  "resolve_tokens dw transport fetch i [] = Inr []"
| "resolve_tokens dw transport fetch i (t # ts) =
     (case resolve_token dw transport fetch i t of
        Inl e \<Rightarrow> Inl e
      | Inr x \<Rightarrow> (case resolve_tokens dw transport fetch (Suc i) ts of Inl e \<Rightarrow> Inl e | Inr xs \<Rightarrow> Inr (x # xs)))"

text \<open>\<open>ServeAuth\<close>: the tokens, or \<open>None\<close> when authentication is disabled.\<close>

definition serve_auth ::
  "datawatch_config option \<Rightarrow> bool \<Rightarrow> (string \<Rightarrow> string option) \<Rightarrow> server_auth \<Rightarrow> auth_error + token list option" where
  "serve_auth dw transport fetch a =
     (case resolve_tokens dw transport fetch 1 (sa_Tokens a) of
        Inl e \<Rightarrow> Inl e
      | Inr ts \<Rightarrow> if sa_Disabled a then Inr None else if ts = [] then Inl NoTokens else Inr (Some ts))"

section \<open>The authenticator\<close>

fun add_tokens :: "(string \<Rightarrow> 'h) \<Rightarrow> token list \<Rightarrow> 'h auth_entry list \<Rightarrow> auth_error + 'h auth_entry list" where
  "add_tokens h [] es = Inr es"
| "add_tokens h (t # ts) es =
     (if t_Name t \<in> set (map (p_Name \<circ> e_principal) es) then Inl (DuplicateName (t_Name t))
      else (case find (\<lambda>e. e_hash e = h (t_Value t)) es of
              Some e \<Rightarrow> Inl (ReusedValue (t_Name t) (p_Name (e_principal e)))
            | None \<Rightarrow>
                add_tokens h ts
                  (es @ [\<lparr>e_hash = h (t_Value t), e_principal = \<lparr>p_Name = t_Name t, p_scopes = t_Scopes t\<rparr>\<rparr>])))"

definition auth_new :: "(string \<Rightarrow> 'h) \<Rightarrow> token list \<Rightarrow> string list \<Rightarrow> auth_error + 'h authenticator" where
  "auth_new h ts open_paths =
     (if ts = [] then Inl NoTokens
      else (case add_tokens h ts [] of
              Inl e \<Rightarrow> Inl e
            | Inr es \<Rightarrow> Inr \<lparr>au_entries = es, au_open = open_paths\<rparr>))"

text \<open>The scan does not stop at a match, so a later match replaces an earlier one.\<close>

definition lookup :: "(string \<Rightarrow> 'h) \<Rightarrow> 'h authenticator \<Rightarrow> string \<Rightarrow> principal option" where
  "lookup h a presented =
     fold (\<lambda>e found. if e_hash e = h presented then Some (e_principal e) else found) (au_entries a) None"

definition bearer :: "string \<Rightarrow> string option" where
  "bearer hdr =
     (let n = length ''bearer '' in
      if length hdr \<le> n \<or> \<not> equal_fold (take n hdr) ''bearer '' then None
      else Some (trim_space (drop n hdr)))"

text \<open>What a request comes to: an HTTP error, or the handler with the principal in its context.\<close>

datatype outcome = Unauthorized | Forbidden | Handled "principal option"

definition middleware :: "(string \<Rightarrow> 'h) \<Rightarrow> 'h authenticator option \<Rightarrow> string \<Rightarrow> string \<Rightarrow> outcome" where
  "middleware h au path hdr =
     (case au of
        None \<Rightarrow> Handled None
      | Some a \<Rightarrow>
          (if path \<in> set (au_open a) then Handled None
           else (case Option.bind (bearer hdr) (lookup h a) of
                   None \<Rightarrow> Unauthorized
                 | Some p \<Rightarrow> Handled (Some p))))"

definition require_scope :: "'h authenticator option \<Rightarrow> scope \<Rightarrow> principal option \<Rightarrow> outcome" where
  "require_scope au s p = (if au = None then Handled p else if has_scope p s then Handled p else Forbidden)"

text \<open>\<open>buildAuth\<close> of the command.\<close>

definition build_auth ::
  "(string \<Rightarrow> 'h) \<Rightarrow> datawatch_config option \<Rightarrow> bool \<Rightarrow> (string \<Rightarrow> string option) \<Rightarrow> server_auth \<Rightarrow>
   auth_error + 'h authenticator option" where
  "build_auth h dw transport fetch a =
     (case serve_auth dw transport fetch a of
        Inl e \<Rightarrow> Inl e
      | Inr None \<Rightarrow> Inr None
      | Inr (Some ts) \<Rightarrow> map_sum id Some (auth_new h ts [''/api/health'']))"

section \<open>MCP tools\<close>

definition toolScopes :: "(string \<times> scope) list" where
  "toolScopes =
    [(''list_accounts'', ScopeRead),
     (''list_folders'', ScopeRead),
     (''list_messages'', ScopeRead),
     (''get_message'', ScopeRead),
     (''get_thread'', ScopeRead),
     (''get_headers'', ScopeRead),
     (''get_attachments'', ScopeRead),
     (''search_messages'', ScopeRead),
     (''cross_account_search'', ScopeRead),
     (''semantic_search'', ScopeRead),
     (''summarize_folder'', ScopeRead),
     (''detect_subscriptions'', ScopeRead),
     (''get_sender_history'', ScopeRead),
     (''get_sender_profile'', ScopeRead),
     (''kg_query'', ScopeRead),
     (''get_anomalies'', ScopeRead),
     (''needs_reply'', ScopeRead),
     (''awaiting_reply'', ScopeRead),
     (''enrichment_status'', ScopeRead),
     (''top_senders'', ScopeRead),
     (''list_rules'', ScopeRead),
     (''suggest_rules'', ScopeRead),
     (''suggest_identities'', ScopeRead),
     (''setup_check'', ScopeRead),
     (''verdict_eval_results'', ScopeRead),
     (''list_rule_packs'', ScopeRead),
     (''read_file'', ScopeRead),
     (''list_files'', ScopeRead),
     (''list_unsubscribes'', ScopeRead),
     (''held_senders'', ScopeRead),
     (''create_folder'', ScopeWrite),
     (''delete_folder'', ScopeWrite),
     (''label_message'', ScopeWrite),
     (''label_bulk'', ScopeWrite),
     (''empty_trash'', ScopeWrite),
     (''move_message'', ScopeWrite),
     (''copy_message'', ScopeWrite),
     (''delete_message'', ScopeWrite),
     (''set_flags'', ScopeWrite),
     (''append_message'', ScopeWrite),
     (''move_bulk'', ScopeWrite),
     (''flag_bulk'', ScopeWrite),
     (''purge_sender'', ScopeWrite),
     (''create_rule'', ScopeWrite),
     (''delete_rule'', ScopeWrite),
     (''run_rules'', ScopeWrite),
     (''dismiss_suggestion'', ScopeWrite),
     (''confirm_identity'', ScopeWrite),
     (''reject_identity'', ScopeWrite),
     (''import_rule_pack'', ScopeWrite),
     (''resolve_anomaly'', ScopeWrite),
     (''dismiss_reply'', ScopeWrite),
     (''screen_senders'', ScopeWrite),
     (''export_message'', ScopeWrite),
     (''write_file'', ScopeWrite),
     (''delete_file'', ScopeWrite),
     (''send_message'', ScopeSend),
     (''unsubscribe'', ScopeUnsubscribe),
     (''sync_account'', ScopeAdmin),
     (''trigger_enrichment'', ScopeAdmin),
     (''cache_sweep'', ScopeAdmin),
     (''verdict_eval'', ScopeAdmin)]"

text \<open>The argument values of a tool call: only a string matters here.\<close>

datatype arg_value = ArgString string | ArgOther

type_synonym tool_args = "(string \<times> arg_value) list"

definition arg_string :: "tool_args \<Rightarrow> string \<Rightarrow> string" where
  "arg_string args k = (case map_of args k of Some (ArgString s) \<Rightarrow> s | _ \<Rightarrow> [])"

definition argScopes :: "string \<Rightarrow> tool_args \<Rightarrow> scope option" where
  "argScopes name args =
     (if name = ''get_attachments'' then (if arg_string args ''part'' \<noteq> [] then Some ScopeWrite else None)
      else if name = ''unsubscribe'' then (if arg_string args ''archive_to'' \<noteq> [] then Some ScopeWrite else None)
      else None)"

definition scope_middleware :: "principal option \<Rightarrow> string \<Rightarrow> tool_args \<Rightarrow> outcome" where
  "scope_middleware p name args =
     (case map_of toolScopes name of
        None \<Rightarrow> Forbidden
      | Some s \<Rightarrow>
          (if \<not> has_scope p s then Forbidden
           else (case argScopes name args of
                   None \<Rightarrow> Handled p
                 | Some need \<Rightarrow> if has_scope p need then Handled p else Forbidden)))"

definition scope_filter :: "principal option \<Rightarrow> string list \<Rightarrow> string list" where
  "scope_filter p tools =
     filter (\<lambda>t. case map_of toolScopes t of None \<Rightarrow> False | Some s \<Rightarrow> has_scope p s) tools"

section \<open>REST routes\<close>

datatype http_method = GET | POST | PUT | DELETE

type_synonym route = "http_method \<times> string \<times> scope option"

definition routes :: "route list" where
  "routes =
    [(GET, ''/api/events'', Some ScopeRead),
     (GET, ''/api/accounts/{account}/folders/{folder}/messages/{uid}/attachments/{part}'', Some ScopeWrite),
     (GET, ''/api/accounts/{account}/folders/{folder}/messages/{uid}/export.eml'', Some ScopeWrite),
     (POST, ''/api/export'', Some ScopeWrite),
     (GET, ''/api/health'', None),
     (GET, ''/api/accounts'', Some ScopeRead),
     (POST, ''/api/accounts/{account}/sync'', Some ScopeAdmin),
     (GET, ''/api/accounts/{account}/folders'', Some ScopeRead),
     (GET, ''/api/accounts/{account}/folders/{folder}/messages'', Some ScopeRead),
     (GET, ''/api/accounts/{account}/folders/{folder}/messages/{uid}'', Some ScopeRead),
     (DELETE, ''/api/accounts/{account}/folders/{folder}/messages/{uid}'', Some ScopeWrite),
     (PUT, ''/api/accounts/{account}/folders/{folder}/messages/{uid}/flags'', Some ScopeWrite),
     (POST, ''/api/accounts/{account}/folders/{folder}/messages/{uid}/move'', Some ScopeWrite),
     (GET, ''/api/accounts/{account}/folders/{folder}/messages/{uid}/attachments'', Some ScopeRead),
     (GET, ''/api/threads/{thread_id}'', Some ScopeRead),
     (GET, ''/api/search'', Some ScopeRead),
     (POST, ''/api/search/semantic'', Some ScopeRead),
     (GET, ''/api/search/cross'', Some ScopeRead),
     (GET, ''/api/accounts/{account}/stats'', Some ScopeRead),
     (GET, ''/api/senders'', Some ScopeRead),
     (GET, ''/api/senders/{address}'', Some ScopeRead),
     (GET, ''/api/kg'', Some ScopeRead),
     (GET, ''/api/anomalies'', Some ScopeRead),
     (POST, ''/api/anomalies/{id}/resolve'', Some ScopeWrite),
     (GET, ''/api/replies/needed'', Some ScopeRead),
     (GET, ''/api/replies/awaiting'', Some ScopeRead),
     (POST, ''/api/replies/dismiss'', Some ScopeWrite),
     (GET, ''/api/enrichment/status'', Some ScopeRead),
     (GET, ''/api/intelligence/status'', Some ScopeRead),
     (POST, ''/api/enrichment/trigger'', Some ScopeAdmin),
     (POST, ''/api/cache/sweep'', Some ScopeAdmin),
     (GET, ''/api/webhooks'', Some ScopeAdmin),
     (POST, ''/api/webhooks'', Some ScopeAdmin),
     (DELETE, ''/api/webhooks/{id}'', Some ScopeAdmin),
     (POST, ''/api/webhooks/{id}/enable'', Some ScopeAdmin),
     (POST, ''/api/webhooks/{id}/test'', Some ScopeAdmin),
     (GET, ''/api/webhooks/{id}/deliveries'', Some ScopeAdmin),
     (GET, ''/api/rules'', Some ScopeRead),
     (GET, ''/api/rules/suggestions'', Some ScopeRead),
     (GET, ''/api/identities'', Some ScopeRead),
     (GET, ''/api/setup-check'', Some ScopeRead),
     (POST, ''/api/verdicts/eval'', Some ScopeAdmin),
     (GET, ''/api/verdicts/eval'', Some ScopeRead),
     (GET, ''/api/rule-packs'', Some ScopeRead),
     (POST, ''/api/unsubscribe'', Some ScopeUnsubscribe),
     (GET, ''/api/held'', Some ScopeRead),
     (POST, ''/api/held/{account}/decide'', Some ScopeWrite),
     (GET, ''/api/unsubscribes'', Some ScopeRead),
     (POST, ''/api/rule-packs/{name}/import'', Some ScopeWrite),
     (POST, ''/api/identities/confirm'', Some ScopeWrite),
     (POST, ''/api/identities/reject'', Some ScopeWrite),
     (POST, ''/api/rules/suggestions/dismiss'', Some ScopeWrite),
     (POST, ''/api/rules'', Some ScopeWrite),
     (PUT, ''/api/rules/{id}'', Some ScopeWrite),
     (DELETE, ''/api/rules/{id}'', Some ScopeWrite),
     (POST, ''/api/rules/{id}/test'', Some ScopeWrite),
     (GET, ''/api/query'', Some ScopeAdmin),
     (POST, ''/api/query'', Some ScopeAdmin),
     (POST, ''/api/accounts/{account}/messages/send'', Some ScopeSend)]"

section \<open>The server\<close>

text \<open>A request that the router matches to a route, and a tool call that arrives at \<open>/mcp\<close>. The
  scope checks of the tools are installed exactly when there is an authenticator.\<close>

definition serve_rest ::
  "(string \<Rightarrow> 'h) \<Rightarrow> 'h authenticator option \<Rightarrow> string \<Rightarrow> string \<Rightarrow> route \<Rightarrow> outcome" where
  "serve_rest h au path hdr r =
     (case middleware h au path hdr of
        Handled p \<Rightarrow> (case snd (snd r) of None \<Rightarrow> Handled p | Some s \<Rightarrow> require_scope au s p)
      | x \<Rightarrow> x)"

definition serve_tool ::
  "(string \<Rightarrow> 'h) \<Rightarrow> 'h authenticator option \<Rightarrow> string \<Rightarrow> string \<Rightarrow> string \<Rightarrow> tool_args \<Rightarrow> outcome" where
  "serve_tool h au path hdr name args =
     (case middleware h au path hdr of
        Handled p \<Rightarrow> (if au = None then Handled p else scope_middleware p name args)
      | x \<Rightarrow> x)"

definition list_tools ::
  "(string \<Rightarrow> 'h) \<Rightarrow> 'h authenticator option \<Rightarrow> string \<Rightarrow> string \<Rightarrow> string list \<Rightarrow> string list" where
  "list_tools h au path hdr tools =
     (case middleware h au path hdr of
        Handled p \<Rightarrow> (if au = None then tools else scope_filter p tools)
      | _ \<Rightarrow> [])"

end
