(* ===== verification/Auth_Props.thy ===== *)
theory Auth_Props
  imports Auth
begin

text \<open>
  What authentication promises: a request reaches a scoped handler only with a bearer token that
  hashes to a configured one holding the scope, every configured token is accepted, and a listing
  shows exactly the tools its caller may call.
\<close>

section \<open>Resolved tokens\<close>

definition token_ok :: "token \<Rightarrow> bool" where
  "token_ok t \<longleftrightarrow> token_name_ok (t_Name t) \<and> 32 \<le> length (t_Value t) \<and> \<not> is_unresolved (t_Value t) \<and> t_Scopes t \<noteq> []"

lemma parse_scopes_length: "parse_scopes ss = Some xs \<Longrightarrow> length xs = length ss"
  by (induction ss arbitrary: xs) (auto split: option.splits)

lemma resolve_token_ok: "resolve_token dw tr fetch i t = Inr x \<Longrightarrow> token_ok x"
  by (auto simp: resolve_token_def token_ok_def MinTokenLength_def dest: parse_scopes_length
           split: if_splits sum.splits option.splits)

lemma resolve_tokens_ok: "resolve_tokens dw tr fetch i ts = Inr xs \<Longrightarrow> \<forall>x\<in>set xs. token_ok x"
  by (induction dw tr fetch i ts arbitrary: xs rule: resolve_tokens.induct)
     (auto split: sum.splits dest: resolve_token_ok)

lemma serve_auth_ok: "serve_auth dw tr fetch a = Inr (Some ts) \<Longrightarrow> \<forall>t\<in>set ts. token_ok t"
  by (auto simp: serve_auth_def split: sum.splits if_splits dest: resolve_tokens_ok)

section \<open>The entries\<close>

definition principal_of :: "token \<Rightarrow> principal" where
  "principal_of t = \<lparr>p_Name = t_Name t, p_scopes = t_Scopes t\<rparr>"

definition entry_of :: "(string \<Rightarrow> 'h) \<Rightarrow> token \<Rightarrow> 'h auth_entry" where
  "entry_of h t = \<lparr>e_hash = h (t_Value t), e_principal = principal_of t\<rparr>"

lemma entry_of_sel [simp]: "e_hash (entry_of h t) = h (t_Value t)" "e_principal (entry_of h t) = principal_of t"
  by (simp_all add: entry_of_def)

lemma add_tokens_entries:
  "add_tokens h ts es = Inr es' \<Longrightarrow> distinct (map e_hash es) \<Longrightarrow>
   es' = es @ map (entry_of h) ts \<and> distinct (map e_hash es')"
proof (induction h ts es rule: add_tokens.induct)
  case (2 h t ts es)
  have e: "\<lparr>e_hash = h (t_Value t), e_principal = \<lparr>p_Name = t_Name t, p_scopes = t_Scopes t\<rparr>\<rparr> = entry_of h t"
    by (simp add: entry_of_def principal_of_def)
  from "2.prems"(1) have new: "t_Name t \<notin> set (map (p_Name \<circ> e_principal) es)"
    and fresh: "find (\<lambda>e. e_hash e = h (t_Value t)) es = None"
    and rest: "add_tokens h ts (es @ [entry_of h t]) = Inr es'"
    by (auto simp: e split: if_splits option.splits)
  have "distinct (map e_hash (es @ [entry_of h t]))"
    using fresh "2.prems"(2) by (auto simp: find_None_iff)
  note ih = "2.IH" [OF new fresh, unfolded e, OF rest this]
  then have "distinct (map e_hash es')" and "es' = es @ map (entry_of h) (t # ts)" by (blast, simp)
  then show ?case by blast
qed simp

lemma auth_new_entries:
  assumes "auth_new h ts op = Inr a"
  shows "au_entries a = map (entry_of h) ts \<and> distinct (map e_hash (au_entries a)) \<and> au_open a = op"
  using assms add_tokens_entries [of h ts "[]"]
  by (auto simp: auth_new_def split: if_splits sum.splits)

lemma build_authE:
  assumes "build_auth h dw tr fetch cfg = Inr (Some a)"
  obtains ts where "serve_auth dw tr fetch cfg = Inr (Some ts)" "auth_new h ts [''/api/health''] = Inr a"
  using assms that by (auto simp: build_auth_def map_sum_def split: sum.splits option.splits)

text \<open>The scan over all entries finds the last match.\<close>

lemma lookup_fold:
  "fold (\<lambda>e found. if e_hash e = x then Some (e_principal e) else found) es found = Some p \<Longrightarrow>
   found = Some p \<or> (\<exists>e\<in>set es. e_hash e = x \<and> e_principal e = p)"
  by (induction es arbitrary: found) (auto split: if_splits)

lemma lookup_fold_none:
  "x \<notin> e_hash ` set es \<Longrightarrow>
   fold (\<lambda>e found. if e_hash e = x then Some (e_principal e) else found) es found = found"
  by (induction es arbitrary: found) auto

lemma lookup_fold_hit:
  "distinct (map e_hash es) \<Longrightarrow> e \<in> set es \<Longrightarrow>
   fold (\<lambda>e found. if e_hash e = e_hash d then Some (e_principal e) else found) es found = Some (e_principal e)"
  if "e_hash d = e_hash e"
  using that
proof (induction es arbitrary: found)
  case (Cons y ys)
  show ?case
  proof (cases "y = e")
    case True
    have "e_hash d \<notin> e_hash ` set ys" using Cons.prems True by auto
    from lookup_fold_none [OF this] True Cons.prems show ?thesis by simp
  next
    case False
    with Cons show ?thesis by auto
  qed
qed simp

lemma lookup_sound:
  assumes new: "auth_new h ts op = Inr a" and l: "lookup h a x = Some p"
  shows "\<exists>t\<in>set ts. h x = h (t_Value t) \<and> p = principal_of t"
proof -
  obtain e where e: "e \<in> set (au_entries a)" "e_hash e = h x" "e_principal e = p"
    using lookup_fold [OF l [unfolded lookup_def]] by auto
  then obtain t where "t \<in> set ts" "e = entry_of h t" using auth_new_entries [OF new] by auto
  with e show ?thesis by (intro bexI [of _ t]) auto
qed

text \<open>What passes the first middleware.\<close>

lemma middleware_handled:
  assumes new: "auth_new h ts op = Inr a" and m: "middleware h (Some a) path hdr = Handled (Some p)"
  shows "\<exists>tok t. bearer hdr = Some tok \<and> t \<in> set ts \<and> h tok = h (t_Value t) \<and> p = principal_of t"
proof -
  from m obtain tok where "bearer hdr = Some tok" "lookup h a tok = Some p"
    by (auto simp: middleware_def bind_eq_Some_conv split: if_splits option.splits)
  with lookup_sound [OF new] show ?thesis by blast
qed

text \<open>A caller that has been granted scope \<open>s\<close> by the configuration \<open>cfg\<close>.\<close>

definition granted ::
  "(string \<Rightarrow> 'h) \<Rightarrow> datawatch_config option \<Rightarrow> bool \<Rightarrow> (string \<Rightarrow> string option) \<Rightarrow> server_auth \<Rightarrow> string \<Rightarrow> principal \<Rightarrow> bool" where
  "granted h dw tr fetch cfg hdr p \<longleftrightarrow>
     (\<exists>ts t tok. serve_auth dw tr fetch cfg = Inr (Some ts) \<and> t \<in> set ts \<and> bearer hdr = Some tok \<and>
        h tok = h (t_Value t) \<and> 32 \<le> length (t_Value t) \<and> p_Name p = t_Name t \<and> p_scopes p = t_Scopes t)"

lemma handled_granted:
  assumes b: "build_auth h dw tr fetch cfg = Inr (Some a)" and m: "middleware h (Some a) path hdr = Handled (Some p)"
  shows "granted h dw tr fetch cfg hdr p"
proof -
  from b obtain ts where ts: "serve_auth dw tr fetch cfg = Inr (Some ts)" and new: "auth_new h ts [''/api/health''] = Inr a"
    by (rule build_authE)
  from middleware_handled [OF new m] obtain tok t where
    t: "bearer hdr = Some tok" "t \<in> set ts" "h tok = h (t_Value t)" "p = principal_of t" by blast
  have "32 \<le> length (t_Value t)" using serve_auth_ok [OF ts] t(2) by (auto simp: token_ok_def)
  with ts t show ?thesis unfolding granted_def by (auto simp: principal_of_def)
qed

section \<open>Properties\<close>

text \<open>C8: With authentication enabled a tool call reaches its handler only when its bearer token
  hashes to a configured token of at least 32 characters that holds the tool's scope and the
  scope its arguments add.\<close>
theorem tool_call_needs_granted_scope:
  assumes "build_auth h dw tr fetch cfg = Inr (Some a)"
    and "serve_tool h (Some a) path hdr name args = Handled q"
  shows "\<exists>p s. q = Some p \<and> granted h dw tr fetch cfg hdr p \<and> map_of toolScopes name = Some s \<and>
    s \<in> set (p_scopes p) \<and> (\<forall>need. argScopes name args = Some need \<longrightarrow> need \<in> set (p_scopes p))"
proof -
  from assms(2) obtain p s where m: "middleware h (Some a) path hdr = Handled (Some p)"
    and s: "q = Some p" "map_of toolScopes name = Some s" "s \<in> set (p_scopes p)"
      "\<forall>need. argScopes name args = Some need \<longrightarrow> need \<in> set (p_scopes p)"
    by (auto simp: serve_tool_def scope_middleware_def has_scope_def split: outcome.splits option.splits if_splits)
  with handled_granted [OF assms(1) m] show ?thesis by blast
qed

definition sample_auth :: server_auth where
  "sample_auth = \<lparr>sa_Disabled = False, sa_Tokens =
     [\<lparr>tc_Name = ''reader'', tc_Token = replicate 32 (CHR ''r''), tc_Scopes = [''read'']\<rparr>,
      \<lparr>tc_Name = ''agent'', tc_Token = replicate 40 (CHR ''a''), tc_Scopes = [''read'', ''write'']\<rparr>]\<rparr>"

definition sample_au :: "string authenticator" where
  "sample_au = \<lparr>au_entries =
     [\<lparr>e_hash = replicate 32 (CHR ''r''), e_principal = \<lparr>p_Name = ''reader'', p_scopes = [ScopeRead]\<rparr>\<rparr>,
      \<lparr>e_hash = replicate 40 (CHR ''a''), e_principal = \<lparr>p_Name = ''agent'', p_scopes = [ScopeRead, ScopeWrite]\<rparr>\<rparr>],
     au_open = [''/api/health'']\<rparr>"

definition agent_header :: string where "agent_header = ''Bearer '' @ replicate 40 (CHR ''a'')"
definition agent :: principal where "agent = \<lparr>p_Name = ''agent'', p_scopes = [ScopeRead, ScopeWrite]\<rparr>"

lemma sample_built: "build_auth (\<lambda>s. s) None True (\<lambda>_. None) sample_auth = Inr (Some sample_au)"
  by code_simp

theorem tool_call_needs_granted_scope_witness:
  "granted (\<lambda>s. s) None True (\<lambda>_. None) sample_auth agent_header agent"
proof -
  have "serve_tool (\<lambda>s. s) (Some sample_au) ''/mcp'' agent_header ''get_attachments'' [(''part'', ArgString ''2'')]
      = Handled (Some agent)" by code_simp
  from tool_call_needs_granted_scope [OF sample_built this] show ?thesis by blast
qed

lemma only_health_is_open: "\<forall>r\<in>set routes. snd (snd r) = None \<longrightarrow> fst (snd r) = ''/api/health''"
  by code_simp

text \<open>With authentication enabled every REST route but the health check reaches its handler
  only for a caller whose bearer token hashes to a configured one holding the route's scope.\<close>
theorem rest_call_needs_granted_scope:
  assumes "build_auth h dw tr fetch cfg = Inr (Some a)" and "r \<in> set routes" and "fst (snd r) \<noteq> ''/api/health''"
    and "serve_rest h (Some a) path hdr r = Handled q"
  shows "\<exists>p s. q = Some p \<and> granted h dw tr fetch cfg hdr p \<and> snd (snd r) = Some s \<and> s \<in> set (p_scopes p)"
proof -
  obtain s where s: "snd (snd r) = Some s" using only_health_is_open assms(2,3) by (cases "snd (snd r)") auto
  from assms(4) s obtain p where m: "middleware h (Some a) path hdr = Handled (Some p)"
    and p: "q = Some p" "s \<in> set (p_scopes p)"
    by (auto simp: serve_rest_def require_scope_def has_scope_def split: outcome.splits option.splits if_splits)
  with handled_granted [OF assms(1) m] s show ?thesis by blast
qed

theorem rest_call_needs_granted_scope_witness:
  "granted (\<lambda>s. s) None True (\<lambda>_. None) sample_auth agent_header agent"
proof -
  let ?r = "(POST, ''/api/export'', Some ScopeWrite) :: route"
  have r: "?r \<in> set routes" "fst (snd ?r) \<noteq> ''/api/health''" by code_simp+
  have "serve_rest (\<lambda>s. s) (Some sample_au) ''/api/export'' agent_header ?r = Handled (Some agent)" by code_simp
  from rest_call_needs_granted_scope [OF sample_built r this] show ?thesis by blast
qed

text \<open>Every configured token identifies its own principal, wherever it stands in the list,
  and a tool listing shows exactly the tools that token may call without extra arguments.\<close>
theorem configured_token_is_accepted:
  assumes new: "auth_new h ts op = Inr a" and t: "t \<in> set ts" and hdr: "bearer hdr = Some (t_Value t)"
    and path: "path \<notin> set op"
  shows "middleware h (Some a) path hdr = Handled (Some \<lparr>p_Name = t_Name t, p_scopes = t_Scopes t\<rparr>) \<and>
    (\<forall>name tools. name \<in> set (list_tools h (Some a) path hdr tools) \<longleftrightarrow>
       name \<in> set tools \<and> serve_tool h (Some a) path hdr name [] \<noteq> Forbidden)"
proof -
  note en = auth_new_entries [OF new]
  have "lookup h a (t_Value t) = Some (e_principal (entry_of h t))"
    unfolding lookup_def using lookup_fold_hit [of "entry_of h t" "entry_of h t" "au_entries a"] en t by auto
  then have l: "lookup h a (t_Value t) = Some (principal_of t)" by simp
  have m: "middleware h (Some a) path hdr = Handled (Some (principal_of t))"
    using hdr path l en by (simp add: middleware_def)
  have no_args: "argScopes name [] = None" for name by (simp add: argScopes_def arg_string_def)
  have "name \<in> set (list_tools h (Some a) path hdr tools) \<longleftrightarrow>
      name \<in> set tools \<and> serve_tool h (Some a) path hdr name [] \<noteq> Forbidden" for name tools
    by (auto simp: list_tools_def serve_tool_def scope_filter_def scope_middleware_def m no_args split: option.splits)
  then show ?thesis using m by (simp add: principal_of_def)
qed

theorem configured_token_is_accepted_witness:
  "middleware (\<lambda>s. s) (Some sample_au) ''/mcp'' agent_header = Handled (Some \<lparr>p_Name = ''agent'', p_scopes = [ScopeRead, ScopeWrite]\<rparr>)"
proof -
  let ?ts = "[\<lparr>t_Name = ''reader'', t_Value = replicate 32 (CHR ''r''), t_Scopes = [ScopeRead]\<rparr>,
      \<lparr>t_Name = ''agent'', t_Value = replicate 40 (CHR ''a''), t_Scopes = [ScopeRead, ScopeWrite]\<rparr>]"
  have new: "auth_new (\<lambda>s. s) ?ts [''/api/health''] = Inr sample_au" by code_simp
  have t: "?ts ! 1 \<in> set ?ts" by simp
  have hdr: "bearer agent_header = Some (t_Value (?ts ! 1))" by code_simp
  have "''/mcp'' \<notin> set [''/api/health'']" by simp
  from configured_token_is_accepted [OF new t hdr this] show ?thesis by simp
qed

end
