(* ===== verification/State_DB.thy ===== *)
theory State_DB
  imports Complex_Main Syncer
begin

text \<open>
  The tables of the state database (\<open>stateSchema\<close> of \<open>internal/db/schema.go\<close>) that intelligence,
  rules, the screener and learning share, and the small SQL idioms on them. A table is a list of
  rows in insertion order; NULL in a text column is the empty string where every query reads it
  through \<open>COALESCE(..., '')\<close>. SQL statements succeed. \<open>unixepoch()\<close> and the clock of the process
  are the same \<open>sd_now\<close>, in seconds.
\<close>

record sender_row =
  sn_id :: int
  sn_address :: string
  sn_name :: string
  sn_domain :: string
  sn_role :: string
  sn_role_source :: string
  sn_first :: "int option"
  sn_last :: "int option"
  sn_count :: int
  sn_sent :: int
  sn_list :: int
  sn_bulk :: int
  sn_auto :: int
  sn_dkim_pass :: int
  sn_dkim_fail :: int
  sn_dmarc_pass :: int
  sn_dmarc_fail :: int
  sn_reply_count :: int
  sn_reply_total :: int
  sn_avg_reply :: "int option"
  sn_score :: rat
  sn_trusted :: bool
  sn_dirty :: bool
  sn_role_checked :: "int option"

record intel_row =
  im_account :: string
  im_hash :: int
  im_date :: int
  im_sender :: "int option"
  im_outgoing :: bool
  im_reply :: "int option"
  im_paired :: bool
  im_folder :: "string option"

record scan_row =
  is_account :: string
  is_folder :: string
  is_validity :: nat
  is_last_uid :: nat
  is_scanned :: nat
  is_completed :: "int option"

record thread_row =
  rt_account :: string
  rt_hash :: int
  rt_thread_id :: string
  rt_last_hash :: int
  rt_last_date :: int
  rt_outgoing :: bool
  rt_direct :: bool
  rt_counterpart :: string
  rt_subject :: string
  rt_ref :: string
  rt_folder :: string
  rt_uid :: nat
  rt_answered :: bool
  rt_dismissed :: "int option"

text \<open>What an anomaly says: its type, description and details are functions of these.\<close>

datatype finding =
    FirstMessage string
  | AuthFailed string int
  | Lookalike string string
  | ReplyToDiffers string string
  | Silent int int int
  | Spike int rat
  | AsksFor string bool

record anomaly_row =
  an_id :: int
  an_account :: string
  an_sender :: string
  an_finding :: finding
  an_severity :: string
  an_detected :: int
  an_resolved :: bool
  an_resolved_at :: "int option"
  an_folder :: string
  an_uid :: nat
  an_ref :: "string option"

record rule_move =
  rm_account :: string
  rm_hash :: int
  rm_rule :: int
  rm_dest :: string
  rm_moved_at :: int

record learn_row =
  ls_account :: string
  ls_target :: string
  ls_status :: string
  ls_rule :: "int option"

record held_row =
  hm_account :: string
  hm_hash :: int
  hm_ref :: string
  hm_sender :: string
  hm_subject :: string
  hm_reasons :: string
  hm_folder :: string
  hm_held_at :: int
  hm_released_at :: "int option"
  hm_digested_at :: "int option"
  hm_decision :: "string option"

record decision_row =
  dc_account :: string
  dc_sender :: string
  dc_action :: string
  dc_dest :: string
  dc_target :: string
  dc_rule :: int
  dc_moved :: int
  dc_via :: string
  dc_created :: int

record verdict_row =
  vd_account :: string
  vd_hash :: int
  vd_verdict :: string
  vd_asks :: string
  vd_confidence :: rat
  vd_sender :: string
  vd_model :: string
  vd_created :: int

record rule_conditions =
  rc_Account :: string
  rc_Folder :: string
  rc_From :: string
  rc_Subject :: string
  rc_Text :: string
  rc_OlderThanDays :: int
  rc_NewSender :: bool
  rc_NewSenderDays :: int

record rule_action =
  ra_Type :: string
  ra_Dest :: string
  ra_Flags :: string

record rule =
  r_ID :: int
  r_Name :: string
  r_Description :: string
  r_Conditions :: rule_conditions
  r_Actions :: "rule_action list"
  r_Active :: bool
  r_Priority :: int
  r_RunCount :: int

record state_db =
  sd_senders :: "sender_row list"
  sd_index :: "intel_row list"
  sd_scan :: "scan_row list"
  sd_threads :: "thread_row list"
  sd_anomalies :: "anomaly_row list"
  sd_owner_names :: "(string \<times> int) list"
  sd_identities :: "(string \<times> string) list"   \<comment> \<open>address, status\<close>
  sd_rule_moves :: "rule_move list"
  sd_learn :: "learn_row list"
  sd_held :: "held_row list"
  sd_decisions :: "decision_row list"
  sd_verdicts :: "verdict_row list"
  sd_rules :: "rule list"
  sd_next_sender :: int
  sd_next_anomaly :: int
  sd_next_rule :: int
  sd_now :: int

definition empty_state :: state_db where
  "empty_state = \<lparr>sd_senders = [], sd_index = [], sd_scan = [], sd_threads = [], sd_anomalies = [],
     sd_owner_names = [], sd_identities = [], sd_rule_moves = [], sd_learn = [], sd_held = [],
     sd_decisions = [], sd_verdicts = [], sd_rules = [], sd_next_sender = 1, sd_next_anomaly = 1,
     sd_next_rule = 1, sd_now = 0\<rparr>"

section \<open>Rows\<close>

text \<open>\<open>UPDATE ... WHERE\<close> and a select of at most one row.\<close>

definition upd_rows :: "('a \<Rightarrow> bool) \<Rightarrow> ('a \<Rightarrow> 'a) \<Rightarrow> 'a list \<Rightarrow> 'a list" where
  "upd_rows p f rs = map (\<lambda>r. if p r then f r else r) rs"

text \<open>\<open>INSERT ... ON CONFLICT DO UPDATE\<close>: the rows \<open>p\<close> describes are the conflicting ones.\<close>

definition upsert :: "('a \<Rightarrow> bool) \<Rightarrow> ('a \<Rightarrow> 'a) \<Rightarrow> 'a \<Rightarrow> 'a list \<Rightarrow> 'a list" where
  "upsert p f r rs = (if list_ex p rs then upd_rows p f rs else rs @ [r])"

definition opt_min :: "int option \<Rightarrow> int \<Rightarrow> int option" where
  "opt_min a b = Some (case a of None \<Rightarrow> b | Some x \<Rightarrow> min x b)"

definition opt_max :: "int option \<Rightarrow> int \<Rightarrow> int option" where
  "opt_max a b = Some (case a of None \<Rightarrow> b | Some x \<Rightarrow> max x b)"

definition new_sender_row :: "int \<Rightarrow> string \<Rightarrow> string \<Rightarrow> sender_row" where
  "new_sender_row i addr dmn = \<lparr>sn_id = i, sn_address = addr, sn_name = [], sn_domain = dmn,
     sn_role = ''unknown'', sn_role_source = [], sn_first = None, sn_last = None, sn_count = 0, sn_sent = 0,
     sn_list = 0, sn_bulk = 0, sn_auto = 0, sn_dkim_pass = 0, sn_dkim_fail = 0, sn_dmarc_pass = 0, sn_dmarc_fail = 0,
     sn_reply_count = 0, sn_reply_total = 0, sn_avg_reply = None, sn_score = 0, sn_trusted = False, sn_dirty = True,
     sn_role_checked = None\<rparr>"

definition find_sender :: "string \<Rightarrow> state_db \<Rightarrow> sender_row option" where
  "find_sender addr d = find (\<lambda>r. sn_address r = addr) (sd_senders d)"

text \<open>An upsert on \<open>senders\<close> gives the new row the next id.\<close>

definition sender_upsert :: "string \<Rightarrow> (sender_row \<Rightarrow> sender_row) \<Rightarrow> sender_row \<Rightarrow> state_db \<Rightarrow> state_db" where
  "sender_upsert addr f r d =
     (if list_ex (\<lambda>s. sn_address s = addr) (sd_senders d)
      then d\<lparr>sd_senders := upd_rows (\<lambda>s. sn_address s = addr) f (sd_senders d)\<rparr>
      else d\<lparr>sd_senders := sd_senders d @ [r\<lparr>sn_id := sd_next_sender d\<rparr>], sd_next_sender := sd_next_sender d + 1\<rparr>)"

section \<open>Addresses and message keys\<close>

definition domainOf :: "string \<Rightarrow> string" where
  "domainOf addr = (case last_index_char addr CHR ''@'' of None \<Rightarrow> [] | Some i \<Rightarrow> to_lower (drop (i + 1) addr))"

text \<open>The key of a Message-ID; \<open>h\<close> is the first eight bytes of SHA-256 read as a signed number.\<close>

definition msg_hash :: "(string \<Rightarrow> int) \<Rightarrow> string \<Rightarrow> int" where
  "msg_hash h mid = (let x = to_lower (trim_angle (trim_space mid)) in if x = [] then 0 else h x)"

text \<open>The owner's addresses and \<open>@domain\<close> entries.\<close>

definition own_has :: "string list \<Rightarrow> string \<Rightarrow> bool" where
  "own_has own addr =
     (addr \<in> set own \<or> (domainOf addr \<noteq> [] \<and> (CHR ''@'' # domainOf addr) \<in> set own))"

lemma length_upd_rows [simp]: "length (upd_rows p f rs) = length rs"
  by (simp add: upd_rows_def)

lemma map_upd_rows: "(\<And>r. p r \<Longrightarrow> g (f r) = g r) \<Longrightarrow> map g (upd_rows p f rs) = map g rs"
  by (auto simp: upd_rows_def)

lemma upd_rows_none: "\<forall>r\<in>set rs. \<not> p r \<Longrightarrow> upd_rows p f rs = rs"
  by (induction rs) (auto simp: upd_rows_def)

end
