(* ===== verification/Anomaly.thy ===== *)
theory Anomaly
  imports State_DB
begin

text \<open>
  Anomaly detection (\<open>internal/intel/anomaly.go\<close>): the per-message checks inside a scan batch, the
  edit distance behind the lookalike check, the periodic silence and volume checks, and the
  senders' anomaly score. A query without \<open>ORDER BY\<close> returns rows in table order.
\<close>

section \<open>Headers\<close>

record address =
  ad_Name :: string
  ad_Addr :: string

text \<open>What the scanner reads from one message (\<open>headers.go\<close>); the date is in nanoseconds.\<close>

record header =
  h_UID :: nat
  h_Date :: gotime
  h_MessageID :: string
  h_InReplyTo :: string
  h_Subject :: string
  h_From :: address
  h_ReplyTo :: address
  h_To :: "address list"
  h_Cc :: "address list"
  h_Answered :: bool
  h_List :: bool
  h_Bulk :: bool
  h_Auto :: bool
  h_DKIM :: string
  h_DMARC :: string
  h_References :: "string list"

definition conversation :: "header \<Rightarrow> bool" where
  "conversation h = (\<not> h_List h \<and> \<not> h_Bulk h \<and> \<not> h_Auto h)"

definition webmailDomains :: "string list" where
  "webmailDomains = [''gmail.com'', ''googlemail.com'', ''outlook.com'', ''hotmail.com'', ''live.com'',
     ''msn.com'', ''yahoo.com'', ''ymail.com'', ''icloud.com'', ''me.com'', ''mac.com'',
     ''aol.com'', ''proton.me'', ''protonmail.com'', ''pm.me'', ''gmx.com'', ''gmx.net'',
     ''mail.com'', ''zoho.com'', ''fastmail.com'', ''yandex.com'', ''hey.com'']"

section \<open>The detector\<close>

record anomaly_cfg =
  ac_authMinPasses :: int
  ac_silenceMinMessages :: int
  ac_silenceMinDays :: int
  ac_spikeMin :: int
  ac_spikeFactor :: int

text \<open>\<open>anomalyCfg\<close> clamps the configured thresholds.\<close>

definition clamp_cfg :: "anomaly_cfg \<Rightarrow> anomaly_cfg" where
  "clamp_cfg c = \<lparr>ac_authMinPasses = max (ac_authMinPasses c) 1, ac_silenceMinMessages = max (ac_silenceMinMessages c) 2,
     ac_silenceMinDays = max (ac_silenceMinDays c) 1, ac_spikeMin = max (ac_spikeMin c) 1, ac_spikeFactor = max (ac_spikeFactor c) 1\<rparr>"

record detector =
  dt_active :: "(string \<times> bool) list"
  dt_corrDomains :: "string list"
  dt_corrList :: "string list"
  dt_since :: int

definition prepare_detector ::
  "bool \<Rightarrow> int \<Rightarrow> string list \<Rightarrow> string list \<Rightarrow> state_db \<Rightarrow> detector option" where
  "prepare_detector on lookback own_domains accounts d =
     (if \<not> on then None
      else (let rows = (\<lambda>a. filter (\<lambda>r. is_account r = a) (sd_scan d));
                corr = filter (\<lambda>x. x \<notin> set webmailDomains)
                         (remdups (map sn_domain (filter (\<lambda>s. sn_sent s > 0 \<and> sn_domain s \<noteq> []) (sd_senders d))))
            in Some \<lparr>dt_active = map (\<lambda>a. (a, rows a \<noteq> [] \<and> list_all (\<lambda>r. is_completed r \<noteq> None) (rows a))) accounts,
                 dt_corrDomains = corr @ own_domains, dt_corrList = corr,
                 dt_since = sd_now d - max lookback 1 * 24 * 3600\<rparr>))"

definition is_active :: "detector \<Rightarrow> string \<Rightarrow> bool" where
  "is_active dt account = (map_of (dt_active dt) account = Some True)"

record prior_sender =
  pr_received :: int
  pr_sent :: int
  pr_dmarcPass :: int
  pr_dkimPass :: int
  pr_role :: string

definition prior_of :: "string \<Rightarrow> state_db \<Rightarrow> prior_sender" where
  "prior_of addr d =
     (case find_sender addr d of
        None \<Rightarrow> \<lparr>pr_received = 0, pr_sent = 0, pr_dmarcPass = 0, pr_dkimPass = 0, pr_role = ''unknown''\<rparr>
      | Some s \<Rightarrow> \<lparr>pr_received = sn_count s, pr_sent = sn_sent s, pr_dmarcPass = sn_dmarc_pass s,
          pr_dkimPass = sn_dkim_pass s, pr_role = sn_role s\<rparr>)"

definition auth_failure :: "header \<Rightarrow> prior_sender \<Rightarrow> string \<times> int" where
  "auth_failure h p =
     (if h_DMARC h = ''fail'' then (''dmarc'', pr_dmarcPass p)
      else if h_DMARC h = [] \<and> h_DKIM h = ''fail'' then (''dkim'', pr_dkimPass p)
      else ([], 0))"

section \<open>Lookalike domains\<close>

text \<open>\<open>strings.NewReplacer("rn", "m", "vv", "w", "0", "o", "1", "l", "i", "l")\<close>.\<close>

definition fold_char :: "char \<Rightarrow> char" where
  "fold_char c = (if c = CHR ''0'' then CHR ''o'' else if c = CHR ''1'' \<or> c = CHR ''i'' then CHR ''l'' else c)"

fun confusables :: "string \<Rightarrow> string" where
  "confusables [] = []"
| "confusables [c] = [fold_char c]"
| "confusables (c # d # s) =
     (if c = CHR ''r'' \<and> d = CHR ''n'' then CHR ''m'' # confusables s
      else if c = CHR ''v'' \<and> d = CHR ''v'' then CHR ''w'' # confusables s
      else fold_char c # confusables (d # s))"

definition fold_confusables :: "string \<Rightarrow> string" where
  "fold_confusables s = confusables (to_lower s)"

text \<open>One pass of the inner loop: \<open>x\<close> is \<open>a[i-1]\<close>, the list is \<open>prev\<close> from position \<open>j-1\<close> on and
  \<open>left\<close> is \<open>cur[j-1]\<close>.\<close>

fun lev_row :: "'a \<Rightarrow> 'a list \<Rightarrow> nat list \<Rightarrow> nat \<Rightarrow> nat list" where
  "lev_row x (y # ys) (p # q # ps) left =
     (let v = min (min (q + 1) (left + 1)) (p + (if x = y then 0 else 1)) in v # lev_row x ys (q # ps) v)"
| "lev_row x _ _ left = []"

definition lev_step :: "'a list \<Rightarrow> 'a \<Rightarrow> nat \<times> nat list \<Rightarrow> nat \<times> nat list" where
  "lev_step b x st = (let i = fst st + 1 in (i, i # lev_row x b (snd st) i))"

definition edit_distance :: "'a list \<Rightarrow> 'a list \<Rightarrow> nat" where
  "edit_distance a b = last (snd (fold (lev_step b) a (0, [0..<length b + 1])))"

definition lookalike :: "string list \<Rightarrow> string \<Rightarrow> string" where
  "lookalike corr dmn =
     (if length dmn < 6 then []
      else (case find (\<lambda>c. c \<noteq> dmn \<and>
                 (fold_confusables c = fold_confusables dmn \<or>
                  (let limit = (if length c \<ge> 10 then 2 else 1) in
                   \<bar>int (length c) - int (length dmn)\<bar> \<le> limit \<and> int (edit_distance dmn c) \<le> limit))) corr of
              None \<Rightarrow> [] | Some c \<Rightarrow> c))"

section \<open>Recording\<close>

fun finding_type :: "finding \<Rightarrow> string" where
  "finding_type (FirstMessage _) = ''new_sender''"
| "finding_type (AuthFailed _ _) = ''auth_failure''"
| "finding_type (Lookalike _ _) = ''lookalike_domain''"
| "finding_type (ReplyToDiffers _ _) = ''reply_to_mismatch''"
| "finding_type (Silent _ _ _) = ''silence''"
| "finding_type (Spike _ _) = ''volume_spike''"
| "finding_type (AsksFor a _) = (if a = ''credentials'' then ''credential_request'' else ''payment_request'')"

fun finding_severity :: "finding \<Rightarrow> string" where
  "finding_severity (FirstMessage _) = ''low''"
| "finding_severity (AuthFailed _ _) = ''high''"
| "finding_severity (Lookalike _ _) = ''high''"
| "finding_severity (ReplyToDiffers _ _) = ''medium''"
| "finding_severity (Silent _ _ _) = ''low''"
| "finding_severity (Spike _ _) = ''medium''"
| "finding_severity (AsksFor _ risky) = (if risky then ''high'' else ''medium'')"

text \<open>The two unique indexes on \<open>anomalies\<close>: type and message, over all accounts, for a finding
  about a message; account, sender and type for an open periodic one.\<close>

definition anomaly_conflict :: "string \<Rightarrow> string \<Rightarrow> finding \<Rightarrow> string option \<Rightarrow> anomaly_row \<Rightarrow> bool" where
  "anomaly_conflict account sender f ref r =
     (finding_type (an_finding r) = finding_type f \<and>
      (case ref of
         Some x \<Rightarrow> an_ref r = Some x
       | None \<Rightarrow> an_ref r = None \<and> \<not> an_resolved r \<and> an_account r = account \<and> an_sender r = sender))"

definition insert_anomaly ::
  "string \<Rightarrow> string \<Rightarrow> finding \<Rightarrow> string option \<Rightarrow> string \<Rightarrow> nat \<Rightarrow> state_db \<Rightarrow> int option \<times> state_db" where
  "insert_anomaly account sender f ref folder uid d =
     (if list_ex (anomaly_conflict account sender f ref) (sd_anomalies d) then (None, d)
      else (Some (sd_next_anomaly d),
        d\<lparr>sd_anomalies := sd_anomalies d @
            [\<lparr>an_id = sd_next_anomaly d, an_account = account, an_sender = sender, an_finding = f,
              an_severity = finding_severity f, an_detected = sd_now d, an_resolved = False, an_resolved_at = None,
              an_folder = folder, an_uid = uid, an_ref = ref\<rparr>],
          sd_next_anomaly := sd_next_anomaly d + 1\<rparr>))"

section \<open>Per-message checks\<close>

definition message_ref :: "string \<Rightarrow> header \<Rightarrow> string" where
  "message_ref folder h =
     (let x = trim_angle (h_MessageID h) in
      if x = [] then ''noid:'' @ folder @ ''/'' @ show_nat (h_UID h) else x)"

definition bulk_role :: "string \<Rightarrow> bool" where
  "bulk_role r = (r = ''newsletter'' \<or> r = ''bot'')"

text \<open>The findings of one message, in the order they are recorded.\<close>

definition message_findings :: "detector \<Rightarrow> anomaly_cfg \<Rightarrow> header \<Rightarrow> prior_sender \<Rightarrow> finding list" where
  "message_findings dt cfg h p =
     (let dmn = domainOf (ad_Addr (h_From h));
          bulk = bulk_role (pr_role p);
          (meth, passes) = auth_failure h p;
          like = (if dmn \<noteq> [] \<and> dmn \<notin> set (dt_corrDomains dt) \<and> dmn \<notin> set webmailDomains
                  then lookalike (dt_corrList dt) dmn else []);
          rt = domainOf (ad_Addr (h_ReplyTo h))
      in (if conversation h \<and> pr_received p = 0 \<and> pr_sent p = 0 \<and> \<not> bulk then [FirstMessage dmn] else []) @
         (if meth \<noteq> [] \<and> ac_authMinPasses cfg \<le> passes then [AuthFailed meth passes] else []) @
         (if like \<noteq> [] then [Lookalike dmn like] else []) @
         (if conversation h \<and> \<not> bulk \<and> 3 \<le> pr_received p \<and> rt \<noteq> [] \<and> dmn \<noteq> [] \<and> rt \<noteq> dmn
          then [ReplyToDiffers rt dmn] else []))"

fun record_findings ::
  "string \<Rightarrow> string \<Rightarrow> string \<Rightarrow> nat \<Rightarrow> string \<Rightarrow> finding list \<Rightarrow> int list \<Rightarrow> state_db \<Rightarrow> int list \<times> state_db" where
  "record_findings account sender folder uid ref [] ids d = (ids, d)"
| "record_findings account sender folder uid ref (f # fs) ids d =
     (case insert_anomaly account sender f (Some ref) folder uid d of
        (None, d') \<Rightarrow> record_findings account sender folder uid ref fs ids d'
      | (Some i, d') \<Rightarrow> record_findings account sender folder uid ref fs (ids @ [i]) d')"

definition check_message ::
  "detector option \<Rightarrow> anomaly_cfg \<Rightarrow> string \<Rightarrow> string \<Rightarrow> header \<Rightarrow> string list \<Rightarrow> state_db \<Rightarrow> int list \<times> state_db" where
  "check_message det cfg account folder h own d =
     (case det of
        None \<Rightarrow> ([], d)
      | Some dt \<Rightarrow>
          (if \<not> is_active dt account \<or> time_unix (h_Date h) < dt_since dt \<or> own_has own (ad_Addr (h_From h)) then ([], d)
           else record_findings account (ad_Addr (h_From h)) folder (h_UID h) (message_ref folder h)
                  (message_findings dt cfg h (prior_of (ad_Addr (h_From h)) d)) [] d))"

section \<open>Periodic checks\<close>

text \<open>Go's integer division truncates; the divisors here are positive.\<close>

definition go_div :: "int \<Rightarrow> int \<Rightarrow> int" where
  "go_div a b = (if a \<ge> 0 then a div b else - ((- a) div b))"

definition day_secs :: int where "day_secs = 24 * 3600"

text \<open>The dates of a sender's indexed incoming mail in one account.\<close>

definition incoming_dates :: "string \<Rightarrow> sender_row \<Rightarrow> state_db \<Rightarrow> int list" where
  "incoming_dates account s d =
     map im_date (filter (\<lambda>m. im_sender m = Some (sn_id s) \<and> im_account m = account \<and> \<not> im_outgoing m) (sd_index d))"

definition first_or_zero :: "sender_row \<Rightarrow> int" where
  "first_or_zero s = (case sn_first s of None \<Rightarrow> 0 | Some x \<Rightarrow> x)"

definition silence_senders :: "string \<Rightarrow> anomaly_cfg \<Rightarrow> state_db \<Rightarrow> (sender_row \<times> int) list" where
  "silence_senders account cfg d =
     map (\<lambda>s. (s, fold max (incoming_dates account s d) (hd (incoming_dates account s d))))
       (filter (\<lambda>s. (sn_role s = ''personal'' \<or> sn_role s = ''colleague'') \<and> ac_silenceMinMessages cfg \<le> sn_count s \<and>
                  incoming_dates account s d \<noteq> []) (sd_senders d))"

definition resolve_silence :: "string \<Rightarrow> string \<Rightarrow> state_db \<Rightarrow> state_db" where
  "resolve_silence account addr d =
     d\<lparr>sd_anomalies := upd_rows (\<lambda>a. an_account a = account \<and> an_sender a = addr \<and>
          finding_type (an_finding a) = ''silence'' \<and> \<not> an_resolved a)
        (\<lambda>a. a\<lparr>an_resolved := True, an_resolved_at := Some (sd_now d)\<rparr>) (sd_anomalies d)\<rparr>"

definition silence_gap :: "sender_row \<Rightarrow> int \<Rightarrow> int" where
  "silence_gap s last_in = go_div (last_in - first_or_zero s) (max (sn_count s - 1) 1)"

definition silence_threshold :: "anomaly_cfg \<Rightarrow> int \<Rightarrow> int" where
  "silence_threshold cfg gap = max (ac_silenceMinDays cfg * day_secs) (3 * gap)"

definition silence_one :: "string \<Rightarrow> anomaly_cfg \<Rightarrow> sender_row \<times> int \<Rightarrow> int list \<times> state_db \<Rightarrow> int list \<times> state_db" where
  "silence_one account cfg q st =
     (let (s, last_in) = q; (ids, d) = st;
          gap = silence_gap s last_in;
          threshold = silence_threshold cfg gap;
          silent = sd_now d - last_in
      in if silent \<le> threshold then (ids, resolve_silence account (sn_address s) d)
         else if silent > threshold + ac_silenceMinDays cfg * day_secs then (ids, d)
         else (case insert_anomaly account (sn_address s)
                     (Silent (go_div silent day_secs) (go_div gap day_secs) (sn_count s)) None [] 0 d of
                 (None, d') \<Rightarrow> (ids, d')
               | (Some i, d') \<Rightarrow> (ids @ [i], d')))"

definition spike_senders :: "string \<Rightarrow> anomaly_cfg \<Rightarrow> state_db \<Rightarrow> (sender_row \<times> int) list" where
  "spike_senders account cfg d =
     (let n = (\<lambda>s. int (length (filter (\<lambda>t. sd_now d - day_secs \<le> t) (incoming_dates account s d)))) in
      map (\<lambda>s. (s, n s)) (filter (\<lambda>s. 0 < n s \<and> ac_spikeMin cfg < n s) (sd_senders d)))"

text \<open>\<open>rnd\<close> rounds to float64.\<close>

definition daily_average :: "(rat \<Rightarrow> rat) \<Rightarrow> int \<Rightarrow> sender_row \<times> int \<Rightarrow> rat" where
  "daily_average rnd now b =
     (let (s, n) = b; days = max (go_div (now - first_or_zero s) day_secs) 1
      in rnd (rnd (of_int (sn_count s - n)) / rnd (of_int days)))"

definition spike_one ::
  "(rat \<Rightarrow> rat) \<Rightarrow> string \<Rightarrow> anomaly_cfg \<Rightarrow> sender_row \<times> int \<Rightarrow> int list \<times> state_db \<Rightarrow> int list \<times> state_db" where
  "spike_one rnd account cfg b st =
     (let (s, n) = b; (ids, d) = st; avg = daily_average rnd (sd_now d) b
      in if rnd (of_int n) \<le> max (rnd (of_int (ac_spikeMin cfg))) (rnd (rnd (of_int (ac_spikeFactor cfg)) * avg)) then (ids, d)
         else (case insert_anomaly account (sn_address s) (Spike n avg) None [] 0 d of
                 (None, d') \<Rightarrow> (ids, d')
               | (Some i, d') \<Rightarrow> (ids @ [i], d')))"

definition periodic_account ::
  "(rat \<Rightarrow> rat) \<Rightarrow> anomaly_cfg \<Rightarrow> string \<Rightarrow> state_db \<Rightarrow> int list \<times> state_db" where
  "periodic_account rnd cfg account d0 =
     (let st = fold (silence_one account cfg) (silence_senders account cfg d0) ([], d0)
      in fold (spike_one rnd account cfg) (spike_senders account cfg (snd st)) st)"

fun periodic_accounts ::
  "(rat \<Rightarrow> rat) \<Rightarrow> anomaly_cfg \<Rightarrow> (string \<times> bool) list \<Rightarrow> state_db \<Rightarrow> (string \<times> int list) list \<times> state_db" where
  "periodic_accounts rnd cfg [] d = ([], d)"
| "periodic_accounts rnd cfg ((a, on) # as) d =
     (if \<not> on then periodic_accounts rnd cfg as d
      else (let (ids, d1) = periodic_account rnd cfg a d; (rest, d2) = periodic_accounts rnd cfg as d1
            in ((a, ids) # rest, d2)))"

definition periodic ::
  "(rat \<Rightarrow> rat) \<Rightarrow> anomaly_cfg \<Rightarrow> detector option \<Rightarrow> state_db \<Rightarrow> (string \<times> int list) list \<times> state_db" where
  "periodic rnd cfg det d =
     (case det of None \<Rightarrow> ([], d) | Some dt \<Rightarrow> periodic_accounts rnd (clamp_cfg cfg) (dt_active dt) d)"

section \<open>Scores\<close>

definition severity_weight :: "string \<Rightarrow> rat" where
  "severity_weight s = (if s = ''high'' then 1 else if s = ''medium'' then 1 / 2 else 1 / 5)"

definition open_anomalies :: "string \<Rightarrow> state_db \<Rightarrow> anomaly_row list" where
  "open_anomalies addr d = filter (\<lambda>a. an_sender a = addr \<and> \<not> an_resolved a) (sd_anomalies d)"

definition score_senders :: "state_db \<Rightarrow> state_db" where
  "score_senders d =
     d\<lparr>sd_senders := upd_rows (\<lambda>s. 0 < sn_score s \<or> open_anomalies (sn_address s) d \<noteq> [])
        (\<lambda>s. s\<lparr>sn_score := sum_list (map (severity_weight \<circ> an_severity) (open_anomalies (sn_address s) d))\<rparr>)
        (sd_senders d)\<rparr>"

end
