(* ===== verification/Anomaly_Props.thy ===== *)
theory Anomaly_Props
  imports Anomaly
begin

text \<open>
  What anomaly detection promises: the table-driven edit distance is the least cost of an
  alignment, findings are recorded once, and scores follow the open findings.
\<close>

section \<open>Edit distance\<close>

text \<open>An alignment of two strings with its number of insertions, deletions and replacements.\<close>

inductive align :: "'a list \<Rightarrow> 'a list \<Rightarrow> nat \<Rightarrow> bool" where
  align_Nil: "align [] [] 0"
| align_del: "align a b n \<Longrightarrow> align (x # a) b (n + 1)"
| align_ins: "align a b n \<Longrightarrow> align a (y # b) (n + 1)"
| align_pair: "align a b n \<Longrightarrow> align (x # a) (y # b) (n + (if x = y then 0 else 1))"

lemma align_append: "align a b n \<Longrightarrow> align c d m \<Longrightarrow> align (a @ c) (b @ d) (n + m)"
proof (induction rule: align.induct)
  case (align_del a b n x)
  then show ?case using align.align_del [of "a @ c" "b @ d" "n + m" x] by (simp add: algebra_simps)
next
  case (align_ins a b n y)
  then show ?case using align.align_ins [of "a @ c" "b @ d" "n + m" y] by (simp add: algebra_simps)
next
  case (align_pair a b n x y)
  then show ?case using align.align_pair [of "a @ c" "b @ d" "n + m" x y] by (simp add: algebra_simps)
qed simp

lemma align_rev: "align a b n \<Longrightarrow> align (rev a) (rev b) n"
proof (induction rule: align.induct)
  case (align_del a b n x)
  from align_append [OF align_del.IH align.align_del [OF align_Nil]] show ?case by simp
next
  case (align_ins a b n y)
  from align_append [OF align_ins.IH align.align_ins [OF align_Nil]] show ?case by simp
next
  case (align_pair a b n x y)
  from align_append [OF align_pair.IH align.align_pair [OF align_Nil, of x y]] show ?case by simp
qed (simp add: align_Nil)

text \<open>The recursion the table solves, on the reversed prefixes.\<close>

fun lev :: "'a list \<Rightarrow> 'a list \<Rightarrow> nat" where
  "lev [] b = length b"
| "lev (x # a) [] = length a + 1"
| "lev (x # a) (y # b) = min (min (lev a (y # b) + 1) (lev (x # a) b + 1)) (lev a b + (if x = y then 0 else 1))"

lemma align_Nil_left: "align [] b (length b)"
  by (induction b) (auto intro: align.intros dest: align.align_ins)

lemma align_Nil_right: "align a [] (length a)"
  by (induction a) (auto intro: align.intros dest: align.align_del)

lemma lev_align: "align a b (lev a b)"
proof (induction a b rule: lev.induct)
  case (1 b)
  then show ?case by (simp add: align_Nil_left)
next
  case (2 x a)
  then show ?case using align_Nil_right [of "x # a"] by simp
next
  case (3 x a y b)
  note c = align.align_del [OF "3.IH"(1), of x] align.align_ins [OF "3.IH"(2), of y] align.align_pair [OF "3.IH"(3), of x y]
  show ?case using c by (simp add: min_def)
qed

lemma lev_Nil_right: "lev a [] = length a"
  by (cases a) simp_all

lemma lev_del: "lev (x # a) b \<le> lev a b + 1"
  by (cases b) (simp_all add: lev_Nil_right)

lemma lev_ins: "lev a (y # b) \<le> lev a b + 1"
  by (cases a) simp_all

lemma lev_least: "align a b n \<Longrightarrow> lev a b \<le> n"
proof (induction rule: align.induct)
  case (align_del a b n x)
  then show ?case using lev_del [of x a b] by simp
next
  case (align_ins a b n y)
  then show ?case using lev_ins [of a y b] by simp
qed simp_all

text \<open>Row \<open>i\<close> of the table holds the distances of the first \<open>i\<close> characters to every prefix.\<close>

definition lev_prefix :: "'a list \<Rightarrow> 'a list \<Rightarrow> nat \<Rightarrow> nat" where
  "lev_prefix a b j = lev (rev a) (rev (take j b))"

lemma lev_row_prefix:
  assumes "j + length ys = length b" and "ys = drop j b"
  shows "lev_row x ys (map (lev_prefix a b) [j..<length b + 1]) (lev_prefix (a @ [x]) b j) =
    map (lev_prefix (a @ [x]) b) [j + 1..<length b + 1]"
  using assms
proof (induction ys arbitrary: j)
  case (Cons y ys)
  then have j: "j < length b" by (metis add_less_cancel_left length_Cons less_add_same_cancel1 zero_less_Suc)
  from Cons.prems have y: "y = b ! j" "ys = drop (j + 1) b"
    using j by (metis Cons_nth_drop_Suc list.inject, metis Cons_nth_drop_Suc Suc_eq_plus1 list.inject)
  have up: "[j..<length b + 1] = j # (j + 1) # [j + 2..<length b + 1]"
    using j by (simp add: upt_conv_Cons)
  have up': "[j + 1..<length b + 1] = (j + 1) # [j + 2..<length b + 1]" using j by (simp add: upt_conv_Cons)
  have take: "take (j + 1) b = take j b @ [y]" using j y(1) by (simp add: take_Suc_conv_app_nth)
  have cell: "min (min (lev_prefix a b (j + 1) + 1) (lev_prefix (a @ [x]) b j + 1))
      (lev_prefix a b j + (if x = y then 0 else 1)) = lev_prefix (a @ [x]) b (j + 1)"
    unfolding lev_prefix_def take by simp
  have IH: "lev_row x ys (map (lev_prefix a b) [j + 1..<length b + 1]) (lev_prefix (a @ [x]) b (j + 1)) =
      map (lev_prefix (a @ [x]) b) [j + 2..<length b + 1]"
    using Cons.IH [of "j + 1"] Cons.prems y(2) by simp
  show ?case unfolding up up' list.map lev_row.simps Let_def cell
    using IH unfolding up' list.map by simp
qed simp

lemma lev_step_prefix:
  "lev_step b x (length a, map (lev_prefix a b) [0..<length b + 1]) =
   (length (a @ [x]), map (lev_prefix (a @ [x]) b) [0..<length b + 1])"
proof -
  have 0: "lev_prefix (a @ [x]) b 0 = length a + 1" by (simp add: lev_prefix_def lev_Nil_right)
  have row: "lev_row x b (map (lev_prefix a b) [0..<length b + 1]) (lev_prefix (a @ [x]) b 0) =
      map (lev_prefix (a @ [x]) b) [0 + 1..<length b + 1]"
    by (rule lev_row_prefix) simp_all
  have up: "[0..<length b + 1] = 0 # [0 + 1..<length b + 1]" by (simp add: upt_conv_Cons del: upt_Suc)
  show ?thesis using row unfolding lev_step_def Let_def fst_conv snd_conv by (subst (2) up) (simp add: 0 del: upt_Suc)
qed

lemma edit_table:
  "fold (lev_step b) a (0, [0..<length b + 1]) = (length a, map (lev_prefix a b) [0..<length b + 1])"
proof (induction a rule: rev_induct)
  case Nil
  have "map (lev_prefix [] b) [0..<length b + 1] = map (\<lambda>j. j) [0..<length b + 1]"
    by (rule map_cong) (auto simp: lev_prefix_def min_def)
  then show ?case by simp
next
  case (snoc x a)
  have "fold (lev_step b) (a @ [x]) (0, [0..<length b + 1]) =
      lev_step b x (length a, map (lev_prefix a b) [0..<length b + 1])" by (simp only: fold_append fold_simps comp_def snoc.IH id_apply)
  then show ?case by (simp only: lev_step_prefix)
qed

lemma edit_distance_lev: "edit_distance a b = lev (rev a) (rev b)"
  unfolding edit_distance_def edit_table by (simp add: lev_prefix_def)

text \<open>The two-row table of \<open>editDistance\<close> computes the Levenshtein distance: some alignment of
  the two strings has that cost and none has a smaller one.\<close>
theorem edit_distance_is_least_cost:
  "align a b (edit_distance a b) \<and> edit_distance a b = (LEAST n. align a b n)"
proof -
  have "align a b (edit_distance a b)"
    using align_rev [OF lev_align [of "rev a" "rev b"]] by (simp add: edit_distance_lev)
  moreover have "edit_distance a b \<le> n" if "align a b n" for n
    using lev_least [OF align_rev [OF that]] by (simp add: edit_distance_lev)
  ultimately show ?thesis by (metis (no_types, lifting) Least_equality)
qed

section \<open>Findings are recorded once\<close>

text \<open>Two rows that the unique indexes keep apart.\<close>

definition same_finding :: "anomaly_row \<Rightarrow> anomaly_row \<Rightarrow> bool" where
  "same_finding a b \<longleftrightarrow> finding_type (an_finding a) = finding_type (an_finding b) \<and> an_ref a = an_ref b \<and>
     (an_ref a = None \<longrightarrow> an_account a = an_account b \<and> an_sender a = an_sender b \<and> \<not> an_resolved a \<and> \<not> an_resolved b)"

definition findings_ok :: "state_db \<Rightarrow> bool" where
  "findings_ok d \<longleftrightarrow> distinct (map an_id (sd_anomalies d)) \<and> (\<forall>a\<in>set (sd_anomalies d). an_id a < sd_next_anomaly d) \<and>
     (\<forall>a\<in>set (sd_anomalies d). \<forall>b\<in>set (sd_anomalies d). same_finding a b \<longrightarrow> a = b)"

lemma findings_ok_cong:
  "sd_anomalies d' = sd_anomalies d \<Longrightarrow> sd_next_anomaly d' = sd_next_anomaly d \<Longrightarrow> findings_ok d' = findings_ok d"
  by (simp add: findings_ok_def)

lemma insert_anomaly_ok:
  assumes ok: "findings_ok d"
  shows "findings_ok (snd (insert_anomaly account sender f ref folder uid d))"
proof (cases "list_ex (anomaly_conflict account sender f ref) (sd_anomalies d)")
  case True
  then show ?thesis using ok by (simp add: insert_anomaly_def)
next
  case False
  let ?r = "\<lparr>an_id = sd_next_anomaly d, an_account = account, an_sender = sender, an_finding = f,
      an_severity = finding_severity f, an_detected = sd_now d, an_resolved = False, an_resolved_at = None,
      an_folder = folder, an_uid = uid, an_ref = ref\<rparr>"
  have new: "\<not> same_finding a ?r" "\<not> same_finding ?r a" if "a \<in> set (sd_anomalies d)" for a
    using False that by (auto simp: list_ex_iff anomaly_conflict_def same_finding_def split: option.splits)
  have ids: "an_id a < sd_next_anomaly d" if "a \<in> set (sd_anomalies d)" for a
    using ok that by (simp add: findings_ok_def)
  have fresh: "sd_next_anomaly d \<notin> an_id ` set (sd_anomalies d)" using ids by fastforce
  show ?thesis using ok False new ids fresh
    by (auto simp: insert_anomaly_def findings_ok_def intro: less_imp_le order.strict_trans2)
qed

lemma insert_anomaly_result:
  "insert_anomaly account sender f ref folder uid d = (x, d') \<Longrightarrow> findings_ok d \<Longrightarrow> findings_ok d'"
  using insert_anomaly_ok [of d account sender f ref folder uid] by simp

lemma resolve_rows_ok:
  assumes ok: "findings_ok d" and rows: "sd_anomalies d' = upd_rows p f (sd_anomalies d)" "sd_next_anomaly d' = sd_next_anomaly d"
    and f: "\<And>a. an_id (f a) = an_id a \<and> an_finding (f a) = an_finding a \<and> an_ref (f a) = an_ref a \<and>
        an_account (f a) = an_account a \<and> an_sender (f a) = an_sender a \<and> an_resolved (f a)"
  shows "findings_ok d'"
proof -
  let ?g = "\<lambda>a. if p a then f a else a"
  have same: "same_finding (?g a) (?g b) \<Longrightarrow> same_finding a b \<or> (\<exists>x. an_ref a = Some x \<and> an_ref b = Some x \<and>
      finding_type (an_finding a) = finding_type (an_finding b))" for a b
    using f [of a] f [of b] by (cases "an_ref a") (auto simp: same_finding_def split: if_splits)
  have same2: "same_finding (?g a) (?g b) \<Longrightarrow> same_finding a b" for a b
    using same [of a b] f [of a] f [of b] by (auto simp: same_finding_def)
  have ids: "map an_id (map ?g xs) = map an_id xs" for xs by (simp add: f)
  show ?thesis unfolding findings_ok_def rows upd_rows_def
  proof (intro conjI ballI impI)
    show "distinct (map an_id (map ?g (sd_anomalies d)))" using ok unfolding ids by (simp add: findings_ok_def)
  next
    fix a assume "a \<in> set (map ?g (sd_anomalies d))"
    then show "an_id a < sd_next_anomaly d" using ok f by (auto simp: findings_ok_def)
  next
    fix a b assume "a \<in> set (map ?g (sd_anomalies d))" "b \<in> set (map ?g (sd_anomalies d))" and s: "same_finding a b"
    then obtain x y where xy: "x \<in> set (sd_anomalies d)" "a = ?g x" "y \<in> set (sd_anomalies d)" "b = ?g y" by auto
    then have "x = y" using ok s same2 unfolding findings_ok_def by blast
    then show "a = b" using xy by simp
  qed
qed

lemma record_findings_ok:
  "findings_ok d \<Longrightarrow> findings_ok (snd (record_findings account sender folder uid ref fs ids d))"
  using insert_anomaly_ok
  by (induction account sender folder uid ref fs ids d rule: record_findings.induct)
     (auto split: prod.splits option.splits, (metis snd_conv)+)

lemma check_message_ok: "findings_ok d \<Longrightarrow> findings_ok (snd (check_message det cfg account folder h own d))"
  by (simp add: check_message_def record_findings_ok split: option.split)

lemma resolve_silence_ok: "findings_ok d \<Longrightarrow> findings_ok (resolve_silence account addr d)"
  by (erule resolve_rows_ok) (auto simp: resolve_silence_def)

lemma silence_one_ok: "findings_ok (snd st) \<Longrightarrow> findings_ok (snd (silence_one account cfg q st))"
  by (cases st; cases q)
     (auto simp: silence_one_def Let_def resolve_silence_ok split: option.split prod.split dest: insert_anomaly_result)

lemma spike_one_ok: "findings_ok (snd st) \<Longrightarrow> findings_ok (snd (spike_one rnd account cfg b st))"
  by (cases st; cases b)
     (auto simp: spike_one_def Let_def split: option.split prod.split dest: insert_anomaly_result)

lemma periodic_account_ok:
  assumes "findings_ok d"
  shows "findings_ok (snd (periodic_account rnd cfg account d))"
proof -
  have a: "findings_ok (snd (fold (silence_one account cfg) qs ([], d)))" for qs
    by (rule fold_preserves [where P = "\<lambda>st. findings_ok (snd st)"]) (auto simp: assms silence_one_ok)
  have b: "findings_ok (snd (fold (spike_one rnd account cfg) bs st))" if "findings_ok (snd st)" for bs st
    by (rule fold_preserves [where P = "\<lambda>st. findings_ok (snd st)"]) (auto simp: that spike_one_ok)
  show ?thesis unfolding periodic_account_def Let_def by (rule b [OF a])
qed

lemma periodic_accounts_ok: "findings_ok d \<Longrightarrow> findings_ok (snd (periodic_accounts rnd cfg as d))"
  by (induction rnd cfg as d rule: periodic_accounts.induct)
     (auto simp: Let_def split: prod.splits, metis periodic_account_ok snd_conv)

text \<open>A tick's periodic checks keep the findings unique: at most one open silence and one open
  spike per account and sender, at most one finding of a type per message, and fresh ids.\<close>
lemma periodic_keeps_findings_unique:
  assumes "findings_ok d"
  shows "findings_ok (snd (periodic rnd cfg det d))"
  using assms by (simp add: periodic_def periodic_accounts_ok split: option.split)

section \<open>Scores\<close>

text \<open>After a tick every sender's score is the weighted number of its open findings: 1 for a
  high, one half for a medium, one fifth for a low one, and 0 for a sender with none.\<close>
theorem scores_follow_open_findings:
  assumes "\<forall>s\<in>set (sd_senders d). 0 \<le> sn_score s"
  shows "\<forall>s\<in>set (sd_senders (score_senders d)).
    sn_score s = sum_list (map (severity_weight \<circ> an_severity) (open_anomalies (sn_address s) (score_senders d)))"
proof
  have an: "open_anomalies addr (score_senders d) = open_anomalies addr d" for addr
    by (simp add: open_anomalies_def score_senders_def)
  fix s assume "s \<in> set (sd_senders (score_senders d))"
  then obtain r where r: "r \<in> set (sd_senders d)"
    and s: "s = (if 0 < sn_score r \<or> open_anomalies (sn_address r) d \<noteq> []
      then r\<lparr>sn_score := sum_list (map (severity_weight \<circ> an_severity) (open_anomalies (sn_address r) d))\<rparr> else r)"
    by (auto simp: score_senders_def upd_rows_def)
  show "sn_score s = sum_list (map (severity_weight \<circ> an_severity) (open_anomalies (sn_address s) (score_senders d)))"
    using assms r unfolding an s by (fastforce split: if_splits)
qed

end
