(* ===== verification/Intel.thy ===== *)
theory Intel
  imports Anomaly
begin

text \<open>
  The header scan's store (\<open>internal/intel/store.go\<close>, \<open>locations.go\<close>, \<open>identity.go\<close>): one batch of
  headers goes into the message index, the sender profiles and the conversation table in one
  transaction; replies are paired with the mail they answer; folders are registered, reset and
  located. The knowledge graph is off (\<open>kg = nil\<close>). A rolled-back transaction leaves the state
  as it was, so only committed batches appear here.
\<close>

record batch =
  b_UIDValidity :: nat
  b_Headers :: "header list"
  b_More :: bool

record folder_kinds =
  fk_kind :: "(string \<times> string) list"
  fk_hold :: "string list"

section \<open>Folder kinds\<close>

definition base_name :: "string \<Rightarrow> string" where
  "base_name s = rev (takeWhile (\<lambda>c. c \<noteq> CHR ''/'' \<and> c \<noteq> CHR ''.'') (rev s))"

definition discard_kind :: "string \<Rightarrow> string list \<Rightarrow> string list \<Rightarrow> string" where
  "discard_kind name attrs extra =
     (if (CHR 0x5C # ''Trash'') \<in> set attrs then ''trash''
      else if (CHR 0x5C # ''Junk'') \<in> set attrs then ''junk''
      else (let b = to_lower (base_name name) in
        if b \<in> {''trash'', ''deleted items'', ''deleted messages''} then ''trash''
        else if b \<in> {''junk'', ''spam'', ''junk e-mail'', ''junk email'', ''bulk mail''} then ''junk''
        else if list_ex (\<lambda>x. equal_fold (trim_space x) name) extra then ''discard'' else []))"

definition fk_discard :: "folder_kinds option \<Rightarrow> string \<Rightarrow> bool" where
  "fk_discard k folder = (case k of None \<Rightarrow> False | Some k \<Rightarrow> (case map_of (fk_kind k) folder of None \<Rightarrow> False | Some x \<Rightarrow> x \<noteq> []))"

definition rescue_from :: "folder_kinds option \<Rightarrow> string \<Rightarrow> bool" where
  "rescue_from k folder =
     (case k of None \<Rightarrow> False | Some k \<Rightarrow> map_of (fk_kind k) folder = Some ''junk'' \<or> folder \<in> set (fk_hold k))"

definition kinds_of :: "string list \<Rightarrow> string \<Rightarrow> (string \<times> string list) list \<Rightarrow> state_db \<Rightarrow> folder_kinds" where
  "kinds_of extra account folders d =
     \<lparr>fk_kind = filter (\<lambda>(n, k). k \<noteq> []) (map (\<lambda>(n, attrs). (n, discard_kind n attrs extra)) folders),
      fk_hold = map hm_folder (filter (\<lambda>r. hm_account r = account) (sd_held d))\<rparr>"

section \<open>Locations\<close>

definition find_index :: "string \<Rightarrow> int \<Rightarrow> state_db \<Rightarrow> intel_row option" where
  "find_index account hash d = find (\<lambda>m. im_account m = account \<and> im_hash m = hash) (sd_index d)"

definition upd_index :: "string \<Rightarrow> int \<Rightarrow> (intel_row \<Rightarrow> intel_row) \<Rightarrow> state_db \<Rightarrow> state_db" where
  "upd_index account hash f d =
     d\<lparr>sd_index := upd_rows (\<lambda>m. im_account m = account \<and> im_hash m = hash) f (sd_index d)\<rparr>"

text \<open>A rescued sender is trusted, its open anomalies are resolved and its suggestion forgotten. A
  sender id without a row is an error of the code (\<open>sql.ErrNoRows\<close>), here \<open>None\<close>.\<close>

definition rescue :: "string \<Rightarrow> int \<Rightarrow> state_db \<Rightarrow> state_db option" where
  "rescue account sender d =
     (case find (\<lambda>s. sn_id s = sender) (sd_senders d) of
        None \<Rightarrow> None
      | Some s \<Rightarrow> Some (d\<lparr>
          sd_senders := upd_rows (\<lambda>x. sn_address x = sn_address s) (\<lambda>x. x\<lparr>sn_trusted := True\<rparr>) (sd_senders d),
          sd_anomalies := upd_rows (\<lambda>a. an_sender a = sn_address s \<and> \<not> an_resolved a)
             (\<lambda>a. a\<lparr>an_resolved := True, an_resolved_at := (case an_resolved_at a of None \<Rightarrow> Some (sd_now d) | x \<Rightarrow> x)\<rparr>) (sd_anomalies d),
          sd_learn := filter (\<lambda>l. \<not> (ls_account l = account \<and> ls_target l = sn_address s)) (sd_learn d)\<rparr>))"

definition locate :: "string \<Rightarrow> int \<Rightarrow> string \<Rightarrow> folder_kinds option \<Rightarrow> state_db \<Rightarrow> state_db option" where
  "locate account hash folder k d =
     (case find_index account hash d of
        None \<Rightarrow> Some d
      | Some m \<Rightarrow>
          (if im_folder m = Some folder \<or> (im_folder m = None \<and> folder = []) then Some d
           else (let d' = upd_index account hash (\<lambda>r. r\<lparr>im_folder := Some folder\<rparr>) d in
                 case (im_folder m, im_sender m) of
                   (Some prev, Some s) \<Rightarrow> (if rescue_from k prev \<and> \<not> fk_discard k folder then rescue account s d' else Some d')
                 | _ \<Rightarrow> Some d')))"

section \<open>Owner names\<close>

text \<open>Letters are the ASCII ones.\<close>

definition is_letter :: "char \<Rightarrow> bool" where
  "is_letter c = (let n = (of_char c :: nat) in (65 \<le> n \<and> n \<le> 90) \<or> (97 \<le> n \<and> n \<le> 122))"

fun name_chars :: "nat \<Rightarrow> string \<Rightarrow> string" where
  "name_chars depth [] = []"
| "name_chars depth (c # cs) =
     (if c = CHR ''('' then name_chars (depth + 1) cs
      else if c = CHR '')'' then name_chars (depth - 1) cs
      else if depth > 0 then name_chars depth cs
      else if is_letter c then c # name_chars depth cs
      else CHR '' '' # name_chars depth cs)"

definition norm_name :: "string \<Rightarrow> string" where
  "norm_name name =
     (let ws = str_fields (name_chars 0 (to_lower name)) in
      if length ws < 2 then [] else str_join '' '' (sort ws))"

definition owner_name :: "string \<Rightarrow> state_db \<Rightarrow> state_db" where
  "owner_name name d =
     (let n = norm_name name in
      if n = [] then d
      else d\<lparr>sd_owner_names := upsert (\<lambda>r. fst r = n) (\<lambda>r. (fst r, snd r + 1)) (n, 1) (sd_owner_names d)\<rparr>)"

section \<open>Sender profiles\<close>

definition pass_fail :: "string \<Rightarrow> int \<times> int" where
  "pass_fail r = (if r = ''pass'' then (1, 0) else if r = ''fail'' then (0, 1) else (0, 0))"

definition bool_int :: "bool \<Rightarrow> int" where "bool_int b = (if b then 1 else 0)"

definition contact_times :: "int \<Rightarrow> sender_row \<Rightarrow> sender_row" where
  "contact_times t s = s\<lparr>sn_first := opt_min (sn_first s) t, sn_last := opt_max (sn_last s) t, sn_dirty := True\<rparr>"

definition profile_sent :: "int \<Rightarrow> address \<Rightarrow> state_db \<Rightarrow> state_db" where
  "profile_sent t a d =
     sender_upsert (ad_Addr a)
       (\<lambda>s. contact_times t s\<lparr>sn_name := (if sn_name s = [] then ad_Name a else sn_name s), sn_sent := sn_sent s + 1\<rparr>)
       ((new_sender_row 0 (ad_Addr a) (domainOf (ad_Addr a)))\<lparr>sn_name := ad_Name a, sn_first := Some t, sn_last := Some t, sn_sent := 1\<rparr>) d"

text \<open>The recipients of the owner's mail: the loop returns at an address that is empty, the
  owner's or already seen, and the recipients behind it are not counted.\<close>

fun profile_recipients :: "int \<Rightarrow> string list \<Rightarrow> string list \<Rightarrow> address list \<Rightarrow> state_db \<Rightarrow> state_db" where
  "profile_recipients t own seen [] d = d"
| "profile_recipients t own seen (a # as) d =
     (if ad_Addr a = [] \<or> own_has own (ad_Addr a) \<or> ad_Addr a \<in> set seen then d
      else profile_recipients t own (ad_Addr a # seen) as (profile_sent t a d))"

definition received_update :: "header \<Rightarrow> sender_row \<Rightarrow> sender_row" where
  "received_update h s =
     (let (kp, kf) = pass_fail (h_DKIM h); (mp, mf) = pass_fail (h_DMARC h); n = ad_Name (h_From h) in
      contact_times (time_unix (h_Date h)) s\<lparr>sn_name := (if n \<noteq> [] then n else sn_name s), sn_count := sn_count s + 1,
        sn_list := sn_list s + bool_int (h_List h), sn_bulk := sn_bulk s + bool_int (h_Bulk h), sn_auto := sn_auto s + bool_int (h_Auto h),
        sn_dkim_pass := sn_dkim_pass s + kp, sn_dkim_fail := sn_dkim_fail s + kf,
        sn_dmarc_pass := sn_dmarc_pass s + mp, sn_dmarc_fail := sn_dmarc_fail s + mf\<rparr>)"

definition received_row :: "header \<Rightarrow> sender_row" where
  "received_row h =
     (let (kp, kf) = pass_fail (h_DKIM h); (mp, mf) = pass_fail (h_DMARC h); a = h_From h; t = time_unix (h_Date h) in
      (new_sender_row 0 (ad_Addr a) (domainOf (ad_Addr a)))\<lparr>sn_name := ad_Name a, sn_first := Some t, sn_last := Some t, sn_count := 1,
        sn_list := bool_int (h_List h), sn_bulk := bool_int (h_Bulk h), sn_auto := bool_int (h_Auto h),
        sn_dkim_pass := kp, sn_dkim_fail := kf, sn_dmarc_pass := mp, sn_dmarc_fail := mf\<rparr>)"

definition profile_received :: "string \<Rightarrow> int \<Rightarrow> header \<Rightarrow> state_db \<Rightarrow> state_db" where
  "profile_received account hash h d =
     (let a = ad_Addr (h_From h); d1 = sender_upsert a (received_update h) (received_row h) d
      in upd_index account hash (\<lambda>m. m\<lparr>im_sender := map_option sn_id (find_sender a d1)\<rparr>) d1)"

definition profile :: "string \<Rightarrow> int \<Rightarrow> header \<Rightarrow> bool \<Rightarrow> string list \<Rightarrow> state_db \<Rightarrow> state_db" where
  "profile account hash h outgoing own d =
     (if outgoing then profile_recipients (time_unix (h_Date h)) own [] (h_To h @ h_Cc h) d
      else profile_received account hash h d)"

section \<open>Conversations\<close>

definition thread_root :: "header \<Rightarrow> string" where
  "thread_root h = thread_id (h_References h) (if h_InReplyTo h = [] then [] else [h_InReplyTo h]) (h_MessageID h)"

text \<open>The conflict clause keeps the stored row unless the new message is the same one, is later, or is
  as late and the owner's.\<close>

definition thread_supersedes :: "thread_row \<Rightarrow> thread_row \<Rightarrow> bool" where
  "thread_supersedes new old =
     (rt_last_hash new = rt_last_hash old \<or> rt_last_date new > rt_last_date old \<or>
      (rt_last_date new = rt_last_date old \<and> rt_outgoing new \<and> \<not> rt_outgoing old))"

definition thread_merge :: "thread_row \<Rightarrow> thread_row \<Rightarrow> thread_row" where
  "thread_merge new old =
     (if thread_supersedes new old
      then old\<lparr>rt_answered := (if rt_last_hash old = rt_last_hash new then rt_answered old \<or> rt_answered new else rt_answered new),
             rt_last_hash := rt_last_hash new, rt_last_date := rt_last_date new, rt_outgoing := rt_outgoing new,
             rt_direct := rt_direct new, rt_counterpart := rt_counterpart new, rt_subject := rt_subject new,
             rt_ref := rt_ref new, rt_folder := rt_folder new, rt_uid := rt_uid new\<rparr>
      else old)"

definition thread_of ::
  "(string \<Rightarrow> int) \<Rightarrow> string \<Rightarrow> string \<Rightarrow> int \<Rightarrow> header \<Rightarrow> bool \<Rightarrow> string list \<Rightarrow> thread_row option" where
  "thread_of hf account folder hash h outgoing own =
     (let rcpts = h_To h @ h_Cc h;
          direct = list_ex (\<lambda>a. own_has own (ad_Addr a)) rcpts;
          other = (case find (\<lambda>a. \<not> own_has own (ad_Addr a) \<and> ad_Addr a \<noteq> []) rcpts of None \<Rightarrow> [] | Some a \<Rightarrow> ad_Addr a);
          counterpart = (if outgoing then other else ad_Addr (h_From h));
          root = msg_hash hf (thread_root h)
      in if \<not> outgoing \<and> \<not> conversation h then None
         else if root = 0 then None
         else if outgoing \<and> counterpart = [] then None
         else Some \<lparr>rt_account = account, rt_hash = root, rt_thread_id = thread_root h, rt_last_hash = hash,
                rt_last_date = time_unix (h_Date h), rt_outgoing = outgoing, rt_direct = (direct \<and> \<not> outgoing),
                rt_counterpart = counterpart, rt_subject = h_Subject h, rt_ref = trim_angle (trim_space (h_MessageID h)),
                rt_folder = folder, rt_uid = h_UID h, rt_answered = h_Answered h, rt_dismissed = None\<rparr>)"

definition put_thread :: "thread_row \<Rightarrow> state_db \<Rightarrow> state_db" where
  "put_thread t d =
     d\<lparr>sd_threads := upsert (\<lambda>r. rt_account r = rt_account t \<and> rt_hash r = rt_hash t) (thread_merge t) t (sd_threads d)\<rparr>"

definition thread_msg ::
  "(string \<Rightarrow> int) \<Rightarrow> string \<Rightarrow> string \<Rightarrow> int \<Rightarrow> header \<Rightarrow> bool \<Rightarrow> string list \<Rightarrow> state_db \<Rightarrow> state_db" where
  "thread_msg hf account folder hash h outgoing own d =
     (case thread_of hf account folder hash h outgoing own of None \<Rightarrow> d | Some t \<Rightarrow> put_thread t d)"

section \<open>One batch\<close>

record applied =
  ap_New :: nat
  ap_Duplicate :: nat
  ap_Anomalies :: "int list"

definition key_hash :: "(string \<Rightarrow> int) \<Rightarrow> string \<Rightarrow> header \<Rightarrow> int" where
  "key_hash hf folder h =
     msg_hash hf (''noid:'' @ folder @ ''|'' @ show_nat (h_UID h) @ ''|'' @ format_rfc3339 (h_Date h) @ ''|'' @ ad_Addr (h_From h))"

definition index_key :: "(string \<Rightarrow> int) \<Rightarrow> string \<Rightarrow> header \<Rightarrow> int" where
  "index_key hf folder h =
     (if msg_hash hf (h_MessageID h) = 0 then key_hash hf folder h else msg_hash hf (h_MessageID h))"

definition index_row :: "(string \<Rightarrow> int) \<Rightarrow> string \<Rightarrow> string \<Rightarrow> int \<Rightarrow> header \<Rightarrow> bool \<Rightarrow> intel_row" where
  "index_row hf account folder hash h outgoing =
     \<lparr>im_account = account, im_hash = hash, im_date = time_unix (h_Date h), im_sender = None, im_outgoing = outgoing,
      im_reply = (if outgoing \<and> msg_hash hf (h_InReplyTo h) \<noteq> 0 then Some (msg_hash hf (h_InReplyTo h)) else None),
      im_paired = False, im_folder = Some folder\<rparr>"

record scan_env =
  se_hash :: "string \<Rightarrow> int"
  se_account :: string
  se_folder :: string
  se_own :: "string list"
  se_det :: "detector option"
  se_cfg :: anomaly_cfg
  se_kinds :: "folder_kinds option"

text \<open>A message not yet indexed: its index row, the owner's name, the anomaly checks against the
  profile before it, then the profile.\<close>

definition index_new :: "scan_env \<Rightarrow> int \<Rightarrow> header \<Rightarrow> bool \<Rightarrow> state_db \<Rightarrow> int list \<times> state_db" where
  "index_new e hash h outgoing d =
     (let d1 = d\<lparr>sd_index := sd_index d @ [index_row (se_hash e) (se_account e) (se_folder e) hash h outgoing]\<rparr>;
          d2 = (if outgoing \<and> ad_Name (h_From h) \<noteq> [] then owner_name (ad_Name (h_From h)) d1 else d1);
          (ids, d3) = check_message (se_det e) (se_cfg e) (se_account e) (se_folder e) h (se_own e) d2
      in (ids, profile (se_account e) hash h outgoing (se_own e) d3))"

definition apply_header :: "scan_env \<Rightarrow> header \<Rightarrow> applied \<times> state_db \<Rightarrow> (applied \<times> state_db) option" where
  "apply_header e h st =
     (let (res, d) = st in
      if ad_Addr (h_From h) = [] \<or> h_Date h = zero_time then Some (res, d)
      else (let hash = index_key (se_hash e) (se_folder e) h; outgoing = own_has (se_own e) (ad_Addr (h_From h));
                conv = thread_msg (se_hash e) (se_account e) (se_folder e) hash h outgoing (se_own e) in
        if find_index (se_account e) hash d \<noteq> None
        then map_option (\<lambda>d'. (res\<lparr>ap_Duplicate := ap_Duplicate res + 1\<rparr>, conv d'))
               (locate (se_account e) hash (se_folder e) (se_kinds e) d)
        else (let (ids, d') = index_new e hash h outgoing d
              in Some (res\<lparr>ap_New := ap_New res + 1, ap_Anomalies := ap_Anomalies res @ ids\<rparr>, conv d'))))"

fun apply_headers :: "scan_env \<Rightarrow> header list \<Rightarrow> applied \<times> state_db \<Rightarrow> (applied \<times> state_db) option" where
  "apply_headers e [] st = Some st"
| "apply_headers e (h # hs) st = Option.bind (apply_header e h st) (apply_headers e hs)"

text \<open>\<open>finish\<close> records the folder's progress; \<open>completed_at\<close> is set once.\<close>

definition finish_batch :: "scan_env \<Rightarrow> nat \<Rightarrow> batch \<Rightarrow> state_db \<Rightarrow> state_db" where
  "finish_batch e validity b d =
     (let highest = fold max (map h_UID (b_Headers b)) 0; done = (if b_More b then None else Some (sd_now d)) in
      d\<lparr>sd_scan := upsert (\<lambda>r. is_account r = se_account e \<and> is_folder r = se_folder e)
          (\<lambda>r. r\<lparr>is_validity := validity, is_last_uid := max (is_last_uid r) highest,
             is_scanned := is_scanned r + length (b_Headers b),
             is_completed := (case is_completed r of None \<Rightarrow> done | x \<Rightarrow> x)\<rparr>)
          \<lparr>is_account = se_account e, is_folder = se_folder e, is_validity = validity, is_last_uid = highest,
           is_scanned = length (b_Headers b), is_completed = done\<rparr> (sd_scan d)\<rparr>)"

definition no_applied :: applied where
  "no_applied = \<lparr>ap_New = 0, ap_Duplicate = 0, ap_Anomalies = []\<rparr>"

text \<open>The transaction: \<open>None\<close> is an error, after which the state is what it was before.\<close>

definition apply_batch :: "scan_env \<Rightarrow> nat \<Rightarrow> batch \<Rightarrow> state_db \<Rightarrow> (applied \<times> state_db) option" where
  "apply_batch e validity b d =
     map_option (\<lambda>(res, d'). (res, finish_batch e validity b d')) (apply_headers e (b_Headers b) (no_applied, d))"

section \<open>Folders\<close>

definition scan_state :: "string \<Rightarrow> string \<Rightarrow> state_db \<Rightarrow> nat \<times> nat \<times> bool" where
  "scan_state account folder d =
     (case find (\<lambda>r. is_account r = account \<and> is_folder r = folder) (sd_scan d) of
        None \<Rightarrow> (0, 0, False)
      | Some r \<Rightarrow> (is_validity r, is_last_uid r, is_completed r \<noteq> None))"

definition register_one :: "string \<Rightarrow> string \<Rightarrow> state_db \<Rightarrow> state_db" where
  "register_one account folder d =
     d\<lparr>sd_scan := upsert (\<lambda>r. is_account r = account \<and> is_folder r = folder) (\<lambda>r. r)
        \<lparr>is_account = account, is_folder = folder, is_validity = 0, is_last_uid = 0, is_scanned = 0, is_completed = None\<rparr> (sd_scan d)\<rparr>"

definition register :: "string \<Rightarrow> string list \<Rightarrow> state_db \<Rightarrow> state_db" where
  "register account folders d =
     fold (register_one account) folders
       (d\<lparr>sd_scan := filter (\<lambda>r. \<not> (is_account r = account \<and> is_folder r \<notin> set folders)) (sd_scan d)\<rparr>)"

definition reset_folder :: "string \<Rightarrow> string \<Rightarrow> nat \<Rightarrow> state_db \<Rightarrow> state_db" where
  "reset_folder account folder validity d =
     d\<lparr>sd_scan := upd_rows (\<lambda>r. is_account r = account \<and> is_folder r = folder)
        (\<lambda>r. r\<lparr>is_validity := validity, is_last_uid := 0\<rparr>) (sd_scan d)\<rparr>"

section \<open>Replies\<close>

definition maxReplyGap :: duration where "maxReplyGap = 30 * 24 * ns_per_hour"

text \<open>The join: unpaired outgoing messages with the incoming one they answer.\<close>

definition reply_pairs :: "string \<Rightarrow> state_db \<Rightarrow> (int \<times> int \<times> int) list" where
  "reply_pairs account d =
     concat (map (\<lambda>r. concat (map (\<lambda>i. case im_sender i of
             Some s \<Rightarrow> (if im_account i = im_account r \<and> Some (im_hash i) = im_reply r \<and> \<not> im_outgoing i
                        then [(im_hash r, im_date r - im_date i, s)] else [])
           | None \<Rightarrow> []) (sd_index d)))
       (filter (\<lambda>r. im_account r = account \<and> im_outgoing r \<and> \<not> im_paired r) (sd_index d)))"

definition pair_one :: "string \<Rightarrow> int \<times> int \<times> int \<Rightarrow> nat \<times> state_db \<Rightarrow> nat \<times> state_db" where
  "pair_one account p st =
     (let (hash, gap, sender) = p; (n, d) = st in
      if \<not> list_ex (\<lambda>m. im_account m = account \<and> im_hash m = hash \<and> \<not> im_paired m) (sd_index d) then (n, d)
      else (let d1 = d\<lparr>sd_index := upd_rows (\<lambda>m. im_account m = account \<and> im_hash m = hash \<and> \<not> im_paired m)
                        (\<lambda>m. m\<lparr>im_paired := True\<rparr>) (sd_index d)\<rparr>
            in if gap < 0 \<or> maxReplyGap < dur64 (gap * ns_per_sec) then (n + 1, d1)
               else (n + 1, d1\<lparr>sd_senders := upd_rows (\<lambda>s. sn_id s = sender)
                  (\<lambda>s. s\<lparr>sn_reply_count := sn_reply_count s + 1, sn_reply_total := sn_reply_total s + gap,
                        sn_avg_reply := Some ((sn_reply_total s + gap) div (sn_reply_count s + 1))\<rparr>) (sd_senders d1)\<rparr>)))"

definition pair_replies :: "string \<Rightarrow> state_db \<Rightarrow> nat \<times> state_db" where
  "pair_replies account d = fold (pair_one account) (reply_pairs account d) (0, d)"

section \<open>Identities\<close>

text \<open>\<open>ApplyIdentity\<close> rewrites the history of an address, or of a domain for an entry with a
  leading at sign; the mark that it was applied is not a column here.\<close>

definition identity_rows :: "string \<Rightarrow> sender_row \<Rightarrow> bool" where
  "identity_rows entry s =
     (if has_prefix entry ''@'' then sn_domain s = drop 1 entry else sn_address s = entry)"

definition apply_identity :: "string \<Rightarrow> state_db \<Rightarrow> state_db" where
  "apply_identity entry d =
     (let ss = filter (identity_rows entry) (sd_senders d) in
      d\<lparr>sd_index := upd_rows (\<lambda>m. \<exists>s\<in>set ss. im_sender m = Some (sn_id s)) (\<lambda>m. m\<lparr>im_outgoing := True\<rparr>) (sd_index d),
        sd_threads := filter (\<lambda>t. \<forall>s\<in>set ss. rt_counterpart t \<noteq> sn_address s) (sd_threads d),
        sd_senders := upd_rows (identity_rows entry)
          (\<lambda>s. s\<lparr>sn_role := ''self'', sn_role_source := ''identity'', sn_dirty := False\<rparr>) (sd_senders d)\<rparr>)"

section \<open>Scanning a folder\<close>

text \<open>The answers of the mail source to the successive fetches; \<open>None\<close> is an error, and a source
  that has no more answers stands for the end of the context. The result is the state reached.\<close>

fun scan_folder :: "scan_env \<Rightarrow> nat \<Rightarrow> (nat \<Rightarrow> batch option) list \<Rightarrow> nat \<Rightarrow> state_db \<Rightarrow> state_db" where
  "scan_folder e validity [] after d = d"
| "scan_folder e validity (src # srcs) after d =
     (case src after of
        None \<Rightarrow> d
      | Some b \<Rightarrow>
          (if validity \<noteq> 0 \<and> b_UIDValidity b \<noteq> validity
           then scan_folder e (b_UIDValidity b) srcs 0 (reset_folder (se_account e) (se_folder e) (b_UIDValidity b) d)
           else (case apply_batch e (b_UIDValidity b) b d of
                   None \<Rightarrow> d
                 | Some (_, d') \<Rightarrow>
                     (if b_More b
                      then scan_folder e (b_UIDValidity b) srcs
                             (if b_Headers b = [] then after else h_UID (last (b_Headers b))) d'
                      else d'))))"

end
