(* ===== verification/Intel_Inv.thy ===== *)
theory Intel_Inv
  imports Intel Anomaly_Props
begin

text \<open>
  The invariant of the header scan: the sender profiles count exactly what the message index
  holds. Every operation of the store keeps it, and under it no operation fails.
\<close>

definition rows_of :: "int \<Rightarrow> intel_row list \<Rightarrow> int" where
  "rows_of i idx = int (length (filter (\<lambda>m. im_sender m = Some i) idx))"

definition index_keys :: "intel_row list \<Rightarrow> (string \<times> int) list" where
  "index_keys idx = map (\<lambda>m. (im_account m, im_hash m)) idx"

text \<open>The counters of one profile are parts of its message count.\<close>

definition stats_ok :: "sender_row \<Rightarrow> bool" where
  "stats_ok s \<longleftrightarrow> 0 \<le> sn_count s \<and> 0 \<le> sn_sent s \<and>
     0 \<le> sn_list s \<and> sn_list s \<le> sn_count s \<and> 0 \<le> sn_bulk s \<and> sn_bulk s \<le> sn_count s \<and>
     0 \<le> sn_auto s \<and> sn_auto s \<le> sn_count s \<and>
     0 \<le> sn_dkim_pass s \<and> 0 \<le> sn_dkim_fail s \<and> sn_dkim_pass s + sn_dkim_fail s \<le> sn_count s \<and>
     0 \<le> sn_dmarc_pass s \<and> 0 \<le> sn_dmarc_fail s \<and> sn_dmarc_pass s + sn_dmarc_fail s \<le> sn_count s"

definition rows_ok :: "sender_row list \<Rightarrow> int \<Rightarrow> bool" where
  "rows_ok ss nxt \<longleftrightarrow> distinct (map sn_id ss) \<and> distinct (map sn_address ss) \<and> (\<forall>s\<in>set ss. sn_id s < nxt)"

definition index_ok :: "sender_row list \<Rightarrow> intel_row list \<Rightarrow> bool" where
  "index_ok ss idx \<longleftrightarrow> distinct (index_keys idx) \<and>
     (\<forall>m\<in>set idx. \<forall>i. im_sender m = Some i \<longrightarrow> i \<in> sn_id ` set ss)"

definition counts_ok :: "sender_row list \<Rightarrow> intel_row list \<Rightarrow> bool" where
  "counts_ok ss idx \<longleftrightarrow> (\<forall>s\<in>set ss. sn_count s = rows_of (sn_id s) idx \<and> stats_ok s)"

definition profiles_ok :: "state_db \<Rightarrow> bool" where
  "profiles_ok d \<longleftrightarrow> rows_ok (sd_senders d) (sd_next_sender d) \<and> index_ok (sd_senders d) (sd_index d) \<and>
     counts_ok (sd_senders d) (sd_index d)"

lemma profiles_ok_cong:
  "sd_senders d' = sd_senders d \<Longrightarrow> sd_next_sender d' = sd_next_sender d \<Longrightarrow> sd_index d' = sd_index d \<Longrightarrow>
   profiles_ok d' = profiles_ok d"
  by (simp add: profiles_ok_def)

lemma profiles_ok_empty: "profiles_ok empty_state"
  by (simp add: profiles_ok_def empty_state_def rows_ok_def index_ok_def counts_ok_def index_keys_def)

section \<open>Operations that leave profiles and index alone\<close>

definition same_profiles :: "state_db \<Rightarrow> state_db \<Rightarrow> bool" where
  "same_profiles d d' \<longleftrightarrow> sd_senders d' = sd_senders d \<and> sd_next_sender d' = sd_next_sender d \<and> sd_index d' = sd_index d"

lemma same_profilesD: "same_profiles d d' \<Longrightarrow> profiles_ok d' = profiles_ok d"
  by (rule profiles_ok_cong) (simp_all add: same_profiles_def)

lemma same_profiles_trans: "same_profiles a b \<Longrightarrow> same_profiles b c \<Longrightarrow> same_profiles a c"
  by (simp add: same_profiles_def)

lemma same_profiles_refl [simp]: "same_profiles d d"
  by (simp add: same_profiles_def)

lemma insert_anomaly_sel [simp]:
  "sd_senders (snd (insert_anomaly account sender f ref folder uid d)) = sd_senders d"
  "sd_index (snd (insert_anomaly account sender f ref folder uid d)) = sd_index d"
  "sd_next_sender (snd (insert_anomaly account sender f ref folder uid d)) = sd_next_sender d"
  by (simp_all add: insert_anomaly_def)

lemma insert_anomaly_same_snd: "same_profiles d (snd (insert_anomaly account sender f ref folder uid d))"
  by (simp only: same_profiles_def insert_anomaly_sel)

lemma insert_anomaly_same: "insert_anomaly account sender f ref folder uid d = (x, d') \<Longrightarrow> same_profiles d d'"
  using insert_anomaly_same_snd [of d account sender f ref folder uid] by simp

lemma record_findings_same: "same_profiles d (snd (record_findings account sender folder uid ref fs ids d))"
proof (induction fs arbitrary: ids d)
  case (Cons f fs)
  obtain x d' where i: "insert_anomaly account sender f (Some ref) folder uid d = (x, d')"
    by (cases "insert_anomaly account sender f (Some ref) folder uid d")
  have "same_profiles d' (snd (record_findings account sender folder uid ref fs ids' d'))" for ids' by (rule Cons.IH)
  then have "same_profiles d (snd (record_findings account sender folder uid ref fs ids' d'))" for ids'
    by (rule same_profiles_trans [OF insert_anomaly_same [OF i]])
  then show ?case by (simp add: i split: option.split)
qed simp

lemma check_message_same: "same_profiles d (snd (check_message det cfg account folder h own d))"
  by (simp add: check_message_def record_findings_same split: option.split)

lemma owner_name_same: "same_profiles d (owner_name n d)"
  by (simp add: owner_name_def Let_def same_profiles_def)

lemma thread_msg_same: "same_profiles d (thread_msg hf account folder hash h outgoing own d)"
  by (simp add: thread_msg_def put_thread_def same_profiles_def split: option.split)

lemma finish_batch_same: "same_profiles d (finish_batch e v b d)"
  by (simp add: finish_batch_def Let_def same_profiles_def)

lemma reset_folder_same: "same_profiles d (reset_folder account folder v d)"
  by (simp add: reset_folder_def same_profiles_def)

section \<open>Updating profiles\<close>

lemma rows_ok_upd:
  assumes "rows_ok ss nxt" "\<And>s. sn_id (f s) = sn_id s \<and> sn_address (f s) = sn_address s"
  shows "rows_ok (upd_rows p f ss) nxt"
proof -
  have ids: "map sn_id (upd_rows p f ss) = map sn_id ss" and ad: "map sn_address (upd_rows p f ss) = map sn_address ss"
    by (rule map_upd_rows, simp add: assms(2))+
  have "(\<forall>s\<in>set (upd_rows p f ss). sn_id s < nxt) = (\<forall>i\<in>set (map sn_id ss). i < nxt)"
    unfolding ids [symmetric] by simp
  with assms(1) show ?thesis unfolding rows_ok_def ids ad by simp
qed

lemma ids_upd_rows:
  assumes "\<And>s. sn_id (f s) = sn_id s"
  shows "sn_id ` set (upd_rows p f ss) = sn_id ` set ss"
proof -
  have "map sn_id (upd_rows p f ss) = map sn_id ss" by (rule map_upd_rows) (rule assms)
  then have "set (map sn_id (upd_rows p f ss)) = set (map sn_id ss)" by (rule arg_cong)
  then show ?thesis by simp
qed

lemma counts_ok_upd:
  assumes "counts_ok ss idx" "\<And>s. sn_id (f s) = sn_id s \<and> sn_count (f s) = sn_count s" "\<And>s. stats_ok s \<Longrightarrow> stats_ok (f s)"
  shows "counts_ok (upd_rows p f ss) idx"
  using assms unfolding counts_ok_def by (auto simp: upd_rows_def)

lemma profiles_ok_upd:
  assumes ok: "profiles_ok d" and f: "\<And>s. sn_id (f s) = sn_id s \<and> sn_address (f s) = sn_address s \<and> sn_count (f s) = sn_count s"
    and st: "\<And>s. stats_ok s \<Longrightarrow> stats_ok (f s)"
    and d': "sd_senders d' = upd_rows p f (sd_senders d)" "sd_next_sender d' = sd_next_sender d" "sd_index d' = sd_index d"
  shows "profiles_ok d'"
  using ok rows_ok_upd [of "sd_senders d" _ f p] counts_ok_upd [of "sd_senders d" "sd_index d" f p] ids_upd_rows [of f p "sd_senders d"] f st
  unfolding profiles_ok_def d' index_ok_def by simp

lemma rows_of_fresh:
  assumes "index_ok ss idx" "i \<notin> sn_id ` set ss"
  shows "rows_of i idx = 0"
  using assms by (auto simp: rows_of_def index_ok_def filter_empty_conv)

lemma fresh_sender_id: "rows_ok ss nxt \<Longrightarrow> nxt \<notin> sn_id ` set ss"
  by (auto simp: rows_ok_def)

lemma profiles_ok_sender_upsert:
  assumes ok: "profiles_ok d"
    and f: "\<And>s. sn_id (f s) = sn_id s \<and> sn_address (f s) = sn_address s \<and> sn_count (f s) = sn_count s"
    and st: "\<And>s. stats_ok s \<Longrightarrow> stats_ok (f s)"
    and r: "sn_address r = addr" "sn_count r = 0" "stats_ok r"
  shows "profiles_ok (sender_upsert addr f r d)"
proof (cases "list_ex (\<lambda>s. sn_address s = addr) (sd_senders d)")
  case True
  then show ?thesis by (intro profiles_ok_upd [OF ok f st]) (simp_all add: sender_upsert_def)
next
  case False
  let ?n = "r\<lparr>sn_id := sd_next_sender d\<rparr>"
  have rows: "rows_ok (sd_senders d) (sd_next_sender d)" and idx: "index_ok (sd_senders d) (sd_index d)"
    and cnt: "counts_ok (sd_senders d) (sd_index d)" using ok by (simp_all add: profiles_ok_def)
  have new: "sd_next_sender d \<notin> sn_id ` set (sd_senders d)" by (rule fresh_sender_id [OF rows])
  have "rows_ok (sd_senders d @ [?n]) (sd_next_sender d + 1)"
    using rows new False r(1) by (auto simp: rows_ok_def list_ex_iff)
  moreover have "index_ok (sd_senders d @ [?n]) (sd_index d)" using idx by (fastforce simp: index_ok_def)
  moreover have "counts_ok (sd_senders d @ [?n]) (sd_index d)"
  proof -
    have "stats_ok ?n" using r(3) by (simp add: stats_ok_def)
    moreover have "sn_count ?n = rows_of (sn_id ?n) (sd_index d)" using r(2) rows_of_fresh [OF idx new] by simp
    ultimately show ?thesis using cnt unfolding counts_ok_def by (metis set_append Un_iff list.set_intros(1) set_ConsD empty_iff list.set(1))
  qed
  ultimately show ?thesis using False by (simp add: profiles_ok_def sender_upsert_def)
qed

lemma stats_ok_contact [simp]: "stats_ok (contact_times t s) = stats_ok s"
  by (simp add: contact_times_def stats_ok_def)

lemma contact_times_sel [simp]:
  "sn_id (contact_times t s) = sn_id s" "sn_address (contact_times t s) = sn_address s"
  "sn_count (contact_times t s) = sn_count s" "sn_trusted (contact_times t s) = sn_trusted s"
  by (simp_all add: contact_times_def)

lemma profiles_ok_sent: "profiles_ok d \<Longrightarrow> profiles_ok (profile_sent t a d)"
  unfolding profile_sent_def
  by (rule profiles_ok_sender_upsert) (auto simp: new_sender_row_def stats_ok_def contact_times_def)

lemma profiles_ok_recipients: "profiles_ok d \<Longrightarrow> profiles_ok (profile_recipients t own seen as d)"
  by (induction t own seen as d rule: profile_recipients.induct) (auto simp: profiles_ok_sent)

section \<open>Indexing a message\<close>

lemma rows_of_append: "rows_of i (idx @ [m]) = rows_of i idx + (if im_sender m = Some i then 1 else 0)"
  by (simp add: rows_of_def)

lemma profiles_ok_index_add:
  assumes ok: "profiles_ok d" and key: "(im_account m, im_hash m) \<notin> set (index_keys (sd_index d))" and none: "im_sender m = None"
  shows "profiles_ok (d\<lparr>sd_index := sd_index d @ [m]\<rparr>)"
  using assms by (auto simp: profiles_ok_def index_ok_def counts_ok_def index_keys_def rows_of_append)

lemma find_index_key: "find_index account hash d = None \<longleftrightarrow> (account, hash) \<notin> set (index_keys (sd_index d))"
  by (auto simp: find_index_def find_None_iff index_keys_def)

lemma find_index_Some:
  "find_index account hash d = Some m \<Longrightarrow> m \<in> set (sd_index d) \<and> im_account m = account \<and> im_hash m = hash"
  by (auto simp: find_index_def find_Some_iff)

lemma find_sender_Some: "find_sender addr d = Some s \<Longrightarrow> s \<in> set (sd_senders d) \<and> sn_address s = addr"
  by (auto simp: find_sender_def find_Some_iff)

text \<open>Giving a row without a sender its sender adds one to that sender's rows.\<close>

lemma keys_upd_rows: "(\<And>m. im_account (f m) = im_account m \<and> im_hash (f m) = im_hash m) \<Longrightarrow> index_keys (upd_rows p f idx) = index_keys idx"
  by (simp add: index_keys_def upd_rows_def)

lemma upd_rows_Cons: "upd_rows p f (r # rs) = (if p r then f r else r) # upd_rows p f rs"
  by (simp add: upd_rows_def)

lemma rows_of_Cons: "rows_of i (m # idx) = rows_of i idx + (if im_sender m = Some i then 1 else 0)"
  by (simp add: rows_of_def)

lemma rows_of_assign:
  assumes "distinct (index_keys idx)" "m \<in> set idx" "im_account m = account" "im_hash m = hash" "im_sender m = None"
  shows "rows_of i (upd_rows (\<lambda>m. im_account m = account \<and> im_hash m = hash) (\<lambda>m. m\<lparr>im_sender := Some j\<rparr>) idx) =
    rows_of i idx + (if i = j then 1 else 0)"
  using assms
proof (induction idx)
  case (Cons r idx)
  let ?p = "\<lambda>m. im_account m = account \<and> im_hash m = hash"
  show ?case
  proof (cases "?p r")
    case True
    then have none: "\<forall>x\<in>set idx. \<not> ?p x" using Cons.prems(1) unfolding index_keys_def by (auto simp: image_iff)
    then have "r = m" using Cons.prems(2-4) by auto
    with True Cons.prems(5) show ?thesis by (simp add: upd_rows_Cons rows_of_Cons upd_rows_none [OF none])
  next
    case False
    then have "m \<in> set idx" using Cons.prems(2-4) by auto
    moreover have "distinct (index_keys idx)" using Cons.prems(1) by (simp add: index_keys_def)
    ultimately show ?thesis using Cons.IH Cons.prems(3-5) False by (simp only: upd_rows_Cons rows_of_Cons if_False)
  qed
qed simp

lemma find_append_none: "find p xs = None \<Longrightarrow> find p (xs @ ys) = find p ys"
  by (induction xs) (auto split: if_splits)

text \<open>The upsert for an incoming message: the sender's row exists afterwards, and its count is one
  ahead of the index.\<close>

lemma sender_upsert_bump:
  assumes ok: "profiles_ok d"
    and f: "\<And>s. sn_id (f s) = sn_id s \<and> sn_address (f s) = sn_address s \<and> sn_count (f s) = sn_count s + 1"
    and st: "\<And>s. stats_ok s \<Longrightarrow> stats_ok (f s)"
    and r: "sn_address r = addr" "sn_count r = 1" "stats_ok r"
  shows "\<exists>x. find_sender addr (sender_upsert addr f r d) = Some x \<and>
    rows_ok (sd_senders (sender_upsert addr f r d)) (sd_next_sender (sender_upsert addr f r d)) \<and>
    sn_id ` set (sd_senders d) \<union> {sn_id x} \<subseteq> sn_id ` set (sd_senders (sender_upsert addr f r d)) \<and>
    (\<forall>s\<in>set (sd_senders (sender_upsert addr f r d)). stats_ok s \<and>
       sn_count s = rows_of (sn_id s) (sd_index d) + (if sn_id s = sn_id x then 1 else 0))"
proof -
  let ?d = "sender_upsert addr f r d" and ?p = "\<lambda>s. sn_address s = addr"
  have rows: "rows_ok (sd_senders d) (sd_next_sender d)" and idx: "index_ok (sd_senders d) (sd_index d)"
    and cnt: "counts_ok (sd_senders d) (sd_index d)" using ok by (simp_all add: profiles_ok_def)
  show ?thesis
  proof (cases "list_ex ?p (sd_senders d)")
    case True
    then obtain s0 where s0: "s0 \<in> set (sd_senders d)" "sn_address s0 = addr" by (auto simp: list_ex_iff)
    have ss: "sd_senders ?d = upd_rows ?p f (sd_senders d)" "sd_next_sender ?d = sd_next_sender d"
      using True by (simp_all add: sender_upsert_def)
    have rows': "rows_ok (sd_senders ?d) (sd_next_sender ?d)" unfolding ss by (rule rows_ok_upd [OF rows]) (simp add: f)
    have in_d: "f s0 \<in> set (sd_senders ?d)" using s0 by (auto simp: ss upd_rows_def)
    then have "find_sender addr ?d \<noteq> None" using s0 f by (auto simp: find_sender_def find_None_iff)
    then obtain x where x: "find_sender addr ?d = Some x" by blast
    have "x = f s0"
      using find_sender_Some [OF x] in_d rows' s0(2) f unfolding rows_ok_def by (metis inj_onD distinct_map)
    then have id: "sn_id x = sn_id s0" using f by simp
    have uniq: "s = s0" if "s \<in> set (sd_senders d)" "sn_id s = sn_id s0 \<or> sn_address s = addr" for s
      using that s0 rows unfolding rows_ok_def by (metis inj_onD distinct_map)
    have "stats_ok s \<and> sn_count s = rows_of (sn_id s) (sd_index d) + (if sn_id s = sn_id x then 1 else 0)"
      if s: "s \<in> set (sd_senders ?d)" for s
    proof -
      from s obtain s' where s': "s' \<in> set (sd_senders d)" "s = (if ?p s' then f s' else s')" by (auto simp: ss upd_rows_def)
      have c: "sn_count s' = rows_of (sn_id s') (sd_index d)" "stats_ok s'" using cnt s'(1) unfolding counts_ok_def by blast+
      show ?thesis
      proof (cases "s' = s0")
        case True
        with s'(2) s0(2) c st f id show ?thesis by simp
      next
        case False
        then have "sn_address s' \<noteq> addr" "sn_id s' \<noteq> sn_id s0" using uniq [OF s'(1)] by blast+
        with s'(2) c id show ?thesis by simp
      qed
    qed
    moreover have "sn_id ` set (sd_senders ?d) = sn_id ` set (sd_senders d)" unfolding ss by (rule ids_upd_rows) (simp add: f)
    ultimately show ?thesis using x rows' id s0(1) by auto
  next
    case False
    let ?n = "r\<lparr>sn_id := sd_next_sender d\<rparr>"
    have ss: "sd_senders ?d = sd_senders d @ [?n]" "sd_next_sender ?d = sd_next_sender d + 1"
      using False by (simp_all add: sender_upsert_def)
    have new: "sd_next_sender d \<notin> sn_id ` set (sd_senders d)" by (rule fresh_sender_id [OF rows])
    have x: "find_sender addr ?d = Some ?n"
      using False r(1) by (auto simp: find_sender_def ss list_ex_iff find_append_none find_None_iff)
    have rows': "rows_ok (sd_senders ?d) (sd_next_sender ?d)"
      using rows new False r(1) unfolding ss by (auto simp: rows_ok_def list_ex_iff)
    have "stats_ok s \<and> sn_count s = rows_of (sn_id s) (sd_index d) + (if sn_id s = sn_id ?n then 1 else 0)"
      if s: "s \<in> set (sd_senders ?d)" for s
    proof (cases "s = ?n")
      case True
      have "stats_ok ?n" using r(3) by (simp add: stats_ok_def)
      with True r(2) rows_of_fresh [OF idx new] show ?thesis by simp
    next
      case False
      then have s': "s \<in> set (sd_senders d)" using s by (simp add: ss)
      then have "sn_id s \<noteq> sd_next_sender d" using new by (metis image_eqI)
      then show ?thesis using cnt s' unfolding counts_ok_def by simp
    qed
    then show ?thesis using x rows' by (auto simp: ss)
  qed
qed

lemma sender_upsert_index [simp]: "sd_index (sender_upsert addr f r d) = sd_index d"
  by (simp add: sender_upsert_def)

lemma pass_fail_bounds:
  "pass_fail x = (p, q) \<Longrightarrow> 0 \<le> p \<and> 0 \<le> q \<and> p + q \<le> 1"
  by (auto simp: pass_fail_def split: if_splits)

lemma bool_int_bounds: "0 \<le> bool_int b \<and> bool_int b \<le> 1"
  by (simp add: bool_int_def)

lemma received_update_ok:
  "sn_id (received_update h s) = sn_id s \<and> sn_address (received_update h s) = sn_address s \<and>
   sn_count (received_update h s) = sn_count s + 1"
  by (cases "pass_fail (h_DKIM h)"; cases "pass_fail (h_DMARC h)") (simp add: received_update_def Let_def)

lemma received_update_stats:
  assumes "stats_ok s"
  shows "stats_ok (received_update h s)"
proof -
  obtain kp kf mp mf where pf: "pass_fail (h_DKIM h) = (kp, kf)" "pass_fail (h_DMARC h) = (mp, mf)"
    by (cases "pass_fail (h_DKIM h)", cases "pass_fail (h_DMARC h)")
  note b = bool_int_bounds [of "h_List h"] bool_int_bounds [of "h_Bulk h"] bool_int_bounds [of "h_Auto h"]
    pass_fail_bounds [OF pf(1)] pass_fail_bounds [OF pf(2)]
  have s: "sn_count (received_update h s) = sn_count s + 1" "sn_sent (received_update h s) = sn_sent s"
    "sn_list (received_update h s) = sn_list s + bool_int (h_List h)" "sn_bulk (received_update h s) = sn_bulk s + bool_int (h_Bulk h)"
    "sn_auto (received_update h s) = sn_auto s + bool_int (h_Auto h)" "sn_dkim_pass (received_update h s) = sn_dkim_pass s + kp"
    "sn_dkim_fail (received_update h s) = sn_dkim_fail s + kf" "sn_dmarc_pass (received_update h s) = sn_dmarc_pass s + mp"
    "sn_dmarc_fail (received_update h s) = sn_dmarc_fail s + mf"
    by (simp_all add: received_update_def Let_def pf contact_times_def)
  show ?thesis using assms b unfolding stats_ok_def s by linarith
qed

lemma received_row_ok:
  "sn_address (received_row h) = ad_Addr (h_From h)" "sn_count (received_row h) = 1" "stats_ok (received_row h)"
proof -
  obtain kp kf mp mf where pf: "pass_fail (h_DKIM h) = (kp, kf)" "pass_fail (h_DMARC h) = (mp, mf)"
    by (cases "pass_fail (h_DKIM h)", cases "pass_fail (h_DMARC h)")
  show "sn_address (received_row h) = ad_Addr (h_From h)" "sn_count (received_row h) = 1" "stats_ok (received_row h)"
    using pass_fail_bounds [OF pf(1)] pass_fail_bounds [OF pf(2)]
    by (simp_all add: received_row_def Let_def pf new_sender_row_def stats_ok_def bool_int_def)
qed

lemma profiles_ok_received:
  assumes ok: "profiles_ok d" and m: "m \<in> set (sd_index d)" "im_account m = account" "im_hash m = hash" "im_sender m = None"
  shows "profiles_ok (profile_received account hash h d)"
proof -
  let ?a = "ad_Addr (h_From h)" and ?f = "received_update h" and ?r = "received_row h"
  note bump = sender_upsert_bump [OF ok, where f = ?f and r = ?r and addr = ?a, OF received_update_ok received_update_stats received_row_ok]
  from bump obtain x where x: "find_sender ?a (sender_upsert ?a ?f ?r d) = Some x"
    and rows: "rows_ok (sd_senders (sender_upsert ?a ?f ?r d)) (sd_next_sender (sender_upsert ?a ?f ?r d))"
    and ids: "sn_id ` set (sd_senders d) \<union> {sn_id x} \<subseteq> sn_id ` set (sd_senders (sender_upsert ?a ?f ?r d))"
    and cnt: "\<forall>s\<in>set (sd_senders (sender_upsert ?a ?f ?r d)). stats_ok s \<and>
       sn_count s = rows_of (sn_id s) (sd_index d) + (if sn_id s = sn_id x then 1 else 0)" by auto
  let ?idx = "upd_rows (\<lambda>m. im_account m = account \<and> im_hash m = hash) (\<lambda>m. m\<lparr>im_sender := Some (sn_id x)\<rparr>) (sd_index d)"
  have idx: "distinct (index_keys (sd_index d))" "\<forall>m\<in>set (sd_index d). \<forall>i. im_sender m = Some i \<longrightarrow> i \<in> sn_id ` set (sd_senders d)"
    using ok by (simp_all add: profiles_ok_def index_ok_def)
  have "index_ok (sd_senders (sender_upsert ?a ?f ?r d)) ?idx"
    unfolding index_ok_def
  proof (intro conjI ballI allI impI)
    show "distinct (index_keys ?idx)" using idx(1) by (simp add: keys_upd_rows)
    fix m i assume "m \<in> set ?idx" "im_sender m = Some i"
    then have "i = sn_id x \<or> i \<in> sn_id ` set (sd_senders d)" using idx(2) by (auto simp: upd_rows_def split: if_splits)
    then show "i \<in> sn_id ` set (sd_senders (sender_upsert ?a ?f ?r d))" using ids by blast
  qed
  moreover have "counts_ok (sd_senders (sender_upsert ?a ?f ?r d)) ?idx"
    using cnt rows_of_assign [OF idx(1) m] unfolding counts_ok_def by simp
  ultimately show ?thesis using rows by (simp add: profile_received_def Let_def x upd_index_def profiles_ok_def)
qed

end
