(* ===== verification/Intel_Props.thy ===== *)
theory Intel_Props
  imports Intel_Inv
begin

text \<open>
  What the header scan promises: profiles agree with the index whatever the order of its steps, a
  batch that was read before counts nothing twice, and every reply is paired once.
\<close>

definition scan_ok :: "state_db \<Rightarrow> bool" where
  "scan_ok d \<longleftrightarrow> profiles_ok d \<and> findings_ok d"

lemma scan_okI: "profiles_ok d \<Longrightarrow> findings_ok d \<Longrightarrow> scan_ok d"
  by (simp add: scan_ok_def)

text \<open>An operation that touches neither the profiles and the index nor the findings.\<close>

definition same_tables :: "state_db \<Rightarrow> state_db \<Rightarrow> bool" where
  "same_tables d d' \<longleftrightarrow> same_profiles d d' \<and> sd_anomalies d' = sd_anomalies d \<and> sd_next_anomaly d' = sd_next_anomaly d"

lemma scan_ok_same: "same_tables d d' \<Longrightarrow> scan_ok d \<Longrightarrow> scan_ok d'"
  unfolding same_tables_def scan_ok_def
  by (metis same_profilesD findings_ok_cong)

lemma same_tables_ops:
  "same_tables d (owner_name n d)" "same_tables d (thread_msg hf account folder hash h outgoing own d)"
  "same_tables d (finish_batch e v b d)" "same_tables d (reset_folder account folder v d)"
  by (simp_all add: same_tables_def owner_name_same thread_msg_same finish_batch_same reset_folder_same)
     (simp_all add: owner_name_def thread_msg_def put_thread_def finish_batch_def reset_folder_def Let_def split: option.split)

section \<open>Each operation keeps the invariant\<close>

lemma upd_index_sel [simp]:
  "sd_senders (upd_index a k f d) = sd_senders d" "sd_next_sender (upd_index a k f d) = sd_next_sender d"
  "sd_anomalies (upd_index a k f d) = sd_anomalies d" "sd_next_anomaly (upd_index a k f d) = sd_next_anomaly d"
  by (simp_all add: upd_index_def)

text \<open>Updates of index rows that keep key and sender.\<close>

lemma rows_of_upd: "(\<And>m. im_sender (f m) = im_sender m) \<Longrightarrow> rows_of i (upd_rows p f idx) = rows_of i idx"
  by (induction idx) (simp_all add: upd_rows_Cons rows_of_Cons, simp add: upd_rows_def)

lemma scan_ok_index:
  assumes ok: "scan_ok d" and f: "\<And>m. im_account (f m) = im_account m \<and> im_hash (f m) = im_hash m \<and> im_sender (f m) = im_sender m"
    and d': "sd_senders d' = sd_senders d" "sd_next_sender d' = sd_next_sender d" "sd_index d' = upd_rows p f (sd_index d)"
      "sd_anomalies d' = sd_anomalies d" "sd_next_anomaly d' = sd_next_anomaly d"
  shows "scan_ok d'"
proof (rule scan_okI)
  have keys: "index_keys (upd_rows p f (sd_index d)) = index_keys (sd_index d)" by (rule keys_upd_rows) (simp add: f)
  have snd: "\<forall>m\<in>set (upd_rows p f (sd_index d)). \<forall>i. im_sender m = Some i \<longrightarrow> i \<in> sn_id ` set (sd_senders d)"
    using ok f by (auto simp: scan_ok_def profiles_ok_def index_ok_def upd_rows_def)
  have "rows_of i (upd_rows p f (sd_index d)) = rows_of i (sd_index d)" for i by (rule rows_of_upd) (simp add: f)
  then show "profiles_ok d'" using ok keys snd
    unfolding profiles_ok_def scan_ok_def d' index_ok_def counts_ok_def by simp
  show "findings_ok d'" using ok findings_ok_cong [OF d'(4,5)] by (simp add: scan_ok_def)
qed

lemma scan_ok_senders:
  assumes ok: "scan_ok d" and f: "\<And>s. sn_id (f s) = sn_id s \<and> sn_address (f s) = sn_address s \<and> sn_count (f s) = sn_count s"
    and st: "\<And>s. stats_ok s \<Longrightarrow> stats_ok (f s)"
    and d': "sd_senders d' = upd_rows p f (sd_senders d)" "sd_next_sender d' = sd_next_sender d" "sd_index d' = sd_index d"
      "sd_anomalies d' = sd_anomalies d" "sd_next_anomaly d' = sd_next_anomaly d"
  shows "scan_ok d'"
  using ok profiles_ok_upd [OF _ f st d'(1-3)] findings_ok_cong [OF d'(4,5)] by (simp add: scan_ok_def)

lemma rescue_ok:
  assumes ok: "scan_ok d" and i: "i \<in> sn_id ` set (sd_senders d)"
  shows "\<exists>d'. rescue account i d = Some d' \<and> scan_ok d' \<and> sd_index d' = sd_index d"
proof -
  have "find (\<lambda>s. sn_id s = i) (sd_senders d) \<noteq> None" using i by (auto simp: find_None_iff)
  then obtain s d' where r: "find (\<lambda>s. sn_id s = i) (sd_senders d) = Some s" "rescue account i d = Some d'"
    by (auto simp: rescue_def)
  then have d': "sd_senders d' = upd_rows (\<lambda>x. sn_address x = sn_address s) (\<lambda>x. x\<lparr>sn_trusted := True\<rparr>) (sd_senders d)"
    "sd_next_sender d' = sd_next_sender d" "sd_index d' = sd_index d" "sd_next_anomaly d' = sd_next_anomaly d"
    "sd_anomalies d' = upd_rows (\<lambda>a. an_sender a = sn_address s \<and> \<not> an_resolved a)
       (\<lambda>a. a\<lparr>an_resolved := True, an_resolved_at := (case an_resolved_at a of None \<Rightarrow> Some (sd_now d) | x \<Rightarrow> x)\<rparr>) (sd_anomalies d)"
    by (auto simp: rescue_def)
  have "profiles_ok d'"
    by (rule profiles_ok_upd [OF _ _ _ d'(1-3)]) (use ok in \<open>simp_all add: scan_ok_def stats_ok_def\<close>)
  moreover have "findings_ok d'"
    by (rule resolve_rows_ok [OF _ d'(5,4)]) (use ok in \<open>simp_all add: scan_ok_def\<close>)
  ultimately show ?thesis using r(2) d'(3) by (simp add: scan_ok_def)
qed

lemma locate_ok:
  assumes ok: "scan_ok d"
  shows "\<exists>d'. locate account hash folder k d = Some d' \<and> scan_ok d'"
proof (cases "find_index account hash d")
  case None
  then show ?thesis using ok by (simp add: locate_def)
next
  case (Some m)
  let ?d = "upd_index account hash (\<lambda>r. r\<lparr>im_folder := Some folder\<rparr>) d"
  have upd: "scan_ok ?d"
    by (rule scan_ok_index [OF ok, where f = "\<lambda>r. r\<lparr>im_folder := Some folder\<rparr>"]) (simp_all add: upd_index_def)
  have "i \<in> sn_id ` set (sd_senders ?d)" if "im_sender m = Some i" for i
    using find_index_Some [OF Some] ok that by (auto simp: scan_ok_def profiles_ok_def index_ok_def)
  then have r: "\<exists>d'. rescue account i ?d = Some d' \<and> scan_ok d'" if "im_sender m = Some i" for i
    using rescue_ok [OF upd] that by blast
  show ?thesis
  proof (cases "im_folder m = Some folder \<or> (im_folder m = None \<and> folder = [])")
    case True
    then show ?thesis using Some ok by (simp add: locate_def)
  next
    case False
    then have loc: "locate account hash folder k d =
        (case (im_folder m, im_sender m) of
           (Some prev, Some s) \<Rightarrow> (if rescue_from k prev \<and> \<not> fk_discard k folder then rescue account s ?d else Some ?d)
         | _ \<Rightarrow> Some ?d)"
      unfolding locate_def Some Let_def option.case(2) by (rule if_not_P)
    show ?thesis
      by (cases "im_folder m"; cases "im_sender m") (use upd r in \<open>simp_all add: loc\<close>)
  qed
qed

lemma index_new_ok:
  assumes ok: "scan_ok d" and new: "find_index (se_account e) hash d = None"
  shows "scan_ok (snd (index_new e hash h outgoing d))"
proof -
  let ?row = "index_row (se_hash e) (se_account e) (se_folder e) hash h outgoing"
  let ?d1 = "d\<lparr>sd_index := sd_index d @ [?row]\<rparr>"
  let ?d2 = "if outgoing \<and> ad_Name (h_From h) \<noteq> [] then owner_name (ad_Name (h_From h)) ?d1 else ?d1"
  let ?c = "check_message (se_det e) (se_cfg e) (se_account e) (se_folder e) h (se_own e) ?d2"
  have row: "im_account ?row = se_account e" "im_hash ?row = hash" "im_sender ?row = None"
    by (simp_all add: index_row_def)
  have p1: "profiles_ok ?d1"
    by (rule profiles_ok_index_add) (use ok new in \<open>simp_all add: scan_ok_def row find_index_key\<close>)
  have f1: "findings_ok ?d1" using ok findings_ok_cong [of ?d1 d] by (simp add: scan_ok_def)
  have s2: "same_tables ?d1 ?d2" using same_tables_ops(1) [of ?d1] by (auto simp: same_tables_def)
  have ok2: "scan_ok ?d2" by (rule scan_ok_same [OF s2]) (simp add: scan_ok_def p1 f1)
  have same3: "same_profiles ?d2 (snd ?c)" by (rule check_message_same)
  have p3: "profiles_ok (snd ?c)" using ok2 same_profilesD [OF same3] by (simp add: scan_ok_def)
  have f3: "findings_ok (snd ?c)" using ok2 check_message_ok by (simp add: scan_ok_def)
  have idx: "?row \<in> set (sd_index (snd ?c))"
    using same3 s2 by (simp add: same_profiles_def same_tables_def)
  have "profiles_ok (profile (se_account e) hash h outgoing (se_own e) (snd ?c))"
    unfolding profile_def using profiles_ok_recipients [OF p3] profiles_ok_received [OF p3 idx row]
    by (cases outgoing) (simp_all only: if_True if_False)
  moreover have "findings_ok (profile (se_account e) hash h outgoing (se_own e) (snd ?c))"
  proof -
    have up: "sd_anomalies (sender_upsert a f r x) = sd_anomalies x" "sd_next_anomaly (sender_upsert a f r x) = sd_next_anomaly x"
      for a f r x by (simp_all add: sender_upsert_def)
    have "sd_anomalies (profile_recipients t own seen as x) = sd_anomalies x \<and>
        sd_next_anomaly (profile_recipients t own seen as x) = sd_next_anomaly x" for t own seen as x
      by (induction t own seen as x rule: profile_recipients.induct) (simp_all add: profile_sent_def up)
    then show ?thesis using f3 by (intro findings_ok_cong [THEN iffD2, OF _ _ f3])
        (simp_all add: profile_def profile_received_def Let_def up)
  qed
  moreover have "snd (index_new e hash h outgoing d) = profile (se_account e) hash h outgoing (se_own e) (snd ?c)"
    by (simp add: index_new_def Let_def split: prod.split)
  ultimately show ?thesis by (simp add: scan_ok_def)
qed

lemma apply_header_ok:
  assumes ok: "scan_ok d"
  shows "\<exists>res' d'. apply_header e h (res, d) = Some (res', d') \<and> scan_ok d'"
proof -
  let ?hash = "index_key (se_hash e) (se_folder e) h" and ?out = "own_has (se_own e) (ad_Addr (h_From h))"
  show ?thesis
  proof (cases "find_index (se_account e) ?hash d = None")
    case True
    obtain ids d1 where n: "index_new e ?hash h ?out d = (ids, d1)" by (cases "index_new e ?hash h ?out d")
    have "scan_ok d1" using index_new_ok [OF ok True, of h ?out] by (simp add: n)
    then show ?thesis using True n ok scan_ok_same [OF same_tables_ops(2)]
      by (auto simp: apply_header_def Let_def)
  next
    case False
    obtain d1 where "locate (se_account e) ?hash (se_folder e) (se_kinds e) d = Some d1" "scan_ok d1"
      using locate_ok [OF ok] by blast
    then show ?thesis using False ok scan_ok_same [OF same_tables_ops(2)]
      by (auto simp: apply_header_def Let_def)
  qed
qed

lemma apply_headers_ok: "scan_ok d \<Longrightarrow> \<exists>res' d'. apply_headers e hs (res, d) = Some (res', d') \<and> scan_ok d'"
proof (induction hs arbitrary: res d)
  case (Cons h hs)
  from apply_header_ok [OF Cons.prems] obtain r1 d1 where "apply_header e h (res, d) = Some (r1, d1)" "scan_ok d1" by blast
  with Cons.IH [of d1 r1] show ?case by simp
qed simp

lemma apply_batch_ok: "scan_ok d \<Longrightarrow> \<exists>res d'. apply_batch e v b d = Some (res, d') \<and> scan_ok d'"
  using apply_headers_ok [of d e "b_Headers b" no_applied] scan_ok_same [OF same_tables_ops(3)]
  by (auto simp: apply_batch_def)

lemma scan_folder_ok: "scan_ok d \<Longrightarrow> scan_ok (scan_folder e v srcs after d)"
proof (induction e v srcs after d rule: scan_folder.induct)
  case (2 e v src srcs after d)
  show ?case
  proof (cases "src after")
    case None
    then show ?thesis using 2 by simp
  next
    case (Some b)
    obtain res d' where "apply_batch e (b_UIDValidity b) b d = Some (res, d')" "scan_ok d'"
      using apply_batch_ok [OF "2.prems"] by blast
    note b = this
    show ?thesis
    proof (cases "v \<noteq> 0 \<and> b_UIDValidity b \<noteq> v")
      case True
      have "scan_ok (reset_folder (se_account e) (se_folder e) (b_UIDValidity b) d)"
        by (rule scan_ok_same [OF same_tables_ops(4) "2.prems"])
      then show ?thesis using "2.IH"(1) [OF Some True] Some True by simp
    next
      case False
      have "scan_ok (scan_folder e (b_UIDValidity b) srcs (if b_Headers b = [] then after else h_UID (last (b_Headers b))) d')"
        if "b_More b"
        by (rule "2.IH"(2) [OF Some False b(1) refl that]) (rule b(2))
      moreover have "scan_folder e v (src # srcs) after d =
          (if b_More b then scan_folder e (b_UIDValidity b) srcs (if b_Headers b = [] then after else h_UID (last (b_Headers b))) d' else d')"
        by (simp only: scan_folder.simps Some option.case if_not_P [OF False] b(1) prod.case)
      ultimately show ?thesis using b(2) by simp
    qed
  qed
qed simp

end
