(* ===== verification/Roles.thy ===== *)
theory Roles
  imports Anomaly
begin

text \<open>
  Sender roles (\<open>internal/intel/roles.go\<close>): roles from header signals and classification tags, the
  recomputation of changed senders in batches, and the model pass over senders that stay unknown.
  Calls of the classify model are a parameter, as is \<open>json.Unmarshal\<close> of its answer; SQL errors are
  not modelled. An empty tag stands for a NULL one.
\<close>

section \<open>Signals and tags\<close>

definition noReplyLocal :: "string list" where
  "noReplyLocal = [''noreply'', ''no-reply'', ''no_reply'', ''donotreply'', ''do-not-reply'', ''do_not_reply'',
     ''mailer-daemon'', ''postmaster'', ''bounce'', ''bounces'', ''notifications'', ''notification'', ''alerts'', ''automated'']"

definition IsNoReply :: "string \<Rightarrow> bool" where
  "IsNoReply addr =
     (let l = to_lower addr; local = (case cut_at CHR ''@'' l of None \<Rightarrow> l | Some (a, b) \<Rightarrow> a) in
      list_ex (\<lambda>p. local = p \<or> has_prefix local (p @ ''+'') \<or> has_prefix local (p @ ''.'') \<or> has_suffix local (CHR ''-'' # p)) noReplyLocal)"

definition signalRole :: "sender_row \<Rightarrow> string list \<Rightarrow> string \<times> string" where
  "signalRole s own =
     (if sn_count s > 0 \<and> sn_list s + sn_bulk s > 0 \<and> (sn_list s + sn_bulk s) * 2 \<ge> sn_count s then (''newsletter'', ''signal:list'')
      else if sn_count s > 0 \<and> sn_auto s > 0 \<and> sn_auto s * 2 \<ge> sn_count s then (''bot'', ''signal:auto-submitted'')
      else if IsNoReply (sn_address s) then (''bot'', ''signal:noreply'')
      else if sn_sent s > 0 then
        (if sn_domain s \<in> set own \<and> sn_domain s \<notin> set webmailDomains then (''colleague'', ''signal:sent-to'')
         else (''personal'', ''signal:sent-to''))
      else (''unknown'', []))"

definition hallRole :: "string \<Rightarrow> string" where
  "hallRole hall =
     (if hall = ''newsletter'' then ''newsletter''
      else if hall = ''transactional'' then ''vendor''
      else if hall = ''notification'' \<or> hall = ''alert'' then ''bot''
      else if hall = ''personal'' \<or> hall = ''conversation'' then ''personal''
      else ''unknown'')"

text \<open>The most frequent tag of a list; SQLite leaves the order of ties open, here the first in
  alphabetical order wins.\<close>

definition top_hall :: "string list \<Rightarrow> string option" where
  "top_hall hs =
     (case sort_key (\<lambda>h. - int (length (filter (\<lambda>x. x = h) hs))) (sort (remdups hs)) of [] \<Rightarrow> None | h # _ \<Rightarrow> Some h)"

definition majority_hall :: "msg_row list option \<Rightarrow> string \<Rightarrow> string option" where
  "majority_hall cache addr =
     (case cache of
        None \<Rightarrow> None
      | Some ms \<Rightarrow> top_hall (map m_hall (filter (\<lambda>m. to_lower (m_from_addr m) = addr \<and> m_hall m \<noteq> [] \<and> m_hall m \<noteq> ''unclassified'') ms)))"

section \<open>Recomputing the changed senders\<close>

definition roleBatch :: nat where "roleBatch = 500"

text \<open>Signals first, then the tags, then an earlier answer of the model.\<close>

definition assign_role :: "string list \<Rightarrow> msg_row list option \<Rightarrow> sender_row \<Rightarrow> string \<times> string" where
  "assign_role own cache s =
     (let (role, source) = signalRole s own;
          r = (case majority_hall cache (sn_address s) of None \<Rightarrow> ''unknown'' | Some h \<Rightarrow> hallRole h);
          (role, source) = (if role = ''unknown'' \<and> r \<noteq> ''unknown'' then (r, ''hall'') else (role, source))
      in if role = ''unknown'' \<and> sn_role_source s = ''llm'' then (sn_role s, sn_role_source s) else (role, source))"

text \<open>The update of the rows with the id of a sender of the batch; the owner's own address keeps its role.\<close>

definition write_role :: "string list \<Rightarrow> msg_row list option \<Rightarrow> sender_row \<Rightarrow> sender_row list \<Rightarrow> sender_row list" where
  "write_role own cache s ss =
     upd_rows (\<lambda>r. sn_id r = sn_id s)
       (\<lambda>r. if sn_role_source s = ''identity'' then r\<lparr>sn_dirty := False\<rparr>
            else (case assign_role own cache s of (role, source) \<Rightarrow> r\<lparr>sn_role := role, sn_role_source := source, sn_dirty := False\<rparr>)) ss"

definition dirty_batch :: "sender_row list \<Rightarrow> sender_row list" where
  "dirty_batch ss = take roleBatch (filter sn_dirty ss)"

definition write_batch :: "string list \<Rightarrow> msg_row list option \<Rightarrow> sender_row list \<Rightarrow> sender_row list" where
  "write_batch own cache ss = fold (write_role own cache) (dirty_batch ss) ss"

lemma dirty_write_role: "length (filter sn_dirty (write_role own cache s ss)) \<le> length (filter sn_dirty ss)"
  by (induction ss) (auto simp: write_role_def upd_rows_def split: prod.split)

lemma dirty_write_role_less:
  "s \<in> set ss \<Longrightarrow> sn_dirty s \<Longrightarrow> length (filter sn_dirty (write_role own cache s ss)) < length (filter sn_dirty ss)"
proof (induction ss)
  case (Cons r ss)
  have keep: "length (filter sn_dirty (write_role own cache s ss)) \<le> length (filter sn_dirty ss)" by (rule dirty_write_role)
  have split: "write_role own cache s (r # ss) = hd (write_role own cache s [r]) # write_role own cache s ss"
    by (simp add: write_role_def upd_rows_def)
  show ?case
  proof (cases "s = r")
    case True
    then have "\<not> sn_dirty (hd (write_role own cache s [r]))" by (auto simp: write_role_def upd_rows_def split: prod.split)
    then show ?thesis using True Cons.prems(2) keep split by simp
  next
    case False
    then have "length (filter sn_dirty (write_role own cache s ss)) < length (filter sn_dirty ss)" using Cons by simp
    moreover have "sn_dirty (hd (write_role own cache s [r])) \<Longrightarrow> sn_dirty r"
      by (auto simp: write_role_def upd_rows_def split: if_splits prod.splits)
    ultimately show ?thesis using split by simp
  qed
qed simp

lemma dirty_write_batch: "dirty_batch ss \<noteq> [] \<Longrightarrow> length (filter sn_dirty (write_batch own cache ss)) < length (filter sn_dirty ss)"
proof -
  assume "dirty_batch ss \<noteq> []"
  then obtain s bs where b: "dirty_batch ss = s # bs" by (cases "dirty_batch ss") auto
  then have "s \<in> set (filter sn_dirty ss)" by (metis dirty_batch_def in_set_takeD list.set_intros(1))
  then have s: "length (filter sn_dirty (write_role own cache s ss)) < length (filter sn_dirty ss)"
    by (intro dirty_write_role_less) auto
  have "length (filter sn_dirty (fold (write_role own cache) bs xs)) \<le> length (filter sn_dirty xs)" for bs xs
    by (induction bs arbitrary: xs) (auto intro: order_trans [OF _ dirty_write_role])
  from order_le_less_trans [OF this s] show ?thesis by (simp add: write_batch_def b)
qed

text \<open>The loop of \<open>recomputeRoles\<close> and the number of senders it went through.\<close>

function recompute_loop :: "string list \<Rightarrow> msg_row list option \<Rightarrow> nat \<Rightarrow> sender_row list \<Rightarrow> nat \<times> sender_row list" where
  "recompute_loop own cache n ss =
     (if dirty_batch ss = [] then (n, ss)
      else recompute_loop own cache (n + length (dirty_batch ss)) (write_batch own cache ss))"
  by pat_completeness auto
termination
  by (relation "measure (\<lambda>(own, cache, n, ss). length (filter sn_dirty ss))") (auto simp: dirty_write_batch)

declare recompute_loop.simps [simp del]

definition recompute_roles :: "string list \<Rightarrow> msg_row list option \<Rightarrow> state_db \<Rightarrow> nat \<times> state_db" where
  "recompute_roles own cache d = (let (n, ss) = recompute_loop own cache 0 (sd_senders d) in (n, d\<lparr>sd_senders := ss\<rparr>))"

section \<open>The model pass\<close>

datatype model_answer = ModelGated | ModelFailed | ModelAnswer string

definition llmRetryAfter :: int where "llmRetryAfter = 7 * 24 * 3600"

text \<open>The senders of the cached mail, those with most of it first.\<close>

definition cached_senders :: "msg_row list \<Rightarrow> string list" where
  "cached_senders ms =
     (let as = map (\<lambda>m. to_lower (m_from_addr m)) ms in
      take 2000 (sort_key (\<lambda>a. - int (length (filter (\<lambda>x. x = a) as))) (sort (remdups as))))"

definition unplaced :: "int \<Rightarrow> sender_row \<Rightarrow> bool" where
  "unplaced retry s = (sn_role s = ''unknown'' \<and> (case sn_role_checked s of None \<Rightarrow> True | Some t \<Rightarrow> t < retry))"

definition role_candidates :: "int \<Rightarrow> nat \<Rightarrow> msg_row list \<Rightarrow> state_db \<Rightarrow> sender_row list" where
  "role_candidates retry perTick ms d =
     take (perTick * 2) (concat (map (\<lambda>a. case find_sender a d of
        None \<Rightarrow> [] | Some s \<Rightarrow> if unplaced retry s then [s] else []) (cached_senders ms)))"

definition recent_subjects :: "msg_row list \<Rightarrow> string \<Rightarrow> nat \<Rightarrow> string list" where
  "recent_subjects ms addr n =
     filter (\<lambda>s. trim_space s \<noteq> []) (map m_subject (take n (sort_key (\<lambda>m. - m_internal_date m)
       (filter (\<lambda>m. to_lower (m_from_addr m) = addr) ms))))"

definition rolePrompt :: "string \<Rightarrow> string \<Rightarrow> string list \<Rightarrow> string" where
  "rolePrompt addr name subjects =
     (let nl = [newline_char]; q = [CHR 0x22] in
      ''Classify this email sender'' @ [CHR 0x27] @ ''s relationship to the mailbox owner.'' @ nl @
      ''Reply with JSON only: {'' @ q @ ''role'' @ q @ '': '' @ q @ ''<colleague|vendor|newsletter|bot|personal>'' @ q @ ''}'' @ nl @
      ''colleague = works with the owner; vendor = a company the owner buys from or uses; '' @
      ''newsletter = mailing list or marketing; bot = automated notifications; personal = friends or family.'' @ nl @ nl @
      ''Sender: '' @ (if name \<noteq> [] then name @ '' '' else []) @ ''<'' @ addr @ ''>'' @ nl @ ''Recent subjects:'' @ nl @
      concat (map (\<lambda>s. ''- '' @ map (\<lambda>c. if c = newline_char then CHR '' '' else c) (utf8_prefix 200 s) @ nl) subjects))"

definition modelled_roles :: "string list" where
  "modelled_roles = [''colleague'', ''vendor'', ''newsletter'', ''bot'', ''personal'']"

text \<open>\<open>jr\<close> is \<open>json.Unmarshal\<close> into a struct with the field role.\<close>

definition after_think :: "string \<Rightarrow> string" where
  "after_think a = (case last_index a ''</think>'' of None \<Rightarrow> a | Some i \<Rightarrow> drop (i + length ''</think>'') a)"

definition parseRole :: "(string \<Rightarrow> string option) \<Rightarrow> string \<Rightarrow> string" where
  "parseRole jr answer0 =
     (let answer = after_think answer0 in
      case (str_index answer ''{'', last_index_char answer CHR ''}'') of
        (Some i, Some j) \<Rightarrow>
          (if j \<le> i then ''unknown''
           else (case jr (drop i (take (j + 1) answer)) of
               None \<Rightarrow> ''unknown''
             | Some v \<Rightarrow> (let r = to_lower (trim_space v) in if r \<in> set modelled_roles then r else ''unknown'')))
      | _ \<Rightarrow> ''unknown'')"

definition model_outcome :: "(string \<Rightarrow> string option) \<Rightarrow> model_answer \<Rightarrow> string \<times> string" where
  "model_outcome jr a =
     (case a of
        ModelAnswer t \<Rightarrow> (if parseRole jr t \<noteq> ''unknown'' then (parseRole jr t, ''llm'') else (''unknown'', ''llm:none''))
      | _ \<Rightarrow> (''unknown'', ''llm:error''))"

definition write_answer :: "int \<Rightarrow> sender_row \<Rightarrow> string \<times> string \<Rightarrow> state_db \<Rightarrow> state_db" where
  "write_answer now s rs d =
     d\<lparr>sd_senders := upd_rows (\<lambda>r. sn_id r = sn_id s)
        (\<lambda>r. r\<lparr>sn_role := fst rs, sn_role_source := snd rs, sn_role_checked := Some now\<rparr>) (sd_senders d)\<rparr>"

text \<open>\<open>ask k p\<close> is the answer to the \<open>k\<close>-th call; the prompts sent are returned.\<close>

fun ask_models ::
  "(nat \<Rightarrow> string \<Rightarrow> model_answer) \<Rightarrow> (string \<Rightarrow> string option) \<Rightarrow> msg_row list \<Rightarrow> int \<Rightarrow> nat \<Rightarrow> string list \<Rightarrow>
     sender_row list \<Rightarrow> state_db \<Rightarrow> string list \<times> state_db" where
  "ask_models ask jr ms now perTick sent [] d = (sent, d)"
| "ask_models ask jr ms now perTick sent (c # cs) d =
     (if perTick \<le> length sent then (sent, d)
      else (let subjects = recent_subjects ms (sn_address c) 5; p = rolePrompt (sn_address c) (sn_name c) subjects in
            if subjects = [] then ask_models ask jr ms now perTick sent cs d
            else if ask (length sent) p = ModelGated then (sent, d)
            else ask_models ask jr ms now perTick (sent @ [p]) cs (write_answer now c (model_outcome jr (ask (length sent) p)) d)))"

definition model_roles ::
  "(nat \<Rightarrow> string \<Rightarrow> model_answer) option \<Rightarrow> (string \<Rightarrow> string option) \<Rightarrow> msg_row list option \<Rightarrow> nat \<Rightarrow> state_db \<Rightarrow>
     string list \<times> state_db" where
  "model_roles classify jr cache perTick d =
     (case (classify, cache) of
        (Some ask, Some ms) \<Rightarrow>
          (if perTick = 0 then ([], d)
           else ask_models ask jr ms (sd_now d) perTick [] (role_candidates (sd_now d - llmRetryAfter) perTick ms d) d)
      | _ \<Rightarrow> ([], d))"

end
