(* ===== verification/Roles_Props.thy ===== *)
theory Roles_Props
  imports Roles Intel_Props
begin

text \<open>
  What the role passes promise: the batched recomputation assigns to every changed sender exactly the
  role of the specification, and the model pass touches only senders that nothing else places.
\<close>

section \<open>Recomputation, one sender at a time\<close>

text \<open>The specification: what a changed sender becomes, the first source that knows.\<close>

definition deciding_source :: "string list \<Rightarrow> msg_row list option \<Rightarrow> sender_row \<Rightarrow> string \<times> string" where
  "deciding_source own cache s =
     (case find (\<lambda>(role, source). role \<noteq> ''unknown'')
        [signalRole s own, (case majority_hall cache (sn_address s) of None \<Rightarrow> (''unknown'', []) | Some h \<Rightarrow> (hallRole h, ''hall''))] of
        Some x \<Rightarrow> x
      | None \<Rightarrow> (if sn_role_source s = ''llm'' then (sn_role s, ''llm'') else (''unknown'', [])))"

lemma signalRole_unknown: "signalRole s own = (''unknown'', source) \<Longrightarrow> source = []"
  by (simp add: signalRole_def split: if_splits)

lemma assign_role_decides: "assign_role own cache s = deciding_source own cache s"
proof (cases "signalRole s own")
  case (Pair role source)
  then show ?thesis using signalRole_unknown [of s own source]
    by (cases "majority_hall cache (sn_address s)")
      (simp_all add: assign_role_def deciding_source_def Let_def del: One_nat_def)
qed

definition settled_role :: "string list \<Rightarrow> msg_row list option \<Rightarrow> sender_row \<Rightarrow> sender_row" where
  "settled_role own cache s =
     (if \<not> sn_dirty s then s
      else if sn_role_source s = ''identity'' then s\<lparr>sn_dirty := False\<rparr>
      else (case deciding_source own cache s of (role, source) \<Rightarrow> s\<lparr>sn_role := role, sn_role_source := source, sn_dirty := False\<rparr>))"

lemma settled_role_sel [simp]:
  "sn_id (settled_role own cache s) = sn_id s" "sn_address (settled_role own cache s) = sn_address s"
  "\<not> sn_dirty (settled_role own cache s)"
  by (simp_all add: settled_role_def split: prod.split)

lemma settled_role_twice [simp]: "settled_role own cache (settled_role own cache s) = settled_role own cache s"
  by (subst settled_role_def) simp

definition settle_these :: "string list \<Rightarrow> msg_row list option \<Rightarrow> sender_row list \<Rightarrow> sender_row list \<Rightarrow> sender_row list" where
  "settle_these own cache bs ss = map (\<lambda>r. if r \<in> set bs then settled_role own cache r else r) ss"

lemma same_row: "distinct (map sn_id ss) \<Longrightarrow> r \<in> set ss \<Longrightarrow> s \<in> set ss \<Longrightarrow> sn_id r = sn_id s \<Longrightarrow> r = s"
  by (metis distinct_map inj_onD)

lemma write_role_settles:
  assumes "distinct (map sn_id ss)" "s \<in> set ss" "sn_dirty s"
  shows "write_role own cache s ss = settle_these own cache [s] ss"
proof -
  have "(sn_id r = sn_id s) = (r = s)" if "r \<in> set ss" for r using same_row [OF assms(1) that assms(2)] by blast
  then show ?thesis using assms(3)
    by (auto simp: write_role_def upd_rows_def settle_these_def settled_role_def assign_role_decides split: prod.split)
qed

lemma settle_these_ids: "map sn_id (settle_these own cache bs ss) = map sn_id ss"
  by (auto simp: settle_these_def)

lemma write_roles_settle:
  assumes "distinct (map sn_id ss)" "set bs \<subseteq> set ss" "distinct bs" "\<forall>b\<in>set bs. sn_dirty b"
  shows "fold (write_role own cache) bs ss = settle_these own cache bs ss"
  using assms
proof (induction bs arbitrary: ss)
  case Nil
  then show ?case by (simp add: settle_these_def)
next
  case (Cons b bs)
  let ?ss = "settle_these own cache [b] ss"
  have w: "write_role own cache b ss = ?ss" using Cons.prems by (intro write_role_settles) auto
  have sub: "set bs \<subseteq> set ?ss" using Cons.prems(2,3) by (force simp: settle_these_def)
  have "fold (write_role own cache) bs ?ss = settle_these own cache bs ?ss"
    using Cons.prems sub settle_these_ids [of own cache "[b]" ss] by (intro Cons.IH) auto
  also have "\<dots> = settle_these own cache (b # bs) ss"
  proof -
    have "settled_role own cache b \<notin> set bs"
    proof
      assume "settled_role own cache b \<in> set bs"
      then have "settled_role own cache b \<in> set (b # bs)" by simp
      then show False using bspec [OF Cons.prems(4)] settled_role_sel(3) by blast
    qed
    then show ?thesis by (auto simp: settle_these_def)
  qed
  finally show ?case by (simp add: w)
qed

lemma dirty_batch_props:
  assumes "distinct (map sn_id ss)"
  shows "set (dirty_batch ss) \<subseteq> set ss" "distinct (dirty_batch ss)" "\<forall>b\<in>set (dirty_batch ss). sn_dirty b"
  using assms by (auto simp: dirty_batch_def distinct_map dest: in_set_takeD intro: distinct_take)

lemma write_batch_settles:
  "distinct (map sn_id ss) \<Longrightarrow> write_batch own cache ss = settle_these own cache (dirty_batch ss) ss"
  unfolding write_batch_def by (intro write_roles_settle dirty_batch_props)

lemma write_batch_count:
  assumes "distinct (map sn_id ss)"
  shows "length (filter sn_dirty (write_batch own cache ss)) + length (dirty_batch ss) = length (filter sn_dirty ss)"
proof -
  let ?b = "dirty_batch ss"
  note p = dirty_batch_props [OF assms]
  have "distinct ss" using assms by (simp add: distinct_map)
  then have "set (filter (\<lambda>r. r \<in> set ?b) ss) = set ?b" "distinct (filter (\<lambda>r. r \<in> set ?b) ss)" using p(1) by auto
  then have b: "length (filter (\<lambda>r. r \<in> set ?b) ss) = length ?b" using p(2) by (metis distinct_card)
  have "length (filter sn_dirty (settle_these own cache bs ss)) + length (filter (\<lambda>r. r \<in> set bs) ss) = length (filter sn_dirty ss)"
    if "\<forall>b\<in>set bs. sn_dirty b" for bs
    using that by (induction ss) (auto simp: settle_these_def)
  then show ?thesis using p(3) b by (metis write_batch_settles [OF assms])
qed

lemma recompute_loop_settles:
  "distinct (map sn_id ss) \<Longrightarrow>
   recompute_loop own cache n ss = (n + length (filter sn_dirty ss), map (settled_role own cache) ss)"
proof (induction own cache n ss rule: recompute_loop.induct)
  case (1 own cache n ss)
  show ?case
  proof (cases "dirty_batch ss = []")
    case True
    then have none: "filter sn_dirty ss = []" by (simp add: dirty_batch_def roleBatch_def)
    then have "\<not> sn_dirty r" if "r \<in> set ss" for r using that by (metis filter_empty_conv)
    then have "map (settled_role own cache) ss = ss" by (intro map_idI) (simp add: settled_role_def)
    then show ?thesis using True none by (simp add: recompute_loop.simps)
  next
    case False
    have w: "write_batch own cache ss = settle_these own cache (dirty_batch ss) ss" by (rule write_batch_settles [OF "1.prems"])
    have "recompute_loop own cache n ss = recompute_loop own cache (n + length (dirty_batch ss)) (write_batch own cache ss)"
      using False by (subst recompute_loop.simps) simp
    also have "\<dots> = (n + length (dirty_batch ss) + length (filter sn_dirty (write_batch own cache ss)),
        map (settled_role own cache) (write_batch own cache ss))"
      using 1 False w by (simp add: settle_these_ids)
    also have "map (settled_role own cache) (write_batch own cache ss) = map (settled_role own cache) ss"
      by (simp add: w settle_these_def)
    finally show ?thesis using write_batch_count [OF "1.prems", of own cache] by simp
  qed
qed

text \<open>C25: The recomputation in batches of five hundred refines the specification that settles every
  changed sender on its own: it ends, goes through each changed sender once, gives it the role of its
  signals, else of its tags, else the model's earlier one, leaves the owner's identity rows their role
  and all other rows alone.\<close>
theorem recompute_refines_settling:
  assumes "distinct (map sn_id (sd_senders d))"
  shows "recompute_roles own cache d =
    (length (filter sn_dirty (sd_senders d)), d\<lparr>sd_senders := map (settled_role own cache) (sd_senders d)\<rparr>)"
  using recompute_loop_settles [OF assms] by (simp add: recompute_roles_def)

section \<open>The model pass\<close>

lemma parseRole_known: "parseRole jr a \<in> insert ''unknown'' (set modelled_roles)"
  by (auto simp: parseRole_def Let_def split: option.split)

text \<open>How the model pass may change a row.\<close>

definition placed_by_model :: "int \<Rightarrow> int \<Rightarrow> sender_row \<Rightarrow> sender_row \<Rightarrow> bool" where
  "placed_by_model retry now r r' \<longleftrightarrow> r' = r \<or>
     (unplaced retry r \<and> (\<exists>role source. r' = r\<lparr>sn_role := role, sn_role_source := source, sn_role_checked := Some now\<rparr> \<and>
        (role \<in> set modelled_roles \<and> source = ''llm'' \<or> role = ''unknown'' \<and> source \<in> {''llm:none'', ''llm:error''})))"

lemma model_outcome_cases:
  "model_outcome jr a = (role, source) \<Longrightarrow>
   role \<in> set modelled_roles \<and> source = ''llm'' \<or> role = ''unknown'' \<and> source \<in> {''llm:none'', ''llm:error''}"
  using parseRole_known [of jr] by (auto simp: model_outcome_def split: model_answer.splits if_splits)

lemma write_answer_placed:
  assumes d: "list_all2 (placed_by_model retry now) ss (sd_senders d)" and "distinct (map sn_id ss)"
    and c: "c \<in> set ss" "unplaced retry c"
  shows "list_all2 (placed_by_model retry now) ss (sd_senders (write_answer now c (model_outcome jr a) d))"
proof -
  obtain role source where o': "model_outcome jr a = (role, source)" by (cases "model_outcome jr a")
  have "placed_by_model retry now r (if sn_id r' = sn_id c then r'\<lparr>sn_role := role, sn_role_source := source, sn_role_checked := Some now\<rparr> else r')"
    if r: "r \<in> set ss" "placed_by_model retry now r r'" for r r'
  proof (cases "sn_id r' = sn_id c")
    case True
    then have "sn_id r = sn_id c" using r(2) by (auto simp: placed_by_model_def)
    then have "r = c" using same_row [OF assms(2) r(1) c(1)] by simp
    then have "r'\<lparr>sn_role := role, sn_role_source := source, sn_role_checked := Some now\<rparr> =
        r\<lparr>sn_role := role, sn_role_source := source, sn_role_checked := Some now\<rparr>" "unplaced retry r"
      using r(2) c(2) by (auto simp: placed_by_model_def)
    moreover have "placed_by_model retry now r (r\<lparr>sn_role := role, sn_role_source := source, sn_role_checked := Some now\<rparr>)"
      if "unplaced retry r" using model_outcome_cases [OF o'] that unfolding placed_by_model_def by blast
    ultimately show ?thesis using True by simp
  next
    case False
    then show ?thesis using r by simp
  qed
  then have "list_all2 (\<lambda>r r'. placed_by_model retry now r (if sn_id r' = sn_id c
      then r'\<lparr>sn_role := role, sn_role_source := source, sn_role_checked := Some now\<rparr> else r')) ss (sd_senders d)"
    by (intro list.rel_mono_strong [OF d])
  then show ?thesis by (simp add: write_answer_def o' upd_rows_def list_all2_map2)
qed

lemma ask_models_placed:
  "list_all2 (placed_by_model retry now) ss (sd_senders d) \<Longrightarrow> distinct (map sn_id ss) \<Longrightarrow>
   \<forall>c\<in>set cs. c \<in> set ss \<and> unplaced retry c \<Longrightarrow> length sent \<le> perTick \<Longrightarrow>
   ask_models ask jr ms now perTick sent cs d = (sent', d') \<Longrightarrow>
   list_all2 (placed_by_model retry now) ss (sd_senders d') \<and> length sent' \<le> perTick \<and>
   d' = d\<lparr>sd_senders := sd_senders d'\<rparr>"
proof (induction ask jr ms now perTick sent cs d rule: ask_models.induct)
  case (2 ask jr ms now perTick sent c cs d)
  let ?s = "recent_subjects ms (sn_address c) 5"
  let ?p = "rolePrompt (sn_address c) (sn_name c) ?s"
  let ?a = "ask (length sent) ?p"
  let ?d = "write_answer now c (model_outcome jr ?a) d"
  show ?case
  proof (cases "perTick \<le> length sent \<or> ?s = [] \<or> ?a = ModelGated")
    case True
    then show ?thesis using 2 by (auto simp: Let_def split: if_splits)
  next
    case asked: False
    have run: "ask_models ask jr ms now perTick (sent @ [?p]) cs ?d = (sent', d')"
      using asked "2.prems"(5) by (simp add: Let_def)
    have w: "list_all2 (placed_by_model retry now) ss (sd_senders ?d)"
      using "2.prems" by (intro write_answer_placed) auto
    have "list_all2 (placed_by_model retry now) ss (sd_senders d') \<and> length sent' \<le> perTick \<and> d' = ?d\<lparr>sd_senders := sd_senders d'\<rparr>"
      using asked "2.prems"(2,3,4) w run by (intro "2.IH"(2) [OF _ refl refl]) auto
    then show ?thesis by (simp add: write_answer_def)
  qed
qed simp

lemma find_sender_mem: "Some s = find_sender a d \<Longrightarrow> s \<in> set (sd_senders d)"
  unfolding find_sender_def by (drule sym) (auto simp: find_Some_iff)

lemma role_candidates_unplaced:
  "c \<in> set (role_candidates retry perTick ms d) \<Longrightarrow> c \<in> set (sd_senders d) \<and> unplaced retry c"
  by (auto simp: role_candidates_def dest!: in_set_takeD dest: find_sender_mem split: option.splits if_splits)

text \<open>The model pass sends at most the configured number of prompts and changes nothing but rows of
  senders that are unknown and were not asked about in the last seven days; those get a role of the
  list with the source llm, or stay unknown, and are marked as asked now.\<close>
theorem model_places_only_unknown_senders:
  assumes "distinct (map sn_id (sd_senders d))" "model_roles classify jr cache perTick d = (sent, d')"
  shows "length sent \<le> perTick \<and> d' = d\<lparr>sd_senders := sd_senders d'\<rparr> \<and>
    list_all2 (placed_by_model (sd_now d - llmRetryAfter) (sd_now d)) (sd_senders d) (sd_senders d')"
proof -
  have same: "list_all2 (placed_by_model (sd_now d - llmRetryAfter) (sd_now d)) (sd_senders d) (sd_senders d)"
    by (rule list.rel_refl) (simp add: placed_by_model_def)
  have off: ?thesis if "sent = []" "d' = d" using that same by simp
  show ?thesis
  proof (cases "classify = None \<or> cache = None \<or> perTick = 0")
    case True
    then show ?thesis using off assms(2) by (cases classify; cases cache) (simp_all add: model_roles_def)
  next
    case False
    then obtain ask ms where "classify = Some ask" "cache = Some ms" "perTick \<noteq> 0" by auto
    then have "ask_models ask jr ms (sd_now d) perTick [] (role_candidates (sd_now d - llmRetryAfter) perTick ms d) d = (sent, d')"
      using assms(2) by (simp add: model_roles_def)
    from ask_models_placed [OF same assms(1) _ _ this] show ?thesis using role_candidates_unplaced by simp
  qed
qed

section \<open>The scan invariant\<close>

lemma recompute_roles_ok: "scan_ok d \<Longrightarrow> scan_ok (snd (recompute_roles own cache d))"
proof -
  assume ok: "scan_ok d"
  then have "distinct (map sn_id (sd_senders d))" by (simp add: scan_ok_def profiles_ok_def rows_ok_def)
  note r = recompute_loop_settles [OF this]
  show ?thesis
    by (rule scan_ok_senders [OF ok, where p = "\<lambda>_. True" and f = "settled_role own cache"])
       (auto simp: recompute_roles_def r upd_rows_def settled_role_def stats_ok_def split: prod.split)
qed

lemma write_answer_ok: "scan_ok d \<Longrightarrow> scan_ok (write_answer now c rs d)"
  by (rule scan_ok_senders [where p = "\<lambda>r. sn_id r = sn_id c" and
        f = "\<lambda>r. r\<lparr>sn_role := fst rs, sn_role_source := snd rs, sn_role_checked := Some now\<rparr>"])
     (simp_all add: stats_ok_def write_answer_def)

lemma ask_models_ok: "scan_ok d \<Longrightarrow> scan_ok (snd (ask_models ask jr ms now perTick sent cs d))"
  by (induction ask jr ms now perTick sent cs d rule: ask_models.induct)
     (auto simp: Let_def write_answer_ok)

lemma model_roles_ok: "scan_ok d \<Longrightarrow> scan_ok (snd (model_roles classify jr cache perTick d))"
  by (auto simp: model_roles_def ask_models_ok split: option.split)

section \<open>Witnesses\<close>

definition role_senders :: state_db where
  "role_senders = empty_state\<lparr>sd_senders := [(new_sender_row 1 ''news@shop.org'' ''shop.org'')\<lparr>sn_count := 4, sn_list := 2\<rparr>,
     (new_sender_row 2 ''me@x.org'' ''x.org'')\<lparr>sn_role := ''self'', sn_role_source := ''identity''\<rparr>,
     (new_sender_row 3 ''eve@y.org'' ''y.org'')\<lparr>sn_dirty := False\<rparr>], sd_now := 1000000\<rparr>"

definition role_mail :: msg_row where
  "role_mail = \<lparr>m_id = 1, m_account = ''a'', m_folder = ''INBOX'', m_uid = 1, m_message_id = ''m'', m_thread_id = [],
     m_subject = ''Lunch?'', m_from_addr = ''Eve@y.org'', m_from_name = [], m_to = [], m_cc = [], m_reply_to = [],
     m_date = 0, m_internal_date = 0, m_flags = [], m_size = 0, m_body_text = [], m_body_html = [], m_body_skipped = False,
     m_has_attachments = False, m_attachments = [], m_status = StPending, m_error = [], m_hall = [], m_wing = [], m_room = []\<rparr>"

theorem recompute_refines_settling_witness:
  "fst (recompute_roles [''x.org''] None role_senders) = 2 \<and>
   map sn_role (sd_senders (snd (recompute_roles [''x.org''] None role_senders))) = [''newsletter'', ''self'', ''unknown'']"
proof -
  have d: "distinct (map sn_id (sd_senders role_senders))" by code_simp
  have "length (filter sn_dirty (sd_senders role_senders)) = 2"
    "map sn_role (map (settled_role [''x.org''] None) (sd_senders role_senders)) = [''newsletter'', ''self'', ''unknown'']" by code_simp+
  then show ?thesis using recompute_refines_settling [OF d, of "[''x.org'']" None] by simp
qed

theorem model_places_only_unknown_senders_witness:
  "\<exists>sent d'. model_roles (Some (\<lambda>k p. ModelAnswer ''{p}'')) (\<lambda>s. Some '' Personal '') (Some [role_mail]) 5 role_senders = (sent, d') \<and>
     length sent = 1 \<and> map sn_role (sd_senders d') = [''unknown'', ''self'', ''personal''] \<and>
     list_all2 (placed_by_model (1000000 - llmRetryAfter) 1000000) (sd_senders role_senders) (sd_senders d')"
proof -
  let ?r = "model_roles (Some (\<lambda>k p. ModelAnswer ''{p}'')) (\<lambda>s. Some '' Personal '') (Some [role_mail]) 5 role_senders"
  have d: "distinct (map sn_id (sd_senders role_senders))" by code_simp
  have e: "length (fst ?r) = 1" "map sn_role (sd_senders (snd ?r)) = [''unknown'', ''self'', ''personal'']" by code_simp+
  obtain sent d' where r: "?r = (sent, d')" by (cases ?r)
  have "sd_now role_senders = 1000000" by code_simp
  then show ?thesis using model_places_only_unknown_senders [OF d r] e r by simp
qed

end
