(* ===== verification/Intel_Runs.thy ===== *)
theory Intel_Runs
  imports Roles_Props
begin

text \<open>
  Runs of the header scan: the steps the scanner takes on the state database in any order, the
  states they reach from the empty database, and what a repeated step changes.
\<close>

text \<open>One step: scanning a folder, pairing replies, taking over an identity, registering the folders
  of an account, the checks and scores of a tick, the recomputation of roles, the model pass and the
  passing of time.\<close>

inductive intel_step :: "state_db \<Rightarrow> state_db \<Rightarrow> bool" where
  scan: "intel_step d (scan_folder e v srcs after d)"
| pair: "intel_step d (snd (pair_replies account d))"
| identity: "intel_step d (apply_identity entry d)"
| registered: "intel_step d (register account folders d)"
| checks: "intel_step d (score_senders (snd (periodic rnd cfg det d)))"
| roles: "intel_step d (snd (recompute_roles own_domains cache d))"
| model: "intel_step d (snd (model_roles classify jr cache per_tick d))"
| clock: "sd_now d \<le> t \<Longrightarrow> intel_step d (d\<lparr>sd_now := t\<rparr>)"

inductive_cases intel_stepE: "intel_step d d'"

section \<open>Every step keeps the invariant\<close>

lemma register_ok: "scan_ok d \<Longrightarrow> scan_ok (register account folders d)"
proof -
  have one: "same_tables x (register_one account f x)" for f x
    by (simp add: same_tables_def same_profiles_def register_one_def)
  assume ok: "scan_ok d"
  have "scan_ok (d\<lparr>sd_scan := filter (\<lambda>r. \<not> (is_account r = account \<and> is_folder r \<notin> set folders)) (sd_scan d)\<rparr>)"
    by (rule scan_ok_same [OF _ ok]) (simp add: same_tables_def same_profiles_def)
  then show ?thesis unfolding register_def
    by (rule fold_preserves [where P = scan_ok, rotated]) (rule scan_ok_same [OF one])
qed

lemma pair_one_ok:
  assumes "scan_ok (snd st)"
  shows "scan_ok (snd (pair_one account p st))"
proof -
  obtain hash gap sender where p: "p = (hash, gap, sender)" by (cases p)
  obtain n d where st: "st = (n, d)" by (cases st)
  let ?p = "\<lambda>m. im_account m = account \<and> im_hash m = hash \<and> \<not> im_paired m"
  let ?d = "d\<lparr>sd_index := upd_rows ?p (\<lambda>m. m\<lparr>im_paired := True\<rparr>) (sd_index d)\<rparr>"
  let ?f = "\<lambda>s. s\<lparr>sn_reply_count := sn_reply_count s + 1, sn_reply_total := sn_reply_total s + gap,
      sn_avg_reply := Some ((sn_reply_total s + gap) div (sn_reply_count s + 1))\<rparr>"
  have ok: "scan_ok ?d"
    by (rule scan_ok_index [where d = d and p = ?p and f = "\<lambda>m. m\<lparr>im_paired := True\<rparr>"]) (use assms st in simp_all)
  moreover have "scan_ok (?d\<lparr>sd_senders := upd_rows (\<lambda>s. sn_id s = sender) ?f (sd_senders ?d)\<rparr>)"
    by (rule scan_ok_senders [OF ok, where p = "\<lambda>s. sn_id s = sender" and f = ?f]) (simp_all add: stats_ok_def)
  ultimately show ?thesis using assms by (simp add: pair_one_def p st Let_def)
qed

lemma pair_replies_ok: "scan_ok d \<Longrightarrow> scan_ok (snd (pair_replies account d))"
  unfolding pair_replies_def
  by (rule fold_preserves [where P = "\<lambda>st. scan_ok (snd st)"]) (simp_all add: pair_one_ok)

lemma apply_identity_ok:
  assumes "scan_ok d"
  shows "scan_ok (apply_identity entry d)"
proof -
  let ?ss = "filter (identity_rows entry) (sd_senders d)"
  let ?p = "\<lambda>m. \<exists>s\<in>set ?ss. im_sender m = Some (sn_id s)" and ?f = "\<lambda>m. m\<lparr>im_outgoing := True\<rparr>"
  let ?d = "d\<lparr>sd_index := upd_rows ?p ?f (sd_index d),
      sd_threads := filter (\<lambda>t. \<forall>s\<in>set ?ss. rt_counterpart t \<noteq> sn_address s) (sd_threads d)\<rparr>"
  have "scan_ok ?d" by (rule scan_ok_index [OF assms, where p = ?p and f = ?f]) simp_all
  then show ?thesis
    by (rule scan_ok_senders [where p = "identity_rows entry" and
          f = "\<lambda>s. s\<lparr>sn_role := ''self'', sn_role_source := ''identity'', sn_dirty := False\<rparr>"])
       (simp_all add: stats_ok_def apply_identity_def Let_def)
qed

lemma silence_one_same: "same_profiles (snd st) (snd (silence_one account cfg q st))"
  by (cases st; cases q)
     (auto simp: silence_one_def Let_def resolve_silence_def same_profiles_def split: option.split prod.split dest: insert_anomaly_same)

lemma spike_one_same: "same_profiles (snd st) (snd (spike_one rnd account cfg b st))"
  by (cases st; cases b)
     (auto simp: spike_one_def Let_def split: option.split prod.split dest: insert_anomaly_same)

lemma periodic_account_same: "same_profiles d (snd (periodic_account rnd cfg account d))"
proof -
  have a: "same_profiles d (snd (fold (silence_one account cfg) qs ([], d)))" for qs
    by (rule fold_preserves [where P = "\<lambda>st. same_profiles d (snd st)"])
       (auto intro: same_profiles_trans silence_one_same)
  have b: "same_profiles d (snd (fold (spike_one rnd account cfg) bs st))" if "same_profiles d (snd st)" for bs st
    by (rule fold_preserves [where P = "\<lambda>st. same_profiles d (snd st)"])
       (auto intro: that same_profiles_trans spike_one_same)
  show ?thesis unfolding periodic_account_def Let_def by (rule b [OF a])
qed

lemma periodic_accounts_same: "same_profiles d (snd (periodic_accounts rnd cfg as d))"
proof (induction rnd cfg as d rule: periodic_accounts.induct)
  case (2 rnd cfg a on as d)
  obtain ids d1 where p: "periodic_account rnd cfg a d = (ids, d1)" by (cases "periodic_account rnd cfg a d")
  obtain rest d2 where r: "periodic_accounts rnd cfg as d1 = (rest, d2)" by (cases "periodic_accounts rnd cfg as d1")
  show ?case
  proof (cases on)
    case True
    have "same_profiles d d1" using periodic_account_same [of d rnd cfg a] p by simp
    moreover have "same_profiles d1 d2" using "2.IH"(2) [OF _ p [symmetric]] True r by simp
    ultimately show ?thesis using True by (simp add: p r same_profiles_trans)
  next
    case False
    then show ?thesis using "2.IH"(1) by simp
  qed
qed simp

lemma score_senders_ok: "scan_ok d \<Longrightarrow> scan_ok (score_senders d)"
  by (rule scan_ok_senders [of d "\<lambda>s. s\<lparr>sn_score := sum_list (map (severity_weight \<circ> an_severity) (open_anomalies (sn_address s) d))\<rparr>"])
     (simp_all add: stats_ok_def score_senders_def)

lemma periodic_ok: "scan_ok d \<Longrightarrow> scan_ok (snd (periodic rnd cfg det d))"
proof -
  assume ok: "scan_ok d"
  have "same_profiles d (snd (periodic rnd cfg det d))"
    by (simp add: periodic_def periodic_accounts_same split: option.split)
  moreover have "findings_ok (snd (periodic rnd cfg det d))"
    by (rule periodic_keeps_findings_unique) (use ok in \<open>simp add: scan_ok_def\<close>)
  ultimately show ?thesis using ok by (metis scan_ok_def same_profilesD)
qed

lemma scan_ok_clock: "scan_ok d \<Longrightarrow> scan_ok (d\<lparr>sd_now := t\<rparr>)"
  by (rule scan_ok_same [of d]) (simp_all add: same_tables_def same_profiles_def)

lemma intel_step_ok: "intel_step d d' \<Longrightarrow> scan_ok d \<Longrightarrow> scan_ok d'"
  by (erule intel_stepE)
     (simp_all add: scan_folder_ok pair_replies_ok apply_identity_ok register_ok score_senders_ok periodic_ok scan_ok_clock
       recompute_roles_ok model_roles_ok)

lemma scan_ok_empty: "scan_ok empty_state"
  by (simp add: scan_ok_def profiles_ok_empty) (simp add: findings_ok_def empty_state_def)

lemma reachable_ok: "intel_step\<^sup>*\<^sup>* empty_state d \<Longrightarrow> scan_ok d"
  by (induction rule: rtranclp_induct) (simp_all add: scan_ok_empty intel_step_ok)

text \<open>C6: Whatever the scanner does and in whatever order, starting from the empty database: addresses
  and ids of profiles are unique, every indexed sender has a profile, a profile counts exactly the
  messages the index holds of it, its other counters are parts of that count, a message is indexed
  once per account, and findings are unique.\<close>
theorem reachable_profiles_match_index:
  assumes "intel_step\<^sup>*\<^sup>* empty_state d"
  shows "profiles_ok d \<and> findings_ok d"
  using reachable_ok [OF assms] by (simp add: scan_ok_def)

section \<open>Reading a batch again\<close>

text \<open>The folder the index holds for a key.\<close>

definition located :: "string \<Rightarrow> string \<Rightarrow> int \<Rightarrow> state_db \<Rightarrow> bool" where
  "located account folder hash d \<longleftrightarrow> map_option im_folder (find_index account hash d) = Some (Some folder)"

definition skipped :: "header \<Rightarrow> bool" where
  "skipped h \<longleftrightarrow> ad_Addr (h_From h) = [] \<or> h_Date h = zero_time"

definition same_messages :: "scan_env \<Rightarrow> scan_env \<Rightarrow> bool" where
  "same_messages e e' \<longleftrightarrow> se_hash e' = se_hash e \<and> se_account e' = se_account e \<and> se_folder e' = se_folder e"

lemma find_index_cong: "sd_index d' = sd_index d \<Longrightarrow> find_index a k d' = find_index a k d"
  by (simp add: find_index_def)

lemma find_upd_rows:
  assumes "\<And>m. im_account (f m) = im_account m \<and> im_hash (f m) = im_hash m"
  shows "find (\<lambda>m. im_account m = a \<and> im_hash m = k) (upd_rows p f idx) =
    map_option (\<lambda>m. if p m then f m else m) (find (\<lambda>m. im_account m = a \<and> im_hash m = k) idx)"
  using assms by (induction idx) (auto simp: upd_rows_def)

lemma located_upd:
  assumes "\<And>m. im_account (f m) = im_account m \<and> im_hash (f m) = im_hash m \<and> im_folder (f m) = im_folder m"
    and "sd_index d' = upd_rows p f (sd_index d)"
  shows "located a folder k d' = located a folder k d"
  using assms by (cases "find (\<lambda>m. im_account m = a \<and> im_hash m = k) (sd_index d)")
    (simp_all add: located_def find_index_def find_upd_rows)

lemma located_index: "sd_index d' = sd_index d \<Longrightarrow> located a folder k d' = located a folder k d"
  by (simp add: located_def find_index_def)

lemma profile_index_located: "located a folder k (profile account hash h outgoing own d) = located a folder k d"
proof -
  have r: "sd_index (profile_recipients t own seen as d) = sd_index d" for t seen as
    by (induction t own seen as d rule: profile_recipients.induct) (simp_all add: profile_sent_def)
  let ?u = "received_update h" and ?r = "received_row h" and ?a = "ad_Addr (h_From h)"
  have "located a folder k (profile_received account hash h d) = located a folder k d"
    by (rule located_upd [where p = "\<lambda>m. im_account m = account \<and> im_hash m = hash" and
          f = "\<lambda>m. m\<lparr>im_sender := map_option sn_id (find_sender ?a (sender_upsert ?a ?u ?r d))\<rparr>"])
       (simp_all add: profile_received_def Let_def upd_index_def)
  then show ?thesis by (simp add: profile_def located_index [OF r])
qed

lemma find_append_some: "find p xs = Some m \<Longrightarrow> find p (xs @ ys) = Some m"
  by (induction xs) (auto split: if_splits)

lemma located_new:
  assumes "find_index (se_account e) hash d = None"
  shows "located (se_account e) folder k (snd (index_new e hash h outgoing d)) \<longleftrightarrow>
    (if k = hash then folder = se_folder e else located (se_account e) folder k d)"
proof -
  let ?row = "index_row (se_hash e) (se_account e) (se_folder e) hash h outgoing"
  let ?d1 = "d\<lparr>sd_index := sd_index d @ [?row]\<rparr>"
  let ?d2 = "if outgoing \<and> ad_Name (h_From h) \<noteq> [] then owner_name (ad_Name (h_From h)) ?d1 else ?d1"
  let ?d3 = "snd (check_message (se_det e) (scan_env.se_cfg e) (se_account e) (se_folder e) h (se_own e) ?d2)"
  have "snd (index_new e hash h outgoing d) = profile (se_account e) hash h outgoing (se_own e) ?d3"
    by (simp add: index_new_def Let_def split: prod.split)
  moreover have "located (se_account e) folder k ?d3 = located (se_account e) folder k ?d1"
    by (rule located_index) (use check_message_same [of ?d2 "se_det e" "scan_env.se_cfg e" "se_account e" "se_folder e" h "se_own e"]
      owner_name_same [of ?d1 "ad_Name (h_From h)"] in \<open>auto simp: same_profiles_def\<close>)
  moreover have "located (se_account e) folder k ?d1 \<longleftrightarrow>
      (if k = hash then folder = se_folder e else located (se_account e) folder k d)"
  proof (cases "find_index (se_account e) k d")
    case None
    then show ?thesis by (auto simp: located_def find_index_def find_append_none index_row_def)
  next
    case (Some m)
    then have "find_index (se_account e) k ?d1 = Some m"
      by (simp add: find_index_def find_append_some)
    then show ?thesis using Some assms by (auto simp: located_def)
  qed
  ultimately show ?thesis by (simp only: profile_index_located)
qed

lemma rescue_index: "rescue account i d = Some d' \<Longrightarrow> sd_index d' = sd_index d"
  by (auto simp: rescue_def split: option.splits)

lemma locate_located:
  assumes "locate account hash folder k d = Some d'" "find_index account hash d \<noteq> None" "folder \<noteq> []"
  shows "located account folder key d' \<longleftrightarrow> key = hash \<or> located account folder key d"
proof -
  obtain m where m: "find_index account hash d = Some m" using assms(2) by blast
  show ?thesis
  proof (cases "im_folder m = Some folder")
    case True
    then show ?thesis using assms(1) m by (auto simp: locate_def located_def)
  next
    case False
    let ?d = "upd_index account hash (\<lambda>r. r\<lparr>im_folder := Some folder\<rparr>) d"
    have "locate account hash folder k d =
        (case (im_folder m, im_sender m) of
           (Some prev, Some s) \<Rightarrow> (if rescue_from k prev \<and> \<not> fk_discard k folder then rescue account s ?d else Some ?d)
         | _ \<Rightarrow> Some ?d)"
      using False assms(3) by (simp add: locate_def m Let_def)
    then have idx: "sd_index d' = sd_index ?d"
      using assms(1) by (cases "im_folder m"; cases "im_sender m") (auto split: if_splits dest: rescue_index rescue_index [OF sym])
    have f: "find_index account key ?d = map_option (\<lambda>r. if key = hash then r\<lparr>im_folder := Some folder\<rparr> else r) (find_index account key d)"
    proof -
      have "find_index account key ?d =
          map_option (\<lambda>r. if im_account r = account \<and> im_hash r = hash then r\<lparr>im_folder := Some folder\<rparr> else r) (find_index account key d)"
        unfolding find_index_def upd_index_def by (simp add: find_upd_rows)
      then show ?thesis using find_index_Some [of account key d] by (cases "find_index account key d") simp_all
    qed
    show ?thesis using m by (cases "find_index account key d") (auto simp: located_def f find_index_cong [OF idx])
  qed
qed

lemma locate_same: "located account folder hash d \<Longrightarrow> locate account hash folder k d = Some d"
  by (auto simp: locate_def located_def split: option.split)

lemma apply_header_located:
  assumes a: "apply_header e h (res, d) = Some (res', d')" and f: "se_folder e \<noteq> []"
  shows "(skipped h \<or> located (se_account e) (se_folder e) (index_key (se_hash e) (se_folder e) h) d') \<and>
    (\<forall>k. located (se_account e) (se_folder e) k d \<longrightarrow> located (se_account e) (se_folder e) k d')"
proof (cases "skipped h")
  case True
  then show ?thesis using a by (auto simp: apply_header_def skipped_def)
next
  case False
  let ?hash = "index_key (se_hash e) (se_folder e) h" and ?out = "own_has (se_own e) (ad_Addr (h_From h))"
  let ?conv = "thread_msg (se_hash e) (se_account e) (se_folder e) ?hash h ?out (se_own e)"
  have conv: "located acc fo k (?conv x) = located acc fo k x" for acc fo k x
    using thread_msg_same by (intro located_index) (simp add: same_profiles_def)
  show ?thesis
  proof (cases "find_index (se_account e) ?hash d = None")
    case True
    obtain ids d1 where n: "index_new e ?hash h ?out d = (ids, d1)" by (cases "index_new e ?hash h ?out d")
    then have "d' = ?conv d1" using a True False by (simp add: apply_header_def skipped_def Let_def)
    then show ?thesis using located_new [OF True, of "se_folder e" _ h ?out] n by (simp add: conv)
  next
    case found: False
    obtain d1 where l: "locate (se_account e) ?hash (se_folder e) (se_kinds e) d = Some d1" "d' = ?conv d1"
      using a found False by (auto simp: apply_header_def skipped_def Let_def)
    then show ?thesis using locate_located [OF l(1) found f] by (simp add: conv)
  qed
qed

lemma apply_headers_located:
  assumes "apply_headers e hs (res, d) = Some (res', d')" "se_folder e \<noteq> []"
  shows "(\<forall>h\<in>set hs. skipped h \<or> located (se_account e) (se_folder e) (index_key (se_hash e) (se_folder e) h) d') \<and>
    (\<forall>k. located (se_account e) (se_folder e) k d \<longrightarrow> located (se_account e) (se_folder e) k d')"
  using assms(1)
proof (induction hs arbitrary: res d)
  case (Cons h hs)
  then obtain r1 d1 where s: "apply_header e h (res, d) = Some (r1, d1)" "apply_headers e hs (r1, d1) = Some (res', d')"
    by (cases "apply_header e h (res, d)") auto
  from apply_header_located [OF s(1) assms(2)] Cons.IH [OF s(2)] show ?case by auto
qed simp

text \<open>A header the index already has at this folder changes conversations only.\<close>

definition counted_same :: "state_db \<Rightarrow> state_db \<Rightarrow> bool" where
  "counted_same d d' \<longleftrightarrow> same_tables d d' \<and> sd_owner_names d' = sd_owner_names d \<and> sd_learn d' = sd_learn d"

lemma counted_same_trans: "counted_same a b \<Longrightarrow> counted_same b c \<Longrightarrow> counted_same a c"
  by (simp add: counted_same_def same_tables_def same_profiles_def)

lemma counted_same_thread: "counted_same d (thread_msg hf account folder hash h outgoing own d)"
  using same_tables_ops(2) by (simp add: counted_same_def) (simp add: thread_msg_def put_thread_def split: option.split)

lemma apply_headers_again:
  assumes "\<forall>h\<in>set hs. skipped h \<or> located (se_account e) (se_folder e) (index_key (se_hash e) (se_folder e) h) d"
  shows "\<exists>res' d'. apply_headers e hs (res, d) = Some (res', d') \<and> counted_same d d' \<and>
    ap_New res' = ap_New res \<and> ap_Anomalies res' = ap_Anomalies res"
  using assms
proof (induction hs arbitrary: res d)
  case Nil
  then show ?case by (simp add: counted_same_def same_tables_def)
next
  case (Cons h hs)
  let ?hash = "index_key (se_hash e) (se_folder e) h" and ?out = "own_has (se_own e) (ad_Addr (h_From h))"
  obtain r1 d1 where s: "apply_header e h (res, d) = Some (r1, d1)" "counted_same d d1"
    "ap_New r1 = ap_New res" "ap_Anomalies r1 = ap_Anomalies res"
  proof (cases "skipped h")
    case True
    then show ?thesis using that [of res d] by (auto simp: apply_header_def skipped_def counted_same_def same_tables_def)
  next
    case False
    then have l: "located (se_account e) (se_folder e) ?hash d" using Cons.prems by simp
    then have "find_index (se_account e) ?hash d \<noteq> None" by (auto simp: located_def)
    then show ?thesis using False locate_same [OF l] that counted_same_thread
      by (auto simp: apply_header_def skipped_def Let_def)
  qed
  have "sd_index d1 = sd_index d" using s(2) by (simp add: counted_same_def same_tables_def same_profiles_def)
  then obtain r2 d2 where "apply_headers e hs (r1, d1) = Some (r2, d2)" "counted_same d1 d2"
    "ap_New r2 = ap_New r1" "ap_Anomalies r2 = ap_Anomalies r1"
    using Cons.IH [of d1 r1] Cons.prems located_index [of d1 d] by auto
  then show ?case using s counted_same_trans by auto
qed

text \<open>Reading messages of a folder again (after a crash before the cursor moved, or a reset of
  the folder) never fails and counts nothing: whatever part of a batch that was applied comes in a
  later batch, no message is new, no finding is recorded, and profiles, index, findings, owner names
  and suggestions stay exactly as they were.\<close>
theorem rescan_counts_nothing:
  assumes "apply_batch e v b d = Some (r, d1)" "se_folder e \<noteq> []" "same_messages e e'" "set (b_Headers b') \<subseteq> set (b_Headers b)"
  shows "\<exists>r' d2. apply_batch e' v' b' d1 = Some (r', d2) \<and> ap_New r' = 0 \<and> ap_Anomalies r' = [] \<and>
    sd_senders d2 = sd_senders d1 \<and> sd_index d2 = sd_index d1 \<and> sd_anomalies d2 = sd_anomalies d1 \<and>
    sd_owner_names d2 = sd_owner_names d1 \<and> sd_learn d2 = sd_learn d1"
proof -
  obtain r0 d0 where b: "apply_headers e (b_Headers b) (no_applied, d) = Some (r0, d0)" "d1 = finish_batch e v b d0"
    using assms(1) by (auto simp: apply_batch_def)
  have idx: "sd_index d1 = sd_index d0" by (simp add: b(2) finish_batch_def Let_def)
  have "\<forall>h\<in>set (b_Headers b'). skipped h \<or> located (se_account e') (se_folder e') (index_key (se_hash e') (se_folder e') h) d1"
    using apply_headers_located [OF b(1) assms(2)] assms(3,4) by (auto simp: same_messages_def located_index [OF idx])
  from apply_headers_again [OF this, of no_applied] obtain r2 d2
    where again: "apply_headers e' (b_Headers b') (no_applied, d1) = Some (r2, d2)" "counted_same d1 d2"
      "ap_New r2 = 0" "ap_Anomalies r2 = []" by (auto simp: no_applied_def)
  then have "apply_batch e' v' b' d1 = Some (r2, finish_batch e' v' b' d2)" by (simp add: apply_batch_def)
  then show ?thesis using again(2-4)
    by (auto simp: counted_same_def same_tables_def same_profiles_def finish_batch_def Let_def)
qed

section \<open>Pairing replies\<close>

lemma pair_one_index:
  "sd_index (snd (pair_one account p st)) =
     upd_rows (\<lambda>m. im_account m = account \<and> im_hash m = fst p \<and> \<not> im_paired m) (\<lambda>m. m\<lparr>im_paired := True\<rparr>) (sd_index (snd st))"
proof -
  obtain hash gap sender where p: "p = (hash, gap, sender)" by (cases p)
  obtain n d where st: "st = (n, d)" by (cases st)
  have none: "upd_rows q f xs = xs" if "\<not> list_ex q xs" for q f and xs :: "intel_row list"
    by (rule upd_rows_none) (use that in \<open>simp add: list_ex_iff\<close>)
  show ?thesis by (simp add: pair_one_def p st Let_def none)
qed

lemma pair_fold_index:
  "sd_index (snd (fold (pair_one account) ps st)) =
     map (\<lambda>m. if im_account m = account \<and> im_hash m \<in> fst ` set ps then m\<lparr>im_paired := True\<rparr> else m) (sd_index (snd st))"
proof (induction ps arbitrary: st)
  case (Cons p ps)
  have same: "m\<lparr>im_paired := True\<rparr> = m" if "im_paired m" for m :: intel_row using that by (cases m) simp
  show ?case by (auto simp: Cons.IH pair_one_index upd_rows_def same)
qed simp

definition answers :: "string \<Rightarrow> intel_row list \<Rightarrow> intel_row \<Rightarrow> intel_row \<Rightarrow> int \<Rightarrow> bool" where
  "answers account idx r i s \<longleftrightarrow> r \<in> set idx \<and> i \<in> set idx \<and> im_account r = account \<and> im_outgoing r \<and> \<not> im_paired r \<and>
     im_account i = account \<and> Some (im_hash i) = im_reply r \<and> \<not> im_outgoing i \<and> im_sender i = Some s"

lemma in_reply_pairs:
  "p \<in> set (reply_pairs account d) \<longleftrightarrow>
     (\<exists>r i s. answers account (sd_index d) r i s \<and> p = (im_hash r, im_date r - im_date i, s))"
proof -
  have inner: "p \<in> set (case im_sender i of
        Some s \<Rightarrow> (if im_account i = im_account r \<and> Some (im_hash i) = im_reply r \<and> \<not> im_outgoing i
                   then [(im_hash r, im_date r - im_date i, s)] else []) | None \<Rightarrow> []) \<longleftrightarrow>
      (\<exists>s. im_sender i = Some s \<and> im_account i = im_account r \<and> Some (im_hash i) = im_reply r \<and> \<not> im_outgoing i \<and>
        p = (im_hash r, im_date r - im_date i, s))" for r i by (cases "im_sender i") auto
  show ?thesis unfolding reply_pairs_def answers_def
    by (simp only: set_concat set_map set_filter image_image UN_iff mem_Collect_eq inner) blast
qed

lemma nothing_left_to_pair: "reply_pairs account (snd (pair_replies account d)) = []"
proof -
  let ?H = "fst ` set (reply_pairs account d)" and ?idx = "sd_index (snd (pair_replies account d))"
  let ?g = "\<lambda>m. if im_account m = account \<and> im_hash m \<in> ?H then m\<lparr>im_paired := True\<rparr> else m"
  have idx: "?idx = map ?g (sd_index d)" by (simp add: pair_replies_def pair_fold_index)
  have sel: "im_account (?g m) = im_account m" "im_hash (?g m) = im_hash m" "im_reply (?g m) = im_reply m"
    "im_outgoing (?g m) = im_outgoing m" "im_sender (?g m) = im_sender m" for m by simp_all
  have "False" if "answers account ?idx r i s" for r i s
  proof -
    have "r \<in> ?g ` set (sd_index d)" using that by (simp only: answers_def idx set_map)
    then obtain r0 where r0: "r = ?g r0" "r0 \<in> set (sd_index d)" by (rule imageE)
    have "i \<in> ?g ` set (sd_index d)" using that by (simp only: answers_def idx set_map)
    then obtain i0 where i0: "i = ?g i0" "i0 \<in> set (sd_index d)" by (rule imageE)
    have unpaired: "\<not> im_paired r" "im_account r = account" using that by (simp_all add: answers_def)
    have out: "im_hash r0 \<notin> ?H" using unpaired unfolding r0(1) by (auto split: if_splits)
    then have "answers account (sd_index d) r0 i0 s"
      using that r0 i0 unfolding answers_def r0(1) i0(1) sel by simp
    then have "(im_hash r0, im_date r0 - im_date i0, s) \<in> set (reply_pairs account d)" unfolding in_reply_pairs by blast
    with out show False by (metis fst_conv image_eqI)
  qed
  then have "p \<notin> set (reply_pairs account (snd (pair_replies account d)))" for p
    unfolding in_reply_pairs by blast
  then show ?thesis by (metis list.set_intros(1) neq_Nil_conv)
qed

text \<open>Pairing is complete and counts each reply once: a second run finds nothing to pair and
  leaves the database exactly as it is.\<close>
theorem pairing_is_idempotent:
  "pair_replies account (snd (pair_replies account d)) = (0, snd (pair_replies account d))"
  by (subst (1) pair_replies_def) (simp add: nothing_left_to_pair)

section \<open>Conversations\<close>

definition thread_row_of :: "string \<Rightarrow> int \<Rightarrow> state_db \<Rightarrow> thread_row option" where
  "thread_row_of account rootk d = find (\<lambda>r. rt_account r = account \<and> rt_hash r = rootk) (sd_threads d)"

lemma thread_row_of_put:
  "thread_row_of (rt_account t) (rt_hash t) (put_thread t d) =
     Some (case thread_row_of (rt_account t) (rt_hash t) d of None \<Rightarrow> t | Some r \<Rightarrow> thread_merge t r)"
proof -
  have key: "rt_account (thread_merge t r) = rt_account r \<and> rt_hash (thread_merge t r) = rt_hash r" for r
    by (simp add: thread_merge_def)
  let ?p = "\<lambda>r. rt_account r = rt_account t \<and> rt_hash r = rt_hash t"
  have upd: "find ?p (upd_rows ?p (thread_merge t) rs) = map_option (thread_merge t) (find ?p rs)" for rs
    by (induction rs) (auto simp: upd_rows_def key)
  show ?thesis
  proof (cases "find ?p (sd_threads d)")
    case None
    then have "\<not> list_ex ?p (sd_threads d)" unfolding find_None_iff list_ex_iff by blast
    then show ?thesis using None by (simp add: thread_row_of_def put_thread_def upsert_def find_append_none)
  next
    case (Some r)
    then have "list_ex ?p (sd_threads d)" unfolding find_Some_iff list_ex_iff by (metis nth_mem)
    then show ?thesis using Some upd [of "sd_threads d"] by (simp add: thread_row_of_def put_thread_def upsert_def)
  qed
qed

definition as_late :: "thread_row \<Rightarrow> thread_row \<Rightarrow> bool" where
  "as_late t r \<longleftrightarrow> rt_last_date t \<le> rt_last_date r \<and> (rt_last_date t = rt_last_date r \<longrightarrow> rt_outgoing t \<longrightarrow> rt_outgoing r)"

definition same_message :: "thread_row \<Rightarrow> thread_row \<Rightarrow> bool" where
  "same_message t r \<longleftrightarrow> rt_last_hash t = rt_last_hash r \<and> rt_last_date t = rt_last_date r \<and> rt_outgoing t = rt_outgoing r"

lemma thread_merge_latest:
  assumes "rt_last_hash t = rt_last_hash r \<longrightarrow> same_message t r"
  shows "(same_message (thread_merge t r) t \<or> same_message (thread_merge t r) r) \<and>
    as_late t (thread_merge t r) \<and> (\<forall>u. as_late u r \<longrightarrow> as_late u (thread_merge t r))"
proof (cases "thread_supersedes t r")
  case True
  then have "same_message (thread_merge t r) t" by (simp add: thread_merge_def same_message_def)
  moreover have "as_late r t" using True assms by (auto simp: thread_supersedes_def same_message_def as_late_def)
  ultimately show ?thesis by (auto simp: same_message_def as_late_def)
next
  case False
  then have "thread_merge t r = r" by (simp add: thread_merge_def)
  moreover have "as_late t r" using False by (auto simp: thread_supersedes_def as_late_def)
  ultimately show ?thesis by (simp add: same_message_def)
qed

text \<open>A conversation's row shows its latest message, the owner's when two are as late,
  whatever the order in which the messages of the conversation are read and however often.\<close>
theorem thread_shows_latest_message:
  assumes "ts \<noteq> []" "\<forall>t\<in>set ts. rt_account t = account \<and> rt_hash t = rootk"
    and "\<forall>t\<in>set ts. \<forall>u\<in>set ts. rt_last_hash t = rt_last_hash u \<longrightarrow> same_message t u"
    and "thread_row_of account rootk d = None"
  shows "\<exists>r. thread_row_of account rootk (fold put_thread ts d) = Some r \<and>
    (\<exists>t\<in>set ts. same_message r t) \<and> (\<forall>t\<in>set ts. as_late t r)"
  using assms(1-3)
proof (induction ts rule: rev_induct)
  case (snoc t ts)
  have key: "rt_account t = account" "rt_hash t = rootk" using snoc.prems(2) by simp_all
  have put: "thread_row_of account rootk (fold put_thread (ts @ [t]) d) =
      Some (case thread_row_of account rootk (fold put_thread ts d) of None \<Rightarrow> t | Some r \<Rightarrow> thread_merge t r)"
    using thread_row_of_put [of t] by (simp add: key)
  show ?case
  proof (cases "ts = []")
    case True
    then show ?thesis using put assms(4) by (simp add: same_message_def as_late_def)
  next
    case False
    have "\<exists>r. thread_row_of account rootk (fold put_thread ts d) = Some r \<and> (\<exists>t\<in>set ts. same_message r t) \<and> (\<forall>t\<in>set ts. as_late t r)"
      by (rule snoc.IH [OF False]) (use snoc.prems in auto)
    then obtain r u where r: "thread_row_of account rootk (fold put_thread ts d) = Some r" "u \<in> set ts" "same_message r u"
      "\<forall>t\<in>set ts. as_late t r" by blast
    have tu: "rt_last_hash t = rt_last_hash u \<longrightarrow> same_message t u" using snoc.prems(3) r(2) by simp
    have "rt_last_hash t = rt_last_hash r \<longrightarrow> same_message t r"
      using tu r(3) by (simp add: same_message_def)
    note m = thread_merge_latest [OF this]
    have "same_message (thread_merge t r) t \<or> same_message (thread_merge t r) u"
      using m r(3) by (auto simp: same_message_def)
    then have "\<exists>t'\<in>set (ts @ [t]). same_message (thread_merge t r) t'" using r(2) by auto
    moreover have "\<forall>x\<in>set (ts @ [t]). as_late x (thread_merge t r)" using m r(4) by auto
    ultimately show ?thesis unfolding put r(1) by simp
  qed
qed simp

section \<open>Recipients\<close>

text \<open>A recipient of the owner's mail that is the owner's own address (a copy to oneself, say) ends
  the loop: no later recipient of that mail is counted or gets a profile.\<close>
theorem own_recipient_hides_later_ones:
  assumes "own_has own (ad_Addr a)"
  shows "profile_recipients t own seen (pre @ a # post) d = profile_recipients t own seen pre d"
  using assms by (induction pre arbitrary: seen d) auto

section \<open>Concrete runs\<close>

definition sample_header :: "nat \<Rightarrow> string \<Rightarrow> string \<Rightarrow> header" where
  "sample_header uid sender mid = \<lparr>h_UID = uid, h_Date = 1000000000, h_MessageID = mid, h_InReplyTo = [], h_Subject = ''hi'',
     h_From = \<lparr>ad_Name = ''Ann Lee'', ad_Addr = sender\<rparr>, h_ReplyTo = \<lparr>ad_Name = [], ad_Addr = []\<rparr>,
     h_To = [\<lparr>ad_Name = [], ad_Addr = ''me@x.org''\<rparr>, \<lparr>ad_Name = [], ad_Addr = ''bob@y.org''\<rparr>], h_Cc = [], h_Answered = False,
     h_List = False, h_Bulk = True, h_Auto = False, h_DKIM = ''pass'', h_DMARC = ''fail'', h_References = []\<rparr>"

definition sample_scan :: scan_env where
  "sample_scan = \<lparr>se_hash = (\<lambda>s. int (length s)), se_account = ''a'', se_folder = ''INBOX'', se_own = [''me@x.org''],
     se_det = None, se_cfg = \<lparr>ac_authMinPasses = 1, ac_silenceMinMessages = 2, ac_silenceMinDays = 1, ac_spikeMin = 1, ac_spikeFactor = 1\<rparr>,
     se_kinds = None\<rparr>"

definition sample_batch :: batch where
  "sample_batch = \<lparr>b_UIDValidity = 7, b_Headers = [sample_header 1 ''ann@y.org'' ''m1'', sample_header 2 ''ann@y.org'' ''m10''], b_More = False\<rparr>"

definition sample_state :: state_db where
  "sample_state = scan_folder sample_scan 0 [\<lambda>_. Some sample_batch] 0 empty_state"

lemma sample_reached: "intel_step\<^sup>*\<^sup>* empty_state sample_state"
  unfolding sample_state_def by (rule r_into_rtranclp) (rule intel_step.scan)

theorem reachable_profiles_match_index_witness:
  "profiles_ok sample_state \<and> findings_ok sample_state \<and> map sn_count (sd_senders sample_state) = [2] \<and>
   map sn_bulk (sd_senders sample_state) = [2] \<and> length (sd_index sample_state) = 2"
proof -
  have "map sn_count (sd_senders sample_state) = [2] \<and> map sn_bulk (sd_senders sample_state) = [2] \<and>
      length (sd_index sample_state) = 2" by code_simp
  then show ?thesis using reachable_profiles_match_index [OF sample_reached] by simp
qed

lemma sample_batch_applied:
  "\<exists>r d. apply_batch sample_scan 7 sample_batch empty_state = Some (r, d) \<and> ap_New r = 2"
proof -
  have "map_option (ap_New \<circ> fst) (apply_batch sample_scan 7 sample_batch empty_state) = Some 2" by code_simp
  then show ?thesis by (cases "apply_batch sample_scan 7 sample_batch empty_state") auto
qed

theorem rescan_counts_nothing_witness:
  "\<exists>r d1 r' d2. apply_batch sample_scan 7 sample_batch empty_state = Some (r, d1) \<and> ap_New r = 2 \<and>
     apply_batch sample_scan 8 sample_batch d1 = Some (r', d2) \<and> ap_New r' = 0 \<and> sd_senders d2 = sd_senders d1"
proof -
  obtain r d1 where b: "apply_batch sample_scan 7 sample_batch empty_state = Some (r, d1)" "ap_New r = 2"
    using sample_batch_applied by blast
  have "se_folder sample_scan \<noteq> []" by (simp add: sample_scan_def)
  moreover have "same_messages sample_scan sample_scan" by (simp add: same_messages_def)
  ultimately show ?thesis using rescan_counts_nothing [OF b(1), of sample_scan sample_batch 8] b by auto
qed

definition sample_thread :: "int \<Rightarrow> int \<Rightarrow> bool \<Rightarrow> thread_row" where
  "sample_thread k t out = \<lparr>rt_account = ''a'', rt_hash = 1, rt_thread_id = ''t'', rt_last_hash = k, rt_last_date = t, rt_outgoing = out,
     rt_direct = False, rt_counterpart = ''ann@y.org'', rt_subject = [], rt_ref = [], rt_folder = ''INBOX'', rt_uid = 1,
     rt_answered = False, rt_dismissed = None\<rparr>"

theorem thread_shows_latest_message_witness:
  "\<exists>r. thread_row_of ''a'' 1 (fold put_thread [sample_thread 5 10 False, sample_thread 6 30 True, sample_thread 7 20 False] empty_state) = Some r \<and>
     rt_last_date r = 30"
proof -
  let ?ts = "[sample_thread 5 10 False, sample_thread 6 30 True, sample_thread 7 20 False]"
  have "\<exists>r. thread_row_of ''a'' 1 (fold put_thread ?ts empty_state) = Some r \<and>
      (\<exists>t\<in>set ?ts. same_message r t) \<and> (\<forall>t\<in>set ?ts. as_late t r)"
    by (rule thread_shows_latest_message)
       (simp_all add: sample_thread_def same_message_def thread_row_of_def empty_state_def)
  then show ?thesis by (auto simp: sample_thread_def same_message_def as_late_def)
qed

theorem own_recipient_hides_later_ones_witness:
  "profile_recipients 1 [''me@x.org''] [] ([] @ \<lparr>ad_Name = [], ad_Addr = ''me@x.org''\<rparr> # [\<lparr>ad_Name = [], ad_Addr = ''bob@y.org''\<rparr>]) empty_state =
   profile_recipients 1 [''me@x.org''] [] [] empty_state"
  by (rule own_recipient_hides_later_ones) (simp add: own_has_def)

theorem scores_follow_open_findings_witness:
  "\<forall>s\<in>set (sd_senders (score_senders sample_state)). sn_score s =
     sum_list (map (severity_weight \<circ> an_severity) (open_anomalies (sn_address s) (score_senders sample_state)))"
proof -
  have "list_all (\<lambda>s. 0 \<le> sn_score s) (sd_senders sample_state)" by code_simp
  then show ?thesis by (intro scores_follow_open_findings) (simp add: list_all_iff)
qed

end
