(* ===== verification/Sandbox.thy ===== *)
theory Sandbox
  imports Complex_Main Imap_Prelude
begin

text \<open>
  The output writer (\<open>internal/output/writer.go\<close>), the one way the tools write files, with the functions
  of \<open>path/filepath\<close> it uses (Unix form). Symbolic links are not followed: the confinement is that of
  the path as text. The outcome of a system call is an input.
\<close>

section \<open>Package path/filepath\<close>

abbreviation slash :: char where "slash \<equiv> CHR ''/''"

definition is_abs :: "string \<Rightarrow> bool" where
  "is_abs p = has_prefix p [slash]"

text \<open>\<open>Clean\<close> reads the elements left to right; the list holds the kept ones, the last first.\<close>

definition clean_step :: "bool \<Rightarrow> string \<Rightarrow> string list \<Rightarrow> string list" where
  "clean_step rooted e kept =
     (if e = [] \<or> e = ''.'' then kept
      else if e = ''..'' then
        (if kept \<noteq> [] \<and> hd kept \<noteq> ''..'' then tl kept else if rooted then kept else e # kept)
      else e # kept)"

definition clean_elems :: "bool \<Rightarrow> string list \<Rightarrow> string list" where
  "clean_elems rooted es = rev (fold (clean_step rooted) es [])"

definition path_str :: "bool \<Rightarrow> string list \<Rightarrow> string" where
  "path_str rooted es = (if rooted then slash # str_join [slash] es else if es = [] then ''.'' else str_join [slash] es)"

definition path_clean :: "string \<Rightarrow> string" where
  "path_clean p = path_str (is_abs p) (clean_elems (is_abs p) (split_on slash p))"

definition path_join :: "string \<Rightarrow> string \<Rightarrow> string" where
  "path_join a b = (if a = [] \<and> b = [] then []
     else if a = [] then path_clean b else if b = [] then path_clean a else path_clean (a @ slash # b))"

text \<open>\<open>Rel\<close>: the common leading elements of both paths are dropped.\<close>

fun drop_common :: "string list \<Rightarrow> string list \<Rightarrow> string list \<times> string list" where
  "drop_common (b # bs) (t # ts) = (if b = t then drop_common bs ts else (b # bs, t # ts))"
| "drop_common bs ts = (bs, ts)"

definition path_elems :: "string \<Rightarrow> string list" where
  "path_elems p = clean_elems (is_abs p) (split_on slash p)"

definition path_rel :: "string \<Rightarrow> string \<Rightarrow> string option" where
  "path_rel base targ =
     (if is_abs base \<noteq> is_abs targ then None
      else (case drop_common (path_elems base) (path_elems targ) of
          ([], ts) \<Rightarrow> Some (path_str False ts)
        | (b # bs, ts) \<Rightarrow> (if b = ''..'' then None else Some (path_str False (replicate (length (b # bs)) ''..'' @ ts)))))"

section \<open>The writer\<close>

datatype output_error = NotConfigured | NameRequired | AbsoluteName | Traversal | Escapes | OsError

record writer =
  w_root :: string

text \<open>\<open>filepath.Abs\<close> joins a relative path with the process's directory.\<close>

definition path_abs :: "string \<Rightarrow> string \<Rightarrow> string" where
  "path_abs cwd p = (if is_abs p then path_clean p else path_join cwd p)"

definition new_writer :: "string \<Rightarrow> bool \<Rightarrow> string \<Rightarrow> output_error + writer" where
  "new_writer cwd mkdir_ok dir =
     (if dir = [] then Inl NotConfigured
      else if \<not> mkdir_ok then Inl OsError
      else Inr \<lparr>w_root = path_abs cwd dir\<rparr>)"

definition resolve :: "writer \<Rightarrow> string \<Rightarrow> output_error + string" where
  "resolve w name =
     (if name = [] then Inl NameRequired
      else if is_abs name then Inl AbsoluteName
      else if has_prefix (path_clean name) ''..'' then Inl Traversal
      else (case path_rel (w_root w) (path_join (w_root w) (path_clean name)) of
          None \<Rightarrow> Inl Escapes
        | Some r \<Rightarrow> if has_prefix r ''..'' then Inl Escapes
                    else Inr (path_join (w_root w) (path_clean name))))"

text \<open>The files on disk by absolute path.\<close>

type_synonym disk = "string \<rightharpoonup> string"

definition write_file :: "writer \<Rightarrow> bool \<Rightarrow> string \<Rightarrow> string \<Rightarrow> disk \<Rightarrow> (output_error + string) \<times> disk" where
  "write_file w os_ok name content fs =
     (case resolve w name of
        Inl e \<Rightarrow> (Inl e, fs)
      | Inr p \<Rightarrow> if os_ok then (Inr p, fs(p \<mapsto> content)) else (Inl OsError, fs))"

definition read_file :: "writer \<Rightarrow> string \<Rightarrow> disk \<Rightarrow> output_error + string" where
  "read_file w name fs =
     (case resolve w name of
        Inl e \<Rightarrow> Inl e
      | Inr p \<Rightarrow> (case fs p of None \<Rightarrow> Inl OsError | Some c \<Rightarrow> Inr c))"

definition delete_file :: "writer \<Rightarrow> string \<Rightarrow> disk \<Rightarrow> output_error option \<times> disk" where
  "delete_file w name fs =
     (case resolve w name of
        Inl e \<Rightarrow> (Some e, fs)
      | Inr p \<Rightarrow> (case fs p of None \<Rightarrow> (Some OsError, fs) | Some _ \<Rightarrow> (None, fs(p := None))))"

record file_info =
  fi_Name :: string
  fi_Path :: string

text \<open>\<open>List\<close>: the names \<open>os.ReadDir\<close> gives for the directory; \<open>None\<close> is a missing directory.\<close>

definition list_files :: "writer \<Rightarrow> string \<Rightarrow> (string \<Rightarrow> string list option) \<Rightarrow> output_error + file_info list" where
  "list_files w subdir read_dir =
     (case (if subdir = [] then Inr (w_root w) else resolve w subdir) of
        Inl e \<Rightarrow> Inl e
      | Inr base \<Rightarrow> (case read_dir base of
            None \<Rightarrow> Inr []
          | Some names \<Rightarrow> Inr (map (\<lambda>n. \<lparr>fi_Name = n,
                fi_Path = (case path_rel (w_root w) (path_join base n) of None \<Rightarrow> [] | Some r \<Rightarrow> r)\<rparr>) names)))"

section \<open>Clean paths\<close>

text \<open>A path element that names something: not empty, no separator, neither dot nor dot-dot.\<close>

definition proper :: "string \<Rightarrow> bool" where
  "proper e \<longleftrightarrow> e \<noteq> [] \<and> e \<noteq> ''.'' \<and> e \<noteq> ''..'' \<and> slash \<notin> set e"

lemma properD: "proper e \<Longrightarrow> e \<noteq> [] \<and> e \<noteq> ''.'' \<and> e \<noteq> ''..'' \<and> slash \<notin> set e"
  by (simp add: proper_def)

text \<open>What \<open>Clean\<close> keeps: proper elements behind dot-dots, which only a relative path has.\<close>

definition kept_ok :: "bool \<Rightarrow> string list \<Rightarrow> bool" where
  "kept_ok rooted kept \<longleftrightarrow>
     (\<exists>ps n. kept = ps @ replicate n ''..'' \<and> (\<forall>p\<in>set ps. proper p) \<and> (rooted \<longrightarrow> n = 0))"

lemma kept_okI: "\<forall>p\<in>set ps. proper p \<Longrightarrow> (rooted \<longrightarrow> n = 0) \<Longrightarrow> kept_ok rooted (ps @ replicate n ''..'')"
  unfolding kept_ok_def by blast

lemma clean_step_ok:
  assumes "kept_ok rooted kept" "slash \<notin> set e"
  shows "kept_ok rooted (clean_step rooted e kept)"
proof -
  obtain ps n where k: "kept = ps @ replicate n ''..''" "\<forall>p\<in>set ps. proper p" "rooted \<longrightarrow> n = 0"
    using assms(1) unfolding kept_ok_def by blast
  consider "e = [] \<or> e = ''.''" | "e = ''..''" | "proper e" using assms(2) by (auto simp: proper_def)
  then show ?thesis
  proof cases
    case 1
    then show ?thesis using assms(1) by (auto simp: clean_step_def)
  next
    case 2
    show ?thesis
    proof (cases ps)
      case Nil
      have "kept_ok rooted (replicate n ''..'')" "\<not> rooted \<Longrightarrow> kept_ok rooted (replicate (Suc n) ''..'')"
        using kept_okI [of "[]" rooted n] kept_okI [of "[]" rooted "Suc n"] k(3) by simp_all
      then show ?thesis using 2 k(1) Nil by (cases n) (auto simp: clean_step_def)
    next
      case (Cons q qs)
      then have "kept_ok rooted (qs @ replicate n ''..'')" using k by (intro kept_okI) simp_all
      then show ?thesis using 2 k Cons by (simp add: clean_step_def proper_def)
    qed
  next
    case 3
    then have "kept_ok rooted ((e # ps) @ replicate n ''..'')" using k by (intro kept_okI) simp_all
    then show ?thesis using 3 k by (simp add: clean_step_def proper_def)
  qed
qed

lemma clean_fold_ok:
  "kept_ok rooted kept \<Longrightarrow> \<forall>e\<in>set es. slash \<notin> set e \<Longrightarrow> kept_ok rooted (fold (clean_step rooted) es kept)"
  by (induction es arbitrary: kept) (simp_all add: clean_step_ok)

lemma clean_push: "\<forall>e\<in>set es. proper e \<Longrightarrow> fold (clean_step rooted) es kept = rev es @ kept"
  by (induction es arbitrary: kept) (simp_all add: clean_step_def proper_def)

lemma clean_dots: "fold (clean_step False) (replicate n ''..'') (replicate m ''..'') = replicate (n + m) ''..''"
proof (induction n arbitrary: m)
  case (Suc n)
  have "clean_step False ''..'' (replicate m ''..'') = replicate (Suc m) ''..''"
    by (cases m) (simp_all add: clean_step_def)
  then have "fold (clean_step False) (replicate (Suc n) ''..'') (replicate m ''..'') =
      fold (clean_step False) (replicate n ''..'') (replicate (Suc m) ''..'')" by (simp only: replicate_Suc fold_simps)
  then show ?case by (simp only: Suc.IH) simp
qed simp

text \<open>The elements of any path.\<close>

lemma path_elems_shape:
  "\<exists>n ps. path_elems p = replicate n ''..'' @ ps \<and> (\<forall>e\<in>set ps. proper e) \<and> (is_abs p \<longrightarrow> n = 0)"
proof -
  have "kept_ok (is_abs p) (fold (clean_step (is_abs p)) (split_on slash p) [])"
    by (rule clean_fold_ok) (use kept_okI [of "[]" _ 0] split_on_not_in in auto)
  then obtain ps n where "fold (clean_step (is_abs p)) (split_on slash p) [] = ps @ replicate n ''..''"
      "\<forall>e\<in>set ps. proper e" "is_abs p \<longrightarrow> n = 0" unfolding kept_ok_def by blast
  then have "path_elems p = replicate n ''..'' @ rev ps \<and> (\<forall>e\<in>set (rev ps). proper e) \<and> (is_abs p \<longrightarrow> n = 0)"
    by (simp add: path_elems_def clean_elems_def)
  then show ?thesis by blast
qed

lemma is_abs_path_str: "\<forall>e\<in>set es. slash \<notin> set e \<and> e \<noteq> [] \<Longrightarrow> is_abs (path_str r es) = r"
proof (cases "r \<or> es = []")
  case False
  assume "\<forall>e\<in>set es. slash \<notin> set e \<and> e \<noteq> []"
  with False have "hd (str_join [slash] es) \<noteq> slash" "str_join [slash] es \<noteq> []"
    using str_join_ends [of es "[slash]"] by (metis hd_in_set)+
  then show ?thesis using False by (cases "str_join [slash] es") (simp_all add: is_abs_def path_str_def has_prefix_def)
qed (auto simp: is_abs_def path_str_def has_prefix_def)

lemma path_elems_path_str:
  assumes "\<forall>e\<in>set ps. proper e" "r \<longrightarrow> n = 0"
  shows "path_elems (path_str r (replicate n ''..'' @ ps)) = replicate n ''..'' @ ps"
proof -
  let ?es = "replicate n ''..'' @ ps"
  have ok: "\<forall>e\<in>set ?es. slash \<notin> set e \<and> e \<noteq> []"
  proof
    fix e assume "e \<in> set ?es"
    then have "e = ''..'' \<or> proper e" using assms(1) by auto
    then show "slash \<notin> set e \<and> e \<noteq> []" by (auto simp: proper_def)
  qed
  have split: "split_on slash (str_join [slash] ?es) = ?es" if "?es \<noteq> []"
    by (rule split_on_join [OF that]) (use ok in blast)
  have abs: "is_abs (path_str r ?es) = r" by (rule is_abs_path_str [OF ok])
  show ?thesis
  proof (cases "?es = []")
    case True
    then show ?thesis using abs by (cases r) (simp_all add: path_elems_def clean_elems_def path_str_def clean_step_def)
  next
    case False
    have run: "fold (clean_step r) ?es [] = rev ps @ replicate n ''..''"
    proof (cases r)
      case True
      then show ?thesis using assms clean_push [of ps r "[]"] by simp
    next
      case False
      then show ?thesis using assms(1) clean_push [of ps r "replicate n ''..''"] clean_dots [of n 0] by simp
    qed
    have "fold (clean_step r) (split_on slash (path_str r ?es)) [] = rev ps @ replicate n ''..''"
    proof (cases r)
      case True
      then have "split_on slash (path_str r ?es) = [] # ?es" using split [OF False] by (simp add: path_str_def)
      then show ?thesis using run by (simp add: clean_step_def)
    next
      case r: False
      then have "split_on slash (path_str r ?es) = ?es" using split [OF False] False by (simp add: path_str_def)
      then show ?thesis using run by simp
    qed
    then show ?thesis by (simp add: path_elems_def clean_elems_def abs)
  qed
qed

lemma path_clean_elems: "path_clean p = path_str (is_abs p) (path_elems p)"
  by (simp add: path_clean_def path_elems_def)

lemma path_clean_ne: "path_clean p \<noteq> []"
proof -
  obtain n ps where s: "path_elems p = replicate n ''..'' @ ps" "\<forall>e\<in>set ps. proper e" using path_elems_shape by blast
  have "\<forall>e\<in>set (path_elems p). e \<noteq> []"
  proof
    fix e assume "e \<in> set (path_elems p)"
    then have "e = ''..'' \<or> proper e" using s by auto
    then show "e \<noteq> []" by (auto simp: proper_def)
  qed
  then have "path_elems p \<noteq> [] \<Longrightarrow> str_join [slash] (path_elems p) \<noteq> []" using str_join_ends by blast
  then show ?thesis by (cases "is_abs p"; cases "path_elems p = []") (simp_all add: path_clean_elems path_str_def)
qed

text \<open>Joining an absolute clean path and a path whose elements are proper.\<close>

lemma path_join_proper:
  assumes rs: "\<forall>e\<in>set rs. proper e" and c: "c \<noteq> []" "path_elems c = ps" "\<not> is_abs c" "\<forall>e\<in>set ps. proper e"
    and c_split: "\<forall>kept. fold (clean_step True) (split_on slash c) kept = rev ps @ kept"
  shows "path_join (path_str True rs) c = path_str True (rs @ ps)"
proof -
  let ?root = "path_str True rs"
  have "?root \<noteq> []" "is_abs ?root" by (simp_all add: path_str_def is_abs_def has_prefix_def)
  then have join: "path_join ?root c = path_clean (?root @ slash # c)" "is_abs (?root @ slash # c)"
    using c(1) by (auto simp: path_join_def is_abs_def has_prefix_iff)
  have "rev (fold (clean_step True) (split_on slash ?root) []) = rs"
    using path_elems_path_str [of rs True 0] rs \<open>is_abs ?root\<close> by (simp add: path_elems_def clean_elems_def)
  then have "fold (clean_step True) (split_on slash ?root) [] = rev rs" by (metis rev_rev_ident)
  then show ?thesis using c_split
    by (simp add: join path_clean_def clean_elems_def split_on_append_sep)
qed

lemma split_proper:
  assumes "\<forall>e\<in>set ps. proper e"
  shows "fold (clean_step True) (split_on slash (path_str False ps)) kept = rev ps @ kept"
proof (cases "ps = []")
  case True
  then show ?thesis by (simp add: path_str_def clean_step_def)
next
  case False
  then have "split_on slash (path_str False ps) = ps"
    using assms by (simp add: path_str_def split_on_join proper_def)
  then show ?thesis using clean_push [OF assms] by simp
qed

lemma drop_common_prefix: "drop_common rs (rs @ ps) = ([], ps)"
  by (induction rs) (cases ps; simp)+

lemma path_rel_inside:
  assumes "\<forall>e\<in>set rs. proper e" "\<forall>e\<in>set ps. proper e"
  shows "path_rel (path_str True rs) (path_str True (rs @ ps)) = Some (path_str False ps)"
proof -
  have "path_elems (path_str True rs) = rs" "path_elems (path_str True (rs @ ps)) = rs @ ps"
    using path_elems_path_str [of rs True 0] path_elems_path_str [of "rs @ ps" True 0] assms by auto
  then show ?thesis using drop_common_prefix [of rs ps] by (simp add: path_rel_def is_abs_def path_str_def has_prefix_def)
qed

lemma dotdot_prefix:
  assumes "\<forall>e\<in>set es. slash \<notin> set e \<and> e \<noteq> []"
  shows "has_prefix (path_str False es) ''..'' \<longleftrightarrow> es \<noteq> [] \<and> has_prefix (hd es) ''..''"
proof (cases es)
  case Nil
  then show ?thesis by (simp add: path_str_def has_prefix_def)
next
  case (Cons e es')
  then obtain x xs where e: "e = x # xs" "slash \<noteq> x" using assms by (cases e) auto
  show ?thesis using Cons e by (cases es'; cases xs) (auto simp: path_str_def has_prefix_def)
qed

section \<open>Confinement\<close>

definition writer_ok :: "writer \<Rightarrow> bool" where
  "writer_ok w \<longleftrightarrow> (\<exists>rs. w_root w = path_str True rs \<and> (\<forall>e\<in>set rs. proper e))"

text \<open>The paths at and below the working directory.\<close>

definition inside :: "writer \<Rightarrow> string \<Rightarrow> bool" where
  "inside w p \<longleftrightarrow> (\<exists>es. p = path_str True (path_elems (w_root w) @ es) \<and>
     (\<forall>e\<in>set (path_elems (w_root w) @ es). proper e))"

lemma new_writer_ok:
  assumes "new_writer cwd ok dir = Inr w" "is_abs cwd"
  shows "writer_ok w"
proof -
  have root: "w_root w = path_abs cwd dir" "dir \<noteq> []" using assms(1) by (auto simp: new_writer_def split: if_splits)
  have "is_abs (cwd @ slash # dir)" "cwd \<noteq> []" using assms(2) by (auto simp: is_abs_def has_prefix_iff)
  then obtain q where q: "w_root w = path_clean q" "is_abs q"
    using root by (cases "is_abs dir") (auto simp: path_abs_def path_join_def)
  obtain n ps where "path_elems q = replicate n ''..'' @ ps" "\<forall>e\<in>set ps. proper e" "is_abs q \<longrightarrow> n = 0"
    using path_elems_shape by blast
  then have "w_root w = path_str True ps" "\<forall>e\<in>set ps. proper e" using q by (simp_all add: path_clean_elems)
  then show ?thesis unfolding writer_ok_def by blast
qed

text \<open>An accepted name cleans to proper elements only.\<close>

lemma accepted_name:
  assumes "\<not> is_abs name" "\<not> has_prefix (path_clean name) ''..''"
  shows "(\<forall>e\<in>set (path_elems name). proper e) \<and> path_clean name = path_str False (path_elems name)"
proof -
  obtain n ps where s: "path_elems name = replicate n ''..'' @ ps" "\<forall>e\<in>set ps. proper e" using path_elems_shape by blast
  have c: "path_clean name = path_str False (path_elems name)" using assms(1) by (simp add: path_clean_elems)
  have "n = 0"
  proof (rule ccontr)
    assume "n \<noteq> 0"
    then obtain m where m: "path_elems name = ''..'' # (replicate m ''..'' @ ps)" using s(1) by (cases n) simp_all
    have "has_prefix (path_clean name) ''..''"
      unfolding c m by (cases "replicate m ''..'' @ ps") (simp_all add: path_str_def has_prefix_def)
    with assms(2) show False by blast
  qed
  with s c show ?thesis by simp
qed

lemma resolve_eq:
  assumes w: "writer_ok w"
  shows "resolve w name = (if name = [] then Inl NameRequired else if is_abs name then Inl AbsoluteName
    else if has_prefix (path_clean name) ''..'' then Inl Traversal
    else Inr (path_str True (path_elems (w_root w) @ path_elems name)))"
proof (cases "name = [] \<or> is_abs name \<or> has_prefix (path_clean name) ''..''")
  case True
  then show ?thesis by (auto simp: resolve_def)
next
  case False
  obtain rs where rs: "w_root w = path_str True rs" "\<forall>e\<in>set rs. proper e" using w unfolding writer_ok_def by blast
  have root: "path_elems (w_root w) = rs" using path_elems_path_str [of rs True 0] rs by simp
  let ?ps = "path_elems name"
  have ps: "\<forall>e\<in>set ?ps. proper e" and c: "path_clean name = path_str False ?ps" using accepted_name False by auto
  have ok: "\<forall>e\<in>set ?ps. slash \<notin> set e \<and> e \<noteq> []" using ps by (auto simp: proper_def)
  have el: "path_elems (path_str False ?ps) = ?ps" using path_elems_path_str [of ?ps False 0] ps by simp
  have "path_join (path_str True rs) (path_str False ?ps) = path_str True (rs @ ?ps)"
  proof (rule path_join_proper [OF rs(2) _ el _ ps])
    show "path_str False ?ps \<noteq> []" using path_clean_ne [of name] by (simp add: c)
    show "\<not> is_abs (path_str False ?ps)" by (simp add: is_abs_path_str [OF ok])
    show "\<forall>kept. fold (clean_step True) (split_on slash (path_str False ?ps)) kept = rev ?ps @ kept"
      using split_proper [OF ps] by blast
  qed
  moreover have "path_rel (path_str True rs) (path_str True (rs @ ?ps)) = Some (path_str False ?ps)"
    by (rule path_rel_inside [OF rs(2) ps])
  ultimately show ?thesis using False by (simp add: resolve_def c rs(1) root [unfolded rs(1)])
qed

lemma resolve_inside:
  assumes w: "writer_ok w" and r: "resolve w name = Inr p"
  shows "inside w p"
proof -
  obtain rs where rs: "w_root w = path_str True rs" "\<forall>e\<in>set rs. proper e" using w unfolding writer_ok_def by blast
  have root: "path_elems (w_root w) = rs" using path_elems_path_str [of rs True 0] rs by simp
  have "p = path_str True (rs @ path_elems name)" "\<not> is_abs name" "\<not> has_prefix (path_clean name) ''..''"
    using r unfolding resolve_eq [OF w] root by (auto split: if_splits)
  then show ?thesis using accepted_name [of name] rs(2) unfolding inside_def root by auto
qed

text \<open>C20: Whatever name a tool is given, writing and deleting change only files at or below the working
  directory, at a path without dot-dot elements; and a name is refused only when it is empty,
  absolute, or cleans to something that begins with two dots - the second check of the joined path
  never fires.\<close>
theorem writes_stay_inside:
  assumes "new_writer cwd ok dir = Inr w" "is_abs cwd"
  shows "(\<forall>p. snd (write_file w os_ok name content fs) p \<noteq> fs p \<longrightarrow> inside w p) \<and>
    (\<forall>p. snd (delete_file w name fs) p \<noteq> fs p \<longrightarrow> inside w p) \<and>
    resolve w name \<noteq> Inl Escapes \<and>
    ((\<exists>p. resolve w name = Inr p) \<longleftrightarrow> name \<noteq> [] \<and> \<not> is_abs name \<and> \<not> has_prefix (path_clean name) ''..'')"
proof -
  have w: "writer_ok w" by (rule new_writer_ok [OF assms])
  have "\<forall>p. snd (write_file w os_ok name content fs) p \<noteq> fs p \<longrightarrow> inside w p"
    using resolve_inside [OF w] by (auto simp: write_file_def split: sum.splits if_splits)
  moreover have "\<forall>p. snd (delete_file w name fs) p \<noteq> fs p \<longrightarrow> inside w p"
    using resolve_inside [OF w] by (auto simp: delete_file_def split: sum.splits option.splits if_splits)
  ultimately show ?thesis by (simp add: resolve_eq [OF w])
qed

definition tool_writer :: writer where
  "tool_writer = \<lparr>w_root = ''/srv/out''\<rparr>"

theorem writes_stay_inside_witness:
  "inside tool_writer ''/srv/out/b'' \<and> resolve tool_writer ''a/../../x'' = Inl Traversal"
proof -
  have w: "new_writer ''/srv'' True ''./out/'' = Inr tool_writer" "is_abs ''/srv''" by code_simp+
  have n: "resolve tool_writer ''a/../b'' = Inr ''/srv/out/b''" "resolve tool_writer ''a/../../x'' = Inl Traversal" by code_simp+
  have "snd (write_file tool_writer True ''a/../b'' ''hi'' Map.empty) ''/srv/out/b'' \<noteq> None"
    by (simp add: write_file_def n)
  with writes_stay_inside [OF w, of True "''a/../b''" "''hi''" Map.empty] n show ?thesis by auto
qed

section \<open>Listing\<close>

lemma join_entry:
  assumes rs: "\<forall>e\<in>set rs. proper e" and n: "proper n"
  shows "path_join (path_str True rs) n = path_str True (rs @ [n])"
proof (rule path_join_proper [OF rs])
  have split: "split_on slash n = [n]" using n by (simp add: proper_def split_on_single)
  show "n \<noteq> []" "\<not> is_abs n" using n by (auto simp: proper_def is_abs_def has_prefix_iff)
  then show "path_elems n = [n]" using n by (simp add: path_elems_def clean_elems_def split clean_step_def proper_def)
  show "\<forall>e\<in>set [n]. proper e" using n by simp
  show "\<forall>kept. fold (clean_step True) (split_on slash n) kept = rev [n] @ kept"
    using n by (simp add: split clean_step_def proper_def)
qed

lemma resolve_listed:
  assumes w: "writer_ok w" and ps: "\<forall>e\<in>set ps. proper e" "ps \<noteq> []" "\<not> has_prefix (hd ps) ''..''"
  shows "resolve w (path_str False ps) = Inr (path_str True (path_elems (w_root w) @ ps))"
proof -
  have ok: "\<forall>e\<in>set ps. slash \<notin> set e \<and> e \<noteq> []" using ps by (auto simp: proper_def)
  have el: "path_elems (path_str False ps) = ps" using path_elems_path_str [of ps False 0] ps by simp
  have abs: "\<not> is_abs (path_str False ps)" by (simp add: is_abs_path_str [OF ok])
  have clean: "path_clean (path_str False ps) = path_str False ps" by (simp add: path_clean_elems abs el)
  have "path_str False ps \<noteq> []" using path_clean_ne [of "path_str False ps"] by (simp add: clean)
  moreover have "\<not> has_prefix (path_str False ps) ''..''" using dotdot_prefix [OF ok] ps(3) by simp
  ultimately show ?thesis by (simp add: resolve_eq [OF w] abs clean el)
qed

lemma resolve_dotted:
  assumes w: "writer_ok w" and n: "proper n" "has_prefix n ''..''"
  shows "resolve w (path_str False [n]) = Inl Traversal"
proof -
  have ok: "\<forall>e\<in>set [n]. slash \<notin> set e \<and> e \<noteq> []" using n(1) by (auto simp: proper_def)
  have el: "path_elems (path_str False [n]) = [n]" using path_elems_path_str [of "[n]" False 0] n(1) by simp
  have abs: "\<not> is_abs (path_str False [n])" by (simp add: is_abs_path_str [OF ok])
  have clean: "path_clean (path_str False [n]) = path_str False [n]" by (simp add: path_clean_elems abs el)
  have "path_str False [n] \<noteq> []" using path_clean_ne [of "path_str False [n]"] by (simp add: clean)
  moreover have "has_prefix (path_str False [n]) ''..''" using dotdot_prefix [OF ok] n(2) by simp
  ultimately show ?thesis by (simp add: resolve_def abs clean)
qed

text \<open>C40: A path that a listing reports leads back to the listed entry: resolved as a name it gives the
  entry's absolute path, so what was written there is what a read returns. The exception is an entry directly
  in the working directory whose name begins with two dots: it is listed, and its path is
  refused as a traversal. The hypothesis on the name is what a directory holds: a name is not empty, has no slash and
  is not a dot or two.\<close>
theorem listed_path_leads_back:
  assumes "new_writer cwd ok dir = Inr w" "is_abs cwd"
    and "list_files w subdir read_dir = Inr infos" "fi \<in> set infos" "proper (fi_Name fi)"
  shows "\<exists>base. (if subdir = [] then Inr (w_root w) else resolve w subdir) = Inr base \<and>
    (if base = w_root w \<and> has_prefix (fi_Name fi) ''..'' then resolve w (fi_Path fi) = Inl Traversal
     else resolve w (fi_Path fi) = Inr (path_join base (fi_Name fi)) \<and>
       read_file w (fi_Path fi) (fs(path_join base (fi_Name fi) \<mapsto> content)) = Inr content)"
proof -
  have w: "writer_ok w" by (rule new_writer_ok [OF assms(1,2)])
  obtain rs where rs: "w_root w = path_str True rs" "\<forall>e\<in>set rs. proper e" using w unfolding writer_ok_def by blast
  have root: "path_elems (w_root w) = rs" using path_elems_path_str [of rs True 0] rs by simp
  obtain base where base: "(if subdir = [] then Inr (w_root w) else resolve w subdir) = Inr base"
    using assms(3) by (auto simp: list_files_def split: sum.splits if_splits)
  then have path: "fi_Path fi = (case path_rel (w_root w) (path_join base (fi_Name fi)) of None \<Rightarrow> [] | Some r \<Rightarrow> r)"
    using assms(3,4) by (auto simp: list_files_def split: option.splits)
  obtain ps where ps: "base = path_str True (rs @ ps)" "\<forall>e\<in>set ps. proper e" "ps \<noteq> [] \<longrightarrow> \<not> has_prefix (hd ps) ''..''"
  proof (cases "subdir = []")
    case True
    then show ?thesis using base rs that [of "[]"] by simp
  next
    case False
    then have r: "base = path_str True (rs @ path_elems subdir)" "\<not> is_abs subdir" "\<not> has_prefix (path_clean subdir) ''..''"
      using base unfolding resolve_eq [OF w] root by (auto split: if_splits)
    have a: "\<forall>e\<in>set (path_elems subdir). proper e" "path_clean subdir = path_str False (path_elems subdir)"
      using accepted_name [OF r(2,3)] by blast+
    then have "\<forall>e\<in>set (path_elems subdir). slash \<notin> set e \<and> e \<noteq> []" by (auto simp: proper_def)
    from dotdot_prefix [OF this] r(3) a show ?thesis by (intro that [OF r(1)]) auto
  qed
  let ?n = "fi_Name fi"
  have all: "\<forall>e\<in>set (rs @ ps). proper e" "\<forall>e\<in>set (ps @ [?n]). proper e" using rs(2) ps(2) assms(5) by auto
  have join: "path_join base ?n = path_str True (rs @ ps @ [?n])" using join_entry [OF all(1) assms(5)] ps(1) by simp
  then have rel: "fi_Path fi = path_str False (ps @ [?n])"
    using path_rel_inside [OF rs(2) all(2)] by (simp add: path rs(1))
  have "path_elems base = rs @ ps" using path_elems_path_str [of "rs @ ps" True 0] all(1) ps(1) by simp
  then have here: "base = w_root w \<longleftrightarrow> ps = []" using root ps(1) rs(1) by auto
  show ?thesis
  proof (cases "base = w_root w \<and> has_prefix ?n ''..''")
    case True
    then have "resolve w (fi_Path fi) = Inl Traversal" using resolve_dotted [OF w assms(5)] rel here by simp
    then show ?thesis using base True by auto
  next
    case False
    then have "\<not> has_prefix (hd (ps @ [?n])) ''..''" using ps(3) here by (cases ps) auto
    from resolve_listed [OF w all(2) _ this] have "resolve w (fi_Path fi) = Inr (path_join base ?n)"
      by (simp add: rel root join)
    then have "resolve w (fi_Path fi) = Inr (path_join base ?n) \<and>
        read_file w (fi_Path fi) (fs(path_join base ?n \<mapsto> content)) = Inr content" by (simp add: read_file_def)
    then show ?thesis using base False by auto
  qed
qed

theorem listed_path_leads_back_witness:
  "read_file tool_writer ''sub/x.txt'' [''/srv/out/sub/x.txt'' \<mapsto> ''hi''] = Inr ''hi'' \<and>
   resolve tool_writer ''..x'' = Inl Traversal"
proof -
  let ?dir = "\<lambda>p. if p = ''/srv/out/sub'' then Some [''x.txt''] else if p = ''/srv/out'' then Some [''..x''] else None"
  let ?fi = "\<lparr>fi_Name = ''x.txt'', fi_Path = ''sub/x.txt''\<rparr>" and ?fx = "\<lparr>fi_Name = ''..x'', fi_Path = ''..x''\<rparr>"
  have w: "new_writer ''/srv'' True ''./out/'' = Inr tool_writer" "is_abs ''/srv''" by code_simp+
  have l: "resolve tool_writer ''sub'' = Inr ''/srv/out/sub''" "path_join ''/srv/out/sub'' ''x.txt'' = ''/srv/out/sub/x.txt''"
    "path_rel (w_root tool_writer) ''/srv/out/sub/x.txt'' = Some ''sub/x.txt''" by code_simp+
  have lx: "path_join (w_root tool_writer) ''..x'' = ''/srv/out/..x''" "path_rel (w_root tool_writer) ''/srv/out/..x'' = Some ''..x''" by code_simp+
  have neq: "''/srv/out/sub'' \<noteq> w_root tool_writer" "w_root tool_writer = ''/srv/out''" by (simp_all add: tool_writer_def)
  have "list_files tool_writer ''sub'' ?dir = Inr [?fi]" using l by (simp add: list_files_def)
  from listed_path_leads_back [OF w this, of ?fi "\<lambda>_. None" "''hi''"] l neq(1)
  have "read_file tool_writer ''sub/x.txt'' [''/srv/out/sub/x.txt'' \<mapsto> ''hi''] = Inr ''hi''"
    by (auto simp: proper_def)
  moreover have "list_files tool_writer [] ?dir = Inr [?fx]" using lx neq(2) by (simp add: list_files_def)
  from listed_path_leads_back [OF w this, of ?fx] have "resolve tool_writer ''..x'' = Inl Traversal"
    by (auto simp: proper_def has_prefix_def)
  ultimately show ?thesis by simp
qed

end
