(* ===== verification/New_Sender.thy ===== *)
theory New_Sender
  imports State_DB
begin

text \<open>
  The hold for new senders (\<open>internal/service/newsender.go\<close>): who is new, the header signals, the
  judgement of one message, release detection and the record of held mail. \<open>None\<close> as the result of
  \<open>impersonation\<close> and of what calls it is a Go panic (an index out of range). Database errors, which
  end the run unchanged from where they occur, are not modelled.
\<close>

section \<open>Tables\<close>

definition DefaultNewSenderDays :: int where "DefaultNewSenderDays = 30"

definition holdScore :: nat where "holdScore = 2"

definition freemailDomains :: "string list" where
  "freemailDomains = [''gmail.com'', ''googlemail.com'', ''yahoo.com'', ''hotmail.com'',
     ''outlook.com'', ''live.com'', ''msn.com'', ''aol.com'',
     ''icloud.com'', ''me.com'', ''mac.com'', ''proton.me'',
     ''protonmail.com'', ''gmx.com'', ''mail.com'', ''yandex.com'',
     ''comcast.net'', ''att.net'', ''verizon.net'']"

definition throwawayTLDs :: "string list" where
  "throwawayTLDs = [''shop'', ''pro'', ''site'', ''top'', ''xyz'', ''click'',
     ''online'', ''store'', ''buzz'', ''icu'', ''rest'', ''cfd'',
     ''sbs'', ''lol'', ''mom'', ''bond'', ''cyou'', ''space'',
     ''ws'', ''live'', ''life'']"

text \<open>The brand patterns are alternatives of literals, optional parts and one repeated class, with
  or without a word boundary at the end; all begin at a word boundary.\<close>

datatype rx_atom = Lit string | Opt "string list" | Many "char list"

type_synonym rx_alt = "rx_atom list \<times> bool"   \<comment> \<open>ends at a word boundary\<close>

definition lits :: "string list \<Rightarrow> rx_alt list" where
  "lits ws = map (\<lambda>w. ([Lit w], True)) ws"

definition right_quote :: string where "right_quote = [CHR 0xE2, CHR 0x80, CHR 0x99]"

definition brands :: "(rx_alt list \<times> string list) list" where
  "brands = [
     (lits [''quickbooks'', ''qbo'', ''intuit''], [''intuit.com'']),
     (lits [''social security'', ''ssa.gov'', ''ssa''], [''ssa.gov'']),
     ([([Lit ''irs''], True), ([Lit ''internal reven'', Many ''ue'', Lit '' service''], True)], [''irs.gov'']),
     (lits [''federal reserve''], [''federalreserve.gov'', ''frb.org'']),
     (lits [''medicare''], [''medicare.gov'', ''cms.gov'']),
     ([([Lit ''state'', Opt ['' ''], Lit ''farm''], False)], [''statefarm.com'']),
     ([([Lit ''lowe'', Opt [right_quote, [CHR 0x27]], Lit ''s''], True)], [''lowes.com'']),
     (lits [''home depot''], [''homedepot.com'']),
     (lits [''amazon''], [''amazon.com'', ''amazonses.com'']),
     (lits [''paypal''], [''paypal.com'']),
     (lits [''apple'', ''icloud''], [''apple.com'', ''icloud.com'']),
     ([([Lit ''microsoft''], True), ([Lit ''office'', Opt ['' ''], Lit ''365''], True)], [''microsoft.com'', ''office.com'']),
     (lits [''netflix''], [''netflix.com'']),
     (lits [''norton'', ''mcafee'', ''geek squad''], [''norton.com'', ''mcafee.com'', ''bestbuy.com'']),
     (lits [''docusign''], [''docusign.net'', ''docusign.com'']),
     (lits [''fedex'', ''dhl'', ''usps''], [''fedex.com'', ''dhl.com'', ''usps.com'']),
     (lits [''chase'', ''wells fargo'', ''bank of america'', ''coinbase''],
        [''chase.com'', ''wellsfargo.com'', ''bankofamerica.com'', ''coinbase.com'']),
     (lits [''t-mobile'', ''verizon'', ''at&t''], [''t-mobile.com'', ''verizon.com'', ''verizonwireless.com'', ''att.com'']),
     (lits [''cbs news'', ''fox news'', ''cbs''], [''cbs.com'', ''cbsnews.com'', ''foxnews.com'']),
     (lits [''aaa'', ''garmin'', ''mychart'', ''nordvpn'', ''unitedhealthcare''],
        [''aaa.com'', ''garmin.com'', ''mychart.com'', ''nordvpn.com'', ''uhc.com''])]"

section \<open>Matching a brand (FindString: leftmost, first alternative, greedy)\<close>

definition word_char :: "char \<Rightarrow> bool" where
  "word_char c = (let n = (of_char c :: nat) in is_digit c \<or> (65 \<le> n \<and> n \<le> 90) \<or> (97 \<le> n \<and> n \<le> 122) \<or> c = CHR ''_'')"

definition first_char :: "string \<Rightarrow> char option" where
  "first_char s = (case s of [] \<Rightarrow> None | c # _ \<Rightarrow> Some c)"

definition boundary :: "char option \<Rightarrow> char option \<Rightarrow> bool" where
  "boundary a b = ((case a of None \<Rightarrow> False | Some c \<Rightarrow> word_char c) \<noteq> (case b of None \<Rightarrow> False | Some c \<Rightarrow> word_char c))"

text \<open>All ways to match the atoms here, the preferred one first: matched text and rest.\<close>

fun rx_match :: "rx_atom list \<Rightarrow> string \<Rightarrow> (string \<times> string) list" where
  "rx_match [] s = [([], s)]"
| "rx_match (Lit l # as) s =
     (if has_prefix s l then map (\<lambda>(m, r). (l @ m, r)) (rx_match as (drop (length l) s)) else [])"
| "rx_match (Opt ls # as) s =
     concat (map (\<lambda>l. if has_prefix s l then map (\<lambda>(m, r). (l @ m, r)) (rx_match as (drop (length l) s)) else []) ls) @ rx_match as s"
| "rx_match (Many cs # as) s =
     concat (map (\<lambda>n. map (\<lambda>(m, r). (take n s @ m, r)) (rx_match as (drop n s)))
       (rev [1..<Suc (length (takeWhile (\<lambda>c. c \<in> set cs) s))]))"

definition alt_match :: "rx_alt \<Rightarrow> char option \<Rightarrow> string \<Rightarrow> string option" where
  "alt_match p prev s =
     (if \<not> boundary prev (first_char s) then None
      else map_option fst (find (\<lambda>(m, r). snd p \<longrightarrow> boundary (first_char (rev m)) (first_char r)) (rx_match (fst p) s)))"

fun rx_here :: "rx_alt list \<Rightarrow> char option \<Rightarrow> string \<Rightarrow> string option" where
  "rx_here [] prev s = None"
| "rx_here (p # ps) prev s = (case alt_match p prev s of Some w \<Rightarrow> Some w | None \<Rightarrow> rx_here ps prev s)"

fun rx_find :: "rx_alt list \<Rightarrow> char option \<Rightarrow> string \<Rightarrow> string option" where
  "rx_find ps prev [] = rx_here ps prev []"
| "rx_find ps prev (c # cs) = (case rx_here ps prev (c # cs) of Some w \<Rightarrow> Some w | None \<Rightarrow> rx_find ps (Some c) cs)"

section \<open>Addresses and domains\<close>

definition bareAddr :: "string \<Rightarrow> string" where
  "bareAddr addr =
     (let a = to_lower (trim_space addr) in
      case last_index_char a (CHR ''<'') of None \<Rightarrow> a | Some i \<Rightarrow> trim_suffix (drop (i + 1) a) ''>'')"

definition sameOrg :: "string \<Rightarrow> string \<Rightarrow> bool" where
  "sameOrg d base = (d = base \<or> has_suffix d (CHR ''.'' # base))"

definition is_alpha :: "char \<Rightarrow> bool" where
  "is_alpha c = (word_char c \<and> \<not> is_digit c \<and> c \<noteq> CHR ''_'')"

definition throwawayDomain :: "string \<Rightarrow> bool" where
  "throwawayDomain dmn =
     (let labels = split_on (CHR ''.'') dmn; n = length labels in
      if n < 2 then False
      else if labels ! (n - 1) \<in> set throwawayTLDs then True
      else list_ex is_digit (labels ! (n - 2)) \<and> list_ex is_alpha (labels ! (n - 2)))"

definition notToOwner :: "string list \<Rightarrow> string \<Rightarrow> string list \<Rightarrow> bool" where
  "notToOwner recipients sender own =
     (recipients = [] \<or>
      list_all (\<lambda>r. \<not> (r \<in> set own \<or> (r \<noteq> sender \<and> domainOf r \<notin> set freemailDomains))) recipients)"

definition fakeReply :: "string \<Rightarrow> bool" where
  "fakeReply subject =
     list_ex (has_prefix (to_lower (trim_space subject))) [''re:'', ''re :'', ''fwd:'', ''fw:'']"

section \<open>The gate\<close>

record hold_gate =
  g_verdictOn :: bool
  g_threshold :: rat
  g_account :: string
  g_cutoff :: int
  g_own :: "string list"
  g_ownDomains :: "string list"
  g_ownLabels :: "string list"

datatype gate_error = NoIntel | ScanIncomplete nat nat

text \<open>The owner's addresses: \<open>logins\<close> are the user names and SMTP senders of all accounts, \<open>me\<close> the
  set of \<open>Service.me\<close>. Days are 24 hours: the clock change of the local zone is not modelled.\<close>

definition login_addrs :: "string list \<Rightarrow> string list" where
  "login_addrs logins = filter (\<lambda>a. str_contains a ''@'') (map bareAddr logins)"

definition new_sender_gate ::
  "bool \<Rightarrow> bool \<Rightarrow> rat \<Rightarrow> string list \<Rightarrow> string list \<Rightarrow> string \<Rightarrow> int \<Rightarrow> state_db \<Rightarrow> gate_error + hold_gate" where
  "new_sender_gate intel_on verdict_on threshold logins me account days d =
     (let rows = filter (\<lambda>r. is_account r = account) (sd_scan d);
          complete = length (filter (\<lambda>r. is_completed r \<noteq> None) rows);
          n = (if days \<le> 0 then DefaultNewSenderDays else days);
          addrs = login_addrs logins;
          doms = filter (\<lambda>x. x \<notin> set freemailDomains)
            (map domainOf addrs @ map (drop 1) (filter (\<lambda>e. has_prefix e ''@'') me))
      in if \<not> intel_on then Inl NoIntel
         else if rows = [] \<or> complete < length rows then Inl (ScanIncomplete complete (length rows))
         else Inr \<lparr>g_verdictOn = verdict_on, g_threshold = threshold, g_account = account,
           g_cutoff = sd_now d - n * 24 * 3600,
           g_own = addrs @ filter (\<lambda>e. \<not> has_prefix e ''@'') me, g_ownDomains = doms,
           g_ownLabels = filter (\<lambda>l. 3 \<le> length l) (map (\<lambda>x. hd (split_on (CHR ''.'') x)) doms)\<rparr>)"

definition known_sender :: "hold_gate \<Rightarrow> sender_row \<Rightarrow> bool" where
  "known_sender g s =
     (sn_sent s > 0 \<or> sn_reply_count s > 0 \<or> sn_trusted s \<or>
      (case sn_first s of None \<Rightarrow> False | Some t \<Rightarrow> t < g_cutoff g))"

definition is_new :: "hold_gate \<Rightarrow> state_db \<Rightarrow> string \<Rightarrow> bool" where
  "is_new g d addr0 =
     (let addr = bareAddr addr0; dmn = domainOf addr in
      if addr = [] then True
      else if addr \<in> set (g_own g) then False
      else if (case find_sender addr d of None \<Rightarrow> False | Some s \<Rightarrow> known_sender g s) then False
      else if dmn = [] \<or> dmn \<in> set freemailDomains then True
      else \<not> list_ex (\<lambda>s. sn_domain s = dmn \<and> (sn_sent s > 0 \<or> sn_trusted s)) (sd_senders d))"

section \<open>Signals\<close>

text \<open>A message as the gate reads it; the header fields are those of \<open>holdHeaderFields\<close>, parsed.\<close>

record hold_msg =
  ho_UID :: nat
  ho_Envelope :: "envelope option"
  ho_RefIDs :: "string list"
  ho_References :: string
  ho_ListUnsubscribe :: string
  ho_ListId :: string
  ho_Precedence :: string

datatype reason = OtherAddress | OwnDomainName | BorrowedBrand | FakeReply | NotToOwner | Bulk | Throwaway
  | AddressInSubject | RepliesElsewhere | Model string rat | Classified string

definition trim_right_of :: "string \<Rightarrow> string \<Rightarrow> string" where
  "trim_right_of chars s = rev (dropWhile (\<lambda>c. c \<in> set chars) (rev s))"

text \<open>The address a display name shows: \<open>strings.Fields(name[i+1:] + " ")[0]\<close>.\<close>

definition shown_address :: "string \<Rightarrow> string option" where
  "shown_address rest =
     (case str_fields (rest @ '' '') of [] \<Rightarrow> None | w # _ \<Rightarrow> Some (trim_right_of ''>)].,;:'' w))"

definition squash :: "string \<Rightarrow> string" where
  "squash w = filter (\<lambda>c. c \<notin> {CHR '' '', CHR ''-'', CHR 0x27}) (replace_all right_quote [] w)"

fun borrowed_brand :: "string \<Rightarrow> string \<Rightarrow> (rx_alt list \<times> string list) list \<Rightarrow> bool" where
  "borrowed_brand name dmn [] = False"
| "borrowed_brand name dmn ((re, ds) # bs) =
     (case rx_find re None name of
        None \<Rightarrow> borrowed_brand name dmn bs
      | Some w \<Rightarrow>
          (if list_ex (sameOrg dmn) ds then False
           else if 4 \<le> length (squash w) \<and> str_contains (filter (\<lambda>c. c \<noteq> CHR ''.'' \<and> c \<noteq> CHR ''-'') dmn) (squash w) then False
           else True))"

definition impersonation :: "hold_gate \<Rightarrow> string \<Rightarrow> string \<Rightarrow> reason option option" where
  "impersonation g name dmn =
     (if name = [] \<or> dmn = [] then Some None
      else (let later = (if list_ex (\<lambda>l. str_contains name l \<and> dmn \<notin> set (g_ownDomains g)) (g_ownLabels g) then Some OwnDomainName
                         else if borrowed_brand name dmn brands then Some BorrowedBrand else None) in
            case cut_at (CHR ''@'') name of
              None \<Rightarrow> Some later
            | Some (_, rest) \<Rightarrow>
                (case shown_address rest of
                   None \<Rightarrow> None
                 | Some shown \<Rightarrow> if str_contains shown ''.'' \<and> \<not> sameOrg dmn shown then Some (Some OtherAddress) else Some later)))"

definition answers_owner :: "envelope \<Rightarrow> string list \<Rightarrow> (string \<Rightarrow> int) \<Rightarrow> state_db \<Rightarrow> bool" where
  "answers_owner env refs hf d =
     list_ex (\<lambda>i. msg_hash hf i \<noteq> 0 \<and> list_ex (\<lambda>m. im_hash m = msg_hash hf i \<and> im_outgoing m) (sd_index d)) (en_InReplyTo env @ refs)"

definition recipients_of :: "envelope \<Rightarrow> string list" where
  "recipients_of env =
     filter (\<lambda>a. str_contains a ''@'' \<and> domainOf a \<noteq> []) (map bareAddr (en_To env @ en_Cc env))"

definition copies_contact :: "hold_gate \<Rightarrow> string list \<Rightarrow> string \<Rightarrow> state_db \<Rightarrow> bool" where
  "copies_contact g recipients sender d =
     list_ex (\<lambda>r. r \<notin> set (g_own g) \<and> r \<noteq> sender \<and> list_ex (\<lambda>s. sn_address s = r \<and> sn_sent s > 0) (sd_senders d)) recipients"

text \<open>The signals after the display name's, each with its weight.\<close>

definition header_signals :: "hold_gate \<Rightarrow> envelope \<Rightarrow> hold_msg \<Rightarrow> string \<Rightarrow> (nat \<times> reason) list" where
  "header_signals g env m sender =
     (let dmn = domainOf sender; p = to_lower (ho_Precedence m); subj = to_lower (en_Subject env) in
      (if fakeReply (en_Subject env) \<and> en_InReplyTo env = [] \<and> ho_References m = [] then [(2, FakeReply)] else []) @
      (if notToOwner (recipients_of env) sender (g_own g) then [(1, NotToOwner)] else []) @
      (if ho_ListUnsubscribe m \<noteq> [] \<or> ho_ListId m \<noteq> [] \<or> p = ''bulk'' \<or> p = ''list'' \<or> p = ''junk'' then [(1, Bulk)] else []) @
      (if throwawayDomain dmn then [(1, Throwaway)] else []) @
      (if list_ex (str_contains subj) (g_own g) then [(1, AddressInSubject)] else []) @
      (case en_ReplyTo env of [] \<Rightarrow> []
       | r # _ \<Rightarrow> (let rd = domainOf (bareAddr r) in
           if rd \<noteq> [] \<and> dmn \<noteq> [] \<and> \<not> sameOrg rd dmn \<and> \<not> sameOrg dmn rd then [(1, RepliesElsewhere)] else [])))"

definition signals :: "hold_gate \<Rightarrow> (string \<Rightarrow> int) \<Rightarrow> state_db \<Rightarrow> envelope \<Rightarrow> hold_msg \<Rightarrow> string \<Rightarrow> (bool \<times> (nat \<times> reason) list) option" where
  "signals g hf d env m sender =
     (if answers_owner env (ho_RefIDs m) hf d then Some (True, [])
      else if copies_contact g (recipients_of env) sender d then Some (True, [])
      else (case impersonation g (case en_From env of [] \<Rightarrow> [] | (_, n) # _ \<Rightarrow> to_lower n) (domainOf sender) of
              None \<Rightarrow> None
            | Some why \<Rightarrow> Some (False, (case why of None \<Rightarrow> [] | Some r \<Rightarrow> [(2, r)]) @ header_signals g env m sender)))"

section \<open>Judging a message\<close>

definition validHalls :: "string list" where
  "validHalls = [''transactional'', ''conversation'', ''newsletter'', ''notification'', ''alert'', ''personal'']"

text \<open>The hall of the cached message; the cache is its rows, or none without the cache.\<close>

definition hall_of :: "hold_gate \<Rightarrow> msg_row list option \<Rightarrow> string \<Rightarrow> string" where
  "hall_of g cache mid =
     (let i = trim_angle mid in
      case cache of None \<Rightarrow> [] | Some rows \<Rightarrow>
        (if i = [] then []
         else (case find (\<lambda>r. m_account r = g_account g \<and> m_message_id r \<in> {i, CHR ''<'' # i @ ''>''} \<and> m_hall r \<noteq> []) rows of
             None \<Rightarrow> []
           | Some r \<Rightarrow> (let h = trim_angle (to_lower (trim_space (m_hall r))) in if h \<in> set validHalls then h else []))))"

definition stored_verdict :: "string \<Rightarrow> (string \<Rightarrow> int) \<Rightarrow> string \<Rightarrow> state_db \<Rightarrow> verdict_row option" where
  "stored_verdict account hf mid d =
     (if msg_hash hf mid = 0 then None
      else find (\<lambda>v. vd_account v = account \<and> vd_hash v = msg_hash hf mid) (sd_verdicts d))"

definition judge ::
  "hold_gate \<Rightarrow> (string \<Rightarrow> int) \<Rightarrow> msg_row list option \<Rightarrow> state_db \<Rightarrow> envelope \<Rightarrow> hold_msg \<Rightarrow> string \<Rightarrow> (reason list \<times> bool) option" where
  "judge g hf cache d env m sender =
     (case signals g hf d env m sender of
        None \<Rightarrow> None
      | Some (is_real, sigs) \<Rightarrow>
          (let score = sum_list (map fst sigs); reasons = map snd sigs in
           if is_real then Some ([], False)
           else if holdScore \<le> score then Some (reasons, True)
           else if g_verdictOn g then
             (case stored_verdict (g_account g) hf (en_MessageID env) d of
                None \<Rightarrow> Some ([], False)
              | Some v \<Rightarrow>
                  (if vd_confidence v < g_threshold g then Some ([], False)
                   else if score = 1 \<and> (vd_verdict v = ''scam'' \<or> vd_verdict v = ''bulk'')
                   then Some (reasons @ [Model (vd_verdict v) (vd_confidence v)], True)
                   else if score = 0 \<and> vd_verdict v = ''scam'' then Some ([Model (vd_verdict v) (vd_confidence v)], True)
                   else Some ([], False)))
           else if score = 0 then Some ([], False)
           else (let hall = hall_of g cache (en_MessageID env) in
             if hall \<in> {[], ''conversation'', ''personal''} then Some ([], False)
             else Some (reasons @ [Classified hall], True))))"

section \<open>Releases and the filter\<close>

text \<open>A held message found again in the watched folder: the owner moved it back.\<close>

definition trust_sender :: "string \<Rightarrow> state_db \<Rightarrow> state_db" where
  "trust_sender addr d =
     sender_upsert addr (\<lambda>s. s\<lparr>sn_trusted := True\<rparr>)
       ((new_sender_row 0 addr (domainOf addr))\<lparr>sn_first := Some (sd_now d), sn_trusted := True\<rparr>) d"

definition released :: "hold_gate \<Rightarrow> int \<Rightarrow> string \<Rightarrow> bool \<Rightarrow> state_db \<Rightarrow> bool \<times> state_db" where
  "released g hash sender dry d =
     (if \<not> list_ex (\<lambda>r. hm_account r = g_account g \<and> hm_hash r = hash \<and> hm_released_at r = None) (sd_held d) then (False, d)
      else if dry then (True, d)
      else (let d1 = d\<lparr>sd_held := upd_rows (\<lambda>r. hm_account r = g_account g \<and> hm_hash r = hash)
                        (\<lambda>r. r\<lparr>hm_released_at := Some (sd_now d)\<rparr>) (sd_held d)\<rparr>
            in (True, if sender \<noteq> [] then trust_sender sender d1 else d1)))"

definition sender_of :: "envelope \<Rightarrow> string" where
  "sender_of env = (case en_From env of [] \<Rightarrow> [] | (a, _) # _ \<Rightarrow> bareAddr a)"

fun release_pass :: "hold_gate \<Rightarrow> (string \<Rightarrow> int) \<Rightarrow> bool \<Rightarrow> hold_msg list \<Rightarrow> string list \<times> state_db \<Rightarrow> string list \<times> state_db" where
  "release_pass g hf dry [] st = st"
| "release_pass g hf dry (m # ms) (rel, d) =
     (case ho_Envelope m of
        None \<Rightarrow> release_pass g hf dry ms (rel, d)
      | Some env \<Rightarrow>
          (if msg_hash hf (en_MessageID env) = 0 then release_pass g hf dry ms (rel, d)
           else (case released g (msg_hash hf (en_MessageID env)) (sender_of env) dry d of
               (True, d') \<Rightarrow> release_pass g hf dry ms (sender_of env # rel, d')
             | (False, d') \<Rightarrow> release_pass g hf dry ms (rel, d'))))"

record held_info =
  hi_ref :: string
  hi_sender :: string
  hi_subject :: string
  hi_reasons :: "reason list"
  hi_hash :: int

fun keep_pass ::
  "hold_gate \<Rightarrow> (string \<Rightarrow> int) \<Rightarrow> msg_row list option \<Rightarrow> state_db \<Rightarrow> string list \<Rightarrow> hold_msg list \<Rightarrow> (nat \<times> held_info) list option" where
  "keep_pass g hf cache d rel [] = Some []"
| "keep_pass g hf cache d rel (m # ms) =
     (case ho_Envelope m of
        None \<Rightarrow> keep_pass g hf cache d rel ms
      | Some env \<Rightarrow>
          (if sender_of env \<in> set rel \<or> \<not> is_new g d (sender_of env) then keep_pass g hf cache d rel ms
           else (case judge g hf cache d env m (sender_of env) of
               None \<Rightarrow> None
             | Some (reasons, hold) \<Rightarrow>
                 (if \<not> hold then keep_pass g hf cache d rel ms
                  else map_option (\<lambda>ks. (ho_UID m, \<lparr>hi_ref = trim_angle (en_MessageID env), hi_sender = sender_of env,
                       hi_subject = en_Subject env, hi_reasons = reasons, hi_hash = msg_hash hf (en_MessageID env)\<rparr>) # ks)
                     (keep_pass g hf cache d rel ms)))))"

text \<open>\<open>filter\<close>: the messages to hold and the state after the releases; \<open>None\<close> is a panic.\<close>

definition gate_filter ::
  "hold_gate \<Rightarrow> (string \<Rightarrow> int) \<Rightarrow> msg_row list option \<Rightarrow> bool \<Rightarrow> hold_msg list \<Rightarrow> state_db \<Rightarrow> ((nat \<times> held_info) list \<times> state_db) option" where
  "gate_filter g hf cache dry msgs d =
     (let (rel, d1) = release_pass g hf dry msgs ([], d)
      in map_option (\<lambda>ks. (ks, d1)) (keep_pass g hf cache d1 rel msgs))"

text \<open>\<open>record\<close>; \<open>show\<close> renders the reasons. A multi-byte character cut at byte 200 is dropped by the
  code, which the model does not show.\<close>

definition record_held :: "(reason list \<Rightarrow> string) \<Rightarrow> hold_gate \<Rightarrow> string \<Rightarrow> held_info \<Rightarrow> state_db \<Rightarrow> state_db" where
  "record_held render g folder h d =
     (if hi_hash h = 0 then d
      else d\<lparr>sd_held := upsert (\<lambda>r. hm_account r = g_account g \<and> hm_hash r = hi_hash h)
          (\<lambda>r. r\<lparr>hm_held_at := sd_now d, hm_released_at := None, hm_digested_at := None\<rparr>)
          \<lparr>hm_account = g_account g, hm_hash = hi_hash h, hm_ref = hi_ref h, hm_sender = hi_sender h,
           hm_subject = utf8_prefix 200 (hi_subject h), hm_reasons = render (hi_reasons h), hm_folder = folder,
           hm_held_at = sd_now d, hm_released_at = None, hm_digested_at = None, hm_decision = None\<rparr> (sd_held d)\<rparr>)"

definition record_all :: "(reason list \<Rightarrow> string) \<Rightarrow> hold_gate \<Rightarrow> string \<Rightarrow> (nat \<times> held_info) list \<Rightarrow> state_db \<Rightarrow> state_db" where
  "record_all render g folder ks d = fold (record_held render g folder \<circ> snd) ks d"

end
