(* ===== verification/Rules.thy ===== *)
theory Rules
  imports New_Sender
begin

text \<open>
  Rules (\<open>internal/db/rules.go\<close>, \<open>internal/service/rules.go\<close>): validation, the rule table, and applying a
  rule to a mailbox. The mail server is a parameter: a record of the calls the code makes, over a
  state of its own. As in \<open>New_Sender\<close>, the outer \<open>None\<close> of a run is a panic.
\<close>

section \<open>Validation\<close>

datatype rule_error =
    NoName | NoAction | MoveNeedsDest | FlagNeedsFlags | UnknownAction string | NoCondition | BadNewSenderDays
  | DuplicateName string | NoSuchRule int | IdRequired

fun validate_actions :: "rule_action list \<Rightarrow> rule_error option" where
  "validate_actions [] = None"
| "validate_actions (a # as) =
     (if ra_Type a = ''trash'' \<or> ra_Type a = ''seen'' then validate_actions as
      else if ra_Type a = ''move'' then (if ra_Dest a = [] then Some MoveNeedsDest else validate_actions as)
      else if ra_Type a = ''flag'' then (if ra_Flags a = [] then Some FlagNeedsFlags else validate_actions as)
      else Some (UnknownAction (ra_Type a)))"

definition ValidateRule :: "rule \<Rightarrow> rule_error option" where
  "ValidateRule r =
     (let c = r_Conditions r in
      if trim_space (r_Name r) = [] then Some NoName
      else if r_Actions r = [] then Some NoAction
      else (case validate_actions (r_Actions r) of
          Some e \<Rightarrow> Some e
        | None \<Rightarrow>
            (if rc_From c = [] \<and> rc_Subject c = [] \<and> rc_Text c = [] \<and> rc_OlderThanDays c = 0 \<and> \<not> rc_NewSender c then Some NoCondition
             else if rc_NewSenderDays c < 0 \<or> (rc_NewSenderDays c > 0 \<and> \<not> rc_NewSender c) then Some BadNewSenderDays
             else None)))"

section \<open>The rule table\<close>

definition with_priority :: "rule \<Rightarrow> rule" where
  "with_priority r = (if r_Priority r = 0 then r\<lparr>r_Priority := 100\<rparr> else r)"

definition rules_create :: "rule \<Rightarrow> state_db \<Rightarrow> (rule_error + int) \<times> state_db" where
  "rules_create r d =
     (if list_ex (\<lambda>x. r_Name x = r_Name r) (sd_rules d) then (Inl (DuplicateName (r_Name r)), d)
      else (Inr (sd_next_rule d),
            d\<lparr>sd_rules := sd_rules d @ [(with_priority r)\<lparr>r_ID := sd_next_rule d, r_RunCount := 0\<rparr>],
              sd_next_rule := sd_next_rule d + 1\<rparr>))"

definition rules_list :: "state_db \<Rightarrow> rule list" where
  "rules_list d = sort_key r_Priority (sort_key r_ID (sd_rules d))"

definition rules_get :: "int \<Rightarrow> state_db \<Rightarrow> rule_error + rule" where
  "rules_get i d = (case find (\<lambda>r. r_ID r = i) (rules_list d) of None \<Rightarrow> Inl (NoSuchRule i) | Some r \<Rightarrow> Inr r)"

definition rules_delete :: "int \<Rightarrow> state_db \<Rightarrow> rule_error option \<times> state_db" where
  "rules_delete i d =
     (if list_ex (\<lambda>r. r_ID r = i) (sd_rules d) then (None, d\<lparr>sd_rules := filter (\<lambda>r. r_ID r \<noteq> i) (sd_rules d)\<rparr>)
      else (Some (NoSuchRule i), d))"

definition increment_run :: "int \<Rightarrow> nat \<Rightarrow> state_db \<Rightarrow> state_db" where
  "increment_run i n d = d\<lparr>sd_rules := upd_rows (\<lambda>r. r_ID r = i) (\<lambda>r. r\<lparr>r_RunCount := r_RunCount r + int n\<rparr>) (sd_rules d)\<rparr>"

text \<open>An update whose name belongs to another rule violates the unique index; without a row for the
  id nothing is updated and nothing violated.\<close>

definition rules_update :: "rule \<Rightarrow> state_db \<Rightarrow> rule_error option \<times> state_db" where
  "rules_update r d =
     (if \<not> list_ex (\<lambda>x. r_ID x = r_ID r) (sd_rules d) then (Some (NoSuchRule (r_ID r)), d)
      else if list_ex (\<lambda>x. r_Name x = r_Name r \<and> r_ID x \<noteq> r_ID r) (sd_rules d) then (Some (DuplicateName (r_Name r)), d)
      else (None, d\<lparr>sd_rules := upd_rows (\<lambda>x. r_ID x = r_ID r)
          (\<lambda>x. (with_priority r)\<lparr>r_RunCount := r_RunCount x\<rparr>) (sd_rules d)\<rparr>))"

section \<open>The operations of the service\<close>

definition CreateRule :: "rule \<Rightarrow> state_db \<Rightarrow> (rule_error + int) \<times> state_db" where
  "CreateRule r d = (case ValidateRule r of Some e \<Rightarrow> (Inl e, d) | None \<Rightarrow> rules_create r d)"

definition UpdateRule :: "rule \<Rightarrow> state_db \<Rightarrow> rule_error option \<times> state_db" where
  "UpdateRule r d = (case ValidateRule r of Some e \<Rightarrow> (Some e, d) | None \<Rightarrow> rules_update r d)"

text \<open>A deleted learned rule becomes a dismissal.\<close>

definition forget_learned :: "int \<Rightarrow> state_db \<Rightarrow> state_db" where
  "forget_learned i d =
     d\<lparr>sd_learn := upd_rows (\<lambda>l. ls_rule l = Some i) (\<lambda>l. l\<lparr>ls_status := ''dismissed''\<rparr>) (sd_learn d)\<rparr>"

definition DeleteRule :: "int \<Rightarrow> state_db \<Rightarrow> rule_error option \<times> state_db" where
  "DeleteRule i d =
     (if i = 0 then (Some IdRequired, d)
      else (case rules_delete i d of
          (Some e, d') \<Rightarrow> (Some e, d')
        | (None, d') \<Rightarrow> (None, forget_learned i d')))"

section \<open>The mail server\<close>

record search_criteria =
  sc_From :: string
  sc_Subject :: string
  sc_Text :: string
  sc_Before :: "int option"
  sc_Since :: "int option"

text \<open>The IMAP calls of a rule run: \<open>None\<close> or \<open>False\<close> is an error answer. \<open>ms_ids\<close> are the Message-IDs
  of the given messages, those without one left out.\<close>

record 'm mail_server =
  ms_resolve :: "string \<Rightarrow> 'm \<Rightarrow> string option"
  ms_select :: "string \<Rightarrow> string \<Rightarrow> 'm \<Rightarrow> bool"
  ms_search :: "string \<Rightarrow> string \<Rightarrow> search_criteria \<Rightarrow> 'm \<Rightarrow> nat list option"
  ms_headers :: "string \<Rightarrow> string \<Rightarrow> nat list \<Rightarrow> 'm \<Rightarrow> hold_msg list option"
  ms_ids :: "string \<Rightarrow> string \<Rightarrow> nat list \<Rightarrow> 'm \<Rightarrow> string list option"
  ms_list :: "string \<Rightarrow> 'm \<Rightarrow> (string \<times> string list) list option"
  ms_move :: "string \<Rightarrow> string \<Rightarrow> nat list \<Rightarrow> string \<Rightarrow> 'm \<Rightarrow> bool \<times> 'm"
  ms_store :: "string \<Rightarrow> string \<Rightarrow> nat list \<Rightarrow> string list \<Rightarrow> 'm \<Rightarrow> bool \<times> 'm"

definition backslash :: char where "backslash = CHR 0x5C"

fun trash_of :: "(string \<times> string list) list \<Rightarrow> string \<Rightarrow> string option" where
  "trash_of [] named = (if named = [] then None else Some named)"
| "trash_of ((n, attrs) # bs) named =
     (if (backslash # ''Trash'') \<in> set attrs then Some n
      else trash_of bs (if n = ''[Gmail]/Trash'' \<or> n = ''Trash'' \<or> has_suffix n ''/Trash'' then n else named))"

definition ResolveTrash :: "'m mail_server \<Rightarrow> string \<Rightarrow> 'm \<Rightarrow> string option" where
  "ResolveTrash s account w = (case ms_list s account w of None \<Rightarrow> None | Some bs \<Rightarrow> trash_of bs [])"

definition ParseFlags :: "string \<Rightarrow> string list" where
  "ParseFlags s = map (\<lambda>f. if has_prefix f [backslash] then f else backslash # f)
     (filter (\<lambda>f. f \<noteq> []) (map trim_space (split_on (CHR '','') s)))"

section \<open>Applying a rule\<close>

datatype run_error =
    NoAccount | SelectFailed | GateFailed gate_error | SearchFailed | FetchFailed | NoTrash | MoveFailed | StoreFailed | BadAction

text \<open>What the service knows besides the databases.\<close>

record service =
  sv_hash :: "string \<Rightarrow> int"
  sv_intel_on :: bool
  sv_verdict_on :: bool
  sv_threshold :: rat
  sv_logins :: "string list"
  sv_also_me :: "string list"
  sv_cache :: "msg_row list option"
  sv_render :: "reason list \<Rightarrow> string"

definition NormalizeIdentity :: "string \<Rightarrow> string" where
  "NormalizeIdentity s =
     (let x = to_lower (trim_space s) in
      if \<not> str_contains x ''@'' \<or> list_ex (\<lambda>c. c \<in> {CHR '' '', CHR ''<'', CHR ''>''}) x then [] else x)"

definition me_set :: "service \<Rightarrow> state_db \<Rightarrow> string list" where
  "me_set sv d = login_addrs (sv_logins sv) @ filter (\<lambda>e. e \<noteq> []) (map NormalizeIdentity (sv_also_me sv)) @
     map fst (filter (\<lambda>(a, s). s = ''confirmed'' \<or> s = ''config'') (sd_identities d))"

definition service_gate :: "service \<Rightarrow> string \<Rightarrow> int \<Rightarrow> state_db \<Rightarrow> gate_error + hold_gate" where
  "service_gate sv account days d =
     new_sender_gate (sv_intel_on sv) (sv_verdict_on sv) (sv_threshold sv) (sv_logins sv) (me_set sv d) account days d"

fun run_actions ::
  "'m mail_server \<Rightarrow> string \<Rightarrow> string \<Rightarrow> nat list \<Rightarrow> rule_action list \<Rightarrow> 'm \<Rightarrow> run_error option \<times> 'm" where
  "run_actions s account folder uids [] w = (None, w)"
| "run_actions s account folder uids (a # as) w =
     (if ra_Type a = ''trash'' then
        (case ResolveTrash s account w of
           None \<Rightarrow> (Some NoTrash, w)
         | Some trash \<Rightarrow> (case ms_move s account folder uids trash w of
               (False, w') \<Rightarrow> (Some MoveFailed, w')
             | (True, w') \<Rightarrow> run_actions s account folder uids as w'))
      else if ra_Type a = ''move'' then
        (case ms_move s account folder uids (ra_Dest a) w of
           (False, w') \<Rightarrow> (Some MoveFailed, w')
         | (True, w') \<Rightarrow> run_actions s account folder uids as w')
      else if ra_Type a = ''flag'' then
        (case ms_store s account folder uids (ParseFlags (ra_Flags a)) w of
           (False, w') \<Rightarrow> (Some StoreFailed, w')
         | (True, w') \<Rightarrow> run_actions s account folder uids as w')
      else if ra_Type a = ''seen'' then
        (case ms_store s account folder uids [backslash # ''Seen''] w of
           (False, w') \<Rightarrow> (Some StoreFailed, w')
         | (True, w') \<Rightarrow> run_actions s account folder uids as w')
      else (Some BadAction, w))"

definition record_rule_move :: "(string \<Rightarrow> int) \<Rightarrow> string \<Rightarrow> rule \<Rightarrow> string \<Rightarrow> state_db \<Rightarrow> state_db" where
  "record_rule_move hf account r mid d =
     (let h = msg_hash hf mid; dest = (case r_Actions r of [] \<Rightarrow> [] | a # _ \<Rightarrow> ra_Dest a);
          row = \<lparr>rm_account = account, rm_hash = h, rm_rule = r_ID r, rm_dest = dest, rm_moved_at = sd_now d\<rparr>
      in if h = 0 then d
         else d\<lparr>sd_rule_moves := upsert (\<lambda>m. rm_account m = account \<and> rm_hash m = h) (\<lambda>m. row) row (sd_rule_moves d)\<rparr>)"

definition record_rule_moves :: "(string \<Rightarrow> int) \<Rightarrow> string \<Rightarrow> rule \<Rightarrow> string list \<Rightarrow> state_db \<Rightarrow> state_db" where
  "record_rule_moves hf account r mids d = fold (record_rule_move hf account r) mids d"

definition rule_criteria :: "rule_conditions \<Rightarrow> hold_gate option \<Rightarrow> int \<Rightarrow> search_criteria" where
  "rule_criteria c g now = \<lparr>sc_From = rc_From c, sc_Subject = rc_Subject c, sc_Text = rc_Text c,
     sc_Before = (if rc_OlderThanDays c > 0 then Some (now - rc_OlderThanDays c * 24 * 3600) else None),
     sc_Since = map_option g_cutoff g\<rparr>"

text \<open>The messages a rule acts on, what the gate knows of them, and the state after its releases.\<close>

definition rule_uids ::
  "'m mail_server \<Rightarrow> service \<Rightarrow> string \<Rightarrow> string \<Rightarrow> hold_gate option \<Rightarrow> bool \<Rightarrow> nat list \<Rightarrow> state_db \<Rightarrow> 'm \<Rightarrow>
     (run_error + (nat list \<times> (nat \<times> held_info) list \<times> state_db)) option" where
  "rule_uids s sv account folder g dry uids d w =
     (case g of
        None \<Rightarrow> Some (Inr (uids, [], d))
      | Some g \<Rightarrow>
          (if uids = [] then Some (Inr ([], [], d))
           else (case ms_headers s account folder uids w of
               None \<Rightarrow> Some (Inl FetchFailed)
             | Some msgs \<Rightarrow>
                 (case gate_filter g (sv_hash sv) (sv_cache sv) dry msgs d of
                    None \<Rightarrow> None
                  | Some (ks, d') \<Rightarrow> Some (Inr (map fst ks, ks, d'))))))"

record run_out =
  ro_matched :: nat
  ro_error :: "run_error option"
  ro_preview :: "(string \<times> reason list) list"

text \<open>The acting part, for a nonempty set of messages.\<close>

definition act_on ::
  "'m mail_server \<Rightarrow> service \<Rightarrow> rule \<Rightarrow> string \<Rightarrow> string \<Rightarrow> hold_gate option \<Rightarrow> nat list \<Rightarrow> (nat \<times> held_info) list \<Rightarrow> state_db \<Rightarrow> 'm \<Rightarrow>
     run_error option \<times> state_db \<times> 'm" where
  "act_on s sv r account folder g uids ks d w =
     (let moves = list_ex (\<lambda>a. ra_Type a = ''trash'' \<or> ra_Type a = ''move'') (r_Actions r) in
      case (if moves then ms_ids s account folder uids w else Some []) of
        None \<Rightarrow> (Some FetchFailed, d, w)
      | Some mids \<Rightarrow>
          (case run_actions s account folder uids (r_Actions r) w of
             (Some e, w') \<Rightarrow> (Some e, d, w')
           | (None, w') \<Rightarrow>
               (let d1 = record_rule_moves (sv_hash sv) account r mids d in
                (None,
                 (case g of None \<Rightarrow> d1
                  | Some g \<Rightarrow> record_all (sv_render sv) g
                      (case r_Actions r of [] \<Rightarrow> [] | a # _ \<Rightarrow> if ra_Type a = ''trash'' then ''Trash'' else ra_Dest a) ks d1),
                 w'))))"

text \<open>Account, folder, gate and the messages that match the conditions.\<close>

definition rule_target ::
  "'m mail_server \<Rightarrow> service \<Rightarrow> rule \<Rightarrow> state_db \<Rightarrow> 'm \<Rightarrow> run_error + (string \<times> string \<times> hold_gate option \<times> nat list)" where
  "rule_target s sv r d w =
     (let c = r_Conditions r; folder = (if rc_Folder c = [] then ''INBOX'' else rc_Folder c) in
      case ms_resolve s (rc_Account c) w of
        None \<Rightarrow> Inl NoAccount
      | Some account \<Rightarrow>
          (if \<not> ms_select s account folder w then Inl SelectFailed
           else (case (if rc_NewSender c then map_sum id Some (service_gate sv account (rc_NewSenderDays c) d) else Inr None) of
               Inl e \<Rightarrow> Inl (GateFailed e)
             | Inr g \<Rightarrow> (case ms_search s account folder (rule_criteria c g (sd_now d)) w of
                   None \<Rightarrow> Inl SearchFailed
                 | Some uids \<Rightarrow> Inr (account, folder, g, uids)))))"

definition apply_rule ::
  "'m mail_server \<Rightarrow> service \<Rightarrow> rule \<Rightarrow> bool \<Rightarrow> state_db \<Rightarrow> 'm \<Rightarrow> (run_out \<times> state_db \<times> 'm) option" where
  "apply_rule s sv r dry d w =
     (let fail = (\<lambda>e. Some (\<lparr>ro_matched = 0, ro_error = Some e, ro_preview = []\<rparr>, d, w)) in
      case rule_target s sv r d w of
        Inl e \<Rightarrow> fail e
      | Inr (account, folder, g, uids0) \<Rightarrow>
          (case rule_uids s sv account folder g dry uids0 d w of
             None \<Rightarrow> None
           | Some (Inl e) \<Rightarrow> fail e
           | Some (Inr (uids, ks, d1)) \<Rightarrow>
               (let out = \<lparr>ro_matched = length uids, ro_error = None,
                           ro_preview = (if g = None \<or> \<not> dry then [] else map (\<lambda>(u, h). (hi_sender h, hi_reasons h)) ks)\<rparr> in
                if uids = [] \<or> dry then Some (out, d1, w)
                else (case act_on s sv r account folder g uids ks d1 w of
                    (e, d2, w2) \<Rightarrow> Some (out\<lparr>ro_error := e\<rparr>, d2, w2)))))"

section \<open>Running the rules\<close>

record rule_fired =
  rf_account :: string
  rf_rule :: int
  rf_action :: string
  rf_matched :: nat

definition first_action :: "rule \<Rightarrow> string" where
  "first_action r = (case r_Actions r of [] \<Rightarrow> [] | a # _ \<Rightarrow> ra_Type a)"

definition is_selected :: "int \<Rightarrow> rule \<Rightarrow> bool" where
  "is_selected only r = (if only = 0 then r_Active r else r_ID r = only)"

text \<open>The results with their rule, the events, and the states.\<close>

fun run_rules ::
  "'m mail_server \<Rightarrow> service \<Rightarrow> bool \<Rightarrow> rule list \<Rightarrow> state_db \<Rightarrow> 'm \<Rightarrow>
     ((int \<times> run_out) list \<times> rule_fired list \<times> state_db \<times> 'm) option" where
  "run_rules s sv dry [] d w = Some ([], [], d, w)"
| "run_rules s sv dry (r # rs) d w =
     (case apply_rule s sv r dry d w of
        None \<Rightarrow> None
      | Some (out, d1, w1) \<Rightarrow>
          (let fired = ro_error out = None \<and> \<not> dry \<and> ro_matched out > 0;
               d2 = (if fired then increment_run (r_ID r) (ro_matched out) d1 else d1);
               ev = (if fired then [\<lparr>rf_account = rc_Account (r_Conditions r), rf_rule = r_ID r,
                       rf_action = first_action r, rf_matched = ro_matched out\<rparr>] else [])
           in map_option (\<lambda>(outs, evs, d', w'). ((r_ID r, out) # outs, ev @ evs, d', w')) (run_rules s sv dry rs d2 w1)))"

text \<open>\<open>RunActiveRules\<close> up to its hourly tail (learning is in \<open>Learn\<close>, the digest is not modelled).\<close>

definition run_selected ::
  "'m mail_server \<Rightarrow> service \<Rightarrow> int \<Rightarrow> bool \<Rightarrow> state_db \<Rightarrow> 'm \<Rightarrow> ((int \<times> run_out) list \<times> rule_fired list \<times> state_db \<times> 'm) option" where
  "run_selected s sv only dry d w = run_rules s sv dry (filter (is_selected only) (rules_list d)) d w"

definition TestRule :: "'m mail_server \<Rightarrow> service \<Rightarrow> int \<Rightarrow> state_db \<Rightarrow> 'm \<Rightarrow> (rule_error + (run_out \<times> state_db \<times> 'm)) option" where
  "TestRule s sv i d w =
     (case rules_get i d of Inl e \<Rightarrow> Some (Inl e) | Inr r \<Rightarrow> map_option Inr (apply_rule s sv r True d w))"

end
