(* ===== verification/Learn.thy ===== *)
theory Learn
  imports Rules Intel
begin

text \<open>
  Learning from moves (\<open>internal/service/learn.go\<close>): the tally of what the owner discarded, the
  exclusions, the suggested rules, dismissals and the hourly pass. The ratio is computed in float64,
  whose rounding is the parameter \<open>rnd\<close>.
\<close>

record learn_cfg =
  lc_Mode :: string
  lc_Ratio :: rat
  lc_MinDiscards :: int
  lc_DomainMinAddresses :: int
  lc_DiscardFolders :: "string list"

definition ModeOrDefault :: "learn_cfg \<Rightarrow> string" where
  "ModeOrDefault c = (if lc_Mode c = [] then ''suggest'' else lc_Mode c)"

definition RatioOrDefault :: "learn_cfg \<Rightarrow> rat" where
  "RatioOrDefault c = (if lc_Ratio c \<le> 0 then 4 / 5 else lc_Ratio c)"

definition MinDiscardsOrDefault :: "learn_cfg \<Rightarrow> int" where
  "MinDiscardsOrDefault c = (if lc_MinDiscards c \<le> 0 then 3 else lc_MinDiscards c)"

definition DomainMinOrDefault :: "learn_cfg \<Rightarrow> int" where
  "DomainMinOrDefault c = (if lc_DomainMinAddresses c \<le> 0 then 2 else lc_DomainMinAddresses c)"

definition learnedRulePrefix :: string where "learnedRulePrefix = ''learned: ''"

section \<open>Discards\<close>

definition discard_folders :: "'m mail_server \<Rightarrow> learn_cfg \<Rightarrow> string \<Rightarrow> 'm \<Rightarrow> (string \<times> string) list option" where
  "discard_folders s c account w =
     map_option (\<lambda>bs. filter (\<lambda>(n, k). k \<noteq> []) (map (\<lambda>(n, attrs). (n, discard_kind n attrs (lc_DiscardFolders c))) bs))
       (ms_list s account w)"

definition by_rule :: "string \<Rightarrow> int \<Rightarrow> state_db \<Rightarrow> bool" where
  "by_rule account hash d = list_ex (\<lambda>m. rm_account m = account \<and> rm_hash m = hash) (sd_rule_moves d)"

definition received_rows :: "string \<Rightarrow> sender_row \<Rightarrow> state_db \<Rightarrow> intel_row list" where
  "received_rows account s d =
     filter (\<lambda>m. im_sender m = Some (sn_id s) \<and> im_account m = account \<and> \<not> im_outgoing m) (sd_index d)"

text \<open>The messages of a sender the owner discarded: in a discard folder now, and not put there by a rule.\<close>

definition own_discards :: "string \<Rightarrow> (string \<times> string) list \<Rightarrow> sender_row \<Rightarrow> state_db \<Rightarrow> intel_row list" where
  "own_discards account kinds s d =
     filter (\<lambda>m. (case im_folder m of None \<Rightarrow> False | Some f \<Rightarrow> f \<in> fst ` set kinds) \<and> \<not> by_rule account (im_hash m) d)
       (received_rows account s d)"

record tally =
  ta_address :: string
  ta_domain :: string
  ta_name :: string
  ta_received :: nat
  ta_discarded :: nat
  ta_byFolder :: "(string \<times> nat) list"

text \<open>How often each folder occurs, in order of first occurrence.\<close>

definition count_folders :: "string list \<Rightarrow> (string \<times> nat) list" where
  "count_folders fs = map (\<lambda>f. (f, length (filter (\<lambda>g. g = f) fs))) (remdups fs)"

definition tally_of :: "string \<Rightarrow> (string \<times> string) list \<Rightarrow> state_db \<Rightarrow> sender_row \<Rightarrow> tally" where
  "tally_of account kinds d s =
     (let ms = own_discards account kinds s d in
      \<lparr>ta_address = sn_address s, ta_domain = sn_domain s, ta_name = sn_name s,
       ta_received = length (received_rows account s d), ta_discarded = length ms,
       ta_byFolder = count_folders (map (\<lambda>m. case im_folder m of None \<Rightarrow> [] | Some f \<Rightarrow> f) ms)\<rparr>)"

definition never_contacted :: "sender_row \<Rightarrow> bool" where
  "never_contacted s = (sn_sent s = 0 \<and> sn_reply_count s = 0 \<and> \<not> sn_trusted s)"

definition candidates ::
  "(rat \<Rightarrow> rat) \<Rightarrow> learn_cfg \<Rightarrow> string \<Rightarrow> (string \<times> string) list \<Rightarrow> state_db \<Rightarrow> tally list" where
  "candidates rnd c account kinds d =
     filter (\<lambda>t. MinDiscardsOrDefault c \<le> int (ta_discarded t) \<and> ta_received t \<noteq> 0 \<and>
                 RatioOrDefault c \<le> rnd (of_nat (ta_discarded t) / of_nat (ta_received t)))
       (map (tally_of account kinds d) (filter (\<lambda>s. never_contacted s \<and> own_discards account kinds s d \<noteq> []) (sd_senders d)))"

section \<open>Exclusions\<close>

record exclusions =
  ex_me :: "string list"
  ex_own :: "string list"
  ex_ownDomains :: "string list"
  ex_held :: "string list"
  ex_froms :: "string list"
  ex_state :: "(string \<times> string) list"
  ex_rule :: "(string \<times> int) list"

definition me_has :: "string list \<Rightarrow> string \<Rightarrow> bool" where
  "me_has me addr0 = (let addr = to_lower addr0; dmn = domainOf addr in
     addr \<in> set me \<or> (dmn \<noteq> [] \<and> (CHR ''@'' # dmn) \<in> set me))"

definition is_covered :: "exclusions \<Rightarrow> string \<Rightarrow> bool" where
  "is_covered ex target = list_ex (str_contains (to_lower target)) (ex_froms ex)"

definition state_of :: "exclusions \<Rightarrow> string \<Rightarrow> string" where
  "state_of ex target = (case map_of (ex_state ex) target of None \<Rightarrow> [] | Some s \<Rightarrow> s)"

definition learn_exclusions :: "service \<Rightarrow> string \<Rightarrow> string \<Rightarrow> state_db \<Rightarrow> exclusions" where
  "learn_exclusions sv default_account account d =
     \<lparr>ex_me = me_set sv d, ex_own = login_addrs (sv_logins sv),
      ex_ownDomains = filter (\<lambda>x. x \<notin> set freemailDomains) (map domainOf (login_addrs (sv_logins sv))),
      ex_held = map (\<lambda>h. bareAddr (hm_sender h)) (filter (\<lambda>h. hm_account h = account) (sd_held d)),
      ex_froms = map (\<lambda>r. to_lower (trim_space (rc_From (r_Conditions r))))
        (filter (\<lambda>r. let c = r_Conditions r in (if rc_Account c = [] then default_account else rc_Account c) = account \<and>
            trim_space (rc_From c) \<noteq> [] \<and> rc_Subject c = [] \<and> rc_Text c = []) (rules_list d)),
      ex_state = map (\<lambda>l. (ls_target l, ls_status l)) (filter (\<lambda>l. ls_account l = account) (sd_learn d)),
      ex_rule = map (\<lambda>l. (ls_target l, case ls_rule l of None \<Rightarrow> 0 | Some i \<Rightarrow> i)) (filter (\<lambda>l. ls_account l = account) (sd_learn d))\<rparr>"

definition is_excluded :: "exclusions \<Rightarrow> tally \<Rightarrow> bool" where
  "is_excluded ex t =
     (ta_address t \<in> set (ex_own ex) \<or> me_has (ex_me ex) (ta_address t) \<or> ta_domain t \<in> set (ex_ownDomains ex) \<or>
      ta_address t \<in> set (ex_held ex) \<or> is_covered ex (ta_address t) \<or> (ta_name t \<noteq> [] \<and> is_covered ex (ta_name t)) \<or>
      state_of ex (ta_address t) = ''dismissed'' \<or> state_of ex (CHR ''@'' # ta_domain t) = ''dismissed'')"

definition domain_protected :: "string \<Rightarrow> state_db \<Rightarrow> bool" where
  "domain_protected dmn d =
     list_ex (\<lambda>s. sn_domain s = dmn \<and> (sn_sent s > 0 \<or> sn_reply_count s > 0 \<or> sn_trusted s)) (sd_senders d)"

section \<open>Suggestions\<close>

record suggestion =
  su_Account :: string
  su_Target :: string
  su_Kind :: string
  su_Addresses :: "string list"
  su_Received :: nat
  su_Discarded :: nat
  su_Action :: string
  su_Dest :: string
  su_Status :: string
  su_RuleID :: int
  su_Rule :: rule

text \<open>The folder most of the mail went to; the first name wins a tie.\<close>

definition top_folder :: "(string \<times> nat) list \<Rightarrow> string" where
  "top_folder fs =
     fst (fold (\<lambda>(f, n) (top, m). if m < int n \<or> (int n = m \<and> f < top) then (f, int n) else (top, m)) fs ([], - 1))"

definition learned_text :: "string \<Rightarrow> tally \<Rightarrow> string" where
  "learned_text target t = ''Learned from your moves: you discarded '' @ show_nat (ta_discarded t) @ '' of '' @
     show_nat (ta_received t) @ '' messages from '' @ target"

definition make_suggestion ::
  "string \<Rightarrow> string \<Rightarrow> string \<Rightarrow> string list \<Rightarrow> tally \<Rightarrow> (string \<times> string) list \<Rightarrow> exclusions \<Rightarrow> suggestion" where
  "make_suggestion account target kind addrs t kinds ex =
     (let top = top_folder (ta_byFolder t); trash = (map_of kinds top = Some ''trash'');
          act = (if trash then \<lparr>ra_Type = ''trash'', ra_Dest = [], ra_Flags = []\<rparr> else \<lparr>ra_Type = ''move'', ra_Dest = top, ra_Flags = []\<rparr>) in
      \<lparr>su_Account = account, su_Target = target, su_Kind = kind, su_Addresses = addrs, su_Received = ta_received t,
       su_Discarded = ta_discarded t, su_Action = ra_Type act, su_Dest = (if trash then [] else top),
       su_Status = (if state_of ex target = [] then ''new'' else state_of ex target),
       su_RuleID = (if state_of ex target = [] then 0 else (case map_of (ex_rule ex) target of None \<Rightarrow> 0 | Some i \<Rightarrow> i)),
       su_Rule = \<lparr>r_ID = 0, r_Name = learnedRulePrefix @ target, r_Description = learned_text target t,
         r_Conditions = \<lparr>rc_Account = account, rc_Folder = [], rc_From = target, rc_Subject = [], rc_Text = [],
           rc_OlderThanDays = 0, rc_NewSender = False, rc_NewSenderDays = 0\<rparr>,
         r_Actions = [act], r_Active = False, r_Priority = 0, r_RunCount = 0\<rparr>\<rparr>)"

fun add_folder :: "string \<times> nat \<Rightarrow> (string \<times> nat) list \<Rightarrow> (string \<times> nat) list" where
  "add_folder (f, n) [] = [(f, n)]"
| "add_folder (f, n) ((g, m) # fs) = (if g = f then (g, m + n) # fs else (g, m) # add_folder (f, n) fs)"

definition merge_tallies :: "string \<Rightarrow> string \<Rightarrow> tally list \<Rightarrow> tally" where
  "merge_tallies target dmn ts =
     \<lparr>ta_address = target, ta_domain = dmn, ta_name = [], ta_received = sum_list (map ta_received ts),
      ta_discarded = sum_list (map ta_discarded ts), ta_byFolder = fold add_folder (concat (map ta_byFolder ts)) []\<rparr>"

definition domain_rule_ok :: "learn_cfg \<Rightarrow> exclusions \<Rightarrow> string \<Rightarrow> tally list \<Rightarrow> state_db \<Rightarrow> bool" where
  "domain_rule_ok c ex dmn ts d =
     (dmn \<noteq> [] \<and> DomainMinOrDefault c \<le> int (length ts) \<and> dmn \<notin> set freemailDomains \<and>
      \<not> is_covered ex (CHR ''@'' # dmn) \<and> state_of ex (CHR ''@'' # dmn) \<noteq> ''dismissed'' \<and> \<not> domain_protected dmn d)"

definition domain_suggestions ::
  "learn_cfg \<Rightarrow> string \<Rightarrow> (string \<times> string) list \<Rightarrow> exclusions \<Rightarrow> state_db \<Rightarrow> string \<Rightarrow> tally list \<Rightarrow> suggestion list" where
  "domain_suggestions c account kinds ex d dmn ts0 =
     (let ts = sort_key ta_address ts0; target = CHR ''@'' # dmn in
      if domain_rule_ok c ex dmn ts d
      then [make_suggestion account target ''domain'' (map ta_address ts) (merge_tallies target dmn ts) kinds ex]
      else map (\<lambda>t. make_suggestion account (ta_address t) ''address'' [] t kinds ex) ts)"

definition sort_suggestions :: "suggestion list \<Rightarrow> suggestion list" where
  "sort_suggestions xs = sort_key (\<lambda>s. - int (su_Discarded s)) (sort_key su_Target xs)"

definition suggestions_from ::
  "(rat \<Rightarrow> rat) \<Rightarrow> learn_cfg \<Rightarrow> string \<Rightarrow> (string \<times> string) list \<Rightarrow> exclusions \<Rightarrow> state_db \<Rightarrow> suggestion list" where
  "suggestions_from rnd c account kinds ex d =
     (let ts = filter (\<lambda>t. \<not> is_excluded ex t) (candidates rnd c account kinds d) in
      sort_suggestions (concat (map (\<lambda>dmn. domain_suggestions c account kinds ex d dmn (filter (\<lambda>t. ta_domain t = dmn) ts))
        (remdups (map ta_domain ts)))))"

text \<open>\<open>None\<close> is an error of the mail server.\<close>

definition suggestions ::
  "(rat \<Rightarrow> rat) \<Rightarrow> 'm mail_server \<Rightarrow> service \<Rightarrow> learn_cfg \<Rightarrow> string \<Rightarrow> string \<Rightarrow> state_db \<Rightarrow> 'm \<Rightarrow> suggestion list option" where
  "suggestions rnd s sv c default_account account d w =
     (case discard_folders s c account w of
        None \<Rightarrow> None
      | Some kinds \<Rightarrow> Some (if kinds = [] then [] else
          suggestions_from rnd c account kinds (learn_exclusions sv default_account account d) d))"

section \<open>Dismissing\<close>

definition put_learn :: "learn_row \<Rightarrow> state_db \<Rightarrow> state_db" where
  "put_learn r d = d\<lparr>sd_learn := upsert (\<lambda>l. ls_account l = ls_account r \<and> ls_target l = ls_target r) (\<lambda>l. r) r (sd_learn d)\<rparr>"

text \<open>A dismissal keeps the rule id of the row.\<close>

definition DismissSuggestion :: "string \<Rightarrow> string \<Rightarrow> state_db \<Rightarrow> bool \<times> state_db" where
  "DismissSuggestion account target0 d =
     (let target = to_lower (trim_space target0) in
      if target = [] \<or> \<not> str_contains target ''@'' then (False, d)
      else (True, d\<lparr>sd_learn := upsert (\<lambda>l. ls_account l = account \<and> ls_target l = target) (\<lambda>l. l\<lparr>ls_status := ''dismissed''\<rparr>)
         \<lparr>ls_account = account, ls_target = target, ls_status = ''dismissed'', ls_rule = None\<rparr> (sd_learn d)\<rparr>))"

section \<open>The hourly pass\<close>

definition ruleMovesRetention :: int where "ruleMovesRetention = 365 * 24 * 3600"

record learn_out =
  lo_errors :: "(string \<times> string) list"   \<comment> \<open>account, target\<close>
  lo_fresh :: "suggestion list"

text \<open>One suggestion of the pass; only new ones are acted on.\<close>

definition learn_one ::
  "string \<Rightarrow> string \<Rightarrow> suggestion \<Rightarrow> learn_out \<times> state_db \<Rightarrow> learn_out \<times> state_db" where
  "learn_one mode account sg st =
     (let (o', d) = st in
      if su_Status sg \<noteq> ''new'' then (o', d)
      else if mode \<noteq> ''suggest'' then
        (case CreateRule ((su_Rule sg)\<lparr>r_Active := (mode = ''active'')\<rparr>) d of
           (Inl e, d') \<Rightarrow> (o'\<lparr>lo_errors := lo_errors o' @ [(account, su_Target sg)]\<rparr>, d')
         | (Inr i, d') \<Rightarrow>
             (o'\<lparr>lo_fresh := lo_fresh o' @ [sg\<lparr>su_Status := ''created'', su_RuleID := i\<rparr>]\<rparr>,
              put_learn \<lparr>ls_account = account, ls_target = su_Target sg, ls_status = ''created'',
                ls_rule = (if i = 0 then None else Some i)\<rparr> d'))
      else (o'\<lparr>lo_fresh := lo_fresh o' @ [sg\<lparr>su_Status := ''suggested''\<rparr>]\<rparr>,
            put_learn \<lparr>ls_account = account, ls_target = su_Target sg, ls_status = ''suggested'',
              ls_rule = (if su_RuleID sg = 0 then None else Some (su_RuleID sg))\<rparr> d))"

definition learn_account ::
  "(rat \<Rightarrow> rat) \<Rightarrow> 'm mail_server \<Rightarrow> service \<Rightarrow> learn_cfg \<Rightarrow> string \<Rightarrow> 'm \<Rightarrow> string \<Rightarrow> learn_out \<times> state_db \<Rightarrow> learn_out \<times> state_db" where
  "learn_account rnd s sv c default_account w account st =
     (case suggestions rnd s sv c default_account account (snd st) w of
        None \<Rightarrow> ((fst st)\<lparr>lo_errors := lo_errors (fst st) @ [(account, [])]\<rparr>, snd st)
      | Some sgs \<Rightarrow>
          (let (o', d) = fold (learn_one (ModeOrDefault c) account) sgs st in
           (o', d\<lparr>sd_learn := filter (\<lambda>l. \<not> (ls_account l = account \<and> ls_status l = ''suggested'' \<and>
               ls_target l \<notin> set (map su_Target sgs))) (sd_learn d)\<rparr>)))"

text \<open>\<open>learnRun\<close>: the first account of the list of the configuration is not the default one in general.
  The live match counts, which change nothing, are left out.\<close>

definition learn_run ::
  "(rat \<Rightarrow> rat) \<Rightarrow> 'm mail_server \<Rightarrow> service \<Rightarrow> learn_cfg \<Rightarrow> string \<Rightarrow> string list \<Rightarrow> state_db \<Rightarrow> 'm \<Rightarrow> learn_out \<times> state_db" where
  "learn_run rnd s sv c default_account accounts d w =
     (if \<not> sv_intel_on sv then (\<lparr>lo_errors = [], lo_fresh = []\<rparr>, d)
      else fold (learn_account rnd s sv c default_account w) accounts
        (\<lparr>lo_errors = [], lo_fresh = []\<rparr>, d\<lparr>sd_rule_moves := filter (\<lambda>m. \<not> rm_moved_at m < sd_now d - ruleMovesRetention) (sd_rule_moves d)\<rparr>))"

end
