(* ===== verification/New_Sender_Props.thy ===== *)
theory New_Sender_Props
  imports New_Sender
begin

text \<open>
  What the hold promises: a held message has grounds, a rescued sender is left alone, a dry run
  changes nothing - and when a run crashes on a display name.
\<close>

section \<open>Panics\<close>

text \<open>A display name whose first at sign is followed by nothing but space.\<close>

definition dangling_at :: "string \<Rightarrow> bool" where
  "dangling_at name \<longleftrightarrow> (\<exists>pre sp. name = pre @ CHR ''@'' # sp \<and> CHR ''@'' \<notin> set pre \<and> (\<forall>c\<in>set sp. is_space c))"

lemma fields_acc_Nil: "fields_acc acc s = [] \<longleftrightarrow> acc = [] \<and> (\<forall>c\<in>set s. is_space c)"
  by (induction acc s rule: fields_acc.induct) auto

lemma shown_address_None: "shown_address rest = None \<longleftrightarrow> (\<forall>c\<in>set rest. is_space c)"
proof -
  have sp: "is_space (CHR '' '')" by (simp add: is_space_def)
  have "shown_address rest = None \<longleftrightarrow> str_fields (rest @ '' '') = []"
    unfolding shown_address_def by (cases "str_fields (rest @ '' '')") simp_all
  also have "\<dots> \<longleftrightarrow> (\<forall>c\<in>set rest. is_space c)" using sp by (auto simp: str_fields_def fields_acc_Nil)
  finally show ?thesis .
qed

lemma dangling_cut: "dangling_at name \<longleftrightarrow> (\<exists>pre sp. cut_at (CHR ''@'') name = Some (pre, sp) \<and> (\<forall>c\<in>set sp. is_space c))"
proof
  assume "dangling_at name"
  then obtain pre sp where n: "name = pre @ CHR ''@'' # sp" "CHR ''@'' \<notin> set pre" "\<forall>c\<in>set sp. is_space c"
    unfolding dangling_at_def by blast
  have "cut_at (CHR ''@'') (pre @ CHR ''@'' # sp) = Some (pre, sp)" using n(2) by (induction pre) auto
  with n show "\<exists>pre sp. cut_at (CHR ''@'') name = Some (pre, sp) \<and> (\<forall>c\<in>set sp. is_space c)" by blast
next
  assume "\<exists>pre sp. cut_at (CHR ''@'') name = Some (pre, sp) \<and> (\<forall>c\<in>set sp. is_space c)"
  then show "dangling_at name" unfolding dangling_at_def using cut_at_Some by blast
qed

lemma impersonation_None: "impersonation g name dmn = None \<longleftrightarrow> dmn \<noteq> [] \<and> dangling_at name"
proof (cases "name = [] \<or> dmn = []")
  case True
  then show ?thesis by (auto simp: impersonation_def dangling_at_def)
next
  case False
  show ?thesis
  proof (cases "cut_at (CHR ''@'') name")
    case None
    then show ?thesis using False by (simp add: impersonation_def Let_def dangling_cut)
  next
    case (Some ab)
    then obtain a b where ab: "cut_at (CHR ''@'') name = Some (a, b)" by (cases ab) simp
    then have d: "dangling_at name \<longleftrightarrow> shown_address b = None" by (simp add: dangling_cut shown_address_None)
    show ?thesis unfolding d using False ab
      by (cases "shown_address b") (simp_all add: impersonation_def Let_def)
  qed
qed

text \<open>The display name the signals look at.\<close>

definition shown_name :: "envelope \<Rightarrow> string" where
  "shown_name env = (case en_From env of [] \<Rightarrow> [] | (_, n) # _ \<Rightarrow> to_lower n)"

definition crashes :: "hold_gate \<Rightarrow> (string \<Rightarrow> int) \<Rightarrow> state_db \<Rightarrow> envelope \<Rightarrow> hold_msg \<Rightarrow> bool" where
  "crashes g hf d env m \<longleftrightarrow> \<not> answers_owner env (ho_RefIDs m) hf d \<and> \<not> copies_contact g (recipients_of env) (sender_of env) d \<and>
     domainOf (sender_of env) \<noteq> [] \<and> dangling_at (shown_name env)"

lemma signals_None: "signals g hf d env m (sender_of env) = None \<longleftrightarrow> crashes g hf d env m"
proof -
  let ?i = "impersonation g (shown_name env) (domainOf (sender_of env))"
  have "crashes g hf d env m \<longleftrightarrow> \<not> answers_owner env (ho_RefIDs m) hf d \<and>
      \<not> copies_contact g (recipients_of env) (sender_of env) d \<and> ?i = None"
    by (simp add: crashes_def impersonation_None)
  then show ?thesis unfolding signals_def shown_name_def [symmetric] by (cases ?i) auto
qed

lemma judge_None: "judge g hf cache d env m (sender_of env) = None \<longleftrightarrow> crashes g hf d env m"
  unfolding signals_None [symmetric] by (auto simp: judge_def Let_def split: option.split)

definition considered :: "hold_gate \<Rightarrow> state_db \<Rightarrow> string list \<Rightarrow> envelope \<Rightarrow> bool" where
  "considered g d rel env \<longleftrightarrow> sender_of env \<notin> set rel \<and> is_new g d (sender_of env)"

lemma keep_pass_None:
  "keep_pass g hf cache d rel msgs = None \<longleftrightarrow>
     (\<exists>m\<in>set msgs. \<exists>env. ho_Envelope m = Some env \<and> considered g d rel env \<and> crashes g hf d env m)"
proof (induction msgs)
  case (Cons m msgs)
  show ?case
  proof (cases "ho_Envelope m")
    case None
    then show ?thesis using Cons.IH by simp
  next
    case (Some env)
    let ?j = "judge g hf cache d env m (sender_of env)"
    have "keep_pass g hf cache d rel (m # msgs) = None \<longleftrightarrow>
        (considered g d rel env \<and> ?j = None) \<or> keep_pass g hf cache d rel msgs = None"
      using Some by (cases ?j) (auto simp: considered_def split: if_splits)
    then show ?thesis using Cons.IH Some by (auto simp: judge_None)
  qed
qed simp

text \<open>A run over a folder crashes (an index out of range) exactly when some message from a new sender
  that is no reply to the owner and copies no contact has a display name whose first at sign is
  followed by nothing but space, as in "Sales @": anyone can stop every new-sender run.\<close>
theorem run_crashes_iff_dangling_at:
  "gate_filter g hf cache dry msgs d = None \<longleftrightarrow>
     (let (rel, d1) = release_pass g hf dry msgs ([], d) in
      \<exists>m\<in>set msgs. \<exists>env. ho_Envelope m = Some env \<and> considered g d1 rel env \<and> crashes g hf d1 env m)"
  by (simp add: gate_filter_def keep_pass_None split: prod.split)

section \<open>Grounds for a hold\<close>

text \<open>What holds a message: two points of header signals; with the verdict model on, one point and a
  stored verdict scam or bulk, or none and a stored verdict scam, at or above the configured confidence;
  without it, one point and the hall the cached message was classified into.\<close>

definition grounds :: "hold_gate \<Rightarrow> (string \<Rightarrow> int) \<Rightarrow> msg_row list option \<Rightarrow> state_db \<Rightarrow> string \<Rightarrow> (nat \<times> reason) list \<Rightarrow> reason list \<Rightarrow> bool" where
  "grounds g hf cache d mid sigs rs \<longleftrightarrow>
     (2 \<le> sum_list (map fst sigs) \<and> rs = map snd sigs) \<or>
     (g_verdictOn g \<and> (\<exists>v. stored_verdict (g_account g) hf mid d = Some v \<and> g_threshold g \<le> vd_confidence v \<and>
        ((sum_list (map fst sigs) = 1 \<and> vd_verdict v \<in> {''scam'', ''bulk''} \<and> rs = map snd sigs @ [Model (vd_verdict v) (vd_confidence v)]) \<or>
         (sum_list (map fst sigs) = 0 \<and> vd_verdict v = ''scam'' \<and> rs = [Model ''scam'' (vd_confidence v)])))) \<or>
     (\<not> g_verdictOn g \<and> sum_list (map fst sigs) = 1 \<and> hall_of g cache mid \<notin> {[], ''conversation'', ''personal''} \<and>
        rs = map snd sigs @ [Classified (hall_of g cache mid)])"

lemma judge_hold:
  assumes "judge g hf cache d env m sender = Some (rs, True)"
  shows "\<not> answers_owner env (ho_RefIDs m) hf d \<and> \<not> copies_contact g (recipients_of env) sender d \<and>
    (\<exists>sigs. signals g hf d env m sender = Some (False, sigs) \<and> grounds g hf cache d (en_MessageID env) sigs rs)"
proof -
  obtain is_real sigs where s: "signals g hf d env m sender = Some (is_real, sigs)"
    using assms by (auto simp: judge_def split: option.splits)
  let ?n = "sum_list (map fst sigs)"
  have r: "\<not> is_real" using assms s by (auto simp: judge_def Let_def)
  then have "\<not> answers_owner env (ho_RefIDs m) hf d \<and> \<not> copies_contact g (recipients_of env) sender d"
    using s by (auto simp: signals_def split: if_splits)
  moreover have "grounds g hf cache d (en_MessageID env) sigs rs"
  proof -
    consider "2 \<le> ?n" | "?n = 1" | "?n = 0" by linarith
    then show ?thesis
    proof cases
      case 1
      then show ?thesis using assms s r by (simp add: judge_def Let_def grounds_def holdScore_def)
    next
      case 2
      then show ?thesis using assms s r
        by (auto simp: judge_def Let_def grounds_def holdScore_def split: option.splits if_splits)
    next
      case 3
      then show ?thesis using assms s r
        by (auto simp: judge_def Let_def grounds_def holdScore_def split: option.splits if_splits)
    qed
  qed
  ultimately show ?thesis using s r by simp
qed

lemma keep_pass_in:
  "keep_pass g hf cache d rel msgs = Some ks \<Longrightarrow> (u, h) \<in> set ks \<Longrightarrow>
   \<exists>m\<in>set msgs. \<exists>env. ho_Envelope m = Some env \<and> ho_UID m = u \<and> hi_sender h = sender_of env \<and> considered g d rel env \<and>
     hi_hash h = msg_hash hf (en_MessageID env) \<and> judge g hf cache d env m (sender_of env) = Some (hi_reasons h, True)"
proof (induction msgs arbitrary: ks)
  case (Cons m msgs)
  show ?case
  proof (cases "ho_Envelope m")
    case None
    then show ?thesis using Cons by auto
  next
    case env: (Some env)
    show ?thesis
    proof (cases "considered g d rel env")
      case False
      then show ?thesis using Cons env by (auto simp: considered_def)
    next
      case True
      then obtain rs hold where j: "judge g hf cache d env m (sender_of env) = Some (rs, hold)"
        using Cons.prems(1) env by (auto simp: considered_def split: option.splits)
      show ?thesis
      proof (cases hold)
        case False
        then show ?thesis using Cons env True j by (auto simp: considered_def)
      next
        case hold: True
        then obtain ks' where "keep_pass g hf cache d rel msgs = Some ks'" "ks = (ho_UID m, \<lparr>hi_ref = trim_angle (en_MessageID env),
            hi_sender = sender_of env, hi_subject = en_Subject env, hi_reasons = rs, hi_hash = msg_hash hf (en_MessageID env)\<rparr>) # ks'"
          using Cons.prems(1) env True j by (auto simp: considered_def)
        then show ?thesis using Cons.IH [of ks'] Cons.prems(2) env True j hold by auto
      qed
    qed
  qed
qed simp

text \<open>A sender without history, by the bare form of the address.\<close>

definition no_history :: "hold_gate \<Rightarrow> state_db \<Rightarrow> string \<Rightarrow> bool" where
  "no_history g d a \<longleftrightarrow> a \<notin> set (g_own g) \<and>
     (\<forall>s. find_sender a d = Some s \<longrightarrow> \<not> sn_sent s > 0 \<and> \<not> sn_reply_count s > 0 \<and> \<not> sn_trusted s \<and>
        (\<forall>t. sn_first s = Some t \<longrightarrow> g_cutoff g \<le> t)) \<and>
     (domainOf a \<in> {[]} \<union> set freemailDomains \<or>
      (\<forall>s\<in>set (sd_senders d). sn_domain s = domainOf a \<longrightarrow> \<not> sn_sent s > 0 \<and> \<not> sn_trusted s))"

lemma is_newD: "is_new g d a \<Longrightarrow> bareAddr a = [] \<or> no_history g d (bareAddr a)"
  by (auto simp: is_new_def no_history_def known_sender_def Let_def list_ex_iff split: if_splits option.splits)

text \<open>C37: Every message the gate holds comes from a sender without history, or from none at all: not the owner,
  never written to or answered, not trusted, first seen inside the window, nobody at its domain (freemail apart)
  written to or trusted. It does not answer the owner's mail or copy a contact of the owner, and has grounds: two
  points of header signals, or fewer with a stored verdict at or above the configured confidence, or, without the
  verdict model, one point and the class of the cached message.\<close>
theorem held_mail_has_grounds:
  assumes "gate_filter g hf cache dry msgs d = Some (ks, d')" "(u, h) \<in> set ks"
  shows "\<exists>m\<in>set msgs. \<exists>env sigs. ho_Envelope m = Some env \<and> ho_UID m = u \<and> hi_sender h = sender_of env \<and>
    (bareAddr (sender_of env) = [] \<or> no_history g d' (bareAddr (sender_of env))) \<and>
    \<not> answers_owner env (ho_RefIDs m) hf d' \<and> \<not> copies_contact g (recipients_of env) (sender_of env) d' \<and>
    signals g hf d' env m (sender_of env) = Some (False, sigs) \<and>
    grounds g hf cache d' (en_MessageID env) sigs (hi_reasons h)"
proof -
  obtain rel where k: "release_pass g hf dry msgs ([], d) = (rel, d')" "keep_pass g hf cache d' rel msgs = Some ks"
    using assms(1) by (auto simp: gate_filter_def split: prod.splits)
  obtain m env where m: "m \<in> set msgs" "ho_Envelope m = Some env" "ho_UID m = u" "hi_sender h = sender_of env"
    "considered g d' rel env" "judge g hf cache d' env m (sender_of env) = Some (hi_reasons h, True)"
    using keep_pass_in [OF k(2) assms(2)] by blast
  from m(5) have "is_new g d' (sender_of env)" by (simp add: considered_def)
  from is_newD [OF this] judge_hold [OF m(6)] m(1-4) show ?thesis by metis
qed

section \<open>Releases\<close>

definition trusted_row :: "string \<Rightarrow> state_db \<Rightarrow> bool" where
  "trusted_row a d \<longleftrightarrow> (\<exists>s. find_sender a d = Some s \<and> sn_trusted s)"

lemma find_map_some:
  assumes "\<And>s. p (f s) = p s"
  shows "find p (map (\<lambda>s. if q s then f s else s) xs) = map_option (\<lambda>s. if q s then f s else s) (find p xs)"
  using assms by (induction xs) auto

lemma trust_sender_trusted: "trusted_row a (trust_sender a d)"
proof (cases "list_ex (\<lambda>s. sn_address s = a) (sd_senders d)")
  case True
  then have "find (\<lambda>s. sn_address s = a) (sd_senders d) \<noteq> None" by (auto simp: find_None_iff list_ex_iff)
  then obtain s where s: "find (\<lambda>s. sn_address s = a) (sd_senders d) = Some s" by blast
  then have "sn_address s = a" by (auto simp: find_Some_iff)
  then show ?thesis using True s
    by (simp add: trusted_row_def find_sender_def trust_sender_def sender_upsert_def upd_rows_def find_map_some)
next
  case False
  then have none: "find (\<lambda>s. sn_address s = a) (sd_senders d) = None" by (auto simp: find_None_iff list_ex_iff)
  have "find p (xs @ [r]) = Some r" if "find p xs = None" "p r" for p xs and r :: sender_row
    using that by (induction xs) (auto split: if_splits)
  then show ?thesis using False none
    by (simp add: trusted_row_def find_sender_def trust_sender_def sender_upsert_def new_sender_row_def)
qed

lemma upd_rows_find:
  assumes "\<And>s. sn_address (f s) = sn_address s"
  shows "find (\<lambda>s. sn_address s = a) (upd_rows q f xs) = map_option (\<lambda>s. if q s then f s else s) (find (\<lambda>s. sn_address s = a) xs)"
  unfolding upd_rows_def using assms by (intro find_map_some) simp

lemma trust_sender_keeps: "trusted_row a d \<Longrightarrow> trusted_row a (trust_sender b d)"
proof -
  assume "trusted_row a d"
  then obtain s where s: "find (\<lambda>s. sn_address s = a) (sd_senders d) = Some s" "sn_trusted s"
    by (auto simp: trusted_row_def find_sender_def)
  have "find p (xs @ ys) = Some r" if "find p xs = Some r" for p xs ys and r :: sender_row
    using that by (induction xs) (auto split: if_splits)
  with s show ?thesis
    by (auto simp: trusted_row_def find_sender_def trust_sender_def sender_upsert_def upd_rows_find)
qed

lemma released_keeps: "trusted_row a d \<Longrightarrow> trusted_row a (snd (released g h f dry d))"
proof -
  assume t: "trusted_row a d"
  then have "trusted_row a (d\<lparr>sd_held := x\<rparr>)" for x by (simp add: trusted_row_def find_sender_def)
  then show ?thesis using t by (simp add: released_def Let_def trust_sender_keeps)
qed

lemma release_pass_keeps:
  "trusted_row a (snd st) \<Longrightarrow> trusted_row a (snd (release_pass g hf dry msgs st)) \<and> set (fst st) \<subseteq> set (fst (release_pass g hf dry msgs st))"
proof (induction g hf dry msgs st rule: release_pass.induct)
  case (2 g hf dry m ms rel d)
  show ?case
  proof (cases "ho_Envelope m")
    case None
    then show ?thesis using 2 by simp
  next
    case (Some env)
    obtain r d' where r: "released g (msg_hash hf (en_MessageID env)) (sender_of env) dry d = (r, d')"
      by (cases "released g (msg_hash hf (en_MessageID env)) (sender_of env) dry d")
    have "trusted_row a d'" using released_keeps [of a d] r "2.prems" by (metis snd_conv)
    then show ?thesis using 2 Some r by (cases r) (auto split: if_splits)
  qed
qed simp

lemma release_pass_rel: "set (fst st) \<subseteq> set (fst (release_pass g hf dry msgs st))"
proof (induction g hf dry msgs st rule: release_pass.induct)
  case (2 g hf dry m ms rel d)
  then show ?case by (auto split: option.split prod.split bool.split)
qed simp

definition held_before :: "hold_gate \<Rightarrow> (string \<Rightarrow> int) \<Rightarrow> envelope \<Rightarrow> state_db \<Rightarrow> bool" where
  "held_before g hf env d \<longleftrightarrow> msg_hash hf (en_MessageID env) \<noteq> 0 \<and>
     (\<exists>r\<in>set (sd_held d). hm_account r = g_account g \<and> hm_hash r = msg_hash hf (en_MessageID env) \<and> hm_released_at r = None)"

text \<open>A release leaves rows of other messages held.\<close>

lemma released_held:
  assumes "held_before g hf env d" "k \<noteq> msg_hash hf (en_MessageID env)"
  shows "held_before g hf env (snd (released g k f dry d))"
proof -
  have t: "sd_held (trust_sender x y) = sd_held y" for x y by (simp add: trust_sender_def sender_upsert_def)
  obtain r where r: "r \<in> set (sd_held d)" "hm_account r = g_account g" "hm_hash r = msg_hash hf (en_MessageID env)" "hm_released_at r = None"
    using assms(1) unfolding held_before_def by blast
  then have "r \<in> set (upd_rows (\<lambda>r. hm_account r = g_account g \<and> hm_hash r = k) f' (sd_held d))" for f'
    using assms(2) by (force simp: upd_rows_def)
  then have "r \<in> set (sd_held (snd (released g k f dry d)))" using r(1) by (simp add: released_def Let_def t)
  with r assms(1) show ?thesis unfolding held_before_def by blast
qed

text \<open>The pass releases the sender of every held message it finds.\<close>

lemma release_pass_releases:
  assumes "m \<in> set msgs" "ho_Envelope m = Some env" "held_before g hf env d"
    and "\<forall>m'\<in>set msgs. \<forall>e'. ho_Envelope m' = Some e' \<longrightarrow> msg_hash hf (en_MessageID e') = msg_hash hf (en_MessageID env) \<longrightarrow> sender_of e' = sender_of env"
  shows "sender_of env \<in> set (fst (release_pass g hf dry msgs (rel, d))) \<and>
    (\<not> dry \<and> sender_of env \<noteq> [] \<longrightarrow> trusted_row (sender_of env) (snd (release_pass g hf dry msgs (rel, d))))"
  using assms
proof (induction msgs arbitrary: rel d)
  case (Cons m' msgs)
  let ?k = "msg_hash hf (en_MessageID env)"
  show ?case
  proof (cases "\<exists>e'. ho_Envelope m' = Some e' \<and> msg_hash hf (en_MessageID e') = ?k")
    case True
    then obtain e' where e': "ho_Envelope m' = Some e'" "msg_hash hf (en_MessageID e') = ?k" by blast
    then have s: "sender_of e' = sender_of env" using Cons.prems(4) by simp
    have ex: "list_ex (\<lambda>r. hm_account r = g_account g \<and> hm_hash r = ?k \<and> hm_released_at r = None) (sd_held d)" "?k \<noteq> 0"
      using Cons.prems(3) by (auto simp: held_before_def list_ex_iff)
    obtain d' where r: "released g ?k (sender_of env) dry d = (True, d')"
      "\<not> dry \<and> sender_of env \<noteq> [] \<longrightarrow> trusted_row (sender_of env) d'"
      using ex that trust_sender_trusted by (cases dry; cases "sender_of env = []") (auto simp: released_def Let_def)
    have step: "release_pass g hf dry (m' # msgs) (rel, d) = release_pass g hf dry msgs (sender_of env # rel, d')"
      using e' ex(2) r(1) s by simp
    show ?thesis unfolding step
      using release_pass_rel [of "(sender_of env # rel, d')" g hf dry msgs]
        release_pass_keeps [of "sender_of env" "(sender_of env # rel, d')" g hf dry msgs] r(2) by auto
  next
    case False
    then have "m \<in> set msgs" using Cons.prems(1,2) by auto
    note IH = Cons.IH [OF this Cons.prems(2)]
    show ?thesis
    proof (cases "ho_Envelope m'")
      case None
      then show ?thesis using IH [OF Cons.prems(3)] Cons.prems(4) by simp
    next
      case (Some e')
      obtain r d' where r: "released g (msg_hash hf (en_MessageID e')) (sender_of e') dry d = (r, d')"
        by (cases "released g (msg_hash hf (en_MessageID e')) (sender_of e') dry d")
      have "held_before g hf env d'"
        using released_held [OF Cons.prems(3), of "msg_hash hf (en_MessageID e')" "sender_of e'" dry] False Some r by auto
      then show ?thesis using IH [OF Cons.prems(3)] IH [of d'] Cons.prems(4) Some r by (cases r) auto
    qed
  qed
qed simp

text \<open>A trusted sender is not new, in any run.\<close>

lemma trusted_not_new: "trusted_row a d \<Longrightarrow> bareAddr a = a \<Longrightarrow> a \<noteq> [] \<Longrightarrow> \<not> is_new g d a"
  by (auto simp: trusted_row_def is_new_def known_sender_def Let_def)

lemma trusted_never_held:
  assumes "trusted_row a d" "gate_filter g hf cache dry msgs d = Some (ks, d')" "(u, h) \<in> set ks" "bareAddr a = a" "a \<noteq> []"
  shows "hi_sender h \<noteq> a"
proof
  assume "hi_sender h = a"
  obtain rel where k: "release_pass g hf dry msgs ([], d) = (rel, d')" "keep_pass g hf cache d' rel msgs = Some ks"
    using assms(2) by (auto simp: gate_filter_def split: prod.splits)
  have "trusted_row a d'" using release_pass_keeps [of a "([], d)" g hf dry msgs] assms(1) k(1) by simp
  moreover have "is_new g d' a"
    using keep_pass_in [OF k(2) assms(3)] \<open>hi_sender h = a\<close> by (auto simp: considered_def)
  ultimately show False using trusted_not_new assms(4,5) by blast
qed

text \<open>Bare addresses: one without an angle bracket is bared once and for all.\<close>

lemma char_code: "c = d \<longleftrightarrow> (of_char c :: nat) = of_char d"
  by simp

lemma lower_char_code: "(of_char (lower_char c) :: nat) = (if 65 \<le> (of_char c :: nat) \<and> (of_char c :: nat) \<le> 90 then of_char c + 32 else of_char c)"
  by (simp add: lower_char_def Let_def)

lemma lower_char_simps: "is_space (lower_char c) = is_space c" "lower_char (lower_char c) = lower_char c"
  "lower_char c = CHR ''<'' \<longleftrightarrow> c = CHR ''<''"
  unfolding is_space_def insert_iff empty_iff char_code lower_char_code by (auto simp: char_code)

lemma trim_space_lower: "trim_space (to_lower s) = to_lower (trim_space s)"
proof -
  have "is_space \<circ> lower_char = is_space" by (simp add: fun_eq_iff lower_char_simps)
  then show ?thesis by (simp add: trim_space_def to_lower_def dropWhile_map rev_map)
qed

lemma no_bracket_lower: "CHR ''<'' \<notin> set s \<Longrightarrow> CHR ''<'' \<notin> set (to_lower (trim_space s))"
  by (auto simp: to_lower_def dest: set_trim_space) (metis lower_char_simps(3) set_trim_space)

lemma last_index_none: "c \<notin> set s \<Longrightarrow> last_index_char s c = None"
  by (induction s c rule: last_index_char.induct) auto

lemma bareAddr_plain:
  assumes "CHR ''<'' \<notin> set s"
  shows "bareAddr (bareAddr s) = bareAddr s"
proof -
  have b: "bareAddr x = to_lower (trim_space x)" if "CHR ''<'' \<notin> set x" for x
    using last_index_none [OF no_bracket_lower [OF that]] by (simp add: bareAddr_def Let_def)
  have "to_lower (trim_space (to_lower (trim_space s))) = to_lower (trim_space s)"
    by (simp add: trim_space_lower) (simp add: to_lower_def lower_char_simps)
  then show ?thesis using b [OF assms] b [OF no_bracket_lower [OF assms]] by simp
qed

definition plain_sender :: "envelope \<Rightarrow> bool" where
  "plain_sender env \<longleftrightarrow> sender_of env \<noteq> [] \<and> CHR ''<'' \<notin> set (fst (hd (en_From env)))"

lemma plain_sender_bare: "plain_sender env \<Longrightarrow> bareAddr (sender_of env) = sender_of env"
  by (auto simp: plain_sender_def sender_of_def bareAddr_plain split: list.splits)

definition has_hash :: "(string \<Rightarrow> int) \<Rightarrow> int \<Rightarrow> hold_msg \<Rightarrow> bool" where
  "has_hash hf k m = (case ho_Envelope m of None \<Rightarrow> False | Some env \<Rightarrow> msg_hash hf (en_MessageID env) = k)"

text \<open>The first message of a folder with the hash of a held message releases its own sender.\<close>

lemma release_pass_first:
  assumes "find (has_hash hf (msg_hash hf (en_MessageID env))) msgs = Some m" "ho_Envelope m = Some env" "held_before g hf env d"
  shows "sender_of env \<in> set (fst (release_pass g hf dry msgs (rel, d))) \<and>
    (\<not> dry \<and> sender_of env \<noteq> [] \<longrightarrow> trusted_row (sender_of env) (snd (release_pass g hf dry msgs (rel, d))))"
  using assms
proof (induction msgs arbitrary: rel d)
  case (Cons m' msgs)
  let ?k = "msg_hash hf (en_MessageID env)"
  show ?case
  proof (cases "has_hash hf ?k m'")
    case True
    then have m: "m' = m" using Cons.prems(1) by simp
    have ex: "list_ex (\<lambda>r. hm_account r = g_account g \<and> hm_hash r = ?k \<and> hm_released_at r = None) (sd_held d)" "?k \<noteq> 0"
      using Cons.prems(3) by (auto simp: held_before_def list_ex_iff)
    obtain d' where r: "released g ?k (sender_of env) dry d = (True, d')"
      "\<not> dry \<and> sender_of env \<noteq> [] \<longrightarrow> trusted_row (sender_of env) d'"
      using ex that trust_sender_trusted by (cases dry; cases "sender_of env = []") (auto simp: released_def Let_def)
    have step: "release_pass g hf dry (m' # msgs) (rel, d) = release_pass g hf dry msgs (sender_of env # rel, d')"
      using Cons.prems(2) ex(2) r(1) m by simp
    show ?thesis unfolding step
      using release_pass_rel [of "(sender_of env # rel, d')" g hf dry msgs]
        release_pass_keeps [of "sender_of env" "(sender_of env # rel, d')" g hf dry msgs] r(2) by auto
  next
    case False
    then have f: "find (has_hash hf ?k) msgs = Some m" using Cons.prems(1) by simp
    note IH = Cons.IH [OF f Cons.prems(2)]
    show ?thesis
    proof (cases "ho_Envelope m'")
      case None
      then show ?thesis using IH [OF Cons.prems(3)] by simp
    next
      case (Some e')
      obtain r d' where r: "released g (msg_hash hf (en_MessageID e')) (sender_of e') dry d = (r, d')"
        by (cases "released g (msg_hash hf (en_MessageID e')) (sender_of e') dry d")
      have "held_before g hf env d'"
        using released_held [OF Cons.prems(3), of "msg_hash hf (en_MessageID e')" "sender_of e'" dry] False Some r
        by (auto simp: has_hash_def)
      then show ?thesis using IH [OF Cons.prems(3)] IH [of d'] Some r by (cases r) auto
    qed
  qed
qed simp

text \<open>C11: When a run finds a message in the watched folder that is recorded as held and not released (the owner
  moved it back), it holds nothing of its sender, wherever the sender's other messages stand. Outside a dry run the
  sender, if the message has one, is trusted after it, and no later run holds its mail while the trust stands, if its
  From address has no angle bracket in it (which \<open>bareAddr\<close> would strip once more). Of several messages with the
  same Message-ID the first counts.\<close>
theorem rescued_sender_is_never_held:
  assumes "gate_filter g hf cache dry msgs d = Some (ks, d')"
    and "find (has_hash hf (msg_hash hf (en_MessageID env))) msgs = Some m" "ho_Envelope m = Some env" "held_before g hf env d"
  shows "(\<forall>(u, h)\<in>set ks. hi_sender h \<noteq> sender_of env) \<and>
    (\<not> dry \<and> sender_of env \<noteq> [] \<longrightarrow> trusted_row (sender_of env) d') \<and>
    (plain_sender env \<longrightarrow> (\<forall>d2 g2 cache2 dry2 msgs2 ks2 d3. trusted_row (sender_of env) d2 \<longrightarrow>
       gate_filter g2 hf cache2 dry2 msgs2 d2 = Some (ks2, d3) \<longrightarrow>
       trusted_row (sender_of env) d3 \<and> (\<forall>(u, h)\<in>set ks2. hi_sender h \<noteq> sender_of env)))"
proof -
  let ?a = "sender_of env"
  obtain rel where k: "release_pass g hf dry msgs ([], d) = (rel, d')" "keep_pass g hf cache d' rel msgs = Some ks"
    using assms(1) by (auto simp: gate_filter_def split: prod.splits)
  have r: "?a \<in> set rel" "\<not> dry \<and> ?a \<noteq> [] \<longrightarrow> trusted_row ?a d'"
    using release_pass_first [OF assms(2-4), of dry "[]"] k(1) by auto
  have "hi_sender h \<noteq> ?a" if "(u, h) \<in> set ks" for u h
    using keep_pass_in [OF k(2) that] r(1) by (auto simp: considered_def)
  moreover have "trusted_row ?a d3" if "trusted_row ?a d2" "gate_filter g2 hf cache2 dry2 msgs2 d2 = Some (ks2, d3)" for d2 g2 cache2 dry2 msgs2 ks2 d3
    using that release_pass_keeps [of ?a "([], d2)" g2 hf dry2 msgs2] by (auto simp: gate_filter_def split: prod.splits)
  moreover have "hi_sender h \<noteq> ?a" if "plain_sender env" "trusted_row ?a d2"
      "gate_filter g2 hf cache2 dry2 msgs2 d2 = Some (ks2, d3)" "(u, h) \<in> set ks2" for d2 g2 cache2 dry2 msgs2 ks2 d3 u h
    using trusted_never_held [OF that(2-4) plain_sender_bare [OF that(1)]] that(1) by (simp add: plain_sender_def)
  ultimately show ?thesis using r(2) by blast
qed

section \<open>Dry runs\<close>

lemma released_dry: "snd (released g k f True d) = d"
  by (simp add: released_def)

lemma release_pass_dry: "snd (release_pass g hf True msgs st) = snd st"
proof (induction g hf "True" msgs st rule: release_pass.induct)
  case (2 g hf m ms rel d)
  then show ?case using released_dry by (fastforce split: option.split prod.split bool.split simp: prod_eq_iff)
qed simp

lemma dry_filter_same: "gate_filter g hf cache True msgs d = Some (ks, d') \<Longrightarrow> d' = d"
  using release_pass_dry [of g hf msgs "([], d)"] by (auto simp: gate_filter_def split: prod.splits)

section \<open>Concrete runs\<close>

definition sample_gate :: hold_gate where
  "sample_gate = \<lparr>g_verdictOn = False, g_threshold = 1, g_account = ''a'', g_cutoff = 100, g_own = [''me@x.org''],
     g_ownDomains = [''x.org''], g_ownLabels = []\<rparr>"

definition sample_mail :: "nat \<Rightarrow> string \<Rightarrow> string \<Rightarrow> hold_msg" where
  "sample_mail uid mid name = \<lparr>ho_UID = uid, ho_Envelope = Some \<lparr>en_MessageID = mid, en_Subject = ''Re: hi'', en_Date = 0,
       en_From = [(''bob@shop5x.top'', name)], en_To = [''me@x.org''], en_Cc = [], en_ReplyTo = [], en_InReplyTo = []\<rparr>,
     ho_RefIDs = [], ho_References = [], ho_ListUnsubscribe = ''<u>'', ho_ListId = [], ho_Precedence = []\<rparr>"

definition sample_hash :: "string \<Rightarrow> int" where "sample_hash s = int (length s)"

theorem held_mail_has_grounds_witness:
  "\<exists>ks u h sigs env. gate_filter sample_gate sample_hash None False [sample_mail 7 ''m1'' ''Bob''] empty_state = Some (ks, empty_state) \<and>
     (u, h) \<in> set ks \<and> hi_sender h = ''bob@shop5x.top'' \<and>
     signals sample_gate sample_hash empty_state env (sample_mail 7 ''m1'' ''Bob'') ''bob@shop5x.top'' = Some (False, sigs) \<and>
     grounds sample_gate sample_hash None empty_state (en_MessageID env) sigs (hi_reasons h)"
proof -
  let ?ms = "[sample_mail 7 ''m1'' ''Bob'']"
  have run: "gate_filter sample_gate sample_hash None False ?ms empty_state =
      Some ([(7, \<lparr>hi_ref = ''m1'', hi_sender = ''bob@shop5x.top'', hi_subject = ''Re: hi'', hi_reasons = [FakeReply, Bulk, Throwaway], hi_hash = 2\<rparr>)], empty_state)"
    by code_simp
  from held_mail_has_grounds [OF run list.set_intros(1)] obtain m env sigs where
    "m \<in> set ?ms" "ho_Envelope m = Some env" "''bob@shop5x.top'' = sender_of env"
    "signals sample_gate sample_hash empty_state env m (sender_of env) = Some (False, sigs)"
    "grounds sample_gate sample_hash None empty_state (en_MessageID env) sigs [FakeReply, Bulk, Throwaway]" by auto
  then show ?thesis using run by fastforce
qed

definition sample_held :: state_db where
  "sample_held = empty_state\<lparr>sd_held := [\<lparr>hm_account = ''a'', hm_hash = 2, hm_ref = ''m1'', hm_sender = ''bob@shop5x.top'',
     hm_subject = [], hm_reasons = [], hm_folder = ''Held'', hm_held_at = 0, hm_released_at = None, hm_digested_at = None, hm_decision = None\<rparr>]\<rparr>"

theorem rescued_sender_is_never_held_witness:
  "case gate_filter sample_gate sample_hash None False [sample_mail 7 ''m22'' ''Bob'', sample_mail 8 ''m1'' ''Bob''] sample_held of
     None \<Rightarrow> False
   | Some (ks, d') \<Rightarrow> list_all (\<lambda>(u, h). hi_sender h \<noteq> ''bob@shop5x.top'') ks \<and> trusted_row ''bob@shop5x.top'' d' \<and>
       (case gate_filter sample_gate sample_hash None False [sample_mail 9 ''m333'' ''Bob''] d' of
          None \<Rightarrow> True
        | Some (ks2, d3) \<Rightarrow> list_all (\<lambda>(u, h). hi_sender h \<noteq> ''bob@shop5x.top'') ks2)"
proof -
  let ?m = "sample_mail 8 ''m1'' ''Bob''" and ?m' = "sample_mail 7 ''m22'' ''Bob''"
  obtain env where env: "ho_Envelope ?m = Some env" by (simp add: sample_mail_def)
  have bare: "bareAddr ''bob@shop5x.top'' = ''bob@shop5x.top''" by code_simp
  have e: "sender_of env = ''bob@shop5x.top''" "en_MessageID env = ''m1''" "plain_sender env"
    using env bare by (auto simp: sample_mail_def sender_of_def plain_sender_def)
  have hash: "msg_hash sample_hash ''m1'' = 2" "msg_hash sample_hash ''m22'' = 3" by code_simp+
  have hb: "held_before sample_gate sample_hash env sample_held"
    by (simp add: held_before_def e(2) hash) (simp add: sample_held_def sample_gate_def)
  have f: "find (has_hash sample_hash (msg_hash sample_hash (en_MessageID env))) [?m', ?m] = Some ?m"
    unfolding e(2) hash by (simp add: has_hash_def sample_mail_def hash)
  have "map_option fst (gate_filter sample_gate sample_hash None False [?m', ?m] sample_held) = Some []" by code_simp
  then obtain d' where run: "gate_filter sample_gate sample_hash None False [?m', ?m] sample_held = Some ([], d')"
    by (cases "gate_filter sample_gate sample_hash None False [?m', ?m] sample_held") auto
  have t: "trusted_row ''bob@shop5x.top'' d'"
    using rescued_sender_is_never_held [OF run f env hb] unfolding e(1) by simp
  have "list_all (\<lambda>(u, h). hi_sender h \<noteq> ''bob@shop5x.top'') ks2"
    if "gate_filter sample_gate sample_hash None False [sample_mail 9 ''m333'' ''Bob''] d' = Some (ks2, d3)" for ks2 d3
    using rescued_sender_is_never_held [OF run f env hb] t that e(3) unfolding e(1) list_all_iff by blast
  then show ?thesis using run t by (auto split: option.split)
qed

end
