(* ===== verification/Rules_Props.thy ===== *)
theory Rules_Props
  imports Rules New_Sender_Props
begin

text \<open>
  What the rule engine promises: the table only ever holds valid rules, a dry run changes nothing -
  and what a hold does that leaves the mail where it is.
\<close>

section \<open>The rule table\<close>

definition rules_ok :: "state_db \<Rightarrow> bool" where
  "rules_ok d \<longleftrightarrow> distinct (map r_Name (sd_rules d)) \<and> distinct (map r_ID (sd_rules d)) \<and> 0 < sd_next_rule d \<and>
     (\<forall>r\<in>set (sd_rules d). ValidateRule r = None \<and> r_Priority r \<noteq> 0 \<and> 0 < r_ID r \<and> r_ID r < sd_next_rule d \<and> 0 \<le> r_RunCount r)"

lemma rules_ok_same: "sd_rules d' = sd_rules d \<Longrightarrow> sd_next_rule d' = sd_next_rule d \<Longrightarrow> rules_ok d' = rules_ok d"
  by (simp add: rules_ok_def)

lemma ValidateRule_cong:
  assumes "r_Name r' = r_Name r" "r_Actions r' = r_Actions r" "r_Conditions r' = r_Conditions r"
  shows "ValidateRule r' = ValidateRule r"
  unfolding ValidateRule_def assms by (rule refl)

lemma with_priority_sel [simp]:
  "r_Name (with_priority r) = r_Name r" "r_Actions (with_priority r) = r_Actions r" "r_ID (with_priority r) = r_ID r"
  "r_Conditions (with_priority r) = r_Conditions r" "r_Priority (with_priority r) \<noteq> 0"
  by (simp_all add: with_priority_def)

lemma ValidateRule_upd [simp]:
  "ValidateRule (r\<lparr>r_ID := i\<rparr>) = ValidateRule r" "ValidateRule (r\<lparr>r_RunCount := n\<rparr>) = ValidateRule r"
  "ValidateRule (with_priority r) = ValidateRule r"
  by (rule ValidateRule_cong; simp)+

lemma create_ok: "rules_ok d \<Longrightarrow> rules_ok (snd (CreateRule r d))"
proof (cases "ValidateRule r = None \<and> \<not> list_ex (\<lambda>x. r_Name x = r_Name r) (sd_rules d)")
  case True
  assume ok: "rules_ok d"
  have "\<forall>x\<in>set (sd_rules d). r_ID x < sd_next_rule d" using ok by (simp add: rules_ok_def)
  then have fresh: "sd_next_rule d \<notin> r_ID ` set (sd_rules d)" by force
  have name: "r_Name r \<notin> r_Name ` set (sd_rules d)" using True by (auto simp: list_ex_iff)
  show ?thesis using ok True fresh name
    by (auto simp: rules_ok_def CreateRule_def rules_create_def list_ex_iff)
next
  case False
  assume "rules_ok d"
  with False show ?thesis by (auto simp: CreateRule_def rules_create_def split: option.split)
qed

lemma update_ok:
  assumes ok: "rules_ok d"
  shows "rules_ok (snd (UpdateRule r d))"
proof (cases "ValidateRule r = None \<and> list_ex (\<lambda>x. r_ID x = r_ID r) (sd_rules d) \<and> \<not> list_ex (\<lambda>x. r_Name x = r_Name r \<and> r_ID x \<noteq> r_ID r) (sd_rules d)")
  case True
  let ?f = "\<lambda>x. (with_priority r)\<lparr>r_RunCount := r_RunCount x\<rparr>"
  let ?rs = "map (\<lambda>x. if r_ID x = r_ID r then ?f x else x) (sd_rules d)"
  have res: "snd (UpdateRule r d) = d\<lparr>sd_rules := ?rs\<rparr>" using True by (simp add: UpdateRule_def rules_update_def upd_rows_def)
  have sel: "sd_rules (snd (UpdateRule r d)) = ?rs" "sd_next_rule (snd (UpdateRule r d)) = sd_next_rule d" by (simp_all add: res)
  have "map r_ID ?rs = map r_ID (sd_rules d)" by simp
  then have "distinct (map r_ID ?rs)" using ok unfolding rules_ok_def by (simp only:)
  moreover have "distinct (map r_Name ?rs)"
  proof -
    have inj: "inj_on r_Name (set (sd_rules d))" "inj_on r_ID (set (sd_rules d))" "distinct (sd_rules d)"
      using ok by (auto simp: rules_ok_def distinct_map)
    have other: "r_Name x \<noteq> r_Name r" if "x \<in> set (sd_rules d)" "r_ID x \<noteq> r_ID r" for x
      using True that by (auto simp: list_ex_iff)
    have "inj_on (\<lambda>x. r_Name (if r_ID x = r_ID r then ?f x else x)) (set (sd_rules d))"
    proof (rule inj_onI)
      fix x y assume xy: "x \<in> set (sd_rules d)" "y \<in> set (sd_rules d)"
        and eq: "r_Name (if r_ID x = r_ID r then ?f x else x) = r_Name (if r_ID y = r_ID r then ?f y else y)"
      show "x = y"
      proof (cases "r_ID x = r_ID r \<longleftrightarrow> r_ID y = r_ID r")
        case same: True
        show ?thesis
        proof (cases "r_ID x = r_ID r")
          case True
          then have "r_ID x = r_ID y" using same by simp
          then show ?thesis using inj_onD [OF inj(2)] xy by blast
        next
          case False
          then have "r_Name x = r_Name y" using same eq by simp
          then show ?thesis using inj_onD [OF inj(1)] xy by blast
        qed
      next
        case False
        then show ?thesis using eq other xy by (cases "r_ID x = r_ID r") auto
      qed
    qed
    then show ?thesis using inj(3) by (simp add: distinct_map inj_on_def)
  qed
  moreover have "\<forall>x\<in>set ?rs. ValidateRule x = None \<and> r_Priority x \<noteq> 0 \<and> 0 < r_ID x \<and> r_ID x < sd_next_rule d \<and> 0 \<le> r_RunCount x"
    using ok True by (auto simp: rules_ok_def)
  moreover have "0 < sd_next_rule d" using ok by (simp add: rules_ok_def)
  ultimately show ?thesis unfolding rules_ok_def sel by blast
next
  case False
  then show ?thesis using ok by (auto simp: UpdateRule_def rules_update_def split: option.split)
qed

lemma delete_ok: "rules_ok d \<Longrightarrow> rules_ok (snd (DeleteRule i d))"
proof -
  assume ok: "rules_ok d"
  have "rules_ok (d\<lparr>sd_rules := filter (\<lambda>r. r_ID r \<noteq> i) (sd_rules d)\<rparr>)"
    using ok by (auto simp: rules_ok_def intro: distinct_map_filter)
  moreover have "rules_ok (forget_learned i x) = rules_ok x" for x by (rule rules_ok_same) (simp_all add: forget_learned_def)
  ultimately show ?thesis using ok by (simp add: DeleteRule_def rules_delete_def)
qed

lemma increment_ok:
  assumes "rules_ok d"
  shows "rules_ok (increment_run i n d)"
proof -
  let ?rs = "upd_rows (\<lambda>r. r_ID r = i) (\<lambda>r. r\<lparr>r_RunCount := r_RunCount r + int n\<rparr>) (sd_rules d)"
  have "map r_ID ?rs = map r_ID (sd_rules d)" "map r_Name ?rs = map r_Name (sd_rules d)" by (rule map_upd_rows; simp)+
  moreover have "\<forall>x\<in>set ?rs. ValidateRule x = None \<and> r_Priority x \<noteq> 0 \<and> 0 < r_ID x \<and> r_ID x < sd_next_rule d \<and> 0 \<le> r_RunCount x"
    using assms by (auto simp: rules_ok_def upd_rows_def)
  ultimately show ?thesis using assms by (simp add: rules_ok_def increment_run_def)
qed

text \<open>Applying a rule leaves the table alone.\<close>

definition same_rules :: "state_db \<Rightarrow> state_db \<Rightarrow> bool" where
  "same_rules d d' \<longleftrightarrow> sd_rules d' = sd_rules d \<and> sd_next_rule d' = sd_next_rule d"

lemma same_rules_trans: "same_rules a b \<Longrightarrow> same_rules b c \<Longrightarrow> same_rules a c"
  by (simp add: same_rules_def)

lemma same_rules_refl [simp]: "same_rules d d"
  by (simp add: same_rules_def)

lemma released_rules: "same_rules d (snd (released g k f dry d))"
  by (simp add: released_def Let_def same_rules_def trust_sender_def sender_upsert_def)

lemma release_pass_rules: "same_rules (snd st) (snd (release_pass g hf dry msgs st))"
proof (induction g hf dry msgs st rule: release_pass.induct)
  case (2 g hf dry m ms rel d)
  show ?case
  proof (cases "ho_Envelope m")
    case None
    then show ?thesis using 2 by simp
  next
    case (Some env)
    obtain r d' where r: "released g (msg_hash hf (en_MessageID env)) (sender_of env) dry d = (r, d')"
      by (cases "released g (msg_hash hf (en_MessageID env)) (sender_of env) dry d")
    have "same_rules d d'" using released_rules [of d g "msg_hash hf (en_MessageID env)" "sender_of env" dry] r by simp
    then show ?thesis using 2 Some r by (cases r) (auto intro: same_rules_trans)
  qed
qed simp

lemma filter_rules: "gate_filter g hf cache dry msgs d = Some (ks, d') \<Longrightarrow> same_rules d d'"
  using release_pass_rules [of "([], d)" g hf dry msgs] by (auto simp: gate_filter_def split: prod.splits)

lemma record_all_rules: "same_rules d (record_all render g folder ks d)"
  unfolding record_all_def
  by (rule fold_preserves [where P = "same_rules d"]) (auto simp: record_held_def same_rules_def)

lemma record_moves_rules: "same_rules d (record_rule_moves hf account r mids d)"
  unfolding record_rule_moves_def
  by (rule fold_preserves [where P = "same_rules d"]) (auto simp: record_rule_move_def Let_def same_rules_def)

lemma rule_uids_cases:
  assumes "rule_uids s sv account folder g dry uids d w = Some (Inr (us, ks, d'))"
  shows "d' = d \<or> (\<exists>g' msgs. g = Some g' \<and> gate_filter g' (sv_hash sv) (sv_cache sv) dry msgs d = Some (ks, d'))"
proof (cases g)
  case None
  then show ?thesis using assms by (simp add: rule_uids_def)
next
  case (Some g')
  show ?thesis
  proof (cases "uids = []")
    case True
    then show ?thesis using assms Some by (simp add: rule_uids_def)
  next
    case False
    then obtain msgs where h: "ms_headers s account folder uids w = Some msgs"
      using assms Some by (auto simp: rule_uids_def split: option.splits)
    then obtain k d1 where "gate_filter g' (sv_hash sv) (sv_cache sv) dry msgs d = Some (k, d1)"
      using assms Some False by (auto simp: rule_uids_def split: option.splits)
    then show ?thesis using assms Some False h by (auto simp: rule_uids_def)
  qed
qed

lemma rule_uids_rules: "rule_uids s sv account folder g dry uids d w = Some (Inr (us, ks, d')) \<Longrightarrow> same_rules d d'"
  by (drule rule_uids_cases) (auto dest: filter_rules)

lemma act_on_cases:
  assumes "act_on s sv r account folder g uids ks d w = (e, d', w')"
  shows "(d' = d \<and> e \<noteq> None) \<or> (e = None \<and> (\<exists>mids dest. (let d1 = record_rule_moves (sv_hash sv) account r mids d in
     d' = (case g of None \<Rightarrow> d1 | Some g \<Rightarrow> record_all (sv_render sv) g dest ks d1)) \<and>
     (list_ex (\<lambda>a. ra_Type a = ''trash'' \<or> ra_Type a = ''move'') (r_Actions r) \<longrightarrow> ms_ids s account folder uids w = Some mids)))"
proof -
  let ?m = "if list_ex (\<lambda>a. ra_Type a = ''trash'' \<or> ra_Type a = ''move'') (r_Actions r) then ms_ids s account folder uids w else Some []"
  obtain e1 w1 where run: "run_actions s account folder uids (r_Actions r) w = (e1, w1)"
    by (cases "run_actions s account folder uids (r_Actions r) w")
  show ?thesis
  proof (cases ?m)
    case None
    then show ?thesis using assms unfolding act_on_def Let_def by auto
  next
    case (Some mids)
    have "list_ex (\<lambda>a. ra_Type a = ''trash'' \<or> ra_Type a = ''move'') (r_Actions r) \<longrightarrow> ms_ids s account folder uids w = Some mids"
      using Some by (cases "list_ex (\<lambda>a. ra_Type a = ''trash'' \<or> ra_Type a = ''move'') (r_Actions r)") simp_all
    then show ?thesis using assms unfolding act_on_def Let_def Some option.case run prod.case
      by (cases e1) auto
  qed
qed

lemma act_on_rules:
  assumes "act_on s sv r account folder g uids ks d w = (e, d', w')"
  shows "same_rules d d'"
  using act_on_cases [OF assms]
proof (elim disjE exE conjE)
  fix mids dest
  assume d': "let d1 = record_rule_moves (sv_hash sv) account r mids d in
     d' = (case g of None \<Rightarrow> d1 | Some g \<Rightarrow> record_all (sv_render sv) g dest ks d1)"
  have "same_rules d (record_rule_moves (sv_hash sv) account r mids d)" by (rule record_moves_rules)
  then show ?thesis using d' same_rules_trans [OF _ record_all_rules] by (cases g) (simp_all add: Let_def)
qed simp

text \<open>A run of a rule either stops before it acts or acts on the messages \<open>rule_uids\<close> gives.\<close>

lemma apply_rule_cases:
  assumes "apply_rule s sv r dry d w = Some (out, d', w')"
  shows "(d' = d \<and> w' = w \<and> ro_error out \<noteq> None) \<or>
    (\<exists>account folder g uids0 uids ks d1. rule_uids s sv account folder g dry uids0 d w = Some (Inr (uids, ks, d1)) \<and>
       ro_matched out = length uids \<and>
       (if uids = [] \<or> dry then d' = d1 \<and> w' = w \<and> ro_error out = None
        else act_on s sv r account folder g uids ks d1 w = (ro_error out, d', w')))"
proof (cases "rule_target s sv r d w")
  case (Inl e)
  then show ?thesis using assms by (auto simp: apply_rule_def)
next
  case (Inr t)
  obtain account folder g uids0 where t: "t = (account, folder, g, uids0)" by (cases t)
  let ?u = "rule_uids s sv account folder g dry uids0 d w"
  have tgt: "rule_target s sv r d w = Inr (account, folder, g, uids0)" using Inr t by simp
  show ?thesis
  proof (cases ?u)
    case None
    then show ?thesis using assms tgt by (simp add: apply_rule_def)
  next
    case (Some x)
    show ?thesis
    proof (cases x)
      case (Inl e)
      then show ?thesis using assms tgt Some by (auto simp: apply_rule_def)
    next
      case (Inr y)
      obtain uids ks d1 where y: "y = (uids, ks, d1)" by (cases y)
      obtain e d2 w2 where act: "act_on s sv r account folder g uids ks d1 w = (e, d2, w2)"
        by (cases "act_on s sv r account folder g uids ks d1 w")
      have u: "?u = Some (Inr (uids, ks, d1))" using Some Inr y by simp
      have "ro_matched out = length uids \<and> (if uids = [] \<or> dry then d' = d1 \<and> w' = w \<and> ro_error out = None
          else act_on s sv r account folder g uids ks d1 w = (ro_error out, d', w'))"
        using assms tgt u act by (cases "uids = [] \<or> dry") (auto simp: apply_rule_def Let_def)
      with u show ?thesis by blast
    qed
  qed
qed

lemma apply_rule_rules:
  assumes "apply_rule s sv r dry d w = Some (out, d', w')"
  shows "same_rules d d'"
  using apply_rule_cases [OF assms]
proof (elim disjE exE conjE)
  fix account folder g uids0 uids ks d1
  assume u: "rule_uids s sv account folder g dry uids0 d w = Some (Inr (uids, ks, d1))"
    and a: "if uids = [] \<or> dry then d' = d1 \<and> w' = w \<and> ro_error out = None
      else act_on s sv r account folder g uids ks d1 w = (ro_error out, d', w')"
  have "same_rules d d1" by (rule rule_uids_rules [OF u])
  moreover have "same_rules d1 d'"
  proof (cases "uids = [] \<or> dry")
    case True
    then show ?thesis using a by simp
  next
    case False
    then have "act_on s sv r account folder g uids ks d1 w = (ro_error out, d', w')" using a by simp
    then show ?thesis by (rule act_on_rules)
  qed
  ultimately show ?thesis by (rule same_rules_trans)
qed simp

lemma run_rules_ok: "run_rules s sv dry rs d w = Some (outs, evs, d', w') \<Longrightarrow> rules_ok d \<Longrightarrow> rules_ok d'"
proof (induction rs arbitrary: d w outs evs)
  case (Cons r rs)
  obtain out d1 w1 where a: "apply_rule s sv r dry d w = Some (out, d1, w1)"
    using Cons.prems(1) by (auto split: option.splits)
  have "rules_ok d1" using apply_rule_rules [OF a] Cons.prems(2) rules_ok_same [of d1 d] by (simp add: same_rules_def)
  then show ?case using Cons.prems(1) Cons.IH a increment_ok by (auto simp: Let_def split: if_splits)
qed simp

text \<open>The operations that touch the table.\<close>

inductive rule_step :: "'m mail_server \<Rightarrow> service \<Rightarrow> state_db \<Rightarrow> state_db \<Rightarrow> bool" for s sv where
  created: "rule_step s sv d (snd (CreateRule r d))"
| updated: "rule_step s sv d (snd (UpdateRule r d))"
| deleted: "rule_step s sv d (snd (DeleteRule i d))"
| run: "run_selected s sv only dry d w = Some (outs, evs, d', w') \<Longrightarrow> rule_step s sv d d'"

lemma rule_step_ok: "rule_step s sv d d' \<Longrightarrow> rules_ok d \<Longrightarrow> rules_ok d'"
  by (erule rule_step.cases) (auto simp: create_ok update_ok delete_ok run_selected_def dest: run_rules_ok)

text \<open>C7: Whatever is created, updated, deleted and run, the table holds valid rules only: each passes
  \<open>ValidateRule\<close>, has a nonzero priority and a fresh id, and no two share a name or an id.\<close>
theorem stored_rules_are_valid:
  assumes "(rule_step s sv)\<^sup>*\<^sup>* empty_state d"
  shows "rules_ok d"
  using assms
proof (induction rule: rtranclp_induct)
  case base
  then show ?case by (simp add: rules_ok_def empty_state_def)
next
  case (step y z)
  then show ?case using rule_step_ok by blast
qed

section \<open>Dry runs\<close>

lemma rule_uids_dry: "rule_uids s sv account folder g True uids d w = Some (Inr (us, ks, d')) \<Longrightarrow> d' = d"
  by (drule rule_uids_cases) (auto dest: dry_filter_same)

lemma apply_rule_dry:
  assumes "apply_rule s sv r True d w = Some (out, d', w')"
  shows "d' = d \<and> w' = w"
  using apply_rule_cases [OF assms]
proof (elim disjE exE conjE)
  fix account folder g uids0 uids ks d1
  assume u: "rule_uids s sv account folder g True uids0 d w = Some (Inr (uids, ks, d1))"
    and a: "if uids = [] \<or> True then d' = d1 \<and> w' = w \<and> ro_error out = None
      else act_on s sv r account folder g uids ks d1 w = (ro_error out, d', w')"
  show ?thesis using a rule_uids_dry [OF u] by simp
qed simp

text \<open>A dry run of the rules and the test of one rule change neither the database nor the mailbox
  and announce nothing.\<close>
theorem dry_run_changes_nothing:
  "(\<forall>outs evs d' w'. run_selected s sv only True d w = Some (outs, evs, d', w') \<longrightarrow> d' = d \<and> w' = w \<and> evs = []) \<and>
   (\<forall>out d' w'. TestRule s sv i d w = Some (Inr (out, d', w')) \<longrightarrow> d' = d \<and> w' = w)"
proof -
  have "run_rules s sv True rs d w = Some (outs, evs, d', w') \<Longrightarrow> d' = d \<and> w' = w \<and> evs = []" for rs outs evs d' w'
  proof (induction rs arbitrary: outs evs)
    case (Cons r rs)
    obtain out d1 w1 where a: "apply_rule s sv r True d w = Some (out, d1, w1)"
      using Cons.prems by (auto split: option.splits)
    have "d1 = d" "w1 = w" using apply_rule_dry [OF a] by simp_all
    then show ?case using Cons.prems Cons.IH a by (auto simp: Let_def)
  qed simp
  moreover have "TestRule s sv i d w = Some (Inr (out, d', w')) \<Longrightarrow> d' = d \<and> w' = w" for out d' w'
    by (auto simp: TestRule_def split: sum.splits option.splits dest: apply_rule_dry)
  ultimately show ?thesis unfolding run_selected_def by blast
qed

section \<open>A hold that moves nothing\<close>

lemma record_all_held:
  assumes "(u, h) \<in> set ks" "hi_hash h \<noteq> 0"
  shows "\<exists>r\<in>set (sd_held (record_all render g folder ks d)). hm_account r = g_account g \<and> hm_hash r = hi_hash h \<and> hm_released_at r = None"
proof -
  let ?P = "\<lambda>d. \<exists>r\<in>set (sd_held d). hm_account r = g_account g \<and> hm_hash r = hi_hash h \<and> hm_released_at r = None"
  have keep: "?P (record_held render g folder x y)" if y: "?P y" for x y
  proof -
    obtain r where r: "r \<in> set (sd_held y)" "hm_account r = g_account g" "hm_hash r = hi_hash h" "hm_released_at r = None" using y by blast
    show ?thesis
    proof (cases "hi_hash x = hi_hash h")
      case True
      let ?p = "\<lambda>r. hm_account r = g_account g \<and> hm_hash r = hi_hash x"
      let ?f = "\<lambda>r. r\<lparr>hm_held_at := sd_now y, hm_released_at := None, hm_digested_at := None\<rparr>"
      have "list_ex ?p (sd_held y)" using r True by (auto simp: list_ex_iff)
      then have "?f r \<in> set (sd_held (record_held render g folder x y))"
        using r True assms(2) by (force simp: record_held_def upsert_def upd_rows_def)
      then show ?thesis using r by (intro bexI [of _ "?f r"]) simp_all
    next
      case False
      then have "r \<in> set (sd_held (record_held render g folder x y))"
        using r by (force simp: record_held_def upsert_def upd_rows_def)
      then show ?thesis using r by blast
    qed
  qed
  have put: "?P (record_held render g folder h y)" for y
  proof (cases "list_ex (\<lambda>r. hm_account r = g_account g \<and> hm_hash r = hi_hash h) (sd_held y)")
    case True
    then obtain r where r: "r \<in> set (sd_held y)" "hm_account r = g_account g" "hm_hash r = hi_hash h" by (auto simp: list_ex_iff)
    let ?f = "\<lambda>r. r\<lparr>hm_held_at := sd_now y, hm_released_at := None, hm_digested_at := None\<rparr>"
    have "?f r \<in> set (sd_held (record_held render g folder h y))"
      using r True assms(2) by (force simp: record_held_def upsert_def upd_rows_def)
    then show ?thesis using r by (intro bexI [of _ "?f r"]) simp_all
  next
    case False
    then show ?thesis using assms(2) by (simp add: record_held_def upsert_def)
  qed
  show ?thesis unfolding record_all_def using assms(1)
  proof (induction ks arbitrary: d)
    case (Cons k ks)
    show ?case
    proof (cases "k = (u, h)")
      case True
      have "?P (fold (record_held render g folder \<circ> snd) ks (record_held render g folder h d))"
        by (rule fold_preserves [where P = ?P]) (use keep put in \<open>simp_all only: comp_def\<close>)
      then show ?thesis by (simp only: True fold_simps comp_def snd_conv)
    next
      case False
      then show ?thesis using Cons by simp
    qed
  qed simp
qed

text \<open>A hold whose actions do not move the mail (a flag, say) trusts the senders it holds: the next
  run finds the held message in the folder still, takes it for moved back by the owner, and from
  then on the sender is trusted.\<close>
theorem unmoved_hold_trusts_sender:
  assumes "gate_filter g hf cache False msgs d = Some (ks, d1)" "(u, h) \<in> set ks" "hi_hash h \<noteq> 0" "hi_sender h \<noteq> []"
    and "\<forall>m\<in>set msgs. \<forall>e. ho_Envelope m = Some e \<longrightarrow> msg_hash hf (en_MessageID e) = hi_hash h \<longrightarrow> sender_of e = hi_sender h"
    and "gate_filter g hf cache' False msgs (record_all render g folder ks d1) = Some (ks', d2)"
  shows "trusted_row (hi_sender h) d2 \<and> (\<forall>(u', h')\<in>set ks'. hi_sender h' \<noteq> hi_sender h)"
proof -
  let ?d = "record_all render g folder ks d1"
  obtain rel where k: "release_pass g hf False msgs ([], d) = (rel, d1)" "keep_pass g hf cache d1 rel msgs = Some ks"
    using assms(1) by (auto simp: gate_filter_def split: prod.splits)
  obtain m env where m: "m \<in> set msgs" "ho_Envelope m = Some env" "hi_sender h = sender_of env" "hi_hash h = msg_hash hf (en_MessageID env)"
    using keep_pass_in [OF k(2) assms(2)] by blast
  have hb: "held_before g hf env ?d"
    using record_all_held [OF assms(2,3), of render g folder d1] assms(3) m(4) by (simp add: held_before_def)
  obtain rel2 where k2: "release_pass g hf False msgs ([], ?d) = (rel2, d2)" "keep_pass g hf cache' d2 rel2 msgs = Some ks'"
    using assms(6) by (auto simp: gate_filter_def split: prod.splits)
  have "sender_of env \<in> set rel2" "trusted_row (sender_of env) d2"
    using release_pass_releases [OF m(1,2) hb, of False "[]"] assms(4,5) m(3,4) k2(1) by auto
  moreover have "hi_sender h' \<noteq> sender_of env" if "(u', h') \<in> set ks'" for u' h'
    using keep_pass_in [OF k2(2) that] \<open>sender_of env \<in> set rel2\<close> by (auto simp: considered_def)
  ultimately show ?thesis using m(3) by auto
qed

section \<open>Concrete runs\<close>

definition hold_rule :: rule where
  "hold_rule = \<lparr>r_ID = 0, r_Name = ''hold'', r_Description = [], r_Conditions = \<lparr>rc_Account = [], rc_Folder = [], rc_From = [],
     rc_Subject = [], rc_Text = [], rc_OlderThanDays = 0, rc_NewSender = True, rc_NewSenderDays = 0\<rparr>,
     r_Actions = [\<lparr>ra_Type = ''move'', ra_Dest = ''Held'', ra_Flags = []\<rparr>], r_Active = True, r_Priority = 0, r_RunCount = 0\<rparr>"

text \<open>A server with one message in every folder; the state counts the moves.\<close>

definition sample_server :: "nat mail_server" where
  "sample_server = \<lparr>ms_resolve = (\<lambda>a w. Some ''a''), ms_select = (\<lambda>a f w. True), ms_search = (\<lambda>a f c w. Some [7]),
     ms_headers = (\<lambda>a f us w. Some [sample_mail 7 ''m1'' ''Bob'']), ms_ids = (\<lambda>a f us w. Some [''m1'']),
     ms_list = (\<lambda>a w. Some []), ms_move = (\<lambda>a f us dst w. (True, w + length us)), ms_store = (\<lambda>a f us fl w. (True, w))\<rparr>"

definition sample_service :: service where
  "sample_service = \<lparr>sv_hash = sample_hash, sv_intel_on = True, sv_verdict_on = False, sv_threshold = 1,
     sv_logins = [''me@x.org''], sv_also_me = [], sv_cache = None, sv_render = (\<lambda>rs. [])\<rparr>"

theorem stored_rules_are_valid_witness:
  "rules_ok (snd (UpdateRule (hold_rule\<lparr>r_ID := 1, r_Name := ''hold 2''\<rparr>) (snd (CreateRule hold_rule empty_state)))) \<and>
   map r_Name (sd_rules (snd (UpdateRule (hold_rule\<lparr>r_ID := 1, r_Name := ''hold 2''\<rparr>) (snd (CreateRule hold_rule empty_state))))) = [''hold 2'']"
proof -
  have "(rule_step sample_server sample_service)\<^sup>*\<^sup>* empty_state
      (snd (UpdateRule (hold_rule\<lparr>r_ID := 1, r_Name := ''hold 2''\<rparr>) (snd (CreateRule hold_rule empty_state))))"
    by (rule rtranclp.rtrancl_into_rtrancl [OF r_into_rtranclp]) (rule rule_step.created, rule rule_step.updated)
  moreover have "map r_Name (sd_rules (snd (UpdateRule (hold_rule\<lparr>r_ID := 1, r_Name := ''hold 2''\<rparr>) (snd (CreateRule hold_rule empty_state))))) = [''hold 2'']"
    by code_simp
  ultimately show ?thesis using stored_rules_are_valid by blast
qed

definition sample_scanned :: state_db where
  "sample_scanned = (snd (CreateRule hold_rule empty_state))\<lparr>sd_scan := [\<lparr>is_account = ''a'', is_folder = ''INBOX'', is_validity = 1,
     is_last_uid = 1, is_scanned = 1, is_completed = Some 1\<rparr>]\<rparr>"

theorem dry_run_changes_nothing_witness:
  "\<exists>outs. run_selected sample_server sample_service 0 True sample_scanned 0 = Some (outs, [], sample_scanned, 0) \<and>
     map (ro_matched \<circ> snd) outs = [1]"
proof -
  let ?r = "run_selected sample_server sample_service 0 True sample_scanned 0"
  have "map_option (\<lambda>(outs, evs, d, w). map (ro_matched \<circ> snd) outs) ?r = Some [1]" by code_simp
  then obtain outs evs d w where r: "?r = Some (outs, evs, d, w)" "map (ro_matched \<circ> snd) outs = [1]" by (cases ?r) auto
  have "(\<forall>outs evs d' w'. ?r = Some (outs, evs, d', w') \<longrightarrow> d' = sample_scanned \<and> w' = 0 \<and> evs = [])"
    using dry_run_changes_nothing [of sample_server sample_service 0 sample_scanned 0 1] by blast
  with r show ?thesis by auto
qed

theorem unmoved_hold_trusts_sender_witness:
  "\<exists>ks ks' d2. gate_filter sample_gate sample_hash None False [sample_mail 7 ''m1'' ''Bob''] empty_state = Some (ks, empty_state) \<and>
     gate_filter sample_gate sample_hash None False [sample_mail 7 ''m1'' ''Bob''] (record_all (\<lambda>rs. []) sample_gate [] ks empty_state) = Some (ks', d2) \<and>
     trusted_row ''bob@shop5x.top'' d2"
proof -
  let ?ms = "[sample_mail 7 ''m1'' ''Bob'']"
  let ?h = "\<lparr>hi_ref = ''m1'', hi_sender = ''bob@shop5x.top'', hi_subject = ''Re: hi'', hi_reasons = [FakeReply, Bulk, Throwaway], hi_hash = 2\<rparr>"
  have run: "gate_filter sample_gate sample_hash None False ?ms empty_state = Some ([(7, ?h)], empty_state)" by code_simp
  let ?d = "record_all (\<lambda>rs. []) sample_gate [] [(7, ?h)] empty_state"
  have "map_option fst (gate_filter sample_gate sample_hash None False ?ms ?d) = Some []" by code_simp
  then obtain d2 where run2: "gate_filter sample_gate sample_hash None False ?ms ?d = Some ([], d2)"
    by (cases "gate_filter sample_gate sample_hash None False ?ms ?d") auto
  have bare: "bareAddr ''bob@shop5x.top'' = ''bob@shop5x.top''" by code_simp
  have same: "\<forall>m\<in>set ?ms. \<forall>e. ho_Envelope m = Some e \<longrightarrow> msg_hash sample_hash (en_MessageID e) = hi_hash ?h \<longrightarrow> sender_of e = hi_sender ?h"
    by (simp add: sample_mail_def sender_of_def bare)
  have "hi_hash ?h \<noteq> 0" "hi_sender ?h \<noteq> []" by simp_all
  from unmoved_hold_trusts_sender [OF run list.set_intros(1) this same run2] run run2 show ?thesis by auto
qed

end
