(* ===== verification/Verdict_Props.thy ===== *)
theory Verdict_Props
  imports Verdict Rules_Props Roles_Props
begin

text \<open>
  What the verdict model can and cannot do: a body cannot close its fence, an answer is read into the
  schema, the job judges only strangers' mail, an answer that does not parse never holds a message,
  and the figures of an evaluation are consistent.
\<close>

section \<open>The fence\<close>

lemma has_prefix_conv [simp]:
  "has_prefix s []" "\<not> has_prefix [] (d # p)" "has_prefix (c # s) (d # p) = (c = d \<and> has_prefix s p)"
  by (auto simp: has_prefix_def)

lemma replace_triple:
  "escape_body s = (if s = [] then []
     else if has_prefix s ''>>>'' then ''> > >'' @ escape_body (drop 3 s) else hd s # escape_body (tl s))"
  unfolding escape_body_def by (subst replace_all.simps) (simp add: numeral_3_eq_3)

lemma escape_body_Nil [simp]: "escape_body [] = []"
  by (subst replace_triple) simp

lemma escape_body_Cons:
  "\<not> has_prefix (c # s) ''>>>'' \<Longrightarrow> escape_body (c # s) = c # escape_body s"
  by (subst replace_triple) (simp del: has_prefix_conv)

lemma escape_body_triple: "escape_body (CHR ''>'' # CHR ''>'' # CHR ''>'' # s) = ''> > >'' @ escape_body s"
  by (subst replace_triple) (simp)

lemma escape_body_head: "has_prefix (escape_body s) ''>'' \<Longrightarrow> has_prefix s ''>''"
  by (cases s; cases "has_prefix s ''>>>''") (auto simp: escape_body_Cons)

lemma escape_body_pair: "has_prefix (escape_body s) ''>>'' \<Longrightarrow> has_prefix s ''>>''"
proof (cases s)
  case (Cons c t)
  assume p: "has_prefix (escape_body s) ''>>''"
  show ?thesis
  proof (cases "has_prefix s ''>>>''")
    case True
    then show ?thesis using Cons has_prefix_iff by auto
  next
    case False
    then have "has_prefix (c # escape_body t) ''>>''" using p Cons escape_body_Cons by simp
    then have "c = CHR ''>''" "has_prefix (escape_body t) ''>''" by auto
    then show ?thesis using escape_body_head Cons by auto
  qed
qed simp

lemma escape_body_no_triple: "\<not> has_prefix (escape_body s) ''>>>''"
proof
  assume p: "has_prefix (escape_body s) ''>>>''"
  show False
  proof (cases "has_prefix s ''>>>''")
    case True
    then obtain t where "s = ''>>>'' @ t" using has_prefix_iff by blast
    then have "escape_body s = ''> > >'' @ escape_body t" using escape_body_triple by simp
    then show False using p by (simp)
  next
    case False
    then obtain c t where s: "s = c # t" using p by (cases s) (auto simp: has_prefix_def)
    then have "escape_body s = c # escape_body t" using False escape_body_Cons by simp
    then have "c = CHR ''>''" "has_prefix (escape_body t) ''>>''" using p by auto
    then show False using False s escape_body_pair by auto
  qed
qed

text \<open>\<open>Y>>>\<close> does not occur at any position of an escaped text, hence neither does the end of the fence.\<close>

lemma escape_body_no_close: "\<not> has_prefix (drop i (escape_body s)) ''Y>>>''"
proof (induction "length s" arbitrary: s i rule: less_induct)
  case less
  show ?case
  proof (cases s)
    case Nil
    then show ?thesis by (simp)
  next
    case (Cons c t)
    show ?thesis
    proof (cases "has_prefix s ''>>>''")
      case True
      then obtain u where u: "s = ''>>>'' @ u" using has_prefix_iff by blast
      then have e: "escape_body s = ''> > >'' @ escape_body u" using escape_body_triple by simp
      have "\<not> has_prefix (drop (i - 5) (escape_body u)) ''Y>>>''" using less u by simp
      moreover have "i = 0 \<or> i = 1 \<or> i = 2 \<or> i = 3 \<or> i = 4 \<or> (\<exists>j. i = Suc (Suc (Suc (Suc (Suc j)))))" by presburger
      ultimately show ?thesis unfolding e by (elim disjE exE) (simp_all)
    next
      case False
      then have e: "escape_body s = c # escape_body t" using Cons escape_body_Cons by simp
      show ?thesis
      proof (cases i)
        case 0
        then show ?thesis using e escape_body_no_triple [of t] by auto
      next
        case (Suc j)
        then show ?thesis using e less [of t j] Cons by simp
      qed
    qed
  qed
qed

lemma str_index_first:
  "has_prefix (drop n s) sub \<Longrightarrow> \<forall>i<n. \<not> has_prefix (drop i s) sub \<Longrightarrow> n \<le> length s \<Longrightarrow> str_index s sub = Some n"
proof (induction s arbitrary: n)
  case Nil
  then show ?case by (cases sub) auto
next
  case (Cons c s)
  show ?case
  proof (cases n)
    case 0
    then show ?thesis using Cons.prems by simp
  next
    case (Suc m)
    have "\<not> has_prefix (drop i s) sub" if "i < m" for i using Cons.prems(2) Suc that by (metis Suc_mono drop_Suc_Cons)
    moreover have "\<not> has_prefix (c # s) sub" using Cons.prems(2) Suc by (metis drop_0 zero_less_Suc)
    ultimately show ?thesis using Cons Suc by simp
  qed
qed

lemma no_fence_end: "\<not> has_prefix (drop i (escape_body s)) fence_end"
proof
  assume "has_prefix (drop i (escape_body s)) fence_end"
  then obtain u where "drop i (escape_body s) = fence_end @ u" using has_prefix_iff by blast
  then have "drop 9 (drop i (escape_body s)) = drop 9 (fence_end @ u)" by (rule arg_cong)
  also have "drop 9 (fence_end @ u) = ''Y>>>'' @ u" by (simp add: fence_end_def)
  finally have "drop (9 + i) (escape_body s) = ''Y>>>'' @ u" by (simp only: drop_drop)
  then show False using escape_body_no_close [of "9 + i" s] has_prefix_iff by blast
qed

lemma fence_end_crosses:
  assumes "i < length x" "has_prefix (drop i x @ newline_char # y) fence_end"
  shows "has_prefix (drop i x) fence_end"
proof (cases "length fence_end \<le> length (drop i x)")
  case True
  then show ?thesis using assms(2) by (simp add: has_prefix_def)
next
  case False
  then have "take (length fence_end) (drop i x @ newline_char # y) ! length (drop i x) = newline_char"
    by (simp add: nth_append del: length_drop)
  then have "fence_end ! length (drop i x) = newline_char" using assms(2) by (simp only: has_prefix_def)
  then have "newline_char \<in> set fence_end" using False by (metis nth_mem not_le)
  then show ?thesis by (simp add: fence_end_def)
qed

text \<open>C28: However a body is written, the first end of the fence behind its start is the one the prompt
  writes itself: the body cannot close the fence and continue as instructions.\<close>
theorem body_cannot_close_fence:
  "\<exists>before. Prompt i = before @ ''<<<EMAIL BODY (untrusted)'' @ newline_char # escape_body (vi_Body i) @ newline_char # fence_end @ [newline_char] \<and>
     str_index (escape_body (vi_Body i) @ newline_char # fence_end @ [newline_char]) fence_end = Some (Suc (length (escape_body (vi_Body i))))"
proof -
  let ?b = "escape_body (vi_Body i)"
  have "\<not> has_prefix (drop k (?b @ newline_char # fence_end @ [newline_char])) fence_end" if "k < Suc (length ?b)" for k
  proof (cases "k = length ?b")
    case True
    then show ?thesis by (simp add: fence_end_def)
  next
    case False
    then have k: "k < length ?b" using that by simp
    then show ?thesis using fence_end_crosses [OF k] no_fence_end by auto
  qed
  moreover have "has_prefix (drop (Suc (length ?b)) (?b @ newline_char # fence_end @ [newline_char])) fence_end" by simp
  ultimately have "str_index (?b @ newline_char # fence_end @ [newline_char]) fence_end = Some (Suc (length ?b))"
    by (intro str_index_first) auto
  then show ?thesis unfolding Prompt_def by (auto simp del: str_index.simps)
qed

text \<open>The replacement does not remove every triple: a run of five leaves one.\<close>

lemma triple_survives: "str_contains (escape_body ''>>>>>'') ''>>>''"
  by code_simp

section \<open>The answer\<close>

lemma add_reason_ok:
  "length rs \<le> 3 \<and> list_all (\<lambda>r. r \<noteq> [] \<and> length r \<le> 160) rs \<Longrightarrow>
   length (add_reason x rs) \<le> 3 \<and> list_all (\<lambda>r. r \<noteq> [] \<and> length r \<le> 160) (add_reason x rs)"
  by (simp add: add_reason_def Let_def)

definition result_ok :: "verdict_result \<Rightarrow> bool" where
  "result_ok r \<longleftrightarrow> vr_Verdict r \<in> set Verdicts \<and> vr_Asks r \<in> set Asks \<and> 0 \<le> vr_Confidence r \<and> vr_Confidence r \<le> 1 \<and>
     length (vr_Reasons r) \<le> 3 \<and> list_all (\<lambda>x. x \<noteq> [] \<and> length x \<le> 160) (vr_Reasons r)"

lemma Parse_ok: "Parse jd raw = Inr r \<Longrightarrow> result_ok r"
proof -
  have f: "length (fold add_reason xs []) \<le> 3 \<and> list_all (\<lambda>r. r \<noteq> [] \<and> length r \<le> 160) (fold add_reason xs [])" for xs
    by (rule fold_preserves [where P = "\<lambda>rs. length rs \<le> 3 \<and> list_all (\<lambda>r. r \<noteq> [] \<and> length r \<le> 160) rs"])
       (use add_reason_ok in simp_all)
  show "Parse jd raw = Inr r \<Longrightarrow> result_ok r"
    using f by (auto simp: Parse_def Let_def result_ok_def split: option.splits if_splits)
qed

lemma result_of_ok: "result_ok (result_of jd raw)"
proof (cases "Parse jd raw")
  case (Inl e)
  have "result_ok unparsed_result" by code_simp
  then show ?thesis using Inl by (simp add: result_of_def)
next
  case (Inr r)
  then show ?thesis by (simp add: result_of_def Parse_ok)
qed

section \<open>Evaluation\<close>

lemma filter_le: "(\<And>x. p x \<Longrightarrow> q x) \<Longrightarrow> length (filter p xs) \<le> length (filter q xs)"
  by (induction xs) auto

lemma filter_disjoint: "(\<And>x. \<not> (p x \<and> q x)) \<Longrightarrow> length (filter p xs) + length (filter q xs) = length (filter (\<lambda>x. p x \<or> q x) xs)"
  by (induction xs) auto

definition judged_samples :: "(bool \<times> sample_answer) list \<Rightarrow> (bool \<times> verdict_result) list" where
  "judged_samples xs = concat (map (\<lambda>(s, a). case a of Judged r \<Rightarrow> [(s, r)] | _ \<Rightarrow> []) xs)"

lemma judged_le: "length (filter (\<lambda>(s, r). p s) (judged_samples xs)) \<le> length (filter (\<lambda>(s, a). p s) xs)"
  by (induction xs) (auto simp: judged_samples_def split: sample_answer.split)

lemma answers_flags: "map fst (sample_answers ask jd sample) = map fst sample"
proof -
  have "map (\<lambda>(k, spam, i). spam) (zip ks sample) = map fst sample" if "length ks = length sample" for ks :: "nat list"
    using that by (induction ks sample rule: list_induct2) auto
  from this [of "[0..<length sample]"] show ?thesis by (simp add: sample_answers_def comp_def case_prod_unfold)
qed

lemma answers_count: "length (filter (\<lambda>(s, a). p s) (sample_answers ask jd sample)) = length (filter (\<lambda>x. p (fst x)) sample)"
proof -
  have a: "length (filter (\<lambda>(s, a). p s) xs) = length (filter p (map fst xs))" for xs :: "(bool \<times> sample_answer) list"
    by (induction xs) auto
  have b: "length (filter (\<lambda>x. p (fst x)) xs) = length (filter p (map fst xs))" for xs :: "(bool \<times> verdict_input) list"
    by (induction xs) auto
  show ?thesis unfolding a b answers_flags ..
qed

text \<open>The figures of an evaluation fit together: every sample is spam or legitimate, at most as many
  calls failed or did not parse as there are samples, and at every threshold the spam caught is part
  of the spam, the false positives and the vetted mail are disjoint parts of the legitimate mail, and
  the mail wrongly judged a scam is part of the false positives.\<close>
theorem evaluation_is_consistent:
  "em_Spam (evaluate_model ask jd sample) + em_Legit (evaluate_model ask jd sample) = length sample \<and>
   em_Errors (evaluate_model ask jd sample) + em_Unparsed (evaluate_model ask jd sample) \<le> length sample \<and>
   list_all (\<lambda>t. et_SpamCaught t \<le> em_Spam (evaluate_model ask jd sample) \<and>
       et_FalsePositives t + et_LegitVetted t \<le> em_Legit (evaluate_model ask jd sample) \<and> et_ScamFP t \<le> et_FalsePositives t)
     (em_Thresholds (evaluate_model ask jd sample))"
proof -
  let ?xs = "sample_answers ask jd sample"
  let ?as = "judged_samples ?xs"
  have spam: "length (filter (\<lambda>(s, r). s) ?as) \<le> length (filter fst sample)"
    using judged_le [of "\<lambda>s. s" ?xs] answers_count [of "\<lambda>s. s" ask jd sample] by simp
  have legit: "length (filter (\<lambda>(s, r). \<not> s) ?as) \<le> length (filter (\<lambda>x. \<not> fst x) sample)"
    using judged_le [of "\<lambda>s. \<not> s" ?xs] answers_count [of "\<lambda>s. \<not> s" ask jd sample] by simp
  have len: "length ?xs = length sample" by (simp add: sample_answers_def)
  have "length (filter (\<lambda>(s, a). a = CallFailed) ?xs) + length (filter (\<lambda>(s, a). a = NotParsed) ?xs) \<le> length ?xs"
    by (subst filter_disjoint) auto
  moreover have "length (filter fst sample) + length (filter (\<lambda>x. \<not> fst x) sample) = length sample" by (rule sum_length_filter_compl)
  moreover have "length (filter (\<lambda>(s, r). s \<and> flagged t r) ?as) \<le> length (filter fst sample)" for t
    by (rule order_trans [OF filter_le spam]) auto
  moreover have "length (filter (\<lambda>(s, r). \<not> s \<and> flagged t r) ?as) +
      length (filter (\<lambda>(s, r). \<not> s \<and> \<not> flagged t r \<and> vr_Verdict r = ''legitimate'' \<and> t \<le> vr_Confidence r) ?as) \<le> length (filter (\<lambda>x. \<not> fst x) sample)" for t
    by (subst filter_disjoint) (auto intro!: order_trans [OF filter_le legit])
  moreover have "length (filter (\<lambda>(s, r). \<not> s \<and> flagged t r \<and> vr_Verdict r = ''scam'') ?as) \<le> length (filter (\<lambda>(s, r). \<not> s \<and> flagged t r) ?as)" for t
    by (rule filter_le) auto
  ultimately show ?thesis using len
    by (simp add: evaluate_model_def Let_def at_threshold_def count_of_def list_all_iff judged_samples_def)
qed

section \<open>The job\<close>

definition stranger :: "string list \<Rightarrow> state_db \<Rightarrow> string \<Rightarrow> bool" where
  "stranger me d a \<longleftrightarrow> \<not> me_has me a \<and> \<not> correspondent a d"

definition pending :: "(string \<Rightarrow> int) \<Rightarrow> string list \<Rightarrow> state_db \<Rightarrow> candidate \<Rightarrow> bool" where
  "pending hf me d c \<longleftrightarrow> stranger me d (cd_sender c) \<and> \<not> judged hf (cd_account c) (cd_messageID c) d"

lemma take_candidates_pending:
  "list_all (pending hf me d) (snd st) \<and> length (snd st) \<le> limit \<Longrightarrow>
   list_all (pending hf me d) (snd (take_candidates hf me d limit cs st)) \<and> length (snd (take_candidates hf me d limit cs st)) \<le> limit"
  by (induction hf me d limit cs st rule: take_candidates.induct)
     (auto simp: skip_candidate_def pending_def stranger_def)

lemma candidates_pending:
  "list_all (pending hf me d) (verdictCandidates hf me n cache limit d) \<and> length (verdictCandidates hf me n cache limit d) \<le> limit"
  unfolding verdictCandidates_def Let_def by (intro take_candidates_pending) simp

text \<open>What the job may have added to the verdicts and the findings.\<close>

definition new_verdict_ok :: "string list \<Rightarrow> state_db \<Rightarrow> verdict_row \<Rightarrow> bool" where
  "new_verdict_ok me d v \<longleftrightarrow> stranger me d (vd_sender v) \<and> vd_verdict v \<in> set Verdicts \<and> vd_asks v \<in> set Asks \<and>
     0 \<le> vd_confidence v \<and> vd_confidence v \<le> 1"

definition new_finding_ok :: "verdict_cfg \<Rightarrow> string list \<Rightarrow> state_db \<Rightarrow> anomaly_row \<Rightarrow> bool" where
  "new_finding_ok c me d a \<longleftrightarrow> vc_Active c \<and> stranger me d (an_sender a) \<and>
     (\<exists>asks risky. an_finding a = AsksFor asks risky \<and> asks \<in> set Asks - {''none''})"

definition tick_inv :: "verdict_cfg \<Rightarrow> string list \<Rightarrow> state_db \<Rightarrow> state_db \<Rightarrow> bool" where
  "tick_inv c me d0 d \<longleftrightarrow> set (sd_verdicts d0) \<subseteq> set (sd_verdicts d) \<and>
     (\<forall>v\<in>set (sd_verdicts d) - set (sd_verdicts d0). new_verdict_ok me d0 v) \<and>
     (\<exists>as. sd_anomalies d = sd_anomalies d0 @ as \<and> list_all (new_finding_ok c me d0) as) \<and>
     d = d\<lparr>sd_verdicts := sd_verdicts d, sd_anomalies := sd_anomalies d, sd_next_anomaly := sd_next_anomaly d\<rparr>"

lemma store_verdict_inv:
  assumes "tick_inv c me d0 d" "pending hf me d0 cd" "result_ok r"
  shows "tick_inv c me d0 (store_verdict hf model cd r d)"
proof -
  have "v \<in> set (sd_verdicts (store_verdict hf model cd r d))" if "v \<in> set (sd_verdicts d0)" for v
    using that assms(1,2) by (auto simp: tick_inv_def store_verdict_def Let_def pending_def judged_def list_ex_iff)
  moreover have "new_verdict_ok me d0 v" if "v \<in> set (sd_verdicts (store_verdict hf model cd r d)) - set (sd_verdicts d0)" for v
    using that assms by (auto simp: tick_inv_def store_verdict_def Let_def new_verdict_ok_def pending_def result_ok_def)
  moreover have "sd_anomalies (store_verdict hf model cd r d) = sd_anomalies d" by (simp add: store_verdict_def Let_def)
  ultimately show ?thesis using assms(1) unfolding tick_inv_def by auto
qed

lemma askAnomaly_inv:
  assumes "tick_inv c me d0 d" "pending hf me d0 cd" "result_ok r" "acts_on c r"
  shows "tick_inv c me d0 (snd (askAnomaly cd r d))"
proof -
  obtain as where as: "sd_anomalies d = sd_anomalies d0 @ as" "list_all (new_finding_ok c me d0) as"
    using assms(1) by (auto simp: tick_inv_def)
  have row: "new_finding_ok c me d0 \<lparr>an_id = i, an_account = cd_account cd, an_sender = cd_sender cd, an_finding = AsksFor (vr_Asks r) b,
      an_severity = s, an_detected = t, an_resolved = False, an_resolved_at = None, an_folder = [], an_uid = 0, an_ref = q\<rparr>" for i b s t q
    using assms(2-4) by (simp add: new_finding_ok_def pending_def result_ok_def acts_on_def)
  have keep: "sd_verdicts (snd (askAnomaly cd r d)) = sd_verdicts d" by (simp add: askAnomaly_def insert_anomaly_def)
  have "\<exists>as. sd_anomalies (snd (askAnomaly cd r d)) = sd_anomalies d0 @ as \<and> list_all (new_finding_ok c me d0) as"
    using as row by (auto simp: askAnomaly_def insert_anomaly_def)
  then show ?thesis using assms(1) keep unfolding tick_inv_def by simp
qed

lemma settle_candidate_inv:
  assumes "tick_inv c me d0 (snd st)" "pending hf me d0 cd" "result_ok r"
  shows "tick_inv c me d0 (snd (settle_candidate hf model c cd r st))"
proof -
  let ?d = "store_verdict hf model cd r (snd st)"
  have d: "tick_inv c me d0 ?d" by (rule store_verdict_inv [OF assms])
  have "tick_inv c me d0 (snd (askAnomaly cd r ?d))" if "acts_on c r" by (rule askAnomaly_inv [OF d assms(2,3) that])
  then show ?thesis using d by (auto simp: settle_candidate_def Let_def split: option.split prod.split)
qed

lemma judge_candidates_inv:
  "tick_inv c me d0 (snd st) \<Longrightarrow> list_all (pending hf me d0) cds \<Longrightarrow>
   judge_candidates hf ask jd live model c me k cds st = (k', ids, d') \<Longrightarrow> tick_inv c me d0 d' \<and> k' \<le> k + length cds"
proof (induction cds arbitrary: k st)
  case (Cons cd cds)
  let ?i = "case cd_in cd of Cached i \<Rightarrow> Some i | Live a f u \<Rightarrow> map_option (\<lambda>p. inputFromRaw p me (BodyCharsOrDefault c)) (live a f u)"
  show ?case
  proof (cases ?i)
    case None
    then have "judge_candidates hf ask jd live model c me k cds st = (k', ids, d')" using Cons.prems(3) by (simp add: Let_def)
    then show ?thesis using Cons.IH [of st k] Cons.prems(1,2) by simp
  next
    case (Some i)
    show ?thesis
    proof (cases "ask k (Prompt i)")
      case None
      then show ?thesis using Cons.prems Some by (auto simp: Let_def)
    next
      case (Some raw)
      let ?st = "settle_candidate hf model c cd (result_of jd raw) st"
      have "judge_candidates hf ask jd live model c me (Suc k) cds ?st = (k', ids, d')"
        using Cons.prems(3) Some \<open>?i = Some i\<close> by (simp add: Let_def)
      moreover have "tick_inv c me d0 (snd ?st)"
        using Cons.prems(1,2) result_of_ok by (intro settle_candidate_inv) auto
      ultimately show ?thesis using Cons.IH [of ?st "Suc k"] Cons.prems(2) by simp
    qed
  qed
qed simp

text \<open>C26: A tick sends at most the configured number of prompts and only adds: every earlier verdict and
  finding stays, a new verdict is a well-formed one about mail of a stranger - none of the owner's
  addresses, nobody the owner wrote to, answered or trusts, no newsletter and no bot -, and a new
  finding says that a stranger asks for money or access and arises only while verdicts are active.\<close>
theorem tick_judges_strangers_only:
  assumes "verdict_tick ask jd live sv c d = (k, ids, d')"
  shows "k \<le> PerTickOrDefault c \<and> set (sd_verdicts d) \<subseteq> set (sd_verdicts d') \<and>
    (\<forall>v\<in>set (sd_verdicts d') - set (sd_verdicts d). new_verdict_ok (me_set sv d) d v) \<and>
    (\<exists>as. sd_anomalies d' = sd_anomalies d @ as \<and> list_all (new_finding_ok c (me_set sv d) d) as)"
proof (cases "verdictModel c")
  case None
  then show ?thesis using assms by (simp add: verdict_tick_def)
next
  case (Some model)
  let ?me = "me_set sv d"
  let ?cds = "verdictCandidates (sv_hash sv) ?me (BodyCharsOrDefault c) (sv_cache sv) (PerTickOrDefault c) d"
  have run: "judge_candidates (sv_hash sv) ask jd live model c ?me 0 ?cds ([], d) = (k, ids, d')"
    using assms Some by (simp add: verdict_tick_def)
  have start: "tick_inv c ?me d (snd ([], d))" by (simp add: tick_inv_def)
  have "list_all (pending (sv_hash sv) ?me d) ?cds" "length ?cds \<le> PerTickOrDefault c" using candidates_pending by simp_all
  then show ?thesis using judge_candidates_inv [OF start _ run] by (simp add: tick_inv_def)
qed

section \<open>An answer that does not parse\<close>

lemma signals_verdicts: "signals g hf (d\<lparr>sd_verdicts := vs\<rparr>) env m sender = signals g hf d env m sender"
  by (simp add: signals_def answers_owner_def copies_contact_def)

lemma stored_after_store:
  assumes "msg_hash hf mid \<noteq> 0" "cd_account cd = account" "cd_messageID cd = mid"
  shows "\<exists>v. stored_verdict account hf mid (store_verdict hf model cd r d) = Some v \<and> vd_confidence v = vr_Confidence r"
proof -
  let ?p = "\<lambda>v. vd_account v = account \<and> vd_hash v = msg_hash hf mid"
  have found: "find ?p (filter (\<lambda>v. \<not> ?p v) xs @ [y]) = Some y" if "?p y" for xs y using that by (induction xs) auto
  show ?thesis using assms by (simp add: stored_verdict_def store_verdict_def Let_def found [simplified])
qed

text \<open>When the model's answer to a message does not parse, its stored verdict never decides: below
  the hold score of the headers the message stays, whatever the thresholds of the configuration.\<close>
theorem unparsed_answer_never_holds:
  assumes "Parse jd raw = Inl e" "msg_hash hf (en_MessageID env) \<noteq> 0"
    "cd_account cd = g_account g" "cd_messageID cd = en_MessageID env"
    "g_verdictOn g" "g_threshold g = ConfidenceOrDefault c"
    "signals g hf d env m sender = Some (False, sigs)" "sum_list (map fst sigs) < holdScore"
  shows "judge g hf cache (store_verdict hf model cd (result_of jd raw) d) env m sender = Some ([], False)"
proof -
  let ?d = "store_verdict hf model cd (result_of jd raw) d"
  obtain v where v: "stored_verdict (g_account g) hf (en_MessageID env) ?d = Some v" "vd_confidence v = vr_Confidence (result_of jd raw)"
    using stored_after_store [OF assms(2,3,4)] by blast
  have "vr_Confidence (result_of jd raw) = 0" using assms(1) by (simp add: result_of_def unparsed_result_def)
  moreover have "0 < ConfidenceOrDefault c" by (simp add: ConfidenceOrDefault_def)
  ultimately have "vd_confidence v < g_threshold g" using v(2) assms(6) by simp
  moreover have "signals g hf ?d env m sender = Some (False, sigs)"
    using assms(7) signals_verdicts by (simp add: store_verdict_def Let_def)
  ultimately show ?thesis using assms(5,8) v(1) by (simp add: judge_def Let_def)
qed

section \<open>Witnesses\<close>

definition eve_service :: service where
  "eve_service = sample_service\<lparr>sv_cache := Some [role_mail]\<rparr>"

definition active_verdicts :: verdict_cfg where
  "active_verdicts = \<lparr>vc_Provider = [], vc_Model = ''m'', vc_DatawatchLLM = [], vc_Active = True, vc_Confidence = 0, vc_PerTick = 0, vc_BodyChars = 0\<rparr>"

definition scam_answer :: "string \<Rightarrow> verdict_result option" where
  "scam_answer s = Some \<lparr>vr_Verdict = ''Scam'', vr_Asks = ''gift_card'', vr_Confidence = 2, vr_Reasons = [''urgent'']\<rparr>"

theorem tick_judges_strangers_only_witness:
  "\<exists>k ids d'. verdict_tick (\<lambda>k p. Some ''{}'') scam_answer (\<lambda>a f u. None) eve_service active_verdicts empty_state = (k, ids, d') \<and>
     k = 1 \<and> map vd_sender (sd_verdicts d') = [''eve@y.org''] \<and>
     list_all (new_finding_ok active_verdicts (me_set eve_service empty_state) empty_state) (sd_anomalies d') \<and> length (sd_anomalies d') = 1"
proof -
  let ?t = "verdict_tick (\<lambda>k p. Some ''{}'') scam_answer (\<lambda>a f u. None) eve_service active_verdicts empty_state"
  have e: "fst ?t = 1" "map vd_sender (sd_verdicts (snd (snd ?t))) = [''eve@y.org'']" "length (sd_anomalies (snd (snd ?t))) = 1" by code_simp+
  obtain k ids d' where t: "?t = (k, ids, d')" by (metis prod_cases3)
  have "sd_anomalies empty_state = []" by (simp add: empty_state_def)
  then show ?thesis using tick_judges_strangers_only [OF t] t e by auto
qed

theorem unparsed_answer_never_holds_witness:
  "judge (sample_gate\<lparr>g_verdictOn := True, g_threshold := 9 / 10\<rparr>) (\<lambda>x. 7) None
     (store_verdict (\<lambda>x. 7) ''m'' \<lparr>cd_account = g_account sample_gate, cd_messageID = ''id'', cd_sender = ''eve@y.org'', cd_in = Live [] [] 0\<rparr>
       (result_of scam_answer ''no json'') empty_state)
     \<lparr>en_MessageID = ''id'', en_Subject = ''Hi'', en_Date = 0, en_From = [(''eve@y.org'', ''Eve'')], en_To = [''me@x.org''], en_Cc = [],
       en_ReplyTo = [], en_InReplyTo = []\<rparr>
     (sample_mail 7 ''id'' ''Eve'') ''eve@y.org'' = Some ([], False)"
proof -
  let ?g = "sample_gate\<lparr>g_verdictOn := True, g_threshold := 9 / 10\<rparr>"
  let ?env = "\<lparr>en_MessageID = ''id'', en_Subject = ''Hi'', en_Date = 0, en_From = [(''eve@y.org'', ''Eve'')], en_To = [''me@x.org''], en_Cc = [],
       en_ReplyTo = [], en_InReplyTo = []\<rparr>"
  have p: "Parse scam_answer ''no json'' = Inl NoJSON" by code_simp
  have s: "map_option (\<lambda>(b, xs). (b, sum_list (map fst xs) < holdScore)) (signals ?g (\<lambda>x. 7) empty_state ?env (sample_mail 7 ''id'' ''Eve'') ''eve@y.org'') = Some (False, True)"
    by code_simp
  then obtain sigs where g: "signals ?g (\<lambda>x. 7) empty_state ?env (sample_mail 7 ''id'' ''Eve'') ''eve@y.org'' = Some (False, sigs)" "sum_list (map fst sigs) < holdScore"
    by auto
  have h: "msg_hash (\<lambda>x. 7) ''id'' \<noteq> 0" by code_simp
  show ?thesis
    by (rule unparsed_answer_never_holds [OF p _ _ _ _ _ g, where c = active_verdicts])
       (use h in \<open>simp_all add: ConfidenceOrDefault_def active_verdicts_def\<close>)
qed

end
