(* ===== verification/Unsubscribe.thy ===== *)
theory Unsubscribe
  imports Learn
begin

text \<open>
  Safe unsubscribing (\<open>internal/unsubscribe/unsubscribe.go\<close>, \<open>internal/service/unsubscribe.go\<close>): the plan for
  a message, the guard of the outbound client, the dry run and the confirmed call, the log and the
  senders that ignore it. \<open>net/url\<close>, \<open>net/mail.ParseAddress\<close> and the DKIM verifier are parameters, and so
  is the network: where a host resolves to and what it answers.
\<close>

section \<open>The plan\<close>

record url =
  ur_Scheme :: string
  ur_Host :: string
  ur_Hostname :: string
  ur_Opaque :: string
  ur_Path :: string
  ur_Query :: "(string \<times> string) list"

record mailto_message =
  mt_To :: string
  mt_Subject :: string
  mt_Body :: string

datatype no_reason =
    HeadersUnread | NoListUnsubscribe | MailtoOnly | NoPostHeader | BadURI
  | DkimUnchecked | DkimMissing | DkimInvalid | DkimUncovered

datatype plan =
    OneClick string string string bool   \<comment> \<open>URL, host, signing domain, signature expired\<close>
  | Mailto mailto_message "no_reason option"
  | NoMethod "no_reason option"

text \<open>One verification result; \<open>None\<close> for the list is an error of the verifier.\<close>

record dkim_result =
  dk_Valid :: bool
  dk_Domain :: string
  dk_Keys :: "string list"
  dk_Expiration :: "int option"

text \<open>What the package reads of the outside.\<close>

record 'raw libs =
  li_headers :: "'raw \<Rightarrow> (string \<times> string) list option"   \<comment> \<open>in order, from the top\<close>
  li_dkim :: "'raw \<Rightarrow> dkim_result list option"
  li_url :: "string \<Rightarrow> url option"
  li_unescape :: "string \<Rightarrow> string option"
  li_address :: "string \<Rightarrow> string option"

text \<open>\<open>MIMEHeader.Get\<close>: the first field of that name.\<close>

definition header_get :: "(string \<times> string) list \<Rightarrow> string \<Rightarrow> string" where
  "header_get hs k = (case find (\<lambda>(n, v). equal_fold n k) hs of None \<Rightarrow> [] | Some (n, v) \<Rightarrow> v)"

definition angle_uri :: "string \<Rightarrow> string option" where
  "angle_uri part0 =
     (let part = trim_space part0 in
      if has_prefix part ''<'' \<and> has_suffix part ''>'' \<and> 2 \<le> length part then Some (trim_space (butlast (tl part))) else None)"

definition parseListUnsubscribe :: "string \<Rightarrow> string \<times> string" where
  "parseListUnsubscribe v =
     (let us = concat (map (\<lambda>p. case angle_uri p of None \<Rightarrow> [] | Some u \<Rightarrow> [u]) (split_on CHR '','' v));
          first = (\<lambda>pre. case find (\<lambda>u. has_prefix (to_lower u) pre) us of None \<Rightarrow> [] | Some u \<Rightarrow> u)
      in (first ''https://'', first ''mailto:''))"

definition query_get :: "url \<Rightarrow> string \<Rightarrow> string" where
  "query_get u k = (case map_of (ur_Query u) k of None \<Rightarrow> [] | Some v \<Rightarrow> v)"

definition or_unsubscribe :: "string \<Rightarrow> string" where
  "or_unsubscribe s = (if trim_space s = [] then ''unsubscribe'' else s)"

definition parseMailto :: "'raw libs \<Rightarrow> string \<Rightarrow> mailto_message option" where
  "parseMailto li s =
     (case li_url li s of
        None \<Rightarrow> None
      | Some u \<Rightarrow>
          (if \<not> equal_fold (ur_Scheme u) ''mailto'' then None
           else (let to0 = (if ur_Opaque u = [] then ur_Path u else ur_Opaque u);
                     to1 = (case li_unescape li to0 of None \<Rightarrow> to0 | Some x \<Rightarrow> x);
                     to2 = (if to1 = [] then query_get u ''to'' else to1);
                     to3 = (if CHR '','' \<in> set to2 then trim_space (hd (split_on CHR '','' to2)) else to2)
                 in case li_address li to3 of
                      None \<Rightarrow> None
                    | Some a \<Rightarrow>
                        (let dmn = (case last_index_char a CHR ''@'' of None \<Rightarrow> a | Some i \<Rightarrow> drop (i + 1) a) in
                         if \<not> str_contains dmn ''.'' then None
                         else Some \<lparr>mt_To = a, mt_Subject = or_unsubscribe (query_get u ''subject''),
                                    mt_Body = or_unsubscribe (query_get u ''body'')\<rparr>))))"

text \<open>The signature that covers both headers.\<close>

definition covers_both :: "dkim_result \<Rightarrow> bool" where
  "covers_both v =
     (let ks = map (\<lambda>k. to_lower (trim_space k)) (dk_Keys v) in ''list-unsubscribe'' \<in> set ks \<and> ''list-unsubscribe-post'' \<in> set ks)"

definition signedBoth :: "int \<Rightarrow> dkim_result list option \<Rightarrow> no_reason + (string \<times> bool)" where
  "signedBoth now r =
     (case r of
        None \<Rightarrow> Inl DkimUnchecked
      | Some vs \<Rightarrow>
          (if vs = [] then Inl DkimMissing
           else (case find (\<lambda>v. dk_Valid v \<and> covers_both v) vs of
               Some v \<Rightarrow> Inr (dk_Domain v, case dk_Expiration v of None \<Rightarrow> False | Some t \<Rightarrow> t < now)
             | None \<Rightarrow> Inl (if list_ex dk_Valid vs then DkimUncovered else DkimInvalid))))"

definition one_click_plan :: "'raw libs \<Rightarrow> int \<Rightarrow> 'raw \<Rightarrow> string \<Rightarrow> no_reason + plan" where
  "one_click_plan li now raw https =
     (case li_url li https of
        None \<Rightarrow> Inl BadURI
      | Some u \<Rightarrow>
          (if ur_Hostname u = [] then Inl BadURI
           else (case signedBoth now (li_dkim li raw) of
               Inl e \<Rightarrow> Inl e
             | Inr (dmn, expired) \<Rightarrow> Inr (OneClick https (ur_Hostname u) dmn expired))))"

definition Analyze :: "'raw libs \<Rightarrow> int \<Rightarrow> 'raw \<Rightarrow> plan" where
  "Analyze li now raw =
     (case li_headers li raw of
        None \<Rightarrow> NoMethod (Some HeadersUnread)
      | Some hdr \<Rightarrow>
          (case parseListUnsubscribe (header_get hdr ''List-Unsubscribe'') of (https, mailto) \<Rightarrow>
             (if https = [] \<and> mailto = [] then NoMethod (Some NoListUnsubscribe)
              else (case (if https = [] then Inl MailtoOnly
                          else if \<not> equal_fold (trim_space (header_get hdr ''List-Unsubscribe-Post'')) ''List-Unsubscribe=One-Click''
                          then Inl NoPostHeader
                          else one_click_plan li now raw https) of
                  Inr p \<Rightarrow> p
                | Inl reason \<Rightarrow>
                    (case (if mailto = [] then None else parseMailto li mailto) of
                       Some m \<Rightarrow> Mailto m (Some reason)
                     | None \<Rightarrow> NoMethod (Some reason))))))"

section \<open>Public addresses\<close>

text \<open>\<open>net.IP\<close>: four bytes, or sixteen that are not a mapped IPv4 address.\<close>

datatype ip = V4 "8 word" "8 word" "8 word" "8 word" | V6 "8 word list"

unbundle bit_operations_syntax

fun IsLoopback :: "ip \<Rightarrow> bool" where
  "IsLoopback (V4 a b c d) = (a = 127)"
| "IsLoopback (V6 bs) = (bs = replicate 15 0 @ [1])"

fun IsPrivate :: "ip \<Rightarrow> bool" where
  "IsPrivate (V4 a b c d) = (a = 10 \<or> (a = 172 \<and> b AND 0xF0 = 16) \<or> (a = 192 \<and> b = 168))"
| "IsPrivate (V6 bs) = (length bs = 16 \<and> (bs ! 0) AND 0xFE = 0xFC)"

fun IsUnspecified :: "ip \<Rightarrow> bool" where
  "IsUnspecified (V4 a b c d) = (a = 0 \<and> b = 0 \<and> c = 0 \<and> d = 0)"
| "IsUnspecified (V6 bs) = (bs = replicate 16 0)"

fun IsLinkLocalUnicast :: "ip \<Rightarrow> bool" where
  "IsLinkLocalUnicast (V4 a b c d) = (a = 169 \<and> b = 254)"
| "IsLinkLocalUnicast (V6 bs) = (length bs = 16 \<and> bs ! 0 = 0xFE \<and> (bs ! 1) AND 0xC0 = 0x80)"

fun IsLinkLocalMulticast :: "ip \<Rightarrow> bool" where
  "IsLinkLocalMulticast (V4 a b c d) = (a = 224 \<and> b = 0 \<and> c = 0)"
| "IsLinkLocalMulticast (V6 bs) = (length bs = 16 \<and> bs ! 0 = 0xFF \<and> (bs ! 1) AND 0x0F = 2)"

fun IsInterfaceLocalMulticast :: "ip \<Rightarrow> bool" where
  "IsInterfaceLocalMulticast (V4 a b c d) = False"
| "IsInterfaceLocalMulticast (V6 bs) = (length bs = 16 \<and> bs ! 0 = 0xFF \<and> (bs ! 1) AND 0x0F = 1)"

fun IsMulticast :: "ip \<Rightarrow> bool" where
  "IsMulticast (V4 a b c d) = (a AND 0xF0 = 0xE0)"
| "IsMulticast (V6 bs) = (length bs = 16 \<and> bs ! 0 = 0xFF)"

fun in_cgnat :: "ip \<Rightarrow> bool" where
  "in_cgnat (V4 a b c d) = (a = 100 \<and> b AND 0xC0 = 64)"
| "in_cgnat (V6 bs) = False"

definition publicIP :: "ip \<Rightarrow> bool" where
  "publicIP i =
     (\<not> IsLoopback i \<and> \<not> IsPrivate i \<and> \<not> IsUnspecified i \<and> \<not> IsLinkLocalUnicast i \<and> \<not> IsLinkLocalMulticast i \<and>
      \<not> IsInterfaceLocalMulticast i \<and> \<not> IsMulticast i \<and> \<not> in_cgnat i \<and> i \<noteq> V4 255 255 255 255)"


section \<open>The client\<close>

datatype answer = Status nat | RedirectTo url | TransportError

record http_result =
  hr_Status :: nat
  hr_OK :: bool
  hr_Failed :: bool

text \<open>The network: the address a host is dialled at, and its answer. Both may change from one request
  to the next (\<open>via\<close> are the requests before), as a resolver under the sender's control can arrange.\<close>

record net =
  nt_dial :: "url list \<Rightarrow> url \<Rightarrow> ip option"
  nt_answer :: "url list \<Rightarrow> url \<Rightarrow> answer"

definition post_failed :: http_result where
  "post_failed = \<lparr>hr_Status = 0, hr_OK = False, hr_Failed = True\<rparr>"

text \<open>The dialer's control function: it sees the address that was resolved.\<close>

definition dial :: "net \<Rightarrow> url list \<Rightarrow> url \<Rightarrow> ip option" where
  "dial nt via u = (case nt_dial nt via u of None \<Rightarrow> None | Some i \<Rightarrow> if publicIP i then Some i else None)"

definition redirect_allowed :: "url list \<Rightarrow> url \<Rightarrow> bool" where
  "redirect_allowed via u =
     (length via < 3 \<and> ur_Scheme u = ''https'' \<and> (case via of [] \<Rightarrow> False | v # _ \<Rightarrow> equal_fold (ur_Host u) (ur_Host v)))"

text \<open>The requests made, each with the address connected to, and the outcome. \<open>CheckRedirect\<close> sees the
  requests so far; \<open>fuel\<close> bounds the redirects and is never what stops them (\<open>send_request_fuel\<close>).\<close>

fun send_request :: "net \<Rightarrow> nat \<Rightarrow> url list \<Rightarrow> url \<Rightarrow> (url \<times> ip) list \<times> http_result" where
  "send_request nt fuel via u =
     (case dial nt via u of
        None \<Rightarrow> ([], post_failed)
      | Some i \<Rightarrow>
          (case nt_answer nt via u of
             TransportError \<Rightarrow> ([(u, i)], post_failed)
           | Status n \<Rightarrow> ([(u, i)], \<lparr>hr_Status = n, hr_OK = (200 \<le> n \<and> n < 300), hr_Failed = False\<rparr>)
           | RedirectTo v \<Rightarrow>
               (if \<not> redirect_allowed (via @ [u]) v then ([(u, i)], post_failed)
                else (case fuel of
                    0 \<Rightarrow> ([(u, i)], post_failed)
                  | Suc k \<Rightarrow> (case send_request nt k (via @ [u]) v of (cs, r) \<Rightarrow> ((u, i) # cs, r))))))"

declare send_request.simps [simp del]

definition one_click :: "'raw libs \<Rightarrow> net \<Rightarrow> string \<Rightarrow> (url \<times> ip) list \<times> http_result" where
  "one_click li nt target =
     (case li_url li target of
        None \<Rightarrow> ([], post_failed)
      | Some u \<Rightarrow> (if ur_Scheme u \<noteq> ''https'' \<or> ur_Hostname u = [] then ([], post_failed) else send_request nt 3 [] u))"

section \<open>The service\<close>

datatype unsub_status = DryRun | UDone | UFailed | USent | NotPossible

text \<open>The text column of the log.\<close>

datatype log_text = NoText | PostFailed | ArchiveFailed | SendFailed | WhyNot "no_reason option"

record unsub_row =
  us_id :: int
  us_account :: string
  us_sender :: string
  us_method :: string
  us_host :: string
  us_status :: unsub_status
  us_code :: nat
  us_error :: log_text
  us_archived :: nat
  us_reported :: bool
  us_created :: int

text \<open>The log, the clock in seconds, the mail server, the connections made, the mails handed to
  \<open>Send\<close> and the \<open>EventUnsubscribeDone\<close> events published.\<close>

record 'm unsub_world =
  uw_rows :: "unsub_row list"
  uw_next :: int
  uw_now :: int
  uw_mail :: 'm
  uw_posts :: "(url \<times> ip) list"
  uw_sends :: "(string \<times> mailto_message) list"
  uw_events :: "(string \<times> string \<times> string \<times> unsub_status \<times> nat \<times> nat) list"

text \<open>The calls of the mail server: a folder opens or not, the \<open>From\<close> address of a message's
  envelope, \<open>SEARCH HEADER From\<close>, the envelopes of some messages, a raw message within 25 MiB, \<open>Send\<close> and
  \<open>MoveUIDs\<close>.\<close>

record ('raw, 'm) unsub_env =
  ue_libs :: "'raw libs"
  ue_net :: net
  ue_resolve :: "string \<Rightarrow> string option"
  ue_examine :: "string \<Rightarrow> string \<Rightarrow> 'm \<Rightarrow> bool"
  ue_from :: "string \<Rightarrow> string \<Rightarrow> nat \<Rightarrow> 'm \<Rightarrow> string option option"
  ue_search :: "string \<Rightarrow> string \<Rightarrow> string \<Rightarrow> 'm \<Rightarrow> nat list option"
  ue_envelopes :: "string \<Rightarrow> string \<Rightarrow> nat list \<Rightarrow> 'm \<Rightarrow> (nat \<times> string option) list option"
  ue_raw :: "string \<Rightarrow> string \<Rightarrow> nat \<Rightarrow> 'm \<Rightarrow> 'raw option"
  ue_send :: "string \<Rightarrow> mailto_message \<Rightarrow> 'm \<Rightarrow> bool \<times> 'm"
  ue_select :: "string \<Rightarrow> string \<Rightarrow> 'm \<Rightarrow> bool"
  ue_move :: "string \<Rightarrow> string \<Rightarrow> nat list \<Rightarrow> string \<Rightarrow> 'm \<Rightarrow> bool \<times> 'm"

record unsub_params =
  up_Account :: string
  up_Folder :: string
  up_Sender :: string
  up_UID :: nat
  up_Confirm :: bool
  up_ArchiveTo :: string
  up_CanSend :: bool

record unsub_result =
  uo_Account :: string
  uo_Sender :: string
  uo_DryRun :: bool
  uo_Plan :: plan
  uo_Status :: unsub_status
  uo_HTTP :: "http_result option"
  uo_Archived :: nat
  uo_Archive :: string
  uo_Messages :: nat
  uo_Mailto :: "mailto_message option"

datatype unsub_error =
    SenderOrUID | NotAnAddress string | UnknownAccount | FolderClosed | FetchFailed | UidNotFound nat
  | UidFromAnother nat string | SearchFailed | NoMailFrom string | RawUnread
  | DryRunFirst string | NeedsSendScope | SendError | ArchiveError

definition unsubConfirmWindow :: int where "unsubConfirmWindow = 3600"
definition unsubArchiveCap :: nat where "unsubArchiveCap = 5000"

fun plan_method :: "plan \<Rightarrow> string" where
  "plan_method (OneClick u h dmn x) = ''one-click''"
| "plan_method (Mailto m r) = ''mailto''"
| "plan_method (NoMethod r) = ''none''"

fun plan_host :: "plan \<Rightarrow> string" where
  "plan_host (OneClick u h dmn x) = h"
| "plan_host p = []"

definition statusCode :: "http_result option \<Rightarrow> nat" where
  "statusCode r = (case r of None \<Rightarrow> 0 | Some h \<Rightarrow> hr_Status h)"

subsection \<open>The message and the sender\<close>

definition unsub_sender :: "('raw, 'm) unsub_env \<Rightarrow> string \<Rightarrow> unsub_params \<Rightarrow> 'm \<Rightarrow> unsub_error + string" where
  "unsub_sender e account p m =
     (if up_UID p = 0 then Inr (up_Sender p)
      else (case ue_from e account (up_Folder p) (up_UID p) m of
          None \<Rightarrow> Inl FetchFailed
        | Some None \<Rightarrow> Inl (UidNotFound (up_UID p))
        | Some (Some a) \<Rightarrow>
            (if up_Sender p \<noteq> [] \<and> up_Sender p \<noteq> to_lower a then Inl (UidFromAnother (up_UID p) (to_lower a))
             else Inr (to_lower a))))"

definition exact_uids :: "string \<Rightarrow> (nat \<times> string option) list \<Rightarrow> nat list" where
  "exact_uids sender es =
     map fst (filter (\<lambda>(u, a). case a of None \<Rightarrow> False | Some x \<Rightarrow> equal_fold x sender) es)"

definition sender_uids :: "('raw, 'm) unsub_env \<Rightarrow> string \<Rightarrow> string \<Rightarrow> string \<Rightarrow> 'm \<Rightarrow> unsub_error + nat list" where
  "sender_uids e account folder sender m =
     (case ue_search e account folder sender m of
        None \<Rightarrow> Inl SearchFailed
      | Some found0 \<Rightarrow>
          (let found = drop (length found0 - unsubArchiveCap) found0 in
           if found = [] then Inr []
           else (case ue_envelopes e account folder found m of
               None \<Rightarrow> Inl FetchFailed
             | Some es \<Rightarrow> Inr (sort (exact_uids sender es)))))"

definition unsubFind ::
  "('raw, 'm) unsub_env \<Rightarrow> string \<Rightarrow> unsub_params \<Rightarrow> 'm \<Rightarrow> unsub_error + (nat \<times> string \<times> nat list)" where
  "unsubFind e account p m =
     (if \<not> ue_examine e account (up_Folder p) m then Inl FolderClosed
      else (case unsub_sender e account p m of
          Inl x \<Rightarrow> Inl x
        | Inr sender \<Rightarrow>
            (case sender_uids e account (up_Folder p) sender m of
               Inl x \<Rightarrow> Inl x
             | Inr us \<Rightarrow>
                 (if up_UID p \<noteq> 0 then Inr (up_UID p, sender, us)
                  else if us = [] then Inl (NoMailFrom sender)
                  else Inr (last us, sender, us)))))"

subsection \<open>The call\<close>

definition insert_unsub ::
  "string \<Rightarrow> string \<Rightarrow> plan \<Rightarrow> unsub_status \<Rightarrow> nat \<Rightarrow> log_text \<Rightarrow> nat \<Rightarrow> 'm unsub_world \<Rightarrow> 'm unsub_world" where
  "insert_unsub account sender pl st code txt archived w =
     w\<lparr>uw_rows := uw_rows w @ [\<lparr>us_id = uw_next w, us_account = account, us_sender = sender,
         us_method = plan_method pl, us_host = plan_host pl, us_status = st, us_code = code, us_error = txt,
         us_archived = archived, us_reported = False, us_created = uw_now w\<rparr>], uw_next := uw_next w + 1\<rparr>"

definition fresh_dry_run :: "string \<Rightarrow> string \<Rightarrow> int \<Rightarrow> unsub_row \<Rightarrow> bool" where
  "fresh_dry_run account sender now r =
     (us_account r = account \<and> us_sender r = sender \<and> us_status r = DryRun \<and> now - unsubConfirmWindow \<le> us_created r)"

definition unsubArchive ::
  "('raw, 'm) unsub_env \<Rightarrow> string \<Rightarrow> string \<Rightarrow> string \<Rightarrow> nat list \<Rightarrow> 'm unsub_world \<Rightarrow> nat option \<times> 'm unsub_world" where
  "unsubArchive e account folder dest us w =
     (if us = [] then (Some 0, w)
      else if \<not> ue_select e account folder (uw_mail w) then (None, w)
      else (case ue_move e account folder us dest (uw_mail w) of
          (ok, m) \<Rightarrow> (if ok then Some (length us) else None, w\<lparr>uw_mail := m\<rparr>)))"

definition base_result :: "string \<Rightarrow> string \<Rightarrow> unsub_params \<Rightarrow> plan \<Rightarrow> nat list \<Rightarrow> unsub_status \<Rightarrow> unsub_result" where
  "base_result account sender p pl us st =
     \<lparr>uo_Account = account, uo_Sender = sender, uo_DryRun = (\<not> up_Confirm p), uo_Plan = pl, uo_Status = st,
      uo_HTTP = None, uo_Archived = 0, uo_Archive = [], uo_Messages = length us, uo_Mailto = None\<rparr>"

text \<open>What follows the POST or the mail: the archive, the log and the event.\<close>

definition finish_unsub ::
  "('raw, 'm) unsub_env \<Rightarrow> unsub_params \<Rightarrow> nat list \<Rightarrow> unsub_result \<Rightarrow> 'm unsub_world \<Rightarrow>
   (unsub_error + unsub_result) \<times> 'm unsub_world" where
  "finish_unsub e p us res w =
     (let account = uo_Account res; sender = uo_Sender res; pl = uo_Plan res; code = statusCode (uo_HTTP res);
          wanted = uo_Status res \<in> {UDone, USent} \<and> up_ArchiveTo p \<noteq> [] in
      case (if wanted then unsubArchive e account (up_Folder p) (up_ArchiveTo p) us w else (Some 0, w)) of
        (None, w1) \<Rightarrow> (Inl ArchiveError, insert_unsub account sender pl (uo_Status res) code ArchiveFailed 0 w1)
      | (Some n, w1) \<Rightarrow>
          (let txt = (case uo_HTTP res of None \<Rightarrow> NoText | Some h \<Rightarrow> if hr_Failed h then PostFailed else NoText);
               w2 = insert_unsub account sender pl (uo_Status res) code txt n w1 in
           (Inr (res\<lparr>uo_Archived := n, uo_Archive := (if wanted then up_ArchiveTo p else [])\<rparr>),
            w2\<lparr>uw_events := uw_events w2 @ [(account, sender, plan_method pl, uo_Status res, code, n)]\<rparr>)))"

definition confirm_unsub ::
  "('raw, 'm) unsub_env \<Rightarrow> unsub_params \<Rightarrow> string \<Rightarrow> string \<Rightarrow> nat list \<Rightarrow> plan \<Rightarrow> 'm unsub_world \<Rightarrow>
   (unsub_error + unsub_result) \<times> 'm unsub_world" where
  "confirm_unsub e p account sender us pl w =
     (case pl of
        OneClick target host dmn x \<Rightarrow>
          (case one_click (ue_libs e) (ue_net e) target of
             (cs, r) \<Rightarrow> finish_unsub e p us
               ((base_result account sender p pl us (if hr_OK r then UDone else UFailed))\<lparr>uo_HTTP := Some r\<rparr>)
               (w\<lparr>uw_posts := uw_posts w @ cs\<rparr>))
      | Mailto m reason \<Rightarrow>
          (if \<not> up_CanSend p then (Inl NeedsSendScope, w)
           else (case ue_send e account m (uw_mail w) of
               (ok, ml) \<Rightarrow>
                 (let w1 = w\<lparr>uw_mail := ml, uw_sends := uw_sends w @ [(account, m)]\<rparr> in
                  if \<not> ok then (Inl SendError, insert_unsub account sender pl UFailed 0 SendFailed 0 w1)
                  else finish_unsub e p us ((base_result account sender p pl us USent)\<lparr>uo_Mailto := Some m\<rparr>) w1)))
      | NoMethod reason \<Rightarrow>
          (Inr (base_result account sender p pl us NotPossible),
           insert_unsub account sender pl NotPossible 0 (WhyNot reason) 0 w))"

definition run_unsub ::
  "('raw, 'm) unsub_env \<Rightarrow> unsub_params \<Rightarrow> string \<Rightarrow> string \<Rightarrow> nat list \<Rightarrow> plan \<Rightarrow> 'm unsub_world \<Rightarrow>
   (unsub_error + unsub_result) \<times> 'm unsub_world" where
  "run_unsub e p account sender us pl w =
     (if \<not> up_Confirm p
      then (Inr (base_result account sender p pl us (case pl of NoMethod r \<Rightarrow> NotPossible | _ \<Rightarrow> DryRun)),
            insert_unsub account sender pl DryRun 0 NoText 0 w)
      else if \<not> list_ex (fresh_dry_run account sender (uw_now w)) (uw_rows w) then (Inl (DryRunFirst sender), w)
      else confirm_unsub e p account sender us pl w)"

definition normal_params :: "'raw libs \<Rightarrow> unsub_params \<Rightarrow> unsub_error + unsub_params" where
  "normal_params li p0 =
     (let p = (if up_Folder p0 = [] then p0\<lparr>up_Folder := ''INBOX''\<rparr> else p0) in
      if up_Sender p = [] \<and> up_UID p = 0 then Inl SenderOrUID
      else if up_Sender p = [] then Inr p
      else (case li_address li (up_Sender p) of
          None \<Rightarrow> Inl (NotAnAddress (up_Sender p))
        | Some a \<Rightarrow> Inr (p\<lparr>up_Sender := to_lower a\<rparr>)))"

text \<open>The message a call is about: the account, the sender, their messages and the plan.\<close>

definition unsub_target ::
  "('raw, 'm) unsub_env \<Rightarrow> int \<Rightarrow> unsub_params \<Rightarrow> 'm \<Rightarrow> unsub_error + (string \<times> string \<times> nat list \<times> plan)" where
  "unsub_target e now p m =
     (case ue_resolve e (if up_Account p = ''_default'' then [] else up_Account p) of
        None \<Rightarrow> Inl UnknownAccount
      | Some account \<Rightarrow>
          (case unsubFind e account p m of
             Inl x \<Rightarrow> Inl x
           | Inr (uid, sender, us) \<Rightarrow>
               (case ue_raw e account (up_Folder p) uid m of
                  None \<Rightarrow> Inl RawUnread
                | Some raw \<Rightarrow> Inr (account, sender, us, Analyze (ue_libs e) now raw))))"

definition Unsubscribe ::
  "('raw, 'm) unsub_env \<Rightarrow> unsub_params \<Rightarrow> 'm unsub_world \<Rightarrow> (unsub_error + unsub_result) \<times> 'm unsub_world" where
  "Unsubscribe e p0 w =
     (case normal_params (ue_libs e) p0 of
        Inl x \<Rightarrow> (Inl x, w)
      | Inr p \<Rightarrow>
          (case unsub_target e (uw_now w) p (uw_mail w) of
             Inl x \<Rightarrow> (Inl x, w)
           | Inr (account, sender, us, pl) \<Rightarrow> run_unsub e p account sender us pl w))"

subsection \<open>The log\<close>

definition ListUnsubscribes :: "string \<Rightarrow> bool \<Rightarrow> int \<Rightarrow> unsub_row list \<Rightarrow> unsub_row list" where
  "ListUnsubscribes account withDryRuns limit0 rs =
     (let limit = (if limit0 \<le> 0 \<or> 500 < limit0 then 100 else limit0) in
      take (nat limit) (sort_key (\<lambda>r. - us_id r)
        (filter (\<lambda>r. (account = [] \<or> us_account r = account) \<and> (withDryRuns \<or> us_status r \<noteq> DryRun)) rs)))"

record ignored_unsub =
  ig_ID :: int
  ig_Account :: string
  ig_Sender :: string
  ig_UnsubscribedAt :: int
  ig_Since :: nat
  ig_reported :: bool

definition GraceDaysOrDefault :: "int \<Rightarrow> int" where
  "GraceDaysOrDefault days = (if days \<le> 0 then 3 else days)"

definition succeeded :: "unsub_row \<Rightarrow> bool" where
  "succeeded r = (us_status r = UDone \<or> us_status r = USent)"

text \<open>The latest successful unsubscribe of each account and sender.\<close>

definition latest_success :: "unsub_row list \<Rightarrow> unsub_row \<Rightarrow> bool" where
  "latest_success rs u =
     (succeeded u \<and> list_all (\<lambda>x. us_account x = us_account u \<and> us_sender x = us_sender u \<and> succeeded x \<longrightarrow> us_id x \<le> us_id u) rs)"

definition mails_since :: "state_db \<Rightarrow> string \<Rightarrow> string \<Rightarrow> int \<Rightarrow> nat" where
  "mails_since d account sender t =
     length (filter (\<lambda>m. im_account m = account \<and> \<not> im_outgoing m \<and> t < im_date m \<and>
       list_ex (\<lambda>s. Some (sn_id s) = im_sender m \<and> sn_address s = sender) (sd_senders d)) (sd_index d))"

definition ignored_of :: "state_db \<Rightarrow> int \<Rightarrow> unsub_row \<Rightarrow> ignored_unsub" where
  "ignored_of d grace u = \<lparr>ig_ID = us_id u, ig_Account = us_account u, ig_Sender = us_sender u,
     ig_UnsubscribedAt = us_created u, ig_Since = mails_since d (us_account u) (us_sender u) (us_created u + grace),
     ig_reported = us_reported u\<rparr>"

definition ignoredUnsubscribes ::
  "bool \<Rightarrow> int \<Rightarrow> state_db \<Rightarrow> string \<Rightarrow> bool \<Rightarrow> unsub_row list \<Rightarrow> ignored_unsub list" where
  "ignoredUnsubscribes intel_on days d account onlyNew rs =
     (if \<not> intel_on then []
      else (let grace = GraceDaysOrDefault days * 86400;
                cands = sort_key us_id (filter (\<lambda>u. (account = [] \<or> us_account u = account) \<and> latest_success rs u) rs) in
            filter (\<lambda>i. \<not> (onlyNew \<and> ig_reported i) \<and> ig_Since i \<noteq> 0) (map (ignored_of d grace) cands)))"

definition markIgnoredReported :: "ignored_unsub list \<Rightarrow> unsub_row list \<Rightarrow> unsub_row list" where
  "markIgnoredReported is rs =
     fold (\<lambda>i rs. upd_rows (\<lambda>r. us_id r = ig_ID i) (\<lambda>r. r\<lparr>us_reported := True\<rparr>) rs) is rs"

end
