(* ===== verification/Unsubscribe_Props.thy ===== *)
theory Unsubscribe_Props
  imports Unsubscribe
begin

text \<open>
  Where the one-click POST may go, which addresses are public, what a call may do without a fresh
  dry run, and the report of senders that ignored an unsubscribe.
\<close>

section \<open>Connections\<close>

definition safe_connection :: "url \<Rightarrow> url \<times> ip \<Rightarrow> bool" where
  "safe_connection target c =
     (ur_Scheme (fst c) = ''https'' \<and> equal_fold (ur_Host (fst c)) (ur_Host target) \<and> publicIP (snd c))"

lemma dial_public: "dial nt via u = Some i \<Longrightarrow> publicIP i"
  by (simp add: dial_def split: option.splits if_splits)

lemma send_request_safe:
  assumes "ur_Scheme u = ''https''" and "equal_fold (ur_Host u) (ur_Host t)"
    and "via = [] \<and> t = u \<or> via \<noteq> [] \<and> hd via = t" and "length via \<le> 2"
  shows "list_all (safe_connection t) (fst (send_request nt fuel via u)) \<and> length (fst (send_request nt fuel via u)) \<le> 3 - length via"
  using assms
proof (induction fuel arbitrary: via u)
  case 0
  then show ?case
    by (subst send_request.simps, subst (2) send_request.simps)
      (auto split: option.splits answer.splits simp: safe_connection_def dest: dial_public)
next
  case (Suc k)
  have next_ok: "list_all (safe_connection t) (fst (send_request nt k (via @ [u]) v)) \<and>
      length (fst (send_request nt k (via @ [u]) v)) \<le> 2 - length via"
    if "redirect_allowed (via @ [u]) v" for v
  proof -
    have "hd (via @ [u]) = t" using Suc.prems(3) by auto
    moreover have "ur_Scheme v = ''https''" "equal_fold (ur_Host v) (ur_Host (hd (via @ [u])))" "length (via @ [u]) \<le> 2"
      using that by (auto simp: redirect_allowed_def split: list.splits)
    ultimately show ?thesis using Suc.IH [of v "via @ [u]"] by simp
  qed
  show ?case
  proof (cases "dial nt via u")
    case None
    then show ?thesis by (simp add: send_request.simps [of nt "Suc k"])
  next
    case (Some i)
    have here: "safe_connection t (u, i)" using Suc.prems(1,2) dial_public [OF Some] by (simp add: safe_connection_def)
    show ?thesis
    proof (cases "nt_answer nt via u")
      case (RedirectTo v)
      with Some here next_ok [of v] Suc.prems(4) show ?thesis
        by (auto simp: send_request.simps [of nt "Suc k"] split: prod.splits)
    qed (use Some here Suc.prems(4) in \<open>simp_all add: send_request.simps [of nt "Suc k"]\<close>)
  qed
qed

text \<open>The fuel is never used up: the third redirect is refused before.\<close>

lemma send_request_fuel:
  "3 - length via \<le> fuel \<Longrightarrow> send_request nt fuel via u = send_request nt (3 - length via) via u"
proof (induction fuel arbitrary: via u)
  case 0
  then show ?case by simp
next
  case (Suc k)
  show ?case
  proof (cases "length via \<le> 2")
    case True
    then obtain j where j: "3 - length via = Suc j" "j = 3 - length (via @ [u])" by (cases "3 - length via") auto
    then have "send_request nt k (via @ [u]) v = send_request nt j (via @ [u]) v" for v
      using Suc.IH [of "via @ [u]" v] Suc.prems by simp
    then show ?thesis unfolding j(1) by (simp add: send_request.simps [of nt "Suc k"] send_request.simps [of nt "Suc j"] split: option.splits answer.splits)
  next
    case False
    then have "\<not> redirect_allowed (via @ [u]) v" for v by (simp add: redirect_allowed_def)
    then have "send_request nt f via u = send_request nt g via u" for f g
      by (simp add: send_request.simps [of nt f] send_request.simps [of nt g] split: option.splits answer.splits)
    then show ?thesis by blast
  qed
qed

lemma one_click_safe:
  "fst (one_click li nt target) = [] \<or>
   (\<exists>u. li_url li target = Some u \<and> list_all (safe_connection u) (fst (one_click li nt target)) \<and>
        length (fst (one_click li nt target)) \<le> 3)"
proof (cases "li_url li target")
  case None
  then show ?thesis by (simp add: one_click_def)
next
  case (Some u)
  show ?thesis
  proof (cases "ur_Scheme u = ''https'' \<and> ur_Hostname u \<noteq> []")
    case True
    then have "list_all (safe_connection u) (fst (send_request nt 3 [] u)) \<and> length (fst (send_request nt 3 [] u)) \<le> 3"
      using send_request_safe [of u u "[]" nt 3] by (simp add: equal_fold_def)
    with True Some show ?thesis by (simp add: one_click_def)
  next
    case False
    with Some show ?thesis by (auto simp: one_click_def)
  qed
qed

section \<open>Public addresses\<close>

text \<open>The reference: the table of blocks, over the address as one number.\<close>

definition quad :: "nat \<Rightarrow> nat \<Rightarrow> nat \<Rightarrow> nat \<Rightarrow> nat" where
  "quad a b c d = ((a * 256 + b) * 256 + c) * 256 + d"

definition v4_number :: "8 word \<Rightarrow> 8 word \<Rightarrow> 8 word \<Rightarrow> 8 word \<Rightarrow> nat" where
  "v4_number a b c d = quad (unat a) (unat b) (unat c) (unat d)"

definition cidr :: "nat \<Rightarrow> nat \<Rightarrow> nat \<Rightarrow> nat \<Rightarrow> nat \<Rightarrow> nat \<times> nat" where
  "cidr a b c d n = (quad a b c d, n)"

definition in_block :: "nat \<Rightarrow> nat \<times> nat \<Rightarrow> bool" where
  "in_block x p = (x div 2 ^ (32 - snd p) = fst p div 2 ^ (32 - snd p))"

definition non_public :: "(nat \<times> nat) list" where
  "non_public =
     [cidr 127 0 0 0 8, cidr 10 0 0 0 8, cidr 172 16 0 0 12, cidr 192 168 0 0 16, cidr 0 0 0 0 32, cidr 169 254 0 0 16,
      cidr 224 0 0 0 4, cidr 100 64 0 0 10, cidr 255 255 255 255 32]"


lemma word8_all: "list_all (\<lambda>n. P (word_of_nat n :: 8 word)) [0..<256] \<Longrightarrow> P w"
proof -
  assume "list_all (\<lambda>n. P (word_of_nat n :: 8 word)) [0..<256]"
  moreover have "unat w \<in> set [0..<256]" using unsigned_less [of w, where ?'a = nat] by simp
  ultimately have "P (word_of_nat (unat w))" unfolding list_all_iff by blast
  then show ?thesis by simp
qed

lemma mask_F0: "((w :: 8 word) AND 0xF0 = 16) = (unat w div 16 = 1)"
  by (rule word8_all [of "\<lambda>w. (w AND 0xF0 = 16) = (unat w div 16 = 1)"]) code_simp

lemma mask_E0: "((w :: 8 word) AND 0xF0 = 0xE0) = (unat w div 16 = 14)"
  by (rule word8_all [of "\<lambda>w. (w AND 0xF0 = 0xE0) = (unat w div 16 = 14)"]) code_simp

lemma mask_C0: "((w :: 8 word) AND 0xC0 = 64) = (unat w div 64 = 1)"
  by (rule word8_all [of "\<lambda>w. (w AND 0xC0 = 64) = (unat w div 64 = 1)"]) code_simp


lemma word8_eq: "(w = word_of_nat n) = (unat w = n)" if "n < 256" for w :: "8 word"
proof -
  have "unat (word_of_nat n :: 8 word) = n" using that by (simp add: unsigned_of_nat take_bit_eq_mod)
  then show ?thesis by (metis of_nat_unat unsigned_word_eqI)
qed

lemma word8_values:
  fixes w :: "8 word"
  shows "(w = 127) = (unat w = 127)" "(w = 10) = (unat w = 10)" "(w = 172) = (unat w = 172)" "(w = 192) = (unat w = 192)"
    "(w = 168) = (unat w = 168)" "(w = 0) = (unat w = 0)" "(w = 169) = (unat w = 169)" "(w = 254) = (unat w = 254)"
    "(w = 224) = (unat w = 224)" "(w = 100) = (unat w = 100)" "(w = 255) = (unat w = 255)"
  using word8_eq [of 127 w] word8_eq [of 10 w] word8_eq [of 172 w] word8_eq [of 192 w] word8_eq [of 168 w] word8_eq [of 0 w]
    word8_eq [of 169 w] word8_eq [of 254 w] word8_eq [of 224 w] word8_eq [of 100 w] word8_eq [of 255 w]
  by (simp_all only: of_nat_numeral of_nat_0) simp_all

text \<open>A block is the equality of the leading part of the number.\<close>

lemma base_div: "r < m \<Longrightarrow> (y * m + r) div m = y" for y r m :: nat
  by simp

lemma base_inj: "r < m \<Longrightarrow> r' < m \<Longrightarrow> (y * m + r = y' * m + r') = (y = y' \<and> r = r')" for y y' r r' m :: nat
  using base_div [of r m y] base_div [of r' m y'] by (metis add_left_cancel)

lemmas byte_div = base_div [of _ 256]
lemmas byte_inj = base_inj [of _ 256]

lemma quad_div:
  assumes "B < 256" "C < 256" "D < 256"
  shows "quad A B C D div 2 ^ 16 = A * 256 + B" and "quad A B C D div 2 ^ 24 = A"
    and "quad A B C D div 2 ^ 20 = A * 16 + B div 16" and "quad A B C D div 2 ^ 22 = A * 4 + B div 64"
    and "quad A B C D div 2 ^ 28 = A div 16"
proof -
  let ?x = "quad A B C D"
  have x8: "?x div 256 = (A * 256 + B) * 256 + C" unfolding quad_def using assms(3) by (rule byte_div)
  have "?x div (256 * 256) = A * 256 + B" unfolding div_mult2_eq x8 using assms(2) by (rule byte_div)
  then show x16: "?x div 2 ^ 16 = A * 256 + B" by simp
  have sp: "(2 :: nat) ^ 24 = 2 ^ 16 * 256" "(2 :: nat) ^ 20 = 2 ^ 16 * 16" "(2 :: nat) ^ 22 = 2 ^ 16 * 64"
    "(2 :: nat) ^ 28 = 2 ^ 16 * 256 * 16" by simp_all
  show "?x div 2 ^ 24 = A" unfolding sp div_mult2_eq x16 using assms(1) by (rule byte_div)
  have "(A * 256 + B) div 16 = (B + A * 16 * 16) div 16" "(A * 256 + B) div 64 = (B + A * 4 * 64) div 64" by simp_all
  then show "?x div 2 ^ 20 = A * 16 + B div 16" "?x div 2 ^ 22 = A * 4 + B div 64"
    unfolding sp div_mult2_eq x16 by (simp_all only: div_mult_self1)
  show "?x div 2 ^ 28 = A div 16" unfolding sp div_mult2_eq x16 byte_div [OF assms(1)] ..
qed

lemma quad_eq:
  assumes "B < 256" "C < 256" "D < 256" "B' < 256" "C' < 256" "D' < 256"
  shows "(quad A B C D = quad A' B' C' D') = (A = A' \<and> B = B' \<and> C = C' \<and> D = D')"
  unfolding quad_def using assms by (simp only: byte_inj) blast

lemma in_block_lengths:
  "in_block x (cidr a b c d 8) = (x div 2 ^ 24 = quad a b c d div 2 ^ 24)"
  "in_block x (cidr a b c d 12) = (x div 2 ^ 20 = quad a b c d div 2 ^ 20)"
  "in_block x (cidr a b c d 16) = (x div 2 ^ 16 = quad a b c d div 2 ^ 16)"
  "in_block x (cidr a b c d 4) = (x div 2 ^ 28 = quad a b c d div 2 ^ 28)"
  "in_block x (cidr a b c d 10) = (x div 2 ^ 22 = quad a b c d div 2 ^ 22)"
  "in_block x (cidr a b c d 32) = (x = quad a b c d)"
  unfolding in_block_def cidr_def fst_conv snd_conv by simp_all

lemma quad_blocks:
  assumes "A < 256" "B < 256" "C < 256" "D < 256"
  shows "in_block (quad A B C D) (cidr n 0 0 0 8) = (A = n)"
    and "in_block (quad A B C D) (cidr 172 16 0 0 12) = (A = 172 \<and> B div 16 = 1)"
    and "m < 256 \<Longrightarrow> in_block (quad A B C D) (cidr n m 0 0 16) = (A = n \<and> B = m)"
    and "p < 256 \<Longrightarrow> q < 256 \<Longrightarrow> r < 256 \<Longrightarrow> in_block (quad A B C D) (cidr n p q r 32) = (A = n \<and> B = p \<and> C = q \<and> D = r)"
    and "in_block (quad A B C D) (cidr 224 0 0 0 4) = (A div 16 = 14)"
    and "in_block (quad A B C D) (cidr 100 64 0 0 10) = (A = 100 \<and> B div 64 = 1)"
proof -
  note qd = quad_div [OF assms(2,3,4)]
  have z: "(0 :: nat) < 256" "(16 :: nat) < 256" "(64 :: nat) < 256" by simp_all
  show "in_block (quad A B C D) (cidr n 0 0 0 8) = (A = n)"
    unfolding in_block_lengths qd quad_div [OF z(1) z(1) z(1)] ..
  show "in_block (quad A B C D) (cidr 172 16 0 0 12) = (A = 172 \<and> B div 16 = 1)"
    unfolding in_block_lengths qd quad_div [OF z(2) z(1) z(1)] by (subst base_inj) (use assms(2) in simp_all)
  show "in_block (quad A B C D) (cidr n m 0 0 16) = (A = n \<and> B = m)" if "m < 256"
    unfolding in_block_lengths qd quad_div [OF that z(1) z(1)] using assms(2) that by (rule byte_inj)
  show "in_block (quad A B C D) (cidr n p q r 32) = (A = n \<and> B = p \<and> C = q \<and> D = r)"
    if "p < 256" "q < 256" "r < 256"
    unfolding in_block_lengths by (rule quad_eq [OF assms(2,3,4) that])
  show "in_block (quad A B C D) (cidr 224 0 0 0 4) = (A div 16 = 14)"
    unfolding in_block_lengths qd quad_div [OF z(1) z(1) z(1)] by simp
  show "in_block (quad A B C D) (cidr 100 64 0 0 10) = (A = 100 \<and> B div 64 = 1)"
    unfolding in_block_lengths qd quad_div [OF z(3) z(1) z(1)] by (subst base_inj) (use assms(2) in simp_all)
qed

lemma unat_lt_256: "unat (w :: 8 word) < 256"
  using unsigned_less [of w, where ?'a = nat] by simp

text \<open>On IPv4 the guard is exactly the table of blocks it names: loopback, private, unspecified,
  link-local, multicast, the shared space of carriers and the broadcast address. Every other address,
  the rest of \<open>0.0.0.0/8\<close>, \<open>198.18.0.0/15\<close> and \<open>240.0.0.0/4\<close> among them, is public.\<close>

lemma publicIP_v4:
  "publicIP (V4 a b c d) = (\<not> list_ex (in_block (v4_number a b c d)) non_public)"
proof -
  note nb = quad_blocks [OF unat_lt_256 [of a] unat_lt_256 [of b] unat_lt_256 [of c] unat_lt_256 [of d]]
  have "list_ex (in_block (v4_number a b c d)) non_public =
    (unat a = 127 \<or> unat a = 10 \<or> unat a = 172 \<and> unat b div 16 = 1 \<or> unat a = 192 \<and> unat b = 168 \<or>
     unat a = 0 \<and> unat b = 0 \<and> unat c = 0 \<and> unat d = 0 \<or> unat a = 169 \<and> unat b = 254 \<or> unat a div 16 = 14 \<or>
     unat a = 100 \<and> unat b div 64 = 1 \<or> unat a = 255 \<and> unat b = 255 \<and> unat c = 255 \<and> unat d = 255)"
    unfolding non_public_def v4_number_def list_ex_iff by (simp add: nb del: One_nat_def)
  moreover have "unat a = 224 \<Longrightarrow> unat a div 16 = 14" by simp
  moreover have "publicIP (V4 a b c d) =
    (\<not> (a = 127 \<or> a = 10 \<or> a = 172 \<and> unat b div 16 = 1 \<or> a = 192 \<and> b = 168 \<or> a = 0 \<and> b = 0 \<and> c = 0 \<and> d = 0 \<or>
     a = 169 \<and> b = 254 \<or> a = 224 \<and> b = 0 \<and> c = 0 \<or> unat a div 16 = 14 \<or> a = 100 \<and> unat b div 64 = 1 \<or>
     a = 255 \<and> b = 255 \<and> c = 255 \<and> d = 255))"
    unfolding publicIP_def IsLoopback.simps IsPrivate.simps IsUnspecified.simps IsLinkLocalUnicast.simps
      IsLinkLocalMulticast.simps IsInterfaceLocalMulticast.simps IsMulticast.simps in_cgnat.simps mask_F0 mask_E0 mask_C0 by blast
  ultimately show ?thesis unfolding word8_values by blast
qed

text \<open>IPv6: a block is the addresses that agree with its first one in the leading bits.\<close>

definition byte_bits :: "8 word \<Rightarrow> bool list" where
  "byte_bits b = map (\<lambda>n. bit b n) [7, 6, 5, 4, 3, 2, 1, 0]"

definition addr_bits :: "8 word list \<Rightarrow> bool list" where
  "addr_bits bs = concat (map byte_bits bs)"

definition in_block6 :: "8 word list \<Rightarrow> 8 word list \<times> nat \<Rightarrow> bool" where
  "in_block6 bs p = (length bs = 16 \<and> take (snd p) (addr_bits bs) = take (snd p) (addr_bits (fst p)))"

definition non_public6 :: "(8 word list \<times> nat) list" where
  "non_public6 =
     [(replicate 15 0 @ [1], 128), (replicate 16 0, 128), (0xFC # replicate 15 0, 7),
      (0xFE # 0x80 # replicate 14 0, 10), (0xFF # replicate 15 0, 8)]"

lemma byte_bits_length [simp]: "length (byte_bits b) = 8"
  by (simp add: byte_bits_def)

lemma byte_bits_inj: "byte_bits a = byte_bits b \<longleftrightarrow> a = b"
proof
  assume eq: "byte_bits a = byte_bits b"
  show "a = b"
  proof (rule bit_word_eqI)
    fix n assume "n < LENGTH(8)"
    then have "n \<in> set [7, 6, 5, 4, 3, 2, 1, 0]" by auto
    with eq show "bit a n = bit b n" unfolding byte_bits_def map_eq_conv by blast
  qed
qed simp

lemma addr_bits_Cons: "addr_bits (b # bs) = byte_bits b @ addr_bits bs"
  by (simp add: addr_bits_def)

lemma addr_bits_length: "length (addr_bits bs) = 8 * length bs"
  by (induction bs) (simp_all add: addr_bits_Cons, simp add: addr_bits_def)

lemma addr_bits_inj: "length bs = length cs \<Longrightarrow> addr_bits bs = addr_bits cs \<longleftrightarrow> bs = cs"
  by (induction bs cs rule: list_induct2) (simp_all add: addr_bits_Cons byte_bits_inj)

lemma whole_address:
  "length p = 16 \<Longrightarrow> in_block6 bs (p, 128) \<longleftrightarrow> bs = p"
  by (auto simp: in_block6_def addr_bits_length addr_bits_inj)

lemma byte_masks:
  fixes b :: "8 word"
  shows "take 7 (byte_bits b) = take 7 (byte_bits 0xFC) \<longleftrightarrow> b AND 0xFE = 0xFC"
    and "take 2 (byte_bits b) = take 2 (byte_bits 0x80) \<longleftrightarrow> b AND 0xC0 = 0x80"
proof -
  show "take 7 (byte_bits b) = take 7 (byte_bits 0xFC) \<longleftrightarrow> b AND 0xFE = 0xFC"
    by (rule word8_all [of "\<lambda>b. take 7 (byte_bits b) = take 7 (byte_bits 0xFC) \<longleftrightarrow> b AND 0xFE = 0xFC"]) code_simp
  show "take 2 (byte_bits b) = take 2 (byte_bits 0x80) \<longleftrightarrow> b AND 0xC0 = 0x80"
    by (rule word8_all [of "\<lambda>b. take 2 (byte_bits b) = take 2 (byte_bits 0x80) \<longleftrightarrow> b AND 0xC0 = 0x80"]) code_simp
qed

lemma prefix_blocks:
  assumes "length bs = 16"
  shows "in_block6 bs (0xFC # replicate 15 0, 7) \<longleftrightarrow> bs ! 0 AND 0xFE = 0xFC"
    and "in_block6 bs (0xFE # 0x80 # replicate 14 0, 10) \<longleftrightarrow> bs ! 0 = 0xFE \<and> bs ! 1 AND 0xC0 = 0x80"
    and "in_block6 bs (0xFF # replicate 15 0, 8) \<longleftrightarrow> bs ! 0 = 0xFF"
proof -
  obtain b c cs where bs: "bs = b # c # cs" using assms by (cases bs; cases "tl bs") auto
  show "in_block6 bs (0xFC # replicate 15 0, 7) \<longleftrightarrow> bs ! 0 AND 0xFE = 0xFC"
    using assms by (simp add: bs in_block6_def addr_bits_Cons byte_masks)
  show "in_block6 bs (0xFE # 0x80 # replicate 14 0, 10) \<longleftrightarrow> bs ! 0 = 0xFE \<and> bs ! 1 AND 0xC0 = 0x80"
    using assms by (simp add: bs in_block6_def addr_bits_Cons byte_masks byte_bits_inj)
  show "in_block6 bs (0xFF # replicate 15 0, 8) \<longleftrightarrow> bs ! 0 = 0xFF"
    using assms by (simp add: bs in_block6_def addr_bits_Cons byte_bits_inj)
qed

lemma publicIP_v6: "publicIP (V6 bs) = (\<not> list_ex (in_block6 bs) non_public6)"
proof (cases "length bs = 16")
  case True
  have "in_block6 bs (replicate 15 0 @ [1], 128) \<longleftrightarrow> bs = replicate 15 0 @ [1]" "in_block6 bs (replicate 16 0, 128) \<longleftrightarrow> bs = replicate 16 0"
    by (rule whole_address, simp)+
  then have "list_ex (in_block6 bs) non_public6 \<longleftrightarrow> bs = replicate 15 0 @ [1] \<or> bs = replicate 16 0 \<or>
      bs ! 0 AND 0xFE = 0xFC \<or> bs ! 0 = 0xFE \<and> bs ! 1 AND 0xC0 = 0x80 \<or> bs ! 0 = 0xFF"
    unfolding non_public6_def list_ex_iff by (simp add: prefix_blocks [OF True] del: append_replicate_commute)
  moreover have "publicIP (V6 bs) \<longleftrightarrow> \<not> (bs = replicate 15 0 @ [1] \<or> bs = replicate 16 0 \<or>
      bs ! 0 AND 0xFE = 0xFC \<or> bs ! 0 = 0xFE \<and> bs ! 1 AND 0xC0 = 0x80 \<or> bs ! 0 = 0xFF)"
    unfolding publicIP_def IsLoopback.simps IsPrivate.simps IsUnspecified.simps IsLinkLocalUnicast.simps
      IsLinkLocalMulticast.simps IsInterfaceLocalMulticast.simps IsMulticast.simps in_cgnat.simps using True by blast
  ultimately show ?thesis by blast
next
  case False
  then have "bs \<noteq> replicate 15 0 @ [1]" "bs \<noteq> replicate 16 0" by auto
  then have "publicIP (V6 bs)" using False
    by (simp add: publicIP_def)
  with False show ?thesis by (simp add: non_public6_def in_block6_def)
qed

text \<open>An address inside one of the blocks.\<close>

fun blocked :: "ip \<Rightarrow> bool" where
  "blocked (V4 a b c d) = list_ex (in_block (v4_number a b c d)) non_public"
| "blocked (V6 bs) = list_ex (in_block6 bs) non_public6"

lemma public_not_blocked: "publicIP i = (\<not> blocked i)"
  by (cases i) (simp_all only: publicIP_v4 publicIP_v6 blocked.simps)

text \<open>C27: The one-click client connects, whatever the sender's server answers and however its name resolves
  from one request to the next, over https, at the host of the URL it was given, at most three times
  (the request and two redirects), and never to an address in the loopback, private,
  unspecified, link-local, multicast or carrier blocks or to the broadcast address, on IPv4 and IPv6.\<close>
theorem one_click_stays_public:
  "case li_url li target of
     None \<Rightarrow> fst (one_click li nt target) = []
   | Some u \<Rightarrow>
       list_all (\<lambda>(v, i). ur_Scheme v = ''https'' \<and> equal_fold (ur_Host v) (ur_Host u) \<and> \<not> blocked i) (fst (one_click li nt target)) \<and>
       length (fst (one_click li nt target)) \<le> 3"
proof (cases "li_url li target")
  case None
  then show ?thesis by (simp add: one_click_def)
next
  case (Some u)
  have "list_all (safe_connection u) cs = list_all (\<lambda>(v, i). ur_Scheme v = ''https'' \<and> equal_fold (ur_Host v) (ur_Host u) \<and> \<not> blocked i) cs" for cs
    by (auto simp: list_all_iff safe_connection_def public_not_blocked)
  then have "list_all (\<lambda>(v, i). ur_Scheme v = ''https'' \<and> equal_fold (ur_Host v) (ur_Host u) \<and> \<not> blocked i) (fst (one_click li nt target)) \<and>
      length (fst (one_click li nt target)) \<le> 3"
    using Some one_click_safe [of li nt target] by (cases "fst (one_click li nt target) = []") auto
  then show ?thesis unfolding Some option.case .
qed

section \<open>What a call may do\<close>

definition effects :: "'m unsub_world \<Rightarrow> 'm \<times> (url \<times> ip) list \<times> (string \<times> mailto_message) list" where
  "effects w = (uw_mail w, uw_posts w, uw_sends w)"

definition signed_for :: "'raw libs \<Rightarrow> 'raw \<Rightarrow> string \<Rightarrow> bool" where
  "signed_for li raw dmn =
     (case li_dkim li raw of None \<Rightarrow> False
      | Some vs \<Rightarrow> list_ex (\<lambda>v. dk_Valid v \<and> covers_both v \<and> dk_Domain v = dmn) vs)"

lemma find_SomeD: "find P xs = Some x \<Longrightarrow> x \<in> set xs \<and> P x"
  by (auto simp: find_Some_iff)

lemma signedBoth_signed: "signedBoth now (li_dkim li raw) = Inr (dmn, x) \<Longrightarrow> signed_for li raw dmn"
  by (auto simp: signedBoth_def signed_for_def list_ex_iff split: option.splits if_splits dest!: find_SomeD)

lemma Analyze_OneClick:
  "Analyze li now raw = OneClick target h dmn x \<Longrightarrow> signed_for li raw dmn"
  by (auto simp: Analyze_def one_click_plan_def split: option.splits prod.splits if_splits sum.splits
      dest: signedBoth_signed)

lemma insert_unsub_effects [simp]: "effects (insert_unsub account sender pl st code txt n w) = effects w"
  by (simp add: insert_unsub_def effects_def)

lemma insert_unsub_posts [simp]:
  "uw_posts (insert_unsub account sender pl st code txt n w) = uw_posts w"
  "uw_sends (insert_unsub account sender pl st code txt n w) = uw_sends w"
  by (simp_all add: insert_unsub_def)

lemma unsubArchive_keeps:
  "unsubArchive e account folder dst us w = (r, w') \<Longrightarrow>
   uw_posts w' = uw_posts w \<and> uw_sends w' = uw_sends w \<and> uw_rows w' = uw_rows w \<and> uw_now w' = uw_now w \<and> uw_next w' = uw_next w"
  by (auto simp: unsubArchive_def split: if_splits prod.splits)

lemma finish_unsub_keeps:
  "uw_posts (snd (finish_unsub e p us res w)) = uw_posts w \<and> uw_sends (snd (finish_unsub e p us res w)) = uw_sends w"
  by (auto simp: finish_unsub_def Let_def split: option.splits prod.splits if_splits dest!: unsubArchive_keeps)

text \<open>What a confirmed call does is what its plan says.\<close>

definition plan_effect ::
  "('raw, 'm) unsub_env \<Rightarrow> unsub_params \<Rightarrow> string \<Rightarrow> plan \<Rightarrow> 'raw \<Rightarrow> 'm unsub_world \<Rightarrow> 'm unsub_world \<Rightarrow> bool" where
  "plan_effect e p account pl raw w w' =
     (case pl of
        OneClick target h dmn x \<Rightarrow> signed_for (ue_libs e) raw dmn \<and> uw_sends w' = uw_sends w \<and>
          uw_posts w' = uw_posts w @ fst (one_click (ue_libs e) (ue_net e) target)
      | Mailto m r \<Rightarrow> up_CanSend p \<and> uw_posts w' = uw_posts w \<and> uw_sends w' = uw_sends w @ [(account, m)]
      | NoMethod r \<Rightarrow> False)"

lemma confirm_unsub_effect:
  assumes "Analyze (ue_libs e) now raw = pl"
  shows "effects (snd (confirm_unsub e p account sender us pl w)) = effects w \<or>
         plan_effect e p account pl raw w (snd (confirm_unsub e p account sender us pl w))"
proof (cases pl)
  case (OneClick target h dmn x)
  with assms have "signed_for (ue_libs e) raw dmn" by (intro Analyze_OneClick [of _ now]) simp
  with OneClick show ?thesis
    by (auto simp: confirm_unsub_def plan_effect_def finish_unsub_keeps split: prod.splits)
next
  case (Mailto m r)
  then show ?thesis
    by (auto simp: confirm_unsub_def plan_effect_def finish_unsub_keeps Let_def split: prod.splits)
next
  case (NoMethod r)
  then show ?thesis by (simp add: confirm_unsub_def)
qed

lemma run_unsub_effect:
  assumes "Analyze (ue_libs e) now raw = pl"
  shows "effects (snd (run_unsub e p account sender us pl w)) = effects w \<or>
         up_Confirm p \<and> list_ex (fresh_dry_run account sender (uw_now w)) (uw_rows w) \<and>
         plan_effect e p account pl raw w (snd (run_unsub e p account sender us pl w))"
  using confirm_unsub_effect [OF assms, of p account sender us w] by (simp add: run_unsub_def)

lemma normal_params_flags:
  "normal_params li p0 = Inr p \<Longrightarrow> up_Confirm p = up_Confirm p0 \<and> up_CanSend p = up_CanSend p0"
  by (auto simp: normal_params_def Let_def split: if_splits option.splits)

lemma plan_effect_params: "up_CanSend p = up_CanSend q \<Longrightarrow> plan_effect e p = plan_effect e q"
  by (simp add: plan_effect_def fun_eq_iff split: plan.splits)

text \<open>C24: A call moves no mail, contacts no host and sends nothing unless it is confirmed and a dry run for
  the account and the sender of this very call was logged within the last hour. Then a POST goes out only if the
  message the call found has a valid signature that covers both headers, to the URL of its plan, and an email
  only when the caller may send, to the address of its plan. The plan's URL is that of the topmost
  List-Unsubscribe field, which need not be the one the signature covers.\<close>
theorem unsubscribe_acts_only_when_authorised:
  "effects (snd (Unsubscribe e p w)) = effects w \<or>
   up_Confirm p \<and>
   (case normal_params (ue_libs e) p of
      Inl _ \<Rightarrow> False
    | Inr q \<Rightarrow>
        (case ue_resolve e (if up_Account q = ''_default'' then [] else up_Account q) of
           None \<Rightarrow> False
         | Some account \<Rightarrow>
             (case unsubFind e account q (uw_mail w) of
                Inl _ \<Rightarrow> False
              | Inr (uid, sender, us) \<Rightarrow>
                  (case ue_raw e account (up_Folder q) uid (uw_mail w) of
                     None \<Rightarrow> False
                   | Some raw \<Rightarrow>
                       list_ex (\<lambda>r. us_account r = account \<and> us_sender r = sender \<and> us_status r = DryRun \<and> uw_now w - 3600 \<le> us_created r) (uw_rows w) \<and>
                       plan_effect e p account (Analyze (ue_libs e) (uw_now w) raw) raw w (snd (Unsubscribe e p w))))))"
proof (cases "normal_params (ue_libs e) p")
  case (Inl x)
  then show ?thesis by (simp add: Unsubscribe_def)
next
  case q: (Inr q)
  note flags = normal_params_flags [OF q]
  show ?thesis
  proof (cases "unsub_target e (uw_now w) q (uw_mail w)")
    case (Inl x)
    with q show ?thesis by (simp add: Unsubscribe_def)
  next
    case (Inr t)
    then obtain account uid sender us raw where
        found: "ue_resolve e (if up_Account q = ''_default'' then [] else up_Account q) = Some account"
          "unsubFind e account q (uw_mail w) = Inr (uid, sender, us)" "ue_raw e account (up_Folder q) uid (uw_mail w) = Some raw"
      and t: "t = (account, sender, us, Analyze (ue_libs e) (uw_now w) raw)"
      by (auto simp: unsub_target_def split: option.splits sum.splits prod.splits)
    have run: "Unsubscribe e p w = run_unsub e q account sender us (Analyze (ue_libs e) (uw_now w) raw) w"
      using q Inr t by (simp add: Unsubscribe_def)
    have fresh: "fresh_dry_run account sender (uw_now w) =
        (\<lambda>r. us_account r = account \<and> us_sender r = sender \<and> us_status r = DryRun \<and> uw_now w - 3600 \<le> us_created r)"
      by (simp add: fresh_dry_run_def unsubConfirmWindow_def fun_eq_iff)
    from run_unsub_effect [OF refl, where e = e and now = "uw_now w" and raw = raw and p = q and account = account and sender = sender and us = us and w = w]
    show ?thesis unfolding q found run fresh sum.case option.case prod.case
      using flags plan_effect_params [of q p e] by simp
  qed
qed

section \<open>The log\<close>

text \<open>Every entry that is not itself a dry run has a dry run of the same account and sender before it, at
  most an hour older.\<close>

definition announced :: "unsub_row list \<Rightarrow> unsub_row \<Rightarrow> bool" where
  "announced ds r =
     list_ex (\<lambda>d. us_account d = us_account r \<and> us_sender d = us_sender r \<and> us_status d = DryRun \<and> us_created r - 3600 \<le> us_created d) ds"

lemma fresh_dry_run_announced:
  "list_ex (fresh_dry_run (us_account r) (us_sender r) (us_created r)) ds \<Longrightarrow> announced ds r"
  by (auto simp: announced_def fresh_dry_run_def unsubConfirmWindow_def list_ex_iff)

fun log_ok :: "unsub_row list \<Rightarrow> unsub_row list \<Rightarrow> bool" where
  "log_ok ds [] = True"
| "log_ok ds (r # rs) =
     ((us_status r = DryRun \<or> announced ds r) \<and> log_ok (ds @ [r]) rs)"

lemma log_ok_append: "log_ok ds (rs @ rs') = (log_ok ds rs \<and> log_ok (ds @ rs) rs')"
  by (induction rs arbitrary: ds) auto

definition log_inv :: "'m unsub_world \<Rightarrow> bool" where
  "log_inv w = (log_ok [] (uw_rows w) \<and> list_all (\<lambda>r. us_id r < uw_next w) (uw_rows w) \<and> distinct (map us_id (uw_rows w)))"

lemma insert_unsub_inv:
  assumes "log_inv w" and "st = DryRun \<or> list_ex (fresh_dry_run account sender (uw_now w)) (uw_rows w)"
  shows "log_inv (insert_unsub account sender pl st code txt n w)"
proof -
  have "list_all (\<lambda>r. us_id r < uw_next w + 1) (uw_rows w)" "uw_next w \<notin> us_id ` set (uw_rows w)"
    using assms(1) by (force simp: log_inv_def list_all_iff)+
  with assms show ?thesis by (auto simp: log_inv_def insert_unsub_def log_ok_append intro!: fresh_dry_run_announced)
qed

lemma log_inv_cong: "uw_rows w' = uw_rows w \<Longrightarrow> uw_next w' = uw_next w \<Longrightarrow> log_inv w' = log_inv w"
  by (simp add: log_inv_def)

lemma log_inv_events [simp]: "log_inv (w\<lparr>uw_events := x\<rparr>) = log_inv w"
  by (rule log_inv_cong) simp_all

lemma finish_unsub_inv:
  assumes "log_inv w" and "list_ex (fresh_dry_run (uo_Account res) (uo_Sender res) (uw_now w)) (uw_rows w)"
  shows "log_inv (snd (finish_unsub e p us res w))"
proof -
  define a where "a = (if uo_Status res \<in> {UDone, USent} \<and> up_ArchiveTo p \<noteq> []
    then unsubArchive e (uo_Account res) (up_Folder p) (up_ArchiveTo p) us w else (Some 0, w))"
  obtain r w1 where r: "a = (r, w1)" by (cases a)
  then have same: "uw_rows w1 = uw_rows w" "uw_next w1 = uw_next w" "uw_now w1 = uw_now w"
    unfolding a_def by (auto split: if_splits dest!: unsubArchive_keeps)
  have ins: "log_inv (insert_unsub (uo_Account res) (uo_Sender res) pl st code lt n w1)" for pl st code lt n
    using assms log_inv_cong [OF same(1,2)] same by (intro insert_unsub_inv) simp_all
  show ?thesis
    using r ins unfolding finish_unsub_def Let_def a_def [symmetric]
    by (cases r) simp_all
qed

lemma run_unsub_inv: "log_inv w \<Longrightarrow> log_inv (snd (run_unsub e p account sender us pl w))"
proof -
  assume w: "log_inv w"
  show ?thesis
  proof (cases "up_Confirm p \<and> list_ex (fresh_dry_run account sender (uw_now w)) (uw_rows w)")
    case True
    have upd: "log_inv (w\<lparr>uw_posts := x\<rparr>)" "log_inv (w\<lparr>uw_mail := m, uw_sends := y\<rparr>)" for x y m
      using w by (simp_all add: log_inv_def)
    show ?thesis
    proof (cases pl)
      case (OneClick target h dmn x)
      with True upd show ?thesis
        by (auto simp: run_unsub_def confirm_unsub_def base_result_def split: prod.splits intro!: finish_unsub_inv)
    next
      case (Mailto m r)
      with True upd w show ?thesis
        by (auto simp: run_unsub_def confirm_unsub_def base_result_def Let_def split: prod.splits
            intro!: finish_unsub_inv insert_unsub_inv)
    next
      case (NoMethod r)
      with True w show ?thesis by (simp add: run_unsub_def confirm_unsub_def insert_unsub_inv)
    qed
  next
    case False
    with w show ?thesis by (auto simp: run_unsub_def insert_unsub_inv)
  qed
qed

lemma Unsubscribe_inv: "log_inv w \<Longrightarrow> log_inv (snd (Unsubscribe e p w))"
  by (auto simp: Unsubscribe_def run_unsub_inv split: sum.splits prod.splits)

lemma markIgnoredReported_map:
  "markIgnoredReported is rs = map (\<lambda>r. if us_id r \<in> ig_ID ` set is then r\<lparr>us_reported := True\<rparr> else r) rs"
  unfolding markIgnoredReported_def
  by (induction "is" arbitrary: rs) (auto simp: upd_rows_def)

lemma log_ok_map:
  assumes "\<And>r. us_account (f r) = us_account r" "\<And>r. us_sender (f r) = us_sender r" "\<And>r. us_status (f r) = us_status r"
    "\<And>r. us_created (f r) = us_created r"
  shows "log_ok (map f ds) (map f rs) = log_ok ds rs"
proof (induction rs arbitrary: ds)
  case Nil
  then show ?case by simp
next
  case (Cons r rs)
  have "announced (map f ds) (f r) = announced ds r"
    by (simp add: list_ex_iff announced_def assms)
  with Cons [of "ds @ [r]"] show ?case by (simp add: assms)
qed

text \<open>What happens to the log over time: calls, the digest's mark, and the clock and the mailbox moving on.\<close>

datatype 'm unsub_event = Call unsub_params | Digest "ignored_unsub list" | Meanwhile int 'm

fun unsub_step :: "('raw, 'm) unsub_env \<Rightarrow> 'm unsub_event \<Rightarrow> 'm unsub_world \<Rightarrow> 'm unsub_world" where
  "unsub_step e (Call p) w = snd (Unsubscribe e p w)"
| "unsub_step e (Digest is) w = w\<lparr>uw_rows := markIgnoredReported is (uw_rows w)\<rparr>"
| "unsub_step e (Meanwhile t m) w = w\<lparr>uw_now := t, uw_mail := m\<rparr>"

definition fresh_log :: "int \<Rightarrow> 'm \<Rightarrow> 'm unsub_world" where
  "fresh_log now m = \<lparr>uw_rows = [], uw_next = 1, uw_now = now, uw_mail = m, uw_posts = [], uw_sends = [], uw_events = []\<rparr>"

lemma unsub_step_inv: "log_inv w \<Longrightarrow> log_inv (unsub_step e x w)"
proof (cases x)
  case (Digest "is")
  let ?f = "\<lambda>r. if us_id r \<in> ig_ID ` set is then r\<lparr>us_reported := True\<rparr> else r"
  assume w: "log_inv w"
  have "map us_id (map ?f (uw_rows w)) = map us_id (uw_rows w)" by simp
  with w log_ok_map [of ?f "[]" "uw_rows w"] Digest show ?thesis
    by (auto simp: log_inv_def markIgnoredReported_map list_all_iff o_def simp del: map_map)
qed (simp_all add: Unsubscribe_inv, simp add: log_inv_def)

text \<open>C29: From an empty log, whatever calls are made, whatever the digest marks and however the clock and
  the mailbox move: every entry for an unsubscribe attempted has a dry run of the same account and sender
  before it, at most an hour older, and no two entries share an id.\<close>
theorem unsubscribe_log_shows_dry_runs:
  "log_ok [] (uw_rows (fold (unsub_step e) xs (fresh_log now m))) \<and>
   distinct (map us_id (uw_rows (fold (unsub_step e) xs (fresh_log now m))))"
proof -
  have "log_inv (fresh_log now m)" by (simp add: log_inv_def fresh_log_def)
  then have "log_inv (fold (unsub_step e) xs (fresh_log now m))"
    by (rule fold_preserves [where P = log_inv, rotated]) (rule unsub_step_inv)
  then show ?thesis by (simp add: log_inv_def)
qed

section \<open>Ignored unsubscribes\<close>

definition marked :: "ignored_unsub list \<Rightarrow> unsub_row \<Rightarrow> unsub_row" where
  "marked is r = (if us_id r \<in> ig_ID ` set is then r\<lparr>us_reported := True\<rparr> else r)"

lemma marked_keeps [simp]:
  "us_id (marked is r) = us_id r" "us_account (marked is r) = us_account r" "us_sender (marked is r) = us_sender r"
  "succeeded (marked is r) = succeeded r" "us_created (marked is r) = us_created r"
  by (simp_all add: marked_def succeeded_def)

lemma markIgnoredReported_marked: "markIgnoredReported is rs = map (marked is) rs"
  by (simp add: markIgnoredReported_map marked_def fun_eq_iff)

lemma latest_success_mark: "latest_success (map (marked is) rs) (marked is u) = latest_success rs u"
  by (simp add: latest_success_def list_all_iff)

definition summary :: "ignored_unsub \<Rightarrow> int \<times> string \<times> string \<times> nat" where
  "summary i = (ig_ID i, ig_Account i, ig_Sender i, ig_Since i)"

lemma ignored_of_marked: "summary (ignored_of d g (marked is u)) = summary (ignored_of d g u)"
  by (simp add: ignored_of_def summary_def)

lemma ignored_set:
  "set (ignoredUnsubscribes on days d account onlyNew rs) =
   (if on then ignored_of d (GraceDaysOrDefault days * 86400) `
      {u \<in> set rs. (account = [] \<or> us_account u = account) \<and> latest_success rs u \<and> \<not> (onlyNew \<and> us_reported u) \<and>
        mails_since d (us_account u) (us_sender u) (us_created u + GraceDaysOrDefault days * 86400) \<noteq> 0}
    else {})"
  by (auto simp: ignoredUnsubscribes_def Let_def ignored_of_def)

text \<open>A sender that keeps mailing is reported in one digest: once the entries listed there are marked, no later
  digest, whatever mail has come in since, lists any of them again; the log keeps showing them all.\<close>
theorem ignored_sender_is_reported_once:
  "list_all (\<lambda>i. ig_ID i \<notin> ig_ID ` set shown) (ignoredUnsubscribes on days d account True (markIgnoredReported shown rs)) \<and>
   summary ` set (ignoredUnsubscribes on days d account False (markIgnoredReported shown rs)) =
   summary ` set (ignoredUnsubscribes on days d account False rs)"
proof
  show "list_all (\<lambda>i. ig_ID i \<notin> ig_ID ` set shown) (ignoredUnsubscribes on days d account True (markIgnoredReported shown rs))"
    unfolding list_all_iff ignored_set markIgnoredReported_marked
    by (auto simp: ignored_of_def marked_def split: if_splits)
  let ?g = "GraceDaysOrDefault days * 86400"
  let ?S = "{u \<in> set rs. (account = [] \<or> us_account u = account) \<and> latest_success rs u \<and>
    mails_since d (us_account u) (us_sender u) (us_created u + ?g) \<noteq> 0}"
  have "{u \<in> set (map (marked shown) rs). (account = [] \<or> us_account u = account) \<and> latest_success (map (marked shown) rs) u \<and>
    mails_since d (us_account u) (us_sender u) (us_created u + ?g) \<noteq> 0} = marked shown ` ?S"
    by (auto simp: latest_success_mark)
  then show "summary ` set (ignoredUnsubscribes on days d account False (markIgnoredReported shown rs)) =
    summary ` set (ignoredUnsubscribes on days d account False rs)"
    unfolding ignored_set markIgnoredReported_marked by (simp add: image_image ignored_of_marked)
qed

section \<open>A header above the signature\<close>

text \<open>A field put on top of a message: the header reader sees it first. \<open>on_top\<close> builds the message.\<close>

definition prepends :: "'raw libs \<Rightarrow> (string \<times> string \<Rightarrow> 'raw \<Rightarrow> 'raw) \<Rightarrow> 'raw \<Rightarrow> bool" where
  "prepends li on_top raw =
     (case li_headers li raw of None \<Rightarrow> False
      | Some hs \<Rightarrow> li_headers li (on_top (''List-Unsubscribe'', ''<https://evil.example/>'') raw) =
          Some ((''List-Unsubscribe'', ''<https://evil.example/>'') # hs))"

text \<open>RFC 6376, 5.4.2: a signature that names a header once covers its lowest instance, so the verdict of the
  verifier is that of the message without the new field.\<close>

definition signs_lowest :: "'raw libs \<Rightarrow> (string \<times> string \<Rightarrow> 'raw \<Rightarrow> 'raw) \<Rightarrow> 'raw \<Rightarrow> bool" where
  "signs_lowest li on_top raw =
     (li_dkim li (on_top (''List-Unsubscribe'', ''<https://evil.example/>'') raw) = li_dkim li raw)"

text \<open>The URL of a one-click plan is the one of the topmost List-Unsubscribe field, the one a DKIM
  signature does not cover when another is below it: an unsigned field put on top of a signed message
  redirects the POST, and the plan still names the signer of the message.\<close>
theorem unsigned_header_takes_over:
  assumes "Analyze li now raw = OneClick target h dmn x" and "prepends li on_top raw" and "signs_lowest li on_top raw"
    and "li_url li ''https://evil.example/'' = Some u" and "ur_Hostname u = ''evil.example''"
  shows "Analyze li now (on_top (''List-Unsubscribe'', ''<https://evil.example/>'') raw) =
         OneClick ''https://evil.example/'' ''evil.example'' dmn x"
proof -
  obtain hs where hs: "li_headers li raw = Some hs"
    and top: "li_headers li (on_top (''List-Unsubscribe'', ''<https://evil.example/>'') raw) = Some ((''List-Unsubscribe'', ''<https://evil.example/>'') # hs)"
    using assms(2) by (auto simp: prepends_def split: option.splits)
  have post: "equal_fold (trim_space (header_get hs ''List-Unsubscribe-Post'')) ''List-Unsubscribe=One-Click''"
    and signed: "signedBoth now (li_dkim li raw) = Inr (dmn, x)"
    using assms(1) hs by (auto simp: Analyze_def one_click_plan_def split: option.splits prod.splits if_splits sum.splits)
  have first: "header_get ((''List-Unsubscribe'', ''<https://evil.example/>'') # hs) ''List-Unsubscribe'' = ''<https://evil.example/>''"
    by (simp add: header_get_def equal_fold_def)
  have other: "header_get ((''List-Unsubscribe'', ''<https://evil.example/>'') # hs) ''List-Unsubscribe-Post'' = header_get hs ''List-Unsubscribe-Post''"
    by (simp add: header_get_def equal_fold_def to_lower_def)
  have uris: "parseListUnsubscribe ''<https://evil.example/>'' = (''https://evil.example/'', [])" by code_simp
  show ?thesis
    using assms(3,4,5) post signed
    by (simp add: Analyze_def top first other uris one_click_plan_def signs_lowest_def)
qed

text \<open>A message is its header fields; \<open>news.example\<close> signed both headers once.\<close>

definition sample_url :: "string \<Rightarrow> url option" where
  "sample_url s = map_option (\<lambda>h. \<lparr>ur_Scheme = ''https'', ur_Host = h, ur_Hostname = h, ur_Opaque = [], ur_Path = ''/'', ur_Query = []\<rparr>)
     (map_of [(''https://evil.example/'', ''evil.example''), (''https://news.example/u'', ''news.example'')] s)"

definition sample_libs :: "(string \<times> string) list libs" where
  "sample_libs = \<lparr>li_headers = Some,
     li_dkim = (\<lambda>raw. Some [\<lparr>dk_Valid = True, dk_Domain = ''news.example'',
       dk_Keys = [''From'', ''List-Unsubscribe'', ''List-Unsubscribe-Post''], dk_Expiration = None\<rparr>]),
     li_url = sample_url, li_unescape = Some, li_address = Some\<rparr>"

definition sample_mail :: "(string \<times> string) list" where
  "sample_mail = [(''From'', ''a@news.example''), (''List-Unsubscribe'', ''<https://news.example/u>''),
     (''List-Unsubscribe-Post'', ''List-Unsubscribe=One-Click'')]"

lemma sample_plan: "Analyze sample_libs 0 sample_mail = OneClick ''https://news.example/u'' ''news.example'' ''news.example'' False"
  by code_simp

theorem unsigned_header_takes_over_witness:
  "Analyze sample_libs 0 ((''List-Unsubscribe'', ''<https://evil.example/>'') # sample_mail) =
     OneClick ''https://evil.example/'' ''evil.example'' ''news.example'' False"
proof (rule unsigned_header_takes_over [where on_top = "(#)" and li = sample_libs, OF sample_plan])
  show "li_url sample_libs ''https://evil.example/'' =
    Some \<lparr>ur_Scheme = ''https'', ur_Host = ''evil.example'', ur_Hostname = ''evil.example'', ur_Opaque = [], ur_Path = ''/'', ur_Query = []\<rparr>"
    by (simp add: sample_libs_def sample_url_def)
qed (simp_all add: prepends_def signs_lowest_def sample_libs_def)

end
