(* ===== verification/Learn_Props.thy ===== *)
theory Learn_Props
  imports Learn Rules_Props
begin

text \<open>
  What learning promises: suggestions spare the people the owner deals with, a dismissal stands, mail
  a rule moved never counts - and where its rules collide or reach too far.
\<close>

section \<open>Who is suggested\<close>

text \<open>The addresses a suggestion was learned from.\<close>

definition learned_from :: "suggestion \<Rightarrow> string list" where
  "learned_from sg = (if su_Kind sg = ''domain'' then su_Addresses sg else [su_Target sg])"

definition qualifies ::
  "(rat \<Rightarrow> rat) \<Rightarrow> learn_cfg \<Rightarrow> string \<Rightarrow> (string \<times> string) list \<Rightarrow> exclusions \<Rightarrow> state_db \<Rightarrow> tally \<Rightarrow> bool" where
  "qualifies rnd c account kinds ex d t \<longleftrightarrow> \<not> is_excluded ex t \<and>
     (\<exists>s\<in>set (sd_senders d). t = tally_of account kinds d s \<and> never_contacted s \<and>
        MinDiscardsOrDefault c \<le> int (length (own_discards account kinds s d)) \<and>
        RatioOrDefault c \<le> rnd (of_nat (length (own_discards account kinds s d)) / of_nat (length (received_rows account s d))))"

lemma tally_of_sel [simp]:
  "ta_address (tally_of account kinds d s) = sn_address s" "ta_domain (tally_of account kinds d s) = sn_domain s"
  "ta_discarded (tally_of account kinds d s) = length (own_discards account kinds s d)"
  "ta_received (tally_of account kinds d s) = length (received_rows account s d)"
  by (simp_all add: tally_of_def Let_def)

lemma candidate_qualifies:
  "t \<in> set (candidates rnd c account kinds d) \<Longrightarrow> \<not> is_excluded ex t \<Longrightarrow> qualifies rnd c account kinds ex d t"
  by (auto simp: candidates_def qualifies_def)

lemma make_suggestion_sel [simp]:
  "su_Target (make_suggestion account target kind addrs t kinds ex) = target"
  "su_Kind (make_suggestion account target kind addrs t kinds ex) = kind"
  "su_Addresses (make_suggestion account target kind addrs t kinds ex) = addrs"
  "su_Account (make_suggestion account target kind addrs t kinds ex) = account"
  by (simp_all add: make_suggestion_def Let_def)

lemma domain_suggestionsD:
  assumes "sg \<in> set (domain_suggestions c account kinds ex d dmn ts)"
  shows "(su_Kind sg = ''domain'' \<and> su_Target sg = CHR ''@'' # dmn \<and> domain_rule_ok c ex dmn (sort_key ta_address ts) d \<and>
      su_Addresses sg = map ta_address (sort_key ta_address ts)) \<or>
    (su_Kind sg = ''address'' \<and> su_Target sg \<in> ta_address ` set ts)"
  using assms by (auto simp: domain_suggestions_def Let_def split: if_splits)

lemma suggestions_fromD:
  assumes "sg \<in> set (suggestions_from rnd c account kinds ex d)"
  shows "(\<forall>a\<in>set (learned_from sg). \<exists>t. ta_address t = a \<and> qualifies rnd c account kinds ex d t \<and>
       (su_Kind sg = ''domain'' \<longrightarrow> su_Target sg = CHR ''@'' # ta_domain t)) \<and>
    (su_Kind sg = ''domain'' \<longrightarrow> (\<exists>dmn ts. su_Target sg = CHR ''@'' # dmn \<and> domain_rule_ok c ex dmn ts d))"
proof -
  let ?ts = "filter (\<lambda>t. \<not> is_excluded ex t) (candidates rnd c account kinds d)"
  obtain dmn where d: "sg \<in> set (domain_suggestions c account kinds ex d dmn (filter (\<lambda>t. ta_domain t = dmn) ?ts))"
    using assms by (auto simp: suggestions_from_def Let_def sort_suggestions_def)
  have q: "qualifies rnd c account kinds ex d t" if "t \<in> set ?ts" for t
    using that candidate_qualifies by simp
  from domain_suggestionsD [OF d] show ?thesis
  proof
    assume "su_Kind sg = ''address'' \<and> su_Target sg \<in> ta_address ` set (filter (\<lambda>t. ta_domain t = dmn) ?ts)"
    then show ?thesis using q by (auto simp: learned_from_def)
  next
    assume k: "su_Kind sg = ''domain'' \<and> su_Target sg = CHR ''@'' # dmn \<and>
      domain_rule_ok c ex dmn (sort_key ta_address (filter (\<lambda>t. ta_domain t = dmn) ?ts)) d \<and>
      su_Addresses sg = map ta_address (sort_key ta_address (filter (\<lambda>t. ta_domain t = dmn) ?ts))"
    then have "\<exists>t. ta_address t = a \<and> qualifies rnd c account kinds ex d t \<and> ta_domain t = dmn" if "a \<in> set (learned_from sg)" for a
      using that q by (auto simp: learned_from_def)
    with k show ?thesis by blast
  qed
qed

lemma suggestionsD:
  assumes "suggestions rnd s sv c def account d w = Some sgs" "sg \<in> set sgs"
  shows "\<exists>kinds. discard_folders s c account w = Some kinds \<and>
    sg \<in> set (suggestions_from rnd c account kinds (learn_exclusions sv def account d) d)"
  using assms by (auto simp: suggestions_def split: option.splits if_splits)

text \<open>C12: Everyone a suggestion is learned from is a sender the owner never wrote to, never answered and
  does not trust, none of the owner's addresses and not held, whose own discards reach the minimum
  and the ratio; and a domain is suggested only when it is no webmail domain and nobody at it is a
  correspondent or trusted.\<close>
theorem suggestions_spare_contacts:
  assumes "suggestions rnd s sv c def account d w = Some sgs" "sg \<in> set sgs"
  shows "(\<exists>kinds. discard_folders s c account w = Some kinds \<and>
     (\<forall>a\<in>set (learned_from sg). \<exists>x\<in>set (sd_senders d). sn_address x = a \<and> sn_sent x = 0 \<and> sn_reply_count x = 0 \<and> \<not> sn_trusted x \<and>
       \<not> me_has (me_set sv d) a \<and> a \<notin> bareAddr ` hm_sender ` {h \<in> set (sd_held d). hm_account h = account} \<and>
       MinDiscardsOrDefault c \<le> int (length (own_discards account kinds x d)) \<and>
       RatioOrDefault c \<le> rnd (of_nat (length (own_discards account kinds x d)) / of_nat (length (received_rows account x d))))) \<and>
    (su_Kind sg = ''domain'' \<longrightarrow> (\<exists>dmn. su_Target sg = CHR ''@'' # dmn \<and> dmn \<notin> set freemailDomains \<and>
       (\<forall>x\<in>set (sd_senders d). sn_domain x = dmn \<longrightarrow> sn_sent x \<le> 0 \<and> sn_reply_count x \<le> 0 \<and> \<not> sn_trusted x)))"
proof -
  let ?ex = "learn_exclusions sv def account d"
  obtain kinds where k: "discard_folders s c account w = Some kinds" "sg \<in> set (suggestions_from rnd c account kinds ?ex d)"
    using suggestionsD [OF assms] by blast
  note f = suggestions_fromD [OF k(2)]
  have "\<exists>x\<in>set (sd_senders d). sn_address x = a \<and> sn_sent x = 0 \<and> sn_reply_count x = 0 \<and> \<not> sn_trusted x \<and>
       \<not> me_has (me_set sv d) a \<and> a \<notin> bareAddr ` hm_sender ` {h \<in> set (sd_held d). hm_account h = account} \<and>
       MinDiscardsOrDefault c \<le> int (length (own_discards account kinds x d)) \<and>
       RatioOrDefault c \<le> rnd (of_nat (length (own_discards account kinds x d)) / of_nat (length (received_rows account x d)))"
    if a: "a \<in> set (learned_from sg)" for a
  proof -
    obtain t where t: "ta_address t = a" "qualifies rnd c account kinds ?ex d t" using f a by blast
    then obtain x where x: "x \<in> set (sd_senders d)" "t = tally_of account kinds d x" "never_contacted x"
      "MinDiscardsOrDefault c \<le> int (length (own_discards account kinds x d))"
      "RatioOrDefault c \<le> rnd (of_nat (length (own_discards account kinds x d)) / of_nat (length (received_rows account x d)))"
      "\<not> is_excluded ?ex t" unfolding qualifies_def by blast
    have "\<not> me_has (ex_me ?ex) a" "a \<notin> set (ex_held ?ex)" using x(6) t(1) by (auto simp: is_excluded_def)
    then have "\<not> me_has (me_set sv d) a" "a \<notin> bareAddr ` hm_sender ` {h \<in> set (sd_held d). hm_account h = account}"
      by (auto simp: learn_exclusions_def)
    then show ?thesis using x t(1) by (intro bexI [OF _ x(1)]) (simp add: never_contacted_def)
  qed
  moreover have "\<exists>dmn. su_Target sg = CHR ''@'' # dmn \<and> dmn \<notin> set freemailDomains \<and>
       (\<forall>x\<in>set (sd_senders d). sn_domain x = dmn \<longrightarrow> sn_sent x \<le> 0 \<and> sn_reply_count x \<le> 0 \<and> \<not> sn_trusted x)"
    if "su_Kind sg = ''domain''"
    using f that by (fastforce simp: domain_rule_ok_def domain_protected_def list_ex_iff)
  ultimately show ?thesis using k(1) by blast
qed

section \<open>Dismissals\<close>

definition learn_keys :: "state_db \<Rightarrow> (string \<times> string) list" where
  "learn_keys d = map (\<lambda>l. (ls_account l, ls_target l)) (sd_learn d)"

lemma learn_keys_upd: "learn_keys (d\<lparr>sd_learn := ls\<rparr>) = map (\<lambda>l. (ls_account l, ls_target l)) ls"
  by (simp add: learn_keys_def)

definition dismissed :: "string \<Rightarrow> string \<Rightarrow> state_db \<Rightarrow> bool" where
  "dismissed account target d \<longleftrightarrow> distinct (learn_keys d) \<and>
     (\<exists>l\<in>set (sd_learn d). ls_account l = account \<and> ls_target l = target \<and> ls_status l = ''dismissed'')"

lemma dismissed_state:
  assumes "dismissed account target d"
  shows "state_of (learn_exclusions sv def account d) target = ''dismissed''"
proof -
  let ?ls = "filter (\<lambda>l. ls_account l = account) (sd_learn d)"
  have "inj_on (\<lambda>l. (ls_account l, ls_target l)) (set (sd_learn d))" "distinct (sd_learn d)"
    using assms by (auto simp: dismissed_def learn_keys_def distinct_map)
  then have "distinct (map ls_target ?ls)" by (auto simp: distinct_map inj_on_def)
  moreover have "(target, ''dismissed'') \<in> set (map (\<lambda>l. (ls_target l, ls_status l)) ?ls)"
    using assms by (force simp: dismissed_def)
  ultimately have "map_of (map (\<lambda>l. (ls_target l, ls_status l)) ?ls) target = Some ''dismissed''"
    by (intro map_of_is_SomeI) (simp_all add: comp_def)
  then show ?thesis by (simp add: state_of_def learn_exclusions_def)
qed

lemma dismissed_not_suggested:
  assumes "dismissed account target d" "suggestions rnd s sv c def account d w = Some sgs" "sg \<in> set sgs"
  shows "su_Target sg \<noteq> target \<and> (\<forall>a\<in>set (learned_from sg). a \<noteq> target \<and>
    (\<forall>x\<in>set (sd_senders d). sn_address x = a \<and> distinct (map sn_address (sd_senders d)) \<longrightarrow> target \<noteq> CHR ''@'' # sn_domain x))"
proof -
  let ?ex = "learn_exclusions sv def account d"
  note st = dismissed_state [OF assms(1), of sv def]
  obtain kinds where k: "sg \<in> set (suggestions_from rnd c account kinds ?ex d)" using suggestionsD [OF assms(2,3)] by blast
  note f = suggestions_fromD [OF k]
  have q: "a \<noteq> target \<and> (\<forall>x\<in>set (sd_senders d). sn_address x = a \<and> distinct (map sn_address (sd_senders d)) \<longrightarrow> target \<noteq> CHR ''@'' # sn_domain x)"
    if a: "a \<in> set (learned_from sg)" for a
  proof -
    obtain t where t: "ta_address t = a" "qualifies rnd c account kinds ?ex d t" using f a by blast
    then obtain y where y: "y \<in> set (sd_senders d)" "t = tally_of account kinds d y" and ex: "\<not> is_excluded ?ex t"
      unfolding qualifies_def by blast
    have "state_of ?ex a \<noteq> ''dismissed''" "state_of ?ex (CHR ''@'' # sn_domain y) \<noteq> ''dismissed''"
      using ex t(1) y(2) by (auto simp: is_excluded_def)
    then have "a \<noteq> target" "target \<noteq> CHR ''@'' # sn_domain y" using st by auto
    moreover have "x = y" if "x \<in> set (sd_senders d)" "sn_address x = a" "distinct (map sn_address (sd_senders d))" for x
      using that y t(1) by (simp add: distinct_map inj_on_def)
    ultimately show ?thesis by blast
  qed
  moreover have "su_Target sg \<noteq> target"
  proof (cases "su_Kind sg = ''domain''")
    case True
    then obtain dmn ts where "su_Target sg = CHR ''@'' # dmn" "domain_rule_ok c ?ex dmn ts d" using f by blast
    then show ?thesis using st by (auto simp: domain_rule_ok_def)
  next
    case False
    then show ?thesis using q by (simp add: learned_from_def)
  qed
  ultimately show ?thesis by blast
qed

lemma upd_rows_keys: "(\<And>r. p r \<Longrightarrow> k (f r) = k r) \<Longrightarrow> map k (upd_rows p f rs) = map k rs"
  by (auto simp: upd_rows_def)

lemma upsert_keys:
  assumes "distinct (map k rs)" "\<And>x. p x \<longleftrightarrow> k x = k r" "\<And>x. p x \<Longrightarrow> k (f x) = k x"
  shows "distinct (map k (upsert p f r rs))"
proof (cases "list_ex p rs")
  case True
  have "map k (upd_rows p f rs) = map k rs" by (rule upd_rows_keys) (rule assms(3))
  with True assms(1) show ?thesis by (simp add: upsert_def)
next
  case False
  then have "k r \<notin> k ` set rs" using assms(2) by (auto simp: list_ex_iff)
  with False assms(1) show ?thesis by (simp add: upsert_def)
qed

lemma put_learn_dismissed:
  assumes "dismissed account target d" "ls_account r \<noteq> account \<or> ls_target r \<noteq> target"
  shows "dismissed account target (put_learn r d)"
proof -
  have "distinct (learn_keys (put_learn r d))"
    unfolding put_learn_def learn_keys_upd
    by (rule upsert_keys) (use assms(1) in \<open>auto simp: dismissed_def learn_keys_def\<close>)
  moreover obtain l where l: "l \<in> set (sd_learn d)" "ls_account l = account" "ls_target l = target" "ls_status l = ''dismissed''"
    using assms(1) by (auto simp: dismissed_def)
  then have "l \<in> set (sd_learn (put_learn r d))" using assms(2) by (force simp: put_learn_def upsert_def upd_rows_def)
  ultimately show ?thesis using l unfolding dismissed_def by blast
qed

lemma dismissed_same: "sd_learn d' = sd_learn d \<Longrightarrow> dismissed account target d' = dismissed account target d"
  by (simp add: dismissed_def learn_keys_def)

lemma CreateRule_learn: "sd_learn (snd (CreateRule r d)) = sd_learn d"
  by (simp add: CreateRule_def rules_create_def split: option.split)

lemma learn_one_dismissed:
  assumes "dismissed account target (snd st)" "account' \<noteq> account \<or> su_Target sg \<noteq> target"
  shows "dismissed account target (snd (learn_one mode account' sg st))"
proof -
  obtain o' d where st: "st = (o', d)" by (cases st)
  let ?c = "CreateRule ((su_Rule sg)\<lparr>r_Active := (mode = ''active'')\<rparr>) d"
  have d: "dismissed account target d" using assms(1) st by simp
  have d': "dismissed account target (snd ?c)" using dismissed_same [OF CreateRule_learn] d by blast
  show ?thesis using d d' assms(2)
    by (cases ?c; cases "fst ?c") (auto simp: learn_one_def st intro!: put_learn_dismissed)
qed

lemma learn_account_dismissed:
  assumes "dismissed account target (snd st)"
  shows "dismissed account target (snd (learn_account rnd s sv c def w account' st))"
proof (cases "suggestions rnd s sv c def account' (snd st) w")
  case None
  then show ?thesis using assms by (simp add: learn_account_def)
next
  case (Some sgs)
  have no: "account' \<noteq> account \<or> su_Target sg \<noteq> target" if "sg \<in> set sgs" for sg
    using dismissed_not_suggested [OF assms, of rnd s sv c def w sgs sg] Some that by auto
  have "dismissed account target (snd (fold (learn_one (ModeOrDefault c) account') sgs st))"
    using no assms
  proof (induction sgs arbitrary: st)
    case (Cons sg sgs)
    have "dismissed account target (snd (learn_one (ModeOrDefault c) account' sg st))"
      by (rule learn_one_dismissed) (use Cons.prems in simp_all)
    then show ?case using Cons by simp
  qed simp
  then obtain o' d where f: "fold (learn_one (ModeOrDefault c) account') sgs st = (o', d)" "dismissed account target d"
    by (cases "fold (learn_one (ModeOrDefault c) account') sgs st") simp
  let ?ls = "filter (\<lambda>l. \<not> (ls_account l = account' \<and> ls_status l = ''suggested'' \<and> ls_target l \<notin> set (map su_Target sgs))) (sd_learn d)"
  have "distinct (map (\<lambda>l. (ls_account l, ls_target l)) ?ls)"
    using f(2) by (auto simp: dismissed_def learn_keys_def intro: distinct_map_filter)
  then have "dismissed account target (d\<lparr>sd_learn := ?ls\<rparr>)" using f(2) by (auto simp: dismissed_def learn_keys_def)
  then show ?thesis by (simp add: learn_account_def Some f(1))
qed

text \<open>A dismissal stands: after it, and after any number of hourly passes in any mode, the target is
  dismissed still, and no suggestion for the account is about it, was learned from it or, when it is
  a domain, from an address at it.\<close>
theorem dismissal_stands:
  assumes "DismissSuggestion account target0 d = (True, d1)" "distinct (learn_keys d)"
    and "d2 = fold (\<lambda>(mode_cfg, accounts, w) x. snd (learn_run rnd s sv mode_cfg def accounts x w)) passes d1"
    and "suggestions rnd s sv c def account d2 w = Some sgs" "sg \<in> set sgs"
  shows "dismissed account (to_lower (trim_space target0)) d2 \<and> su_Target sg \<noteq> to_lower (trim_space target0) \<and>
    (\<forall>a\<in>set (learned_from sg). a \<noteq> to_lower (trim_space target0) \<and>
      (\<forall>x\<in>set (sd_senders d2). sn_address x = a \<and> distinct (map sn_address (sd_senders d2)) \<longrightarrow>
         to_lower (trim_space target0) \<noteq> CHR ''@'' # sn_domain x))"
proof -
  let ?t = "to_lower (trim_space target0)"
  let ?p = "\<lambda>l. ls_account l = account \<and> ls_target l = ?t" and ?f = "\<lambda>l. l\<lparr>ls_status := ''dismissed''\<rparr>"
  let ?r = "\<lparr>ls_account = account, ls_target = ?t, ls_status = ''dismissed'', ls_rule = None\<rparr>"
  have d1: "d1 = d\<lparr>sd_learn := upsert ?p ?f ?r (sd_learn d)\<rparr>"
    using assms(1) by (auto simp: DismissSuggestion_def Let_def split: if_splits)
  have "distinct (learn_keys d1)"
    unfolding d1 learn_keys_upd by (rule upsert_keys) (use assms(2) in \<open>auto simp: learn_keys_def\<close>)
  moreover have "\<exists>l\<in>set (sd_learn d1). ls_account l = account \<and> ls_target l = ?t \<and> ls_status l = ''dismissed''"
  proof (cases "list_ex ?p (sd_learn d)")
    case True
    then obtain l where "l \<in> set (sd_learn d)" "?p l" by (auto simp: list_ex_iff)
    then have "?f l \<in> set (sd_learn d1)" "?p (?f l)" using True by (force simp: d1 upsert_def upd_rows_def)+
    then show ?thesis by (intro bexI [of _ "?f l"]) simp_all
  next
    case False
    then show ?thesis by (simp add: d1 upsert_def)
  qed
  ultimately have "dismissed account ?t d1" by (simp add: dismissed_def)
  then have "dismissed account ?t d2"
    unfolding assms(3)
  proof (rule fold_preserves [where P = "dismissed account ?t", rotated])
    fix x :: "learn_cfg \<times> string list \<times> 'a" and y assume y: "dismissed account ?t y"
    obtain cf accounts w' where x: "x = (cf, accounts, w')" by (cases x)
    have "dismissed account ?t (y\<lparr>sd_rule_moves := ms\<rparr>)" for ms using y dismissed_same [of "y\<lparr>sd_rule_moves := ms\<rparr>" y] by simp
    then have "dismissed account ?t (snd (fold (learn_account rnd s sv cf def w') accounts (out, y\<lparr>sd_rule_moves := ms\<rparr>)))" for out ms
      by (intro fold_preserves [where P = "\<lambda>st. dismissed account ?t (snd st)"]) (simp_all add: learn_account_dismissed)
    then show "dismissed account ?t ((\<lambda>(cf, accounts, w) x. snd (learn_run rnd s sv cf def accounts x w)) x y)"
      using y by (simp add: x learn_run_def)
  qed
  with dismissed_not_suggested [OF this assms(4,5)] show ?thesis by blast
qed

section \<open>Mail moved by rules\<close>

lemma list_ex_upsert:
  assumes "\<And>x. p x \<Longrightarrow> q x = q r"
  shows "list_ex q (upsert p (\<lambda>_. r) r rs) \<longleftrightarrow> q r \<or> list_ex q rs"
  using assms by (auto simp: upsert_def upd_rows_def list_ex_iff)

lemma by_rule_record_move:
  "by_rule account k (record_rule_move hf account r mid d) \<longleftrightarrow>
     (msg_hash hf mid \<noteq> 0 \<and> k = msg_hash hf mid) \<or> by_rule account k d"
proof (cases "msg_hash hf mid = 0")
  case True
  then show ?thesis by (simp add: record_rule_move_def)
next
  case False
  let ?h = "msg_hash hf mid"
  let ?row = "\<lparr>rm_account = account, rm_hash = ?h, rm_rule = r_ID r,
      rm_dest = (case r_Actions r of [] \<Rightarrow> [] | a # _ \<Rightarrow> ra_Dest a), rm_moved_at = sd_now d\<rparr>"
  have "list_ex (\<lambda>m. rm_account m = account \<and> rm_hash m = k)
      (upsert (\<lambda>m. rm_account m = account \<and> rm_hash m = ?h) (\<lambda>_. ?row) ?row (sd_rule_moves d)) \<longleftrightarrow>
      (rm_account ?row = account \<and> rm_hash ?row = k) \<or> list_ex (\<lambda>m. rm_account m = account \<and> rm_hash m = k) (sd_rule_moves d)"
    by (rule list_ex_upsert) simp
  with False show ?thesis by (auto simp: record_rule_move_def Let_def by_rule_def)
qed

lemma record_moves_by_rule:
  assumes "mid \<in> set mids" "msg_hash hf mid \<noteq> 0"
  shows "by_rule account (msg_hash hf mid) (record_rule_moves hf account r mids d)"
  using assms unfolding record_rule_moves_def
proof (induction mids arbitrary: d)
  case (Cons m mids)
  show ?case
  proof (cases "m = mid")
    case True
    have "by_rule account (msg_hash hf mid) (fold (record_rule_move hf account r) mids x)"
      if "by_rule account (msg_hash hf mid) x" for x
      by (rule fold_preserves [where P = "by_rule account (msg_hash hf mid)"]) (simp_all add: by_rule_record_move that)
    then show ?thesis using Cons.prems(2) True by (simp add: by_rule_record_move)
  next
    case False
    then show ?thesis using Cons by simp
  qed
qed simp

lemma record_all_moves: "sd_rule_moves (record_all render g folder ks d) = sd_rule_moves d"
proof -
  have "sd_rule_moves (record_held render g folder h x) = sd_rule_moves x" for h x by (simp add: record_held_def)
  then show ?thesis unfolding record_all_def
    by (intro fold_preserves [where P = "\<lambda>x. sd_rule_moves x = sd_rule_moves d"]) simp_all
qed

text \<open>A message that a rule moved or trashed is never counted as the owner's own discard while the
  move is remembered, wherever the message is then found.\<close>
theorem rule_moves_never_count:
  assumes "act_on s sv r account folder g uids ks d w = (None, d', w')"
    and "list_ex (\<lambda>a. ra_Type a = ''trash'' \<or> ra_Type a = ''move'') (r_Actions r)"
  shows "\<exists>mids. ms_ids s account folder uids w = Some mids \<and>
    (\<forall>mid\<in>set mids. msg_hash (sv_hash sv) mid \<noteq> 0 \<longrightarrow>
      (\<forall>kinds x d2. sd_rule_moves d2 = sd_rule_moves d' \<longrightarrow> msg_hash (sv_hash sv) mid \<notin> im_hash ` set (own_discards account kinds x d2)))"
proof -
  obtain mids dest where m: "ms_ids s account folder uids w = Some mids"
    and d': "d' = (case g of None \<Rightarrow> record_rule_moves (sv_hash sv) account r mids d
      | Some g \<Rightarrow> record_all (sv_render sv) g dest ks (record_rule_moves (sv_hash sv) account r mids d))"
    using act_on_cases [OF assms(1)] assms(2) by (auto simp: Let_def)
  have mv: "sd_rule_moves d' = sd_rule_moves (record_rule_moves (sv_hash sv) account r mids d)"
    using d' by (cases g) (simp_all add: record_all_moves)
  have "msg_hash (sv_hash sv) mid \<notin> im_hash ` set (own_discards account kinds x d2)"
    if "mid \<in> set mids" "msg_hash (sv_hash sv) mid \<noteq> 0" "sd_rule_moves d2 = sd_rule_moves d'" for mid kinds x d2
  proof -
    have "by_rule account (msg_hash (sv_hash sv) mid) d2"
      using record_moves_by_rule [OF that(1,2), of account r d] that(3) mv by (simp add: by_rule_def)
    then show ?thesis by (auto simp: own_discards_def)
  qed
  with m show ?thesis by blast
qed

section \<open>Collisions\<close>

text \<open>A learned rule's name holds its target but not its account: when a rule of that name exists -
  for the same sender in another account, say - every hourly pass fails to create it, reports the
  error and changes nothing, so it fails again the next hour.\<close>
theorem learned_name_clash:
  assumes "su_Status sg = ''new''" "mode \<noteq> ''suggest''" "x \<in> set (sd_rules d)" "r_Name x = r_Name (su_Rule sg)"
  shows "learn_one mode account sg (o', d) = (o'\<lparr>lo_errors := lo_errors o' @ [(account, su_Target sg)]\<rparr>, d)"
proof -
  have "\<exists>e. CreateRule ((su_Rule sg)\<lparr>r_Active := (mode = ''active'')\<rparr>) d = (Inl e, d)"
    using assms(3,4) by (auto simp: CreateRule_def rules_create_def list_ex_iff split: option.split)
  then obtain e where "CreateRule ((su_Rule sg)\<lparr>r_Active := (mode = ''active'')\<rparr>) d = (Inl e, d)" by blast
  then show ?thesis using assms(1,2) by (simp add: learn_one_def)
qed

section \<open>Concrete runs\<close>

definition learn_server :: "nat mail_server" where
  "learn_server = sample_server\<lparr>ms_list := (\<lambda>a w. Some [(''INBOX'', []), (''Trash'', [])])\<rparr>"

definition learn_defaults :: learn_cfg where
  "learn_defaults = \<lparr>lc_Mode = [], lc_Ratio = 0, lc_MinDiscards = 0, lc_DomainMinAddresses = 0, lc_DiscardFolders = []\<rparr>"

definition sample_row :: "int \<Rightarrow> int \<Rightarrow> intel_row" where
  "sample_row i k = \<lparr>im_account = ''a'', im_hash = k, im_date = 0, im_sender = Some i, im_outgoing = False, im_reply = None,
     im_paired = False, im_folder = Some ''Trash''\<rparr>"

text \<open>Two senders at corp.org, three discards each; the owner has a confirmed address there.\<close>

definition sample_discards :: state_db where
  "sample_discards = empty_state\<lparr>sd_senders := [new_sender_row 1 ''ads@corp.org'' ''corp.org'', new_sender_row 2 ''news@corp.org'' ''corp.org''],
     sd_index := [sample_row 1 11, sample_row 1 12, sample_row 1 13, sample_row 2 21, sample_row 2 22, sample_row 2 23],
     sd_identities := [(''owner@corp.org'', ''confirmed'')]\<rparr>"

lemma sample_suggestions:
  "\<exists>sg. suggestions id learn_server sample_service learn_defaults ''a'' ''a'' sample_discards 0 = Some [sg] \<and>
     su_Kind sg = ''domain'' \<and> su_Target sg = ''@corp.org'' \<and> su_Action sg = ''trash'' \<and> su_Addresses sg = [''ads@corp.org'', ''news@corp.org'']"
proof -
  let ?r = "suggestions id learn_server sample_service learn_defaults ''a'' ''a'' sample_discards 0"
  have "map_option (map (\<lambda>sg. (su_Kind sg, su_Target sg, su_Action sg, su_Addresses sg))) ?r =
      Some [(''domain'', ''@corp.org'', ''trash'', [''ads@corp.org'', ''news@corp.org''])]" by code_simp
  then obtain sgs where "?r = Some sgs" "map (\<lambda>sg. (su_Kind sg, su_Target sg, su_Action sg, su_Addresses sg)) sgs =
      [(''domain'', ''@corp.org'', ''trash'', [''ads@corp.org'', ''news@corp.org''])]" by (cases ?r) auto
  then show ?thesis by (cases sgs) auto
qed

text \<open>A suggested domain rule can reach the owner: the domain is checked for correspondents and
  trusted senders and the owner's login domains only, so a rule is suggested (and in the modes
  inactive and active created) that trashes mail from a confirmed address of the owner.\<close>
theorem domain_rule_may_reach_owner:
  "\<exists>s sv c d w sgs sg. suggestions id (s :: nat mail_server) sv c ''a'' ''a'' d w = Some sgs \<and> sg \<in> set sgs \<and>
     su_Kind sg = ''domain'' \<and> su_Action sg = ''trash'' \<and> (\<exists>a. me_has (me_set sv d) a \<and> su_Target sg = CHR ''@'' # domainOf a)"
proof -
  obtain sg where sg: "suggestions id learn_server sample_service learn_defaults ''a'' ''a'' sample_discards 0 = Some [sg]"
    "su_Kind sg = ''domain''" "su_Action sg = ''trash''" "su_Target sg = ''@corp.org''" using sample_suggestions by blast
  have "me_has (me_set sample_service sample_discards) ''owner@corp.org'' \<and> ''@corp.org'' = CHR ''@'' # domainOf ''owner@corp.org''"
    by code_simp
  with sg show ?thesis by (metis list.set_intros(1))
qed

theorem suggestions_spare_contacts_witness:
  "\<exists>sg. suggestions id learn_server sample_service learn_defaults ''a'' ''a'' sample_discards 0 = Some [sg] \<and>
     (\<forall>a\<in>set (su_Addresses sg). \<exists>x\<in>set (sd_senders sample_discards). sn_address x = a \<and> sn_sent x = 0) \<and> su_Addresses sg \<noteq> []"
proof -
  obtain sg where sg: "suggestions id learn_server sample_service learn_defaults ''a'' ''a'' sample_discards 0 = Some [sg]"
    "su_Kind sg = ''domain''" "su_Addresses sg = [''ads@corp.org'', ''news@corp.org'']" using sample_suggestions by blast
  then show ?thesis using suggestions_spare_contacts [OF sg(1) list.set_intros(1)] by (auto simp: learned_from_def)
qed

theorem dismissal_stands_witness:
  "\<exists>d1 sg. DismissSuggestion ''a'' '' X@y.org'' sample_discards = (True, d1) \<and>
     dismissed ''a'' ''x@y.org'' (snd (learn_run id learn_server sample_service learn_defaults ''a'' [''a''] d1 0)) \<and>
     suggestions id learn_server sample_service learn_defaults ''a'' ''a'' (snd (learn_run id learn_server sample_service learn_defaults ''a'' [''a''] d1 0)) 0 = Some [sg]"
proof -
  have t: "to_lower (trim_space '' X@y.org'') = ''x@y.org''" "distinct (learn_keys sample_discards)" by code_simp+
  have "fst (DismissSuggestion ''a'' '' X@y.org'' sample_discards)" by code_simp
  then obtain d1 where d1: "DismissSuggestion ''a'' '' X@y.org'' sample_discards = (True, d1)"
    by (cases "DismissSuggestion ''a'' '' X@y.org'' sample_discards") simp
  let ?d2 = "snd (learn_run id learn_server sample_service learn_defaults ''a'' [''a''] d1 0)"
  have "map_option length (suggestions id learn_server sample_service learn_defaults ''a'' ''a''
      (snd (learn_run id learn_server sample_service learn_defaults ''a'' [''a''] (snd (DismissSuggestion ''a'' '' X@y.org'' sample_discards)) 0)) 0) = Some 1"
    by code_simp
  then have "map_option length (suggestions id learn_server sample_service learn_defaults ''a'' ''a'' ?d2 0) = Some 1" using d1 by simp
  then obtain sg where sg: "suggestions id learn_server sample_service learn_defaults ''a'' ''a'' ?d2 0 = Some [sg]"
    by (cases "suggestions id learn_server sample_service learn_defaults ''a'' ''a'' ?d2 0") (auto simp: length_Suc_conv)
  have run: "?d2 = fold (\<lambda>(mode_cfg, accounts, w) x. snd (learn_run id learn_server sample_service mode_cfg ''a'' accounts x w))
      [(learn_defaults, [''a''], 0)] d1" by simp
  from dismissal_stands [OF d1 t(2) run sg list.set_intros(1)] show ?thesis using d1 sg t(1) by auto
qed

theorem rule_moves_never_count_witness:
  "\<exists>d'. act_on sample_server sample_service hold_rule ''a'' ''INBOX'' None [7] [] sample_discards 0 = (None, d', 1) \<and>
     (\<forall>kinds x. sample_hash ''m1'' \<notin> im_hash ` set (own_discards ''a'' kinds x d'))"
proof -
  let ?r = "act_on sample_server sample_service hold_rule ''a'' ''INBOX'' None [7] [] sample_discards 0"
  have "fst ?r = None \<and> snd (snd ?r) = 1" by code_simp
  then obtain d' where r: "?r = (None, d', 1)" by (metis prod.collapse)
  have m: "list_ex (\<lambda>a. ra_Type a = ''trash'' \<or> ra_Type a = ''move'') (r_Actions hold_rule)"
    "ms_ids sample_server ''a'' ''INBOX'' [7] 0 = Some [''m1'']"
    "msg_hash sample_hash ''m1'' = sample_hash ''m1''" "sample_hash ''m1'' \<noteq> 0" by code_simp+
  have h: "sv_hash sample_service = sample_hash" by (simp add: sample_service_def)
  from rule_moves_never_count [OF r m(1)] m h r show ?thesis by auto
qed

theorem learned_name_clash_witness:
  "\<exists>sg d. suggestions id learn_server sample_service learn_defaults ''a'' ''b'' sample_discards 0 = Some [] \<and>
     learn_one ''active'' ''b'' sg (\<lparr>lo_errors = [], lo_fresh = []\<rparr>, d) = (\<lparr>lo_errors = [(''b'', ''@corp.org'')], lo_fresh = []\<rparr>, d)"
proof -
  obtain sg where sg: "suggestions id learn_server sample_service learn_defaults ''a'' ''a'' sample_discards 0 = Some [sg]"
    "su_Target sg = ''@corp.org''" using sample_suggestions by blast
  have st: "map_option (map su_Status) (suggestions id learn_server sample_service learn_defaults ''a'' ''a'' sample_discards 0) = Some [''new'']"
    by code_simp
  let ?d = "sample_discards\<lparr>sd_rules := [su_Rule sg]\<rparr>"
  have "su_Status sg = ''new''" using st sg(1) by simp
  then have "learn_one ''active'' ''b'' sg (\<lparr>lo_errors = [], lo_fresh = []\<rparr>, ?d) = (\<lparr>lo_errors = [(''b'', ''@corp.org'')], lo_fresh = []\<rparr>, ?d)"
    using learned_name_clash [of sg "''active''" "su_Rule sg" ?d "''b''" "\<lparr>lo_errors = [], lo_fresh = []\<rparr>"] sg(2) by simp
  moreover have "suggestions id learn_server sample_service learn_defaults ''a'' ''b'' sample_discards 0 = Some []" by code_simp
  ultimately show ?thesis by blast
qed

end
