(* ===== verification/Screener.thy ===== *)
theory Screener
  imports Learn
begin

text \<open>
  The screener (\<open>internal/service/screener.go\<close>): the senders with held mail, previewing and applying
  decisions about them, and the commands of an email reply. \<open>net/mail.ParseAddress\<close> is the parameter
  \<open>pa\<close>. The match counts of the preview are left out; the folders of the held mail, which the code
  visits in the order of a map, are visited in the order of their first message.
\<close>

section \<open>Held senders\<close>

definition undecided :: "held_row \<Rightarrow> bool" where
  "undecided h = (hm_released_at h = None \<and> hm_decision h = None)"

record held_sender =
  hs_Number :: nat
  hs_Account :: string
  hs_Sender :: string
  hs_Messages :: nat
  hs_Folder :: string
  hs_Reasons :: string
  hs_Subjects :: "string list"
  hs_HeldAt :: int

definition add_subject :: "string \<Rightarrow> string list \<Rightarrow> string list" where
  "add_subject s ss = (if length ss < 3 \<and> s \<noteq> [] then ss @ [s] else ss)"

fun add_held :: "held_row \<Rightarrow> held_sender list \<Rightarrow> held_sender list" where
  "add_held r [] = [\<lparr>hs_Number = 0, hs_Account = hm_account r, hs_Sender = to_lower (hm_sender r), hs_Messages = 1,
     hs_Folder = hm_folder r, hs_Reasons = hm_reasons r, hs_Subjects = add_subject (hm_subject r) [], hs_HeldAt = hm_held_at r\<rparr>]"
| "add_held r (h # hs) =
     (if hs_Account h = hm_account r \<and> hs_Sender h = to_lower (hm_sender r)
      then h\<lparr>hs_Messages := hs_Messages h + 1, hs_HeldAt := hm_held_at r, hs_Subjects := add_subject (hm_subject r) (hs_Subjects h)\<rparr> # hs
      else h # add_held r hs)"

text \<open>Numbers count within an account.\<close>

fun number_held :: "held_sender list \<Rightarrow> held_sender list \<Rightarrow> held_sender list" where
  "number_held before [] = []"
| "number_held before (h # hs) =
     (h\<lparr>hs_Number := length (filter (\<lambda>b. hs_Account b = hs_Account h) before) + 1\<rparr>) # number_held (before @ [h]) hs"

definition HeldSenders :: "string \<Rightarrow> state_db \<Rightarrow> held_sender list" where
  "HeldSenders acct d =
     number_held [] (fold add_held (sort_key hm_account (sort_key hm_held_at
       (filter (\<lambda>h. undecided h \<and> (acct = [] \<or> hm_account h = acct) \<and> hm_sender h \<noteq> []) (sd_held d)))) [])"

definition held_of :: "string \<Rightarrow> string \<Rightarrow> state_db \<Rightarrow> held_row list" where
  "held_of account sender d = filter (\<lambda>h. hm_account h = account \<and> to_lower (hm_sender h) = sender \<and> undecided h) (sd_held d)"

section \<open>Decisions\<close>

record screen_decision =
  de_Sender :: string
  de_Action :: string
  de_Dest :: string

record screen_cfg =
  sk_Feed :: string
  sk_Receipts :: string
  sk_RulesActive :: bool

definition Feed :: "screen_cfg \<Rightarrow> string" where
  "Feed c = (if sk_Feed c \<noteq> [] then sk_Feed c else ''Feed'')"

definition Receipts :: "screen_cfg \<Rightarrow> string" where
  "Receipts c = (if sk_Receipts c \<noteq> [] then sk_Receipts c else ''Receipts'')"

record screen_rule =
  sr_ID :: int
  sr_From :: string
  sr_Action :: string
  sr_Dest :: string
  sr_Active :: bool

datatype screen_error = NoHeldMail | EnsureFailed | MoveHeldFailed | RuleFailed rule_error
datatype screen_refusal = NoDecisions | NoSuchAccount | BadDest string | BadAction string | TrashMissing

record outcome =
  oc_Sender :: string
  oc_Action :: string
  oc_Dest :: string
  oc_Folder :: string
  oc_Messages :: nat
  oc_Moved :: nat
  oc_Trusted :: bool
  oc_Rule :: "screen_rule option"
  oc_Error :: "screen_error option"

text \<open>The mail server with the further calls of the screener.\<close>

record 'm screen_server = "'m mail_server" +
  ss_find_id :: "string \<Rightarrow> string \<Rightarrow> string \<Rightarrow> 'm \<Rightarrow> nat list option"
  ss_create :: "string \<Rightarrow> string \<Rightarrow> 'm \<Rightarrow> bool \<times> 'm"

definition normalize_decision :: "(string \<Rightarrow> string option) \<Rightarrow> screen_decision \<Rightarrow> screen_refusal + screen_decision" where
  "normalize_decision pa x =
     (let a = to_lower (trim_space (de_Action x)); dst = to_lower (trim_space (de_Dest x));
          sndr = (case pa (de_Sender x) of Some y \<Rightarrow> to_lower y | None \<Rightarrow> to_lower (trim_space (de_Sender x)));
          dst' = (if dst = [] then ''inbox'' else dst) in
      if a = ''approve'' then
        (if dst' \<noteq> ''inbox'' \<and> dst' \<noteq> ''feed'' \<and> dst' \<noteq> ''receipts'' then Inl (BadDest dst')
         else Inr \<lparr>de_Sender = sndr, de_Action = a, de_Dest = dst'\<rparr>)
      else if a = ''block'' then Inr \<lparr>de_Sender = sndr, de_Action = a, de_Dest = []\<rparr>
      else Inl (BadAction a))"

fun normalize_all :: "(string \<Rightarrow> string option) \<Rightarrow> screen_decision list \<Rightarrow> screen_refusal + screen_decision list" where
  "normalize_all pa [] = Inr []"
| "normalize_all pa (x # xs) =
     (case normalize_decision pa x of
        Inl e \<Rightarrow> Inl e
      | Inr y \<Rightarrow> (case normalize_all pa xs of Inl e \<Rightarrow> Inl e | Inr ys \<Rightarrow> Inr (y # ys)))"

definition blockTarget :: "service \<Rightarrow> string \<Rightarrow> state_db \<Rightarrow> string" where
  "blockTarget sv sender d =
     (let dmn = domainOf sender in
      if dmn = [] \<or> dmn \<in> set freemailDomains then sender
      else if list_ex (\<lambda>s. sn_domain s = dmn \<and> sn_address s \<noteq> sender \<and>
             (sn_sent s > 0 \<or> sn_reply_count s > 0 \<or> sn_trusted s \<or> sn_role s = ''self'')) (sd_senders d) \<or>
           me_has (me_set sv d) sender then sender
      else dmn)"

section \<open>Applying a decision\<close>

definition ensure_folder :: "'m screen_server \<Rightarrow> string \<Rightarrow> string \<Rightarrow> 'm \<Rightarrow> bool \<times> 'm" where
  "ensure_folder s account folder w =
     (case ms_list (mail_server.truncate s) account w of
        None \<Rightarrow> (False, w)
      | Some fs \<Rightarrow> if list_ex (\<lambda>(n, _). equal_fold n folder) fs then (True, w) else ss_create s account folder w)"

text \<open>The messages by Message-ID; \<open>None\<close> is a failed search.\<close>

fun find_held :: "'m screen_server \<Rightarrow> string \<Rightarrow> string \<Rightarrow> held_row list \<Rightarrow> 'm \<Rightarrow> nat list option" where
  "find_held s account folder [] w = Some []"
| "find_held s account folder (h # hs) w =
     (if hm_ref h = [] then find_held s account folder hs w
      else (let i = (if has_prefix (hm_ref h) ''<'' then hm_ref h else CHR ''<'' # hm_ref h @ ''>'') in
        case ss_find_id s account folder i w of
          None \<Rightarrow> None
        | Some us \<Rightarrow> map_option (\<lambda>vs. us @ vs) (find_held s account folder hs w)))"

definition moveByMessageID ::
  "'m screen_server \<Rightarrow> string \<Rightarrow> string \<Rightarrow> string \<Rightarrow> held_row list \<Rightarrow> 'm \<Rightarrow> nat option \<times> 'm" where
  "moveByMessageID s account folder dest hs w =
     (if \<not> ms_select (mail_server.truncate s) account folder w then (Some 0, w)
      else (case find_held s account folder hs w of
          None \<Rightarrow> (None, w)
        | Some us \<Rightarrow>
            (if us = [] then (Some 0, w)
             else (case ms_move (mail_server.truncate s) account folder us dest w of
                 (True, w') \<Rightarrow> (Some (length us), w')
               | (False, w') \<Rightarrow> (None, w')))))"

text \<open>The number moved and whether every folder went well.\<close>

fun move_folders ::
  "'m screen_server \<Rightarrow> string \<Rightarrow> string \<Rightarrow> held_row list \<Rightarrow> string list \<Rightarrow> 'm \<Rightarrow> nat \<times> bool \<times> 'm" where
  "move_folders s account dest hs [] w = (0, True, w)"
| "move_folders s account dest hs (f # fs) w =
     (if f = [] \<or> equal_fold f dest then move_folders s account dest hs fs w
      else (case moveByMessageID s account f dest (filter (\<lambda>h. hm_folder h = f) hs) w of
          (None, w') \<Rightarrow> (0, False, w')
        | (Some n, w') \<Rightarrow> (case move_folders s account dest hs fs w' of (m, b, w2) \<Rightarrow> (n + m, b, w2))))"

definition decision_text :: "screen_decision \<Rightarrow> string" where
  "decision_text x = (if de_Action x = ''approve'' then ''approve:'' @ de_Dest x else ''block'')"

definition decide_held :: "string \<Rightarrow> screen_decision \<Rightarrow> held_row list \<Rightarrow> state_db \<Rightarrow> state_db" where
  "decide_held account x hs d =
     d\<lparr>sd_held := upd_rows (\<lambda>r. hm_account r = account \<and> hm_hash r \<in> hm_hash ` set hs)
        (\<lambda>r. if de_Action x = ''approve'' then r\<lparr>hm_decision := Some (decision_text x), hm_released_at := Some (sd_now d)\<rparr>
             else r\<lparr>hm_decision := Some (decision_text x)\<rparr>) (sd_held d)\<rparr>"

definition screen_rule_row :: "string \<Rightarrow> screen_decision \<Rightarrow> screen_rule \<Rightarrow> rule" where
  "screen_rule_row account x r =
     \<lparr>r_ID = 0, r_Name = ''screener: '' @ de_Action x @ '' '' @ sr_From r, r_Description = ''Created by the screener (Q5)'',
      r_Conditions = \<lparr>rc_Account = account, rc_Folder = [], rc_From = sr_From r, rc_Subject = [], rc_Text = [],
        rc_OlderThanDays = 0, rc_NewSender = False, rc_NewSenderDays = 0\<rparr>,
      r_Actions = (if sr_Action r = ''trash'' then [\<lparr>ra_Type = ''trash'', ra_Dest = [], ra_Flags = []\<rparr>]
                   else [\<lparr>ra_Type = ''move'', ra_Dest = sr_Dest r, ra_Flags = []\<rparr>]),
      r_Active = sr_Active r, r_Priority = 0, r_RunCount = 0\<rparr>"

definition log_decision :: "string \<Rightarrow> screen_decision \<Rightarrow> outcome \<Rightarrow> string \<Rightarrow> state_db \<Rightarrow> state_db" where
  "log_decision account x oc via d =
     d\<lparr>sd_decisions := sd_decisions d @ [\<lparr>dc_account = account, dc_sender = de_Sender x, dc_action = de_Action x, dc_dest = de_Dest x,
        dc_target = (case oc_Rule oc of None \<Rightarrow> [] | Some r \<Rightarrow> sr_From r), dc_rule = (case oc_Rule oc of None \<Rightarrow> 0 | Some r \<Rightarrow> sr_ID r),
        dc_moved = int (oc_Moved oc), dc_via = via, dc_created = sd_now d\<rparr>]\<rparr>"

definition applyScreen ::
  "'m screen_server \<Rightarrow> string \<Rightarrow> screen_decision \<Rightarrow> outcome \<Rightarrow> held_row list \<Rightarrow> string \<Rightarrow> state_db \<Rightarrow> 'm \<Rightarrow> outcome \<times> state_db \<times> 'm" where
  "applyScreen s account x oc hs via d w =
     (case (if de_Action x = ''approve'' \<and> de_Dest x \<noteq> ''inbox'' then ensure_folder s account (oc_Folder oc) w else (True, w)) of
        (False, w1) \<Rightarrow> (oc\<lparr>oc_Error := Some EnsureFailed\<rparr>, d, w1)
      | (True, w1) \<Rightarrow>
          (case move_folders s account (oc_Folder oc) hs (remdups (map hm_folder hs)) w1 of
             (n, False, w2) \<Rightarrow> (oc\<lparr>oc_Moved := n, oc_Error := Some MoveHeldFailed\<rparr>, d, w2)
           | (n, True, w2) \<Rightarrow>
               (let oc1 = oc\<lparr>oc_Moved := n\<rparr>; d1 = decide_held account x hs d;
                    d2 = (if de_Action x = ''approve'' then trust_sender (de_Sender x) d1 else d1) in
                case oc_Rule oc1 of
                  None \<Rightarrow> (oc1, log_decision account x oc1 via d2, w2)
                | Some r \<Rightarrow>
                    (case CreateRule (screen_rule_row account x r) d2 of
                       (Inl e, d3) \<Rightarrow> (oc1\<lparr>oc_Error := Some (RuleFailed e)\<rparr>, d3, w2)
                     | (Inr i, d3) \<Rightarrow> (let oc2 = oc1\<lparr>oc_Rule := Some (r\<lparr>sr_ID := i\<rparr>)\<rparr>
                                      in (oc2, log_decision account x oc2 via d3, w2))))))"

section \<open>Screen\<close>

text \<open>What a decision would do.\<close>

definition plan_decision :: "service \<Rightarrow> screen_cfg \<Rightarrow> string \<Rightarrow> screen_decision \<Rightarrow> nat \<Rightarrow> state_db \<Rightarrow> outcome" where
  "plan_decision sv c trash x n d =
     (let base = \<lparr>oc_Sender = de_Sender x, oc_Action = de_Action x, oc_Dest = de_Dest x, oc_Folder = [], oc_Messages = n,
                  oc_Moved = 0, oc_Trusted = False, oc_Rule = None, oc_Error = None\<rparr> in
      if n = 0 then base\<lparr>oc_Error := Some NoHeldMail\<rparr>
      else if de_Action x = ''approve'' then
        (let f = (if de_Dest x = ''inbox'' then ''INBOX'' else if de_Dest x = ''feed'' then Feed c else Receipts c) in
         base\<lparr>oc_Folder := f, oc_Trusted := True,
              oc_Rule := (if de_Dest x = ''inbox'' then None
                else Some \<lparr>sr_ID = 0, sr_From = de_Sender x, sr_Action = ''move'', sr_Dest = f, sr_Active = sk_RulesActive c\<rparr>)\<rparr>)
      else base\<lparr>oc_Folder := trash,
              oc_Rule := Some \<lparr>sr_ID = 0, sr_From = blockTarget sv (de_Sender x) d, sr_Action = ''trash'', sr_Dest = [],
                sr_Active = sk_RulesActive c\<rparr>\<rparr>)"

fun screen_each ::
  "'m screen_server \<Rightarrow> service \<Rightarrow> screen_cfg \<Rightarrow> string \<Rightarrow> string \<Rightarrow> bool \<Rightarrow> string \<Rightarrow> screen_decision list \<Rightarrow> state_db \<Rightarrow> 'm \<Rightarrow>
     outcome list \<times> state_db \<times> 'm" where
  "screen_each s sv c account trash go via [] d w = ([], d, w)"
| "screen_each s sv c account trash go via (x # xs) d w =
     (let hs = held_of account (de_Sender x) d; oc = plan_decision sv c trash x (length hs) d;
          (oc', d1, w1) = (if hs \<noteq> [] \<and> go then applyScreen s account x oc hs via d w else (oc, d, w));
          (ocs, d2, w2) = screen_each s sv c account trash go via xs d1 w1
      in (oc' # ocs, d2, w2))"

record screen_result =
  re_DryRun :: bool
  re_Outcomes :: "outcome list"
  re_Published :: "(nat \<times> nat \<times> nat) option"   \<comment> \<open>approved, blocked, moved\<close>

definition screen_event :: "outcome list \<Rightarrow> (nat \<times> nat \<times> nat) option" where
  "screen_event ocs =
     (let ok = (\<lambda>a. length (filter (\<lambda>oc. oc_Error oc = None \<and> oc_Action oc = a) ocs)) in
      if 0 < ok ''approve'' + ok ''block'' then Some (ok ''approve'', ok ''block'', sum_list (map oc_Moved ocs)) else None)"

definition Screen ::
  "(string \<Rightarrow> string option) \<Rightarrow> 'm screen_server \<Rightarrow> service \<Rightarrow> screen_cfg \<Rightarrow> string \<Rightarrow> bool \<Rightarrow> string \<Rightarrow> screen_decision list \<Rightarrow>
     state_db \<Rightarrow> 'm \<Rightarrow> (screen_refusal + screen_result) \<times> state_db \<times> 'm" where
  "Screen pa s sv c account0 go via xs d w =
     (if xs = [] then (Inl NoDecisions, d, w)
      else (case ms_resolve (mail_server.truncate s) (if account0 = ''_default'' then [] else account0) w of
        None \<Rightarrow> (Inl NoSuchAccount, d, w)
      | Some account \<Rightarrow>
          (case normalize_all pa xs of
             Inl e \<Rightarrow> (Inl e, d, w)
           | Inr ys \<Rightarrow>
               (let trash = (if go \<or> list_ex (\<lambda>y. de_Action y = ''block'') ys then ResolveTrash (mail_server.truncate s) account w else Some []) in
                case trash of
                  None \<Rightarrow> (Inl TrashMissing, d, w)
                | Some t \<Rightarrow>
                    (let (ocs, d', w') = screen_each s sv c account t go via ys d w in
                     (Inr \<lparr>re_DryRun = \<not> go, re_Outcomes = ocs, re_Published = (if go then screen_event ocs else None)\<rparr>, d', w'))))))"

section \<open>Commands of a reply\<close>

text \<open>\<open>strconv.Atoi\<close> on a word without sign; larger values are out of range of any list.\<close>

definition word_number :: "string \<Rightarrow> int option" where
  "word_number w =
     (let (neg, ds) = (case w of [] \<Rightarrow> (False, []) | c # cs \<Rightarrow> if c = CHR ''-'' then (True, cs) else if c = CHR ''+'' then (False, cs) else (False, w)) in
      if ds = [] \<or> \<not> list_all is_digit ds then None else Some (if neg then - digits_val 0 ds else digits_val 0 ds))"

definition part_number :: "nat \<Rightarrow> string \<Rightarrow> nat option" where
  "part_number n p = (case word_number p of Some k \<Rightarrow> if 1 \<le> k \<and> k \<le> int n then Some (nat k) else None | None \<Rightarrow> None)"

definition dest_word :: "string \<Rightarrow> bool" where
  "dest_word p \<longleftrightarrow> p = ''inbox'' \<or> p = ''feed'' \<or> p = ''receipts''"

fun read_part :: "bool \<Rightarrow> nat \<Rightarrow> string \<Rightarrow> nat list \<times> string \<times> bool \<Rightarrow> nat list \<times> string \<times> bool" where
  "read_part appr n p (nums, dst, ok) =
     (if p = [] then (nums, dst, ok)
      else (case part_number n p of
          Some k \<Rightarrow> (nums @ [k], dst, ok)
        | None \<Rightarrow> (if appr \<and> dst = [] \<and> dest_word p then (nums, p, ok) else (nums, dst, False))))"

definition read_parts :: "bool \<Rightarrow> nat \<Rightarrow> string list \<Rightarrow> nat list \<times> string \<times> bool \<Rightarrow> nat list \<times> string \<times> bool" where
  "read_parts appr n ps st = fold (read_part appr n) ps st"

text \<open>The decisions of one line, or \<open>None\<close> for a line that is no command.\<close>

definition line_decisions :: "string list \<Rightarrow> string \<Rightarrow> screen_decision list option" where
  "line_decisions numbering line =
     (case str_fields (to_lower line) of
        [] \<Rightarrow> None
      | cmd # ws \<Rightarrow>
          (if cmd = ''release'' then
             (if ws = [''all''] then Some (map (\<lambda>a. \<lparr>de_Sender = a, de_Action = ''approve'', de_Dest = ''inbox''\<rparr>) numbering) else None)
           else if cmd = ''approve'' \<or> cmd = ''block'' then
             (case read_parts (cmd = ''approve'') (length numbering) (concat (map (split_on (CHR '','')) ws)) ([], [], ws \<noteq> []) of
                (nums, dst, ok) \<Rightarrow>
                  (if ok \<and> nums \<noteq> [] then Some (map (\<lambda>k. \<lparr>de_Sender = numbering ! (k - 1), de_Action = cmd, de_Dest = dst\<rparr>) nums) else None))
           else None))"

definition add_decision :: "screen_decision \<Rightarrow> screen_decision list \<Rightarrow> screen_decision list" where
  "add_decision x xs = (if de_Sender x \<in> set (map de_Sender xs) then xs else xs @ [x])"

definition ends_commands :: "string \<Rightarrow> bool" where
  "ends_commands line = (has_prefix line ''--'' \<or> (has_prefix (to_lower line) ''on '' \<and> has_suffix line ''wrote:''))"

fun parse_lines :: "string list \<Rightarrow> string list \<Rightarrow> screen_decision list \<times> string list \<Rightarrow> screen_decision list \<times> string list" where
  "parse_lines numbering [] st = st"
| "parse_lines numbering (l0 # ls) (out, bad) =
     (let line = trim_space l0 in
      if line = [] \<or> has_prefix line ''>'' then parse_lines numbering ls (out, bad)
      else if ends_commands line then (out, bad)
      else (case line_decisions numbering line of
          Some xs \<Rightarrow> parse_lines numbering ls (fold add_decision xs out, bad)
        | None \<Rightarrow> parse_lines numbering ls (out, if length bad < 10 then bad @ [line] else bad)))"

definition ParseScreenCommands :: "string \<Rightarrow> string list \<Rightarrow> screen_decision list \<times> string list" where
  "ParseScreenCommands text numbering =
     parse_lines numbering (split_on newline_char (filter (\<lambda>c. c \<noteq> CHR 0x0D) text)) ([], [])"

end
