(* ===== verification/Screener_Props.thy ===== *)
theory Screener_Props
  imports Screener Rules_Props
begin

text \<open>
  What the screener promises: the commands of a reply only decide about senders the digest listed, a
  preview changes nothing, an applied decision settles its sender - and what happens when two senders
  of one domain are blocked.
\<close>

section \<open>Commands of a reply\<close>

definition command_ok :: "string list \<Rightarrow> screen_decision \<Rightarrow> bool" where
  "command_ok numbering x \<longleftrightarrow> de_Sender x \<in> set numbering \<and>
     (de_Action x = ''approve'' \<and> (de_Dest x = [] \<or> dest_word (de_Dest x)) \<or> de_Action x = ''block'' \<and> de_Dest x = [])"

fun parts_ok :: "bool \<Rightarrow> nat \<Rightarrow> nat list \<times> string \<times> bool \<Rightarrow> bool" where
  "parts_ok appr n (nums, dst, ok) \<longleftrightarrow> (\<forall>k\<in>set nums. 1 \<le> k \<and> k \<le> n) \<and> (dst = [] \<or> appr \<and> dest_word dst)"

lemma read_part_ok: "parts_ok appr n st \<Longrightarrow> parts_ok appr n (read_part appr n p st)"
  by (cases st; cases "part_number n p") (auto simp: part_number_def split: option.splits if_splits)

lemma read_parts_ok: "parts_ok appr n st \<Longrightarrow> parts_ok appr n (read_parts appr n ps st)"
  unfolding read_parts_def by (rule fold_preserves [where P = "parts_ok appr n"]) (rule read_part_ok)

lemma line_decisions_ok:
  assumes "line_decisions numbering line = Some xs" "x \<in> set xs"
  shows "command_ok numbering x"
proof -
  obtain cmd ws where f: "str_fields (to_lower line) = cmd # ws"
    using assms(1) by (auto simp: line_decisions_def split: list.splits)
  show ?thesis
  proof (cases "cmd = ''release''")
    case True
    then show ?thesis using assms f by (auto simp: line_decisions_def command_ok_def dest_word_def split: if_splits)
  next
    case False
    obtain nums dst ok where r: "read_parts (cmd = ''approve'') (length numbering) (concat (map (split_on (CHR '','')) ws)) ([], [], ws \<noteq> []) =
      (nums, dst, ok)" by (cases "read_parts (cmd = ''approve'') (length numbering) (concat (map (split_on (CHR '','')) ws)) ([], [], ws \<noteq> [])")
    have "parts_ok (cmd = ''approve'') (length numbering) (nums, dst, ok)"
      unfolding r [symmetric] by (rule read_parts_ok) simp
    then have p: "\<forall>k\<in>set nums. 1 \<le> k \<and> k \<le> length numbering" "dst = [] \<or> cmd = ''approve'' \<and> dest_word dst"
      by simp_all
    have c: "cmd = ''approve'' \<or> cmd = ''block''" and xs: "xs = map (\<lambda>k. \<lparr>de_Sender = numbering ! (k - 1), de_Action = cmd, de_Dest = dst\<rparr>) nums"
      using assms(1) f r False by (auto simp: line_decisions_def split: if_splits)
    obtain k where k: "k \<in> set nums" "x = \<lparr>de_Sender = numbering ! (k - 1), de_Action = cmd, de_Dest = dst\<rparr>" using xs assms(2) by auto
    then have "k - 1 < length numbering" using p(1) by fastforce
    then show ?thesis using k(2) p(2) c by (auto simp: command_ok_def)
  qed
qed

definition commands_ok :: "string list \<Rightarrow> screen_decision list \<times> string list \<Rightarrow> bool" where
  "commands_ok numbering st \<longleftrightarrow>
     distinct (map de_Sender (fst st)) \<and> list_all (command_ok numbering) (fst st) \<and> length (snd st) \<le> 10"

lemma add_decisions_ok:
  "list_all (command_ok numbering) xs \<Longrightarrow> commands_ok numbering (out, bad) \<Longrightarrow> commands_ok numbering (fold add_decision xs out, bad)"
proof (induction xs arbitrary: out)
  case (Cons x xs)
  then have "commands_ok numbering (add_decision x out, bad)" by (auto simp: commands_ok_def add_decision_def)
  then show ?case using Cons by simp
qed simp

lemma parse_lines_ok: "commands_ok numbering st \<Longrightarrow> commands_ok numbering (parse_lines numbering ls st)"
proof (induction numbering ls st rule: parse_lines.induct)
  case (2 numbering l0 ls out bad)
  show ?case
  proof (cases "line_decisions numbering (trim_space l0)")
    case None
    have "commands_ok numbering (out, if length bad < 10 then bad @ [trim_space l0] else bad)"
      using "2.prems" by (simp add: commands_ok_def)
    then show ?thesis using 2 None by (simp add: Let_def del: split_paired_All)
  next
    case (Some xs)
    have "commands_ok numbering (fold add_decision xs out, bad)"
      using line_decisions_ok [OF Some] "2.prems" by (intro add_decisions_ok) (auto simp: list_all_iff)
    then show ?thesis using 2 Some by (simp add: Let_def)
  qed
qed simp

text \<open>Whatever an email reply says, the decisions read from it are about senders the digest listed, at
  most one for each, are approvals to the inbox, the feed or the receipts folder or blocks without a
  destination; and at most ten lines are reported as unreadable.\<close>
theorem reply_decides_listed_senders_once:
  "distinct (map de_Sender (fst (ParseScreenCommands text numbering))) \<and>
   list_all (\<lambda>x. de_Sender x \<in> set numbering \<and>
     (de_Action x = ''approve'' \<and> (de_Dest x = [] \<or> dest_word (de_Dest x)) \<or> de_Action x = ''block'' \<and> de_Dest x = []))
     (fst (ParseScreenCommands text numbering)) \<and>
   length (snd (ParseScreenCommands text numbering)) \<le> 10"
proof -
  have "commands_ok numbering (ParseScreenCommands text numbering)"
    unfolding ParseScreenCommands_def by (rule parse_lines_ok) (simp add: commands_ok_def)
  then show ?thesis unfolding commands_ok_def command_ok_def [abs_def] by simp
qed

section \<open>Previews\<close>

lemma screen_each_preview: "snd (screen_each s sv c account trash False via xs d w) = (d, w)"
  by (induction xs) (auto simp: Let_def split: prod.splits)

text \<open>Without the confirmation the screener changes neither the database nor the mailbox and announces
  nothing, whatever the decisions.\<close>
theorem preview_changes_nothing:
  "snd (Screen pa s sv c account False via xs d w) = (d, w) \<and>
   (case fst (Screen pa s sv c account False via xs d w) of Inl e \<Rightarrow> True | Inr r \<Rightarrow> re_DryRun r \<and> re_Published r = None)"
proof -
  have e: "screen_each s sv c a t False via ys d w = (fst (screen_each s sv c a t False via ys d w), d, w)" for a t ys
    using screen_each_preview [of s sv c a t via ys d w] by (metis prod.collapse)
  show ?thesis unfolding Screen_def Let_def
    by (subst e, subst e) (simp split: option.split sum.split)
qed

section \<open>Applied decisions\<close>

lemma held_of_empty: "held_of account a d = [] \<longleftrightarrow>
    (\<forall>r\<in>set (sd_held d). hm_account r = account \<and> to_lower (hm_sender r) = a \<longrightarrow> \<not> undecided r)"
  by (auto simp: held_of_def filter_empty_conv)

text \<open>A row of \<open>decide_held\<close> is decided or unchanged.\<close>

lemma decide_held_row:
  assumes "r \<in> set (sd_held (decide_held account x hs d))" "undecided r"
  shows "r \<in> set (sd_held d) \<and> \<not> (hm_account r = account \<and> hm_hash r \<in> hm_hash ` set hs)"
proof -
  obtain q where q: "q \<in> set (sd_held d)"
    and r: "r = (if hm_account q = account \<and> hm_hash q \<in> hm_hash ` set hs
      then (if de_Action x = ''approve'' then q\<lparr>hm_decision := Some (decision_text x), hm_released_at := Some (sd_now d)\<rparr>
            else q\<lparr>hm_decision := Some (decision_text x)\<rparr>) else q)"
    using assms(1) by (auto simp: decide_held_def upd_rows_def simp del: if_image_distrib)
  show ?thesis
  proof (cases "hm_account q = account \<and> hm_hash q \<in> hm_hash ` set hs")
    case True
    then show ?thesis using assms(2) r by (cases "de_Action x = ''approve''") (simp_all add: undecided_def)
  next
    case False
    then show ?thesis using q r by simp
  qed
qed

lemma held_of_decide:
  "held_of account (de_Sender x) (decide_held account x (held_of account (de_Sender x) d) d) = []"
  unfolding held_of_empty
proof (intro ballI impI notI)
  fix r assume r: "r \<in> set (sd_held (decide_held account x (held_of account (de_Sender x) d) d))"
    and m: "hm_account r = account \<and> to_lower (hm_sender r) = de_Sender x" and u: "undecided r"
  then have "r \<in> set (held_of account (de_Sender x) d)"
    using decide_held_row [OF r u] by (simp add: held_of_def)
  then show False using decide_held_row [OF r u] m by blast
qed

lemma held_of_decide_mono: "held_of account a d = [] \<Longrightarrow> held_of account a (decide_held acc x hs d) = []"
  unfolding held_of_empty using decide_held_row by blast

lemma held_of_cong: "sd_held d' = sd_held d \<Longrightarrow> held_of account a d' = held_of account a d"
  by (simp add: held_of_def)

lemma trusted_row_cong: "sd_senders d' = sd_senders d \<Longrightarrow> trusted_row a d' = trusted_row a d"
  by (simp add: trusted_row_def find_sender_def)

lemma CreateRule_keeps:
  "CreateRule r d = (res, d') \<Longrightarrow> sd_held d' = sd_held d \<and> sd_senders d' = sd_senders d \<and> sd_decisions d' = sd_decisions d"
  by (auto simp: CreateRule_def rules_create_def split: option.splits if_splits)

lemma trust_sender_held [simp]: "sd_held (trust_sender a d) = sd_held d"
  by (simp add: trust_sender_def sender_upsert_def)

lemma log_decision_keeps [simp]:
  "sd_held (log_decision account x oc via d) = sd_held d" "sd_senders (log_decision account x oc via d) = sd_senders d"
  by (simp_all add: log_decision_def)

lemma decide_held_senders [simp]: "sd_senders (decide_held account x hs d) = sd_senders d"
  by (simp add: decide_held_def)

text \<open>What holds after a decision was carried out: its hold rows are decided, an approved sender is trusted.\<close>

definition settled :: "string \<Rightarrow> string \<Rightarrow> string \<Rightarrow> state_db \<Rightarrow> bool" where
  "settled account sender action d \<longleftrightarrow> held_of account sender d = [] \<and> (action = ''approve'' \<longrightarrow> trusted_row sender d)"

lemma settled_cong: "sd_held d' = sd_held d \<Longrightarrow> sd_senders d' = sd_senders d \<Longrightarrow> settled account a act d' = settled account a act d"
  using held_of_cong [of d' d account a] trusted_row_cong [of d' d a] by (simp add: settled_def)

text \<open>The state after the hold rows and the trust of a decision.\<close>

definition decided :: "string \<Rightarrow> screen_decision \<Rightarrow> held_row list \<Rightarrow> state_db \<Rightarrow> state_db" where
  "decided account x hs d =
     (let d1 = decide_held account x hs d in if de_Action x = ''approve'' then trust_sender (de_Sender x) d1 else d1)"

lemma decided_settles: "settled account (de_Sender x) (de_Action x) (decided account x (held_of account (de_Sender x) d) d)"
proof -
  let ?d1 = "decide_held account x (held_of account (de_Sender x) d) d"
  have "held_of account (de_Sender x) (trust_sender (de_Sender x) ?d1) = held_of account (de_Sender x) ?d1"
    by (rule held_of_cong) simp
  then show ?thesis using held_of_decide [of account x d] by (simp add: settled_def decided_def Let_def trust_sender_trusted)
qed

lemma decided_keeps: "settled account a act d \<Longrightarrow> settled account a act (decided acc x hs d)"
proof -
  assume s: "settled account a act d"
  let ?d1 = "decide_held acc x hs d"
  have h: "held_of account a ?d1 = []" using s held_of_decide_mono by (simp add: settled_def)
  have t: "act = ''approve'' \<Longrightarrow> trusted_row a ?d1" using s trusted_row_cong [of ?d1 d a] by (simp add: settled_def)
  have "held_of account a (trust_sender (de_Sender x) ?d1) = held_of account a ?d1" by (rule held_of_cong) simp
  then show ?thesis using h t trust_sender_keeps by (simp add: settled_def decided_def Let_def)
qed

text \<open>Either nothing was stored, or the decision was; only a refused rule is an error then.\<close>

lemma applyScreen_cases:
  assumes "applyScreen s account x oc hs via d w = (oc', d', w')"
  shows "oc_Sender oc' = oc_Sender oc \<and> oc_Action oc' = oc_Action oc \<and>
    ((d' = d \<and> oc_Error oc' \<noteq> None) \<or>
     (sd_held d' = sd_held (decided account x hs d) \<and> sd_senders d' = sd_senders (decided account x hs d)))"
proof -
  obtain b w1 where e: "(if de_Action x = ''approve'' \<and> de_Dest x \<noteq> ''inbox'' then ensure_folder s account (oc_Folder oc) w else (True, w)) = (b, w1)"
    by (meson surj_pair)
  obtain n b2 w2 where m: "move_folders s account (oc_Folder oc) hs (remdups (map hm_folder hs)) w1 = (n, b2, w2)"
    by (metis prod_cases3)
  let ?d2 = "decided account x hs d"
  show ?thesis
  proof (cases "b \<and> b2")
    case False
    then show ?thesis using assms m unfolding applyScreen_def e by (cases b; cases b2) auto
  next
    case True
    show ?thesis
    proof (cases "oc_Rule oc")
      case None
      then show ?thesis using assms m True unfolding applyScreen_def e by (auto simp: Let_def decided_def)
    next
      case (Some r)
      obtain res d3 where c: "CreateRule (screen_rule_row account x r) ?d2 = (res, d3)" by (meson surj_pair)
      note k = CreateRule_keeps [OF c]
      show ?thesis using assms m True Some c k unfolding applyScreen_def e by (cases res) (auto simp: Let_def decided_def)
    qed
  qed
qed

lemma plan_decision_sel [simp]:
  "oc_Sender (plan_decision sv c trash x n d) = de_Sender x" "oc_Action (plan_decision sv c trash x n d) = de_Action x"
  by (simp_all add: plan_decision_def Let_def)

lemma screen_each_keeps:
  "screen_each s sv c account trash go via xs d w = (ocs, d', w') \<Longrightarrow> settled account a act d \<Longrightarrow> settled account a act d'"
proof (induction xs arbitrary: ocs d w)
  case (Cons x xs)
  let ?hs = "held_of account (de_Sender x) d"
  let ?oc = "plan_decision sv c trash x (length ?hs) d"
  obtain oc1 d1 w1 where a: "(if ?hs \<noteq> [] \<and> go then applyScreen s account x ?oc ?hs via d w else (?oc, d, w)) = (oc1, d1, w1)"
    by (metis prod_cases3)
  obtain ocs2 where r: "screen_each s sv c account trash go via xs d1 w1 = (ocs2, d', w')"
    using Cons.prems(1) a by (auto simp: Let_def split: prod.splits)
  have "settled account a act d1"
  proof (cases "?hs \<noteq> [] \<and> go")
    case True
    then have ap: "applyScreen s account x ?oc ?hs via d w = (oc1, d1, w1)" using a by simp
    from applyScreen_cases [OF this] show ?thesis
      using Cons.prems(2) decided_keeps settled_cong [of d1 "decided account x ?hs d"] by auto
  next
    case False
    then have "d1 = d" using a by (auto split: if_splits)
    then show ?thesis using Cons.prems(2) by simp
  qed
  then show ?case using Cons.IH [OF r] by simp
qed simp

lemma screen_each_settles:
  "screen_each s sv c account trash True via xs d w = (ocs, d', w') \<Longrightarrow> oc \<in> set ocs \<Longrightarrow> oc_Error oc = None \<Longrightarrow>
   settled account (oc_Sender oc) (oc_Action oc) d'"
proof (induction xs arbitrary: ocs d w)
  case (Cons x xs)
  let ?hs = "held_of account (de_Sender x) d"
  let ?oc = "plan_decision sv c trash x (length ?hs) d"
  obtain oc1 d1 w1 where a: "(if ?hs \<noteq> [] \<and> True then applyScreen s account x ?oc ?hs via d w else (?oc, d, w)) = (oc1, d1, w1)"
    by (metis prod_cases3)
  obtain ocs2 where r: "screen_each s sv c account trash True via xs d1 w1 = (ocs2, d', w')" and o: "ocs = oc1 # ocs2"
    using Cons.prems(1) a by (auto simp: Let_def split: prod.splits)
  show ?case
  proof (cases "oc \<in> set ocs2")
    case True
    then show ?thesis using Cons.IH [OF r] Cons.prems(3) by simp
  next
    case False
    then have oc: "oc = oc1" using Cons.prems(2) o by simp
    have ne: "?hs \<noteq> []"
    proof
      assume "?hs = []"
      then have "oc_Error oc1 = Some NoHeldMail" using a by (auto simp: plan_decision_def Let_def)
      then show False using oc Cons.prems(3) by simp
    qed
    then have ap: "applyScreen s account x ?oc ?hs via d w = (oc1, d1, w1)" using a by simp
    from applyScreen_cases [OF this] have sel: "oc_Sender oc1 = de_Sender x" "oc_Action oc1 = de_Action x"
      and keep: "sd_held d1 = sd_held (decided account x ?hs d)" "sd_senders d1 = sd_senders (decided account x ?hs d)"
      using oc Cons.prems(3) by auto
    have "settled account (de_Sender x) (de_Action x) d1"
      using settled_cong [OF keep, of account "de_Sender x" "de_Action x"] decided_settles [of account x d] by simp
    then show ?thesis using screen_each_keeps [OF r] sel oc by simp
  qed
qed simp

text \<open>C13: After a confirmed call every sender whose decision went through has no undecided held mail in
  the account any more, so that the digest does not list it again; and an approved sender is trusted,
  whatever the later decisions of the call did.\<close>
theorem applied_decision_settles_sender:
  assumes "Screen pa s sv c acct True via xs d w = (Inr r, d', w')" "oc \<in> set (re_Outcomes r)" "oc_Error oc = None"
  shows "\<exists>account. ms_resolve (mail_server.truncate s) (if acct = ''_default'' then [] else acct) w = Some account \<and>
    held_of account (oc_Sender oc) d' = [] \<and> (oc_Action oc = ''approve'' \<longrightarrow> trusted_row (oc_Sender oc) d')"
proof -
  obtain account ys where acc: "ms_resolve (mail_server.truncate s) (if acct = ''_default'' then [] else acct) w = Some account"
    and ys: "normalize_all pa xs = Inr ys"
    using assms(1) by (auto simp: Screen_def split: if_splits option.splits sum.splits)
  obtain t where t: "ResolveTrash (mail_server.truncate s) account w = Some t"
    using assms(1) acc ys by (auto simp: Screen_def Let_def split: if_splits option.splits)
  obtain ocs d2 w2 where e: "screen_each s sv c account t True via ys d w = (ocs, d2, w2)" by (metis prod_cases3)
  have "re_Outcomes r = ocs" "d' = d2"
    using assms(1) acc ys t e by (auto simp: Screen_def Let_def split: if_splits)
  then show ?thesis using screen_each_settles [OF e] assms(2,3) acc by (simp add: settled_def)
qed

section \<open>Blocking a domain twice\<close>

lemma trim_space_nonempty:
  assumes "c \<in> set s" "\<not> is_space c"
  shows "trim_space s \<noteq> []"
proof -
  let ?t = "dropWhile is_space s"
  have t: "?t \<noteq> []" using assms by (meson dropWhile_eq_Nil_conv)
  then have "hd ?t \<in> set (rev ?t)" "\<not> is_space (hd ?t)" using hd_dropWhile by simp_all
  then have "dropWhile is_space (rev ?t) \<noteq> []" by (meson dropWhile_eq_Nil_conv)
  then show ?thesis by (simp add: trim_space_def)
qed

lemma block_rule_valid:
  assumes "sr_From r \<noteq> []" "sr_Action r = ''trash''"
  shows "ValidateRule (screen_rule_row account x r) = None"
proof -
  have "\<not> is_space (CHR ''s'')" by code_simp
  then have "trim_space (CHR ''s'' # y) \<noteq> []" for y by (rule trim_space_nonempty [rotated]) simp
  then have "trim_space (r_Name (screen_rule_row account x r)) \<noteq> []" by (simp add: screen_rule_row_def)
  moreover have "r_Actions (screen_rule_row account x r) = [\<lparr>ra_Type = ''trash'', ra_Dest = [], ra_Flags = []\<rparr>]"
    using assms(2) by (simp add: screen_rule_row_def)
  moreover have "rc_From (r_Conditions (screen_rule_row account x r)) \<noteq> []" "rc_NewSenderDays (r_Conditions (screen_rule_row account x r)) = 0"
    using assms(1) by (simp_all add: screen_rule_row_def)
  ultimately show ?thesis by (simp add: ValidateRule_def)
qed

text \<open>A block whose target already has a block rule - the second sender of a domain, in the same call or
  later - moves and settles the sender's held mail but ends in a duplicate name: the outcome reports a
  failure, no rule is stored and the decision is missing from the log.\<close>
theorem second_block_of_domain_fails:
  assumes "de_Action x = ''block''" "blockTarget sv (de_Sender x) d = t" "t \<noteq> []"
    "rl \<in> set (sd_rules d)" "r_Name rl = ''screener: block '' @ t"
    "held_of account (de_Sender x) d = hs" "hs \<noteq> []"
    "move_folders s account trash hs (remdups (map hm_folder hs)) w = (n, True, w')"
  shows "\<exists>oc d'. applyScreen s account x (plan_decision sv c trash x (length hs) d) hs via d w = (oc, d', w') \<and>
    oc_Error oc = Some (RuleFailed (DuplicateName (''screener: block '' @ t))) \<and> oc_Moved oc = n \<and>
    held_of account (de_Sender x) d' = [] \<and> sd_rules d' = sd_rules d \<and> sd_decisions d' = sd_decisions d"
proof -
  let ?oc = "plan_decision sv c trash x (length hs) d"
  let ?r = "\<lparr>sr_ID = 0, sr_From = t, sr_Action = ''trash'', sr_Dest = [], sr_Active = sk_RulesActive c\<rparr>"
  have oc: "oc_Rule ?oc = Some ?r" "oc_Folder ?oc = trash"
    using assms(1,2,7) by (simp_all add: plan_decision_def Let_def)
  let ?d1 = "decide_held account x hs d"
  have "r_Name (screen_rule_row account x ?r) = ''screener: block '' @ t"
    using assms(1) by (simp add: screen_rule_row_def)
  moreover have "list_ex (\<lambda>y. r_Name y = ''screener: block '' @ t) (sd_rules ?d1)"
    using assms(4,5) by (auto simp: list_ex_iff decide_held_def)
  ultimately have "CreateRule (screen_rule_row account x ?r) ?d1 = (Inl (DuplicateName (''screener: block '' @ t)), ?d1)"
    using block_rule_valid [of ?r account x] assms(3) by (simp add: CreateRule_def rules_create_def)
  then have "applyScreen s account x ?oc hs via d w =
      (?oc\<lparr>oc_Moved := n, oc_Error := Some (RuleFailed (DuplicateName (''screener: block '' @ t)))\<rparr>, ?d1, w')"
    using assms(1,8) oc by (simp add: applyScreen_def Let_def)
  moreover have "held_of account (de_Sender x) ?d1 = []" using held_of_decide [of account x d] assms(6) by simp
  ultimately show ?thesis by (simp add: decide_held_def)
qed

section \<open>Witnesses\<close>

definition sample_screen :: "nat screen_server" where
  "sample_screen = mail_server.extend (sample_server\<lparr>ms_list := (\<lambda>a w. Some [(''INBOX'', []), (''Trash'', [])])\<rparr>)
     \<lparr>ss_find_id = (\<lambda>a f i w. Some [7]), ss_create = (\<lambda>a f w. (True, w))\<rparr>"

definition sample_hold :: "int \<Rightarrow> string \<Rightarrow> held_row" where
  "sample_hold h sender = \<lparr>hm_account = ''a'', hm_hash = h, hm_ref = ''m'', hm_sender = sender, hm_subject = ''Hi'', hm_reasons = [],
     hm_folder = ''Screener'', hm_held_at = 0, hm_released_at = None, hm_digested_at = None, hm_decision = None\<rparr>"

definition two_holds :: state_db where
  "two_holds = empty_state\<lparr>sd_held := [sample_hold 1 ''ads@corp.org'', sample_hold 2 ''News@corp.org'']\<rparr>"

definition sample_screen_cfg :: screen_cfg where
  "sample_screen_cfg = \<lparr>sk_Feed = [], sk_Receipts = [], sk_RulesActive = False\<rparr>"

definition block :: "string \<Rightarrow> screen_decision" where
  "block a = \<lparr>de_Sender = a, de_Action = ''block'', de_Dest = []\<rparr>"

definition approve :: "string \<Rightarrow> screen_decision" where
  "approve a = \<lparr>de_Sender = a, de_Action = ''approve'', de_Dest = []\<rparr>"

theorem preview_changes_nothing_witness:
  "snd (Screen (\<lambda>x. None) sample_screen sample_service sample_screen_cfg ''a'' False ''mcp'' [approve ''ads@corp.org''] two_holds 0) =
     (two_holds, 0)"
  using preview_changes_nothing [of "\<lambda>x. None" sample_screen sample_service sample_screen_cfg "''a''" "''mcp''"
      "[approve ''ads@corp.org'']" two_holds 0] by blast

theorem applied_decision_settles_sender_witness:
  "\<exists>r d' w'. Screen (\<lambda>x. None) sample_screen sample_service sample_screen_cfg ''a'' True ''mcp'' [approve ''Ads@corp.org''] two_holds 0 =
     (Inr r, d', w') \<and> held_of ''a'' ''ads@corp.org'' d' = [] \<and> trusted_row ''ads@corp.org'' d'"
proof -
  let ?s = "Screen (\<lambda>x. None) sample_screen sample_service sample_screen_cfg ''a'' True ''mcp'' [approve ''Ads@corp.org''] two_holds 0"
  have "case fst ?s of Inl e \<Rightarrow> False | Inr r \<Rightarrow>
      map (\<lambda>oc. (oc_Error oc = None, oc_Sender oc, oc_Action oc)) (re_Outcomes r) = [(True, ''ads@corp.org'', ''approve'')]" by code_simp
  then obtain r oc where r: "fst ?s = Inr r" "re_Outcomes r = [oc]" "oc_Error oc = None" "oc_Sender oc = ''ads@corp.org''"
    "oc_Action oc = ''approve''" by (auto split: sum.splits)
  obtain d' w' where s: "?s = (Inr r, d', w')" using r(1) by (metis prod.collapse)
  have acc: "ms_resolve (mail_server.truncate sample_screen) x w = Some ''a''" for x w
    by (simp add: sample_screen_def sample_server_def mail_server.defs)
  show ?thesis using applied_decision_settles_sender [OF s, of oc] r s acc by auto
qed

theorem second_block_of_domain_fails_witness:
  "\<exists>oc d'. applyScreen sample_screen ''a'' (block ''news@corp.org'')
      (plan_decision sample_service sample_screen_cfg ''Trash'' (block ''news@corp.org'') 1
        (two_holds\<lparr>sd_rules := [screen_rule_row ''a'' (block ''ads@corp.org'')
           \<lparr>sr_ID = 0, sr_From = ''corp.org'', sr_Action = ''trash'', sr_Dest = [], sr_Active = False\<rparr>]\<rparr>))
      [sample_hold 2 ''News@corp.org''] ''mcp''
      (two_holds\<lparr>sd_rules := [screen_rule_row ''a'' (block ''ads@corp.org'')
           \<lparr>sr_ID = 0, sr_From = ''corp.org'', sr_Action = ''trash'', sr_Dest = [], sr_Active = False\<rparr>]\<rparr>) 0 = (oc, d', 1) \<and>
     oc_Error oc = Some (RuleFailed (DuplicateName ''screener: block corp.org'')) \<and> sd_decisions d' = []"
proof -
  let ?rl = "screen_rule_row ''a'' (block ''ads@corp.org'')
           \<lparr>sr_ID = 0, sr_From = ''corp.org'', sr_Action = ''trash'', sr_Dest = [], sr_Active = False\<rparr>"
  let ?d = "two_holds\<lparr>sd_rules := [?rl]\<rparr>"
  let ?x = "block ''news@corp.org''"
  have b: "blockTarget sample_service (de_Sender ?x) ?d = ''corp.org''" by code_simp
  have h: "map hm_hash (held_of ''a'' (de_Sender ?x) ?d) = [2]" by code_simp
  have hs: "held_of ''a'' (de_Sender ?x) ?d = [sample_hold 2 ''News@corp.org'']"
    using h by (auto simp: held_of_def two_holds_def sample_hold_def split: if_splits)
  have m: "move_folders sample_screen ''a'' ''Trash'' [sample_hold 2 ''News@corp.org''] (remdups (map hm_folder [sample_hold 2 ''News@corp.org''])) 0 = (1, True, 1)"
    by code_simp
  have a: "de_Action ?x = ''block''" "r_Name ?rl = ''screener: block '' @ ''corp.org''" "sd_decisions ?d = []"
    by (simp_all add: block_def screen_rule_row_def two_holds_def empty_state_def)
  have "\<exists>oc d'. applyScreen sample_screen ''a'' ?x (plan_decision sample_service sample_screen_cfg ''Trash'' ?x
      (length [sample_hold 2 ''News@corp.org'']) ?d) [sample_hold 2 ''News@corp.org''] ''mcp'' ?d 0 = (oc, d', 1) \<and>
    oc_Error oc = Some (RuleFailed (DuplicateName (''screener: block '' @ ''corp.org''))) \<and> oc_Moved oc = 1 \<and>
    held_of ''a'' (de_Sender ?x) d' = [] \<and> sd_rules d' = sd_rules ?d \<and> sd_decisions d' = sd_decisions ?d"
    by (rule second_block_of_domain_fails [OF a(1) b _ _ a(2) hs _ m]) simp_all
  then show ?thesis using a(3) by auto
qed

end
