(* ===== verification/Mailbox.thy ===== *)
theory Mailbox
  imports Rules
begin

text \<open>
  The mailbox operations of \<open>internal/service/mail.go\<close>: moving, copying, deleting and flagging
  messages, and the pages of a folder. The IMAP server is a parameter, the functions of \<open>imap\<close>; what
  the code relies on of it is the locale \<open>imap_server\<close>, the wording of RFC 3501 (STORE, EXPUNGE, SEARCH,
  COPY), RFC 4315 (UID EXPUNGE) and RFC 6851 (MOVE). A reference server satisfies it. Other sessions on the
  same mailbox act between two commands.
\<close>

section \<open>The server\<close>

record box_msg =
  bm_uid :: nat
  bm_flags :: "string list"
  bm_body :: string

definition deleted_flag :: string where
  "deleted_flag = backslash # ''Deleted''"

record 'm imap =
  ip_caps :: "string list"
  ip_select :: "string \<Rightarrow> 'm \<Rightarrow> bool \<times> 'm"
  ip_store :: "bool \<Rightarrow> nat list \<Rightarrow> string list \<Rightarrow> 'm \<Rightarrow> bool \<times> 'm"   \<comment> \<open>True: \<open>+FLAGS\<close>, False: \<open>-FLAGS\<close>\<close>
  ip_expunge :: "'m \<Rightarrow> bool \<times> 'm"
  ip_uid_expunge :: "nat list \<Rightarrow> 'm \<Rightarrow> bool \<times> 'm"
  ip_search_deleted :: "'m \<Rightarrow> nat list option"
  ip_copy :: "nat list \<Rightarrow> string \<Rightarrow> 'm \<Rightarrow> bool \<times> 'm"
  ip_move :: "nat list \<Rightarrow> string \<Rightarrow> 'm \<Rightarrow> bool \<times> 'm"
  ip_between :: "'m \<Rightarrow> 'm"   \<comment> \<open>what other sessions do before the next command\<close>

definition has_cap :: "'m imap \<Rightarrow> string \<Rightarrow> bool" where
  "has_cap s c = (c \<in> set (ip_caps s))"

section \<open>Deleting and moving messages of the selected folder\<close>

datatype delete_error = MarkFailed | CheckFailed | OthersDeleted | ExpungeFailed
datatype move_error = MoveFailed | CopyFailed | RemoveFailed delete_error

definition DeleteUIDs :: "'m imap \<Rightarrow> nat list \<Rightarrow> 'm \<Rightarrow> delete_error option \<times> 'm" where
  "DeleteUIDs s us w =
     (case ip_store s True us [deleted_flag] w of
        (ok, w1) \<Rightarrow>
          (if \<not> ok then (Some MarkFailed, w1)
           else if has_cap s ''UIDPLUS'' \<or> has_cap s ''IMAP4rev2'' then
             (case ip_uid_expunge s us (ip_between s w1) of (ok, w2) \<Rightarrow> (if ok then None else Some ExpungeFailed, w2))
           else
             (let w2 = ip_between s w1 in
              case ip_search_deleted s w2 of
                None \<Rightarrow> (Some CheckFailed, w2)
              | Some ds \<Rightarrow>
                  (if list_ex (\<lambda>u. u \<notin> set us) ds then (Some OthersDeleted, w2)
                   else (case ip_expunge s (ip_between s w2) of (ok, w3) \<Rightarrow> (if ok then None else Some ExpungeFailed, w3))))))"

definition MoveUIDs :: "'m imap \<Rightarrow> nat list \<Rightarrow> string \<Rightarrow> 'm \<Rightarrow> move_error option \<times> 'm" where
  "MoveUIDs s us dst w =
     (if has_cap s ''MOVE'' \<or> has_cap s ''IMAP4rev2'' then
        (case ip_move s us dst w of (ok, w1) \<Rightarrow> (if ok then None else Some MoveFailed, w1))
      else
        (case ip_copy s us dst w of
           (ok, w1) \<Rightarrow>
             (if \<not> ok then (Some CopyFailed, w1)
              else (case DeleteUIDs s us (ip_between s w1) of (e, w2) \<Rightarrow> (map_option RemoveFailed e, w2)))))"

section \<open>The operations of the service\<close>

datatype mail_error =
    MissingArgument | SelectFailed | MailMoveFailed move_error | MailCopyFailed | MailDeleteFailed delete_error
  | FlagsFailed

definition with_selected ::
  "'m imap \<Rightarrow> string \<Rightarrow> ('m \<Rightarrow> (mail_error + 'a) \<times> 'm) \<Rightarrow> 'm \<Rightarrow> (mail_error + 'a) \<times> 'm" where
  "with_selected s folder f w =
     (case ip_select s folder w of (ok, w1) \<Rightarrow> if ok then f (ip_between s w1) else (Inl SelectFailed, w1))"

definition move_selected :: "'m imap \<Rightarrow> nat \<Rightarrow> string \<Rightarrow> 'm \<Rightarrow> (mail_error + unit) \<times> 'm" where
  "move_selected s uid dst w =
     (case MoveUIDs s [uid] dst w of (None, w1) \<Rightarrow> (Inr (), w1) | (Some e, w1) \<Rightarrow> (Inl (MailMoveFailed e), w1))"

definition MoveMessage :: "'m imap \<Rightarrow> string \<Rightarrow> nat \<Rightarrow> string \<Rightarrow> 'm \<Rightarrow> (mail_error + unit) \<times> 'm" where
  "MoveMessage s folder uid dst w =
     (if folder = [] \<or> uid = 0 \<or> dst = [] then (Inl MissingArgument, w)
      else with_selected s folder (move_selected s uid dst) w)"

definition CopyMessage :: "'m imap \<Rightarrow> string \<Rightarrow> nat \<Rightarrow> string \<Rightarrow> 'm \<Rightarrow> (mail_error + unit) \<times> 'm" where
  "CopyMessage s folder uid dst w =
     (if folder = [] \<or> uid = 0 \<or> dst = [] then (Inl MissingArgument, w)
      else with_selected s folder (\<lambda>w. case ip_copy s [uid] dst w of
          (ok, w1) \<Rightarrow> (if ok then Inr () else Inl MailCopyFailed, w1)) w)"

record delete_result =
  dr_UID :: nat
  dr_Permanent :: bool
  dr_Trash :: string
  dr_NoTrash :: bool   \<comment> \<open>the note that no trash folder was found\<close>

text \<open>The folders a message is moved to, the first that takes it.\<close>

fun try_trash :: "'m imap \<Rightarrow> nat list \<Rightarrow> string list \<Rightarrow> 'm \<Rightarrow> string option \<times> 'm" where
  "try_trash s us [] w = (None, w)"
| "try_trash s us (t # ts) w =
     (case MoveUIDs s us t w of
        (None, w1) \<Rightarrow> (Some t, w1)
      | (Some e, w1) \<Rightarrow> try_trash s us ts (ip_between s w1))"

definition trash_folders :: "string list" where
  "trash_folders = [''Trash'', ''[Gmail]/Trash'']"

definition delete_selected :: "'m imap \<Rightarrow> nat \<Rightarrow> bool \<Rightarrow> 'm \<Rightarrow> (mail_error + delete_result) \<times> 'm" where
  "delete_selected s uid permanent w =
     (let res = \<lparr>dr_UID = uid, dr_Permanent = permanent, dr_Trash = [], dr_NoTrash = False\<rparr> in
      if permanent then
        (case DeleteUIDs s [uid] w of (None, w1) \<Rightarrow> (Inr res, w1) | (Some e, w1) \<Rightarrow> (Inl (MailDeleteFailed e), w1))
      else
        (case try_trash s [uid] trash_folders w of
           (Some t, w1) \<Rightarrow> (Inr (res\<lparr>dr_Trash := t\<rparr>), w1)
         | (None, w1) \<Rightarrow>
             (case ip_store s True [uid] [deleted_flag] w1 of
                (ok, w2) \<Rightarrow> (if ok then Inr (res\<lparr>dr_NoTrash := True\<rparr>) else Inl (MailDeleteFailed MarkFailed), w2))))"

definition DeleteMessage :: "'m imap \<Rightarrow> string \<Rightarrow> nat \<Rightarrow> bool \<Rightarrow> 'm \<Rightarrow> (mail_error + delete_result) \<times> 'm" where
  "DeleteMessage s folder uid permanent w =
     (if folder = [] \<or> uid = 0 then (Inl MissingArgument, w)
      else with_selected s folder (delete_selected s uid permanent) w)"

definition SetFlags :: "'m imap \<Rightarrow> string \<Rightarrow> nat \<Rightarrow> string \<Rightarrow> string \<Rightarrow> 'm \<Rightarrow> (mail_error + unit) \<times> 'm" where
  "SetFlags s folder uid add remove w =
     (if folder = [] \<or> uid = 0 \<or> (add = [] \<and> remove = []) then (Inl MissingArgument, w)
      else with_selected s folder (\<lambda>w.
        case (if add \<noteq> [] then ip_store s True [uid] (ParseFlags add) w else (True, w)) of
          (ok, w1) \<Rightarrow>
            (if \<not> ok then (Inl FlagsFailed, w1)
             else (case (if remove \<noteq> [] then ip_store s False [uid] (ParseFlags remove) (ip_between s w1) else (True, w1)) of
                 (ok, w2) \<Rightarrow> (if ok then Inr () else Inl FlagsFailed, w2)))) w)"

section \<open>The pages of a folder\<close>

definition clampUint32 :: "int \<Rightarrow> 32 word" where
  "clampUint32 n = (if n \<le> 0 then 0 else if n \<ge> 2 ^ 32 - 1 then 2 ^ 32 - 1 else word_of_int n)"

text \<open>The sequence numbers of a page, the first and the last; \<open>None\<close> is an empty page without a fetch.\<close>

definition page_limit :: "int \<Rightarrow> int" where
  "page_limit l = (if l \<le> 0 \<or> l > 200 then 50 else l)"

definition page_offset :: "int \<Rightarrow> int" where
  "page_offset o0 = (if o0 < 0 then 0 else o0)"

definition page_range :: "32 word \<Rightarrow> int \<Rightarrow> int \<Rightarrow> bool \<Rightarrow> (32 word \<times> 32 word) option" where
  "page_range cnt limit offset ascending =
     (if cnt = 0 \<or> uint cnt \<le> offset then None
      else if ascending then Some (clampUint32 (offset + 1), clampUint32 (min (offset + limit) (uint cnt)))
      else (let last = cnt - clampUint32 offset in
            Some (if limit < uint last then last - clampUint32 limit + 1 else 1, last)))"

text \<open>\<open>FETCH first:last\<close>, the messages with these sequence numbers from the oldest on.\<close>

definition fetch_seq :: "'a list \<Rightarrow> 32 word \<times> 32 word \<Rightarrow> 'a list" where
  "fetch_seq ms r = take (unat (snd r) + 1 - unat (fst r)) (drop (unat (fst r) - 1) ms)"

text \<open>The server answers SELECT with the number of messages; a page holds the newest first unless asked
  otherwise.\<close>

definition ListMessages :: "'a list \<Rightarrow> int \<Rightarrow> int \<Rightarrow> bool \<Rightarrow> 'a list" where
  "ListMessages ms limit offset ascending =
     (case page_range (word_of_nat (length ms)) (page_limit limit) (page_offset offset) ascending of
        None \<Rightarrow> []
      | Some r \<Rightarrow> if ascending then fetch_seq ms r else rev (fetch_seq ms r))"

text \<open>The newest matches of a search, with their number.\<close>

definition search_limit :: "int \<Rightarrow> nat" where
  "search_limit l = (if l \<le> 0 \<or> l > 500 then 50 else nat l)"

definition Search_page :: "('u \<Rightarrow> 'a option) \<Rightarrow> 'u list \<Rightarrow> int \<Rightarrow> nat \<times> 'a list" where
  "Search_page fetch us limit =
     (let newest = drop (length us - search_limit limit) us in
      (length us, rev (concat (map (\<lambda>u. case fetch u of None \<Rightarrow> [] | Some m \<Rightarrow> [m]) newest))))"

end
