(* ===== verification/Mailbox_Props.thy ===== *)
theory Mailbox_Props
  imports Mailbox
begin

text \<open>
  What the mailbox operations promise whatever the server answers: only the messages named are removed,
  a delete that is not permanent loses no message, and the pages of a folder tile it. The laws of the
  server are a locale, interpreted on a reference server.
\<close>

section \<open>The laws of the server\<close>

text \<open>Flags may change under a message, its UID and its content do not.\<close>

definition same_mail :: "box_msg \<Rightarrow> box_msg \<Rightarrow> bool" where
  "same_mail m m' = (bm_uid m' = bm_uid m \<and> bm_body m' = bm_body m)"

lemma same_mail_refl [simp]: "same_mail m m"
  by (simp add: same_mail_def)

text \<open>Other sessions leave the messages and their flags alone while an operation runs.\<close>

definition undisturbed :: "'m imap \<Rightarrow> (string \<Rightarrow> 'm \<Rightarrow> box_msg list) \<Rightarrow> bool" where
  "undisturbed s msgs = (\<forall>w f m. m \<in> set (msgs f w) \<longrightarrow> m \<in> set (msgs f (ip_between s w)))"

locale imap_server =
  fixes s :: "'m imap" and msgs :: "string \<Rightarrow> 'm \<Rightarrow> box_msg list" and sel :: "'m \<Rightarrow> string"
  assumes select_keeps: "ip_select s f w = (ok, w') \<Longrightarrow> msgs g w' = msgs g w"
    and select_ok: "ip_select s f w = (True, w') \<Longrightarrow> sel w' = f"
    and store_keeps: "ip_store s add us fs w = (ok, w') \<Longrightarrow> m \<in> set (msgs f w) \<Longrightarrow> \<not> (f = sel w \<and> bm_uid m \<in> set us) \<Longrightarrow> m \<in> set (msgs f w')"
    and store_mail: "ip_store s add us fs w = (ok, w') \<Longrightarrow> m \<in> set (msgs f w) \<Longrightarrow> \<exists>m'\<in>set (msgs f w'). same_mail m m'"
    and store_sel: "ip_store s add us fs w = (ok, w') \<Longrightarrow> sel w' = sel w"
    and expunge_keeps: "ip_expunge s w = (ok, w') \<Longrightarrow> m \<in> set (msgs f w) \<Longrightarrow> \<not> (f = sel w \<and> deleted_flag \<in> set (bm_flags m)) \<Longrightarrow> m \<in> set (msgs f w')"
    and expunge_sel: "ip_expunge s w = (ok, w') \<Longrightarrow> sel w' = sel w"
    and uid_expunge_keeps: "ip_uid_expunge s us w = (ok, w') \<Longrightarrow> m \<in> set (msgs f w) \<Longrightarrow> \<not> (f = sel w \<and> bm_uid m \<in> set us) \<Longrightarrow> m \<in> set (msgs f w')"
    and uid_expunge_sel: "ip_uid_expunge s us w = (ok, w') \<Longrightarrow> sel w' = sel w"
    and search_finds: "ip_search_deleted s w = Some ds \<Longrightarrow> m \<in> set (msgs (sel w) w) \<Longrightarrow> deleted_flag \<in> set (bm_flags m) \<Longrightarrow> bm_uid m \<in> set ds"
    and copy_keeps: "ip_copy s us dst w = (ok, w') \<Longrightarrow> m \<in> set (msgs f w) \<Longrightarrow> m \<in> set (msgs f w')"
    and copy_sel: "ip_copy s us dst w = (ok, w') \<Longrightarrow> sel w' = sel w"
    and copy_arrives: "ip_copy s us dst w = (True, w') \<Longrightarrow> m \<in> set (msgs (sel w) w) \<Longrightarrow> bm_uid m \<in> set us \<Longrightarrow>
      \<exists>m'\<in>set (msgs dst w'). bm_body m' = bm_body m"
    and move_keeps: "ip_move s us dst w = (ok, w') \<Longrightarrow> m \<in> set (msgs f w) \<Longrightarrow> \<not> (f = sel w \<and> bm_uid m \<in> set us) \<Longrightarrow> m \<in> set (msgs f w')"
    and move_arrives: "ip_move s us dst w = (ok, w') \<Longrightarrow> m \<in> set (msgs (sel w) w) \<Longrightarrow> bm_uid m \<in> set us \<Longrightarrow>
      (\<exists>m'\<in>set (msgs (sel w) w'). same_mail m m') \<or> (\<exists>m'\<in>set (msgs dst w'). bm_body m' = bm_body m)"
    and move_sel: "ip_move s us dst w = (ok, w') \<Longrightarrow> sel w' = sel w"
    and between_mail: "m \<in> set (msgs f w) \<Longrightarrow> \<exists>m'\<in>set (msgs f (ip_between s w)). same_mail m m'"
    and between_sel: "sel (ip_between s w) = sel w"
begin

abbreviation quiet :: bool where "quiet \<equiv> undisturbed s msgs"

definition spares :: "nat list \<Rightarrow> 'm \<Rightarrow> 'm \<Rightarrow> bool" where
  "spares us w w' = (sel w' = sel w \<and>
     (\<forall>f m. m \<in> set (msgs f w) \<and> \<not> (f = sel w \<and> bm_uid m \<in> set us) \<longrightarrow> (\<exists>m'\<in>set (msgs f w'). same_mail m m')))"

lemma spares_trans: "spares us w w1 \<Longrightarrow> spares us w1 w2 \<Longrightarrow> spares us w w2"
  unfolding spares_def same_mail_def by metis

lemma spares_between: "spares us w (ip_between s w)"
  using between_mail between_sel by (auto simp: spares_def)

lemma spares_store: "ip_store s add us' fs w = (ok, w') \<Longrightarrow> spares us w w'"
  using store_mail store_sel by (fastforce simp: spares_def)

lemma spares_uid_expunge: "ip_uid_expunge s us w = (ok, w') \<Longrightarrow> spares us w w'"
  using uid_expunge_keeps uid_expunge_sel same_mail_refl unfolding spares_def by metis

lemma spares_move: "ip_move s us dst w = (ok, w') \<Longrightarrow> spares us w w'"
  using move_keeps move_sel same_mail_refl unfolding spares_def by metis

lemma spares_copy: "ip_copy s us dst w = (ok, w') \<Longrightarrow> spares us' w w'"
  using copy_keeps copy_sel same_mail_refl unfolding spares_def by metis

lemmas spares_steps = spares_store spares_uid_expunge spares_move spares_copy

text \<open>The fallback: what EXPUNGE may take was found by the search before, so it is named.\<close>

lemma expunge_fallback_spares:
  assumes quiet and "ip_store s True us [deleted_flag] w = (ok, w1)" and "ip_search_deleted s (ip_between s w1) = Some ds"
    and "\<not> list_ex (\<lambda>u. u \<notin> set us) ds" and "ip_expunge s (ip_between s (ip_between s w1)) = (ok', w3)"
  shows "spares us w w3"
proof -
  note sels = store_sel [OF assms(2)] expunge_sel [OF assms(5)] between_sel
  have "m \<in> set (msgs f w3)" if "m \<in> set (msgs f w)" "\<not> (f = sel w \<and> bm_uid m \<in> set us)" for f m
  proof -
    have m2: "m \<in> set (msgs f (ip_between s w1))" using assms(1) store_keeps [OF assms(2) that] by (simp add: undisturbed_def)
    then have m3: "m \<in> set (msgs f (ip_between s (ip_between s w1)))" using assms(1) by (simp add: undisturbed_def)
    have "\<not> (f = sel w \<and> deleted_flag \<in> set (bm_flags m))"
    proof
      assume d: "f = sel w \<and> deleted_flag \<in> set (bm_flags m)"
      then have "bm_uid m \<in> set ds" using search_finds [OF assms(3)] m2 sels by simp
      with assms(4) d that(2) show False by (auto simp: list_ex_iff)
    qed
    then show ?thesis using expunge_keeps [OF assms(5) m3] sels by simp
  qed
  then show ?thesis using sels same_mail_refl unfolding spares_def by metis
qed

lemma DeleteUIDs_spares:
  assumes "quiet \<or> has_cap s ''UIDPLUS'' \<or> has_cap s ''IMAP4rev2''"
  shows "spares us w (snd (DeleteUIDs s us w))"
proof -
  obtain ok w1 where st: "ip_store s True us [deleted_flag] w = (ok, w1)" by fastforce
  note s1 = spares_store [OF st, of us]
  show ?thesis
  proof (cases "ok \<and> \<not> (has_cap s ''UIDPLUS'' \<or> has_cap s ''IMAP4rev2'')")
    case False
    obtain ok' w2 where ue: "ip_uid_expunge s us (ip_between s w1) = (ok', w2)" by fastforce
    have "spares us w w2" by (rule spares_trans [OF s1 spares_trans [OF spares_between spares_uid_expunge [OF ue]]])
    with False s1 st ue show ?thesis by (auto simp: DeleteUIDs_def)
  next
    case True
    then have q: quiet using assms by blast
    have s2: "spares us w (ip_between s w1)" by (rule spares_trans [OF s1 spares_between])
    obtain ok' w3 where ex: "ip_expunge s (ip_between s (ip_between s w1)) = (ok', w3)" by fastforce
    show ?thesis
    proof (cases "ip_search_deleted s (ip_between s w1)")
      case None
      with True st s2 show ?thesis by (simp add: DeleteUIDs_def Let_def)
    next
      case (Some ds)
      with True st s2 ex expunge_fallback_spares [OF q st Some _ ex] show ?thesis
        by (auto simp: DeleteUIDs_def Let_def)
    qed
  qed
qed

lemma MoveUIDs_spares:
  assumes "quiet \<or> has_cap s ''UIDPLUS'' \<or> has_cap s ''IMAP4rev2''"
  shows "spares us w (snd (MoveUIDs s us dst w))"
proof -
  obtain ok w1 where mv: "ip_move s us dst w = (ok, w1)" by fastforce
  obtain ok' w2 where cp: "ip_copy s us dst w = (ok', w2)" by fastforce
  have "spares us w (snd (DeleteUIDs s us (ip_between s w2)))"
    by (rule spares_trans [OF spares_copy [OF cp] spares_trans [OF spares_between DeleteUIDs_spares [OF assms]]])
  then show ?thesis using mv cp spares_move [OF mv] spares_copy [OF cp]
    by (auto simp: MoveUIDs_def split: prod.splits)
qed

lemma DeleteUIDs_sel: "sel (snd (DeleteUIDs s us w)) = sel w"
  by (auto simp: DeleteUIDs_def Let_def between_sel dest!: store_sel expunge_sel uid_expunge_sel split: prod.splits option.splits)

lemma MoveUIDs_sel: "sel (snd (MoveUIDs s us dst w)) = sel w"
  using DeleteUIDs_sel [of us "ip_between s (snd (ip_copy s us dst w))"] copy_sel [of us dst w] move_sel [of us dst w]
  by (auto simp: MoveUIDs_def between_sel split: prod.splits)

text \<open>A message to be deleted is safe: it is in its folder under its UID, or in another folder.\<close>

definition holds_mail :: "nat list \<Rightarrow> string \<Rightarrow> 'm \<Rightarrow> bool" where
  "holds_mail us b w = (\<exists>f m. m \<in> set (msgs f w) \<and> bm_body m = b \<and> (f = sel w \<longrightarrow> bm_uid m \<in> set us))"

lemma holds_mailI: "m \<in> set (msgs f w) \<Longrightarrow> bm_body m = b \<Longrightarrow> (f = sel w \<Longrightarrow> bm_uid m \<in> set us) \<Longrightarrow> holds_mail us b w"
  unfolding holds_mail_def by blast

lemma holds_keep:
  assumes "holds_mail us b w" and "sel w' = sel w"
    and "\<And>f m. m \<in> set (msgs f w) \<Longrightarrow> \<exists>m'\<in>set (msgs f w'). same_mail m m'"
  shows "holds_mail us b w'"
proof -
  obtain f m where m: "m \<in> set (msgs f w)" "bm_body m = b" "f = sel w \<longrightarrow> bm_uid m \<in> set us"
    using assms(1) unfolding holds_mail_def by blast
  from assms(3) [OF m(1)] obtain m' where "m' \<in> set (msgs f w')" "same_mail m m'" by blast
  with m(2,3) assms(2) show ?thesis by (intro holds_mailI [of m' f]) (auto simp: same_mail_def)
qed

lemma holds_between: "holds_mail us b w \<Longrightarrow> holds_mail us b (ip_between s w)"
  by (rule holds_keep [OF _ between_sel between_mail])

lemma holds_store: "ip_store s add us' fs w = (ok, w') \<Longrightarrow> holds_mail us b w \<Longrightarrow> holds_mail us b w'"
  by (rule holds_keep [OF _ store_sel store_mail])

lemma holds_move:
  assumes "ip_move s us dst w = (ok, w')" and "dst \<noteq> sel w" and "holds_mail us b w"
  shows "holds_mail us b w'"
proof -
  note sl = move_sel [OF assms(1)]
  obtain f m where m: "m \<in> set (msgs f w)" "bm_body m = b" "f = sel w \<longrightarrow> bm_uid m \<in> set us"
    using assms(3) unfolding holds_mail_def by blast
  show ?thesis
  proof (cases "f = sel w")
    case False
    with move_keeps [OF assms(1) m(1)] have "m \<in> set (msgs f w')" by blast
    then show ?thesis using m(2) False sl by (intro holds_mailI [of m f]) simp_all
  next
    case True
    with m have "m \<in> set (msgs (sel w) w)" "bm_uid m \<in> set us" by simp_all
    from move_arrives [OF assms(1) this] show ?thesis
    proof (elim disjE bexE)
      fix m' assume "m' \<in> set (msgs (sel w) w')" "same_mail m m'"
      then show ?thesis using m True by (intro holds_mailI [of m' "sel w"]) (simp_all add: same_mail_def)
    next
      fix m' assume "m' \<in> set (msgs dst w')" "bm_body m' = bm_body m"
      then show ?thesis using m(2) assms(2) sl by (intro holds_mailI [of m' dst]) simp_all
    qed
  qed
qed

text \<open>In another folder than the selected one no command of a delete takes a message away.\<close>

lemma DeleteUIDs_other_folder:
  assumes "m \<in> set (msgs f w)" and "f \<noteq> sel w"
  shows "\<exists>m'\<in>set (msgs f (snd (DeleteUIDs s us w))). same_mail m m'"
proof -
  obtain ok w1 where st: "ip_store s True us [deleted_flag] w = (ok, w1)" by fastforce
  have step: "\<exists>m'\<in>set (msgs f (ip_between s v)). same_mail m m'" if "\<exists>m'\<in>set (msgs f v). same_mail m m'" for v
    using that between_mail unfolding same_mail_def by metis
  have sels: "sel w1 = sel w" "sel (ip_between s v) = sel v" for v using store_sel [OF st] between_sel by simp_all
  have m1: "\<exists>m'\<in>set (msgs f w1). same_mail m m'" using store_mail [OF st assms(1)] .
  note m2 = step [OF m1] note m3 = step [OF m2]
  have ex: "ip_expunge s (ip_between s (ip_between s w1)) = (ok', w3) \<Longrightarrow> \<exists>m'\<in>set (msgs f w3). same_mail m m'" for ok' w3
    using m3 expunge_keeps assms(2) sels by metis
  have ue: "ip_uid_expunge s us (ip_between s w1) = (ok', w2) \<Longrightarrow> \<exists>m'\<in>set (msgs f w2). same_mail m m'" for ok' w2
    using m2 uid_expunge_keeps assms(2) sels by metis
  show ?thesis using st m1 m2 ex ue
    by (auto simp: DeleteUIDs_def Let_def split: prod.splits option.splits)
qed

text \<open>After the copy the message is in the other folder, out of reach of what removes the original.\<close>

lemma copy_delete_holds:
  assumes "ip_copy s us dst w = (True, w1)" and "dst \<noteq> sel w" and "holds_mail us b w"
  shows "holds_mail us b (snd (DeleteUIDs s us (ip_between s w1)))"
proof -
  let ?w2 = "ip_between s w1" and ?w3 = "snd (DeleteUIDs s us (ip_between s w1))"
  have sels: "sel ?w2 = sel w" "sel ?w3 = sel w" using copy_sel [OF assms(1)] between_sel DeleteUIDs_sel by simp_all
  obtain f m where m: "m \<in> set (msgs f w)" "bm_body m = b" "f = sel w \<longrightarrow> bm_uid m \<in> set us"
    using assms(3) unfolding holds_mail_def by blast
  have "\<exists>g m'. m' \<in> set (msgs g w1) \<and> bm_body m' = b \<and> g \<noteq> sel w"
    using copy_keeps [OF assms(1) m(1)] copy_arrives [OF assms(1)] m assms(2) by metis
  then obtain g m' where m': "m' \<in> set (msgs g w1)" "bm_body m' = b" "g \<noteq> sel w" by blast
  then obtain m2 where m2: "m2 \<in> set (msgs g ?w2)" "bm_body m2 = b" using between_mail unfolding same_mail_def by metis
  with m'(3) sels DeleteUIDs_other_folder [OF m2(1), of us] obtain m3 where "m3 \<in> set (msgs g ?w3)" "same_mail m2 m3" by auto
  with m2(2) m'(3) sels show ?thesis by (intro holds_mailI [of m3 g]) (auto simp: same_mail_def)
qed

lemma MoveUIDs_holds:
  assumes "dst \<noteq> sel w" and "holds_mail us b w"
  shows "holds_mail us b (snd (MoveUIDs s us dst w))"
proof -
  obtain ok w1 where mv: "ip_move s us dst w = (ok, w1)" by fastforce
  obtain ok' w2 where cp: "ip_copy s us dst w = (ok', w2)" by fastforce
  have "holds_mail us b w2"
    by (rule holds_keep [OF assms(2) copy_sel [OF cp]]) (use copy_keeps [OF cp] same_mail_refl in blast)
  then show ?thesis using mv cp holds_move [OF mv assms] copy_delete_holds [of us dst w w2 b] assms
    by (auto simp: MoveUIDs_def split: prod.splits)
qed

lemma try_trash_holds:
  "sel w \<notin> set ts \<Longrightarrow> holds_mail us b w \<Longrightarrow> holds_mail us b (snd (try_trash s us ts w)) \<and> sel (snd (try_trash s us ts w)) = sel w"
proof (induction ts arbitrary: w)
  case Nil
  then show ?case by simp
next
  case (Cons t ts)
  obtain e w1 where mv: "MoveUIDs s us t w = (e, w1)" by fastforce
  have h: "holds_mail us b w1" "sel w1 = sel w"
    using MoveUIDs_holds [of t w us b] MoveUIDs_sel [of us t w] Cons.prems mv by auto
  from Cons.IH [of "ip_between s w1"] Cons.prems(1) h holds_between between_sel mv show ?case
    by (cases e) auto
qed

lemma try_trash_spares:
  "quiet \<or> has_cap s ''UIDPLUS'' \<or> has_cap s ''IMAP4rev2'' \<Longrightarrow> spares us w (snd (try_trash s us ts w))"
proof (induction ts arbitrary: w)
  case Nil
  then show ?case by (simp add: spares_def) (use same_mail_refl in blast)
next
  case (Cons t ts)
  obtain e w1 where mv: "MoveUIDs s us t w = (e, w1)" by fastforce
  have "spares us w w1" using MoveUIDs_spares [OF Cons.prems, where w = w and us = us and dst = t] mv by simp
  then have "spares us w (snd (try_trash s us ts (ip_between s w1)))"
    using Cons spares_between spares_trans by blast
  with \<open>spares us w w1\<close> mv show ?case by (cases e) auto
qed

text \<open>Selecting a folder and running an operation on it.\<close>

lemma with_selected_rule:
  assumes "\<And>w1. sel w1 = folder \<Longrightarrow> (\<And>f m. m \<in> set (msgs f w) \<Longrightarrow> \<exists>m'\<in>set (msgs f w1). same_mail m m') \<Longrightarrow> P (snd (body w1))"
    and "\<And>w1. (\<And>f. msgs f w1 = msgs f w) \<Longrightarrow> P w1"
  shows "P (snd (with_selected s folder body w))"
proof -
  obtain ok w1 where se: "ip_select s folder w = (ok, w1)" by fastforce
  show ?thesis
  proof (cases ok)
    case True
    have "sel (ip_between s w1) = folder" using select_ok se True between_sel by simp
    moreover have "\<exists>m'\<in>set (msgs f (ip_between s w1)). same_mail m m'" if "m \<in> set (msgs f w)" for f m
      using that between_mail [of m f w1] select_keeps [OF se] by simp
    ultimately have "P (snd (body (ip_between s w1)))" by (intro assms(1)) simp_all
    with se True show ?thesis by (simp add: with_selected_def)
  next
    case False
    with assms(2) [of w1] select_keeps [OF se] se show ?thesis by (simp add: with_selected_def)
  qed
qed

definition still_there :: "string \<Rightarrow> box_msg \<Rightarrow> 'm \<Rightarrow> bool" where
  "still_there f m w' = (\<exists>m'\<in>set (msgs f w'). same_mail m m')"

lemma still_thereI: "m \<in> set (msgs f w) \<Longrightarrow> still_there f m w"
  unfolding still_there_def using same_mail_refl by blast

lemma spares_still_there:
  assumes "spares us w1 w2" and "still_there f m w1" and "f \<noteq> sel w1 \<or> bm_uid m \<notin> set us"
  shows "still_there f m w2"
  using assms unfolding spares_def still_there_def same_mail_def by metis

lemma delete_selected_spares:
  assumes "quiet \<or> has_cap s ''UIDPLUS'' \<or> has_cap s ''IMAP4rev2''"
  shows "spares [uid] w (snd (delete_selected s uid permanent w))"
proof (cases permanent)
  case True
  with DeleteUIDs_spares [OF assms, where w = w and us = "[uid]"] show ?thesis
    by (auto simp: delete_selected_def Let_def split: prod.splits option.splits)
next
  case False
  obtain t w1 where tt: "try_trash s [uid] trash_folders w = (t, w1)" by fastforce
  obtain ok w2 where st: "ip_store s True [uid] [deleted_flag] w1 = (ok, w2)" by fastforce
  have s1: "spares [uid] w w1" using try_trash_spares [OF assms, where us = "[uid]" and w = w and ts = trash_folders] tt by simp
  then have "spares [uid] w w2" by (rule spares_trans [OF _ spares_store [OF st]])
  with False tt st s1 show ?thesis by (cases t) (simp_all add: delete_selected_def Let_def)
qed

lemma move_selected_spares:
  assumes "quiet \<or> has_cap s ''UIDPLUS'' \<or> has_cap s ''IMAP4rev2''"
  shows "spares [uid] w (snd (move_selected s uid dst w))"
  using MoveUIDs_spares [OF assms, where w = w and us = "[uid]" and dst = dst]
  by (auto simp: move_selected_def split: prod.splits option.splits)

lemma with_selected_spares:
  assumes "\<And>w1. spares [uid] w1 (snd (body w1))" and "m \<in> set (msgs f w)" and "f \<noteq> folder \<or> bm_uid m \<noteq> uid"
  shows "still_there f m (snd (with_selected s folder body w))"
proof (rule with_selected_rule [where P = "still_there f m"])
  fix w1 assume w1: "sel w1 = folder" "\<And>f m. m \<in> set (msgs f w) \<Longrightarrow> \<exists>m'\<in>set (msgs f w1). same_mail m m'"
  have "still_there f m w1" using w1(2) [OF assms(2)] by (simp add: still_there_def)
  then show "still_there f m (snd (body w1))" by (rule spares_still_there [OF assms(1)]) (use assms(3) w1(1) in auto)
next
  fix w1 assume "\<And>f. msgs f w1 = msgs f w"
  with assms(2) show "still_there f m w1" by (intro still_thereI) simp
qed

lemma DeleteMessage_spares:
  assumes "quiet \<or> has_cap s ''UIDPLUS'' \<or> has_cap s ''IMAP4rev2''"
    and "m \<in> set (msgs f w)" and "f \<noteq> folder \<or> bm_uid m \<noteq> uid"
  shows "still_there f m (snd (DeleteMessage s folder uid permanent w))"
  using with_selected_spares [where body = "delete_selected s uid permanent", OF delete_selected_spares [OF assms(1)] assms(2,3)] still_thereI [OF assms(2)]
  by (simp add: DeleteMessage_def)

lemma MoveMessage_spares:
  assumes "quiet \<or> has_cap s ''UIDPLUS'' \<or> has_cap s ''IMAP4rev2''"
    and "m \<in> set (msgs f w)" and "f \<noteq> folder \<or> bm_uid m \<noteq> uid"
  shows "still_there f m (snd (MoveMessage s folder uid dst w))"
  using with_selected_spares [where body = "move_selected s uid dst", OF move_selected_spares [OF assms(1)] assms(2,3)] still_thereI [OF assms(2)]
  by (simp add: MoveMessage_def)

lemma delete_selected_holds:
  assumes "sel w \<notin> set trash_folders" and "holds_mail [uid] b w"
  shows "holds_mail [uid] b (snd (delete_selected s uid False w))"
proof -
  obtain t w1 where tt: "try_trash s [uid] trash_folders w = (t, w1)" by fastforce
  obtain ok w2 where st: "ip_store s True [uid] [deleted_flag] w1 = (ok, w2)" by fastforce
  have h: "holds_mail [uid] b w1" using try_trash_holds [OF assms] tt by simp
  from holds_store [OF st h] tt st h show ?thesis by (cases t) (simp_all add: delete_selected_def Let_def)
qed

lemma DeleteMessage_holds:
  assumes "folder \<notin> set trash_folders" and "m \<in> set (msgs folder w)" and "bm_uid m = uid"
  shows "\<exists>f. \<exists>m'\<in>set (msgs f (snd (DeleteMessage s folder uid False w))). bm_body m' = bm_body m"
proof -
  have "\<exists>f. \<exists>m'\<in>set (msgs f (snd (with_selected s folder (delete_selected s uid False) w))). bm_body m' = bm_body m"
  proof (rule with_selected_rule)
    fix w1 assume w1: "sel w1 = folder" "\<And>f m. m \<in> set (msgs f w) \<Longrightarrow> \<exists>m'\<in>set (msgs f w1). same_mail m m'"
    from w1(2) [OF assms(2)] obtain m1 where "m1 \<in> set (msgs folder w1)" "same_mail m m1" by blast
    with assms(3) have "holds_mail [uid] (bm_body m) w1" by (intro holds_mailI [of m1 folder]) (auto simp: same_mail_def)
    with delete_selected_holds [of w1 uid "bm_body m"] w1(1) assms(1)
    show "\<exists>f. \<exists>m'\<in>set (msgs f (snd (delete_selected s uid False w1))). bm_body m' = bm_body m"
      unfolding holds_mail_def by blast
  next
    fix w1 assume "\<And>f. msgs f w1 = msgs f w"
    with assms(2) show "\<exists>f. \<exists>m'\<in>set (msgs f w1). bm_body m' = bm_body m" by auto
  qed
  with assms(2) show ?thesis by (auto simp: DeleteMessage_def)
qed

end

section \<open>A reference server\<close>

text \<open>The wording of the RFCs as functions: folders, the selected one and the next UID.\<close>

record mail_store =
  mx_box :: "string \<Rightarrow> box_msg list option"
  mx_sel :: string
  mx_next :: nat

definition messages_in :: "string \<Rightarrow> mail_store \<Rightarrow> box_msg list" where
  "messages_in f w = (case mx_box w f of None \<Rightarrow> [] | Some ms \<Rightarrow> ms)"

definition on_folder :: "string \<Rightarrow> (box_msg list \<Rightarrow> box_msg list) \<Rightarrow> mail_store \<Rightarrow> mail_store" where
  "on_folder f g w = w\<lparr>mx_box := (mx_box w)(f := map_option g (mx_box w f))\<rparr>"

definition flag_msg :: "bool \<Rightarrow> string list \<Rightarrow> box_msg \<Rightarrow> box_msg" where
  "flag_msg add fs m = m\<lparr>bm_flags := (if add then bm_flags m @ fs else filter (\<lambda>x. x \<notin> set fs) (bm_flags m))\<rparr>"

definition arrive :: "string \<Rightarrow> box_msg list \<Rightarrow> mail_store \<Rightarrow> mail_store" where
  "arrive f ms w = (on_folder f (\<lambda>xs. xs @ map (\<lambda>(i, m). m\<lparr>bm_uid := mx_next w + i\<rparr>) (zip [0..<length ms] ms)) w)
     \<lparr>mx_next := mx_next w + length ms\<rparr>"

definition named :: "nat list \<Rightarrow> mail_store \<Rightarrow> box_msg list" where
  "named us w = filter (\<lambda>m. bm_uid m \<in> set us) (messages_in (mx_sel w) w)"

definition rfc_server :: "string list \<Rightarrow> (mail_store \<Rightarrow> mail_store) \<Rightarrow> mail_store imap" where
  "rfc_server caps idle =
     \<lparr>ip_caps = caps,
      ip_select = (\<lambda>f w. if mx_box w f = None then (False, w) else (True, w\<lparr>mx_sel := f\<rparr>)),
      ip_store = (\<lambda>add us fs w. (True, on_folder (mx_sel w) (map (\<lambda>m. if bm_uid m \<in> set us then flag_msg add fs m else m)) w)),
      ip_expunge = (\<lambda>w. (True, on_folder (mx_sel w) (filter (\<lambda>m. deleted_flag \<notin> set (bm_flags m))) w)),
      ip_uid_expunge = (\<lambda>us w. (True, on_folder (mx_sel w) (filter (\<lambda>m. \<not> (deleted_flag \<in> set (bm_flags m) \<and> bm_uid m \<in> set us))) w)),
      ip_search_deleted = (\<lambda>w. Some (map bm_uid (filter (\<lambda>m. deleted_flag \<in> set (bm_flags m)) (messages_in (mx_sel w) w)))),
      ip_copy = (\<lambda>us f w. if mx_box w f = None then (False, w) else (True, arrive f (named us w) w)),
      ip_move = (\<lambda>us f w. if mx_box w f = None then (False, w)
        else (True, arrive f (named us w) (on_folder (mx_sel w) (filter (\<lambda>m. bm_uid m \<notin> set us)) w))),
      ip_between = idle\<rparr>"

lemma messages_in_on_folder:
  "messages_in f (on_folder g h w) = (if f = g \<and> mx_box w f \<noteq> None then h (messages_in f w) else messages_in f w)"
  by (simp add: messages_in_def on_folder_def split: option.splits)

lemma on_folder_sel [simp]: "mx_sel (on_folder f g w) = mx_sel w" "mx_next (on_folder f g w) = mx_next w"
  "mx_box (on_folder f g w) h = None \<longleftrightarrow> mx_box w h = None"
  by (simp_all add: on_folder_def)

lemma messages_in_upd [simp]: "messages_in f (w\<lparr>mx_sel := x\<rparr>) = messages_in f w" "messages_in f (w\<lparr>mx_next := n\<rparr>) = messages_in f w"
  by (simp_all add: messages_in_def)

lemma arrive_sel [simp]: "mx_sel (arrive f ms w) = mx_sel w"
  by (simp add: arrive_def)

lemma arrive_keeps: "m \<in> set (messages_in g w) \<Longrightarrow> m \<in> set (messages_in g (arrive f ms w))"
  by (auto simp: arrive_def messages_in_on_folder)

lemma arrive_arrives:
  assumes "mx_box w f \<noteq> None" and "m \<in> set ms"
  shows "\<exists>m'\<in>set (messages_in f (arrive f ms w)). bm_body m' = bm_body m"
proof -
  obtain i where i: "i < length ms" "ms ! i = m" using assms(2) by (auto simp: in_set_conv_nth)
  then have "zip [0..<length ms] ms ! i = (i, m)" "i < length (zip [0..<length ms] ms)" by simp_all
  then have "(i, m) \<in> set (zip [0..<length ms] ms)" by (metis nth_mem)
  then have "m\<lparr>bm_uid := mx_next w + i\<rparr> \<in> (\<lambda>(i, m). m\<lparr>bm_uid := mx_next w + i\<rparr>) ` set (zip [0..<length ms] ms)" by force
  then show ?thesis using assms(1)
    by (intro bexI [of _ "m\<lparr>bm_uid := mx_next w + i\<rparr>"]) (simp_all add: arrive_def messages_in_on_folder)
qed

interpretation rfc: imap_server "rfc_server caps id" messages_in mx_sel for caps
proof unfold_locales
  fix add us fs w ok w' m f
  assume st: "ip_store (rfc_server caps id) add us fs w = (ok, w')" and m: "m \<in> set (messages_in f w)"
  let ?g = "\<lambda>m. if bm_uid m \<in> set us then flag_msg add fs m else m"
  have w': "w' = on_folder (mx_sel w) (map ?g) w" using st by (simp add: rfc_server_def)
  have "same_mail m (?g m)" by (simp add: same_mail_def flag_msg_def)
  moreover have "?g m \<in> set (messages_in f w') \<or> m \<in> set (messages_in f w')"
    using m unfolding w' messages_in_on_folder by auto
  ultimately show "\<exists>m'\<in>set (messages_in f w'). same_mail m m'" using same_mail_refl by blast
next
  fix us dst w w' m
  assume "ip_copy (rfc_server caps id) us dst w = (True, w')" and "m \<in> set (messages_in (mx_sel w) w)" and "bm_uid m \<in> set us"
  then show "\<exists>m'\<in>set (messages_in dst w'). bm_body m' = bm_body m"
    using arrive_arrives [of w dst m "named us w"] by (auto simp: rfc_server_def named_def split: if_splits)
next
  fix us dst w ok w' m
  assume mv: "ip_move (rfc_server caps id) us dst w = (ok, w')" and m: "m \<in> set (messages_in (mx_sel w) w)" "bm_uid m \<in> set us"
  show "(\<exists>m'\<in>set (messages_in (mx_sel w) w'). same_mail m m') \<or> (\<exists>m'\<in>set (messages_in dst w'). bm_body m' = bm_body m)"
  proof (cases "mx_box w dst")
    case None
    with mv have "w' = w" by (simp add: rfc_server_def)
    with m(1) show ?thesis using same_mail_refl by blast
  next
    case (Some xs)
    with mv m arrive_arrives [of "on_folder (mx_sel w) (filter (\<lambda>m. bm_uid m \<notin> set us)) w" dst m "named us w"]
    show ?thesis by (auto simp: rfc_server_def named_def)
  qed
qed (auto simp: rfc_server_def messages_in_on_folder same_mail_def split: if_splits intro!: arrive_keeps)

section \<open>Only the message named goes\<close>

text \<open>C16: Deleting or moving a message, permanently or to the trash, with whatever outcome, leaves every other
  message of every folder where it is, if the server keeps to the protocol and can remove single messages
  (UIDPLUS, IMAP4rev2) or no other session changes the mailbox meanwhile. That another session removes mail itself is
  left out by the law \<open>between_mail\<close>; lemma \<open>expunge_window\<close> shows the loss where the condition fails.\<close>
theorem delete_spares_other_mail:
  assumes "imap_server s msgs sel" and "undisturbed s msgs \<or> has_cap s ''UIDPLUS'' \<or> has_cap s ''IMAP4rev2''"
    and "m \<in> set (msgs f w)" and "f \<noteq> folder \<or> bm_uid m \<noteq> uid"
  shows "(\<exists>m'\<in>set (msgs f (snd (DeleteMessage s folder uid permanent w))). same_mail m m') \<and>
         (\<exists>m'\<in>set (msgs f (snd (MoveMessage s folder uid dst w))). same_mail m m')"
  using imap_server.DeleteMessage_spares [OF assms] imap_server.MoveMessage_spares [OF assms]
  by (simp add: imap_server.still_there_def [OF assms(1)])

text \<open>C17: A delete that is not permanent loses nothing: whatever the server refuses and whatever other sessions do,
  the message is afterwards in some folder, its own or a trash folder.\<close>
theorem trash_never_loses_mail:
  assumes "imap_server s msgs sel" and "folder \<notin> set trash_folders" and "m \<in> set (msgs folder w)" and "bm_uid m = uid"
  shows "\<exists>f. \<exists>m'\<in>set (msgs f (snd (DeleteMessage s folder uid False w))). bm_body m' = bm_body m"
  by (rule imap_server.DeleteMessage_holds [OF assms])

text \<open>A mailbox with two messages, the second already flagged as deleted, and a trash folder.\<close>

definition two_mails :: mail_store where
  "two_mails = \<lparr>mx_box = [''INBOX'' \<mapsto> [\<lparr>bm_uid = 1, bm_flags = [], bm_body = ''a''\<rparr>, \<lparr>bm_uid = 2, bm_flags = [deleted_flag], bm_body = ''b''\<rparr>],
      ''Trash'' \<mapsto> []], mx_sel = [], mx_next = 3\<rparr>"

lemma rfc_undisturbed: "undisturbed (rfc_server caps id) messages_in"
  by (simp add: undisturbed_def rfc_server_def)

theorem delete_spares_other_mail_witness:
  "(\<exists>m'\<in>set (messages_in ''INBOX'' (snd (DeleteMessage (rfc_server [] id) ''INBOX'' 1 True two_mails))). same_mail \<lparr>bm_uid = 2, bm_flags = [deleted_flag], bm_body = ''b''\<rparr> m') \<and>
   (\<exists>m'\<in>set (messages_in ''INBOX'' (snd (MoveMessage (rfc_server [] id) ''INBOX'' 1 ''Trash'' two_mails))). same_mail \<lparr>bm_uid = 2, bm_flags = [deleted_flag], bm_body = ''b''\<rparr> m')"
  by (rule delete_spares_other_mail [OF rfc.imap_server_axioms])
    (simp_all add: rfc_undisturbed two_mails_def messages_in_def)

theorem trash_never_loses_mail_witness:
  "\<exists>f. \<exists>m'\<in>set (messages_in f (snd (DeleteMessage (rfc_server [] id) ''INBOX'' 1 False two_mails))). bm_body m' = ''a''"
  using trash_never_loses_mail [OF rfc.imap_server_axioms, of "''INBOX''" "\<lparr>bm_uid = 1, bm_flags = [], bm_body = ''a''\<rparr>" two_mails 1 "[]"]
  by (simp add: trash_folders_def two_mails_def messages_in_def)

text \<open>Without UIDPLUS and MOVE, another message flagged as deleted stops the removal of the original after
  its copy has been made: the message is in the trash folder and still in its own, and the result says that no
  trash folder was found. Asking again makes a second copy.\<close>
theorem stopped_removal_reports_no_trash:
  "let (r, w) = DeleteMessage (rfc_server [] id) ''INBOX'' 1 False two_mails;
       (r', w') = DeleteMessage (rfc_server [] id) ''INBOX'' 1 False w in
   r = Inr \<lparr>dr_UID = 1, dr_Permanent = False, dr_Trash = [], dr_NoTrash = True\<rparr> \<and> r' = r \<and>
   map bm_body (messages_in ''INBOX'' w) = [''a'', ''b''] \<and> map bm_body (messages_in ''Trash'' w) = [''a''] \<and>
   map bm_body (messages_in ''Trash'' w') = [''a'', ''a'']"
  by code_simp

text \<open>Another session that flags a message between the SEARCH and the EXPUNGE of the fallback loses it.\<close>

definition late_flagger :: "mail_store \<Rightarrow> mail_store" where
  "late_flagger w = (if mx_next w = 5 then on_folder ''INBOX'' (map (flag_msg True [deleted_flag])) w else w)\<lparr>mx_next := mx_next w + 1\<rparr>"

definition clean_mails :: mail_store where
  "clean_mails = \<lparr>mx_box = [''INBOX'' \<mapsto> [\<lparr>bm_uid = 1, bm_flags = [], bm_body = ''a''\<rparr>, \<lparr>bm_uid = 2, bm_flags = [], bm_body = ''b''\<rparr>]],
      mx_sel = [], mx_next = 3\<rparr>"

lemma expunge_window:
  "map bm_uid (messages_in ''INBOX'' (snd (DeleteMessage (rfc_server [] late_flagger) ''INBOX'' 1 True clean_mails))) = [] \<and>
   map bm_uid (messages_in ''INBOX'' (snd (DeleteMessage (rfc_server [''UIDPLUS''] late_flagger) ''INBOX'' 1 True clean_mails))) = [2]"
  by code_simp

section \<open>Pages\<close>

lemma clampUint32_id: "0 \<le> n \<Longrightarrow> n < 2 ^ 32 \<Longrightarrow> uint (clampUint32 n) = n"
  by (auto simp: clampUint32_def unsigned_of_int take_bit_eq_mod)

lemma unat_clamp: "0 \<le> n \<Longrightarrow> n < 2 ^ 32 \<Longrightarrow> unat (clampUint32 n) = nat n"
  by (metis clampUint32_id unat_eq_nat_uint)

lemma page_limit_range: "0 < page_limit l \<and> page_limit l \<le> 200"
  by (simp add: page_limit_def)

lemma page_offset_nonneg: "0 \<le> page_offset o0"
  by (simp add: page_offset_def)

lemma unat_length: "length ms < 2 ^ 32 \<Longrightarrow> unat (word_of_nat (length ms) :: 32 word) = length ms"
  by (simp add: unsigned_of_nat take_bit_eq_mod)

lemma uint_length: "length ms < 2 ^ 32 \<Longrightarrow> uint (word_of_nat (length ms) :: 32 word) = int (length ms)"
  by (simp add: unsigned_of_nat take_bit_eq_mod flip: uint_nat)

lemma newest_slice: "take l (drop n (rev ms)) = rev (take (length ms - n - (length ms - n - l)) (drop (length ms - n - l) ms))"
  by (simp add: drop_rev take_rev drop_take)

lemma page_ascending:
  assumes "0 \<le> offset" "offset < int (length ms)" "0 < limit" "length ms < 2 ^ 32"
  shows "fetch_seq ms (clampUint32 (offset + 1), clampUint32 (min (offset + limit) (int (length ms)))) = take (nat limit) (drop (nat offset) ms)"
proof -
  have "nat offset < length ms" using assms(1,2) by simp
  moreover have "unat (clampUint32 (offset + 1)) = nat offset + 1" using assms by (subst unat_clamp) auto
  moreover have "unat (clampUint32 (min (offset + limit) (int (length ms)))) = min (nat offset + nat limit) (length ms)"
    using assms by (subst unat_clamp) (auto simp: min_def)
  ultimately show ?thesis by (auto simp: fetch_seq_def min_def)
qed

lemma page_descending:
  assumes "0 \<le> offset" "offset < int (length ms)" "0 < limit" "limit \<le> 200" "length ms < 2 ^ 32"
  defines "z \<equiv> word_of_nat (length ms) - clampUint32 offset"
  shows "rev (fetch_seq ms (if limit < uint z then z - clampUint32 limit + 1 else 1, z)) = take (nat limit) (drop (nat offset) (rev ms))"
proof -
  have o: "unat (clampUint32 offset) = nat offset" "unat (clampUint32 limit) = nat limit" using assms by (auto intro!: unat_clamp)
  have n: "unat (word_of_nat (length ms) :: 32 word) = length ms" by (rule unat_length [OF assms(5)])
  have "clampUint32 offset \<le> word_of_nat (length ms)" unfolding word_le_nat_alt n o(1) using assms(1,2) by simp
  from unat_sub [OF this] have l: "unat z = length ms - nat offset" unfolding z_def n o(1) .
  have ul: "uint z = int (length ms - nat offset)" by (simp only: uint_nat l)
  show ?thesis
  proof (cases "limit < uint z")
    case True
    then have big: "nat limit < length ms - nat offset" using ul assms(3) by simp
    have "clampUint32 limit \<le> z" unfolding word_le_nat_alt l o(2) using big by simp
    from unat_sub [OF this] have d: "unat (z - clampUint32 limit) = length ms - nat offset - nat limit" unfolding l o(2) .
    have "unat (z - clampUint32 limit) + unat (1 :: 32 word) < 2 ^ LENGTH(32)" unfolding d using assms(5) big assms(3) by simp
    from unat_add_lem [THEN iffD1, OF this]
    have "unat (z - clampUint32 limit + 1) = length ms - nat offset - nat limit + 1" unfolding d by simp
    with True big l show ?thesis by (simp add: fetch_seq_def newest_slice)
  next
    case False
    then have "length ms - nat offset \<le> nat limit" using ul assms(3) by simp
    with False l assms(2) show ?thesis by (simp add: fetch_seq_def newest_slice)
  qed
qed

text \<open>C19: For a folder of fewer than \<open>2 ^ 32\<close> messages the sequence numbers of a page, computed on 32-bit words,
  select the messages that counting in the list would: the page at an offset, from the oldest or from the
  newest on, for every limit and offset a caller may send, the negative and the huge ones included.\<close>
theorem page_is_slice:
  assumes "length ms < 2 ^ 32"
  shows "ListMessages ms limit offset ascending =
    take (nat (page_limit limit)) (drop (nat (page_offset offset)) (if ascending then ms else rev ms))"
proof (cases "ms = [] \<or> int (length ms) \<le> page_offset offset")
  case True
  then show ?thesis using assms by (auto simp: ListMessages_def page_range_def uint_length)
next
  case False
  then have ne: "(word_of_nat (length ms) :: 32 word) \<noteq> 0" using unat_length [OF assms] by auto
  with False page_ascending [of "page_offset offset" ms "page_limit limit"] page_descending [of "page_offset offset" ms "page_limit limit"]
    page_limit_range [of limit] page_offset_nonneg [of offset] assms
  show ?thesis by (simp add: ListMessages_def page_range_def uint_length Let_def)
qed

theorem page_is_slice_witness:
  "ListMessages [1 :: nat, 2, 3, 4, 5] 2 1 False = [4, 3] \<and> ListMessages [1 :: nat, 2, 3, 4, 5] 0 (2 ^ 40) True = []"
  using page_is_slice [of "[1 :: nat, 2, 3, 4, 5]" 2 1 False] page_is_slice [of "[1 :: nat, 2, 3, 4, 5]" 0 "2 ^ 40" True]
  by (simp add: page_limit_def page_offset_def)

end
