(* ===== verification/Threads.thy ===== *)
theory Threads
  imports Syncer "HOL-Library.Option_ord"
begin

text \<open>
  Conversations (\<open>internal/service/thread.go\<close>): the cached part of a thread, the live search of the
  server, and how the two are merged, ordered and cut. The IMAP server is a parameter. A date is the
  instant its UTC text stands for; a live message without an internal date has none and sorts first, as its
  empty text does.
\<close>

record thread_params =
  tp_Account :: string
  tp_ThreadID :: string
  tp_Live :: bool
  tp_Folders :: "string list"
  tp_Limit :: int
  tp_PreferLive :: bool

record thread_message =
  th_Account :: string
  th_Folder :: string
  th_UID :: nat
  th_MessageID :: string
  th_Subject :: string
  th_From :: string
  th_Date :: "int option"
  th_Flags :: "string list"
  th_Live :: bool   \<comment> \<open>Source: live, else cache\<close>

record thread_result =
  tr_ThreadID :: string
  tr_Messages :: "thread_message list"
  tr_LiveSearch :: bool
  tr_Truncated :: bool
  tr_Errors :: "(string \<times> string) list"

definition threadLiveFolderCap :: nat where "threadLiveFolderCap = 500"

datatype live_search = NotSelected | SearchError | FoundUIDs "nat list"

record thread_server =
  ts_conn :: "string \<Rightarrow> bool"
  ts_list :: "string \<Rightarrow> (string \<times> string list) list option"
  ts_search :: "string \<Rightarrow> string \<Rightarrow> string \<Rightarrow> live_search"   \<comment> \<open>Message-ID, References or In-Reply-To\<close>
  ts_fetch :: "string \<Rightarrow> string \<Rightarrow> nat list \<Rightarrow> thread_message list option"

section \<open>The cache\<close>

definition cached_msg :: "msg_row \<Rightarrow> thread_message" where
  "cached_msg m =
     \<lparr>th_Account = m_account m, th_Folder = m_folder m, th_UID = m_uid m, th_MessageID = trim_angle (m_message_id m),
      th_Subject = m_subject m,
      th_From = (if m_from_name m \<noteq> [] then m_from_name m @ '' <'' @ m_from_addr m @ ''>'' else m_from_addr m),
      th_Date = Some (m_internal_date m), th_Flags = m_flags m, th_Live = False\<rparr>"

definition account_name :: "string \<Rightarrow> string \<Rightarrow> string" where
  "account_name dflt account = (if account = [] \<or> account = ''_default'' then dflt else account)"

definition cachedThread :: "string \<Rightarrow> msg_row list option \<Rightarrow> thread_params \<Rightarrow> thread_message list \<times> bool" where
  "cachedThread dflt cache p =
     (case cache of
        None \<Rightarrow> ([], False)
      | Some rows \<Rightarrow>
          (let ms = map cached_msg (take 1000 (sort_key m_internal_date
             (filter (\<lambda>m. m_thread_id m = tp_ThreadID p \<and> (tp_Account p = [] \<or> m_account m = account_name dflt (tp_Account p))) rows)))
           in (ms, list_ex (\<lambda>m. th_MessageID m = tp_ThreadID p) ms)))"

definition threadAccounts :: "string \<Rightarrow> string list \<Rightarrow> string \<Rightarrow> thread_message list \<Rightarrow> string list" where
  "threadAccounts dflt accounts account cached =
     (if account \<noteq> [] then [account_name dflt account]
      else (let out = rev (remdups (rev (map th_Account cached))) in if out \<noteq> [] then out else accounts))"

section \<open>The live search\<close>

text \<open>The first mailbox with the attribute \<open>All\<close> alone, else INBOX and those for sent and archived mail.\<close>

fun thread_folders :: "(string \<times> string list) list \<Rightarrow> string list \<Rightarrow> string list" where
  "thread_folders [] acc = acc"
| "thread_folders ((n, []) # bs) acc = thread_folders bs acc"
| "thread_folders ((n, a # as) # bs) acc =
     (if a = CHR 0x5C # ''All'' then [n]
      else thread_folders ((n, as) # bs) (if a = CHR 0x5C # ''Sent'' \<or> a = CHR 0x5C # ''Archive'' then acc @ [n] else acc))"

definition threadFolders :: "(string \<times> string list) list \<Rightarrow> string list" where
  "threadFolders bs = thread_folders bs [''INBOX'']"

text \<open>An error in one folder drops what the folders before gave.\<close>

fun search_folders :: "thread_server \<Rightarrow> string \<Rightarrow> string \<Rightarrow> string list \<Rightarrow> string + thread_message list" where
  "search_folders s account tid [] = Inr []"
| "search_folders s account tid (f # fs) =
     (case ts_search s account f tid of
        NotSelected \<Rightarrow> search_folders s account tid fs
      | SearchError \<Rightarrow> Inl (''search '' @ f)
      | FoundUIDs us0 \<Rightarrow>
          (if us0 = [] then search_folders s account tid fs
           else (case ts_fetch s account f (drop (length us0 - threadLiveFolderCap) us0) of
               None \<Rightarrow> Inl (''fetch '' @ f)
             | Some ms \<Rightarrow>
                 (case search_folders s account tid fs of
                    Inl e \<Rightarrow> Inl e
                  | Inr rest \<Rightarrow> Inr (map (\<lambda>m. m\<lparr>th_Account := account, th_Folder := f, th_Live := True\<rparr>) ms @ rest)))))"

definition liveThreadAccount :: "thread_server \<Rightarrow> thread_params \<Rightarrow> string \<Rightarrow> string + thread_message list" where
  "liveThreadAccount s p account =
     (if \<not> ts_conn s account then Inl ''account''
      else if tp_Folders p \<noteq> [] then search_folders s account (tp_ThreadID p) (tp_Folders p)
      else (case ts_list s account of
          None \<Rightarrow> Inl ''list folders''
        | Some bs \<Rightarrow> search_folders s account (tp_ThreadID p) (threadFolders bs)))"

definition liveThread :: "thread_server \<Rightarrow> thread_params \<Rightarrow> string list \<Rightarrow> thread_message list \<times> (string \<times> string) list" where
  "liveThread s p accounts =
     (concat (map (\<lambda>a. case liveThreadAccount s p a of Inl e \<Rightarrow> [] | Inr ms \<Rightarrow> ms) accounts),
      concat (map (\<lambda>a. case liveThreadAccount s p a of Inl e \<Rightarrow> [(a, e)] | Inr ms \<Rightarrow> []) accounts))"

section \<open>Merging\<close>

text \<open>The key of a message; the code joins the parts with a zero byte.\<close>

definition thread_key :: "thread_message \<Rightarrow> string" where
  "thread_key m =
     (if th_MessageID m \<noteq> [] then th_Account m @ CHR 0x00 # th_MessageID m
      else th_Account m @ CHR 0x00 # th_Folder m @ CHR 0x00 # show_nat (th_UID m))"

fun add_new :: "string list \<Rightarrow> thread_message list \<Rightarrow> thread_message list" where
  "add_new seen [] = []"
| "add_new seen (m # ms) =
     (if thread_key m \<in> set seen then add_new seen ms else m # add_new (thread_key m # seen) ms)"

definition mergeThread :: "thread_message list \<Rightarrow> thread_message list \<Rightarrow> thread_message list" where
  "mergeThread first second = first @ add_new (map thread_key first) second"

section \<open>The conversation\<close>

definition thread_limit :: "int \<Rightarrow> nat" where
  "thread_limit l = (if l \<le> 0 \<or> l > 500 then 100 else nat l)"

text \<open>What the thread consists of, before it is ordered and cut.\<close>

definition thread_parts ::
  "thread_server \<Rightarrow> string \<Rightarrow> string list \<Rightarrow> msg_row list option \<Rightarrow> thread_params \<Rightarrow>
   (thread_message list \<times> thread_message list \<times> (string \<times> string) list) \<times> bool" where
  "thread_parts s dflt accounts cache p =
     (case cachedThread dflt cache p of
        (cached, rootCached) \<Rightarrow>
          (if tp_Live p \<or> cached = [] \<or> \<not> rootCached
           then (case liveThread s p (threadAccounts dflt accounts (tp_Account p) cached) of (live, errs) \<Rightarrow> ((cached, live, errs), True))
           else ((cached, [], []), False)))"

definition GetThread ::
  "thread_server \<Rightarrow> string \<Rightarrow> string list \<Rightarrow> msg_row list option \<Rightarrow> thread_params \<Rightarrow> thread_result option" where
  "GetThread s dflt accounts cache p0 =
     (let p = p0\<lparr>tp_ThreadID := trim_angle (trim_space (tp_ThreadID p0))\<rparr>; limit = thread_limit (tp_Limit p0) in
      if tp_ThreadID p = [] then None
      else (case thread_parts s dflt accounts cache p of
          ((cached, live, errs), searched) \<Rightarrow>
            (let ms = sort_key th_Date (if \<not> searched then cached else if tp_PreferLive p then mergeThread live cached else mergeThread cached live)
             in Some \<lparr>tr_ThreadID = tp_ThreadID p, tr_Messages = take limit ms, tr_LiveSearch = searched,
                      tr_Truncated = (limit < length ms), tr_Errors = errs\<rparr>)))"

end
