(* ===== verification/Threads_Props.thy ===== *)
theory Threads_Props
  imports Threads
begin

text \<open>
  A conversation is complete, ordered and within its limit, and where cache and server disagree about the
  place of a message the asked-for source wins.
\<close>

lemma add_new_keys: "thread_key ` set (add_new seen ms) = thread_key ` set ms - set seen"
  by (induction seen ms rule: add_new.induct) auto

lemma add_new_subset: "set (add_new seen ms) \<subseteq> set ms"
  by (induction seen ms rule: add_new.induct) auto

lemma add_new_distinct: "distinct (map thread_key (add_new seen ms))"
proof (induction seen ms rule: add_new.induct)
  case (2 seen m ms)
  have "thread_key m \<notin> thread_key ` set (add_new (thread_key m # seen) ms)" by (simp add: add_new_keys)
  with 2 show ?case by simp
qed simp

lemma mergeThread_keys: "thread_key ` set (mergeThread a b) = thread_key ` (set a \<union> set b)"
  by (auto simp: mergeThread_def add_new_keys image_Un)

text \<open>The message of the first list wins over one with its key in the second, which is taken once.\<close>

lemma mergeThread_first:
  "set a \<subseteq> set (mergeThread a b) \<and>
   list_all (\<lambda>m. m \<in> set a \<or> m \<in> set b \<and> thread_key m \<notin> thread_key ` set a) (mergeThread a b)"
proof -
  have "thread_key m \<notin> thread_key ` set a" if "m \<in> set (add_new (map thread_key a) b)" for m
    using that add_new_keys [of "map thread_key a" b] by fastforce
  moreover have "m \<in> set b" if "m \<in> set (add_new (map thread_key a) b)" for m
    using that add_new_subset [of "map thread_key a" b] by blast
  ultimately show ?thesis by (auto simp: mergeThread_def list_all_iff)
qed

definition thread_all :: "bool \<Rightarrow> bool \<Rightarrow> thread_message list \<Rightarrow> thread_message list \<Rightarrow> thread_message list" where
  "thread_all searched prefer cached live =
     (if \<not> searched then cached else if prefer then mergeThread live cached else mergeThread cached live)"

lemma thread_limit_le: "thread_limit l \<le> 500"
  by (auto simp: thread_limit_def)

lemma thread_parts_unsearched: "thread_parts s dflt accounts cache p = ((cached, live, errs), False) \<Longrightarrow> live = []"
  by (auto simp: thread_parts_def split: prod.splits if_splits)

lemma in_cut: "m \<in> set (take n (sort_key f xs)) \<Longrightarrow> m \<in> set xs"
  by (metis in_set_takeD set_sort)

text \<open>C35: A conversation is ordered by date and holds at most five hundred messages. When the limit does not cut
  it, it shows, up to the identity of a message, all that the cache and the live search gave and nothing
  else; otherwise it says that it was cut.\<close>
theorem thread_is_complete_or_says_so:
  "case GetThread s dflt accounts cache p of
     None \<Rightarrow> trim_angle (trim_space (tp_ThreadID p)) = []
   | Some r \<Rightarrow>
       (case fst (thread_parts s dflt accounts cache (p\<lparr>tp_ThreadID := tr_ThreadID r\<rparr>)) of
          (cached, live, errs) \<Rightarrow>
            sorted (map th_Date (tr_Messages r)) \<and> length (tr_Messages r) \<le> thread_limit (tp_Limit p) \<and> thread_limit (tp_Limit p) \<le> 500 \<and>
            tr_Errors r = errs \<and>
            (if tr_Truncated r then length (tr_Messages r) = thread_limit (tp_Limit p)
             else thread_key ` set (tr_Messages r) = thread_key ` (set cached \<union> set live)))"
proof -
  let ?p = "p\<lparr>tp_ThreadID := trim_angle (trim_space (tp_ThreadID p))\<rparr>"
  obtain cached live errs searched where tp: "thread_parts s dflt accounts cache ?p = ((cached, live, errs), searched)"
    by (metis prod.exhaust)
  have un: "\<not> searched \<Longrightarrow> live = []" using thread_parts_unsearched tp by auto
  show ?thesis
    using tp un thread_limit_le [of "tp_Limit p"] sorted_wrt_take
    by (auto simp: GetThread_def Let_def mergeThread_keys take_map [symmetric] sorted_wrt_take image_Un)
qed

text \<open>With the live location preferred, a message that is both cached and on the server is shown where the
  server has it, cached copies only fill in what the search did not find.\<close>
theorem preferred_source_wins:
  "case GetThread s dflt accounts cache p of
     None \<Rightarrow> trim_angle (trim_space (tp_ThreadID p)) = []
   | Some r \<Rightarrow>
       (case fst (thread_parts s dflt accounts cache (p\<lparr>tp_ThreadID := tr_ThreadID r\<rparr>)) of
          (cached, live, errs) \<Rightarrow>
            (if tp_PreferLive p \<and> tr_LiveSearch r then
               list_all (\<lambda>m. m \<in> set live \<or> m \<in> set cached \<and> thread_key m \<notin> thread_key ` set live) (tr_Messages r) \<and>
               (tr_Truncated r \<or> set live \<subseteq> set (tr_Messages r))
             else list_all (\<lambda>m. m \<in> set cached \<or> m \<in> set live \<and> thread_key m \<notin> thread_key ` set cached) (tr_Messages r) \<and>
               (tr_Truncated r \<or> set cached \<subseteq> set (tr_Messages r))))"
proof -
  let ?p = "p\<lparr>tp_ThreadID := trim_angle (trim_space (tp_ThreadID p))\<rparr>"
  obtain cached live errs searched where tp: "thread_parts s dflt accounts cache ?p = ((cached, live, errs), searched)"
    by (metis prod.exhaust)
  have un: "\<not> searched \<Longrightarrow> live = []" using thread_parts_unsearched tp by auto
  show ?thesis
    using tp un mergeThread_first [of live cached] mergeThread_first [of cached live]
    by (auto simp: GetThread_def Let_def list_all_iff dest!: in_cut)
qed

end
