(* ===== verification/Export.thy ===== *)
theory Export
  imports Threads Mailbox
begin

text \<open>
  Exporting messages (\<open>internal/service/export.go\<close>): the selection, the two passes over the server
  with the size cap between them, and the mboxrd format. The IMAP server is a parameter; so is the text
  of a date. Every fetch of message bodies is recorded.
\<close>

record export_ref =
  rf_Account :: string
  rf_Folder :: string
  rf_UID :: nat

record raw_message =
  rw_from :: string
  rw_date :: "int option"
  rw_data :: string

record export_params =
  xp_Account :: string
  xp_Folder :: string
  xp_UID :: nat
  xp_UIDs :: "nat list"
  xp_ThreadID :: string
  xp_From :: string
  xp_MaxMessages :: int
  xp_MaxBytes :: int

record export_result =
  xr_Format :: string
  xr_Count :: nat
  xr_Missing :: int
  xr_Bytes :: nat
  xr_Messages :: "export_ref list"
  xr_Data :: string

datatype export_error =
    OneSelector | FolderRequired | ThreadInvalid | ThreadUpstream "string \<times> string" | SearchRefused | OverMessageCap nat
  | TooManyMatches nat | NothingMatched | FetchRefused | NotAllFound nat nat | OverByteCap int | NoneLeft

text \<open>The account, folder and UIDs of a fetch. The envelope's address may be missing.\<close>

record export_server =
  xs_sizes :: "string \<Rightarrow> string \<Rightarrow> nat list \<Rightarrow> (nat \<times> int) list option"
  xs_bodies :: "string \<Rightarrow> string \<Rightarrow> nat list \<Rightarrow> (nat \<times> string option \<times> int option \<times> string) list option"

section \<open>Fetching\<close>

type_synonym ref_groups = "((string \<times> string) \<times> nat list) list"

fun add_ref :: "export_ref \<Rightarrow> ref_groups \<Rightarrow> ref_groups" where
  "add_ref r [] = [((rf_Account r, rf_Folder r), [rf_UID r])]"
| "add_ref r ((k, us) # gs) =
     (if k = (rf_Account r, rf_Folder r) then (k, us @ [rf_UID r]) # gs else (k, us) # add_ref r gs)"

definition group_refs :: "export_ref list \<Rightarrow> ref_groups" where
  "group_refs rs = fold add_ref rs []"

text \<open>The sizes of the messages present; unless tolerant every reference has to be there.\<close>

fun size_pass :: "export_server \<Rightarrow> bool \<Rightarrow> ref_groups \<Rightarrow> export_error + (int \<times> ref_groups)" where
  "size_pass s tolerant [] = Inr (0, [])"
| "size_pass s tolerant (((a, f), us) # gs) =
     (case xs_sizes s a f us of
        None \<Rightarrow> Inl FetchRefused
      | Some ms \<Rightarrow>
          (if length ms \<noteq> length us \<and> \<not> tolerant then Inl (NotAllFound (length us - length ms) (length us))
           else (case size_pass s tolerant gs of
               Inl e \<Rightarrow> Inl e
             | Inr (n, gs') \<Rightarrow> Inr (sum_list (map snd ms) + n, ((a, f), map fst ms) # gs'))))"

definition raw_of :: "string option \<times> int option \<times> string \<Rightarrow> raw_message" where
  "raw_of m = (case m of (from, dt, b) \<Rightarrow>
     \<lparr>rw_from = (case from of Some a \<Rightarrow> (if a \<noteq> [] then a else ''MAILER-DAEMON'') | None \<Rightarrow> ''MAILER-DAEMON''), rw_date = dt, rw_data = b\<rparr>)"

definition by_ref :: "string \<Rightarrow> string \<Rightarrow> (nat \<times> string option \<times> int option \<times> string) list \<Rightarrow> (export_ref \<times> raw_message) list" where
  "by_ref a f ms = map (\<lambda>(u, m). (\<lparr>rf_Account = a, rf_Folder = f, rf_UID = u\<rparr>, raw_of m)) ms"

text \<open>The bodies, with the fetches made; later entries replace earlier ones of the same reference.\<close>

fun body_pass :: "export_server \<Rightarrow> ref_groups \<Rightarrow> (export_error + (export_ref \<times> raw_message) list) \<times> ref_groups" where
  "body_pass s [] = (Inr [], [])"
| "body_pass s (((a, f), us) # gs) =
     (if us = [] then body_pass s gs
      else (case xs_bodies s a f us of
          None \<Rightarrow> (Inl FetchRefused, [((a, f), us)])
        | Some ms \<Rightarrow>
            (case body_pass s gs of
               (Inl e, dl) \<Rightarrow> (Inl e, ((a, f), us) # dl)
             | (Inr rest, dl) \<Rightarrow> (Inr (by_ref a f ms @ rest), ((a, f), us) # dl))))"

definition found_refs :: "(export_ref \<times> raw_message) list \<Rightarrow> export_ref list \<Rightarrow> (raw_message \<times> export_ref) list" where
  "found_refs m rs = concat (map (\<lambda>r. case map_of (rev m) r of None \<Rightarrow> [] | Some x \<Rightarrow> [(x, r)]) rs)"

definition fetchRaw ::
  "export_server \<Rightarrow> export_ref list \<Rightarrow> int \<Rightarrow> bool \<Rightarrow> (export_error + (raw_message \<times> export_ref) list) \<times> ref_groups" where
  "fetchRaw s rs maxBytes tolerant =
     (case size_pass s tolerant (group_refs rs) of
        Inl e \<Rightarrow> (Inl e, [])
      | Inr (n, gs) \<Rightarrow>
          (if 0 < maxBytes \<and> maxBytes < n then (Inl (OverByteCap n), [])
           else (case body_pass s gs of
               (Inl e, dl) \<Rightarrow> (Inl e, dl)
             | (Inr m, dl) \<Rightarrow> (Inr (found_refs m rs), dl))))"

section \<open>The mbox format\<close>

definition is_from_line :: "string \<Rightarrow> bool" where
  "is_from_line l = has_prefix (dropWhile (\<lambda>c. c = CHR ''>'') l) ''From ''"

text \<open>\<open>bytes.SplitAfter\<close> at the newline, without the empty parts.\<close>

fun split_after :: "string \<Rightarrow> string list" where
  "split_after [] = []"
| "split_after (c # cs) =
     (if c = newline_char then [c] # split_after cs
      else (case split_after cs of [] \<Rightarrow> [[c]] | l # ls \<Rightarrow> (c # l) # ls))"

definition quote_line :: "string \<Rightarrow> string" where
  "quote_line l = (if is_from_line l then CHR ''>'' # l else l)"

definition unix_lines :: "string \<Rightarrow> string" where
  "unix_lines s = replace_all [CHR 0x0D, newline_char] [newline_char] s"

text \<open>\<open>fmt\<close> writes a date; a message without one gets the epoch.\<close>

definition from_line :: "(int \<Rightarrow> string) \<Rightarrow> raw_message \<Rightarrow> string" where
  "from_line fmt m = ''From '' @ rw_from m @ '' '' @ fmt (case rw_date m of None \<Rightarrow> 0 | Some t \<Rightarrow> t) @ [newline_char]"

definition writeMboxrd :: "(int \<Rightarrow> string) \<Rightarrow> raw_message \<Rightarrow> string" where
  "writeMboxrd fmt m =
     (let d = unix_lines (rw_data m) in
      from_line fmt m @ concat (map quote_line (split_after d)) @
      (if has_suffix d [newline_char] then [] else [newline_char]) @ [newline_char])"

section \<open>The export\<close>

text \<open>\<open>thread\<close> is \<open>GetThread\<close> on the running service, \<open>search\<close> the search by sender: the number of matches and
  the UIDs shown.\<close>

record export_lookups =
  xl_thread :: "thread_params \<Rightarrow> thread_result option"
  xl_search :: "string \<Rightarrow> string \<Rightarrow> string \<Rightarrow> (nat \<times> nat list) option"
  xl_account :: "string \<Rightarrow> string"

definition selectors :: "export_params \<Rightarrow> nat" where
  "selectors p = length (filter id [xp_UID p \<noteq> 0, xp_UIDs p \<noteq> [], xp_ThreadID p \<noteq> [], xp_From p \<noteq> []])"

definition thread_export_limit :: "int \<Rightarrow> int" where
  "thread_export_limit n = (if 0 < n \<and> n < 500 then n + 1 else 500)"

definition thread_refs :: "export_lookups \<Rightarrow> export_params \<Rightarrow> export_error + export_ref list" where
  "thread_refs lk p =
     (case xl_thread lk \<lparr>tp_Account = xp_Account p, tp_ThreadID = xp_ThreadID p, tp_Live = True, tp_Folders = [],
             tp_Limit = thread_export_limit (xp_MaxMessages p), tp_PreferLive = True\<rparr> of
        None \<Rightarrow> Inl ThreadInvalid
      | Some th \<Rightarrow>
          (case (tr_Errors th, tr_Messages th) of
             (e # es, []) \<Rightarrow> Inl (ThreadUpstream e)
           | (es, ms) \<Rightarrow> Inr (map (\<lambda>m. \<lparr>rf_Account = th_Account m, rf_Folder = th_Folder m, rf_UID = th_UID m\<rparr>) ms)))"

definition sender_refs :: "export_lookups \<Rightarrow> export_params \<Rightarrow> export_error + export_ref list" where
  "sender_refs lk p =
     (let folder = (if xp_Folder p = [] then ''INBOX'' else xp_Folder p) in
      case xl_search lk (xp_Account p) folder (xp_From p) of
        None \<Rightarrow> Inl SearchRefused
      | Some (n, us) \<Rightarrow>
          (if 0 < xp_MaxMessages p \<and> xp_MaxMessages p < int n then Inl (OverMessageCap n)
           else if length us < n then Inl (TooManyMatches n)
           else Inr (map (\<lambda>u. \<lparr>rf_Account = xl_account lk (xp_Account p), rf_Folder = folder, rf_UID = u\<rparr>) us)))"

text \<open>The references and whether one message or a batch is exported.\<close>

definition export_refs :: "export_lookups \<Rightarrow> export_params \<Rightarrow> export_error + (export_ref list \<times> string)" where
  "export_refs lk p =
     (if selectors p \<noteq> 1 then Inl OneSelector
      else if xp_UID p \<noteq> 0 then
        (if xp_Folder p = [] then Inl FolderRequired
         else Inr ([\<lparr>rf_Account = xl_account lk (xp_Account p), rf_Folder = xp_Folder p, rf_UID = xp_UID p\<rparr>], ''eml''))
      else if xp_UIDs p \<noteq> [] then
        (if xp_Folder p = [] then Inl FolderRequired
         else Inr (map (\<lambda>u. \<lparr>rf_Account = xl_account lk (xp_Account p), rf_Folder = xp_Folder p, rf_UID = u\<rparr>) (xp_UIDs p), ''mbox''))
      else (case (if xp_ThreadID p \<noteq> [] then thread_refs lk p else sender_refs lk p) of
          Inl e \<Rightarrow> Inl e
        | Inr rs \<Rightarrow> Inr (rs, ''mbox'')))"

definition exported :: "(int \<Rightarrow> string) \<Rightarrow> string \<Rightarrow> export_ref list \<Rightarrow> (raw_message \<times> export_ref) list \<Rightarrow> export_result" where
  "exported fmt kind rs ms =
     (let d = (if kind = ''eml'' then rw_data (fst (hd ms)) else concat (map (\<lambda>m. writeMboxrd fmt (fst m)) ms)) in
      \<lparr>xr_Format = kind, xr_Count = length ms, xr_Missing = int (length rs) - int (length ms), xr_Bytes = length d,
       xr_Messages = map snd ms, xr_Data = d\<rparr>)"

definition Export ::
  "export_lookups \<Rightarrow> export_server \<Rightarrow> (int \<Rightarrow> string) \<Rightarrow> export_params \<Rightarrow> (export_error + export_result) \<times> ref_groups" where
  "Export lk s fmt p =
     (case export_refs lk p of
        Inl e \<Rightarrow> (Inl e, [])
      | Inr (rs, kind) \<Rightarrow>
          (if rs = [] then (Inl NothingMatched, [])
           else if kind = ''mbox'' \<and> 0 < xp_MaxMessages p \<and> xp_MaxMessages p < int (length rs) then (Inl (OverMessageCap (length rs)), [])
           else (case fetchRaw s rs (xp_MaxBytes p) (xp_ThreadID p \<noteq> []) of
               (Inl e, dl) \<Rightarrow> (Inl e, dl)
             | (Inr ms, dl) \<Rightarrow> (if ms = [] then (Inl NoneLeft, dl) else (Inr (exported fmt kind rs ms), dl)))))"

end
