(* ===== verification/Export_Props.thy ===== *)
theory Export_Props
  imports Export
begin

text \<open>
  The mbox written can be read back, the size cap holds before any content is fetched, and what the message
  cap sees of a thread.
\<close>

section \<open>Lines\<close>

text \<open>A line is a text without a newline, then the newline.\<close>

definition is_line :: "string \<Rightarrow> bool" where
  "is_line l = (\<exists>b. l = b @ [newline_char] \<and> newline_char \<notin> set b)"

lemma split_after_line: "newline_char \<notin> set b \<Longrightarrow> split_after (b @ newline_char # s) = (b @ [newline_char]) # split_after s"
  by (induction b) auto

lemma split_after_lines: "list_all is_line ls \<Longrightarrow> split_after (concat ls @ s) = ls @ split_after s"
proof (induction ls)
  case (Cons l ls)
  then obtain b where "l = b @ [newline_char]" "newline_char \<notin> set b" by (auto simp: is_line_def)
  with Cons split_after_line [of b "concat ls @ s"] show ?case by simp
qed simp

lemma split_after_nonempty: "s \<noteq> [] \<Longrightarrow> split_after s \<noteq> []"
  by (cases s) (auto split: list.splits)

lemma split_after_ended: "list_all is_line (split_after (s @ [newline_char]))"
proof (induction s)
  case Nil
  then show ?case by (auto simp: is_line_def)
next
  case (Cons c cs)
  show ?case
  proof (cases "c = newline_char")
    case True
    then show ?thesis using Cons by (auto simp: is_line_def)
  next
    case False
    obtain l ls where l: "split_after (cs @ [newline_char]) = l # ls"
      using split_after_nonempty [of "cs @ [newline_char]"] by (cases "split_after (cs @ [newline_char])") auto
    with Cons obtain b where b: "l = b @ [newline_char]" "newline_char \<notin> set b" by (auto simp: is_line_def)
    then have "is_line (c # l)" using False unfolding is_line_def by (intro exI [of _ "c # b"]) auto
    with Cons l False show ?thesis by simp
  qed
qed

lemma concat_split_after: "concat (split_after s) = s"
proof (induction s rule: split_after.induct)
  case (2 c cs)
  then show ?case by (cases "split_after cs") (auto split: list.splits)
qed simp

section \<open>Quoting\<close>

definition unquote_line :: "string \<Rightarrow> string" where
  "unquote_line l =
     (case l of [] \<Rightarrow> []
      | c # r \<Rightarrow> if c = CHR ''>'' \<and> has_prefix (dropWhile (\<lambda>c. c = CHR ''>'') r) ''From '' then r else l)"

lemma unquote_quote: "unquote_line (quote_line l) = l"
  by (cases l) (auto simp: unquote_line_def quote_line_def is_from_line_def)

lemma from_is_from_line: "has_prefix l ''From '' \<Longrightarrow> is_from_line l"
  by (auto simp: is_from_line_def has_prefix_iff)

lemma quote_not_from: "\<not> has_prefix (quote_line l) ''From ''"
  using from_is_from_line [of l] by (auto simp: quote_line_def has_prefix_def)

lemma quote_is_line: "is_line l \<Longrightarrow> is_line (quote_line l)"
proof -
  assume "is_line l"
  then obtain b where b: "l = b @ [newline_char]" "newline_char \<notin> set b" by (auto simp: is_line_def)
  then have "is_line (CHR ''>'' # l)" unfolding is_line_def by (intro exI [of _ "CHR ''>'' # b"]) simp
  with \<open>is_line l\<close> show ?thesis by (simp add: quote_line_def)
qed

lemma has_prefix_newline: "has_prefix (x @ [newline_char]) ''From '' = has_prefix x ''From ''"
proof
  assume "has_prefix (x @ [newline_char]) ''From ''"
  then obtain r where r: "x @ [newline_char] = ''From '' @ r" unfolding has_prefix_iff by blast
  then have "last (''From '' @ r) = newline_char" by (metis last_snoc)
  then have "r \<noteq> []" by auto
  then obtain r' where "r = r' @ [newline_char]" using r by (metis append_butlast_last_id last_appendR last_snoc)
  with r have "x = ''From '' @ r'" by (metis append_assoc append_same_eq)
  then show "has_prefix x ''From ''" unfolding has_prefix_iff by blast
next
  assume "has_prefix x ''From ''"
  then obtain r where "x = ''From '' @ r" unfolding has_prefix_iff by blast
  then have "x @ [newline_char] = ''From '' @ (r @ [newline_char])" by simp
  then show "has_prefix (x @ [newline_char]) ''From ''" unfolding has_prefix_iff by blast
qed

lemma quote_newline: "quote_line (l @ [newline_char]) = quote_line l @ [newline_char]"
proof -
  have "dropWhile (\<lambda>c. c = CHR ''>'') (l @ [newline_char]) = dropWhile (\<lambda>c. c = CHR ''>'') l @ [newline_char]"
    by (induction l) auto
  then show ?thesis by (simp add: quote_line_def is_from_line_def has_prefix_newline)
qed

section \<open>Reading back\<close>

text \<open>A reader of mboxrd: a separator line starts a message, each message ends in a blank line, quoted lines
  lose one bracket.\<close>

fun split_messages :: "string list \<Rightarrow> string list \<times> string list list" where
  "split_messages [] = ([], [])"
| "split_messages (l # ls) =
     (case split_messages ls of
        (cur, ms) \<Rightarrow> if has_prefix l ''From '' then ([], cur # ms) else (l # cur, ms))"

definition read_mbox :: "string \<Rightarrow> string list" where
  "read_mbox s = map (\<lambda>ls. concat (map unquote_line (butlast ls))) (snd (split_messages (split_after s)))"

text \<open>What the format keeps of a message: Unix line ends, the last line ended.\<close>

definition ended :: "string \<Rightarrow> string" where
  "ended d = (if has_suffix d [newline_char] then d else d @ [newline_char])"

definition plain_separator :: "(int \<Rightarrow> string) \<Rightarrow> raw_message \<Rightarrow> bool" where
  "plain_separator fmt m = (newline_char \<notin> set (rw_from m) \<and> newline_char \<notin> set (fmt (case rw_date m of None \<Rightarrow> 0 | Some t \<Rightarrow> t)))"

lemma has_suffix_newline: "has_suffix d [newline_char] = (\<exists>b. d = b @ [newline_char])"
  by (auto simp: has_suffix_def has_prefix_iff) (metis rev.simps(2) rev_rev_ident)

lemma ended_lines: "list_all is_line (split_after (ended d))"
  unfolding ended_def has_suffix_newline using split_after_ended by auto

lemma split_after_add_newline:
  "d \<noteq> [] \<Longrightarrow> \<not> has_suffix d [newline_char] \<Longrightarrow>
   \<exists>ls l. split_after d = ls @ [l] \<and> split_after (d @ [newline_char]) = ls @ [l @ [newline_char]]"
proof (induction d)
  case (Cons c cs)
  show ?case
  proof (cases "cs = []")
    case True
    with Cons.prems show ?thesis by (auto simp: has_suffix_def has_prefix_def)
  next
    case False
    have "\<not> has_suffix cs [newline_char]" using Cons.prems(2) unfolding has_suffix_newline by (metis append_Cons)
    with Cons.IH False obtain ls l where l: "split_after cs = ls @ [l]" "split_after (cs @ [newline_char]) = ls @ [l @ [newline_char]]"
      by blast
    show ?thesis
    proof (cases "c = newline_char")
      case True
      with l show ?thesis by (intro exI [of _ "[c] # ls"] exI [of _ l]) simp
    next
      case False
      with l show ?thesis
        by (cases ls) (auto intro: exI [of _ "[]"] exI [of _ "(c # hd ls) # tl ls"])
    qed
  qed
qed simp

lemma quoted_lines:
  "concat (map quote_line (split_after d)) @ (if has_suffix d [newline_char] then [] else [newline_char]) =
   concat (map quote_line (split_after (ended d)))"
proof (cases "d = [] \<or> has_suffix d [newline_char]")
  case True
  moreover have "quote_line [newline_char] = [newline_char]" by code_simp
  ultimately show ?thesis by (auto simp: ended_def)
next
  case False
  with split_after_add_newline [of d] show ?thesis by (auto simp: ended_def quote_newline)
qed

lemma split_written:
  assumes "plain_separator fmt m"
  shows "split_after (writeMboxrd fmt m @ s) =
    from_line fmt m # map quote_line (split_after (ended (unix_lines (rw_data m)))) @ [newline_char] # split_after s"
proof -
  let ?ls = "map quote_line (split_after (ended (unix_lines (rw_data m)))) @ [[newline_char]]"
  have w: "writeMboxrd fmt m = from_line fmt m @ concat ?ls"
    unfolding writeMboxrd_def Let_def using quoted_lines [of "unix_lines (rw_data m)"] by simp
  have "is_line (from_line fmt m)" using assms unfolding is_line_def plain_separator_def
    by (intro exI [of _ "''From '' @ rw_from m @ '' '' @ fmt (case rw_date m of None \<Rightarrow> 0 | Some t \<Rightarrow> t)"]) (simp add: from_line_def)
  moreover have "list_all is_line ?ls"
    using ended_lines [of "unix_lines (rw_data m)"] quote_is_line by (auto simp: list_all_iff is_line_def)
  ultimately have "list_all is_line (from_line fmt m # ?ls)" by simp
  from split_after_lines [OF this, of s] show ?thesis by (simp add: w)
qed

lemma split_messages_body:
  "list_all (\<lambda>l. \<not> has_prefix l ''From '') ls \<Longrightarrow> split_messages (ls @ xs) = (ls @ fst (split_messages xs), snd (split_messages xs))"
  by (induction ls) (auto split: prod.splits)

lemma read_written:
  assumes "list_all (plain_separator fmt) ms"
  shows "fst (split_messages (split_after (concat (map (writeMboxrd fmt) ms)))) = [] \<and>
    read_mbox (concat (map (writeMboxrd fmt) ms)) = map (\<lambda>m. ended (unix_lines (rw_data m))) ms"
  using assms
proof (induction ms)
  case Nil
  then show ?case by (simp add: read_mbox_def)
next
  case (Cons m ms)
  let ?rest = "split_after (concat (map (writeMboxrd fmt) ms))"
  let ?b = "map quote_line (split_after (ended (unix_lines (rw_data m)))) @ [[newline_char]]"
  have IH: "fst (split_messages ?rest) = []"
    "map (\<lambda>ls. concat (map unquote_line (butlast ls))) (snd (split_messages ?rest)) = map (\<lambda>m. ended (unix_lines (rw_data m))) ms"
    using Cons by (simp_all add: read_mbox_def)
  have "\<not> has_prefix [newline_char] ''From ''" by code_simp
  then have nf: "list_all (\<lambda>l. \<not> has_prefix l ''From '') ?b" using quote_not_from by (simp add: list_all_iff)
  have fr: "has_prefix (from_line fmt m) ''From ''" by (simp add: from_line_def has_prefix_def)
  have sp: "split_after (concat (map (writeMboxrd fmt) (m # ms))) = from_line fmt m # ?b @ ?rest"
    using split_written [of fmt m "concat (map (writeMboxrd fmt) ms)"] Cons.prems by simp
  have "split_messages (from_line fmt m # ?b @ ?rest) = ([], ?b # snd (split_messages ?rest))"
    using split_messages_body [OF nf, of ?rest] fr IH(1) by simp
  moreover have "concat (map unquote_line (butlast ?b)) = ended (unix_lines (rw_data m))"
    by (simp add: o_def unquote_quote concat_split_after)
  ultimately show ?case unfolding read_mbox_def sp using IH(2) by simp
qed

text \<open>C18: An mbox file can be read back: the reader finds the messages written, in their order and each with its
  own text, Unix line ends and a last line that is ended, whatever lines the texts hold, separator lines
  and quoted ones included.\<close>
theorem mbox_reads_back:
  assumes "list_all (plain_separator fmt) ms"
  shows "read_mbox (concat (map (writeMboxrd fmt) ms)) = map (\<lambda>m. ended (unix_lines (rw_data m))) ms"
  using read_written [OF assms] by blast

text \<open>A date text without its calendar, and a message whose lines look like separators.\<close>

definition day_text :: "int \<Rightarrow> string" where
  "day_text t = ''Thu Jan  1 '' @ show_nat (nat t)"

definition tricky :: raw_message where
  "tricky = \<lparr>rw_from = ''a@b.example'', rw_date = None, rw_data = ''From x'' @ [CHR 0x0D, newline_char] @ ''>From y'' @ [newline_char, newline_char] @ ''z''\<rparr>"

theorem mbox_reads_back_witness:
  "read_mbox (concat (map (writeMboxrd day_text) [tricky, tricky])) =
     replicate 2 (''From x'' @ [newline_char] @ ''>From y'' @ [newline_char, newline_char] @ ''z'' @ [newline_char])"
proof -
  have "list_all (plain_separator day_text) [tricky, tricky]" by code_simp
  from mbox_reads_back [OF this]
  have "read_mbox (concat (map (writeMboxrd day_text) [tricky, tricky])) = map (\<lambda>m. ended (unix_lines (rw_data m))) [tricky, tricky]" .
  moreover have "ended (unix_lines (rw_data tricky)) = ''From x'' @ [newline_char] @ ''>From y'' @ [newline_char, newline_char] @ ''z'' @ [newline_char]"
    by code_simp
  ultimately show ?thesis by (simp add: numeral_2_eq_2)
qed

section \<open>Caps\<close>

lemma body_pass_groups: "set (snd (body_pass s gs)) \<subseteq> set gs"
  by (induction gs rule: body_pass.induct) (auto split: option.splits prod.splits sum.splits)

lemma length_found_refs: "length (found_refs m rs) \<le> length rs"
  unfolding found_refs_def by (induction rs) (auto split: option.splits)

lemma found_refs_order: "\<exists>P. map snd (found_refs m rs) = filter P rs"
proof
  show "map snd (found_refs m rs) = filter (\<lambda>r. map_of (rev m) r \<noteq> None) rs"
    unfolding found_refs_def by (induction rs) (auto split: option.splits)
qed

lemma fetchRaw_downloads:
  assumes "fetchRaw s rs cap tolerant = (r, dl)"
  shows "dl = [] \<or> (\<exists>n gs. size_pass s tolerant (group_refs rs) = Inr (n, gs) \<and> (cap \<le> 0 \<or> n \<le> cap) \<and> set dl \<subseteq> set gs)"
proof (cases "size_pass s tolerant (group_refs rs)")
  case (Inl e)
  with assms show ?thesis by (simp add: fetchRaw_def)
next
  case (Inr x)
  then obtain n gs where x: "size_pass s tolerant (group_refs rs) = Inr (n, gs)" by (cases x) auto
  show ?thesis
  proof (cases "0 < cap \<and> cap < n")
    case True
    with assms x show ?thesis by (simp add: fetchRaw_def)
  next
    case False
    have "dl = snd (body_pass s gs)" using assms x False
      by (auto simp: fetchRaw_def split: prod.splits sum.splits if_splits)
    then show ?thesis using x False body_pass_groups [of s gs] by auto
  qed
qed

lemma fetchRaw_length: "fst (fetchRaw s rs cap tolerant) = Inr ms \<Longrightarrow> length ms \<le> length rs"
  using length_found_refs by (auto simp: fetchRaw_def split: sum.splits prod.splits if_splits)

lemma exported_fields [simp]: "xr_Format (exported fmt kind rs ms) = kind" "xr_Count (exported fmt kind rs ms) = length ms"
  by (simp_all add: exported_def Let_def)

text \<open>No message body is downloaded unless the sizes the server gave for the whole selection add up to no more
  than the cap, and an export holds at most the capped number of messages.\<close>
theorem export_respects_caps:
  "case Export lk s fmt p of
     (r, dl) \<Rightarrow>
       (dl = [] \<or> (\<exists>rs kind n gs. export_refs lk p = Inr (rs, kind) \<and> size_pass s (xp_ThreadID p \<noteq> []) (group_refs rs) = Inr (n, gs) \<and>
          (xp_MaxBytes p \<le> 0 \<or> n \<le> xp_MaxBytes p) \<and> set dl \<subseteq> set gs)) \<and>
       (case r of Inl e \<Rightarrow> True
        | Inr res \<Rightarrow> xr_Format res = ''eml'' \<or> xp_MaxMessages p \<le> 0 \<or> int (xr_Count res) \<le> xp_MaxMessages p)"
proof (cases "export_refs lk p")
  case (Inl e)
  then show ?thesis by (simp add: Export_def)
next
  case (Inr x)
  then obtain rs kind where x: "export_refs lk p = Inr (rs, kind)" by (cases x) auto
  have kind: "kind = ''eml'' \<or> kind = ''mbox''" using x
    by (auto simp: export_refs_def split: if_splits sum.splits)
  obtain r dl where f: "fetchRaw s rs (xp_MaxBytes p) (xp_ThreadID p \<noteq> []) = (r, dl)" by fastforce
  note d = fetchRaw_downloads [OF f] note l = fetchRaw_length [of s rs "xp_MaxBytes p" "xp_ThreadID p \<noteq> []"]
  show ?thesis
  proof (cases r)
    case (Inl e)
    with x f d show ?thesis by (auto simp: Export_def)
  next
    case (Inr ms)
    with l f have "length ms \<le> length rs" by simp
    with x f d Inr kind show ?thesis by (auto simp: Export_def)
  qed
qed

text \<open>The selection of a thread alone.\<close>

definition selects_thread :: "export_params \<Rightarrow> bool" where
  "selects_thread p = (xp_UID p = 0 \<and> xp_UIDs p = [] \<and> xp_From p = [] \<and> xp_ThreadID p \<noteq> [])"

definition thread_lookup :: "export_params \<Rightarrow> thread_params" where
  "thread_lookup p = \<lparr>tp_Account = xp_Account p, tp_ThreadID = xp_ThreadID p, tp_Live = True, tp_Folders = [],
     tp_Limit = thread_export_limit (xp_MaxMessages p), tp_PreferLive = True\<rparr>"

lemma selects_thread_refs:
  assumes "selects_thread p" and "xl_thread lk (thread_lookup p) = Some th" and "tr_Messages th \<noteq> []"
  shows "\<exists>rs. export_refs lk p = Inr (rs, ''mbox'') \<and> length rs = length (tr_Messages th)"
  using assms by (cases "tr_Messages th")
    (auto simp: selects_thread_def export_refs_def selectors_def thread_refs_def thread_lookup_def split: list.splits)

text \<open>The limit only says how much of the conversation is returned.\<close>

lemma thread_parts_limit: "thread_parts s dflt accounts cache (p\<lparr>tp_Limit := l\<rparr>) = thread_parts s dflt accounts cache p"
proof -
  have sel: "tp_ThreadID (p\<lparr>tp_Limit := l\<rparr>) = tp_ThreadID p" "tp_Account (p\<lparr>tp_Limit := l\<rparr>) = tp_Account p"
    "tp_Folders (p\<lparr>tp_Limit := l\<rparr>) = tp_Folders p" "tp_Live (p\<lparr>tp_Limit := l\<rparr>) = tp_Live p" by simp_all
  show ?thesis
    unfolding thread_parts_def cachedThread_def liveThread_def liveThreadAccount_def sel ..
qed

lemma GetThread_smaller:
  assumes "GetThread s dflt accounts cache (p\<lparr>tp_Limit := l\<rparr>) = Some th" and "thread_limit l' \<le> length (tr_Messages th)"
  shows "\<exists>th'. GetThread s dflt accounts cache (p\<lparr>tp_Limit := l'\<rparr>) = Some th' \<and> length (tr_Messages th') = thread_limit l'"
proof -
  let ?p = "p\<lparr>tp_ThreadID := trim_angle (trim_space (tp_ThreadID p))\<rparr>"
  have swap: "p\<lparr>tp_Limit := x, tp_ThreadID := y\<rparr> = p\<lparr>tp_ThreadID := y\<rparr>\<lparr>tp_Limit := x\<rparr>" for x y by simp
  obtain cached live errs searched where parts: "thread_parts s dflt accounts cache ?p = ((cached, live, errs), searched)"
    by (metis surj_pair)
  with assms show ?thesis by (auto simp: GetThread_def Let_def swap thread_parts_limit split: if_splits)
qed

text \<open>C33: With a cap below five hundred, a thread with more messages than the cap - as many as the lookup finds when it
  is asked for its maximum of five hundred - is refused, before any message is downloaded: what is
  exported is never the part of a thread that the lookup cut.\<close>
theorem capped_thread_is_never_cut:
  assumes "xl_thread lk = GetThread ts dflt accounts cache" and "selects_thread p"
    and "0 < xp_MaxMessages p" and "xp_MaxMessages p < 500"
    and "GetThread ts dflt accounts cache ((thread_lookup p)\<lparr>tp_Limit := 500\<rparr>) = Some th"
    and "nat (xp_MaxMessages p) < length (tr_Messages th)"
  shows "Export lk s fmt p = (Inl (OverMessageCap (nat (xp_MaxMessages p) + 1)), [])"
proof -
  have limit: "thread_limit (tp_Limit (thread_lookup p)) = nat (xp_MaxMessages p) + 1"
    using assms(3,4) by (simp add: thread_lookup_def thread_limit_def thread_export_limit_def)
  then have "thread_limit (tp_Limit (thread_lookup p)) \<le> length (tr_Messages th)" using assms(6) by simp
  from GetThread_smaller [OF assms(5) this] obtain th' where th': "xl_thread lk (thread_lookup p) = Some th'"
    "length (tr_Messages th') = nat (xp_MaxMessages p) + 1" unfolding assms(1) limit by auto
  then have "tr_Messages th' \<noteq> []" by auto
  with selects_thread_refs [OF assms(2) th'(1)] obtain rs
    where rs: "export_refs lk p = Inr (rs, ''mbox'')" "length rs = length (tr_Messages th')" by blast
  with th'(2) assms(3) show ?thesis by (auto simp: Export_def)
qed

lemma size_pass_errors: "size_pass s t gs = Inl e \<Longrightarrow> e \<noteq> OverMessageCap n"
  by (induction s t gs arbitrary: e rule: size_pass.induct) (auto split: option.splits if_splits sum.splits)

lemma body_pass_errors: "fst (body_pass s gs) = Inl e \<Longrightarrow> e \<noteq> OverMessageCap n"
  by (induction s gs arbitrary: e rule: body_pass.induct) (auto split: option.splits if_splits sum.splits prod.splits)

lemma fetchRaw_errors: "fst (fetchRaw s rs c t) = Inl e \<Longrightarrow> e \<noteq> OverMessageCap n"
proof (cases "size_pass s t (group_refs rs)")
  case (Inl d)
  assume "fst (fetchRaw s rs c t) = Inl e"
  with Inl size_pass_errors [OF Inl] show ?thesis by (auto simp: fetchRaw_def)
next
  case (Inr x)
  assume f: "fst (fetchRaw s rs c t) = Inl e"
  obtain k gs where x: "x = (k, gs)" by (cases x)
  show ?thesis using f Inr x body_pass_errors [of s gs e n]
    by (auto simp: fetchRaw_def split: if_splits prod.splits sum.splits)
qed

text \<open>With the default cap of five hundred, or a larger one, the lookup stops at the five hundred oldest messages
  and the cap never notices that there are more.\<close>
lemma default_cap_exports_cut_thread:
  assumes "xl_thread lk = GetThread ts dflt accounts cache" and "selects_thread p" and "500 \<le> xp_MaxMessages p"
  shows "fst (Export lk s fmt p) \<noteq> Inl (OverMessageCap n)"
proof -
  have "length rs \<le> 500" if "export_refs lk p = Inr (rs, kind)" for rs kind
  proof -
    from that assms(2) obtain th where th: "GetThread ts dflt accounts cache (thread_lookup p) = Some th" "length rs = length (tr_Messages th)"
      by (auto simp: export_refs_def selects_thread_def thread_refs_def thread_lookup_def assms(1)
          split: if_splits sum.splits option.splits list.splits)
    have "length (tr_Messages th) \<le> thread_limit (tp_Limit (thread_lookup p))"
      using th(1) by (auto simp: GetThread_def Let_def split: if_splits prod.splits)
    then show ?thesis using th(2) by (auto simp: thread_limit_def split: if_splits)
  qed
  moreover have "export_refs lk p \<noteq> Inl (OverMessageCap n)"
    using assms(2) by (auto simp: export_refs_def selects_thread_def thread_refs_def selectors_def split: option.splits list.splits sum.splits)
  moreover have "fst (fetchRaw s rs c t) \<noteq> Inl (OverMessageCap n)" for rs c t
    using fetchRaw_errors by blast
  ultimately show ?thesis using assms(3)
    by (fastforce simp: Export_def split: sum.splits prod.splits if_splits dest: arg_cong [where f = fst])
qed

text \<open>A server with three messages of the thread, exported with a cap of one.\<close>

definition three_found :: thread_server where
  "three_found = \<lparr>ts_conn = (\<lambda>_. True), ts_list = (\<lambda>_. Some []), ts_search = (\<lambda>_ _ _. FoundUIDs [7, 8, 9]),
     ts_fetch = (\<lambda>_ _ us. Some (map (\<lambda>u. \<lparr>th_Account = [], th_Folder = [], th_UID = u, th_MessageID = show_nat u, th_Subject = [],
       th_From = [], th_Date = Some 0, th_Flags = [], th_Live = True\<rparr>) us))\<rparr>"

definition three_lookups :: export_lookups where
  "three_lookups = \<lparr>xl_thread = GetThread three_found ''a'' [''a''] None, xl_search = (\<lambda>_ _ _. None), xl_account = (\<lambda>_. ''a'')\<rparr>"

definition of_thread :: export_params where
  "of_thread = \<lparr>xp_Account = ''a'', xp_Folder = [], xp_UID = 0, xp_UIDs = [], xp_ThreadID = ''t@x'', xp_From = [],
     xp_MaxMessages = 1, xp_MaxBytes = 0\<rparr>"

definition empty_box :: export_server where
  "empty_box = \<lparr>xs_sizes = (\<lambda>_ _ _. Some []), xs_bodies = (\<lambda>_ _ _. Some [])\<rparr>"

text \<open>At the witness the cap is two, the thread has three messages: one over.\<close>

theorem capped_thread_is_never_cut_witness:
  "Export three_lookups empty_box day_text (of_thread\<lparr>xp_MaxMessages := 2\<rparr>) = (Inl (OverMessageCap 3), [])"
proof -
  let ?p = "of_thread\<lparr>xp_MaxMessages := 2\<rparr>"
  have "map_option (length \<circ> tr_Messages) (GetThread three_found ''a'' [''a''] None ((thread_lookup ?p)\<lparr>tp_Limit := 500\<rparr>)) = Some 3"
    by code_simp
  then obtain th where th: "GetThread three_found ''a'' [''a''] None ((thread_lookup ?p)\<lparr>tp_Limit := 500\<rparr>) = Some th" "length (tr_Messages th) = 3"
    by auto
  have "xl_thread three_lookups = GetThread three_found ''a'' [''a''] None" by (simp add: three_lookups_def)
  moreover have "selects_thread ?p" by code_simp
  moreover have max: "xp_MaxMessages ?p = 2" by (simp add: of_thread_def)
  moreover have "nat (xp_MaxMessages ?p) < length (tr_Messages th)" unfolding max th(2) by simp
  ultimately have "Export three_lookups empty_box day_text ?p = (Inl (OverMessageCap (nat (xp_MaxMessages ?p) + 1)), [])"
    using th(1) by (intro capped_thread_is_never_cut) simp_all
  then show ?thesis unfolding max by simp
qed

text \<open>One UID named twice: the server gives the message once, and the selection counts as incomplete.\<close>

definition one_box :: export_server where
  "one_box = \<lparr>xs_sizes = (\<lambda>_ _ us. Some (map (\<lambda>u. (u, 10)) (remdups us))),
     xs_bodies = (\<lambda>_ _ us. Some (map (\<lambda>u. (u, Some ''a@x'', None, ''hi'')) (remdups us)))\<rparr>"

lemma repeated_uid_is_refused:
  "fst (Export three_lookups one_box day_text (of_thread\<lparr>xp_ThreadID := [], xp_Folder := ''INBOX'', xp_UIDs := [5, 5], xp_MaxMessages := 10\<rparr>)) =
     Inl (NotAllFound 1 2)"
  by code_simp

end
