(* ===== verification/DB_Files.thy ===== *)
theory DB_Files
  imports Sandbox "HOL-Library.Word" "HOL-Library.List_Lexorder" "HOL-Library.Char_ord"
begin

text \<open>
  The database files (\<open>internal/db/db.go\<close>, \<open>internal/db/encrypt.go\<close>): what a file is, when it is opened, and
  the conversion of a plaintext database into an encrypted one. SQLite and SHA-256 are the record
  \<open>sql_engine\<close>, the outcomes of the system calls are inputs. Files are a map of paths; an operation returns
  the states the disk went through, the newest first, because the process can be killed between any two of
  them.
\<close>

section \<open>Files\<close>

text \<open>The content of a file that was not synced is unknown after a crash.\<close>

record file_data =
  fl_bytes :: string
  fl_synced :: bool

type_synonym file_map = "string \<rightharpoonup> file_data"

datatype file_kind = FileNew | FilePlain | FileOpaque

definition sqliteMagic :: string where
  "sqliteMagic = ''SQLite format 3'' @ [CHR 0x00]"

definition detect :: "(string \<Rightarrow> bool) \<Rightarrow> file_map \<Rightarrow> string \<Rightarrow> file_kind option" where
  "detect readable f p =
     (case f p of
        None \<Rightarrow> Some FileNew
      | Some x \<Rightarrow>
          (if \<not> readable p then None
           else let buf = take (length sqliteMagic) (fl_bytes x) in
             if buf = [] then Some FileNew else if buf = sqliteMagic then Some FilePlain else Some FileOpaque))"

section \<open>SQLite\<close>

text \<open>A value is its Go type name and its printed text.\<close>

type_synonym sql_cell = "string \<times> string"

record sql_table =
  tb_name :: string
  tb_virtual :: bool
  tb_rows :: "sql_cell list list"

text \<open>\<open>se_read key bytes wal\<close> opens a file with the key (none if empty) and its write-ahead log, if there is one;
  \<open>se_hash\<close> is the first sixteen bytes of SHA-256 as two little-endian numbers.\<close>

record sql_engine =
  se_read :: "string \<Rightarrow> string \<Rightarrow> string option \<Rightarrow> sql_table list option"
  se_hash :: "string \<Rightarrow> 64 word \<times> 64 word"

definition wal_of :: "string \<Rightarrow> string" where "wal_of p = p @ ''-wal''"

definition reads_as :: "sql_engine \<Rightarrow> file_map \<Rightarrow> string \<Rightarrow> string \<Rightarrow> sql_table list option" where
  "reads_as q f p key =
     (case f p of None \<Rightarrow> None | Some x \<Rightarrow> se_read q key (fl_bytes x) (map_option fl_bytes (f (wal_of p))))"

section \<open>Opening\<close>

datatype open_error = DirFailed | InspectFailed | CreateFailed | NotEncrypted | KeyMissing | Unreadable

record open_env =
  oe_mkdir :: bool
  oe_readable :: "string \<Rightarrow> bool"
  oe_creates :: "string \<Rightarrow> bool"
  oe_chmods :: "string \<Rightarrow> bool"

definition new_file :: file_data where "new_file = \<lparr>fl_bytes = [], fl_synced = False\<rparr>"

text \<open>\<open>restrictFiles\<close>: a missing file is created empty; the log and the shared memory are set to 0600 too.\<close>

definition restrictFiles :: "(string \<Rightarrow> bool) \<Rightarrow> (string \<Rightarrow> bool) \<Rightarrow> string \<Rightarrow> file_map list \<Rightarrow> bool \<times> file_map list" where
  "restrictFiles creates chmods p h =
     (if \<not> creates p then (False, h)
      else (list_all (\<lambda>x. hd h x = None \<or> chmods x) [wal_of p, p @ ''-shm''] \<and> chmods p,
            if hd h p = None then (hd h)(p \<mapsto> new_file) # h else h))"

text \<open>A file of size zero is a new database, whatever the key.\<close>

definition open_content :: "sql_engine \<Rightarrow> string \<Rightarrow> string \<Rightarrow> file_map \<Rightarrow> sql_table list option" where
  "open_content q p key f =
     (case f p of
        Some x \<Rightarrow> if fl_bytes x = [] then Some [] else reads_as q f p key
      | None \<Rightarrow> Some [])"

definition openFile ::
  "sql_engine \<Rightarrow> open_env \<Rightarrow> string \<Rightarrow> string \<Rightarrow> file_map \<Rightarrow> (open_error + sql_table list) \<times> file_map list" where
  "openFile q v p key f =
     (if \<not> oe_mkdir v then (Inl DirFailed, [f])
      else (case detect (oe_readable v) f p of
          None \<Rightarrow> (Inl InspectFailed, [f])
        | Some kind \<Rightarrow>
            (case restrictFiles (oe_creates v) (oe_chmods v) p [f] of
               (ok, h) \<Rightarrow>
                 (if \<not> ok then (Inl CreateFailed, h)
                  else if kind = FilePlain \<and> key \<noteq> [] then (Inl NotEncrypted, h)
                  else if kind = FileOpaque \<and> key = [] then (Inl KeyMissing, h)
                  else (case open_content q p key (hd h) of None \<Rightarrow> (Inl Unreadable, h) | Some ts \<Rightarrow> (Inr ts, h))))))"

section \<open>The digest of the content\<close>

record table_digest =
  td_rows :: nat
  td_sum :: "64 word \<times> 64 word"

definition row_text :: "sql_cell list \<Rightarrow> string" where
  "row_text vs = concat (map (\<lambda>(ty, v). ty @ '':'' @ v @ [CHR 0x1F]) vs)"

definition add_row :: "sql_engine \<Rightarrow> sql_cell list \<Rightarrow> table_digest \<Rightarrow> table_digest" where
  "add_row q r d =
     (case se_hash q (row_text r) of
        (a, b) \<Rightarrow> \<lparr>td_rows = td_rows d + 1, td_sum = (fst (td_sum d) + a, snd (td_sum d) + b)\<rparr>)"

definition digestTable :: "sql_engine \<Rightarrow> sql_table \<Rightarrow> table_digest" where
  "digestTable q t = fold (add_row q) (tb_rows t) \<lparr>td_rows = 0, td_sum = (0, 0)\<rparr>"

text \<open>\<open>NOT LIKE 'sqlite_%'\<close>: the underscore stands for any one character, and the case does not count.\<close>

definition ordinary_table :: "sql_table \<Rightarrow> bool" where
  "ordinary_table t = (\<not> (to_lower (take 6 (tb_name t)) = ''sqlite'' \<and> 6 < length (tb_name t)) \<and> \<not> tb_virtual t)"

definition contentDigest :: "sql_engine \<Rightarrow> sql_table list \<Rightarrow> (string \<times> table_digest) list" where
  "contentDigest q ts = map (\<lambda>t. (tb_name t, digestTable q t)) (filter ordinary_table ts)"

definition same_digest :: "(string \<times> table_digest) list \<Rightarrow> (string \<times> table_digest) list \<Rightarrow> bool" where
  "same_digest want got = (length got = length want \<and> list_all (\<lambda>(t, w). map_of got t = Some w) want)"

section \<open>Plaintext copies\<close>

text \<open>\<open>Dir\<close> and \<open>Base\<close> of package path/filepath for a path with a last element.\<close>

definition path_base :: "string \<Rightarrow> string" where
  "path_base p = (let r = rev (takeWhile (\<lambda>c. c \<noteq> slash) (rev p)) in if p = [] then ''.'' else if r = [] then [slash] else r)"

definition path_dir :: "string \<Rightarrow> string" where
  "path_dir p = path_clean (rev (dropWhile (\<lambda>c. c \<noteq> slash) (rev p)))"

definition sidecar :: "string \<Rightarrow> bool" where
  "sidecar n = (has_suffix n ''-wal'' \<or> has_suffix n ''-shm'' \<or> has_suffix n ''-journal'')"

text \<open>\<open>entries\<close> is the directory: names, with whether they are directories themselves.\<close>

definition PlaintextCopies :: "(string \<Rightarrow> bool) \<Rightarrow> file_map \<Rightarrow> (string \<times> bool) list \<Rightarrow> string \<Rightarrow> string list" where
  "PlaintextCopies readable f entries p =
     sort (map (path_join (path_dir p)) (map fst (filter (\<lambda>(n, isdir).
        \<not> (isdir \<or> n = path_base p \<or> \<not> has_prefix n (path_base p) \<or> sidecar n) \<and>
        detect readable f (path_join (path_dir p) n) = Some FilePlain) entries)))"

section \<open>The conversion\<close>

datatype encrypt_error =
    NoKey | DetectFailed | NoDatabase | AlreadyEncrypted | InUse | LockFailed | DigestFailed | CleanupFailed | TargetFailed
  | CopyFailed | CopyNotEncrypted | VerifyFailed | SyncFailed | RenameFailed

text \<open>The lock: leaving WAL mode moves the log into the database file, and another process may still stop
  the exclusive lock after that.\<close>

datatype lock_outcome = LockBusy | LockBroken | LeftWalOnly string | Locked string

record encrypt_env =
  ee_readable :: "string \<Rightarrow> bool"
  ee_lock :: lock_outcome
  ee_removes :: "string \<Rightarrow> bool"
  ee_creates :: "string \<Rightarrow> bool"
  ee_chmods :: "string \<Rightarrow> bool"
  ee_vacuum :: "string \<times> bool"   \<comment> \<open>what VACUUM INTO wrote, and whether it went through\<close>
  ee_integrity :: bool
  ee_syncs :: bool
  ee_renames :: bool
  ee_entries :: "(string \<times> bool) list"   \<comment> \<open>the directory afterwards\<close>

record encrypt_report =
  ep_tables :: nat
  ep_rows :: nat
  ep_copies :: "string list"

definition sealing_copy :: "string \<Rightarrow> string" where "sealing_copy p = p @ ''.encrypting''"

definition left_wal :: "string \<Rightarrow> string \<Rightarrow> file_map \<Rightarrow> file_map" where
  "left_wal p b f = f(p \<mapsto> \<lparr>fl_bytes = b, fl_synced = True\<rparr>, wal_of p := None, p @ ''-shm'' := None)"

text \<open>Removing leftovers, with an error that is not that there is none ending it; and as far as it works.\<close>

fun clear_files :: "(string \<Rightarrow> bool) \<Rightarrow> string list \<Rightarrow> file_map list \<Rightarrow> bool \<times> file_map list" where
  "clear_files removes [] h = (True, h)"
| "clear_files removes (p # ps) h =
     (if hd h p = None then clear_files removes ps h
      else if removes p then clear_files removes ps ((hd h)(p := None) # h)
      else (False, h))"

fun drop_files :: "(string \<Rightarrow> bool) \<Rightarrow> string list \<Rightarrow> file_map list \<Rightarrow> file_map list" where
  "drop_files removes [] h = h"
| "drop_files removes (p # ps) h = drop_files removes ps (if removes p then (hd h)(p := None) # h else h)"

definition fail_copy :: "encrypt_env \<Rightarrow> string \<Rightarrow> encrypt_error \<Rightarrow> file_map list \<Rightarrow> (encrypt_error + encrypt_report) \<times> file_map list" where
  "fail_copy v p e h = (Inl e, drop_files (ee_removes v) [sealing_copy p] h)"

definition verifyEncrypted :: "sql_engine \<Rightarrow> encrypt_env \<Rightarrow> string \<Rightarrow> (string \<times> table_digest) list \<Rightarrow> string \<Rightarrow> bool" where
  "verifyEncrypted q v key want b =
     (case se_read q key b None of
        None \<Rightarrow> False
      | Some ts \<Rightarrow> ee_integrity v \<and> same_digest want (contentDigest q ts))"

definition replace_original ::
  "encrypt_env \<Rightarrow> string \<Rightarrow> (string \<times> table_digest) list \<Rightarrow> file_map list \<Rightarrow> (encrypt_error + encrypt_report) \<times> file_map list" where
  "replace_original v p want h =
     (let t = sealing_copy p in
      if \<not> ee_syncs v then fail_copy v p SyncFailed h
      else (let h = (hd h)(t := map_option (fl_synced_update (\<lambda>_. True)) (hd h t)) # h in
        if \<not> ee_renames v then fail_copy v p RenameFailed h
        else (let h = drop_files (ee_removes v) [wal_of p, p @ ''-shm'', p @ ''-journal''] ((hd h)(p := hd h t, t := None) # h) in
          (Inr \<lparr>ep_tables = length want, ep_rows = sum_list (map (\<lambda>(n, d). td_rows d) want),
                ep_copies = PlaintextCopies (ee_readable v) (hd h) (ee_entries v) p\<rparr>, h))))"

definition write_copy ::
  "sql_engine \<Rightarrow> encrypt_env \<Rightarrow> string \<Rightarrow> string \<Rightarrow> (string \<times> table_digest) list \<Rightarrow> file_map list \<Rightarrow>
   (encrypt_error + encrypt_report) \<times> file_map list" where
  "write_copy q v p key want h =
     (let t = sealing_copy p; b = fst (ee_vacuum v); h = (hd h)(t \<mapsto> \<lparr>fl_bytes = b, fl_synced = False\<rparr>) # h in
      if \<not> snd (ee_vacuum v) then fail_copy v p CopyFailed h
      else if detect (ee_readable v) (hd h) t \<noteq> Some FileOpaque then fail_copy v p CopyNotEncrypted h
      else if \<not> verifyEncrypted q v key want b then fail_copy v p VerifyFailed h
      else replace_original v p want h)"

definition encrypt_locked ::
  "sql_engine \<Rightarrow> encrypt_env \<Rightarrow> string \<Rightarrow> string \<Rightarrow> string \<Rightarrow> file_map list \<Rightarrow> (encrypt_error + encrypt_report) \<times> file_map list" where
  "encrypt_locked q v p key b h =
     (case se_read q [] b None of
        None \<Rightarrow> (Inl DigestFailed, h)
      | Some ts \<Rightarrow>
          (let t = sealing_copy p in
           case clear_files (ee_removes v) [t, t @ ''-journal'', t @ ''-wal'', t @ ''-shm''] h of
             (ok, h) \<Rightarrow>
               (if \<not> ok then (Inl CleanupFailed, h)
                else (case restrictFiles (ee_creates v) (ee_chmods v) t h of
                    (ok, h) \<Rightarrow> if ok then write_copy q v p key (contentDigest q ts) h else (Inl TargetFailed, h)))))"

definition Encrypt ::
  "sql_engine \<Rightarrow> encrypt_env \<Rightarrow> string \<Rightarrow> string \<Rightarrow> file_map \<Rightarrow> (encrypt_error + encrypt_report) \<times> file_map list" where
  "Encrypt q v p key f =
     (if key = [] then (Inl NoKey, [f])
      else (case detect (ee_readable v) f p of
          None \<Rightarrow> (Inl DetectFailed, [f])
        | Some FileNew \<Rightarrow> (Inl NoDatabase, [f])
        | Some FileOpaque \<Rightarrow> (Inl AlreadyEncrypted, [f])
        | Some FilePlain \<Rightarrow>
            (case ee_lock v of
               LockBusy \<Rightarrow> (Inl InUse, [f])
             | LockBroken \<Rightarrow> (Inl LockFailed, [f])
             | LeftWalOnly b \<Rightarrow> (Inl InUse, [left_wal p b f, f])
             | Locked b \<Rightarrow> encrypt_locked q v p key b [left_wal p b f, f])))"

section \<open>Messages\<close>

text \<open>\<open>escape\<close> is \<open>url.QueryEscape\<close>.\<close>

definition redact :: "(string \<Rightarrow> string) \<Rightarrow> string \<Rightarrow> string \<Rightarrow> string" where
  "redact escape msg key = replace_all key ''***'' (replace_all (escape key) ''***'' msg)"

end
