(* ===== verification/DB_Files_Props.thy ===== *)
theory DB_Files_Props
  imports DB_Files "HOL-Library.Multiset"
begin

text \<open>
  A conversion that is killed at any moment leaves a database that can be read; which databases are opened;
  and the digest a copy is verified with.
\<close>

section \<open>What a crash leaves\<close>

text \<open>Files that were synced are there afterwards with their content, of the others only the entry.\<close>

definition after_crash :: "file_map \<Rightarrow> file_map \<Rightarrow> bool" where
  "after_crash f f' = (\<forall>p. case f p of None \<Rightarrow> f' p = None | Some x \<Rightarrow> if fl_synced x then f' p = Some x else f' p \<noteq> None)"

definition original :: "sql_engine \<Rightarrow> string \<Rightarrow> sql_table list \<Rightarrow> file_map \<Rightarrow> bool" where
  "original q p ts f =
     (reads_as q f p [] = Some ts \<and> (case f p of None \<Rightarrow> False | Some x \<Rightarrow> fl_synced x) \<and>
      (case f (wal_of p) of None \<Rightarrow> True | Some x \<Rightarrow> fl_synced x))"

definition holds_sealed :: "sql_engine \<Rightarrow> string \<Rightarrow> (string \<times> table_digest) list \<Rightarrow> string \<Rightarrow> bool" where
  "holds_sealed q key want b =
     (b \<noteq> [] \<and> take (length sqliteMagic) b \<noteq> sqliteMagic \<and>
      (case se_read q key b None of None \<Rightarrow> False | Some ts \<Rightarrow> same_digest want (contentDigest q ts)))"

definition converted :: "sql_engine \<Rightarrow> string \<Rightarrow> string \<Rightarrow> (string \<times> table_digest) list \<Rightarrow> file_map \<Rightarrow> bool" where
  "converted q p key want f =
     (f (wal_of p) = None \<and> (case f p of None \<Rightarrow> False | Some x \<Rightarrow> fl_synced x \<and> holds_sealed q key want (fl_bytes x)))"

definition recoverable :: "sql_engine \<Rightarrow> string \<Rightarrow> string \<Rightarrow> sql_table list \<Rightarrow> file_map \<Rightarrow> bool" where
  "recoverable q p key ts f = (original q p ts f \<or> converted q p key (contentDigest q ts) f)"

lemma after_crash_synced: "after_crash f f' \<Longrightarrow> f p = Some x \<Longrightarrow> fl_synced x \<Longrightarrow> f' p = Some x"
  unfolding after_crash_def by (metis (mono_tags, lifting) option.simps(5))

lemma after_crash_none: "after_crash f f' \<Longrightarrow> f p = None \<Longrightarrow> f' p = None"
  unfolding after_crash_def by (metis (mono_tags, lifting) option.simps(4))

lemma original_crash: "after_crash f f' \<Longrightarrow> original q p ts f \<Longrightarrow> reads_as q f' p [] = Some ts"
  using after_crash_synced [of f f'] after_crash_none [of f f']
  by (fastforce simp: original_def reads_as_def split: option.splits)

lemma converted_crash:
  "after_crash f f' \<Longrightarrow> converted q p key want f \<Longrightarrow> \<exists>ts'. reads_as q f' p key = Some ts' \<and> same_digest want (contentDigest q ts')"
  using after_crash_synced [of f f'] after_crash_none [of f f']
  by (fastforce simp: converted_def holds_sealed_def reads_as_def split: option.splits)

section \<open>The conversion, state by state\<close>

lemma wal_ne [simp]: "wal_of p \<noteq> p" "p \<noteq> wal_of p"
  by (simp_all add: wal_of_def)

lemma copy_names:
  "\<forall>x\<in>set [sealing_copy p, sealing_copy p @ ''-journal'', sealing_copy p @ ''-wal'', sealing_copy p @ ''-shm'']. x \<noteq> p \<and> x \<noteq> wal_of p"
  by (simp add: sealing_copy_def wal_of_def)

lemma original_upd: "x \<noteq> p \<Longrightarrow> x \<noteq> wal_of p \<Longrightarrow> original q p ts (f(x := y)) = original q p ts f"
  by (cases "f p") (simp_all add: original_def reads_as_def)

lemma converted_drop: "x \<noteq> p \<Longrightarrow> converted q p key want f \<Longrightarrow> converted q p key want (f(x := None))"
  by (simp add: converted_def)

lemma left_wal_original: "se_read q [] b None = Some ts \<Longrightarrow> original q p ts (left_wal p b f)"
  by (auto simp: original_def reads_as_def left_wal_def wal_of_def)

text \<open>A history whose states all satisfy \<open>P\<close>.\<close>

definition always :: "(file_map \<Rightarrow> bool) \<Rightarrow> file_map list \<Rightarrow> bool" where
  "always P h = (h \<noteq> [] \<and> list_all P h)"

lemma always_push: "always P h \<Longrightarrow> P f \<Longrightarrow> always P (f # h)"
  by (simp add: always_def)

lemma always_hd: "always P h \<Longrightarrow> P (hd h)"
  by (cases h) (simp_all add: always_def)

lemma always_drop:
  "(\<And>f x. x \<in> set ps \<Longrightarrow> P f \<Longrightarrow> P (f(x := None))) \<Longrightarrow> always P h \<Longrightarrow> always P (drop_files removes ps h)"
proof (induction ps arbitrary: h)
  case (Cons a ps)
  have "always P ((hd h)(a := None) # h)" by (rule always_push [OF Cons.prems(2) Cons.prems(1) [OF _ always_hd [OF Cons.prems(2)]]]) simp
  with Cons show ?case by simp
qed simp

lemma always_clear:
  "(\<And>f x. x \<in> set ps \<Longrightarrow> P f \<Longrightarrow> P (f(x := None))) \<Longrightarrow> always P h \<Longrightarrow> always P (snd (clear_files removes ps h))"
proof (induction ps arbitrary: h)
  case (Cons a ps)
  have "always P ((hd h)(a := None) # h)" by (rule always_push [OF Cons.prems(2) Cons.prems(1) [OF _ always_hd [OF Cons.prems(2)]]]) simp
  with Cons show ?case by simp
qed simp

lemma always_restrict:
  "(\<And>f y. P f \<Longrightarrow> P (f(x \<mapsto> y))) \<Longrightarrow> always P h \<Longrightarrow> always P (snd (restrictFiles creates chmods x h))"
  by (simp add: restrictFiles_def always_push always_hd)

text \<open>While the copy is made the original stays; the last state before it is replaced holds a copy that was
  verified and synced.\<close>

abbreviation keeps_original :: "sql_engine \<Rightarrow> string \<Rightarrow> sql_table list \<Rightarrow> file_map list \<Rightarrow> bool" where
  "keeps_original q p ts h \<equiv> always (original q p ts) h"

lemma copy_ne: "sealing_copy p \<noteq> p" "sealing_copy p \<noteq> wal_of p"
  by (simp_all add: sealing_copy_def wal_of_def)

lemma fail_copy_keeps: "keeps_original q p ts h \<Longrightarrow> keeps_original q p ts (snd (fail_copy v p e h)) \<and> fst (fail_copy v p e h) = Inl e"
  by (simp add: fail_copy_def always_push always_hd original_upd copy_ne)

definition outcome_ok :: "sql_engine \<Rightarrow> string \<Rightarrow> string \<Rightarrow> sql_table list \<Rightarrow> (encrypt_error + encrypt_report) \<times> file_map list \<Rightarrow> bool" where
  "outcome_ok q p key ts r =
     (always (recoverable q p key ts) (snd r) \<and>
      (case fst r of Inl e \<Rightarrow> original q p ts (hd (snd r)) | Inr rep \<Rightarrow> converted q p key (contentDigest q ts) (hd (snd r))))"

lemma kept_outcome: "keeps_original q p ts h \<Longrightarrow> outcome_ok q p key ts (Inl e, h)"
  by (auto simp: outcome_ok_def always_def recoverable_def list_all_iff hd_in_set)

lemma fail_outcome: "keeps_original q p ts h \<Longrightarrow> outcome_ok q p key ts (fail_copy v p e h)"
  using fail_copy_keeps [of q p ts h v e] kept_outcome [of q p ts "snd (fail_copy v p e h)" key e]
  by (cases "fail_copy v p e h") simp

lemma replace_outcome:
  assumes "keeps_original q p ts h" and "hd h (sealing_copy p) = Some \<lparr>fl_bytes = b, fl_synced = s\<rparr>"
    and "holds_sealed q key (contentDigest q ts) b" and "hd h (wal_of p) = None"
  shows "outcome_ok q p key ts (replace_original v p (contentDigest q ts) h)"
proof -
  let ?t = "sealing_copy p"
  define h2 where "h2 = (hd h)(?t := map_option (fl_synced_update (\<lambda>_. True)) (hd h ?t)) # h"
  have h2: "keeps_original q p ts h2" unfolding h2_def
    using assms(1) always_hd [OF assms(1)] by (simp add: always_push original_upd copy_ne)
  define g where "g = (hd h2)(p := hd h2 ?t, ?t := None)"
  have g: "converted q p key (contentDigest q ts) g" unfolding g_def h2_def converted_def
    using assms(2-4) copy_ne [of p] wal_ne [of p] by simp
  have "always (recoverable q p key ts) (g # h2)"
    using h2 g by (auto simp: always_def recoverable_def list_all_iff)
  moreover have "recoverable q p key ts (f(x := None))"
    if "x \<in> set [wal_of p, p @ ''-shm'', p @ ''-journal'']" "converted q p key (contentDigest q ts) f" for f x
    using that converted_drop [of x p q key _ f] by (auto simp: recoverable_def)
  ultimately have d: "always (recoverable q p key ts) (drop_files (ee_removes v) [wal_of p, p @ ''-shm'', p @ ''-journal''] (g # h2)) \<and>
      converted q p key (contentDigest q ts) (hd (drop_files (ee_removes v) [wal_of p, p @ ''-shm'', p @ ''-journal''] (g # h2)))"
    using g converted_drop [of _ p q key "contentDigest q ts"] by (simp add: always_push)
  show ?thesis unfolding replace_original_def Let_def h2_def [symmetric] g_def [symmetric]
    using fail_outcome [OF assms(1)] fail_outcome [OF h2] d by (simp add: outcome_ok_def)
qed

lemma write_outcome:
  assumes "keeps_original q p ts h" and "key \<noteq> []" and "hd h (wal_of p) = None"
  shows "outcome_ok q p key ts (write_copy q v p key (contentDigest q ts) h)"
proof -
  define g where "g = (hd h)(sealing_copy p \<mapsto> \<lparr>fl_bytes = fst (ee_vacuum v), fl_synced = False\<rparr>) # h"
  have g: "keeps_original q p ts g" unfolding g_def
    using assms(1) always_hd [OF assms(1)] by (simp add: always_push original_upd copy_ne)
  have b: "hd g (sealing_copy p) = Some \<lparr>fl_bytes = fst (ee_vacuum v), fl_synced = False\<rparr>" "hd g (wal_of p) = None"
    using assms(3) copy_ne [of p] by (simp_all add: g_def)
  have sealed: "holds_sealed q key (contentDigest q ts) (fst (ee_vacuum v))"
    if "detect (ee_readable v) (hd g) (sealing_copy p) = Some FileOpaque" "verifyEncrypted q v key (contentDigest q ts) (fst (ee_vacuum v))"
    using that b(1) by (auto simp: holds_sealed_def detect_def verifyEncrypted_def Let_def split: if_splits option.splits)
  show ?thesis unfolding write_copy_def Let_def g_def [symmetric]
    using fail_outcome [OF g] replace_outcome [OF g b(1) _ b(2), of key v] sealed by auto
qed

lemma clear_wal:
  "wal_of p \<notin> set ps \<Longrightarrow> h \<noteq> [] \<Longrightarrow> hd h (wal_of p) = None \<Longrightarrow> hd (snd (clear_files removes ps h)) (wal_of p) = None \<and> snd (clear_files removes ps h) \<noteq> []"
  by (induction ps arbitrary: h) auto

lemma locked_outcome:
  assumes "keeps_original q p ts h" and "key \<noteq> []" and "hd h (wal_of p) = None" and "se_read q [] b None = Some ts"
  shows "outcome_ok q p key ts (encrypt_locked q v p key b h)"
proof -
  let ?t = "sealing_copy p"
  let ?ps = "[?t, ?t @ ''-journal'', ?t @ ''-wal'', ?t @ ''-shm'']"
  obtain ok h1 where c: "clear_files (ee_removes v) ?ps h = (ok, h1)" by fastforce
  have ne: "\<forall>x\<in>set ?ps. x \<noteq> p \<and> x \<noteq> wal_of p" by (rule copy_names)
  have k1: "keeps_original q p ts h1"
    using always_clear [of ?ps "original q p ts" h "ee_removes v"] ne original_upd assms(1) c by (metis snd_conv)
  have h0: "h \<noteq> []" using assms(1) by (simp add: always_def)
  have w1: "hd h1 (wal_of p) = None" "h1 \<noteq> []"
    using clear_wal [of p ?ps h "ee_removes v"] ne h0 assms(3) c by (metis snd_conv)+
  obtain ok2 h2 where r: "restrictFiles (ee_creates v) (ee_chmods v) ?t h1 = (ok2, h2)" by fastforce
  have k2: "keeps_original q p ts h2"
    using always_restrict [of "original q p ts" ?t h1 "ee_creates v" "ee_chmods v"] original_upd [OF copy_ne] k1 r by (metis snd_conv)
  have w2: "hd h2 (wal_of p) = None"
    using r w1 copy_ne [of p] by (auto simp: restrictFiles_def split: if_splits)
  show ?thesis unfolding encrypt_locked_def Let_def using assms(4) c r kept_outcome [OF k1] kept_outcome [OF k2] write_outcome [OF k2 assms(2) w2]
    by auto
qed

lemma encrypt_outcome:
  assumes "original q p ts f" and "\<And>b. ee_lock v = Locked b \<or> ee_lock v = LeftWalOnly b \<Longrightarrow> se_read q [] b None = Some ts"
  shows "outcome_ok q p key ts (Encrypt q v p key f)"
proof -
  have k0: "keeps_original q p ts [f]" using assms(1) by (simp add: always_def)
  have k1: "keeps_original q p ts [left_wal p b f, f]" "hd [left_wal p b f, f] (wal_of p) = None"
    if "ee_lock v = Locked b \<or> ee_lock v = LeftWalOnly b" for b
    using left_wal_original [OF assms(2) [OF that]] assms(1) by (simp_all add: always_def left_wal_def)
  show ?thesis
  proof (cases "key \<noteq> [] \<and> detect (ee_readable v) f p = Some FilePlain")
    case False
    then show ?thesis using kept_outcome [OF k0] by (auto simp: Encrypt_def split: option.splits file_kind.splits)
  next
    case True
    then show ?thesis using kept_outcome [OF k0] kept_outcome [OF k1(1)] locked_outcome [OF k1(1) _ k1(2)] assms(2)
      by (simp add: Encrypt_def split: lock_outcome.split)
  qed
qed

text \<open>C21: A conversion that is stopped at any moment, by an error, a kill or a power failure, leaves at its path a database
  that opens: the original without a key, or a copy that opens with the key and whose tables have the row
  counts and digests of the original. Leaving WAL mode is taken to keep the content, as SQLite documents.\<close>
theorem encrypt_survives_crash:
  assumes "original q p ts f" and "\<And>b. ee_lock v = Locked b \<or> ee_lock v = LeftWalOnly b \<Longrightarrow> se_read q [] b None = Some ts"
    and "g \<in> set (snd (Encrypt q v p key f))" and "after_crash g g'"
  shows "reads_as q g' p [] = Some ts \<or>
    (\<exists>ts'. reads_as q g' p key = Some ts' \<and> same_digest (contentDigest q ts) (contentDigest q ts'))"
proof -
  have "recoverable q p key ts g"
    using encrypt_outcome [OF assms(1,2), where key = key] assms(3) by (auto simp: outcome_ok_def always_def list_all_iff)
  then show ?thesis using original_crash [OF assms(4)] converted_crash [OF assms(4)] unfolding recoverable_def by blast
qed

text \<open>After a conversion that reports success the database opens with its key and is refused without one; after one that
  reports an error it is still the original.\<close>
theorem encrypt_result_is_what_opens:
  assumes "original q p ts f" and "\<And>b. ee_lock v = Locked b \<or> ee_lock v = LeftWalOnly b \<Longrightarrow> se_read q [] b None = Some ts"
  shows "case Encrypt q v p key f of
      (Inl e, h) \<Rightarrow> reads_as q (hd h) p [] = Some ts
    | (Inr rep, h) \<Rightarrow>
        (case openFile q \<lparr>oe_mkdir = True, oe_readable = \<lambda>_. True, oe_creates = \<lambda>_. True, oe_chmods = \<lambda>_. True\<rparr> p key (hd h) of
           (Inr ts', _) \<Rightarrow> same_digest (contentDigest q ts) (contentDigest q ts') | _ \<Rightarrow> False) \<and>
        fst (openFile q \<lparr>oe_mkdir = True, oe_readable = \<lambda>_. True, oe_creates = \<lambda>_. True, oe_chmods = \<lambda>_. True\<rparr> p [] (hd h)) = Inl KeyMissing"
proof (cases "Encrypt q v p key f")
  case (Pair r h)
  have o: "outcome_ok q p key ts (r, h)" using encrypt_outcome [of q p ts f v key] assms Pair by simp
  show ?thesis
  proof (cases r)
    case (Inl e)
    with o Pair show ?thesis by (simp add: outcome_ok_def original_def)
  next
    case (Inr rep)
    with o have c: "converted q p key (contentDigest q ts) (hd h)" by (simp add: outcome_ok_def)
    then obtain x ts' where x: "hd h p = Some x" "hd h (wal_of p) = None" "fl_bytes x \<noteq> []" "take (length sqliteMagic) (fl_bytes x) \<noteq> sqliteMagic"
      "se_read q key (fl_bytes x) None = Some ts'" "same_digest (contentDigest q ts) (contentDigest q ts')"
      by (auto simp: converted_def holds_sealed_def split: option.splits)
    have "sqliteMagic \<noteq> []" by (simp add: sqliteMagic_def)
    with x have "detect (\<lambda>_. True) (hd h) p = Some FileOpaque" by (simp add: detect_def Let_def)
    moreover have "key \<noteq> []" using Inr Pair by (auto simp: Encrypt_def)
    ultimately show ?thesis using x Inr Pair by (simp add: openFile_def restrictFiles_def open_content_def reads_as_def)
  qed
qed

section \<open>Which databases are opened\<close>

lemma restrict_history:
  "list_all (\<lambda>g. g = f \<or> (f p = None \<and> g = f(p \<mapsto> new_file))) (snd (restrictFiles creates chmods p [f]))"
  by (simp add: restrictFiles_def)

lemma opened_content:
  assumes "restrictFiles creates chmods p [f] = (True, h)" and "detect readable f p = Some k" and "open_content q p key (hd h) = Some ts"
  shows "if k = FileNew then ts = [] else reads_as q f p key = Some ts"
proof (cases "f p")
  case None
  with assms show ?thesis by (auto simp: restrictFiles_def detect_def open_content_def new_file_def split: if_splits)
next
  case (Some x)
  then have "h = [f]" using assms(1) by (simp add: restrictFiles_def split: if_splits)
  moreover have "sqliteMagic \<noteq> []" by (simp add: sqliteMagic_def)
  ultimately show ?thesis using Some assms(2,3)
    by (auto simp: detect_def open_content_def Let_def split: if_splits)
qed

text \<open>C30: A plaintext database is not opened under a key, nor an unreadable one without: what is opened is a new
  file, plaintext without a key, or what the key decrypts. Nothing but a new, empty file is written.\<close>
theorem open_fails_closed:
  "case openFile q v p key f of
     (Inl e, h) \<Rightarrow> list_all (\<lambda>g. g = f \<or> (f p = None \<and> g = f(p \<mapsto> new_file))) h
   | (Inr ts, h) \<Rightarrow>
       list_all (\<lambda>g. g = f \<or> (f p = None \<and> g = f(p \<mapsto> new_file))) h \<and>
       (case detect (oe_readable v) f p of
          Some FileNew \<Rightarrow> ts = []
        | Some FilePlain \<Rightarrow> key = [] \<and> reads_as q f p [] = Some ts
        | Some FileOpaque \<Rightarrow> key \<noteq> [] \<and> reads_as q f p key = Some ts
        | None \<Rightarrow> False)"
proof -
  let ?P = "\<lambda>g. g = f \<or> (f p = None \<and> g = f(p \<mapsto> new_file))"
  obtain ok h where r: "restrictFiles (oe_creates v) (oe_chmods v) p [f] = (ok, h)" by fastforce
  have h: "list_all ?P h" using restrict_history [of f p "oe_creates v" "oe_chmods v"] r by simp
  have res: "list_all ?P (snd (openFile q v p key f))"
    using h r by (simp add: openFile_def split: option.split)
  show ?thesis
  proof (cases "openFile q v p key f")
    case (Pair x h')
    show ?thesis
    proof (cases x)
      case (Inl e)
      with Pair res show ?thesis by simp
    next
      case (Inr ts)
      with Pair r have "ok" "oe_mkdir v" "h' = h" "open_content q p key (hd h) = Some ts"
        "case detect (oe_readable v) f p of None \<Rightarrow> False | Some k \<Rightarrow> \<not> (k = FilePlain \<and> key \<noteq> []) \<and> \<not> (k = FileOpaque \<and> key = [])"
        by (simp_all add: openFile_def split: if_split_asm option.split_asm)
      with Pair Inr res r opened_content [of "oe_creates v" "oe_chmods v" p f h "oe_readable v" _ q key ts] show ?thesis
        by (auto split: option.splits file_kind.splits)
    qed
  qed
qed

section \<open>The digest\<close>

lemma add_row_commute: "add_row q a (add_row q b d) = add_row q b (add_row q a d)"
  by (simp add: add_row_def ac_simps split: prod.splits)

text \<open>The digest of a table depends on its rows and not on their order.\<close>
theorem digest_ignores_row_order:
  assumes "mset (tb_rows t) = mset (tb_rows t')"
  shows "digestTable q t = digestTable q t'"
proof -
  have "fold (add_row q) (tb_rows t) = fold (add_row q) (tb_rows t')"
    by (rule fold_multiset_equiv [OF _ assms]) (simp add: fun_eq_iff add_row_commute)
  then show ?thesis by (simp add: digestTable_def)
qed

lemma digest_rows: "td_rows (fold (add_row q) rs d) = td_rows d + length rs"
  by (induction rs arbitrary: d) (auto simp: add_row_def split: prod.splits)

lemma digestTable_rows: "td_rows (digestTable q t) = length (tb_rows t)"
  by (simp add: digestTable_def digest_rows)

lemma same_digest_refl: "distinct (map fst w) \<Longrightarrow> same_digest w w"
  by (auto simp: same_digest_def list_all_iff)

text \<open>Values are joined by a byte that they may contain, so rows that differ can have one digest.\<close>

lemma rows_with_one_text:
  "row_text [(''string'', ''a'' @ CHR 0x1F # ''string:b''), (''string'', ''c'')] =
   row_text [(''string'', ''a''), (''string'', ''b'' @ CHR 0x1F # ''string:c'')]"
  by (simp add: row_text_def)

section \<open>A small engine\<close>

text \<open>One table of one row with the rest of the file; an encrypted file starts with the key.\<close>

definition toy_table :: "string \<Rightarrow> sql_table" where
  "toy_table s = \<lparr>tb_name = ''rules'', tb_virtual = False, tb_rows = [[(''string'', s)]]\<rparr>"

definition toy_engine :: sql_engine where
  "toy_engine = \<lparr>se_read = (\<lambda>key b w.
      if key = [] then (if has_prefix b sqliteMagic then Some [toy_table (drop 16 b)] else None)
      else if has_prefix b key then Some [toy_table (drop (length key) b)] else None),
    se_hash = (\<lambda>s. (word_of_nat (length s), 0))\<rparr>"

definition toy_file :: file_map where
  "toy_file = [''imap.db'' \<mapsto> \<lparr>fl_bytes = sqliteMagic @ ''x'', fl_synced = True\<rparr>]"

definition toy_run :: encrypt_env where
  "toy_run = \<lparr>ee_readable = (\<lambda>_. True), ee_lock = Locked (sqliteMagic @ ''x''), ee_removes = (\<lambda>_. True), ee_creates = (\<lambda>_. True),
     ee_chmods = (\<lambda>_. True), ee_vacuum = (''keyx'', True), ee_integrity = True, ee_syncs = True, ee_renames = True, ee_entries = []\<rparr>"

lemma toy_original: "original toy_engine ''imap.db'' [toy_table ''x''] toy_file"
  by code_simp

lemma toy_lock: "ee_lock toy_run = Locked b \<or> ee_lock toy_run = LeftWalOnly b \<Longrightarrow> se_read toy_engine [] b None = Some [toy_table ''x'']"
  by (auto simp: toy_run_def toy_engine_def sqliteMagic_def has_prefix_def)

lemma toy_converts: "case Encrypt toy_engine toy_run ''imap.db'' ''key'' toy_file of (Inl e, h) \<Rightarrow> False | (Inr rep, h) \<Rightarrow> length h = 9"
  by code_simp

text \<open>The crash that empties every file that was not synced.\<close>

definition lose_unsynced :: "file_map \<Rightarrow> file_map" where
  "lose_unsynced f = (\<lambda>p. map_option (\<lambda>x. if fl_synced x then x else x\<lparr>fl_bytes := []\<rparr>) (f p))"

lemma lose_unsynced_crash: "after_crash f (lose_unsynced f)"
  by (simp add: after_crash_def lose_unsynced_def split: option.split)

theorem encrypt_survives_crash_witness:
  "reads_as toy_engine (lose_unsynced (hd (snd (Encrypt toy_engine toy_run ''imap.db'' ''key'' toy_file)))) ''imap.db'' [] = Some [toy_table ''x''] \<or>
   (\<exists>ts. reads_as toy_engine (lose_unsynced (hd (snd (Encrypt toy_engine toy_run ''imap.db'' ''key'' toy_file)))) ''imap.db'' ''key'' = Some ts \<and>
      same_digest (contentDigest toy_engine [toy_table ''x'']) (contentDigest toy_engine ts))"
proof -
  have "snd (Encrypt toy_engine toy_run ''imap.db'' ''key'' toy_file) \<noteq> []" using toy_converts by (auto split: prod.splits sum.splits)
  then have "hd (snd (Encrypt toy_engine toy_run ''imap.db'' ''key'' toy_file)) \<in> set (snd (Encrypt toy_engine toy_run ''imap.db'' ''key'' toy_file))"
    by simp
  from encrypt_survives_crash [OF toy_original toy_lock this lose_unsynced_crash] show ?thesis by blast
qed

theorem encrypt_result_is_what_opens_witness:
  "fst (openFile toy_engine \<lparr>oe_mkdir = True, oe_readable = \<lambda>_. True, oe_creates = \<lambda>_. True, oe_chmods = \<lambda>_. True\<rparr> ''imap.db'' []
     (hd (snd (Encrypt toy_engine toy_run ''imap.db'' ''key'' toy_file)))) = Inl KeyMissing"
  using encrypt_result_is_what_opens [of toy_engine "''imap.db''" "[toy_table ''x'']" toy_file toy_run "''key''"] toy_original toy_lock toy_converts by (auto split: prod.splits sum.splits)

theorem digest_ignores_row_order_witness:
  "digestTable toy_engine \<lparr>tb_name = ''t'', tb_virtual = False, tb_rows = [[(''int64'', ''1'')], []]\<rparr> =
   digestTable toy_engine \<lparr>tb_name = ''t'', tb_virtual = False, tb_rows = [[], [(''int64'', ''1'')]]\<rparr>"
  by (rule digest_ignores_row_order) simp

section \<open>Copies\<close>

text \<open>Every plaintext file of the directory whose name goes on from that of the database is listed, apart from
  names that end like a sidecar.\<close>

lemma copies_listed:
  assumes "(path_base p @ x, False) \<in> set entries" and "x \<noteq> []" and "\<not> sidecar (path_base p @ x)"
    and "detect readable f (path_join (path_dir p) (path_base p @ x)) = Some FilePlain"
  shows "path_join (path_dir p) (path_base p @ x) \<in> set (PlaintextCopies readable f entries p)"
  using assms by (force simp: PlaintextCopies_def)

lemma copies_are_plain: "list_all (\<lambda>c. detect readable f c = Some FilePlain) (PlaintextCopies readable f entries p)"
  by (auto simp: PlaintextCopies_def list_all_iff)

end
