(* ===== verification/Migrate.thy ===== *)
theory Migrate
  imports DB_Files Enrich
begin

text \<open>
  Bringing old databases up to date (\<open>internal/db/migrate.go\<close>, \<open>migrateState\<close> and \<open>ensureCacheSchema\<close> of
  \<open>internal/db/db.go\<close>): the split of a database from before 0.6.0, the columns added later, and the cache's schema.
  A database is the list of its objects. The outcomes of the statements, what another process did before the
  write lock was taken, and SHA-256 are inputs.
\<close>

section \<open>Objects\<close>

text \<open>A table holds the texts of its rows, as the query of \<open>fingerprint\<close> orders them; triggers, indexes and shadow
  tables belong to a table and go with it.\<close>

record db_object =
  ob_kind :: string
  ob_name :: string
  ob_owner :: "string option"
  ob_rows :: "string list"

type_synonym old_db = "db_object list"

definition stateTables :: "string list" where
  "stateTables = [''rules'', ''webhooks'', ''inbound_nonces'']"

definition legacyCacheObjects :: "(string \<times> string) list" where
  "legacyCacheObjects =
     [(''TRIGGER'', ''messages_fts_insert''), (''TRIGGER'', ''messages_fts_delete''), (''TRIGGER'', ''messages_fts_update''),
      (''TABLE'', ''messages_fts''), (''TABLE'', ''message_vectors''), (''TABLE'', ''enrichment_queue''),
      (''TABLE'', ''anomalies''), (''TABLE'', ''kg_relationships''), (''TABLE'', ''kg_entities''), (''TABLE'', ''senders''),
      (''TABLE'', ''folders''), (''TABLE'', ''sync_state''), (''TABLE'', ''messages'')]"

definition find_table :: "old_db \<Rightarrow> string \<Rightarrow> db_object option" where
  "find_table d n = find (\<lambda>x. ob_kind x = ''TABLE'' \<and> ob_name x = n) d"

definition hasTable :: "old_db \<Rightarrow> string \<Rightarrow> bool" where
  "hasTable d n = (find_table d n \<noteq> None)"

text \<open>\<open>DROP kind IF EXISTS name\<close>.\<close>

definition drop_object :: "string \<times> string \<Rightarrow> old_db \<Rightarrow> old_db" where
  "drop_object o1 d =
     (case o1 of (k, n) \<Rightarrow>
        filter (\<lambda>x. \<not> (ob_kind x = k \<and> ob_name x = n) \<and> \<not> (k = ''TABLE'' \<and> hasTable d n \<and> ob_owner x = Some n)) d)"

section \<open>Fingerprints\<close>

text \<open>Rows and digest of the state tables there are; a map without an entry gives zero values.\<close>

type_synonym fingerprints = "(string \<times> (nat \<times> string)) list"

definition fingerprint :: "(string \<Rightarrow> string) \<Rightarrow> old_db \<Rightarrow> fingerprints" where
  "fingerprint sha d =
     concat (map (\<lambda>t. case find_table d t of
         None \<Rightarrow> []
       | Some x \<Rightarrow> [(t, length (ob_rows x), sha (concat (map (\<lambda>r. r @ [CHR 0x1E]) (ob_rows x))))]) stateTables)"

definition entry_of :: "fingerprints \<Rightarrow> string \<Rightarrow> nat \<times> string" where
  "entry_of fp t = (case map_of fp t of None \<Rightarrow> (0, []) | Some e \<Rightarrow> e)"

definition sameFingerprint :: "fingerprints \<Rightarrow> fingerprints \<Rightarrow> bool" where
  "sameFingerprint a b = list_all (\<lambda>t. entry_of a t = entry_of b t) stateTables"

section \<open>The split\<close>

datatype split_error = SplitDetect | BackupFailed | BackupDiffers | BeginFailed | DropFailed string | StateChanged | CommitFailed | VacuumFailed

record split_env =
  sp_kind :: "file_kind option"
  sp_backup :: "old_db option"   \<comment> \<open>the backup as it reads back\<close>
  sp_at_begin :: old_db          \<comment> \<open>the database when the write lock is held\<close>
  sp_begins :: bool
  sp_drops :: "string \<times> string \<Rightarrow> bool"
  sp_commits :: bool
  sp_vacuums :: bool

record split_report =
  sr_fingerprint :: fingerprints

text \<open>The drops of the transaction, until one fails.\<close>

fun drop_all :: "split_env \<Rightarrow> (string \<times> string) list \<Rightarrow> old_db \<Rightarrow> split_error + old_db" where
  "drop_all v [] d = Inr d"
| "drop_all v (x # xs) d = (if sp_drops v x then drop_all v xs (drop_object x d) else Inl (DropFailed (snd x)))"

text \<open>The database is read and backed up, then split in one transaction. A report is made only by a split.\<close>

definition split_locked :: "(string \<Rightarrow> string) \<Rightarrow> split_env \<Rightarrow> fingerprints \<Rightarrow> old_db \<Rightarrow> split_error option \<times> split_report option \<times> old_db" where
  "split_locked sha v before d =
     (if \<not> hasTable d ''messages'' then (None, None, d)
      else (case drop_all v legacyCacheObjects d of
          Inl e \<Rightarrow> (Some e, None, d)
        | Inr d' \<Rightarrow>
            (if \<not> sameFingerprint before (fingerprint sha d') then (Some StateChanged, None, d)
             else if \<not> sp_commits v then (Some CommitFailed, None, d)
             else if \<not> sp_vacuums v then (Some VacuumFailed, None, d')
             else (None, Some \<lparr>sr_fingerprint = before\<rparr>, d'))))"

definition migrateLegacy :: "(string \<Rightarrow> string) \<Rightarrow> split_env \<Rightarrow> old_db \<Rightarrow> split_error option \<times> split_report option \<times> old_db" where
  "migrateLegacy sha v d =
     (case sp_kind v of
        None \<Rightarrow> (Some SplitDetect, None, d)
      | Some k \<Rightarrow>
          (if k \<noteq> FilePlain \<or> \<not> hasTable d ''messages'' then (None, None, d)
           else (case sp_backup v of
               None \<Rightarrow> (Some BackupFailed, None, d)
             | Some b \<Rightarrow>
                 (if \<not> sameFingerprint (fingerprint sha d) (fingerprint sha b) then (Some BackupDiffers, None, d)
                  else if \<not> sp_begins v then (Some BeginFailed, None, sp_at_begin v)
                  else split_locked sha v (fingerprint sha d) (sp_at_begin v)))))"

section \<open>Columns added later\<close>

definition stateColumns :: "(string \<times> string) list" where
  "stateColumns =
     [(''intel_messages'', ''kg_done''), (''intel_messages'', ''kg_tags_done''), (''intel_messages'', ''kg_llm_done''),
      (''kg_relationships'', ''weight''), (''kg_relationships'', ''last_seen''),
      (''anomalies'', ''folder''), (''anomalies'', ''uid''), (''anomalies'', ''message_ref''), (''anomalies'', ''details''),
      (''senders'', ''trusted''), (''intel_scan'', ''rescan_until''), (''intel_messages'', ''folder''),
      (''webhooks'', ''payload''), (''held_messages'', ''decision'')]"

record scan_mark =
  sk_last_uid :: nat
  sk_completed :: "int option"
  sk_rescan :: "nat option"

record state_store =
  st_columns :: "(string \<times> string) list"
  st_scan :: "scan_mark list"
  st_indexes :: "string list"
  st_entities :: "(string \<times> string) list"   \<comment> \<open>type and name\<close>

text \<open>SQLite's \<open>trim\<close> takes blanks off both ends, with a second argument its characters.\<close>

definition sql_trim :: "char list \<Rightarrow> string \<Rightarrow> string" where
  "sql_trim cs s = rev (dropWhile (\<lambda>c. c \<in> set cs) (rev (dropWhile (\<lambda>c. c \<in> set cs) s)))"

definition placeholderSQL :: "string \<Rightarrow> bool" where
  "placeholderSQL s =
     (CHR ''<'' \<in> set s \<or> CHR ''>'' \<in> set s \<or> str_contains (to_lower s) ''if unclear'' \<or>
      to_lower (sql_trim [CHR '' ''] s) \<in> set [''project or context'', ''project'', ''context'', ''topic'', ''unclear'', ''none'',
        ''n/a'', ''unknown'', ''empty string''])"

text \<open>Both flags of the loop over the columns, with the states it went through, the newest first.\<close>

definition add_column :: "string \<times> string \<Rightarrow> bool \<times> bool \<times> state_store list \<Rightarrow> bool \<times> bool \<times> state_store list" where
  "add_column c s =
     (case s of (kg, threads, h) \<Rightarrow>
        if c \<in> set (st_columns (hd h)) then s
        else (let h = (hd h)\<lparr>st_columns := st_columns (hd h) @ [c]\<rparr> # h in
          if snd c = ''kg_done'' then (True, threads, h)
          else if snd c = ''rescan_until'' \<or> snd c = ''folder'' then (kg, True, h)
          else (kg, threads, h)))"

definition restart_scan :: "scan_mark \<Rightarrow> scan_mark" where
  "restart_scan m = m\<lparr>sk_last_uid := 0, sk_completed := None\<rparr>"

definition begin_rescan :: "scan_mark \<Rightarrow> scan_mark" where
  "begin_rescan m =
     (let r = (case sk_rescan m of None \<Rightarrow> 0 | Some n \<Rightarrow> n) in
      if sk_last_uid m > 0 \<or> r > 0 then m\<lparr>sk_rescan := Some (max (sk_last_uid m) r), sk_last_uid := 0\<rparr> else m)"

definition mark_scans :: "bool \<Rightarrow> bool \<Rightarrow> state_store list \<Rightarrow> state_store list" where
  "mark_scans kg threads h =
     (if kg then (hd h)\<lparr>st_scan := map restart_scan (st_scan (hd h))\<rparr> # h
      else if threads then (hd h)\<lparr>st_scan := map begin_rescan (st_scan (hd h))\<rparr> # h
      else h)"

definition stateIndexes :: "string list" where
  "stateIndexes = [''idx_kg_rel_unique'', ''idx_intel_messages_kg'', ''idx_intel_messages_reply'', ''idx_anomalies_message'', ''idx_anomalies_open'']"

definition add_index :: "string \<Rightarrow> state_store list \<Rightarrow> state_store list" where
  "add_index i h = (if i \<in> set (st_indexes (hd h)) then h else (hd h)\<lparr>st_indexes := st_indexes (hd h) @ [i]\<rparr> # h)"

definition drop_placeholders :: "state_store list \<Rightarrow> state_store list" where
  "drop_placeholders h =
     (hd h)\<lparr>st_entities := filter (\<lambda>(ty, n). \<not> ((ty = ''project'' \<or> ty = ''topic'') \<and> placeholderSQL n)) (st_entities (hd h))\<rparr> # h"

text \<open>The whole migration, statement by statement; a process that is killed leaves one of the states.\<close>

definition migrateState :: "state_store \<Rightarrow> state_store list" where
  "migrateState d =
     (case fold add_column stateColumns (False, False, [d]) of
        (kg, threads, h) \<Rightarrow> drop_placeholders (fold add_index stateIndexes (mark_scans kg threads h)))"

section \<open>The schema of the cache\<close>

definition cacheSchemaVersion :: nat where "cacheSchemaVersion = 3"

record cache_store =
  cs_version :: nat
  cs_objects :: nat            \<comment> \<open>objects that are not SQLite's own\<close>
  cs_db :: cache_db

definition all_halls :: "string list" where
  "all_halls = [''transactional'', ''conversation'', ''newsletter'', ''notification'', ''alert'', ''personal'', ''unclassified'']"

definition unwrap_hall :: "string \<Rightarrow> string" where
  "unwrap_hall h =
     (if CHR ''<'' \<in> set h \<or> CHR ''>'' \<in> set h \<or> h \<noteq> to_lower (sql_trim [CHR '' ''] h)
      then to_lower (sql_trim [CHR ''<'', CHR ''>'', CHR '' ''] h) else h)"

definition clear_hall :: "string \<Rightarrow> string" where
  "clear_hall h = (if h \<in> set all_halls then h else [])"

definition clean_row :: "msg_row \<Rightarrow> msg_row" where
  "clean_row m =
     m\<lparr>m_wing := (if placeholderSQL (m_wing m) then [] else m_wing m),
       m_room := (if placeholderSQL (m_room m) then [] else m_room m),
       m_hall := clear_hall (unwrap_hall (m_hall m))\<rparr>"

text \<open>A database of another version is emptied first, unless it has no objects.\<close>

definition rebuilt :: "cache_store \<Rightarrow> cache_db" where
  "rebuilt d =
     (if cs_version d \<noteq> cacheSchemaVersion \<and> cs_objects d > 0 then empty_cache\<lparr>db_now := db_now (cs_db d)\<rparr> else cs_db d)"

definition ensureCacheSchema :: "nat \<Rightarrow> cache_store \<Rightarrow> cache_store" where
  "ensureCacheSchema objects d =
     \<lparr>cs_version = cacheSchemaVersion, cs_objects = objects, cs_db = (rebuilt d)\<lparr>messages := map clean_row (messages (rebuilt d))\<rparr>\<rparr>"

end
