(* ===== verification/Migrate_Props.thy ===== *)
theory Migrate_Props
  imports Migrate DB_Files_Props Cache_Inv
begin

text \<open>
  What the migrations promise: the split keeps the state tables and can be repeated, a finished migration of the
  state database is a fixed point - and what a process that is killed in its middle forgets; the cache
  holds only known halls and no placeholder afterwards.
\<close>

section \<open>The split\<close>

lemma find_table_drop:
  assumes "n \<noteq> snd o1" and "\<And>x. find_table d n = Some x \<Longrightarrow> ob_owner x = None"
  shows "find_table (drop_object o1 d) n = find_table d n"
proof -
  obtain k m where o1: "o1 = (k, m)" by (cases o1)
  have "find P (filter Q xs) = find P xs" if "\<And>x. find P xs = Some x \<Longrightarrow> Q x" "\<And>x y. P x \<Longrightarrow> P y \<Longrightarrow> True" for P Q and xs :: old_db
    using that(1) by (induction xs) (auto split: if_splits)
  note f = this
  show ?thesis unfolding find_table_def drop_object_def o1
    by (simp, rule f) (use assms o1 in \<open>auto simp: find_table_def find_Some_iff\<close>)
qed

text \<open>The tables that stay are tables of their own.\<close>

definition plain_tables :: "old_db \<Rightarrow> bool" where
  "plain_tables d = list_all (\<lambda>n. case find_table d n of None \<Rightarrow> True | Some x \<Rightarrow> ob_owner x = None) stateTables"

lemma drop_all_keeps:
  "drop_all v xs d = Inr d' \<Longrightarrow> plain_tables d \<Longrightarrow> set stateTables \<inter> snd ` set xs = {} \<Longrightarrow>
   \<forall>n\<in>set stateTables. find_table d' n = find_table d n"
proof (induction v xs d rule: drop_all.induct)
  case (2 v x xs d)
  have k: "find_table (drop_object x d) n = find_table d n" if "n \<in> set stateTables" for n
    using that 2(3,4) by (intro find_table_drop) (auto simp: plain_tables_def list_all_iff)
  then have "plain_tables (drop_object x d)" using 2(3) by (simp add: plain_tables_def list_all_iff)
  with 2 k show ?case by (auto split: if_splits)
qed simp

lemma state_not_legacy: "set stateTables \<inter> snd ` set legacyCacheObjects = {}"
  by (simp add: stateTables_def legacyCacheObjects_def)

lemma drop_object_subset: "set (drop_object o1 d) \<subseteq> set d"
  by (auto simp: drop_object_def split: prod.splits)

lemma drop_all_subset: "drop_all v xs d = Inr d' \<Longrightarrow> set d' \<subseteq> set d"
  by (induction v xs d rule: drop_all.induct) (use drop_object_subset in \<open>fastforce split: if_splits\<close>)+

lemma drop_all_gone: "drop_all v xs d = Inr d' \<Longrightarrow> (k, n) \<in> set xs \<Longrightarrow> \<not> list_ex (\<lambda>x. ob_kind x = k \<and> ob_name x = n) d'"
proof (induction v xs d rule: drop_all.induct)
  case (2 v x xs d)
  show ?case
  proof (cases "x = (k, n)")
    case True
    then have "\<not> list_ex (\<lambda>x. ob_kind x = k \<and> ob_name x = n) (drop_object x d)" by (auto simp: drop_object_def list_ex_iff)
    moreover have "set d' \<subseteq> set (drop_object x d)" using 2(2) drop_all_subset by (auto split: if_splits)
    ultimately show ?thesis by (auto simp: list_ex_iff)
  next
    case False
    with 2 show ?thesis by (auto split: if_splits)
  qed
qed simp

lemma gone_table: "\<not> list_ex (\<lambda>x. ob_kind x = ''TABLE'' \<and> ob_name x = n) d \<Longrightarrow> \<not> hasTable d n"
  by (auto simp: hasTable_def find_table_def find_Some_iff list_ex_iff)

lemma migrateLegacy_cases:
  "(\<exists>e. migrateLegacy sha v d = (e, None, d)) \<or> migrateLegacy sha v d = (Some BeginFailed, None, sp_at_begin v) \<or>
   (\<exists>b. sp_backup v = Some b \<and> sameFingerprint (fingerprint sha d) (fingerprint sha b) \<and>
      migrateLegacy sha v d = split_locked sha v (fingerprint sha d) (sp_at_begin v))"
  by (simp add: migrateLegacy_def split: option.split)

text \<open>C22: Whatever fails, and whatever another process wrote before the lock was taken, the split leaves the rules,
  webhooks and nonces as they were when it got the lock, and an error leaves the whole database alone unless it came
  after the commit. A split that reports success has removed the cache tables and left a backup with the
  same state, and the next start finds nothing to split.\<close>
theorem split_keeps_state:
  assumes "plain_tables (sp_at_begin v)"
  shows "case migrateLegacy sha v d of
     (err, rep, d') \<Rightarrow>
       (d' = d \<or> list_all (\<lambda>n. find_table d' n = find_table (sp_at_begin v) n) stateTables) \<and>
       (err = None \<or> err = Some VacuumFailed \<or> d' = d \<or> d' = sp_at_begin v) \<and>
       (case rep of None \<Rightarrow> True | Some r \<Rightarrow>
          err = None \<and> list_all (\<lambda>(k, n). \<not> list_ex (\<lambda>x. ob_kind x = k \<and> ob_name x = n) d') legacyCacheObjects \<and>
          (case sp_backup v of None \<Rightarrow> False
           | Some b \<Rightarrow> sameFingerprint (sr_fingerprint r) (fingerprint sha b) \<and> sameFingerprint (sr_fingerprint r) (fingerprint sha d')) \<and>
          (\<forall>v'. sp_kind v' = Some FilePlain \<longrightarrow> migrateLegacy sha v' d' = (None, None, d')))"
proof -
  have locked: "case split_locked sha v before e of (err, rep, d') \<Rightarrow>
      list_all (\<lambda>n. find_table d' n = find_table e n) stateTables \<and> (err = None \<or> err = Some VacuumFailed \<or> d' = e) \<and>
      (case rep of None \<Rightarrow> True | Some r \<Rightarrow> err = None \<and> sr_fingerprint r = before \<and> sameFingerprint before (fingerprint sha d') \<and>
        list_all (\<lambda>(k, n). \<not> list_ex (\<lambda>x. ob_kind x = k \<and> ob_name x = n) d') legacyCacheObjects)"
    if "plain_tables e" for before e
  proof (cases "drop_all v legacyCacheObjects e")
    case (Inl x)
    then show ?thesis by (simp add: split_locked_def list_all_iff)
  next
    case (Inr d')
    from drop_all_keeps [OF Inr that state_not_legacy] drop_all_gone [OF Inr] Inr show ?thesis
      by (auto simp: split_locked_def list_all_iff)
  qed
  note l = locked [OF assms, of "fingerprint sha d"]
  have again: "migrateLegacy sha v' d' = (None, None, d')"
    if "sp_kind v' = Some FilePlain" "list_all (\<lambda>(k, n). \<not> list_ex (\<lambda>x. ob_kind x = k \<and> ob_name x = n) d') legacyCacheObjects" for v' d'
  proof -
    have "(''TABLE'', ''messages'') \<in> set legacyCacheObjects" by (simp add: legacyCacheObjects_def)
    with that(2) have "\<not> hasTable d' ''messages''" using gone_table by (fastforce simp: list_all_iff)
    with that(1) show ?thesis by (simp add: migrateLegacy_def)
  qed
  from migrateLegacy_cases [of sha v d] show ?thesis
  proof (elim disjE exE conjE)
    fix e assume "migrateLegacy sha v d = (e, None, d)"
    then show ?thesis by simp
  next
    assume "migrateLegacy sha v d = (Some BeginFailed, None, sp_at_begin v)"
    then show ?thesis by (simp add: list_all_iff)
  next
    fix b assume b: "sp_backup v = Some b" "sameFingerprint (fingerprint sha d) (fingerprint sha b)"
      and r: "migrateLegacy sha v d = split_locked sha v (fingerprint sha d) (sp_at_begin v)"
    obtain err rep d' where s: "split_locked sha v (fingerprint sha d) (sp_at_begin v) = (err, rep, d')" by (metis prod_cases3)
    show ?thesis
    proof (cases rep)
      case None
      with l s r show ?thesis by auto
    next
      case (Some x)
      with l s have x: "err = None" "sr_fingerprint x = fingerprint sha d" "sameFingerprint (fingerprint sha d) (fingerprint sha d')"
        "list_all (\<lambda>(k, n). \<not> list_ex (\<lambda>x. ob_kind x = k \<and> ob_name x = n) d') legacyCacheObjects"
        "list_all (\<lambda>n. find_table d' n = find_table (sp_at_begin v) n) stateTables" by simp_all
      have "\<forall>v'. sp_kind v' = Some FilePlain \<longrightarrow> migrateLegacy sha v' d' = (None, None, d')" using again x(4) by blast
      with x b r s Some show ?thesis by simp
    qed
  qed
qed

text \<open>A database of each kind, and a process that adds a rule between the backup and the lock.\<close>

definition old_store :: "string list \<Rightarrow> old_db" where
  "old_store rs =
     [\<lparr>ob_kind = ''TABLE'', ob_name = ''rules'', ob_owner = None, ob_rows = rs\<rparr>,
      \<lparr>ob_kind = ''TABLE'', ob_name = ''messages'', ob_owner = None, ob_rows = [''m'']\<rparr>,
      \<lparr>ob_kind = ''TRIGGER'', ob_name = ''messages_fts_insert'', ob_owner = Some ''messages'', ob_rows = []\<rparr>]"

definition split_run :: split_env where
  "split_run = \<lparr>sp_kind = Some FilePlain, sp_backup = Some (old_store [''r1'']), sp_at_begin = old_store [''r1''], sp_begins = True,
     sp_drops = (\<lambda>_. True), sp_commits = True, sp_vacuums = True\<rparr>"

theorem split_keeps_state_witness:
  "case migrateLegacy id split_run (old_store [''r1'']) of (err, rep, d') \<Rightarrow>
     err = None \<and> rep \<noteq> None \<and> find_table d' ''rules'' = find_table (old_store [''r1'']) ''rules''"
proof -
  have "plain_tables (sp_at_begin split_run)" by code_simp
  moreover have "case migrateLegacy id split_run (old_store [''r1'']) of (err, rep, d') \<Rightarrow> err = None \<and> rep \<noteq> None \<and> d' \<noteq> old_store [''r1'']"
    by code_simp
  moreover have "sp_at_begin split_run = old_store [''r1'']" by (simp add: split_run_def)
  ultimately show ?thesis using split_keeps_state [where v = split_run and sha = id and d = "old_store [''r1'']"]
    by (auto simp: stateTables_def split: prod.splits)
qed

lemma split_sees_concurrent_rule:
  "case migrateLegacy id (split_run\<lparr>sp_at_begin := old_store [''r1'', ''r2'']\<rparr>) (old_store [''r1'']) of (err, rep, d') \<Rightarrow>
     err = Some StateChanged \<and> d' = old_store [''r1'', ''r2'']"
  by code_simp

section \<open>The state database\<close>

definition missing :: "state_store \<Rightarrow> (string \<times> string) list" where
  "missing d = filter (\<lambda>c. c \<notin> set (st_columns d)) stateColumns"

lemma add_column_known: "c \<in> set (st_columns (hd h)) \<Longrightarrow> add_column c (kg, threads, h) = (kg, threads, h)"
  by (simp add: add_column_def)

lemma add_column_new:
  "c \<notin> set (st_columns (hd h)) \<Longrightarrow> add_column c (kg, threads, h) =
   (kg \<or> snd c = ''kg_done'', threads \<or> snd c = ''rescan_until'' \<or> snd c = ''folder'', (hd h)\<lparr>st_columns := st_columns (hd h) @ [c]\<rparr> # h)"
  by (auto simp: add_column_def Let_def)

lemma add_columns:
  assumes "distinct cs" and "h \<noteq> []"
  shows "case fold add_column cs (kg, threads, h) of (kg', threads', h') \<Rightarrow>
    (let new = filter (\<lambda>c. c \<notin> set (st_columns (hd h))) cs in
     h' \<noteq> [] \<and> hd h' = (hd h)\<lparr>st_columns := st_columns (hd h) @ new\<rparr> \<and>
     kg' = (kg \<or> list_ex (\<lambda>c. snd c = ''kg_done'') new) \<and>
     threads' = (threads \<or> list_ex (\<lambda>c. snd c = ''rescan_until'' \<or> snd c = ''folder'') new))"
  using assms
proof (induction cs arbitrary: kg threads h)
  case Nil
  then show ?case by simp
next
  case (Cons c cs)
  show ?case
  proof (cases "c \<in> set (st_columns (hd h))")
    case True
    with Cons.IH [of h kg threads] Cons.prems show ?thesis by (simp add: add_column_known)
  next
    case False
    let ?h = "(hd h)\<lparr>st_columns := st_columns (hd h) @ [c]\<rparr> # h"
    let ?kg = "kg \<or> snd c = ''kg_done''" and ?th = "threads \<or> snd c = ''rescan_until'' \<or> snd c = ''folder''"
    have "c \<notin> set cs" using Cons.prems by simp
    then have e: "filter (\<lambda>x. x \<notin> set (st_columns (hd ?h))) cs = filter (\<lambda>x. x \<notin> set (st_columns (hd h))) cs"
      by (auto intro!: filter_cong)
    obtain kg' th' h' where r: "fold add_column cs (?kg, ?th, ?h) = (kg', th', h')" by (metis prod_cases3)
    have step: "fold add_column (c # cs) (kg, threads, h) = (kg', th', h')"
      unfolding fold.simps comp_def add_column_new [OF False] by (rule r)
    from Cons.IH [of ?h ?kg ?th, unfolded r Let_def e] Cons.prems False show ?thesis
      unfolding step by (auto simp: Let_def)
  qed
qed

lemma distinct_columns: "distinct stateColumns"
  by code_simp

definition columns_added :: "state_store \<Rightarrow> state_store" where
  "columns_added d = d\<lparr>st_columns := st_columns d @ missing d\<rparr>"

definition kg_new :: "state_store \<Rightarrow> bool" where
  "kg_new d = list_ex (\<lambda>c. snd c = ''kg_done'') (missing d)"

definition threads_new :: "state_store \<Rightarrow> bool" where
  "threads_new d = list_ex (\<lambda>c. snd c = ''rescan_until'' \<or> snd c = ''folder'') (missing d)"

lemma columns_step:
  obtains h where "fold add_column stateColumns (False, False, [d]) = (kg_new d, threads_new d, h)" and "h \<noteq> []" and "hd h = columns_added d"
proof -
  obtain kg threads h where f: "fold add_column stateColumns (False, False, [d]) = (kg, threads, h)" by (metis prod_cases3)
  from add_columns [OF distinct_columns, of "[d]" False False, unfolded f] that [of h]
  show ?thesis unfolding f by (simp add: Let_def missing_def columns_added_def kg_new_def threads_new_def)
qed

lemma add_indexes:
  "h \<noteq> [] \<Longrightarrow> set h \<subseteq> set (fold add_index is h) \<and> fold add_index is h \<noteq> [] \<and>
   (\<exists>new. hd (fold add_index is h) = (hd h)\<lparr>st_indexes := st_indexes (hd h) @ new\<rparr> \<and> set is \<subseteq> set (st_indexes (hd h) @ new))"
proof (induction "is" arbitrary: h)
  case Nil
  then show ?case by (auto intro: exI [of _ "[]"])
next
  case (Cons i "is")
  show ?case
  proof (cases "i \<in> set (st_indexes (hd h))")
    case True
    then have step: "fold add_index (i # is) h = fold add_index is h" by (simp add: add_index_def)
    from Cons.IH [OF Cons.prems] obtain new where n: "set h \<subseteq> set (fold add_index is h)" "fold add_index is h \<noteq> []"
      "hd (fold add_index is h) = (hd h)\<lparr>st_indexes := st_indexes (hd h) @ new\<rparr>" "set is \<subseteq> set (st_indexes (hd h) @ new)" by blast
    then have "set (i # is) \<subseteq> set (st_indexes (hd h) @ new)" using True by auto
    with n show ?thesis unfolding step by blast
  next
    case False
    let ?h = "(hd h)\<lparr>st_indexes := st_indexes (hd h) @ [i]\<rparr> # h"
    from Cons.IH [of ?h] obtain new where n: "set ?h \<subseteq> set (fold add_index is ?h)" "fold add_index is ?h \<noteq> []"
      "hd (fold add_index is ?h) = (hd ?h)\<lparr>st_indexes := st_indexes (hd ?h) @ new\<rparr>" "set is \<subseteq> set (st_indexes (hd ?h) @ new)" by blast
    have step: "fold add_index (i # is) h = fold add_index is ?h" using False by (simp add: add_index_def)
    have "set h \<subseteq> set (fold add_index is ?h)" using n(1) by simp
    moreover have "hd (fold add_index is ?h) = (hd h)\<lparr>st_indexes := st_indexes (hd h) @ i # new\<rparr>" using n(3) by simp
    moreover have "set (i # is) \<subseteq> set (st_indexes (hd h) @ i # new)" using n(4) by auto
    ultimately show ?thesis unfolding step using n(2) by blast
  qed
qed

definition scans_after :: "state_store \<Rightarrow> scan_mark list" where
  "scans_after d = (if kg_new d then map restart_scan (st_scan d) else if threads_new d then map begin_rescan (st_scan d) else st_scan d)"

lemma migrated:
  "\<exists>new. hd (migrateState d) = \<lparr>st_columns = st_columns d @ missing d, st_scan = scans_after d, st_indexes = st_indexes d @ new,
      st_entities = filter (\<lambda>(ty, n). \<not> ((ty = ''project'' \<or> ty = ''topic'') \<and> placeholderSQL n)) (st_entities d)\<rparr> \<and>
    set stateIndexes \<subseteq> set (st_indexes d @ new) \<and> columns_added d \<in> set (migrateState d)"
proof -
  obtain h where h: "fold add_column stateColumns (False, False, [d]) = (kg_new d, threads_new d, h)" "h \<noteq> []" "hd h = columns_added d"
    by (rule columns_step)
  define m where "m = mark_scans (kg_new d) (threads_new d) h"
  have m: "m \<noteq> []" "hd m = (columns_added d)\<lparr>st_scan := scans_after d\<rparr>" "set h \<subseteq> set m"
    using h by (auto simp: m_def mark_scans_def scans_after_def columns_added_def)
  obtain new where n: "hd (fold add_index stateIndexes m) = (hd m)\<lparr>st_indexes := st_indexes (hd m) @ new\<rparr>"
    "set stateIndexes \<subseteq> set (st_indexes (hd m) @ new)" "set m \<subseteq> set (fold add_index stateIndexes m)"
    using add_indexes [OF m(1), of stateIndexes] by blast
  have "columns_added d \<in> set h" using h(2,3) hd_in_set by metis
  then have "columns_added d \<in> set (migrateState d)" using m(3) n(3) by (auto simp: migrateState_def h(1) m_def [symmetric] drop_placeholders_def)
  then show ?thesis using n m(2)
    by (intro exI [of _ new]) (simp add: migrateState_def h(1) m_def [symmetric] drop_placeholders_def columns_added_def)
qed

text \<open>A finished migration leaves every later column and index there and no placeholder among the graph's
  entities. Where the graph's columns were missing every folder is scanned from its beginning; where those of the
  conversations were, too, up to the furthest mark it had reached and with its profile usable meanwhile.
  Migrating again changes nothing.\<close>
theorem migration_completes:
  "let e = hd (migrateState d) in
   set stateColumns \<subseteq> set (st_columns e) \<and> set stateIndexes \<subseteq> set (st_indexes e) \<and>
   list_all (\<lambda>(ty, n). ty = ''project'' \<or> ty = ''topic'' \<longrightarrow> \<not> placeholderSQL n) (st_entities e) \<and>
   (if kg_new d then list_all (\<lambda>m. sk_last_uid m = 0 \<and> sk_completed m = None) (st_scan e)
    else if threads_new d then
      list_all2 (\<lambda>m m'. sk_completed m' = sk_completed m \<and> sk_last_uid m' = 0 \<and>
        (sk_last_uid m = 0 \<or> (case sk_rescan m' of None \<Rightarrow> False | Some n \<Rightarrow> sk_last_uid m \<le> n))) (st_scan d) (st_scan e)
    else st_scan e = st_scan d) \<and>
   hd (migrateState e) = e"
proof -
  obtain new where e: "hd (migrateState d) = \<lparr>st_columns = st_columns d @ missing d, st_scan = scans_after d, st_indexes = st_indexes d @ new,
      st_entities = filter (\<lambda>(ty, n). \<not> ((ty = ''project'' \<or> ty = ''topic'') \<and> placeholderSQL n)) (st_entities d)\<rparr>"
    "set stateIndexes \<subseteq> set (st_indexes d @ new)" using migrated [of d] by blast
  have cols: "set stateColumns \<subseteq> set (st_columns d @ missing d)" by (auto simp: missing_def)
  define e' where "e' = hd (migrateState d)"
  have sel: "st_columns e' = st_columns d @ missing d" "st_scan e' = scans_after d" "st_indexes e' = st_indexes d @ new"
    "st_entities e' = filter (\<lambda>(ty, n). \<not> ((ty = ''project'' \<or> ty = ''topic'') \<and> placeholderSQL n)) (st_entities d)"
    by (simp_all add: e'_def e(1))
  have none: "missing e' = []" using cols by (auto simp: missing_def sel filter_empty_conv)
  then have flags: "\<not> kg_new e'" "\<not> threads_new e'" by (simp_all add: kg_new_def threads_new_def)
  have idx: "fold add_index is h = h" if "set is \<subseteq> set (st_indexes (hd h))" for "is" h
    using that by (induction "is") (auto simp: add_index_def)
  obtain h where h: "fold add_column stateColumns (False, False, [e']) = (kg_new e', threads_new e', h)" "h \<noteq> []" "hd h = columns_added e'"
    by (rule columns_step)
  have hd_h: "hd h = e'" using h(3) none by (simp add: columns_added_def)
  have "fold add_index stateIndexes h = h" by (rule idx) (use e(2) sel(3) hd_h in simp)
  then have again: "hd (migrateState e') = e'"
    using flags h(1) hd_h sel(4) by (simp add: migrateState_def mark_scans_def drop_placeholders_def)
  have rescan: "list_all2 (\<lambda>m m'. sk_completed m' = sk_completed m \<and> sk_last_uid m' = 0 \<and>
        (sk_last_uid m = 0 \<or> (case sk_rescan m' of None \<Rightarrow> False | Some n \<Rightarrow> sk_last_uid m \<le> n))) ms (map begin_rescan ms)" for ms
    by (induction ms) (auto simp: begin_rescan_def Let_def split: option.splits)
  have restart: "list_all (\<lambda>m. sk_last_uid m = 0 \<and> sk_completed m = None) (map restart_scan ms)" for ms
    by (induction ms) (auto simp: restart_scan_def)
  have scans: "if kg_new d then list_all (\<lambda>m. sk_last_uid m = 0 \<and> sk_completed m = None) (st_scan e')
    else if threads_new d then
      list_all2 (\<lambda>m m'. sk_completed m' = sk_completed m \<and> sk_last_uid m' = 0 \<and>
        (sk_last_uid m = 0 \<or> (case sk_rescan m' of None \<Rightarrow> False | Some n \<Rightarrow> sk_last_uid m \<le> n))) (st_scan d) (st_scan e')
    else st_scan e' = st_scan d" using rescan [of "st_scan d"] restart [of "st_scan d"] by (simp add: sel scans_after_def)
  show ?thesis unfolding Let_def e'_def [symmetric]
    using cols e(2) scans again by (auto simp: sel list_all_iff)
qed

text \<open>C34: The columns are added and the scans marked in statements of their own, so a process killed in between
  leaves a database whose next migration, run to its end, never marks them: the conversations or the graph of an
  old database stay empty.\<close>
theorem killed_upgrade_forgets_rescan:
  "list_ex (\<lambda>g. set stateColumns \<subseteq> set (st_columns g) \<and> st_scan (hd (migrateState g)) = st_scan d) (migrateState d)"
proof -
  have c: "columns_added d \<in> set (migrateState d)" using migrated [of d] by blast
  have none: "missing (columns_added d) = []" by (auto simp: missing_def columns_added_def filter_empty_conv)
  obtain new where "st_scan (hd (migrateState (columns_added d))) = scans_after (columns_added d)"
    using migrated [of "columns_added d"] by auto
  moreover have "scans_after (columns_added d) = st_scan d"
    using none by (simp add: scans_after_def kg_new_def threads_new_def columns_added_def)
  moreover have "set stateColumns \<subseteq> set (st_columns (columns_added d))" by (auto simp: columns_added_def missing_def)
  ultimately show ?thesis using c by (auto simp: list_ex_iff)
qed

section \<open>The cache\<close>

lemma clear_hall_known: "clear_hall h \<in> set all_halls \<union> {[]}"
  by (simp add: clear_hall_def)

lemma unwrap_known: "h \<in> set all_halls \<union> {[]} \<Longrightarrow> unwrap_hall h = h"
  by (auto simp: all_halls_def) code_simp+

lemma placeholder_empty: "\<not> placeholderSQL []"
  by code_simp

lemma clean_row_ok:
  "m_hall (clean_row m) \<in> set all_halls \<union> {[]} \<and> \<not> placeholderSQL (m_wing (clean_row m)) \<and> \<not> placeholderSQL (m_room (clean_row m))"
  using clear_hall_known [of "unwrap_hall (m_hall m)"] placeholder_empty by (simp add: clean_row_def)

lemma clear_hall_idem: "clear_hall (unwrap_hall (clear_hall h)) = clear_hall h"
  unfolding unwrap_known [OF clear_hall_known] by (simp add: clear_hall_def)

lemma clean_row_idem: "clean_row (clean_row m) = clean_row m"
  by (simp add: clean_row_def clear_hall_idem placeholder_empty)

text \<open>Opening the cache keeps it well formed, leaves only known halls and no placeholder of the classifier, and keeps
  every message of a cache of this version; opening it again changes nothing.\<close>
theorem cache_schema_cleans:
  assumes "cache_wf (cs_db d)"
  shows "cache_wf (cs_db (ensureCacheSchema n d)) \<and>
    (\<forall>m\<in>set (messages (cs_db (ensureCacheSchema n d))). m_hall m \<in> set all_halls \<union> {[]} \<and> \<not> placeholderSQL (m_wing m) \<and> \<not> placeholderSQL (m_room m)) \<and>
    (cs_version d = cacheSchemaVersion \<longrightarrow> map msg_skel (messages (cs_db (ensureCacheSchema n d))) = map msg_skel (messages (cs_db d))) \<and>
    ensureCacheSchema n (ensureCacheSchema n d) = ensureCacheSchema n d"
proof -
  have wf: "cache_wf (rebuilt d)"
  proof -
    have "cache_skel (empty_cache\<lparr>db_now := t\<rparr>) = cache_skel empty_cache" for t by (simp add: cache_skel_def)
    then show ?thesis using assms cache_wf_cong [OF _ cache_wf_empty] by (simp add: rebuilt_def)
  qed
  have skel: "map msg_skel (map clean_row ms) = map msg_skel ms" for ms
    by (induction ms) (auto simp: msg_skel_def row_key_def clean_row_def)
  have "cache_skel ((rebuilt d)\<lparr>messages := map clean_row (messages (rebuilt d))\<rparr>) = cache_skel (rebuilt d)"
    using skel [of "messages (rebuilt d)"] by (simp add: cache_skel_def)
  then have "cache_wf (cs_db (ensureCacheSchema n d))" using wf cache_wf_cong by (simp add: ensureCacheSchema_def)
  moreover have "m_hall m \<in> set all_halls \<union> {[]} \<and> \<not> placeholderSQL (m_wing m) \<and> \<not> placeholderSQL (m_room m)"
    if "m \<in> set (messages (cs_db (ensureCacheSchema n d)))" for m
    using that clean_row_ok by (auto simp: ensureCacheSchema_def)
  moreover have "map msg_skel (messages (cs_db (ensureCacheSchema n d))) = map msg_skel (messages (cs_db d))" if "cs_version d = cacheSchemaVersion"
    using that skel by (simp add: ensureCacheSchema_def rebuilt_def)
  moreover have "ensureCacheSchema n (ensureCacheSchema n d) = ensureCacheSchema n d"
    by (simp add: ensureCacheSchema_def rebuilt_def comp_def clean_row_idem)
  ultimately show ?thesis by blast
qed

definition cached_mail :: msg_row where
  "cached_mail = \<lparr>m_id = 1, m_account = ''a'', m_folder = ''INBOX'', m_uid = 1, m_message_id = ''x'', m_thread_id = [], m_subject = [],
     m_from_addr = [], m_from_name = [], m_to = [], m_cc = [], m_reply_to = [], m_date = 0, m_internal_date = 0, m_flags = [], m_size = 0,
     m_body_text = [], m_body_html = [], m_body_skipped = False, m_has_attachments = False, m_attachments = [], m_status = StDone,
     m_error = [], m_hall = ''<Newsletter>'', m_wing = ''<topic>'', m_room = ''invoices''\<rparr>"

definition old_cache :: cache_store where
  "old_cache = \<lparr>cs_version = 3, cs_objects = 9, cs_db = empty_cache\<lparr>messages := [cached_mail], next_msg := 2\<rparr>\<rparr>"

theorem cache_schema_cleans_witness:
  "map (\<lambda>m. (m_id m, m_hall m, m_wing m, m_room m)) (messages (cs_db (ensureCacheSchema 9 old_cache))) = [(1, ''newsletter'', [], ''invoices'')] \<and>
   ensureCacheSchema 9 (ensureCacheSchema 9 old_cache) = ensureCacheSchema 9 old_cache"
proof -
  have "cache_wf (cs_db old_cache)"
    by (simp add: old_cache_def cache_wf_def msgs_wf_def refs_wf_def dedup_ok_def empty_cache_def cached_mail_def)
  from cache_schema_cleans [OF this] have "ensureCacheSchema 9 (ensureCacheSchema 9 old_cache) = ensureCacheSchema 9 old_cache" by blast
  moreover have "map (\<lambda>m. (m_id m, m_hall m, m_wing m, m_room m)) (messages (cs_db (ensureCacheSchema 9 old_cache))) = [(1, ''newsletter'', [], ''invoices'')]"
    by code_simp
  ultimately show ?thesis by blast
qed

text \<open>SQL's \<open>trim\<close> takes blanks only, so a placeholder that ends in another white space stays in the cache,
  although the classifier's answers are cleaned of it.\<close>

lemma tab_placeholder_stays:
  "clean_tag (''none'' @ [CHR 0x09]) = [] \<and> \<not> placeholderSQL (''none'' @ [CHR 0x09])"
  by code_simp

end
