(* ===== verification/Pool.thy ===== *)
theory Pool
  imports Bus
begin

text \<open>
  The pool of IMAP connections (\<open>internal/imap/pool.go\<close>). The network is a function of the number of the
  attempt: whether dialling and authenticating an account succeed then. A connection is the number of the
  attempt that made it. Every dial is recorded with its encryption and the credentials that followed.
\<close>

record imap_config =
  ic_Host :: string
  ic_Port :: int
  ic_TLS :: bool
  ic_StartTLS :: bool

record pool_account =
  pa_Name :: string
  pa_Default :: bool
  pa_IMAP :: imap_config

datatype dial_kind = DialTLS | DialInsecure
datatype connect_result = BadAuthConfig | DialError | AuthError | Connected

record dial_entry =
  de_Account :: string
  de_Kind :: dial_kind
  de_Addr :: string
  de_Auth :: bool   \<comment> \<open>credentials were sent\<close>

record pool =
  po_conns :: "string \<rightharpoonup> nat"
  po_cfg :: "pool_account list"
  po_attempts :: nat
  po_events :: "string event list"
  po_dials :: "dial_entry list"

definition NewPool :: "pool_account list \<Rightarrow> pool" where
  "NewPool cfg = \<lparr>po_conns = Map.empty, po_cfg = cfg, po_attempts = 0, po_events = [], po_dials = []\<rparr>"

definition imapPort :: "imap_config \<Rightarrow> int" where
  "imapPort c = (if ic_Port c \<noteq> 0 then ic_Port c else if ic_TLS c then 993 else if ic_StartTLS c then 143 else 143)"

type_synonym network = "nat \<Rightarrow> string \<Rightarrow> connect_result"

definition connect_account :: "network \<Rightarrow> pool_account \<Rightarrow> pool \<Rightarrow> nat option \<times> pool" where
  "connect_account net a p =
     (let n = po_attempts p; r = net n (pa_Name a); p1 = p\<lparr>po_attempts := n + 1\<rparr>;
          entry = \<lparr>de_Account = pa_Name a, de_Kind = (if ic_TLS (pa_IMAP a) then DialTLS else DialInsecure),
                   de_Addr = ic_Host (pa_IMAP a) @ '':'' @ show_int (imapPort (pa_IMAP a)), de_Auth = (r = AuthError \<or> r = Connected)\<rparr> in
      if r = BadAuthConfig then (None, p1)
      else (if r = Connected then Some n else None, p1\<lparr>po_dials := po_dials p @ [entry]\<rparr>))"

definition pool_event :: "event_type \<Rightarrow> string \<Rightarrow> pool \<Rightarrow> pool" where
  "pool_event t a p = p\<lparr>po_events := po_events p @ [\<lparr>ev_Type = t, ev_Account = a, ev_Payload = []\<rparr>]\<rparr>"

definition set_conn :: "string \<Rightarrow> nat \<Rightarrow> pool \<Rightarrow> pool" where
  "set_conn a c p = pool_event EventAccountConnected a (p\<lparr>po_conns := (po_conns p)(a \<mapsto> c)\<rparr>)"

definition connect_one :: "network \<Rightarrow> pool_account \<Rightarrow> pool \<Rightarrow> pool" where
  "connect_one net a p =
     (case connect_account net a p of
        (None, p1) \<Rightarrow> pool_event EventAccountError (pa_Name a) p1
      | (Some c, p1) \<Rightarrow> set_conn (pa_Name a) c p1)"

definition Connect :: "network \<Rightarrow> pool \<Rightarrow> pool" where
  "Connect net p = fold (connect_one net) (po_cfg p) p"

section \<open>Lookup\<close>

definition Get :: "pool \<Rightarrow> string \<Rightarrow> nat option" where
  "Get p a = po_conns p a"

text \<open>Without accounts the code panics; a loaded configuration has one.\<close>

definition Default :: "pool \<Rightarrow> nat option" where
  "Default p = (case find pa_Default (po_cfg p) of Some a \<Rightarrow> Get p (pa_Name a) | None \<Rightarrow> Get p (pa_Name (hd (po_cfg p))))"

definition Resolve :: "pool \<Rightarrow> string \<Rightarrow> nat option" where
  "Resolve p a = (if a = [] then Default p else Get p a)"

definition find_account :: "pool \<Rightarrow> string \<Rightarrow> pool_account option" where
  "find_account p a = find (\<lambda>x. pa_Name x = a) (po_cfg p)"

section \<open>Reconnecting\<close>

definition reconnectOnce :: "network \<Rightarrow> string \<Rightarrow> pool \<Rightarrow> pool" where
  "reconnectOnce net a p = (case find_account p a of None \<Rightarrow> p | Some x \<Rightarrow> connect_one net x p)"

text \<open>One tick: the accounts that have a connection, in any order, each replaced when its NOOP fails. The account
  is looked up again because another goroutine may have changed the pool.\<close>

definition keepalive_one :: "network \<Rightarrow> (nat \<Rightarrow> bool) \<Rightarrow> string \<Rightarrow> pool \<Rightarrow> pool" where
  "keepalive_one net alive a p =
     (case Get p a of None \<Rightarrow> p | Some c \<Rightarrow> if alive c then p else reconnectOnce net a p)"

definition keepalive_tick :: "network \<Rightarrow> (nat \<Rightarrow> bool) \<Rightarrow> string list \<Rightarrow> pool \<Rightarrow> pool" where
  "keepalive_tick net alive names p = fold (keepalive_one net alive) names p"

definition Probe :: "(nat \<Rightarrow> bool) \<Rightarrow> pool \<Rightarrow> string \<Rightarrow> bool" where
  "Probe alive p a = (case Get p a of None \<Rightarrow> False | Some c \<Rightarrow> alive c)"

text \<open>\<open>Reconnect\<close>: the waits in seconds, one before each attempt, and the pool; the fuel is the number of attempts
  until the context ends.\<close>

fun reconnect_loop :: "network \<Rightarrow> pool_account \<Rightarrow> nat \<Rightarrow> nat \<Rightarrow> pool \<Rightarrow> nat list \<times> pool" where
  "reconnect_loop net a 0 wait p = ([], p)"
| "reconnect_loop net a (Suc n) wait p =
     (case connect_account net a p of
        (None, p1) \<Rightarrow>
          (case reconnect_loop net a n (if wait < 300 then wait * 2 else wait) p1 of (ws, p2) \<Rightarrow> (wait # ws, p2))
      | (Some c, p1) \<Rightarrow> ([wait], set_conn (pa_Name a) c p1))"

definition Reconnect :: "network \<Rightarrow> string \<Rightarrow> nat \<Rightarrow> pool \<Rightarrow> nat list \<times> pool" where
  "Reconnect net a n p = (case find_account p a of None \<Rightarrow> ([], p) | Some x \<Rightarrow> reconnect_loop net x n 1 p)"

section \<open>What holds\<close>

lemma connect_account_sel [simp]:
  "po_conns (snd (connect_account net a p)) = po_conns p" "po_cfg (snd (connect_account net a p)) = po_cfg p"
  "po_attempts (snd (connect_account net a p)) = po_attempts p + 1"
  by (simp_all add: connect_account_def Let_def)

lemma connect_one_cfg [simp]: "po_cfg (connect_one net a p) = po_cfg p"
proof -
  obtain c p1 where c: "connect_account net a p = (c, p1)" by fastforce
  then have "po_cfg p1 = po_cfg p" using connect_account_sel(2) [of net a p] by simp
  with c show ?thesis by (cases c) (simp_all add: connect_one_def pool_event_def set_conn_def)
qed

lemma connect_one_conns:
  "po_conns (connect_one net a p) = (if net (po_attempts p) (pa_Name a) = Connected then (po_conns p)(pa_Name a \<mapsto> po_attempts p) else po_conns p)"
  by (simp add: connect_one_def connect_account_def pool_event_def set_conn_def Let_def)

lemma reconnectOnce_dom: "po_conns p a \<noteq> None \<Longrightarrow> dom (po_conns (reconnectOnce net a p)) = dom (po_conns p)"
  by (auto simp: reconnectOnce_def connect_one_conns find_account_def find_Some_iff split: option.splits)

lemma keepalive_one_dom: "dom (po_conns (keepalive_one net alive a p)) = dom (po_conns p) \<and> po_cfg (keepalive_one net alive a p) = po_cfg p"
proof (cases "Get p a")
  case None
  then show ?thesis by (simp add: keepalive_one_def)
next
  case (Some c)
  then have "po_conns p a \<noteq> None" by (simp add: Get_def)
  then have "dom (po_conns (reconnectOnce net a p)) = dom (po_conns p)" by (rule reconnectOnce_dom)
  with Some show ?thesis by (auto simp: keepalive_one_def reconnectOnce_def split: option.splits)
qed

text \<open>C31: Whatever the ticks find, the accounts of the pool stay the same: an account that could not be connected at the
  start never is.\<close>
theorem down_at_start_stays_down:
  assumes "Get (Connect net p) a = None"
  shows "Get (fold (\<lambda>(net, alive, names). keepalive_tick net alive names) ticks (Connect net p)) a = None"
proof -
  have tick: "dom (po_conns (keepalive_tick net alive names q)) = dom (po_conns q)" for net alive names q
    unfolding keepalive_tick_def by (induction names arbitrary: q) (simp_all add: keepalive_one_dom)
  have "dom (po_conns (fold (\<lambda>(net, alive, names). keepalive_tick net alive names) ticks q)) = dom (po_conns q)" for q
  proof (induction ticks arbitrary: q)
    case (Cons t ticks)
    show ?case by (cases t) (simp only: fold.simps comp_def Cons.IH prod.case tick)
  qed simp
  with assms show ?thesis unfolding Get_def by (metis domIff)
qed

definition two_accounts :: "pool_account list" where
  "two_accounts = map (\<lambda>n. \<lparr>pa_Name = n, pa_Default = False, pa_IMAP = \<lparr>ic_Host = ''mail'', ic_Port = 0, ic_TLS = True, ic_StartTLS = False\<rparr>\<rparr>) [''a'', ''b'']"

text \<open>The server of the second account is down at the start only.\<close>

definition late_server :: network where
  "late_server n a = (if n = 1 then DialError else Connected)"

theorem down_at_start_stays_down_witness:
  "Get (Connect late_server (NewPool two_accounts)) ''a'' = Some 0 \<and>
   Get (fold (\<lambda>(net, alive, names). keepalive_tick net alive names) (replicate 1000 (late_server, \<lambda>_. False, [''a'', ''b'']))
     (Connect late_server (NewPool two_accounts))) ''b'' = None"
proof -
  have "Get (Connect late_server (NewPool two_accounts)) ''a'' = Some 0" "Get (Connect late_server (NewPool two_accounts)) ''b'' = None"
    by code_simp+
  then show ?thesis using down_at_start_stays_down [of late_server "NewPool two_accounts" "''b''"] by blast
qed

text \<open>Once the pool holds an account, a tick that finds its connection dead replaces it as soon as the server answers.\<close>

lemma keepalive_heals:
  assumes "Get p a = Some c" and "\<not> alive c" and "find_account p a \<noteq> None" and "net (po_attempts p) a = Connected"
  shows "Get (keepalive_one net alive a p) a = Some (po_attempts p)"
proof -
  obtain x where x: "find_account p a = Some x" using assms(3) by blast
  then have "pa_Name x = a" by (simp add: find_account_def find_Some_iff) blast
  with assms x show ?thesis by (simp add: keepalive_one_def reconnectOnce_def Get_def connect_one_conns)
qed

lemma connect_dials:
  "po_dials (connect_one net a p) = po_dials p @ (if net (po_attempts p) (pa_Name a) = BadAuthConfig then [] else
     [\<lparr>de_Account = pa_Name a, de_Kind = (if ic_TLS (pa_IMAP a) then DialTLS else DialInsecure),
       de_Addr = ic_Host (pa_IMAP a) @ '':'' @ show_int (imapPort (pa_IMAP a)),
       de_Auth = (net (po_attempts p) (pa_Name a) = AuthError \<or> net (po_attempts p) (pa_Name a) = Connected)\<rparr>])"
  by (simp add: connect_one_def connect_account_def pool_event_def set_conn_def Let_def)

text \<open>The flag for STARTTLS chooses a port and nothing else: such an account's credentials go over a connection that
  is not encrypted.\<close>
theorem starttls_is_not_encrypted:
  "po_dials (connect_one (\<lambda>_ _. Connected) \<lparr>pa_Name = ''a'', pa_Default = True,
      pa_IMAP = \<lparr>ic_Host = ''mail'', ic_Port = 0, ic_TLS = False, ic_StartTLS = True\<rparr>\<rparr> (NewPool [])) =
   [\<lparr>de_Account = ''a'', de_Kind = DialInsecure, de_Addr = ''mail:143'', de_Auth = True\<rparr>]"
  by code_simp

text \<open>The wait before an attempt doubles from one second until it has passed five minutes.\<close>

lemma reconnect_waits: "wait \<in> {1, 2, 4, 8, 16, 32, 64, 128, 256, 512} \<Longrightarrow> list_all (\<lambda>w. w \<le> 512) (fst (reconnect_loop net a n wait p))"
proof (induction net a n wait p rule: reconnect_loop.induct)
  case (2 net a n wait p)
  obtain c p1 where c: "connect_account net a p = (c, p1)" by fastforce
  show ?case
  proof (cases c)
    case None
    have "(if wait < 300 then wait * 2 else wait) \<in> {1, 2, 4, 8, 16, 32, 64, 128, 256, 512}" using 2(2) by auto
    with 2 c None have "list_all (\<lambda>w. w \<le> 512) (fst (reconnect_loop net a n (if wait < 300 then wait * 2 else wait) p1))" by simp
    with None c 2(2) show ?thesis by (auto split: prod.splits)
  next
    case (Some d)
    with c 2(2) show ?thesis by auto
  qed
qed simp

end
