(* ===== verification/Smtp.thy ===== *)
theory Smtp
  imports Imap_Prelude
begin

text \<open>
  Outgoing mail (\<open>internal/smtp/smtp.go\<close>, \<open>internal/service/send.go\<close>): the checks of the recipients, the message
  that is built, and the SMTP session up to its first failure, over implicit TLS or as \<open>smtp.SendMail\<close>
  of the standard library runs it. The server's answers, \<open>mail.ParseAddress\<close> and the text of the date are
  parameters.
\<close>

section \<open>Sending for one account\<close>

record smtp_config =
  sc_Host :: string
  sc_Port :: int
  sc_TLS :: bool
  sc_Username :: string
  sc_Password :: string
  sc_From :: string

record out_message =
  om_To :: "string list"
  om_Cc :: "string list"
  om_Subject :: string
  om_Body :: string

datatype sender_error = NotConfigured | HostMissing | FromMissing

definition NewSender :: "smtp_config option \<Rightarrow> sender_error + smtp_config" where
  "NewSender c =
     (case c of
        None \<Rightarrow> Inl NotConfigured
      | Some s \<Rightarrow> if sc_Host s = [] then Inl HostMissing else if sc_From s = [] then Inl FromMissing else Inr s)"

abbreviation cr :: char where "cr \<equiv> CHR 0x0D"
abbreviation lf :: char where "lf \<equiv> CHR 0x0A"

definition crlf :: string where "crlf = [cr, lf]"

definition sanitizeHeader :: "string \<Rightarrow> string" where
  "sanitizeHeader s = map (\<lambda>c. if c = cr \<or> c = lf then CHR '' '' else c) s"

text \<open>The address inside the last angle brackets.\<close>

definition fromAddr :: "string \<Rightarrow> string" where
  "fromAddr from =
     (case last_index_char from (CHR ''<'') of
        None \<Rightarrow> trim_space from
      | Some lt \<Rightarrow>
          (case str_index (drop lt from) ''>'' of
             None \<Rightarrow> trim_space from
           | Some gt \<Rightarrow> take (gt - 1) (drop (lt + 1) from)))"

definition field_lines :: "smtp_config \<Rightarrow> string \<Rightarrow> out_message \<Rightarrow> string list" where
  "field_lines c date m =
     [''From: '' @ sc_From c, ''To: '' @ str_join '', '' (om_To m)] @
     (if om_Cc m = [] then [] else [''Cc: '' @ str_join '', '' (om_Cc m)]) @
     [''Subject: '' @ sanitizeHeader (om_Subject m), ''Date: '' @ date, ''MIME-Version: 1.0'', ''Content-Type: text/plain; charset=UTF-8'']"

definition build :: "smtp_config \<Rightarrow> string \<Rightarrow> out_message \<Rightarrow> string" where
  "build c date m = concat (map (\<lambda>h. h @ crlf) (field_lines c date m)) @ crlf @ replace_all [lf] crlf (om_Body m)"

section \<open>The session\<close>

datatype smtp_step = TlsDial | TcpDial | UpgradeTLS | AuthPlain | MailFrom string | Rcpt string | Data string | Quit

record smtp_server =
  sv_ok :: "smtp_step \<Rightarrow> bool"
  sv_ehlo :: bool
  sv_starttls :: bool
  sv_auth :: bool

text \<open>The steps tried, the first that fails the last.\<close>

fun run_steps :: "(smtp_step \<Rightarrow> bool) \<Rightarrow> smtp_step list \<Rightarrow> bool \<times> smtp_step list" where
  "run_steps ok [] = (True, [])"
| "run_steps ok (s # ss) = (if ok s then (case run_steps ok ss of (r, t) \<Rightarrow> (r, s # t)) else (False, [s]))"

definition deliver_steps :: "string \<Rightarrow> string list \<Rightarrow> string \<Rightarrow> smtp_step list" where
  "deliver_steps from rcpts raw = [MailFrom from] @ map Rcpt rcpts @ [Data raw, Quit]"

definition sendImplicitTLS :: "smtp_server \<Rightarrow> bool \<Rightarrow> string \<Rightarrow> string list \<Rightarrow> string \<Rightarrow> bool \<times> smtp_step list" where
  "sendImplicitTLS v auth from rcpts raw =
     run_steps (sv_ok v) ([TlsDial] @ (if auth then [AuthPlain] else []) @ deliver_steps from rcpts raw)"

definition is_localhost :: "string \<Rightarrow> bool" where
  "is_localhost h = (h = ''localhost'' \<or> h = ''127.0.0.1'' \<or> h = ''::1'')"

text \<open>\<open>smtp.SendMail\<close>: STARTTLS when the server offers it; a password is refused to a server that offers no
  authentication, and \<open>PlainAuth\<close> refuses to send it unencrypted to another machine.\<close>

definition sendMail :: "smtp_server \<Rightarrow> bool \<Rightarrow> string \<Rightarrow> string \<Rightarrow> string list \<Rightarrow> string \<Rightarrow> bool \<times> smtp_step list" where
  "sendMail v auth host from rcpts raw =
     (if list_ex (\<lambda>a. cr \<in> set a \<or> lf \<in> set a) (from # rcpts) then (False, [])
      else (let tls = (sv_ehlo v \<and> sv_starttls v); start = [TcpDial] @ (if tls then [UpgradeTLS] else []) in
        if auth \<and> sv_ehlo v then
          (if sv_auth v \<and> (tls \<or> is_localhost host) then run_steps (sv_ok v) (start @ [AuthPlain] @ deliver_steps from rcpts raw)
           else (case run_steps (sv_ok v) start of (r, t) \<Rightarrow> (False, t)))
        else run_steps (sv_ok v) (start @ deliver_steps from rcpts raw)))"

definition one_line :: "string \<Rightarrow> bool" where
  "one_line s = (cr \<notin> set s \<and> lf \<notin> set s)"

definition Sender_Send :: "smtp_server \<Rightarrow> string \<Rightarrow> smtp_config \<Rightarrow> out_message \<Rightarrow> bool \<times> smtp_step list" where
  "Sender_Send v date c m =
     (if om_To m = [] then (False, [])
      else if \<not> list_all one_line (sc_From c # om_To m @ om_Cc m) then (False, [])
      else (let raw = build c date m; rcpts = om_To m @ om_Cc m; auth = (sc_Password c \<noteq> []); from = fromAddr (sc_From c) in
        if sc_TLS c then sendImplicitTLS v auth from rcpts raw else sendMail v auth (sc_Host c) from rcpts raw))"

section \<open>The service\<close>

record send_params =
  sp_Account :: string
  sp_To :: string
  sp_Cc :: string
  sp_Subject :: string
  sp_Body :: string

record out_account =
  oa_Name :: string
  oa_Default :: bool
  oa_Username :: string
  oa_Password :: string
  oa_SMTP :: "smtp_config option"

datatype send_error = MissingField | NoSuchAccount | ReceiveOnly | SetupFailed sender_error | BadRecipient string | SendFailed

record send_result =
  sr_From :: string
  sr_Account :: string
  sr_To :: "string list"

definition ResolvedSMTP :: "out_account \<Rightarrow> smtp_config option" where
  "ResolvedSMTP a =
     map_option (\<lambda>s. s\<lparr>sc_Username := (if sc_Username s = [] then oa_Username a else sc_Username s),
       sc_Password := (if sc_Password s = [] then oa_Password a else sc_Password s),
       sc_From := (if sc_From s = [] then oa_Username a else sc_From s),
       sc_Port := (if sc_Port s = 0 then (if sc_TLS s then 465 else 587) else sc_Port s)\<rparr>) (oa_SMTP a)"

text \<open>A loaded configuration has an account.\<close>

definition DefaultAccount :: "out_account list \<Rightarrow> out_account" where
  "DefaultAccount as = (case find oa_Default as of Some a \<Rightarrow> a | None \<Rightarrow> hd as)"

definition splitAddrs :: "string \<Rightarrow> string list" where
  "splitAddrs s = filter (\<lambda>p. p \<noteq> []) (map trim_space (split_on (CHR '','') s))"

definition validRecipient :: "(string \<Rightarrow> string option) \<Rightarrow> string \<Rightarrow> bool" where
  "validRecipient parse s =
     (case parse s of
        None \<Rightarrow> False
      | Some a \<Rightarrow> (case last_index_char a (CHR ''@'') of None \<Rightarrow> False | Some i \<Rightarrow> i > 0 \<and> CHR ''.'' \<in> set (drop (i + 1) a)))"

definition send_account :: "out_account list \<Rightarrow> string \<Rightarrow> out_account option" where
  "send_account as n = (if n \<noteq> [] \<and> n \<noteq> ''_default'' then find (\<lambda>a. oa_Name a = n) as else Some (DefaultAccount as))"

definition Send ::
  "(string \<Rightarrow> string option) \<Rightarrow> smtp_server \<Rightarrow> string \<Rightarrow> out_account list \<Rightarrow> send_params \<Rightarrow> (send_error + send_result) \<times> smtp_step list" where
  "Send parse v date as p =
     (if sp_To p = [] \<or> sp_Subject p = [] \<or> sp_Body p = [] then (Inl MissingField, [])
      else (case send_account as (sp_Account p) of
          None \<Rightarrow> (Inl NoSuchAccount, [])
        | Some a \<Rightarrow>
            (case ResolvedSMTP a of
               None \<Rightarrow> (Inl ReceiveOnly, [])
             | Some c \<Rightarrow>
                 (case NewSender (Some c) of
                    Inl e \<Rightarrow> (Inl (SetupFailed e), [])
                  | Inr c \<Rightarrow>
                      (let m = \<lparr>om_To = splitAddrs (sp_To p), om_Cc = splitAddrs (sp_Cc p), om_Subject = sp_Subject p, om_Body = sp_Body p\<rparr> in
                       case find (\<lambda>x. \<not> validRecipient parse x) (om_To m @ om_Cc m) of
                         Some x \<Rightarrow> (Inl (BadRecipient x), [])
                       | None \<Rightarrow>
                           (case Sender_Send v date c m of
                              (ok, t) \<Rightarrow> (if ok then Inr \<lparr>sr_From = sc_From c, sr_Account = oa_Name a, sr_To = om_To m\<rparr> else Inl SendFailed, t)))))))"

end
