(* ===== verification/Smtp_Props.thy ===== *)
theory Smtp_Props
  imports Smtp
begin

text \<open>
  No field of an outgoing message adds a header, a password only travels encrypted, and only checked recipients
  are named - though not always in a form a server takes.
\<close>

section \<open>Reading a message\<close>

fun take_line :: "string \<Rightarrow> string \<times> string option" where
  "take_line [] = ([], None)"
| "take_line [c] = ([c], None)"
| "take_line (c # d # s) = (if c = cr \<and> d = lf then ([], Some s) else apfst (Cons c) (take_line (d # s)))"

lemma take_line_shorter: "snd (take_line s) = Some r \<Longrightarrow> length r < length s"
  by (induction s rule: take_line.induct) (auto split: if_splits)

lemma take_line_shrinks: "(l, Some r) = take_line s \<Longrightarrow> length r < length s"
  by (rule take_line_shorter) (metis snd_conv)

text \<open>The header fields up to the blank line, and the body.\<close>

function header_block :: "string \<Rightarrow> string list \<times> string" where
  "header_block s =
     (case take_line s of
        (l, None) \<Rightarrow> ([], s)
      | (l, Some r) \<Rightarrow> if l = [] then ([], r) else (case header_block r of (hs, b) \<Rightarrow> (l # hs, b)))"
  by pat_completeness auto
termination
  by (relation "measure length") (simp_all add: take_line_shrinks)

declare header_block.simps [simp del]

lemma take_line_crlf: "cr \<notin> set l \<Longrightarrow> take_line (l @ crlf @ s) = (l, Some s)"
proof (induction l)
  case (Cons c l)
  then have t: "take_line (l @ crlf @ s) = (l, Some s)" by simp
  obtain d r where d: "l @ crlf @ s = d # r" by (cases "l @ crlf @ s") (auto simp: crlf_def)
  have "take_line (c # d # r) = (c # l, Some s)" using t Cons.prems by (auto simp: d)
  then show ?case using d by simp
qed (simp add: crlf_def)

lemma header_block_built:
  "list_all (\<lambda>h. h \<noteq> [] \<and> cr \<notin> set h) hs \<Longrightarrow> header_block (concat (map (\<lambda>h. h @ crlf) hs) @ crlf @ b) = (hs, b)"
proof (induction hs)
  case Nil
  have "take_line (crlf @ b) = ([], Some b)" using take_line_crlf [of "[]"] by simp
  then show ?case by (simp add: header_block.simps)
next
  case (Cons h hs)
  have "take_line (h @ crlf @ concat (map (\<lambda>h. h @ crlf) hs) @ crlf @ b) = (h, Some (concat (map (\<lambda>h. h @ crlf) hs) @ crlf @ b))"
    using Cons.prems by (intro take_line_crlf) simp
  with Cons show ?case by (subst header_block.simps) simp
qed

lemma cr_join: "list_all (\<lambda>x. cr \<notin> set x) xs \<Longrightarrow> cr \<notin> set (str_join '', '' xs)"
  using set_str_join [of "'', ''" xs] by (auto simp: list_all_iff)

lemma field_lines_ok:
  assumes "list_all one_line (sc_From c # om_To m @ om_Cc m)" and "cr \<notin> set date"
  shows "list_all (\<lambda>h. h \<noteq> [] \<and> cr \<notin> set h) (field_lines c date m)"
proof -
  have "cr \<notin> set (str_join '', '' (om_To m))" "cr \<notin> set (str_join '', '' (om_Cc m))"
    using assms(1) by (auto simp: list_all_iff one_line_def intro!: cr_join)
  moreover have "cr \<notin> set (sanitizeHeader s)" for s by (auto simp: sanitizeHeader_def)
  ultimately show ?thesis using assms by (simp add: field_lines_def one_line_def)
qed

section \<open>Sessions\<close>

lemma run_steps_prefix: "\<exists>n. snd (run_steps ok ss) = take n ss"
proof (induction ss)
  case (Cons s ss)
  then obtain n where n: "snd (run_steps ok ss) = take n ss" by blast
  show ?case
  proof (cases "ok s")
    case True
    with n show ?thesis by (intro exI [of _ "Suc n"]) (simp add: case_prod_beta)
  next
    case False
    then show ?thesis by (intro exI [of _ 1]) simp
  qed
qed simp

lemma run_steps_in: "x \<in> set (snd (run_steps ok ss)) \<Longrightarrow> x \<in> set ss"
  using run_steps_prefix [of ok ss] by (auto dest: in_set_takeD)

text \<open>Every session is a beginning of one of these.\<close>

definition session_plan :: "smtp_config \<Rightarrow> string \<Rightarrow> out_message \<Rightarrow> bool \<Rightarrow> bool \<Rightarrow> smtp_step list" where
  "session_plan c date m tls auth =
     (if sc_TLS c then [TlsDial] else [TcpDial] @ (if tls then [UpgradeTLS] else [])) @ (if auth then [AuthPlain] else []) @
     deliver_steps (fromAddr (sc_From c)) (om_To m @ om_Cc m) (build c date m)"

lemma take_start: "take k xs = take (min k (length xs)) (xs @ ys)"
  by (simp add: min_def)

lemma sendMail_plan:
  fixes "from" :: string and rcpts :: "string list" and raw :: string
  defines "d \<equiv> deliver_steps from rcpts raw" and "start \<equiv> \<lambda>tls. [TcpDial] @ (if tls then [UpgradeTLS] else [])"
  shows "snd (sendMail v auth host from rcpts raw) = [] \<or>
    (\<exists>tls n. snd (sendMail v auth host from rcpts raw) = take n (start tls @ [AuthPlain] @ d) \<and> (tls \<or> is_localhost host)) \<or>
    (\<exists>tls n. snd (sendMail v auth host from rcpts raw) = take n (start tls @ d))"
proof -
  let ?tls = "sv_ehlo v \<and> sv_starttls v"
  let ?bad = "list_ex (\<lambda>a. cr \<in> set a \<or> lf \<in> set a) (from # rcpts)"
  let ?go = "sv_auth v \<and> (?tls \<or> is_localhost host)"
  have run: "\<exists>n. snd (run_steps (sv_ok v) xs) = take n xs" for xs by (rule run_steps_prefix)
  consider "?bad" | "\<not> ?bad" "auth \<and> sv_ehlo v" "?go" | "\<not> ?bad" "auth \<and> sv_ehlo v" "\<not> ?go" | "\<not> ?bad" "\<not> (auth \<and> sv_ehlo v)" by blast
  then show ?thesis
  proof cases
    case 1
    then show ?thesis unfolding sendMail_def by (simp only: if_True snd_conv simp_thms)
  next
    case 2
    then have "sendMail v auth host from rcpts raw = run_steps (sv_ok v) (start ?tls @ [AuthPlain] @ d)"
      unfolding sendMail_def Let_def d_def start_def by (simp only: if_True if_False simp_thms)
    with run [of "start ?tls @ [AuthPlain] @ d"] 2(3) show ?thesis by metis
  next
    case 3
    then have "snd (sendMail v auth host from rcpts raw) = snd (run_steps (sv_ok v) (start ?tls))"
      unfolding sendMail_def Let_def start_def by (simp only: if_True if_False simp_thms case_prod_beta snd_conv)
    moreover obtain k where "snd (run_steps (sv_ok v) (start ?tls)) = take k (start ?tls)" using run by blast
    ultimately show ?thesis using take_start [of k "start ?tls" d] by metis
  next
    case 4
    then have "sendMail v auth host from rcpts raw = run_steps (sv_ok v) (start ?tls @ d)"
      unfolding sendMail_def Let_def d_def start_def by (simp only: if_True if_False simp_thms)
    with run [of "start ?tls @ d"] show ?thesis by metis
  qed
qed

lemma Sender_Send_plan:
  "snd (Sender_Send v date c m) = [] \<or>
   (list_all one_line (sc_From c # om_To m @ om_Cc m) \<and>
    (\<exists>tls auth n. snd (Sender_Send v date c m) = take n (session_plan c date m tls auth) \<and>
       (auth \<longrightarrow> sc_TLS c \<or> tls \<or> is_localhost (sc_Host c))))"
proof (cases "om_To m = [] \<or> \<not> list_all one_line (sc_From c # om_To m @ om_Cc m)")
  case True
  then have "Sender_Send v date c m = (False, [])"
    unfolding Sender_Send_def by (cases "om_To m = []") (simp_all only: if_True if_False simp_thms refl)
  then show ?thesis by simp
next
  case False
  let ?from = "fromAddr (sc_From c)" and ?rcpts = "om_To m @ om_Cc m" and ?raw = "build c date m" and ?auth = "sc_Password c \<noteq> []"
  have eq: "Sender_Send v date c m = (if sc_TLS c then sendImplicitTLS v ?auth ?from ?rcpts ?raw else sendMail v ?auth (sc_Host c) ?from ?rcpts ?raw)"
  proof -
    have "(om_To m = []) = False" "(\<not> list_all one_line (sc_From c # om_To m @ om_Cc m)) = False" using False by blast+
    then show ?thesis unfolding Sender_Send_def Let_def by (simp only: if_False)
  qed
  show ?thesis
  proof (cases "sc_TLS c")
    case True
    obtain n where "snd (sendImplicitTLS v ?auth ?from ?rcpts ?raw) = take n (session_plan c date m False ?auth)"
      using run_steps_prefix [of "sv_ok v" "session_plan c date m False ?auth"] True by (auto simp: sendImplicitTLS_def session_plan_def)
    then show ?thesis using False True eq by auto
  next
    case nt: False
    let ?start = "\<lambda>tls. [TcpDial] @ (if tls then [UpgradeTLS] else [])" and ?d = "deliver_steps ?from ?rcpts ?raw"
    let ?t = "snd (sendMail v ?auth (sc_Host c) ?from ?rcpts ?raw)"
    from sendMail_plan [of v ?auth "sc_Host c" ?from ?rcpts ?raw]
    consider (none) "?t = []" | (auth) tls n where "?t = take n (?start tls @ [AuthPlain] @ ?d)" "tls \<or> is_localhost (sc_Host c)"
      | (noauth) tls n where "?t = take n (?start tls @ ?d)" by blast
    then show ?thesis
    proof cases
      case none
      then show ?thesis using eq nt by simp
    next
      case (auth tls n)
      then have "snd (Sender_Send v date c m) = take n (session_plan c date m tls True)" using eq nt by (simp add: session_plan_def)
      then show ?thesis using auth(2) False by blast
    next
      case (noauth tls n)
      then have "snd (Sender_Send v date c m) = take n (session_plan c date m tls False)" using eq nt by (simp add: session_plan_def)
      then show ?thesis using False by blast
    qed
  qed
qed

section \<open>What a session shows\<close>

lemma plan_data: "Data raw \<in> set (session_plan c date m tls auth) \<Longrightarrow> raw = build c date m"
  by (auto simp: session_plan_def deliver_steps_def split: if_splits)

lemma plan_rcpt: "Rcpt a \<in> set (session_plan c date m tls auth) \<Longrightarrow> a \<in> set (om_To m @ om_Cc m)"
  by (auto simp: session_plan_def deliver_steps_def split: if_splits)

definition to_send :: "send_params \<Rightarrow> out_message" where
  "to_send p = \<lparr>om_To = splitAddrs (sp_To p), om_Cc = splitAddrs (sp_Cc p), om_Subject = sp_Subject p, om_Body = sp_Body p\<rparr>"

definition sending_config :: "out_account list \<Rightarrow> send_params \<Rightarrow> smtp_config option" where
  "sending_config as p = (case send_account as (sp_Account p) of None \<Rightarrow> None | Some a \<Rightarrow> ResolvedSMTP a)"

lemma NewSender_id: "NewSender (Some c) = Inr c' \<Longrightarrow> c' = c"
  by (simp add: NewSender_def split: if_splits)

lemma Send_delivers:
  "snd (Send parse v date as p) = [] \<or>
   (\<exists>c. sending_config as p = Some c \<and> list_all (validRecipient parse) (om_To (to_send p) @ om_Cc (to_send p)) \<and>
      snd (Send parse v date as p) = snd (Sender_Send v date c (to_send p)))"
proof (cases "(sp_To p = [] \<or> sp_Subject p = [] \<or> sp_Body p = []) \<or> sending_config as p = None")
  case True
  then show ?thesis by (auto simp: Send_def sending_config_def split: option.splits)
next
  case False
  then obtain a c where a: "send_account as (sp_Account p) = Some a" "ResolvedSMTP a = Some c"
    by (auto simp: sending_config_def split: option.splits)
  show ?thesis
  proof (cases "NewSender (Some c)")
    case (Inl e)
    with a show ?thesis by (simp add: Send_def)
  next
    case (Inr c')
    then have c': "c' = c" by (rule NewSender_id)
    show ?thesis
    proof (cases "find (\<lambda>x. \<not> validRecipient parse x) (om_To (to_send p) @ om_Cc (to_send p))")
      case None
      then have "list_all (validRecipient parse) (om_To (to_send p) @ om_Cc (to_send p))" by (auto simp: find_None_iff list_all_iff)
      moreover have "snd (Send parse v date as p) = snd (Sender_Send v date c (to_send p))"
        using a Inr None False by (simp add: Send_def Let_def c' to_send_def [symmetric] case_prod_beta)
      ultimately show ?thesis using a by (simp add: sending_config_def)
    next
      case (Some x)
      with a Inr False show ?thesis by (simp add: Send_def Let_def to_send_def [symmetric])
    qed
  qed
qed

lemma before_in_take: "x \<notin> set pre \<Longrightarrow> x \<in> set (take n (pre @ x # post)) \<Longrightarrow> set pre \<subseteq> set (take n (pre @ x # post))"
  by (cases "n \<le> length pre") (auto dest: in_set_takeD)

lemma plan_auth:
  assumes "AuthPlain \<in> set (take n (session_plan c date m tls auth))" and "auth \<longrightarrow> sc_TLS c \<or> tls \<or> is_localhost (sc_Host c)"
  shows "TlsDial \<in> set (take n (session_plan c date m tls auth)) \<or> UpgradeTLS \<in> set (take n (session_plan c date m tls auth)) \<or> is_localhost (sc_Host c)"
proof -
  let ?pre = "if sc_TLS c then [TlsDial] else [TcpDial] @ (if tls then [UpgradeTLS] else [])"
  have auth using in_set_takeD [OF assms(1)] by (auto simp: session_plan_def deliver_steps_def split: if_splits)
  then obtain post where plan: "session_plan c date m tls auth = ?pre @ AuthPlain # post" by (simp add: session_plan_def)
  have "set ?pre \<subseteq> set (take n (?pre @ AuthPlain # post))" using assms(1) unfolding plan by (intro before_in_take) (auto split: if_splits)
  then show ?thesis using assms(2) \<open>auth\<close> unfolding plan by (auto split: if_splits)
qed

text \<open>C23: Whatever stands in the fields, the message that reaches the server has exactly the header fields the code writes,
  one line each; every recipient named to the server is a single line that passed the check of addresses; and the
  password is sent over TLS, after STARTTLS, or to the same machine.\<close>
theorem sending_is_contained:
  assumes "cr \<notin> set date"
  shows "list_all (\<lambda>s. case s of
      Data raw \<Rightarrow> (case sending_config as p of None \<Rightarrow> False | Some c \<Rightarrow> fst (header_block raw) = field_lines c date (to_send p))
    | Rcpt a \<Rightarrow> one_line a \<and> validRecipient parse a \<and> a \<in> set (splitAddrs (sp_To p) @ splitAddrs (sp_Cc p))
    | AuthPlain \<Rightarrow> TlsDial \<in> set (snd (Send parse v date as p)) \<or> UpgradeTLS \<in> set (snd (Send parse v date as p)) \<or>
        (case sending_config as p of None \<Rightarrow> False | Some c \<Rightarrow> is_localhost (sc_Host c))
    | _ \<Rightarrow> True) (snd (Send parse v date as p))"
proof (cases "snd (Send parse v date as p) = []")
  case True
  then show ?thesis by simp
next
  case False
  with Send_delivers [of parse v date as p] obtain c where c: "sending_config as p = Some c"
    "list_all (validRecipient parse) (om_To (to_send p) @ om_Cc (to_send p))"
    "snd (Send parse v date as p) = snd (Sender_Send v date c (to_send p))" by blast
  with False Sender_Send_plan [of v date c "to_send p"] obtain tls auth n where t:
    "list_all one_line (sc_From c # om_To (to_send p) @ om_Cc (to_send p))"
    "snd (Send parse v date as p) = take n (session_plan c date (to_send p) tls auth)" "auth \<longrightarrow> sc_TLS c \<or> tls \<or> is_localhost (sc_Host c)"
    by auto
  have head: "fst (header_block (build c date (to_send p))) = field_lines c date (to_send p)"
    unfolding build_def using header_block_built [OF field_lines_ok [OF t(1) assms]] by simp
  have rc: "om_To (to_send p) = splitAddrs (sp_To p)" "om_Cc (to_send p) = splitAddrs (sp_Cc p)" by (simp_all add: to_send_def)
  have step: "case s of
      Data raw \<Rightarrow> (case sending_config as p of None \<Rightarrow> False | Some c \<Rightarrow> fst (header_block raw) = field_lines c date (to_send p))
    | Rcpt a \<Rightarrow> one_line a \<and> validRecipient parse a \<and> a \<in> set (splitAddrs (sp_To p) @ splitAddrs (sp_Cc p))
    | AuthPlain \<Rightarrow> TlsDial \<in> set (snd (Send parse v date as p)) \<or> UpgradeTLS \<in> set (snd (Send parse v date as p)) \<or>
        (case sending_config as p of None \<Rightarrow> False | Some c \<Rightarrow> is_localhost (sc_Host c))
    | _ \<Rightarrow> True" if s: "s \<in> set (snd (Send parse v date as p))" for s
  proof (cases s)
    case (Data raw)
    then have "raw = build c date (to_send p)" using s t(2) plan_data by (metis in_set_takeD)
    with Data head c(1) show ?thesis by simp
  next
    case (Rcpt a)
    then have "a \<in> set (om_To (to_send p) @ om_Cc (to_send p))" using s t(2) plan_rcpt by (metis in_set_takeD)
    with Rcpt c(2) t(1) rc show ?thesis by (auto simp: list_all_iff)
  next
    case AuthPlain
    with s t(2) plan_auth [of n c date "to_send p" tls auth] t(3) c(1) show ?thesis by simp
  qed simp_all
  then show ?thesis unfolding list_all_iff by blast
qed

section \<open>Concrete sessions\<close>

definition plain_parse :: "string \<Rightarrow> string option" where
  "plain_parse s = (if str_contains s ''@'' then Some (fromAddr s) else None)"

definition open_server :: smtp_server where
  "open_server = \<lparr>sv_ok = (\<lambda>_. True), sv_ehlo = True, sv_starttls = True, sv_auth = True\<rparr>"

definition sending_account :: out_account where
  "sending_account = \<lparr>oa_Name = ''a'', oa_Default = True, oa_Username = ''me@x.example'', oa_Password = ''pw'',
     oa_SMTP = Some \<lparr>sc_Host = ''mail.x.example'', sc_Port = 0, sc_TLS = False, sc_Username = [], sc_Password = [], sc_From = []\<rparr>\<rparr>"

definition crafted :: send_params where
  "crafted = \<lparr>sp_Account = [], sp_To = ''Ann <ann@y.example>'', sp_Cc = [], sp_Subject = ''hi'' @ crlf @ ''Bcc: spy@z.example'', sp_Body = ''one'' @ crlf @ ''two''\<rparr>"

theorem sending_is_contained_witness:
  "case last (butlast (snd (Send plain_parse open_server ''now'' [sending_account] crafted))) of
     Data raw \<Rightarrow> fst (header_block raw) = [''From: me@x.example'', ''To: Ann <ann@y.example>'', ''Subject: hi  Bcc: spy@z.example'', ''Date: now'',
       ''MIME-Version: 1.0'', ''Content-Type: text/plain; charset=UTF-8'']
   | _ \<Rightarrow> False"
proof -
  let ?steps = "snd (Send plain_parse open_server ''now'' [sending_account] crafted)"
  let ?d = "last (butlast ?steps)"
  have d: "list_ex (\<lambda>s. s = ?d) ?steps" "case ?d of Data raw \<Rightarrow> True | _ \<Rightarrow> False" by code_simp+
  have c: "case sending_config [sending_account] crafted of None \<Rightarrow> False | Some c \<Rightarrow>
      field_lines c ''now'' (to_send crafted) = [''From: me@x.example'', ''To: Ann <ann@y.example>'', ''Subject: hi  Bcc: spy@z.example'', ''Date: now'',
       ''MIME-Version: 1.0'', ''Content-Type: text/plain; charset=UTF-8'']" by code_simp
  have "cr \<notin> set ''now''" by simp
  from sending_is_contained [OF this, where as = "[sending_account]" and p = crafted and parse = plain_parse and v = open_server] d c show ?thesis
    by (auto simp: list_all_iff list_ex_iff split: smtp_step.splits option.splits)
qed

text \<open>A recipient with a display name passes the check and is named to the server whole, which no server takes; and
  line ends that are already complete are doubled in the body.\<close>
theorem display_name_reaches_rcpt:
  "list_ex (\<lambda>s. s = Rcpt ''Ann <ann@y.example>'') (snd (Send plain_parse open_server ''now'' [sending_account] crafted)) \<and>
   (case last (butlast (snd (Send plain_parse open_server ''now'' [sending_account] crafted))) of
      Data raw \<Rightarrow> snd (header_block raw) = ''one'' @ [cr] @ crlf @ ''two'' | _ \<Rightarrow> False)"
  by code_simp

end
