(* ===== verification/Replies.thy ===== *)
theory Replies
  imports Verdict Migrate Threads
begin

text \<open>
  Reply tracking (\<open>internal/service/replies.go\<close>): the conversations that wait on the owner or on someone
  else, the batches of the live check, dismissing, and whether the history is complete. What the server shows
  of a message, the cache, the gate for first contacts and \<open>strings.ToLower\<close> on text are
  parameters; an item's link is left out. \<open>None\<close> as the outcome of a list is a panic of the Go code.
\<close>

record reply_params =
  rp_Account :: string
  rp_OlderThanDays :: int
  rp_WithinDays :: int
  rp_Limit :: int

record reply_item =
  ri_Account :: string
  ri_ThreadID :: string
  ri_Counterpart :: string
  ri_Name :: string
  ri_Subject :: string
  ri_Ref :: string
  ri_Folder :: string
  ri_UID :: nat
  ri_Last :: int
  ri_Days :: int
  ri_Hash :: int
  ri_LastHash :: int

section \<open>What the state database says\<close>

definition row_sender :: "state_db \<Rightarrow> thread_row \<Rightarrow> sender_row option" where
  "row_sender d t = find_sender (rt_counterpart t) d"

definition role_of :: "sender_row option \<Rightarrow> string" where
  "role_of s = (case s of None \<Rightarrow> ''unknown'' | Some r \<Rightarrow> sn_role r)"

definition open_thread :: "string \<Rightarrow> bool \<Rightarrow> int \<Rightarrow> int \<Rightarrow> state_db \<Rightarrow> thread_row \<Rightarrow> bool" where
  "open_thread account outgoing olderThan newer d t =
     (rt_account t = account \<and> rt_outgoing t = outgoing \<and> rt_last_date t \<le> olderThan \<and> newer \<le> rt_last_date t \<and>
      (case rt_dismissed t of None \<Rightarrow> 0 | Some h \<Rightarrow> h) \<noteq> rt_last_hash t \<and>
      role_of (row_sender d t) \<notin> {''newsletter'', ''bot'', ''self''})"

text \<open>An automated sender: a vendor, or one most of whose mail is list, bulk or automatic mail.\<close>

definition automated_sender :: "sender_row option \<Rightarrow> bool" where
  "automated_sender s =
     (role_of s = ''vendor'' \<or>
      (case s of None \<Rightarrow> False | Some r \<Rightarrow> 0 < sn_count r \<and> sn_count r < (sn_list r + sn_bulk r + sn_auto r) * 2))"

definition indexed_folder :: "state_db \<Rightarrow> thread_row \<Rightarrow> string" where
  "indexed_folder d t =
     (case find (\<lambda>m. im_account m = rt_account t \<and> im_hash m = rt_last_hash t) (sd_index d) of
        None \<Rightarrow> rt_folder t
      | Some m \<Rightarrow> (case im_folder m of None \<Rightarrow> rt_folder t | Some f \<Rightarrow> f))"

definition waits_on_owner :: "string list \<Rightarrow> state_db \<Rightarrow> thread_row \<Rightarrow> bool" where
  "waits_on_owner gone d t =
     (\<not> automated_sender (row_sender d t) \<and> rt_direct t \<and> \<not> rt_answered t \<and>
      \<not> list_ex (\<lambda>m. im_account m = rt_account t \<and> im_outgoing m \<and> im_reply m = Some (rt_last_hash t)) (sd_index d) \<and>
      \<not> list_ex (\<lambda>h. hm_account h = rt_account t \<and> hm_hash h = rt_last_hash t \<and> hm_released_at h = None) (sd_held d) \<and>
      indexed_folder d t \<notin> set gone)"

definition is_known :: "bool \<Rightarrow> sender_row option \<Rightarrow> bool" where
  "is_known outgoing s =
     (outgoing \<or>
      (case s of None \<Rightarrow> False
       | Some r \<Rightarrow> 0 < sn_sent r + sn_reply_count r \<or>
           ((sn_role r = ''personal'' \<or> sn_role r = ''colleague'') \<and> has_prefix (sn_role_source r) ''signal:'')))"

section \<open>What the message says\<close>

definition invite_prefixes :: "string list" where
  "invite_prefixes = [''invitation:'', ''updated invitation'', ''invitation from google calendar'', ''accepted:'', ''declined:'',
     ''tentatively accepted:'', ''canceled event'', ''cancelled event'', ''event canceled'', ''new event:'']"

definition isInvite :: "string \<Rightarrow> string \<Rightarrow> bool" where
  "isInvite subject ref =
     (list_ex (has_prefix (to_lower (trim_space subject))) invite_prefixes \<or> has_prefix (to_lower ref) ''calendar-'')"

definition cached_by_ref :: "string \<Rightarrow> string \<Rightarrow> msg_row list option \<Rightarrow> msg_row list" where
  "cached_by_ref account ref cache =
     (let i = trim_angle ref in
      case cache of None \<Rightarrow> [] | Some rows \<Rightarrow>
        if i = [] then [] else filter (\<lambda>r. m_account r = account \<and> m_message_id r \<in> {i, CHR ''<'' # i @ ''>''}) rows)"

definition labelled_hall :: "string \<Rightarrow> string \<Rightarrow> msg_row list option \<Rightarrow> string" where
  "labelled_hall account ref cache =
     (case filter (\<lambda>r. m_hall r \<noteq> []) (cached_by_ref account ref cache) of
        [] \<Rightarrow> []
      | r # rs \<Rightarrow> trim_angle (to_lower (trim_space (m_hall r))))"

definition automatedHall :: "string \<Rightarrow> string \<Rightarrow> msg_row list option \<Rightarrow> bool" where
  "automatedHall account ref cache = (labelled_hall account ref cache \<in> {''transactional'', ''notification'', ''alert''})"

definition cachedText :: "string \<Rightarrow> string \<Rightarrow> msg_row list option \<Rightarrow> string option" where
  "cachedText account ref cache =
     (case filter (\<lambda>r. \<not> m_body_skipped r) (cached_by_ref account ref cache) of
        [] \<Rightarrow> None
      | r # rs \<Rightarrow> (if m_body_text r \<noteq> [] then Some (m_body_text r) else if m_body_html r \<noteq> [] then Some (stripTags (m_body_html r)) else None))"

definition isForward :: "string \<Rightarrow> bool" where
  "isForward subject = (let s = to_lower (trim_space subject) in has_prefix s ''fwd:'' \<or> has_prefix s ''fw:'' \<or> has_prefix s ''fwd :'')"

definition forwardMarkers :: "string list" where
  "forwardMarkers = [''---------- forwarded message'', ''begin forwarded message'', ''-----original message-----'',
     replicate 32 (CHR 0x5F), ''-------- original message'', ''-------- forwarded message'']"

definition note_line :: "(string \<Rightarrow> string) \<Rightarrow> string \<Rightarrow> bool" where
  "note_line lower line =
     (let l = trim_space line; ll = lower l in
      \<not> (l = [] \<or> l = ''--'' \<or> has_prefix ll ''sent from my'' \<or> has_prefix ll ''get outlook for'' \<or> has_prefix l ''>'' \<or>
         has_prefix ll ''from:'' \<or> (has_prefix ll ''on '' \<and> has_suffix ll ''wrote:'')))"

text \<open>The cut is an index into the lower-case text, used on the text itself: where that is shorter Go panics.\<close>

definition hasOwnNote :: "(string \<Rightarrow> string) \<Rightarrow> string \<Rightarrow> bool option" where
  "hasOwnNote lower text =
     (let low = lower text;
          stop = fold (\<lambda>m c. case str_index low m of None \<Rightarrow> c | Some i \<Rightarrow> min i c) forwardMarkers (length low) in
      if length text < stop then None else Some (list_ex (note_line lower) (split_on newline_char (take stop text))))"

section \<open>The live check\<close>

text \<open>A message as the server shows it: flags, whether it has a calendar part, and its envelope and header fields.\<close>

record live_msg =
  lm_Flags :: "string list"
  lm_Calendar :: bool
  lm_Head :: hold_msg

record reply_env =
  re_lower :: "string \<Rightarrow> string"
  re_hash :: "string \<Rightarrow> int"
  re_cache :: "msg_row list option"
  re_live :: "string \<Rightarrow> nat \<Rightarrow> live_msg option"
  re_body :: "string \<Rightarrow> nat \<Rightarrow> (string \<times> string) option"   \<comment> \<open>plain text and HTML of a forward read live\<close>
  re_gate :: "hold_gate option"
  re_me :: "string list"
  re_gone :: "string list"   \<comment> \<open>the folders for discarded mail\<close>
  re_verdict :: "rat option"   \<comment> \<open>the threshold of an active verdict model\<close>

definition answered_flag :: string where
  "answered_flag = CHR 0x5C # ''Answered''"

definition live_of :: "reply_env \<Rightarrow> reply_item \<Rightarrow> live_msg option" where
  "live_of e it = (if ri_Folder it \<noteq> [] \<and> ri_UID it > 0 then re_live e (ri_Folder it) (ri_UID it) else None)"

text \<open>Only a first contact whose headers show no signal, or that answers the owner, is clean. A panic of the header
  checks (theory \<open>New_Sender\<close>) is not clean here.\<close>

definition clean_headers :: "reply_env \<Rightarrow> state_db \<Rightarrow> live_msg \<Rightarrow> bool" where
  "clean_headers e d m =
     (case (re_gate e, ho_Envelope (lm_Head m)) of
        (Some g, Some env) \<Rightarrow>
          (case en_From env of
             [] \<Rightarrow> False
           | (a, n) # _ \<Rightarrow>
               (case signals g (re_hash e) d env (lm_Head m) (bareAddr a) of
                  None \<Rightarrow> False
                | Some (is_real, sigs) \<Rightarrow> is_real \<or> sum_list (map fst sigs) = 0))
      | _ \<Rightarrow> False)"

text \<open>Whether a forward has a note of its own: not checked, the answer, or a panic.\<close>

definition forward_note :: "reply_env \<Rightarrow> string \<Rightarrow> reply_item \<Rightarrow> bool option option" where
  "forward_note e account it =
     (if \<not> isForward (ri_Subject it) then Some None
      else (case cachedText account (ri_Ref it) (re_cache e) of
          Some text \<Rightarrow> map_option Some (hasOwnNote (re_lower e) text)
        | None \<Rightarrow>
            (if ri_Folder it = [] \<or> ri_UID it = 0 then Some None
             else (case re_body e (ri_Folder it) (ri_UID it) of
                 None \<Rightarrow> Some None
               | Some (text, html) \<Rightarrow> map_option Some (hasOwnNote (re_lower e) (if text = [] then stripTags html else text))))))"

datatype live_verdict = Keep | Discard | IsAnswered

definition live_verdict :: "reply_env \<Rightarrow> state_db \<Rightarrow> reply_item \<times> bool \<Rightarrow> bool option \<Rightarrow> live_verdict" where
  "live_verdict e d x note =
     (case x of (it, first) \<Rightarrow>
        (case live_of e it of
           None \<Rightarrow> if first then Discard else if note = Some False then Discard else Keep
         | Some m \<Rightarrow>
             (if answered_flag \<in> set (lm_Flags m) then IsAnswered
              else if first \<and> \<not> clean_headers e d m then Discard
              else if lm_Calendar m then Discard
              else if note = Some False then Discard
              else Keep)))"

definition record_answered :: "string \<Rightarrow> reply_item \<Rightarrow> state_db \<Rightarrow> state_db" where
  "record_answered account it d =
     d\<lparr>sd_threads := upd_rows (\<lambda>t. rt_account t = account \<and> rt_hash t = ri_Hash it \<and> rt_last_hash t = ri_LastHash it)
         (\<lambda>t. t\<lparr>rt_answered := True\<rparr>) (sd_threads d)\<rparr>"

text \<open>\<open>d0\<close> is the database the candidates were read from, \<open>d\<close> the one that is written.\<close>

fun liveCheck :: "reply_env \<Rightarrow> state_db \<Rightarrow> string \<Rightarrow> (reply_item \<times> bool) list \<Rightarrow> state_db \<Rightarrow> (reply_item list \<times> state_db) option" where
  "liveCheck e d0 account [] d = Some ([], d)"
| "liveCheck e d0 account (x # xs) d =
     (case forward_note e account (fst x) of
        None \<Rightarrow> None
      | Some note \<Rightarrow>
          (case live_verdict e d0 x note of
             Keep \<Rightarrow> map_option (\<lambda>(ks, d). (fst x # ks, d)) (liveCheck e d0 account xs d)
           | Discard \<Rightarrow> liveCheck e d0 account xs d
           | IsAnswered \<Rightarrow> liveCheck e d0 account xs (record_answered account (fst x) d)))"

section \<open>The list of an account\<close>

definition open_anomaly :: "string \<Rightarrow> state_db \<Rightarrow> bool" where
  "open_anomaly sender d =
     list_ex (\<lambda>a. an_sender a = sender \<and> \<not> an_resolved a \<and> (case an_finding a of FirstMessage _ \<Rightarrow> False | _ \<Rightarrow> True)) (sd_anomalies d)"

definition cleanFirstContact :: "reply_env \<Rightarrow> state_db \<Rightarrow> string \<Rightarrow> string \<Rightarrow> string \<Rightarrow> bool" where
  "cleanFirstContact e d account sender ref =
     (case re_verdict e of
        Some threshold \<Rightarrow>
          (case stored_verdict account (re_hash e) ref d of
             None \<Rightarrow> False
           | Some v \<Rightarrow> vd_verdict v = ''legitimate'' \<and> threshold \<le> vd_confidence v \<and> \<not> open_anomaly sender d)
      | None \<Rightarrow> labelled_hall account ref (re_cache e) \<in> {''conversation'', ''personal''} \<and> \<not> open_anomaly sender d)"

definition replyFirstContacts :: bool where "replyFirstContacts = False"

definition reply_item_of :: "string \<Rightarrow> int \<Rightarrow> state_db \<Rightarrow> thread_row \<Rightarrow> reply_item" where
  "reply_item_of account now d t =
     \<lparr>ri_Account = account, ri_ThreadID = rt_thread_id t, ri_Counterpart = rt_counterpart t,
      ri_Name = (case row_sender d t of None \<Rightarrow> [] | Some s \<Rightarrow> sn_name s), ri_Subject = rt_subject t, ri_Ref = rt_ref t,
      ri_Folder = rt_folder t, ri_UID = rt_uid t, ri_Last = rt_last_date t, ri_Days = (now - rt_last_date t) div 86400,
      ri_Hash = rt_hash t, ri_LastHash = rt_last_hash t\<rparr>"

text \<open>A row that goes on to the live check, with whether it is a first contact.\<close>

definition candidate_of :: "reply_env \<Rightarrow> string \<Rightarrow> bool \<Rightarrow> int \<Rightarrow> state_db \<Rightarrow> thread_row \<Rightarrow> (reply_item \<times> bool) option" where
  "candidate_of e account outgoing now d t =
     (if me_has (re_me e) (rt_counterpart t) then None
      else if \<not> outgoing \<and> (IsNoReply (rt_counterpart t) \<or> isInvite (rt_subject t) (rt_ref t) \<or> automatedHall account (rt_ref t) (re_cache e)) then None
      else (let known = is_known outgoing (row_sender d t) in
        if \<not> known \<and> ((\<not> replyFirstContacts \<and> re_verdict e = None) \<or> \<not> cleanFirstContact e d account (rt_counterpart t) (rt_ref t)) then None
        else if int (rt_uid t) > 4294967295 then None
        else Some (reply_item_of account now d t, \<not> known)))"

text \<open>The folders whose mail never needs a reply: those for discarded mail and those that held mail is put in.\<close>

definition replyClearingFolders :: "string \<Rightarrow> string list \<Rightarrow> state_db \<Rightarrow> string list" where
  "replyClearingFolders account discard d = discard @ remdups (map hm_folder (filter (\<lambda>h. hm_account h = account) (sd_held d)))"

definition open_rows :: "reply_env \<Rightarrow> string \<Rightarrow> bool \<Rightarrow> int \<Rightarrow> int \<Rightarrow> state_db \<Rightarrow> thread_row list" where
  "open_rows e account outgoing olderThan newer d =
     sort_key rt_last_date (filter (\<lambda>t. open_thread account outgoing olderThan newer d t \<and> (outgoing \<or> waits_on_owner (replyClearingFolders account (re_gone e) d) d t)) (sd_threads d))"

definition flush :: "reply_env \<Rightarrow> state_db \<Rightarrow> string \<Rightarrow> bool \<Rightarrow> (reply_item \<times> bool) list \<Rightarrow> state_db \<Rightarrow> (reply_item list \<times> state_db) option" where
  "flush e d0 account outgoing batch d = (if outgoing then Some (map fst batch, d) else liveCheck e d0 account batch d)"

text \<open>The loop over the rows: a batch is checked when it could fill the list.\<close>

fun reply_loop ::
  "reply_env \<Rightarrow> state_db \<Rightarrow> string \<Rightarrow> bool \<Rightarrow> nat \<Rightarrow> int \<Rightarrow> thread_row list \<Rightarrow> reply_item list \<Rightarrow> (reply_item \<times> bool) list \<Rightarrow> state_db \<Rightarrow>
   (reply_item list \<times> state_db) option" where
  "reply_loop e d0 account outgoing limit now [] items batch d =
     (case flush e d0 account outgoing batch d of None \<Rightarrow> None | Some (ks, d) \<Rightarrow> Some (take limit (items @ ks), d))"
| "reply_loop e d0 account outgoing limit now (t # ts) items batch d =
     (case candidate_of e account outgoing now d0 t of
        None \<Rightarrow> reply_loop e d0 account outgoing limit now ts items batch d
      | Some x \<Rightarrow>
          (if length items + length batch + 1 < limit then reply_loop e d0 account outgoing limit now ts items (batch @ [x]) d
           else (case flush e d0 account outgoing (batch @ [x]) d of
               None \<Rightarrow> None
             | Some (ks, d) \<Rightarrow>
                 (if limit \<le> length (items @ ks) then Some (take limit (items @ ks), d)
                  else reply_loop e d0 account outgoing limit now ts (items @ ks) [] d))))"

definition replyItems ::
  "reply_env \<Rightarrow> string \<Rightarrow> bool \<Rightarrow> int \<Rightarrow> int \<Rightarrow> nat \<Rightarrow> state_db \<Rightarrow> (reply_item list \<times> state_db) option" where
  "replyItems e account outgoing olderThan newer limit d =
     (if limit = 0 then Some ([], d)
      else reply_loop e d account outgoing limit (sd_now d) (open_rows e account outgoing olderThan newer d) [] [] d)"

section \<open>The lists\<close>

datatype reply_error = IntelOff | NegativeDays | WithinTooSmall | ThreadMissing | NoConversation

definition within_days :: "int \<Rightarrow> int" where
  "within_days n = min (if n \<le> 0 then 90 else n) 36500"

definition reply_limit :: "int \<Rightarrow> nat" where
  "reply_limit n = nat (min (if n \<le> 0 then 20 else n) 200)"

text \<open>\<open>envs\<close> is the environment of each account.\<close>

fun reply_accounts ::
  "(string \<Rightarrow> reply_env) \<Rightarrow> bool \<Rightarrow> int \<Rightarrow> int \<Rightarrow> nat \<Rightarrow> string list \<Rightarrow> reply_item list \<Rightarrow> state_db \<Rightarrow> (reply_item list \<times> state_db) option" where
  "reply_accounts envs outgoing olderThan newer limit [] items d = Some (items, d)"
| "reply_accounts envs outgoing olderThan newer limit (a # as) items d =
     (case replyItems (envs a) a outgoing olderThan newer (limit - length items) d of
        None \<Rightarrow> None
      | Some (ks, d) \<Rightarrow>
          (if limit \<le> length (items @ ks) then Some (items @ ks, d)
           else reply_accounts envs outgoing olderThan newer limit as (items @ ks) d))"

text \<open>The marks of the folders of the accounts; no folder is an incomplete history.\<close>

definition replyHistoryComplete :: "scan_mark list \<Rightarrow> bool" where
  "replyHistoryComplete ms =
     (ms \<noteq> [] \<and> list_all (\<lambda>m. sk_completed m \<noteq> None \<and> (case sk_rescan m of None \<Rightarrow> 0 | Some n \<Rightarrow> n) \<le> sk_last_uid m) ms)"

definition replyList ::
  "bool \<Rightarrow> string \<Rightarrow> string list \<Rightarrow> (string \<Rightarrow> reply_env) \<Rightarrow> (string list \<Rightarrow> scan_mark list) \<Rightarrow> reply_params \<Rightarrow> bool \<Rightarrow> state_db \<Rightarrow>
   (reply_error + (reply_item list \<times> bool \<times> state_db)) option" where
  "replyList intel_on dflt names envs marks p outgoing d =
     (if \<not> intel_on then Some (Inl IntelOff)
      else if rp_OlderThanDays p < 0 then Some (Inl NegativeDays)
      else if within_days (rp_WithinDays p) < rp_OlderThanDays p then Some (Inl WithinTooSmall)
      else (let accounts = (if rp_Account p \<noteq> [] then [account_name dflt (rp_Account p)] else names) in
        case reply_accounts envs outgoing (sd_now d - rp_OlderThanDays p * 86400) (sd_now d - within_days (rp_WithinDays p) * 86400)
            (reply_limit (rp_Limit p)) accounts [] d of
          None \<Rightarrow> None
        | Some (items, d) \<Rightarrow> Some (Inr (sort_key (\<lambda>i. - ri_Days i) items, accounts \<noteq> [] \<and> replyHistoryComplete (marks accounts), d))))"

definition NeedsReply where "NeedsReply intel_on dflt names envs marks p d = replyList intel_on dflt names envs marks p False d"

definition AwaitingReply where "AwaitingReply intel_on dflt names envs marks p d = replyList intel_on dflt names envs marks p True d"

definition DismissReply :: "(string \<Rightarrow> int) \<Rightarrow> string \<Rightarrow> string \<Rightarrow> string \<Rightarrow> state_db \<Rightarrow> reply_error option \<times> state_db" where
  "DismissReply hf dflt account tid d =
     (let h = msg_hash hf tid; a = account_name dflt account;
          p = (\<lambda>t. rt_account t = a \<and> rt_hash t = h) in
      if h = 0 then (Some ThreadMissing, d)
      else (if list_ex p (sd_threads d) then None else Some NoConversation,
            d\<lparr>sd_threads := upd_rows p (\<lambda>t. t\<lparr>rt_dismissed := Some (rt_last_hash t)\<rparr>) (sd_threads d)\<rparr>))"

end
