(* ===== verification/Replies_Props.thy ===== *)
theory Replies_Props
  imports Replies
begin

text \<open>
  The reply lists hold what they promise: the batches change nothing about the result, every item waits, a
  dismissed conversation stays away - and which text stops the check.
\<close>

section \<open>The batches\<close>

text \<open>What the live check says of one candidate; \<open>None\<close> is a panic.\<close>

definition survives :: "reply_env \<Rightarrow> state_db \<Rightarrow> string \<Rightarrow> bool \<Rightarrow> reply_item \<times> bool \<Rightarrow> bool" where
  "survives e d account outgoing x =
     (outgoing \<or> (case forward_note e account (fst x) of None \<Rightarrow> False | Some note \<Rightarrow> live_verdict e d x note = Keep))"


text \<open>The specification: candidates in the order of their dates, those that survive, as many as asked for.\<close>

definition reply_candidates :: "reply_env \<Rightarrow> string \<Rightarrow> bool \<Rightarrow> int \<Rightarrow> state_db \<Rightarrow> thread_row list \<Rightarrow> (reply_item \<times> bool) list" where
  "reply_candidates e account outgoing now d ts = List.map_filter (candidate_of e account outgoing now d) ts"

definition reply_spec :: "reply_env \<Rightarrow> string \<Rightarrow> bool \<Rightarrow> int \<Rightarrow> int \<Rightarrow> nat \<Rightarrow> state_db \<Rightarrow> reply_item list" where
  "reply_spec e account outgoing olderThan newer limit d =
     take limit (map fst (filter (survives e d account outgoing)
       (reply_candidates e account outgoing (sd_now d) d (open_rows e account outgoing olderThan newer d))))"

lemma liveCheck_keeps:
  assumes "liveCheck e d0 account xs d = Some (ks, d')"
  shows "ks = map fst (filter (survives e d0 account False) xs)"
  using assms
proof (induction xs arbitrary: d ks)
  case (Cons x xs)
  then obtain own where n: "forward_note e account (fst x) = Some own" by (auto split: option.splits)
  show ?case
  proof (cases "live_verdict e d0 x own")
    case Keep
    with Cons.prems n obtain ks' where "liveCheck e d0 account xs d = Some (ks', d')" "ks = fst x # ks'" by auto
    with Cons.IH Keep n show ?thesis by (simp add: survives_def)
  next
    case Discard
    with Cons n show ?thesis by (simp add: survives_def)
  next
    case IsAnswered
    with Cons n show ?thesis by (simp add: survives_def)
  qed
qed simp


lemma flush_keeps: "flush e d0 account outgoing xs d = Some (ks, d') \<Longrightarrow> ks = map fst (filter (survives e d0 account outgoing) xs)"
  using liveCheck_keeps by (cases outgoing) (auto simp: flush_def survives_def)


lemma candidates_Cons:
  "reply_candidates e account outgoing now d (t # ts) =
   (case candidate_of e account outgoing now d t of None \<Rightarrow> [] | Some x \<Rightarrow> [x]) @ reply_candidates e account outgoing now d ts"
  by (simp add: reply_candidates_def List.map_filter_def split: option.split)

lemma loop_result:
  "reply_loop e d0 account outgoing limit now ts items batch d = Some (r, d') \<Longrightarrow>
   r = take limit (items @ map fst (filter (survives e d0 account outgoing) (batch @ reply_candidates e account outgoing now d0 ts)))"
proof (induction e d0 account outgoing limit now ts items batch d rule: reply_loop.induct)
  case (1 e d0 account outgoing limit now items batch d)
  then obtain ks where f: "flush e d0 account outgoing batch d = Some (ks, d')" "r = take limit (items @ ks)"
    by (auto split: option.splits)
  with flush_keeps [OF f(1)] show ?case by (simp add: reply_candidates_def List.map_filter_def)
next
  case (2 e d0 account outgoing limit now t ts items batch d)
  show ?case
  proof (cases "candidate_of e account outgoing now d0 t")
    case None
    with 2 show ?thesis by (simp add: candidates_Cons)
  next
    case (Some x)
    let ?rest = "reply_candidates e account outgoing now d0 ts"
    have cands: "reply_candidates e account outgoing now d0 (t # ts) = x # ?rest" using Some by (simp add: candidates_Cons)
    show ?thesis
    proof (cases "length items + length batch + 1 < limit")
      case True
      with 2(2) [OF Some True] 2(4) Some show ?thesis by (simp add: cands)
    next
      case False
      with Some 2(4) obtain ks d2 where f: "flush e d0 account outgoing (batch @ [x]) d = Some (ks, d2)"
        by (auto split: option.splits)
      have rest: "map fst (filter (survives e d0 account outgoing) (batch @ x # ?rest)) = ks @ map fst (filter (survives e d0 account outgoing) ?rest)"
        using flush_keeps [OF f] by simp
      show ?thesis
      proof (cases "limit \<le> length (items @ ks)")
        case True
        have "r = take limit (items @ ks)" using 2(4) Some False f True by simp
        then show ?thesis unfolding cands rest using True by simp
      next
        case nf: False
        have "reply_loop e d0 account outgoing limit now ts (items @ ks) [] d2 = Some (r, d')" using 2(4) Some False f nf by simp
        from 2(3) [OF Some False f refl nf this] show ?thesis unfolding cands rest by simp
      qed
    qed
  qed
qed


lemma replyItems_result:
  "replyItems e account outgoing olderThan newer limit d = Some (r, d') \<Longrightarrow> r = reply_spec e account outgoing olderThan newer limit d"
  using loop_result [of e d account outgoing limit "sd_now d" "open_rows e account outgoing olderThan newer d" "[]" "[]" d r d']
  by (auto simp: replyItems_def reply_spec_def split: if_splits)



section \<open>What the database keeps\<close>

text \<open>Listing only marks conversations as answered.\<close>

definition marks_answered :: "state_db \<Rightarrow> state_db \<Rightarrow> bool" where
  "marks_answered d d' =
     (\<exists>f. d' = d\<lparr>sd_threads := map f (sd_threads d)\<rparr> \<and> (\<forall>t. f t = t \<or> f t = t\<lparr>rt_answered := True\<rparr>))"

lemma marks_answered_refl: "marks_answered d d"
  unfolding marks_answered_def by (rule exI [of _ id]) simp

lemma marks_answered_trans:
  assumes "marks_answered d d1" "marks_answered d1 d2"
  shows "marks_answered d d2"
proof -
  from assms obtain f g where "d1 = d\<lparr>sd_threads := map f (sd_threads d)\<rparr>" "d2 = d1\<lparr>sd_threads := map g (sd_threads d1)\<rparr>"
    and fs: "\<forall>t. f t = t \<or> f t = t\<lparr>rt_answered := True\<rparr>" "\<forall>t. g t = t \<or> g t = t\<lparr>rt_answered := True\<rparr>"
    unfolding marks_answered_def by blast
  then have "d2 = d\<lparr>sd_threads := map (g \<circ> f) (sd_threads d)\<rparr>" by simp
  moreover have "(g \<circ> f) t = t \<or> (g \<circ> f) t = t\<lparr>rt_answered := True\<rparr>" for t
    using fs(1) [rule_format, of t] fs(2) [rule_format, of "f t"] by auto
  ultimately show ?thesis unfolding marks_answered_def by blast
qed

lemma record_answered_marks: "marks_answered d (record_answered account it d)"
  unfolding marks_answered_def record_answered_def upd_rows_def
  by (rule exI [of _ "\<lambda>t. if rt_account t = account \<and> rt_hash t = ri_Hash it \<and> rt_last_hash t = ri_LastHash it then t\<lparr>rt_answered := True\<rparr> else t"]) simp

lemma liveCheck_marks: "liveCheck e d0 account xs d = Some (ks, d') \<Longrightarrow> marks_answered d d'"
proof (induction xs arbitrary: d ks)
  case (Cons x xs)
  then obtain own where n: "forward_note e account (fst x) = Some own" by (auto split: option.splits)
  show ?case
  proof (cases "live_verdict e d0 x own")
    case IsAnswered
    with Cons n have "marks_answered (record_answered account (fst x) d) d'" by auto
    then show ?thesis by (rule marks_answered_trans [OF record_answered_marks])
  qed (use Cons n in auto)
qed (simp add: marks_answered_refl)

lemma flush_marks: "flush e d0 account outgoing xs d = Some (ks, d') \<Longrightarrow> marks_answered d d'"
  using liveCheck_marks by (cases outgoing) (auto simp: flush_def marks_answered_refl)

lemma loop_marks: "reply_loop e d0 account outgoing limit now ts items batch d = Some (r, d') \<Longrightarrow> marks_answered d d'"
proof (induction e d0 account outgoing limit now ts items batch d rule: reply_loop.induct)
  case (1 e d0 account outgoing limit now items batch d)
  then show ?case by (auto split: option.splits dest: flush_marks)
next
  case (2 e d0 account outgoing limit now t ts items batch d)
  show ?case
  proof (cases "candidate_of e account outgoing now d0 t")
    case None
    with 2 show ?thesis by simp
  next
    case (Some x)
    show ?thesis
    proof (cases "length items + length batch + 1 < limit")
      case True
      with 2 Some show ?thesis by simp
    next
      case False
      with Some 2(4) obtain ks d2 where f: "flush e d0 account outgoing (batch @ [x]) d = Some (ks, d2)"
        by (auto split: option.splits)
      show ?thesis
      proof (cases "limit \<le> length (items @ ks)")
        case True
        with f 2(4) Some False flush_marks [OF f] show ?thesis by simp
      next
        case nf: False
        then have "reply_loop e d0 account outgoing limit now ts (items @ ks) [] d2 = Some (r, d')" using 2(4) Some False f by simp
        from 2(3) [OF Some False f refl nf this] show ?thesis by (rule marks_answered_trans [OF flush_marks [OF f]])
      qed
    qed
  qed
qed

lemma replyItems_marks: "replyItems e account outgoing olderThan newer limit d = Some (r, d') \<Longrightarrow> marks_answered d d'"
  by (auto simp: replyItems_def marks_answered_refl split: if_splits dest: loop_marks)

lemma accounts_items:
  assumes "reply_accounts envs outgoing olderThan newer limit as items d = Some (r, d')" "it \<in> set r"
  shows "it \<in> set items \<or> (\<exists>a\<in>set as. \<exists>d1 n. marks_answered d d1 \<and> it \<in> set (reply_spec (envs a) a outgoing olderThan newer n d1))"
  using assms(1)
proof (induction "as" arbitrary: items d)
  case Nil
  with assms(2) show ?case by simp
next
  case (Cons a "as")
  then obtain ks d1 where k: "replyItems (envs a) a outgoing olderThan newer (limit - length items) d = Some (ks, d1)"
    by (auto split: option.splits)
  let ?here = "\<exists>n. it \<in> set (reply_spec (envs a) a outgoing olderThan newer n d)"
  have ks: "it \<in> set ks \<Longrightarrow> ?here" using replyItems_result [OF k] by blast
  show ?case
  proof (cases "limit \<le> length (items @ ks)")
    case True
    with Cons.prems k assms(2) ks show ?thesis using marks_answered_refl [of d] by auto
  next
    case False
    with Cons.prems k have "reply_accounts envs outgoing olderThan newer limit as (items @ ks) d1 = Some (r, d')" by simp
    from Cons.IH [OF this]
    consider "it \<in> set items" | "it \<in> set ks"
      | b d2 n where "b \<in> set as" "marks_answered d1 d2" "it \<in> set (reply_spec (envs b) b outgoing olderThan newer n d2)"
      by auto
    then show ?thesis
    proof cases
      case 3
      then show ?thesis using marks_answered_trans [OF replyItems_marks [OF k]] by auto
    qed (use ks marks_answered_refl [of d] in auto)
  qed
qed

lemma accounts_length:
  "reply_accounts envs outgoing olderThan newer limit as items d = Some (r, d') \<Longrightarrow> length items \<le> limit \<Longrightarrow> length r \<le> limit"
proof (induction "as" arbitrary: items d)
  case (Cons a "as")
  then obtain ks d1 where k: "replyItems (envs a) a outgoing olderThan newer (limit - length items) d = Some (ks, d1)"
    by (auto split: option.splits)
  have "length (items @ ks) \<le> limit" using replyItems_result [OF k] Cons.prems(2) by (simp add: reply_spec_def)
  with Cons k show ?case by (auto split: if_splits)
qed simp


section \<open>Every item waits\<close>

text \<open>An item of a list: a row of the account that the database calls open, a candidate, and one that survives.\<close>

definition listed :: "reply_env \<Rightarrow> string \<Rightarrow> bool \<Rightarrow> int \<Rightarrow> int \<Rightarrow> state_db \<Rightarrow> thread_row \<Rightarrow> reply_item \<Rightarrow> bool" where
  "listed e account outgoing olderThan newer d t it =
     (open_thread account outgoing olderThan newer d t \<and> (outgoing \<or> waits_on_owner (replyClearingFolders account (re_gone e) d) d t) \<and>
      list_ex (\<lambda>first. candidate_of e account outgoing (sd_now d) d t = Some (it, first) \<and> survives e d account outgoing (it, first)) [False, True])"

lemma spec_listed:
  assumes "it \<in> set (reply_spec e account outgoing olderThan newer n d)"
  shows "\<exists>t\<in>set (sd_threads d). listed e account outgoing olderThan newer d t it"
proof -
  from assms obtain x where "x \<in> set (reply_candidates e account outgoing (sd_now d) d (open_rows e account outgoing olderThan newer d))"
    "survives e d account outgoing x" "it = fst x"
    unfolding reply_spec_def by (auto dest!: in_set_takeD)
  then obtain t where "t \<in> set (open_rows e account outgoing olderThan newer d)"
    "candidate_of e account outgoing (sd_now d) d t = Some x" "survives e d account outgoing x" "it = fst x"
    unfolding reply_candidates_def List.map_filter_def by auto
  then show ?thesis unfolding listed_def open_rows_def by (cases x; cases "snd x") auto
qed

lemma candidate_item: "candidate_of e account outgoing now d t = Some (it, first) \<Longrightarrow> it = reply_item_of account now d t"
  by (auto simp: candidate_of_def Let_def split: if_splits)

lemmas reply_item_of_sel = reply_item_of_def reply_item.simps

text \<open>A conversation that waits on the owner, as the database and the message on the server have it.\<close>

definition waiting_row :: "reply_env \<Rightarrow> int \<Rightarrow> int \<Rightarrow> state_db \<Rightarrow> reply_item \<Rightarrow> thread_row \<Rightarrow> bool" where
  "waiting_row e olderThan newer d it t =
     (it = reply_item_of (rt_account t) (sd_now d) d t \<and> \<not> rt_outgoing t \<and> rt_direct t \<and> \<not> rt_answered t \<and>
      newer \<le> rt_last_date t \<and> rt_last_date t \<le> olderThan \<and>
      \<not> automated_sender (row_sender d t) \<and> role_of (row_sender d t) \<notin> {''newsletter'', ''bot'', ''self''} \<and>
      \<not> IsNoReply (rt_counterpart t) \<and> \<not> me_has (re_me e) (rt_counterpart t) \<and>
      \<not> list_ex (\<lambda>m. im_account m = rt_account t \<and> im_outgoing m \<and> im_reply m = Some (rt_last_hash t)) (sd_index d) \<and>
      \<not> list_ex (\<lambda>h. hm_account h = rt_account t \<and> hm_hash h = rt_last_hash t \<and> hm_released_at h = None) (sd_held d) \<and>
      (is_known False (row_sender d t) \<or> re_verdict e \<noteq> None))"

definition waiting_item :: "(string \<Rightarrow> reply_env) \<Rightarrow> int \<Rightarrow> int \<Rightarrow> state_db \<Rightarrow> reply_item \<Rightarrow> bool" where
  "waiting_item envs olderThan newer d it =
     (list_ex (waiting_row (envs (ri_Account it)) olderThan newer d it) (sd_threads d) \<and>
      (case live_of (envs (ri_Account it)) it of None \<Rightarrow> True
       | Some m \<Rightarrow> answered_flag \<notin> set (lm_Flags m) \<and> \<not> lm_Calendar m))"

lemma survives_live:
  assumes "survives e d account False (it, first)"
  shows "case live_of e it of None \<Rightarrow> True | Some m \<Rightarrow> answered_flag \<notin> set (lm_Flags m) \<and> \<not> lm_Calendar m"
proof (cases "live_of e it")
  case (Some m)
  with assms show ?thesis by (auto simp: survives_def live_verdict_def split: option.splits if_splits)
qed simp

lemma listed_waits:
  assumes "listed (envs a) a False olderThan newer d t it" "t \<in> set (sd_threads d)"
  shows "waiting_item envs olderThan newer d it"
proof -
  from assms(1) obtain first where o: "open_thread a False olderThan newer d t" "waits_on_owner (replyClearingFolders a (re_gone (envs a)) d) d t"
    and c: "candidate_of (envs a) a False (sd_now d) d t = Some (it, first)" and s: "survives (envs a) d a False (it, first)"
    unfolding listed_def by auto
  have it: "it = reply_item_of a (sd_now d) d t" by (rule candidate_item [OF c])
  then have a: "ri_Account it = a" by (simp add: reply_item_of_def)
  have "\<not> me_has (re_me (envs a)) (rt_counterpart t) \<and> \<not> IsNoReply (rt_counterpart t) \<and>
      (is_known False (row_sender d t) \<or> re_verdict (envs a) \<noteq> None)"
    using c by (auto simp: candidate_of_def Let_def replyFirstContacts_def split: if_splits)
  moreover have "rt_account t = a \<and> \<not> rt_outgoing t \<and> rt_direct t \<and> \<not> rt_answered t \<and> newer \<le> rt_last_date t \<and> rt_last_date t \<le> olderThan \<and>
      \<not> automated_sender (row_sender d t) \<and> role_of (row_sender d t) \<notin> {''newsletter'', ''bot'', ''self''} \<and>
      \<not> list_ex (\<lambda>m. im_account m = a \<and> im_outgoing m \<and> im_reply m = Some (rt_last_hash t)) (sd_index d) \<and>
      \<not> list_ex (\<lambda>h. hm_account h = a \<and> hm_hash h = rt_last_hash t \<and> hm_released_at h = None) (sd_held d)"
    using o unfolding open_thread_def waits_on_owner_def by metis
  ultimately show ?thesis using it assms(2) survives_live [OF s] unfolding waiting_item_def waiting_row_def a list_ex_iff by blast
qed

text \<open>What waits after some conversations were marked as answered waited before.\<close>

lemma waiting_before:
  assumes "marks_answered d d'" "waiting_item envs olderThan newer d' it"
  shows "waiting_item envs olderThan newer d it"
proof -
  from assms(1) obtain f where d': "d' = d\<lparr>sd_threads := map f (sd_threads d)\<rparr>"
    and f: "\<And>t. f t = t \<or> f t = t\<lparr>rt_answered := True\<rparr>" unfolding marks_answered_def by blast
  have same: "waiting_row e olderThan newer d' it t = waiting_row e olderThan newer d it t" for e t
    by (simp add: d' waiting_row_def row_sender_def find_sender_def reply_item_of_def)
  have row: "waiting_row e olderThan newer d it (f t) \<Longrightarrow> f t = t" for e t
    using f [of t] by (auto simp: waiting_row_def)
  from assms(2) obtain t where "t \<in> set (sd_threads d)" "waiting_row (envs (ri_Account it)) olderThan newer d it (f t)"
    unfolding waiting_item_def list_ex_iff same by (auto simp: d')
  with row assms(2) show ?thesis unfolding waiting_item_def list_ex_iff by metis
qed

text \<open>Which items a list holds.\<close>

lemma replyList_accounts:
  assumes "replyList intel_on dflt names envs marks p outgoing d = Some (Inr (items, full, d'))"
  shows "\<exists>as r. reply_accounts envs outgoing (sd_now d - rp_OlderThanDays p * 86400) (sd_now d - within_days (rp_WithinDays p) * 86400)
     (reply_limit (rp_Limit p)) as [] d = Some (r, d') \<and> items = sort_key (\<lambda>i. - ri_Days i) r"
  using assms unfolding replyList_def Let_def by (auto simp del: reply_accounts.simps split: if_splits option.splits)

lemma replyList_items:
  assumes "replyList intel_on dflt names envs marks p outgoing d = Some (Inr (items, full, d'))" "it \<in> set items"
  shows "\<exists>a d1 t. marks_answered d d1 \<and> t \<in> set (sd_threads d1) \<and>
     listed (envs a) a outgoing (sd_now d - rp_OlderThanDays p * 86400) (sd_now d - within_days (rp_WithinDays p) * 86400) d1 t it"
proof -
  from replyList_accounts [OF assms(1)] obtain "as" r
    where r: "reply_accounts envs outgoing (sd_now d - rp_OlderThanDays p * 86400) (sd_now d - within_days (rp_WithinDays p) * 86400)
      (reply_limit (rp_Limit p)) as [] d = Some (r, d')" and "items = sort_key (\<lambda>i. - ri_Days i) r" by blast
  with assms(2) have "it \<in> set r" by simp
  from accounts_items [OF r this] obtain a d1 n where "marks_answered d d1"
    "it \<in> set (reply_spec (envs a) a outgoing (sd_now d - rp_OlderThanDays p * 86400) (sd_now d - within_days (rp_WithinDays p) * 86400) n d1)"
    by auto
  with spec_listed show ?thesis by blast
qed

lemma replyList_length:
  assumes "replyList intel_on dflt names envs marks p outgoing d = Some (Inr (items, full, d'))"
  shows "length items \<le> reply_limit (rp_Limit p)"
proof -
  from replyList_accounts [OF assms] obtain "as" r
    where r: "reply_accounts envs outgoing (sd_now d - rp_OlderThanDays p * 86400) (sd_now d - within_days (rp_WithinDays p) * 86400)
      (reply_limit (rp_Limit p)) as [] d = Some (r, d')" and "items = sort_key (\<lambda>i. - ri_Days i) r" by blast
  then show ?thesis using accounts_length [OF r] by simp
qed

text \<open>C14: The list of mail that waits on the owner holds at most the asked number of items, and every one of them stands for a
  conversation whose newest message is incoming, addressed to the owner, unanswered in the database, the index and on the
  server, in the window of days, not held, no calendar mail, and from somebody the owner knows - unless a verdict
  model vouches - who is no automated sender.\<close>
theorem needs_reply_lists_waiting_mail:
  "case NeedsReply intel_on dflt names envs marks p d of
     Some (Inr (items, full, d')) \<Rightarrow>
       length items \<le> reply_limit (rp_Limit p) \<and>
       list_all (waiting_item envs (sd_now d - rp_OlderThanDays p * 86400) (sd_now d - within_days (rp_WithinDays p) * 86400) d) items
   | _ \<Rightarrow> True"
proof (cases "NeedsReply intel_on dflt names envs marks p d")
  case (Some r)
  show ?thesis
  proof (cases r)
    case (Inr x)
    obtain items full d' where x: "x = (items, full, d')" by (cases x)
    have l: "replyList intel_on dflt names envs marks p False d = Some (Inr (items, full, d'))"
      using Some Inr x by (simp add: NeedsReply_def)
    have "waiting_item envs (sd_now d - rp_OlderThanDays p * 86400) (sd_now d - within_days (rp_WithinDays p) * 86400) d it"
      if "it \<in> set items" for it
      using replyList_items [OF l that] listed_waits waiting_before by blast
    then show ?thesis using Some Inr x replyList_length [OF l] by (simp add: list_all_iff)
  qed (use Some in simp)
qed simp


section \<open>Dismissing\<close>

text \<open>What happens to the conversations after a dismissal: folders are scanned, lists are read, other conversations are
  dismissed, and anything else may happen that does not write the table. The rows that
  \<open>apply_identity\<close> deletes, when the counterpart turns out to be the owner, are left out.\<close>

inductive thread_step :: "string \<Rightarrow> int \<Rightarrow> state_db \<Rightarrow> state_db \<Rightarrow> bool" for a h where
  scanned: "thread_step a h d (scan_folder e v srcs after d)"
| listing: "replyList intel_on dflt names envs marks p outgoing d = Some (Inr (items, full, d')) \<Longrightarrow> thread_step a h d d'"
| dismissing: "(account_name dflt account, msg_hash hf tid) \<noteq> (a, h) \<Longrightarrow> thread_step a h d (snd (DismissReply hf dflt account tid d))"
| elsewhere: "sd_threads d' = sd_threads d \<Longrightarrow> thread_step a h d d'"

text \<open>The conversation has rows, and each remembers one of the given messages as dismissed.\<close>

definition remembers :: "string \<Rightarrow> int \<Rightarrow> int set \<Rightarrow> thread_row list \<Rightarrow> bool" where
  "remembers a h ks ts \<longleftrightarrow> (\<exists>t\<in>set ts. rt_account t = a \<and> rt_hash t = h) \<and>
     (\<forall>t\<in>set ts. rt_account t = a \<longrightarrow> rt_hash t = h \<longrightarrow> rt_dismissed t \<in> Some ` ks)"

lemma remembers_map:
  assumes "remembers a h ks ts" "\<And>t. rt_account (f t) = rt_account t \<and> rt_hash (f t) = rt_hash t"
    "\<And>t. rt_account t = a \<Longrightarrow> rt_hash t = h \<Longrightarrow> rt_dismissed (f t) = rt_dismissed t"
  shows "remembers a h ks (map f ts)"
  using assms by (fastforce simp: remembers_def)

lemma remembers_put:
  assumes "remembers a h ks (sd_threads d)"
  shows "remembers a h ks (sd_threads (put_thread t d))"
proof -
  let ?p = "\<lambda>r. rt_account r = rt_account t \<and> rt_hash r = rt_hash t"
  have keep: "rt_account (thread_merge t r) = rt_account r \<and> rt_hash (thread_merge t r) = rt_hash r \<and>
      rt_dismissed (thread_merge t r) = rt_dismissed r" for r by (simp add: thread_merge_def)
  show ?thesis
  proof (cases "list_ex ?p (sd_threads d)")
    case True
    have "remembers a h ks (map (\<lambda>r. if ?p r then thread_merge t r else r) (sd_threads d))"
      by (rule remembers_map [OF assms]) (simp_all add: keep)
    with True show ?thesis by (simp add: put_thread_def upsert_def upd_rows_def)
  next
    case False
    then have "\<not> (rt_account t = a \<and> rt_hash t = h)" using assms by (auto simp: remembers_def list_ex_iff)
    with False assms show ?thesis by (auto simp: put_thread_def upsert_def remembers_def)
  qed
qed

lemma profile_recipients_threads: "sd_threads (profile_recipients t own seen as d) = sd_threads d"
  by (induction t own seen as d rule: profile_recipients.induct) (simp_all add: profile_sent_def sender_upsert_def)

lemma record_findings_threads: "sd_threads (snd (record_findings account sender folder uid ref fs ids d)) = sd_threads d"
proof (induction fs arbitrary: ids d)
  case (Cons f fs)
  then show ?case by (auto simp: insert_anomaly_def split: prod.split option.split)
qed simp

lemma index_new_threads: "sd_threads (snd (index_new e hash h outgoing d)) = sd_threads d"
  by (simp add: index_new_def Let_def split_beta profile_def profile_received_def upd_index_def sender_upsert_def
      profile_recipients_threads check_message_def record_findings_threads owner_name_def split: option.split)

lemma locate_threads: "locate account hash folder k d = Some d' \<Longrightarrow> sd_threads d' = sd_threads d"
  by (auto simp: locate_def Let_def rescue_def upd_index_def split: option.splits if_splits)

lemma remembers_msg:
  "remembers a h ks (sd_threads d) \<Longrightarrow> remembers a h ks (sd_threads (thread_msg hf account folder hash m outgoing own d))"
  by (auto simp: thread_msg_def remembers_put split: option.split)

lemma remembers_headers:
  "apply_headers e hs st = Some st' \<Longrightarrow> remembers a h ks (sd_threads (snd st)) \<Longrightarrow> remembers a h ks (sd_threads (snd st'))"
proof (induction hs arbitrary: st)
  case (Cons x hs)
  from Cons.prems(1) obtain st1 where s: "apply_header e x st = Some st1" "apply_headers e hs st1 = Some st'"
    by (cases "apply_header e x st") auto
  have "remembers a h ks (sd_threads (snd st1))"
    using s(1) Cons.prems(2) index_new_threads
    by (auto simp: apply_header_def Let_def split_beta split: if_splits intro!: remembers_msg dest!: locate_threads)
  then show ?case by (rule Cons.IH [OF s(2)])
qed simp

lemma remembers_batch:
  assumes "apply_batch e v b d = Some (r, d1)" "remembers a h ks (sd_threads d)"
  shows "remembers a h ks (sd_threads d1)"
proof -
  from assms(1) obtain d2 where "apply_headers e (b_Headers b) (no_applied, d) = Some (r, d2)" "d1 = finish_batch e v b d2"
    by (auto simp: apply_batch_def)
  with remembers_headers [of e "b_Headers b" "(no_applied, d)" "(r, d2)" a h ks] assms(2) show ?thesis
    by (simp add: finish_batch_def Let_def)
qed

lemma reset_folder_threads: "sd_threads (reset_folder account folder v d) = sd_threads d"
  by (simp add: reset_folder_def)

lemma remembers_scan:
  "remembers a h ks (sd_threads d) \<Longrightarrow> remembers a h ks (sd_threads (scan_folder e v srcs after d))"
proof (induction e v srcs after d rule: scan_folder.induct)
  case (2 e v src srcs after d)
  show ?case
  proof (cases "src after")
    case None
    with 2 show ?thesis by simp
  next
    case b: (Some b)
    consider (reset) "v \<noteq> 0 \<and> b_UIDValidity b \<noteq> v"
      | (failed) "\<not> (v \<noteq> 0 \<and> b_UIDValidity b \<noteq> v)" "apply_batch e (b_UIDValidity b) b d = None"
      | (applied) r d1 where "\<not> (v \<noteq> 0 \<and> b_UIDValidity b \<noteq> v)" "apply_batch e (b_UIDValidity b) b d = Some (r, d1)" by force
    then show ?thesis
    proof cases
      case reset
      from "2.IH"(1) [OF b reset] "2.prems" reset b show ?thesis by (simp add: reset_folder_threads)
    next
      case failed
      have "scan_folder e v (src # srcs) after d = d" using b failed by auto
      with "2.prems" show ?thesis by simp
    next
      case applied
      have "remembers a h ks (sd_threads d1)" by (rule remembers_batch [OF applied(2) "2.prems"])
      with "2.IH"(2) [OF b applied(1,2) refl] b applied show ?thesis by auto
    qed
  qed
qed simp

lemma accounts_marks:
  "reply_accounts envs outgoing olderThan newer limit as items d = Some (r, d') \<Longrightarrow> marks_answered d d'"
proof (induction "as" arbitrary: items d)
  case (Cons x "as")
  then obtain ks d2 where k: "replyItems (envs x) x outgoing olderThan newer (limit - length items) d = Some (ks, d2)"
    by (auto split: option.splits)
  show ?case
  proof (cases "limit \<le> length (items @ ks)")
    case True
    with Cons.prems k show ?thesis using replyItems_marks [OF k] by simp
  next
    case False
    with Cons.prems k have "reply_accounts envs outgoing olderThan newer limit as (items @ ks) d2 = Some (r, d')" by simp
    from Cons.IH [OF this] show ?thesis by (rule marks_answered_trans [OF replyItems_marks [OF k]])
  qed
qed (simp add: marks_answered_refl)

lemma list_marks:
  "replyList intel_on dflt names envs marks p outgoing d = Some (Inr (items, full, d')) \<Longrightarrow> marks_answered d d'"
  using replyList_accounts [of intel_on dflt names envs marks p outgoing d items full d'] accounts_marks by blast

lemma remembers_marks:
  assumes "marks_answered d d'" "remembers a h ks (sd_threads d)"
  shows "remembers a h ks (sd_threads d')"
proof -
  from assms(1) obtain f where d': "d' = d\<lparr>sd_threads := map f (sd_threads d)\<rparr>"
    and f: "\<And>t. f t = t \<or> f t = t\<lparr>rt_answered := True\<rparr>" unfolding marks_answered_def by blast
  have "rt_account (f t) = rt_account t \<and> rt_hash (f t) = rt_hash t \<and> rt_dismissed (f t) = rt_dismissed t" for t
    using f [of t] by auto
  then show ?thesis using remembers_map [OF assms(2)] by (simp add: d')
qed

lemma remembers_step: "thread_step a h d d' \<Longrightarrow> remembers a h ks (sd_threads d) \<Longrightarrow> remembers a h ks (sd_threads d')"
proof (induction rule: thread_step.induct)
  case (dismissing dflt account hf tid d)
  let ?p = "\<lambda>t. rt_account t = account_name dflt account \<and> rt_hash t = msg_hash hf tid"
  have "remembers a h ks (map (\<lambda>t. if ?p t then t\<lparr>rt_dismissed := Some (rt_last_hash t)\<rparr> else t) (sd_threads d))"
    by (rule remembers_map [OF dismissing(2)]) (use dismissing(1) in auto)
  with dismissing(2) show ?case by (simp add: DismissReply_def Let_def upd_rows_def)
qed (auto simp: remembers_scan intro: remembers_marks [OF list_marks])

lemma remembers_steps: "(thread_step a h)\<^sup>*\<^sup>* d d' \<Longrightarrow> remembers a h ks (sd_threads d) \<Longrightarrow> remembers a h ks (sd_threads d')"
  by (induction rule: rtranclp_induct) (simp_all add: remembers_step)

lemma listed_row:
  assumes "listed e b outgoing olderThan newer d t it"
  shows "ri_Account it = rt_account t \<and> ri_Hash it = rt_hash t \<and> ri_LastHash it = rt_last_hash t \<and> rt_dismissed t \<noteq> Some (rt_last_hash t)"
proof -
  from assms obtain first where o: "open_thread b outgoing olderThan newer d t"
    and c: "candidate_of e b outgoing (sd_now d) d t = Some (it, first)" unfolding listed_def by auto
  then show ?thesis by (auto simp: candidate_item [OF c] reply_item_of_def open_thread_def)
qed

lemma remembers_dismissed:
  assumes "t0 \<in> set ts" "rt_account t0 = a" "rt_hash t0 = h"
  shows "remembers a h (rt_last_hash ` {t \<in> set ts. rt_account t = a \<and> rt_hash t = h})
    (upd_rows (\<lambda>t. rt_account t = a \<and> rt_hash t = h) (\<lambda>t. t\<lparr>rt_dismissed := Some (rt_last_hash t)\<rparr>) ts)"
proof -
  define f :: "thread_row \<Rightarrow> thread_row" where "f t = (if rt_account t = a \<and> rt_hash t = h then t\<lparr>rt_dismissed := Some (rt_last_hash t)\<rparr> else t)" for t
  have f: "rt_account (f t) = rt_account t" "rt_hash (f t) = rt_hash t"
    "rt_account t = a \<Longrightarrow> rt_hash t = h \<Longrightarrow> rt_dismissed (f t) = Some (rt_last_hash t)" for t by (simp_all add: f_def)
  have "f t0 \<in> set (map f ts)" using assms(1) by simp
  moreover have "rt_dismissed t \<in> Some ` rt_last_hash ` {t \<in> set ts. rt_account t = a \<and> rt_hash t = h}"
    if t: "t \<in> set (map f ts)" "rt_account t = a" "rt_hash t = h" for t
  proof -
    from t(1) obtain x where "x \<in> set ts" "t = f x" by auto
    with t(2,3) f [of x] show ?thesis by simp
  qed
  ultimately have "remembers a h (rt_last_hash ` {t \<in> set ts. rt_account t = a \<and> rt_hash t = h}) (map f ts)"
    using assms(2,3) f(1,2) [of t0] unfolding remembers_def by blast
  then show ?thesis unfolding upd_rows_def f_def .
qed

text \<open>C38: A dismissed conversation stays away: whatever the scanner finds, whichever lists are read and whichever other
  conversations are dismissed afterwards, a list shows it again only with another newest message than the one it had
  when it was dismissed. The scanner deleting the conversation, because its counterpart is declared to be the owner,
  is not among the steps.\<close>
theorem dismissed_stays_away:
  assumes "DismissReply hf dflt account tid d = (None, d1)"
    and "(thread_step (account_name dflt account) (msg_hash hf tid))\<^sup>*\<^sup>* d1 d2"
    and "replyList intel_on dflt' names envs marks p outgoing d2 = Some (Inr (items, full, d3))"
  shows "list_all (\<lambda>it. list_ex (\<lambda>t. rt_account t = ri_Account it \<and> rt_hash t = ri_Hash it \<and> rt_last_hash t \<noteq> ri_LastHash it) (sd_threads d))
    (filter (\<lambda>it. ri_Account it = account_name dflt account \<and> ri_Hash it = msg_hash hf tid) items)"
proof -
  let ?a = "account_name dflt account" and ?h = "msg_hash hf tid"
  let ?ks = "rt_last_hash ` {t \<in> set (sd_threads d). rt_account t = ?a \<and> rt_hash t = ?h}"
  have "remembers ?a ?h ?ks (sd_threads d1)"
    using assms(1) by (auto simp: DismissReply_def Let_def list_ex_iff split: if_splits intro!: remembers_dismissed)
  then have r2: "remembers ?a ?h ?ks (sd_threads d2)" by (rule remembers_steps [OF assms(2)])
  have "\<exists>t\<in>set (sd_threads d). rt_account t = ?a \<and> rt_hash t = ?h \<and> rt_last_hash t \<noteq> ri_LastHash it"
    if "it \<in> set items" "ri_Account it = ?a" "ri_Hash it = ?h" for it
  proof -
    from replyList_items [OF assms(3) that(1)] obtain b d4 t olderThan newer where m: "marks_answered d2 d4" "t \<in> set (sd_threads d4)"
      "listed (envs b) b outgoing olderThan newer d4 t it" by blast
    from remembers_marks [OF m(1) r2] m(2) listed_row [OF m(3)] that(2,3) have "rt_dismissed t \<in> Some ` ?ks"
      "rt_dismissed t \<noteq> Some (ri_LastHash it)" by (auto simp: remembers_def)
    then show ?thesis by auto
  qed
  then show ?thesis by (auto simp: list_all_iff list_ex_iff)
qed

section \<open>The text that stops the check\<close>

lemma cut_bound:
  "fold (\<lambda>m c. case str_index low m of None \<Rightarrow> c | Some i \<Rightarrow> min i c) ms n \<le> n"
proof (induction ms arbitrary: n)
  case (Cons m ms)
  have "(case str_index low m of None \<Rightarrow> n | Some i \<Rightarrow> min i n) \<le> n" by (simp split: option.split)
  with Cons.IH [of "case str_index low m of None \<Rightarrow> n | Some i \<Rightarrow> min i n"] show ?case by simp
qed simp

text \<open>Lower-casing that does not lengthen the text, as on ASCII, never panics.\<close>

lemma own_note_returns: "length (lower text) \<le> length text \<Longrightarrow> hasOwnNote lower text \<noteq> None"
  using cut_bound [of "lower text" forwardMarkers "length (lower text)"] by (simp add: hasOwnNote_def Let_def)


text \<open>U+023A is two bytes and its lower case U+2C65 is three: what \<open>strings.ToLower\<close> does with it.\<close>

definition go_lower :: "string \<Rightarrow> string" where
  "go_lower s = replace_all [CHR 0xC8, CHR 0xBA] [CHR 0xE2, CHR 0xB1, CHR 0xA5] (to_lower s)"

definition sample_row :: thread_row where
  "sample_row = \<lparr>rt_account = ''work'', rt_hash = 7, rt_thread_id = ''<t@a>'', rt_last_hash = 8, rt_last_date = 432000, rt_outgoing = False,
     rt_direct = True, rt_counterpart = ''ann@b.com'', rt_subject = ''Fwd: plan'', rt_ref = ''<m@a>'', rt_folder = ''INBOX'', rt_uid = 5,
     rt_answered = False, rt_dismissed = None\<rparr>"

definition waiting_db :: state_db where
  "waiting_db = empty_state\<lparr>sd_now := 864000, sd_senders := [(new_sender_row 1 ''ann@b.com'' ''b.com'')\<lparr>sn_sent := 1\<rparr>], sd_threads := [sample_row]\<rparr>"

definition sample_reply_env :: "string \<Rightarrow> string \<Rightarrow> reply_env" where
  "sample_reply_env text a = \<lparr>re_lower = go_lower, re_hash = (\<lambda>s. int (length s)), re_cache = None, re_live = (\<lambda>f u. None),
     re_body = (\<lambda>f u. Some (text, [])), re_gate = None, re_me = [], re_gone = [], re_verdict = None\<rparr>"

text \<open>One forward stops the list: where the text of its message gets longer in lower case, slicing the text at the end of the
  lower-case text panics, and the request has no list. With plain text the same conversation is listed.\<close>
theorem forward_text_stops_list:
  "NeedsReply True ''work'' [''work''] (sample_reply_env [CHR 0xC8, CHR 0xBA]) (\<lambda>_. []) \<lparr>rp_Account = [], rp_OlderThanDays = 2, rp_WithinDays = 0, rp_Limit = 0\<rparr> waiting_db = None \<and>
   map_option (map_sum id (map ri_Hash \<circ> fst)) (NeedsReply True ''work'' [''work''] (sample_reply_env ''see below'') (\<lambda>_. [])
     \<lparr>rp_Account = [], rp_OlderThanDays = 2, rp_WithinDays = 0, rp_Limit = 0\<rparr> waiting_db) = Some (Inr [7])"
  by code_simp

text \<open>A conversation is dismissed, then a newer message of it arrives: it is listed again, for that message.\<close>

definition sample_length :: "string \<Rightarrow> int" where "sample_length s = int (length s)"

definition newer_scan :: scan_env where
  "newer_scan = scan_env.make sample_length ''work'' ''INBOX'' [''me@x.org''] None
     \<lparr>ac_authMinPasses = 1, ac_silenceMinMessages = 2, ac_silenceMinDays = 1, ac_spikeMin = 1, ac_spikeFactor = 1\<rparr> None"

definition newer_batch :: batch where
  "newer_batch = \<lparr>b_UIDValidity = 7,
     b_Headers = [\<lparr>h_UID = 6, h_Date = 500000 * ns_per_sec, h_MessageID = ''m@b.com.second'', h_InReplyTo = [], h_Subject = ''Re: plan'',
       h_From = \<lparr>ad_Name = [], ad_Addr = ''ann@b.com''\<rparr>, h_ReplyTo = \<lparr>ad_Name = [], ad_Addr = []\<rparr>,
       h_To = [\<lparr>ad_Name = [], ad_Addr = ''me@x.org''\<rparr>], h_Cc = [], h_Answered = False,
       h_List = False, h_Bulk = False, h_Auto = False, h_DKIM = [], h_DMARC = [], h_References = [''1234567'']\<rparr>],
     b_More = False\<rparr>"

definition dismissed_db :: state_db where
  "dismissed_db = snd (DismissReply sample_length ''work'' [] ''1234567'' waiting_db)"

definition newer_db :: state_db where
  "newer_db = scan_folder newer_scan 0 [\<lambda>_. Some newer_batch] 0 dismissed_db"

definition listed_keys :: "state_db \<Rightarrow> (int \<times> int) list option" where
  "listed_keys d = (case NeedsReply True ''work'' [''work''] (sample_reply_env ''see below'') (\<lambda>_. [])
     \<lparr>rp_Account = [], rp_OlderThanDays = 2, rp_WithinDays = 0, rp_Limit = 0\<rparr> d of
       Some (Inr (items, full, d')) \<Rightarrow> Some (map (\<lambda>it. (ri_Hash it, ri_LastHash it)) items)
     | _ \<Rightarrow> None)"

theorem dismissed_stays_away_witness:
  "listed_keys waiting_db = Some [(7, 8)] \<and> listed_keys dismissed_db = Some [] \<and> listed_keys newer_db = Some [(7, 14)] \<and>
   (case replyList True ''work'' [''work''] (sample_reply_env ''see below'') (\<lambda>_. [])
       \<lparr>rp_Account = [], rp_OlderThanDays = 2, rp_WithinDays = 0, rp_Limit = 0\<rparr> False newer_db of
      Some (Inr (items, full, d')) \<Rightarrow>
        list_all (\<lambda>it. list_ex (\<lambda>t. rt_account t = ri_Account it \<and> rt_hash t = ri_Hash it \<and> rt_last_hash t \<noteq> ri_LastHash it) [sample_row])
          (filter (\<lambda>it. ri_Account it = ''work'' \<and> ri_Hash it = 7) items)
    | _ \<Rightarrow> False)"
proof -
  let ?p = "\<lparr>rp_Account = [], rp_OlderThanDays = 2, rp_WithinDays = 0, rp_Limit = 0\<rparr>"
  have keys: "listed_keys waiting_db = Some [(7, 8)]" "listed_keys dismissed_db = Some []" "listed_keys newer_db = Some [(7, 14)]"
    by code_simp+
  have d: "DismissReply sample_length ''work'' [] ''1234567'' waiting_db = (None, dismissed_db)"
  proof -
    have "fst (DismissReply sample_length ''work'' [] ''1234567'' waiting_db) = None" by code_simp
    then show ?thesis by (simp add: dismissed_db_def prod_eq_iff)
  qed
  have key: "account_name ''work'' [] = ''work''" "msg_hash sample_length ''1234567'' = 7" by code_simp+
  have "thread_step ''work'' 7 dismissed_db newer_db" unfolding newer_db_def by (rule thread_step.scanned)
  then have steps: "(thread_step (account_name ''work'' []) (msg_hash sample_length ''1234567''))\<^sup>*\<^sup>* dismissed_db newer_db"
    unfolding key by (rule r_into_rtranclp)
  obtain items full d' where l: "replyList True ''work'' [''work''] (sample_reply_env ''see below'') (\<lambda>_. []) ?p False newer_db = Some (Inr (items, full, d'))"
    using keys(3) by (auto simp: listed_keys_def NeedsReply_def split: option.splits sum.splits)
  have "sd_threads waiting_db = [sample_row]" by (simp add: waiting_db_def)
  with dismissed_stays_away [OF d steps l] keys show ?thesis unfolding key by (simp only: l option.case sum.case prod.case simp_thms)
qed

end
