(* ===== verification/Screen_Mail.thy ===== *)
theory Screen_Mail
  imports Screener Threads Trust
begin

text \<open>
  Deciding held senders by mail (\<open>internal/service/screenmail.go\<close>): replies to the digest that carry its
  token, and the command of the inbound channel. What was read from the inbox in a tick, the reading of JSON and the
  mail server are parameters; a confirmation is kept as data, not as text.
\<close>

section \<open>Digests and replies\<close>

record screen_digest =
  sg_id :: int
  sg_account :: string
  sg_ref :: string
  sg_token :: string
  sg_numbering :: "string list"
  sg_used :: "int option"

datatype reply_status = StatusOk | StatusError | NotLatest | TokenUsed | NotOwner | AuthMissing | TokenMissing

record reply_row =
  sp_account :: string
  sp_uid :: nat
  sp_status :: reply_status
  sp_created :: int

text \<open>The state database with the tables of this part.\<close>

record screen_db =
  xd_db :: state_db
  xd_digests :: "screen_digest list"
  xd_replies :: "reply_row list"

text \<open>The newest digest of an account with held senders; ids ascend.\<close>

definition latestScreenDigest :: "string \<Rightarrow> screen_db \<Rightarrow> screen_digest option" where
  "latestScreenDigest account d =
     (case rev (filter (\<lambda>g. sg_account g = account) (xd_digests d)) of [] \<Rightarrow> None | g # gs \<Rightarrow> Some g)"

record screen_reply =
  sy_uid :: nat
  sy_from :: string
  sy_inReplyTo :: string
  sy_authRes :: "string list"
  sy_text :: string

text \<open>A message found in the inbox: its envelope, whether it has a body, its header when that can be read.\<close>

record inbox_msg =
  ib_uid :: nat
  ib_From :: "string list"
  ib_InReplyTo :: "string list"
  ib_body :: bool
  ib_header :: "(string list \<times> string list) option"   \<comment> \<open>Authentication-Results, References\<close>
  ib_text :: string

definition screen_reply_of :: "inbox_msg \<Rightarrow> screen_reply option" where
  "screen_reply_of m =
     (case ib_From m of
        [] \<Rightarrow> None
      | a # as \<Rightarrow>
          (if \<not> ib_body m then None
           else (let re = str_join '' '' (ib_InReplyTo m) in
             Some \<lparr>sy_uid = ib_uid m, sy_from = to_lower a,
               sy_inReplyTo = (case ib_header m of None \<Rightarrow> re | Some (ar, refs) \<Rightarrow> if re = [] then str_join '' '' refs else re),
               sy_authRes = (case ib_header m of None \<Rightarrow> [] | Some (ar, refs) \<Rightarrow> ar), sy_text = ib_text m\<rparr>)))"

text \<open>The newest fifty of the messages the search found.\<close>

definition screenReplies :: "inbox_msg list \<Rightarrow> screen_reply list" where
  "screenReplies ms = List.map_filter screen_reply_of (drop (length ms - 50) ms)"

section \<open>Whether a reply counts\<close>

definition authPass :: "string list \<Rightarrow> string \<Rightarrow> bool" where
  "authPass results method = list_ex (\<lambda>v. str_contains (to_lower v) (method @ ''=pass'')) results"

definition screenReplyStatus :: "screen_reply \<Rightarrow> screen_digest \<Rightarrow> string \<Rightarrow> reply_status" where
  "screenReplyStatus r g owner =
     (if \<not> str_contains (sy_inReplyTo r) (trim_angle (sg_ref g)) then NotLatest
      else if sg_used g \<noteq> None then TokenUsed
      else if \<not> equal_fold (sy_from r) owner then NotOwner
      else if \<not> authPass (sy_authRes r) ''dkim'' \<or> \<not> authPass (sy_authRes r) ''dmarc'' then AuthMissing
      else if \<not> str_contains (sy_text r) (sg_token g) then TokenMissing
      else StatusOk)"

section \<open>The confirmation\<close>

datatype confirm_line =
    NotDone string screen_error
  | ApprovedLine string nat string "screen_rule option"
  | BlockedLine string nat string "screen_rule option"
  | NotUnderstood string
  | NoCommands

record confirmation =
  cf_Owner :: string
  cf_Approved :: nat
  cf_Blocked :: nat
  cf_Lines :: "confirm_line list"

definition confirm_outcome :: "outcome \<Rightarrow> confirm_line" where
  "confirm_outcome oc =
     (case oc_Error oc of
        Some e \<Rightarrow> NotDone (oc_Sender oc) e
      | None \<Rightarrow>
          (if oc_Action oc = ''approve'' then ApprovedLine (oc_Sender oc) (oc_Moved oc) (oc_Folder oc) (oc_Rule oc)
           else BlockedLine (oc_Sender oc) (oc_Moved oc) (oc_Folder oc) (oc_Rule oc)))"

definition screenConfirm :: "string \<Rightarrow> screen_result \<Rightarrow> string list \<Rightarrow> confirmation" where
  "screenConfirm owner res bad =
     (let ok = (\<lambda>a. length (filter (\<lambda>oc. oc_Error oc = None \<and> (oc_Action oc = ''approve'') = a) (re_Outcomes res)));
          ls = map confirm_outcome (re_Outcomes res) @ map NotUnderstood bad in
      \<lparr>cf_Owner = owner, cf_Approved = ok True, cf_Blocked = ok False, cf_Lines = (if ls = [] then [NoCommands] else ls)\<rparr>)"

record 'm reply_server = "'m screen_server" +
  rs_append :: "string \<Rightarrow> confirmation \<Rightarrow> 'm \<Rightarrow> 'm"

definition append_confirm :: "'m reply_server \<Rightarrow> string \<Rightarrow> confirmation \<Rightarrow> 'm \<Rightarrow> 'm" where
  "append_confirm s account c w =
     (case ms_resolve (mail_server.truncate s) account w of None \<Rightarrow> w | Some a \<Rightarrow> rs_append s a c w)"

definition markReplyHandled :: "'m reply_server \<Rightarrow> string \<Rightarrow> nat \<Rightarrow> 'm \<Rightarrow> 'm" where
  "markReplyHandled s account uid w =
     (case ms_resolve (mail_server.truncate s) account w of
        None \<Rightarrow> w
      | Some a \<Rightarrow>
          (if \<not> ms_select (mail_server.truncate s) a ''INBOX'' w then w
           else snd (ms_store (mail_server.truncate s) a ''INBOX'' [uid] [backslash # ''Seen'', backslash # ''Answered''] w)))"

section \<open>A tick\<close>

record screen_env =
  ye_pa :: "string \<Rightarrow> string option"
  ye_service :: service
  ye_cfg :: screen_cfg
  ye_accounts :: "(string \<times> string) list"   \<comment> \<open>name and user name\<close>
  ye_inbox :: "string \<Rightarrow> inbox_msg list option"   \<comment> \<open>what the inbox gives in this tick\<close>

definition record_reply :: "string \<Rightarrow> nat \<Rightarrow> reply_status \<Rightarrow> screen_db \<Rightarrow> screen_db" where
  "record_reply account uid status d =
     d\<lparr>xd_replies := (if list_ex (\<lambda>r. sp_account r = account \<and> sp_uid r = uid) (xd_replies d) then xd_replies d
        else xd_replies d @ [\<lparr>sp_account = account, sp_uid = uid, sp_status = status, sp_created = sd_now (xd_db d)\<rparr>])\<rparr>"

definition use_digest :: "int \<Rightarrow> screen_db \<Rightarrow> screen_db" where
  "use_digest i d = d\<lparr>xd_digests := upd_rows (\<lambda>g. sg_id g = i) (\<lambda>g. g\<lparr>sg_used := Some (sd_now (xd_db d))\<rparr>) (xd_digests d)\<rparr>"

definition decide_reply ::
  "'m reply_server \<Rightarrow> screen_env \<Rightarrow> string \<Rightarrow> string \<Rightarrow> screen_digest \<Rightarrow> screen_reply \<Rightarrow> screen_db \<Rightarrow> 'm \<Rightarrow> reply_status \<times> screen_db \<times> 'm" where
  "decide_reply s e account owner g r d w =
     (let (xs, bad) = ParseScreenCommands (sy_text r) (sg_numbering g) in
      case Screen (ye_pa e) (screen_server.truncate s) (ye_service e) (ye_cfg e) account True ''email-token'' xs (xd_db d) w of
        (Inl _, d1, w1) \<Rightarrow> (StatusError, d\<lparr>xd_db := d1\<rparr>, w1)
      | (Inr res, d1, w1) \<Rightarrow> (StatusOk, use_digest (sg_id g) (d\<lparr>xd_db := d1\<rparr>), append_confirm s account (screenConfirm owner res bad) w1))"

definition handle_reply ::
  "'m reply_server \<Rightarrow> screen_env \<Rightarrow> string \<Rightarrow> string \<Rightarrow> screen_digest \<Rightarrow> screen_reply \<Rightarrow> screen_db \<times> 'm \<Rightarrow> screen_db \<times> 'm" where
  "handle_reply s e account owner g r st =
     (case st of (d, w) \<Rightarrow>
        (if \<not> str_contains (sy_inReplyTo r) ''@imap-mcp.invalid'' then (d, w)
         else if list_ex (\<lambda>x. sp_account x = account \<and> sp_uid x = sy_uid r) (xd_replies d) then (d, w)
         else (case (if screenReplyStatus r g owner = StatusOk then decide_reply s e account owner g r d w
                     else (screenReplyStatus r g owner, d, w)) of
             (status, d1, w1) \<Rightarrow> (record_reply account (sy_uid r) status d1, markReplyHandled s account (sy_uid r) w1))))"

text \<open>The digest is read once for all replies of the account. \<open>None\<close> in the inbox ends the tick with an error.\<close>

fun reply_tick ::
  "'m reply_server \<Rightarrow> screen_env \<Rightarrow> (string \<times> string) list \<Rightarrow> screen_db \<times> 'm \<Rightarrow> bool \<times> screen_db \<times> 'm" where
  "reply_tick s e [] st = (True, st)"
| "reply_tick s e ((name, user) # as) st =
     (let owner = bareAddr user in
      if owner = [] then reply_tick s e as st
      else (case latestScreenDigest name (fst st) of
          None \<Rightarrow> reply_tick s e as st
        | Some g \<Rightarrow>
            (case ye_inbox e name of
               None \<Rightarrow> (False, st)
             | Some ms \<Rightarrow> reply_tick s e as (fold (handle_reply s e name owner g) (screenReplies ms) st))))"

definition ScreenReplyTick :: "'m reply_server \<Rightarrow> screen_env \<Rightarrow> screen_db \<times> 'm \<Rightarrow> bool \<times> screen_db \<times> 'm" where
  "ScreenReplyTick s e st = reply_tick s e (ye_accounts e) st"

section \<open>Modes\<close>

definition EmailMode :: "string \<Rightarrow> string" where
  "EmailMode cmds = (let m = to_lower (trim_space cmds) in if m = [] then ''off'' else m)"

text \<open>The loop of \<open>RunScreenReplies\<close>: one tick before each wait, each with what the world holds then.\<close>

definition RunScreenReplies :: "string \<Rightarrow> 'm reply_server \<Rightarrow> screen_env list \<Rightarrow> screen_db \<times> 'm \<Rightarrow> screen_db \<times> 'm" where
  "RunScreenReplies mode s es st =
     (if EmailMode mode \<noteq> ''token'' then st else fold (\<lambda>e st. snd (ScreenReplyTick s e st)) es st)"

record screen_args =
  sa_Account :: string
  sa_Commands :: string
  sa_Decisions :: "screen_decision list"

definition HandleInboundScreen ::
  "(string \<Rightarrow> screen_args option) \<Rightarrow> string \<Rightarrow> string \<Rightarrow> 'm reply_server \<Rightarrow> screen_env \<Rightarrow> string \<Rightarrow> verified_command option \<Rightarrow> screen_db \<times> 'm \<Rightarrow> screen_db \<times> 'm" where
  "HandleInboundScreen json mode dflt s e ev_account payload st =
     (case (st, payload) of
        ((d, w), Some vc) \<Rightarrow>
          (if EmailMode mode \<noteq> ''hmac'' \<or> \<not> equal_fold (cmd_Verb (vc_Command vc)) ''screen'' then (d, w)
           else (case json (cmd_Args (vc_Command vc)) of
               None \<Rightarrow> (d, w)
             | Some args \<Rightarrow>
                 (let account = account_name dflt (if sa_Account args = [] then ev_account else sa_Account args) in
                  case (if sa_Commands args = [] then Some (sa_Decisions args, [])
                        else (case latestScreenDigest account d of
                            None \<Rightarrow> None
                          | Some g \<Rightarrow> Some (ParseScreenCommands (map (\<lambda>c. if c = CHR '';'' then newline_char else c) (sa_Commands args)) (sg_numbering g)))) of
                    None \<Rightarrow> (d, w)
                  | Some (xs, bad) \<Rightarrow>
                      (case Screen (ye_pa e) (screen_server.truncate s) (ye_service e) (ye_cfg e) account True ''email-hmac'' xs (xd_db d) w of
                         (Inl _, d1, w1) \<Rightarrow> (d\<lparr>xd_db := d1\<rparr>, w1)
                       | (Inr res, d1, w1) \<Rightarrow>
                           (d\<lparr>xd_db := d1\<rparr>,
                            append_confirm s account (screenConfirm (case find (\<lambda>a. fst a = account) (rev (ye_accounts e)) of
                                None \<Rightarrow> [] | Some a \<Rightarrow> bareAddr (snd a)) res bad) w1)))))
      | _ \<Rightarrow> st)"

end
