(* ===== verification/Screen_Mail_Props.thy ===== *)
theory Screen_Mail_Props
  imports Screen_Mail Screener_Props
begin

text \<open>
  What mail can decide: only a reply that passes every check, each reply once, and a signed command only where its
  account's gates hold - and how these checks fall short of their description.
\<close>

section \<open>What a tick keeps\<close>

text \<open>Digests are only ever marked as used, and the rows of handled replies stay.\<close>

definition later_screen :: "screen_db \<Rightarrow> screen_db \<Rightarrow> bool" where
  "later_screen d d' =
     ((\<exists>f. xd_digests d' = map f (xd_digests d) \<and> (\<forall>g. f g = g \<or> (\<exists>t. f g = g\<lparr>sg_used := Some t\<rparr>))) \<and>
      set (xd_replies d) \<subseteq> set (xd_replies d'))"

lemma later_refl: "later_screen d d"
  unfolding later_screen_def by (intro conjI exI [of _ id]) simp_all

lemma later_trans:
  assumes "later_screen d d1" "later_screen d1 d2"
  shows "later_screen d d2"
proof -
  from assms obtain f g where m: "xd_digests d1 = map f (xd_digests d)" "xd_digests d2 = map g (xd_digests d1)"
    and f: "\<forall>x. f x = x \<or> (\<exists>t. f x = x\<lparr>sg_used := Some t\<rparr>)" and g: "\<forall>x. g x = x \<or> (\<exists>t. g x = x\<lparr>sg_used := Some t\<rparr>)"
    and r: "set (xd_replies d) \<subseteq> set (xd_replies d2)"
    unfolding later_screen_def by blast
  have "(g \<circ> f) x = x \<or> (\<exists>t. (g \<circ> f) x = x\<lparr>sg_used := Some t\<rparr>)" for x
    using f [rule_format, of x] g [rule_format, of "f x"] by auto
  then show ?thesis using m r unfolding later_screen_def by (intro conjI exI [of _ "g \<circ> f"]) auto
qed

lemma latest_later:
  assumes "later_screen d d'" "latestScreenDigest a d' = Some g'"
  shows "\<exists>g. latestScreenDigest a d = Some g \<and> (g' = g \<or> sg_used g' \<noteq> None)"
proof -
  from assms(1) obtain f where m: "xd_digests d' = map f (xd_digests d)" and f: "\<And>x. f x = x \<or> (\<exists>t. f x = x\<lparr>sg_used := Some t\<rparr>)"
    unfolding later_screen_def by blast
  have "sg_account (f x) = sg_account x" for x using f [of x] by auto
  then have "filter (\<lambda>g. sg_account g = a) (map f (xd_digests d)) = map f (filter (\<lambda>g. sg_account g = a) (xd_digests d))"
    by (simp add: filter_map comp_def)
  then have "latestScreenDigest a d' = map_option f (latestScreenDigest a d)"
    by (simp add: latestScreenDigest_def m rev_map split: list.split)
  with assms(2) obtain g where "latestScreenDigest a d = Some g" "g' = f g" by auto
  with f [of g] show ?thesis by auto
qed

definition handled :: "string \<Rightarrow> screen_reply \<Rightarrow> screen_db \<Rightarrow> bool" where
  "handled a r d = list_ex (\<lambda>x. sp_account x = a \<and> sp_uid x = sy_uid r) (xd_replies d)"

lemma handled_later: "later_screen d d' \<Longrightarrow> handled a r d \<Longrightarrow> handled a r d'"
  by (auto simp: later_screen_def handled_def list_ex_iff)

section \<open>One reply\<close>

lemma decide_reply_keeps:
  assumes "decide_reply s e a owner g r d w = (status, d', w')"
  shows "later_screen d d' \<and> xd_replies d' = xd_replies d"
proof -
  obtain xs bad where p: "ParseScreenCommands (sy_text r) (sg_numbering g) = (xs, bad)" by fastforce
  obtain res d1 w1 where c: "Screen (ye_pa e) (screen_server.truncate s) (ye_service e) (ye_cfg e) a True ''email-token'' xs (xd_db d) w = (res, d1, w1)"
    by (cases "Screen (ye_pa e) (screen_server.truncate s) (ye_service e) (ye_cfg e) a True ''email-token'' xs (xd_db d) w") auto
  show ?thesis
  proof (cases res)
    case (Inl x)
    with assms p c have "d' = d\<lparr>xd_db := d1\<rparr>" by (simp add: decide_reply_def)
    then show ?thesis using later_refl [of d] by (simp add: later_screen_def)
  next
    case (Inr x)
    with assms p c have d': "d' = use_digest (sg_id g) (d\<lparr>xd_db := d1\<rparr>)" by (simp add: decide_reply_def)
    show ?thesis unfolding d' later_screen_def use_digest_def upd_rows_def
      by (intro conjI exI [of _ "\<lambda>x. if sg_id x = sg_id g then x\<lparr>sg_used := Some (sd_now d1)\<rparr> else x"]) auto
  qed
qed

lemma record_reply_later: "later_screen d (record_reply a u status d)"
  using later_refl [of d] by (auto simp: later_screen_def record_reply_def)

lemma handle_reply_keeps:
  assumes "handle_reply s e a owner g r (d, w) = (d', w')"
  shows "later_screen d d' \<and> (xd_db d' = xd_db d \<or> (screenReplyStatus r g owner = StatusOk \<and> \<not> handled a r d))"
proof -
  consider "(d', w') = (d, w)"
    | status d1 w1 where "\<not> handled a r d" "d' = record_reply a (sy_uid r) status d1"
        "(if screenReplyStatus r g owner = StatusOk then decide_reply s e a owner g r d w else (screenReplyStatus r g owner, d, w)) = (status, d1, w1)"
    using assms by (auto simp: handle_reply_def handled_def split: if_splits prod.splits)
  then show ?thesis
  proof cases
    case 1
    then show ?thesis by (simp add: later_refl)
  next
    case 2
    show ?thesis
    proof (cases "screenReplyStatus r g owner = StatusOk")
      case True
      with 2 have "later_screen d d1" using decide_reply_keeps by (metis (mono_tags, lifting))
      then show ?thesis using 2 True later_trans [OF _ record_reply_later] by blast
    next
      case False
      with 2 show ?thesis using record_reply_later [of d a "sy_uid r" status] by (simp add: record_reply_def)
    qed
  qed
qed

lemma handle_replies_keep:
  "fold (handle_reply s e a owner g) rs (d, w) = (d', w') \<Longrightarrow>
   later_screen d d' \<and> (xd_db d' = xd_db d \<or> list_ex (\<lambda>r. screenReplyStatus r g owner = StatusOk \<and> \<not> handled a r d) rs)"
proof (induction rs arbitrary: d w)
  case (Cons r rs)
  obtain d1 w1 where h: "handle_reply s e a owner g r (d, w) = (d1, w1)" by fastforce
  with Cons.prems have "fold (handle_reply s e a owner g) rs (d1, w1) = (d', w')" by simp
  from Cons.IH [OF this] have i: "later_screen d1 d'"
    "xd_db d' = xd_db d1 \<or> list_ex (\<lambda>r. screenReplyStatus r g owner = StatusOk \<and> \<not> handled a r d1) rs" by simp_all
  note k = handle_reply_keeps [OF h]
  have "list_ex (\<lambda>r. screenReplyStatus r g owner = StatusOk \<and> \<not> handled a r d1) rs \<Longrightarrow>
      list_ex (\<lambda>r. screenReplyStatus r g owner = StatusOk \<and> \<not> handled a r d) rs"
    using k handled_later [of d d1] by (auto simp: list_ex_iff)
  with i k show ?case using later_trans [of d d1 d'] by auto
qed (simp add: later_refl)

section \<open>A tick\<close>

text \<open>An account for which some reply may decide: it answers the latest digest, which was not used, and passes every check.\<close>

definition may_decide :: "screen_env \<Rightarrow> screen_db \<Rightarrow> string \<times> string \<Rightarrow> bool" where
  "may_decide e d au =
     (case (latestScreenDigest (fst au) d, ye_inbox e (fst au)) of
        (Some g, Some ms) \<Rightarrow>
          list_ex (\<lambda>r. \<not> handled (fst au) r d \<and> str_contains (sy_inReplyTo r) (trim_angle (sg_ref g)) \<and> sg_used g = None \<and>
             equal_fold (sy_from r) (bareAddr (snd au)) \<and> authPass (sy_authRes r) ''dkim'' \<and> authPass (sy_authRes r) ''dmarc'' \<and>
             str_contains (sy_text r) (sg_token g)) (screenReplies ms)
      | _ \<Rightarrow> False)"

lemma status_ok:
  "screenReplyStatus r g owner = StatusOk \<longleftrightarrow>
     str_contains (sy_inReplyTo r) (trim_angle (sg_ref g)) \<and> sg_used g = None \<and> equal_fold (sy_from r) owner \<and>
     authPass (sy_authRes r) ''dkim'' \<and> authPass (sy_authRes r) ''dmarc'' \<and> str_contains (sy_text r) (sg_token g)"
  by (auto simp: screenReplyStatus_def)

lemma may_decide_earlier:
  assumes "later_screen d d'" "may_decide e d' au"
  shows "may_decide e d au"
proof -
  from assms(2) obtain g' ms where l: "latestScreenDigest (fst au) d' = Some g'" and ms: "ye_inbox e (fst au) = Some ms"
    and ex: "list_ex (\<lambda>r. \<not> handled (fst au) r d' \<and> str_contains (sy_inReplyTo r) (trim_angle (sg_ref g')) \<and> sg_used g' = None \<and>
             equal_fold (sy_from r) (bareAddr (snd au)) \<and> authPass (sy_authRes r) ''dkim'' \<and> authPass (sy_authRes r) ''dmarc'' \<and>
             str_contains (sy_text r) (sg_token g')) (screenReplies ms)"
    by (auto simp: may_decide_def split: option.splits)
  from latest_later [OF assms(1) l] ex have g: "latestScreenDigest (fst au) d = Some g'" by (auto simp: list_ex_iff)
  with ms ex handled_later [OF assms(1)] show ?thesis by (auto simp: may_decide_def list_ex_iff)
qed

lemma reply_tick_keeps:
  "reply_tick s e as (d, w) = (ok, d', w') \<Longrightarrow>
   later_screen d d' \<and> (xd_db d' = xd_db d \<or> list_ex (may_decide e d) as)"
proof (induction "as" arbitrary: d w)
  case (Cons au "as")
  obtain name user where au: "au = (name, user)" by (cases au)
  show ?case
  proof (cases "bareAddr user = [] \<or> latestScreenDigest name d = None")
    case True
    with Cons.prems have "reply_tick s e as (d, w) = (ok, d', w')" by (cases "bareAddr user = []") (simp_all add: au Let_def)
    from Cons.IH [OF this] show ?thesis by auto
  next
    case False
    then obtain g where o: "bareAddr user \<noteq> []" "latestScreenDigest name d = Some g" by auto
    show ?thesis
    proof (cases "ye_inbox e name")
      case None
      with o Cons.prems show ?thesis by (simp add: au Let_def later_refl)
    next
      case (Some ms)
      obtain d1 w1 where f: "fold (handle_reply s e name (bareAddr user) g) (screenReplies ms) (d, w) = (d1, w1)" by fastforce
      with Some o Cons.prems have "reply_tick s e as (d1, w1) = (ok, d', w')" by (simp add: au Let_def)
      from Cons.IH [OF this] have i: "later_screen d1 d'" "xd_db d' = xd_db d1 \<or> list_ex (may_decide e d1) as" by simp_all
      from handle_replies_keep [OF f] have k: "later_screen d d1"
        "xd_db d1 = xd_db d \<or> may_decide e d au"
        using o Some by (auto simp: may_decide_def au status_ok list_ex_iff)
      have "list_ex (may_decide e d1) as \<Longrightarrow> list_ex (may_decide e d) as"
        using may_decide_earlier [OF k(1)] by (auto simp: list_ex_iff)
      with i k show ?thesis using later_trans [OF k(1) i(1)] by auto
    qed
  qed
qed (simp add: later_refl)

text \<open>A tick leaves rules, held mail and trust as they were, or the inbox of some account has a reply that was
  not handled before, answers the latest digest, which was not used, comes from the account's own address, has passing
  DKIM and DMARC results and carries the digest's token.\<close>
theorem only_checked_replies_decide:
  "xd_db (fst (snd (ScreenReplyTick s e (d, w)))) = xd_db d \<or> list_ex (may_decide e d) (ye_accounts e)"
proof -
  obtain ok d' w' where "reply_tick s e (ye_accounts e) (d, w) = (ok, d', w')"
    by (cases "reply_tick s e (ye_accounts e) (d, w)") auto
  from reply_tick_keeps [OF this] this show ?thesis by (auto simp: ScreenReplyTick_def)
qed


section \<open>Each reply once\<close>

definition reply_keys :: "screen_db \<Rightarrow> (string \<times> nat) list" where
  "reply_keys d = map (\<lambda>x. (sp_account x, sp_uid x)) (xd_replies d)"

lemma record_reply_keys: "distinct (reply_keys d) \<Longrightarrow> distinct (reply_keys (record_reply a u status d))"
  by (auto simp: reply_keys_def record_reply_def list_ex_iff)

lemma handle_reply_keys:
  assumes "distinct (reply_keys (fst st))"
  shows "distinct (reply_keys (fst (handle_reply s e a owner g r st)))"
proof -
  obtain d w where st: "st = (d, w)" by (cases st)
  obtain status d1 w1 where x: "(if screenReplyStatus r g owner = StatusOk then decide_reply s e a owner g r d w
      else (screenReplyStatus r g owner, d, w)) = (status, d1, w1)"
    by (cases "if screenReplyStatus r g owner = StatusOk then decide_reply s e a owner g r d w else (screenReplyStatus r g owner, d, w)") auto
  then have "xd_replies d1 = xd_replies d" by (auto split: if_splits dest: decide_reply_keeps)
  then have "distinct (reply_keys d1)" using assms by (simp add: reply_keys_def st)
  from record_reply_keys [OF this] show ?thesis using assms x by (simp add: handle_reply_def st)
qed

lemma handle_replies_keys: "distinct (reply_keys (fst st)) \<Longrightarrow> distinct (reply_keys (fst (fold (handle_reply s e a owner g) rs st)))"
  by (rule fold_preserves [where P = "\<lambda>st. distinct (reply_keys (fst st))"]) (simp_all add: handle_reply_keys)

lemma reply_tick_keys: "distinct (reply_keys (fst st)) \<Longrightarrow> distinct (reply_keys (fst (snd (reply_tick s e as st))))"
proof (induction "as" arbitrary: st)
  case (Cons au "as")
  have "distinct (reply_keys (fst (snd (reply_tick s e as (fold (handle_reply s e a owner g) rs st)))))" for a owner g rs
    by (rule Cons.IH [OF handle_replies_keys [OF Cons.prems]])
  with Cons.IH [OF Cons.prems] Cons.prems show ?case by (cases au) (simp add: Let_def split: option.split)
qed simp

text \<open>However often the inbox is read, a reply is handled once: what is recorded of the replies has one row for a message,
  and a message that has a row is passed over.\<close>
theorem replies_are_handled_once:
  "distinct (reply_keys (fst (RunScreenReplies mode s es (\<lparr>xd_db = b, xd_digests = gs, xd_replies = []\<rparr>, w)))) \<and>
   (if handled a r d then handle_reply s e a owner g r (d, w) = (d, w) else True)"
proof -
  have "distinct (reply_keys (fst (fold (\<lambda>e st. snd (ScreenReplyTick s e st)) es (\<lparr>xd_db = b, xd_digests = gs, xd_replies = []\<rparr>, w))))"
    by (rule fold_preserves [where P = "\<lambda>st. distinct (reply_keys (fst st))"])
       (simp_all add: ScreenReplyTick_def reply_tick_keys reply_keys_def [of "\<lparr>xd_db = b, xd_digests = gs, xd_replies = []\<rparr>"])
  then show ?thesis
    by (simp add: RunScreenReplies_def handle_reply_def handled_def reply_keys_def)
qed

section \<open>Where the checks fall short\<close>

text \<open>A reply with nothing to do gets no answer, although the confirmation has a line for this.\<close>

lemma no_commands_no_answer:
  "fst (ParseScreenCommands (sy_text r) (sg_numbering g)) = [] \<Longrightarrow> decide_reply s e a owner g r d w = (StatusError, d, w)"
  by (cases "ParseScreenCommands (sy_text r) (sg_numbering g)") (simp add: decide_reply_def Screen_def)

definition held_digest :: screen_digest where
  "held_digest = \<lparr>sg_id = 1, sg_account = ''a'', sg_ref = ''<d1@imap-mcp.invalid>'', sg_token = ''SCR-1'', sg_numbering = [''ads@corp.org'', ''news@corp.org''],
     sg_used = None\<rparr>"

definition held_db :: screen_db where
  "held_db = \<lparr>xd_db = two_holds, xd_digests = [held_digest], xd_replies = []\<rparr>"

definition digest_reply :: "nat \<Rightarrow> string list \<Rightarrow> string \<Rightarrow> inbox_msg" where
  "digest_reply u ar cmd = \<lparr>ib_uid = u, ib_From = [''me@x.org''], ib_InReplyTo = [''d1@imap-mcp.invalid''], ib_body = True,
     ib_header = Some (ar, []), ib_text = cmd @ [newline_char] @ ''SCR-1''\<rparr>"

definition reply_inbox :: "inbox_msg list \<Rightarrow> screen_env" where
  "reply_inbox ms = \<lparr>ye_pa = (\<lambda>s. None), ye_service = sample_service, ye_cfg = sample_screen_cfg, ye_accounts = [(''a'', ''me@x.org'')],
     ye_inbox = (\<lambda>a. Some ms)\<rparr>"

definition reply_server :: "nat reply_server" where
  "reply_server = screen_server.extend sample_screen \<lparr>rs_append = (\<lambda>a c w. w)\<rparr>"

definition statuses :: "screen_env \<Rightarrow> reply_status list \<times> string list" where
  "statuses e = (case ScreenReplyTick reply_server e (held_db, 0) of
     (ok, d, w) \<Rightarrow> (map sp_status (xd_replies d), map dc_sender (sd_decisions (xd_db d))))"

text \<open>The token works more than once: of two replies read in one tick, the second is checked against the digest as it was
  before the first, and both decide.\<close>
theorem token_works_twice:
  "statuses (reply_inbox [digest_reply 1 [''mx; dkim=pass dmarc=pass''] ''approve 1'', digest_reply 2 [''mx; dkim=pass dmarc=pass''] ''approve 2'']) =
     ([StatusOk, StatusOk], [''ads@corp.org'', ''news@corp.org''])"
  by code_simp

text \<open>Any header field counts as the receiving server's: one that the sender wrote makes up for the server's own verdict.\<close>
theorem forged_results_count:
  "statuses (reply_inbox [digest_reply 1 [''mx.x.org; dkim=fail dmarc=fail'', ''evil.test; dkim=pass; dmarc=pass''] ''approve 1'']) =
     ([StatusOk], [''ads@corp.org''])"
  by code_simp


section \<open>Commands of the inbound channel\<close>

text \<open>What must hold for a message of the inbound channel to decide: the mode, every gate of the account it arrived on and
  a verb \<open>screen\<close> that this account allows.\<close>

definition may_command :: "'s verifier \<Rightarrow> gotime \<Rightarrow> account_config option \<Rightarrow> message \<Rightarrow> 's \<Rightarrow> bool" where
  "may_command v now acct msg s =
     (case acct of None \<Rightarrow> False | Some a \<Rightarrow>
        (case (acct_Inbound a, parse_command (msg_Body msg)) of
           (Some ic, Inr cmd) \<Rightarrow>
             in_Enabled ic \<and> gates_satisfied (v_mac v) (in_Gates ic) now msg cmd \<and> nonce_accepted (v_nonces v) (acct_Name a) cmd s \<and>
             capability_allowed (cmd_Verb cmd) (in_Capabilities ic) \<and> equal_fold (cmd_Verb cmd) ''screen''
         | _ \<Rightarrow> False))"

lemma HandleInboundScreen_idle:
  assumes "EmailMode mode \<noteq> ''hmac'' \<or> (case p of None \<Rightarrow> True | Some vc \<Rightarrow> \<not> equal_fold (cmd_Verb (vc_Command vc)) ''screen'')"
  shows "HandleInboundScreen json mode dflt y e ea p st = st"
  using assms by (cases st; cases p) (auto simp: HandleInboundScreen_def)

text \<open>A message of the inbound channel decides nothing unless the mode is set, the account it arrived on has its channel
  enabled, every gate configured there holds, the nonce is accepted and the verb is an allowed \<open>screen\<close>.\<close>
theorem inbound_screen_needs_gates:
  "HandleInboundScreen json mode dflt y e ea (Verified (fst (evaluate v now acct msg s))) st = st \<or>
   (EmailMode mode = ''hmac'' \<and> may_command v now acct msg s)"
proof (cases "EmailMode mode = ''hmac'' \<and> (case Verified (fst (evaluate v now acct msg s)) of None \<Rightarrow> False
    | Some vc \<Rightarrow> equal_fold (cmd_Verb (vc_Command vc)) ''screen'')")
  case True
  then obtain vc where vc: "Verified (fst (evaluate v now acct msg s)) = Some vc" "equal_fold (cmd_Verb (vc_Command vc)) ''screen''"
    by (auto split: option.splits)
  from evaluate_verified [OF vc(1)] have t: "Triggered (fst (evaluate v now acct msg s))"
    and p: "parse_command (msg_Body msg) = Inr (vc_Command vc)" by auto
  from t p vc(2) have "may_command v now acct msg s" by (auto simp: evaluate_triggered_cases may_command_def)
  with True show ?thesis by blast
next
  case False
  have "HandleInboundScreen json mode dflt y e ea (Verified (fst (evaluate v now acct msg s))) st = st"
    by (rule HandleInboundScreen_idle) (use False in \<open>auto split: option.splits\<close>)
  then show ?thesis by blast
qed

text \<open>The account of the command need not be the account it arrived on, and the mode does not ask for a signature: an
  account whose channel checks a sender's address only decides for every other one.\<close>

definition loose_account :: account_config where
  "loose_account = \<lparr>acct_Name = ''b'', acct_Inbound = Some \<lparr>in_Enabled = True, in_WatchFolder = ''Cmd'',
     in_Gates = \<lparr>Allowlist = [''bot@y.org''], RequireDKIM = False, RequireDMARC = False, HMACSecret = [], ReplayWindowMinutes = 0, RequirePGP = False\<rparr>,
     in_Capabilities = [''screen'']\<rparr>\<rparr>"

definition screen_message :: message where
  "screen_message = \<lparr>msg_From = ''bot@y.org'', msg_Headers = Map.empty,
     msg_Body = env_begin @ [newline_char] @ ''verb: screen'' @ [newline_char] @ ''nonce: n1'' @ [newline_char] @ env_end\<rparr>"

definition open_verifier :: "unit verifier" where
  "open_verifier = \<lparr>v_nonces = Some (\<lambda>a n t s. (Inr False, s)), v_mac = (\<lambda>k t. [])\<rparr>"

theorem unsigned_command_decides_elsewhere:
  "Passed (fst (evaluate open_verifier 0 (Some loose_account) screen_message ())) = [''allowlist'', ''replay''] \<and>
   map dc_sender (sd_decisions (xd_db (fst (HandleInboundScreen
     (\<lambda>j. Some \<lparr>sa_Account = ''a'', sa_Commands = ''approve 1'', sa_Decisions = []\<rparr>) ''hmac'' ''a'' reply_server (reply_inbox []) ''b''
     (Verified (fst (evaluate open_verifier 0 (Some loose_account) screen_message ()))) (held_db, 0))))) = [''ads@corp.org'']"
  by code_simp

end
