(* ===== verification/Spec2Isabelle.thy ===== *)
theory Spec2Isabelle
  imports Imap_Prelude Go_Time Bus Trust Nonces Inbound Cache Cache_Inv Syncer Sync_Inv Sync_Props
    Gates Enrich Enrich_Inv Enrich_Props Webhook Outbox Dispatch Dispatch_Props
    Query Query_Props Auth Auth_Props State_DB Anomaly Anomaly_Props Intel Intel_Inv Intel_Props Intel_Runs Sandbox
    Roles Roles_Props Verdict Verdict_Props Unsubscribe Unsubscribe_Props
    New_Sender New_Sender_Props Rules Rules_Props Learn Learn_Props Screener Screener_Props
    Mailbox Mailbox_Props Threads Threads_Props Export Export_Props
    DB_Files DB_Files_Props Migrate Migrate_Props Pool Smtp Smtp_Props Replies Replies_Props Screen_Mail Screen_Mail_Props
begin

text \<open>
  A verification library for imap-mcp, a daemon that gives AI agents access to mail: it mirrors IMAP
  folders into a cache database, enriches the copies with embeddings and classifications, scans headers for
  intelligence about senders, runs rules and a hold for new senders, takes commands by signed mail, and
  answers over MCP tools, a REST API and webhooks.

  \<^bold>\<open>How the parts interact.\<close> The sync engine (\<open>internal/sync\<close>) writes the cache tables
  (\<open>internal/db/cache.go\<close>) and publishes \<open>message.synced\<close> and \<open>message.removed\<close> on the bus
  (\<open>internal/bus\<close>). The enrichment pipeline (\<open>internal/enrichment\<close>) takes items from the queue table, held
  back by the gates while the machine is busy. The header scan (\<open>internal/intel\<close>) fills the state database
  with an index, sender profiles, conversations and findings; rules, the new-sender hold, learning, the
  screener, the sender roles and the verdict model (\<open>internal/service\<close>, \<open>internal/verdict\<close>) read and write
  these tables. The inbound channel (\<open>internal/inbound\<close>) hands mail to the trust gates (\<open>internal/trust\<close>) and
  publishes what they decide; the webhook enqueuer (\<open>internal/webhook\<close>) subscribes to the bus, writes the outbox
  and the dispatcher drains it. \<open>internal/httpauth\<close> and the scope tables stand before every tool and route.

  \<^bold>\<open>Theories and code.\<close> A theory \<open>X\<close> holds the model of a part, \<open>X_Inv\<close> its invariant, \<open>X_Props\<close> and
  \<open>X_Runs\<close> what is shown of it.

  \<^item> \<open>Imap_Prelude\<close>, \<open>Go_Time\<close>: strings as byte lists with the functions of Go's \<open>strings\<close>, lemma
    collections, folds that keep a predicate, instants and durations.
  \<^item> \<open>Bus\<close> (\<open>bus/bus.go\<close>): events, subscribers in order, dispatch.
  \<^item> \<open>Trust\<close>, \<open>Nonces\<close>, \<open>Inbound\<close> (\<open>trust/\<close>, \<open>db/nonces.go\<close>, \<open>inbound/\<close>): the envelope, every gate in the order
    of \<open>Evaluate\<close>, the replay store (locale \<open>nonce_store\<close>) and the watcher. Shown: a command triggers exactly
    when every gate holds, no nonce triggers twice, equal canonical bytes bind the command.
  \<^item> \<open>Cache\<close>, \<open>Syncer\<close> (\<open>db/cache.go\<close>, \<open>sync/\<close>): the cache tables as lists of records, one cycle over
    accounts and folders, the cleaning pass, the run loop and the sweep. The locales \<open>folder_body\<close>,
    \<open>folder_inv\<close> and \<open>cycle_inv\<close> lift what one folder keeps to whole cycles. Shown: schema
    constraints hold in every reachable cache, a clean cycle mirrors the server (up to mail expunged while it runs).
  \<^item> \<open>Gates\<close>, \<open>Enrich\<close> (\<open>enrichment/\<close>): the load gates and the token bucket, the queue with lanes, retries and
    backoff (locales \<open>open_gate\<close>, \<open>pipeline_inv\<close>). Shown: the run keeps the database well formed,
    a batch settles exactly what it selects, each item by its own result, and every batch decreases the work.
  \<^item> \<open>Webhook\<close>, \<open>Outbox\<close>, \<open>Dispatch\<close> (\<open>webhook/\<close>, \<open>db/webhooks.go\<close>): payloads, the outbox tables, enqueuing and
    delivery (locale \<open>progress\<close>). Shown: one \<open>RunOnce\<close> ends and, unless cancelled, leaves nothing that was due when it
    began, as long as the clock does not go back; attempts are bounded.
  \<^item> \<open>Query\<close> (\<open>query/query.go\<close>): the compiler from requests to SQL text and arguments. Shown: no value
    reaches the text.
  \<^item> \<open>Auth\<close> (\<open>httpauth/\<close>, \<open>config/auth.go\<close>, \<open>mcp/scopes.go\<close>, \<open>api/server.go\<close>): tokens, secrets, scopes of
    tools and routes.
  \<^item> \<open>State_DB\<close>, \<open>Intel\<close>, \<open>Anomaly\<close>, \<open>Roles\<close> (\<open>db/schema.go\<close>, \<open>intel/\<close>): the state tables, one batch of the scan,
    pairing of replies, anomaly checks and scores, roles. Shown: in every reachable state profiles
    count exactly what the index holds; the batched recomputation of roles refines its specification.
  \<^item> \<open>Rules\<close>, \<open>Learn\<close>, \<open>New_Sender\<close>, \<open>Screener\<close>, \<open>Verdict\<close>, \<open>Unsubscribe\<close> (\<open>service/\<close>, \<open>verdict/\<close>,
    \<open>unsubscribe/\<close>): what acts on mail without the owner. Shown: only valid rules are stored, suggestions
    spare contacts, rescued senders are never held, a hold has grounds, decisions settle their sender, the
    model's answers cannot hold mail unless they parse, nothing is sent to an unsubscribe host without authority
    and no connection goes into the blocks of non-public addresses, which are stated as tables of their own.
  \<^item> \<open>Mailbox\<close>, \<open>Threads\<close>, \<open>Export\<close> (\<open>service/mail.go\<close>, \<open>thread.go\<close>, \<open>export.go\<close>): moving and deleting mail on a
    server that keeps to its protocol (locale \<open>imap_server\<close>, interpreted on a reference server), pages on 32-bit
    sequence numbers, conversations, exports. Shown: no other message is touched where the server can remove single
    messages or no other session interferes, a delete to the trash loses nothing, an mbox file reads back, caps
    hold. Between the commands other sessions may change flags and add mail; that they remove mail is left out.
  \<^item> \<open>Sandbox\<close> (\<open>output/writer.go\<close>): path resolution and the files it can reach; files are a map from path texts, so
    symbolic links, which \<open>os.WriteFile\<close> follows, are not seen.
  \<^item> \<open>DB_Files\<close>, \<open>Migrate\<close> (\<open>db/db.go\<close>, \<open>encrypt.go\<close>, \<open>migrate.go\<close>): detecting and opening databases, the
    conversion to an encrypted one as a history of file maps, the split of an old database, later columns. Shown:
    a crash at any step leaves the original or a copy with the same content, no key and no plain file open
    otherwise, the split keeps the owner's tables and a backup; an upgrade cut short forgets its rescan.
  \<^item> \<open>Pool\<close>, \<open>Smtp\<close> (\<open>imap/pool.go\<close>, \<open>smtp/\<close>, \<open>service/send.go\<close>): connections and their renewal, the message and
    the SMTP session. Shown: fields cannot add headers and the password is only sent encrypted or to the
    same machine; an account down at the start stays down, STARTTLS accounts are not encrypted.
  \<^item> \<open>Replies\<close> (\<open>service/replies.go\<close>): the lists of conversations that wait, with the batches of the live check.
    Shown: the batched loop meets its specification, every item waits, dismissed ones stay away over
    any later scans, listings and dismissals until another message is the newest.
  \<^item> \<open>Screen_Mail\<close> (\<open>service/screenmail.go\<close>): deciding held senders by replies to the digest and by commands of the
    inbound channel. Shown: only replies that pass every check decide, each once; and where the checks
    fall short of their description.

  \<^bold>\<open>Conventions.\<close> A struct is a record, a table the list of its rows in insertion order, an error a
  constructor of a datatype beside the results (or \<open>None\<close> where callers do not distinguish errors). The clock,
  random ids, the IMAP server, HTTP, models of Ollama, hashes, MIME and JSON decoding are arguments of the
  definitions that use them; a law assumed of one is a named hypothesis or a locale, and a witness or an
  interpretation shows that it can hold. Database failures are inputs where the code reacts to them
  (\<open>Nonces\<close>, \<open>Inbound\<close>) and are otherwise left out.

  \<^bold>\<open>Loops and bounds.\<close> Loops over rows are folds or structural recursion. The drain loop of the dispatcher and the
  pipeline's batches are driven by a measure (locale \<open>progress\<close>, \<open>batch_decreases_work\<close>), the role batches end
  because each clears the marks of its rows, and \<open>send_request\<close> carries fuel 3, which is the client's own limit of two
  redirects (lemma \<open>send_request_fuel\<close>). Integers are \<open>int\<close> or \<open>nat\<close> where the code's 64-bit values
  stay far from their limits, and words where wrapping matters: sequence numbers (\<open>Mailbox\<close>), IPv4
  and IPv6 addresses (\<open>Unsubscribe\<close>).

  \<^bold>\<open>Not modelled.\<close> The glue that decodes requests and writes answers (\<open>api/handlers*.go\<close>, \<open>mcp/tools/\<close>, \<open>cmd/imap-mcp\<close>,
  \<open>server/server.go\<close>), the reading of configuration files and secrets, the authenticators of \<open>imap/auth\<close>
  (OAuth 2 over HTTP), the HTTP client for Ollama, and text that is only printed (\<open>setup.go\<close>, \<open>rulepacks\<close>). Of the
  services, the knowledge graph (\<open>intel/kg.go\<close>), digests, statistics, attachments, links and the
  search over several accounts are left to later work. Locks and goroutines are replaced by the
  order of the steps they allow.
\<close>

end
